(* ===== verification/Prelude.thy ===== *)
theory Prelude
  imports Main "HOL-Library.Word"
begin

text \<open>
  Shared vocabulary of the development: machine integers and byte strings, the outcome of a
  Rust function (\<open>Ok\<close>, \<open>Err\<close>, or a panic), the checked and saturating integer operations of
  the Rust standard library, bit flags, and the generic facts on lists and words that the
  component theories rely on. The workspace is built with \<^verbatim>\<open>overflow-checks = true\<close> in
  release mode, so plain \<open>+\<close> and \<open>-\<close> on machine integers panic on overflow; they are the
  \<open>plus_u\<close> and \<open>minus_u\<close> below.
\<close>

unbundle bit_operations_syntax

section \<open>Types\<close>

type_synonym u8 = "8 word"
type_synonym u32 = "32 word"
type_synonym u64 = "64 word"
type_synonym u128 = "128 word"
type_synonym bytes = "8 word list"
type_synonym hash256 = "256 word"
type_synonym pubkey = "264 word"

datatype ('a, 'e) res = Ok 'a | Err 'e | Panic

named_theorems rust_arith \<open>what checked arithmetic means on the natural numbers\<close>
named_theorems res_simps \<open>case analysis of outcomes\<close>

section \<open>Outcomes\<close>

fun bind_res :: "('a, 'e) res \<Rightarrow> ('a \<Rightarrow> ('b, 'e) res) \<Rightarrow> ('b, 'e) res" where
  "bind_res (Ok x) f = f x"
| "bind_res (Err e) f = Err e"
| "bind_res Panic f = Panic"

definition ok_or :: "'a option \<Rightarrow> 'e \<Rightarrow> ('a, 'e) res" where
  "ok_or x e = (case x of None \<Rightarrow> Err e | Some v \<Rightarrow> Ok v)"

definition expect :: "'a option \<Rightarrow> ('a, 'e) res" where
  "expect x = (case x of None \<Rightarrow> Panic | Some v \<Rightarrow> Ok v)"

definition ensure :: "bool \<Rightarrow> 'e \<Rightarrow> (unit, 'e) res" where
  "ensure b e = (if b then Ok () else Err e)"

definition rust_assert :: "bool \<Rightarrow> (unit, 'e) res" where
  "rust_assert b = (if b then Ok () else Panic)"

fun map_err :: "('e \<Rightarrow> 'f) \<Rightarrow> ('a, 'e) res \<Rightarrow> ('a, 'f) res" where
  "map_err f (Ok x) = Ok x"
| "map_err f (Err e) = Err (f e)"
| "map_err f Panic = Panic"

definition is_ok :: "('a, 'e) res \<Rightarrow> bool" where
  "is_ok r = (case r of Ok _ \<Rightarrow> True | _ \<Rightarrow> False)"

lemma bind_res_eq_Ok [simp]: "bind_res m f = Ok y \<longleftrightarrow> (\<exists>x. m = Ok x \<and> f x = Ok y)"
  by (cases m) auto

lemma bind_res_eq_Err: "bind_res m f = Err e \<longleftrightarrow> m = Err e \<or> (\<exists>x. m = Ok x \<and> f x = Err e)"
  by (cases m) auto

lemma bind_res_eq_Panic: "bind_res m f = Panic \<longleftrightarrow> m = Panic \<or> (\<exists>x. m = Ok x \<and> f x = Panic)"
  by (cases m) auto

lemma bind_res_assoc: "bind_res (bind_res m f) g = bind_res m (\<lambda>x. bind_res (f x) g)"
  by (cases m) auto

lemma bind_res_Ok_right [simp]: "bind_res m Ok = m"
  by (cases m) auto

lemma ok_or_eq_Ok [simp]: "ok_or x e = Ok v \<longleftrightarrow> x = Some v"
  by (cases x) (auto simp: ok_or_def)

lemma ok_or_Some [simp]: "ok_or (Some v) e = Ok v"
  and ok_or_None [simp]: "ok_or None e = Err e"
  by (auto simp: ok_or_def)

lemma ok_or_not_Panic [simp]: "ok_or x e \<noteq> Panic"
  by (cases x) (auto simp: ok_or_def)

lemma expect_eq_Ok [simp]: "expect x = Ok v \<longleftrightarrow> x = Some v"
  by (cases x) (auto simp: expect_def)

lemma expect_Some [simp]: "expect (Some v) = Ok v"
  and expect_None [simp]: "expect None = Panic"
  by (auto simp: expect_def)

lemma ensure_eq_Ok [simp]: "ensure b e = Ok u \<longleftrightarrow> b"
  by (auto simp: ensure_def)

lemma ensure_eq_Err [simp]: "ensure b e = Err e' \<longleftrightarrow> \<not> b \<and> e' = e"
  by (auto simp: ensure_def)

lemma ensure_not_Panic [simp]: "ensure b e \<noteq> Panic"
  by (auto simp: ensure_def)

lemma ensure_True [simp]: "ensure True e = Ok ()"
  and ensure_False [simp]: "ensure False e = Err e"
  by (auto simp: ensure_def)

lemma rust_assert_eq_Ok [simp]: "rust_assert b = Ok u \<longleftrightarrow> b"
  by (auto simp: rust_assert_def)

lemma rust_assert_True [simp]: "rust_assert True = Ok ()"
  and rust_assert_False [simp]: "rust_assert False = Panic"
  by (auto simp: rust_assert_def)

lemma rust_assert_not_Err [simp]: "rust_assert b \<noteq> Err e"
  by (auto simp: rust_assert_def)

lemma map_err_eq_Ok [simp]: "map_err f r = Ok x \<longleftrightarrow> r = Ok x"
  by (cases r) auto

lemma map_err_eq_Err: "map_err f r = Err e \<longleftrightarrow> (\<exists>e'. r = Err e' \<and> e = f e')"
  by (cases r) auto

lemma map_err_eq_Panic [simp]: "map_err f r = Panic \<longleftrightarrow> r = Panic"
  by (cases r) auto

lemma is_ok_iff: "is_ok r \<longleftrightarrow> (\<exists>x. r = Ok x)"
  by (cases r) (auto simp: is_ok_def)

lemma is_ok_simps [simp]: "is_ok (Ok x)" "\<not> is_ok (Err e)" "\<not> is_ok Panic"
  by (auto simp: is_ok_def)

lemmas res_cases = bind_res_eq_Err bind_res_eq_Panic map_err_eq_Err
declare res_cases [res_simps]

section \<open>Iterators whose closures may panic or fail\<close>

fun try_fold :: "('b \<Rightarrow> 'a \<Rightarrow> ('b, 'e) res) \<Rightarrow> 'b \<Rightarrow> 'a list \<Rightarrow> ('b, 'e) res" where
  "try_fold f acc [] = Ok acc"
| "try_fold f acc (x # xs) = bind_res (f acc x) (\<lambda>acc'. try_fold f acc' xs)"

fun traverse_res :: "('a \<Rightarrow> ('b, 'e) res) \<Rightarrow> 'a list \<Rightarrow> ('b list, 'e) res" where
  "traverse_res f [] = Ok []"
| "traverse_res f (x # xs) = bind_res (f x) (\<lambda>y. bind_res (traverse_res f xs) (\<lambda>ys. Ok (y # ys)))"

fun filter_res :: "('a \<Rightarrow> (bool, 'e) res) \<Rightarrow> 'a list \<Rightarrow> ('a list, 'e) res" where
  "filter_res p [] = Ok []"
| "filter_res p (x # xs) =
     bind_res (p x) (\<lambda>b. bind_res (filter_res p xs) (\<lambda>ys. Ok (if b then x # ys else ys)))"

fun any_res :: "('a \<Rightarrow> (bool, 'e) res) \<Rightarrow> 'a list \<Rightarrow> (bool, 'e) res" where
  "any_res p [] = Ok False"
| "any_res p (x # xs) = bind_res (p x) (\<lambda>b. if b then Ok True else any_res p xs)"

lemma traverse_res_Ok: "(\<And>x. x \<in> set xs \<Longrightarrow> f x = Ok (g x)) \<Longrightarrow> traverse_res f xs = Ok (map g xs)"
  by (induction xs) auto

lemma filter_res_Ok: "(\<And>x. x \<in> set xs \<Longrightarrow> p x = Ok (q x)) \<Longrightarrow> filter_res p xs = Ok (filter q xs)"
  by (induction xs) auto

lemma any_res_Ok: "(\<And>x. x \<in> set xs \<Longrightarrow> p x = Ok (q x)) \<Longrightarrow> any_res p xs = Ok (\<exists>x\<in>set xs. q x)"
  by (induction xs) auto

section \<open>Machine integers\<close>

definition checked_add :: "'w::len word \<Rightarrow> 'w word \<Rightarrow> 'w word option" where
  "checked_add a b = (if unat a + unat b < 2 ^ LENGTH('w) then Some (a + b) else None)"

definition checked_sub :: "'w::len word \<Rightarrow> 'w word \<Rightarrow> 'w word option" where
  "checked_sub a b = (if b \<le> a then Some (a - b) else None)"

definition checked_mul :: "'w::len word \<Rightarrow> 'w word \<Rightarrow> 'w word option" where
  "checked_mul a b = (if unat a * unat b < 2 ^ LENGTH('w) then Some (a * b) else None)"

definition saturating_add :: "'w::len word \<Rightarrow> 'w word \<Rightarrow> 'w word" where
  "saturating_add a b = (if unat a + unat b < 2 ^ LENGTH('w) then a + b else - 1)"

definition saturating_sub :: "'w::len word \<Rightarrow> 'w word \<Rightarrow> 'w word" where
  "saturating_sub a b = (if b \<le> a then a - b else 0)"

definition saturating_mul :: "'w::len word \<Rightarrow> 'w word \<Rightarrow> 'w word" where
  "saturating_mul a b = (if unat a * unat b < 2 ^ LENGTH('w) then a * b else - 1)"

definition plus_u :: "'w::len word \<Rightarrow> 'w word \<Rightarrow> ('w word, 'e) res" where
  "plus_u a b = expect (checked_add a b)"

definition minus_u :: "'w::len word \<Rightarrow> 'w word \<Rightarrow> ('w word, 'e) res" where
  "minus_u a b = expect (checked_sub a b)"

lemma unat_bound: "unat (x :: 'w::len word) < 2 ^ LENGTH('w)"
  by (rule unsigned_less)

lemma unat_add_no_overflow [rust_arith]:
  fixes a b :: "'w::len word"
  shows "unat a + unat b < 2 ^ LENGTH('w) \<Longrightarrow> unat (a + b) = unat a + unat b"
  by (simp add: unat_word_ariths)

lemma unat_mul_no_overflow [rust_arith]:
  fixes a b :: "'w::len word"
  shows "unat a * unat b < 2 ^ LENGTH('w) \<Longrightarrow> unat (a * b) = unat a * unat b"
  by (simp add: unat_word_ariths)

lemma checked_add_eq_Some [rust_arith]:
  fixes a b :: "'w::len word"
  shows "checked_add a b = Some c \<longleftrightarrow> unat c = unat a + unat b"
proof
  assume "checked_add a b = Some c"
  then show "unat c = unat a + unat b"
    by (auto simp: checked_add_def unat_add_no_overflow split: if_splits)
next
  assume c: "unat c = unat a + unat b"
  then have "unat a + unat b < 2 ^ LENGTH('w)"
    using unat_bound [of c] by simp
  moreover from this c have "c = a + b"
    by (intro word_unat_eq_iff [THEN iffD2]) (simp add: unat_add_no_overflow)
  ultimately show "checked_add a b = Some c"
    by (simp add: checked_add_def)
qed

lemma checked_add_eq_None [rust_arith]:
  fixes a b :: "'w::len word"
  shows "checked_add a b = None \<longleftrightarrow> 2 ^ LENGTH('w) \<le> unat a + unat b"
  by (auto simp: checked_add_def)

lemma checked_sub_eq_Some [rust_arith]:
  fixes a b :: "'w::len word"
  shows "checked_sub a b = Some c \<longleftrightarrow> unat a = unat b + unat c"
proof -
  have "unat (a - b) = unat a - unat b" if "b \<le> a"
    using that by (rule unat_sub)
  then show ?thesis
    by (auto simp: checked_sub_def word_le_nat_alt word_unat_eq_iff split: if_splits)
qed

lemma checked_sub_eq_None [rust_arith]:
  "checked_sub a b = None \<longleftrightarrow> unat a < unat b"
  by (auto simp: checked_sub_def word_le_nat_alt)

lemma checked_mul_eq_Some [rust_arith]:
  fixes a b :: "'w::len word"
  shows "checked_mul a b = Some c \<longleftrightarrow> unat c = unat a * unat b"
proof
  assume "checked_mul a b = Some c"
  then show "unat c = unat a * unat b"
    by (auto simp: checked_mul_def unat_mul_no_overflow split: if_splits)
next
  assume c: "unat c = unat a * unat b"
  then have "unat a * unat b < 2 ^ LENGTH('w)"
    using unat_bound [of c] by simp
  moreover from this c have "c = a * b"
    by (intro word_unat_eq_iff [THEN iffD2]) (simp add: unat_mul_no_overflow)
  ultimately show "checked_mul a b = Some c"
    by (simp add: checked_mul_def)
qed

lemma checked_mul_eq_None [rust_arith]:
  fixes a b :: "'w::len word"
  shows "checked_mul a b = None \<longleftrightarrow> 2 ^ LENGTH('w) \<le> unat a * unat b"
  by (auto simp: checked_mul_def)

lemma unat_saturating_sub [rust_arith]: "unat (saturating_sub a b) = unat a - unat b"
proof (cases "b \<le> a")
  case True
  then show ?thesis by (simp add: saturating_sub_def unat_sub)
next
  case False
  then show ?thesis by (simp add: saturating_sub_def word_le_nat_alt)
qed

lemma unat_minus_one_word_max: "unat (- 1 :: 'w::len word) = 2 ^ LENGTH('w) - 1"
  by (simp add: unsigned_minus_1_eq_mask mask_eq_exp_minus_1)

lemma unat_saturating_add [rust_arith]:
  fixes a b :: "'w::len word"
  shows "unat (saturating_add a b) = min (unat a + unat b) (2 ^ LENGTH('w) - 1)"
  by (auto simp: saturating_add_def unat_add_no_overflow unat_minus_one_word_max)

lemma plus_u_eq_Ok [rust_arith]: "plus_u a b = Ok c \<longleftrightarrow> unat c = unat a + unat b"
  by (simp add: plus_u_def checked_add_eq_Some)

lemma minus_u_eq_Ok [rust_arith]: "minus_u a b = Ok c \<longleftrightarrow> unat a = unat b + unat c"
  by (simp add: minus_u_def checked_sub_eq_Some)

lemma plus_u_not_Err [simp]: "plus_u a b \<noteq> Err e"
  by (cases "checked_add a b") (simp_all add: plus_u_def)

lemma minus_u_not_Err [simp]: "minus_u a b \<noteq> Err e"
  by (cases "checked_sub a b") (simp_all add: minus_u_def)

section \<open>Bit flags\<close>

text \<open>\<^verbatim>\<open>bitflags\<close> values are words; \<open>contains\<close> asks for every bit of the argument.\<close>

definition contains :: "'w::len word \<Rightarrow> 'w word \<Rightarrow> bool" where
  "contains f g \<longleftrightarrow> f AND g = g"

lemma contains_refl [simp]: "contains f f"
  by (simp add: contains_def)

lemma contains_or_left [simp]: "contains (f OR g) g"
  by (auto simp: contains_def bit_eq_iff bit_simps)

lemma contains_or: "contains f g \<Longrightarrow> contains (f OR h) g"
  by (auto simp: contains_def bit_eq_iff bit_simps)

lemma contains_trans: "contains f g \<Longrightarrow> contains g h \<Longrightarrow> contains f h"
  by (auto simp: contains_def bit_eq_iff bit_simps)

lemma contains_zero_left [simp]: "contains 0 g \<longleftrightarrow> g = 0"
  by (auto simp: contains_def)

section \<open>Lists\<close>

lemma find_eq_Some_set: "List.find P xs = Some x \<Longrightarrow> x \<in> set xs \<and> P x"
  by (induction xs) (auto split: if_splits)

lemma find_eq_None_set: "List.find P xs = None \<longleftrightarrow> (\<forall>x\<in>set xs. \<not> P x)"
  by (induction xs) auto

lemma sum_list_filter_le_nat:
  fixes f :: "'a \<Rightarrow> nat"
  shows "sum_list (map f (filter P xs)) \<le> sum_list (map f xs)"
  by (induction xs) auto

lemma sum_list_filter_split:
  fixes f :: "'a \<Rightarrow> nat"
  shows "sum_list (map f xs) = sum_list (map f (filter P xs)) + sum_list (map f (filter (\<lambda>x. \<not> P x) xs))"
  by (induction xs) auto

end
