(* ===== verification/Channel_Types.thy ===== *)
theory Channel_Types
  imports Prelude
begin

text \<open>
  The data model of a payment channel, after \<^verbatim>\<open>crates/fiber-types/src/channel.rs\<close>: bit flags,
  TLC identifiers and statuses, the channel life-cycle state, commitment numbers, the TLC record
  and the two pending TLC lists (\<open>TlcState\<close>), with the operations that move a TLC along its
  status ladder. A Rust \<open>unreachable!\<close>, \<open>expect\<close> or failed \<open>assert!\<close> is the outcome
  \<open>Panic\<close>. The invariant \<open>wf_tlc_state\<close> rules every panic out and is kept by every operation;
  the lemmas \<open>*_wf\<close> give each operation as a plain list function under it.
\<close>

section \<open>Flags\<close>

definition PUBLIC :: u8 where "PUBLIC = 1"
definition ONE_WAY :: u8 where "ONE_WAY = 2"
definition EXTERNAL_FUNDING :: u8 where "EXTERNAL_FUNDING = 4"

definition OUR_INIT_SENT :: u32 where "OUR_INIT_SENT = 1"
definition THEIR_INIT_SENT :: u32 where "THEIR_INIT_SENT = 2"
definition INIT_SENT :: u32 where "INIT_SENT = OUR_INIT_SENT OR THEIR_INIT_SENT"
definition AWAITING_EXTERNAL_FUNDING :: u32 where "AWAITING_EXTERNAL_FUNDING = 4"

definition AWAITING_REMOTE_TX_COLLABORATION_MSG :: u32 where "AWAITING_REMOTE_TX_COLLABORATION_MSG = 1"
definition PREPARING_LOCAL_TX_COLLABORATION_MSG :: u32 where "PREPARING_LOCAL_TX_COLLABORATION_MSG = 2"
definition OUR_TX_COMPLETE_SENT :: u32 where "OUR_TX_COMPLETE_SENT = 4"
definition THEIR_TX_COMPLETE_SENT :: u32 where "THEIR_TX_COMPLETE_SENT = 8"
definition COLLABORATION_COMPLETED :: u32 where "COLLABORATION_COMPLETED = OUR_TX_COMPLETE_SENT OR THEIR_TX_COMPLETE_SENT"

definition OUR_COMMITMENT_SIGNED_SENT :: u32 where "OUR_COMMITMENT_SIGNED_SENT = 1"
definition THEIR_COMMITMENT_SIGNED_SENT :: u32 where "THEIR_COMMITMENT_SIGNED_SENT = 2"
definition COMMITMENT_SIGNED_SENT :: u32 where "COMMITMENT_SIGNED_SENT = OUR_COMMITMENT_SIGNED_SENT OR THEIR_COMMITMENT_SIGNED_SENT"

definition OUR_TX_SIGNATURES_SENT :: u32 where "OUR_TX_SIGNATURES_SENT = 1"
definition THEIR_TX_SIGNATURES_SENT :: u32 where "THEIR_TX_SIGNATURES_SENT = 2"
definition TX_SIGNATURES_SENT :: u32 where "TX_SIGNATURES_SENT = OUR_TX_SIGNATURES_SENT OR THEIR_TX_SIGNATURES_SENT"

definition OUR_CHANNEL_READY :: u32 where "OUR_CHANNEL_READY = 1"
definition THEIR_CHANNEL_READY :: u32 where "THEIR_CHANNEL_READY = 2"
definition CHANNEL_READY :: u32 where "CHANNEL_READY = OUR_CHANNEL_READY OR THEIR_CHANNEL_READY"

definition OUR_SHUTDOWN_SENT :: u32 where "OUR_SHUTDOWN_SENT = 1"
definition THEIR_SHUTDOWN_SENT :: u32 where "THEIR_SHUTDOWN_SENT = 2"
definition AWAITING_PENDING_TLCS :: u32 where "AWAITING_PENDING_TLCS = OUR_SHUTDOWN_SENT OR THEIR_SHUTDOWN_SENT"
definition DROPPING_PENDING :: u32 where "DROPPING_PENDING = 4"
definition WAITING_COMMITMENT_CONFIRMATION :: u32 where "WAITING_COMMITMENT_CONFIRMATION = 8"

definition COOPERATIVE :: u32 where "COOPERATIVE = 1"
definition UNCOOPERATIVE_LOCAL :: u32 where "UNCOOPERATIVE_LOCAL = 2"
definition ABANDONED :: u32 where "ABANDONED = 4"
definition FUNDING_ABORTED :: u32 where "FUNDING_ABORTED = 8"
definition UNCOOPERATIVE_REMOTE :: u32 where "UNCOOPERATIVE_REMOTE = 16"
definition WAITING_ONCHAIN_SETTLEMENT :: u32 where "WAITING_ONCHAIN_SETTLEMENT = 32"
definition ONCHAIN_SETTLEMENT_CONFIRMED :: u32 where "ONCHAIN_SETTLEMENT_CONFIRMED = 64"

definition ADD :: u8 where "ADD = 1"
definition REMOVE :: u8 where "REMOVE = 2"

lemmas flag_defs = PUBLIC_def ONE_WAY_def EXTERNAL_FUNDING_def OUR_INIT_SENT_def THEIR_INIT_SENT_def
  INIT_SENT_def AWAITING_EXTERNAL_FUNDING_def AWAITING_REMOTE_TX_COLLABORATION_MSG_def
  PREPARING_LOCAL_TX_COLLABORATION_MSG_def OUR_TX_COMPLETE_SENT_def THEIR_TX_COMPLETE_SENT_def
  COLLABORATION_COMPLETED_def OUR_COMMITMENT_SIGNED_SENT_def THEIR_COMMITMENT_SIGNED_SENT_def
  COMMITMENT_SIGNED_SENT_def OUR_TX_SIGNATURES_SENT_def THEIR_TX_SIGNATURES_SENT_def
  TX_SIGNATURES_SENT_def OUR_CHANNEL_READY_def THEIR_CHANNEL_READY_def CHANNEL_READY_def
  OUR_SHUTDOWN_SENT_def THEIR_SHUTDOWN_SENT_def AWAITING_PENDING_TLCS_def DROPPING_PENDING_def
  WAITING_COMMITMENT_CONFIRMATION_def COOPERATIVE_def UNCOOPERATIVE_LOCAL_def ABANDONED_def
  FUNDING_ABORTED_def UNCOOPERATIVE_REMOTE_def WAITING_ONCHAIN_SETTLEMENT_def
  ONCHAIN_SETTLEMENT_CONFIRMED_def ADD_def REMOVE_def

section \<open>TLC identifiers and statuses\<close>

datatype tlc_id = Offered u64 | Received u64

fun tlc_id_u64 :: "tlc_id \<Rightarrow> u64" where
  "tlc_id_u64 (Offered i) = i"
| "tlc_id_u64 (Received i) = i"

fun is_offered_id :: "tlc_id \<Rightarrow> bool" where
  "is_offered_id (Offered _) = True"
| "is_offered_id (Received _) = False"

definition is_received_id :: "tlc_id \<Rightarrow> bool" where
  "is_received_id i \<longleftrightarrow> \<not> is_offered_id i"

fun flip :: "tlc_id \<Rightarrow> tlc_id" where
  "flip (Offered i) = Received i"
| "flip (Received i) = Offered i"

lemma flip_flip [simp]: "flip (flip i) = i"
  by (cases i) auto

lemma is_offered_flip [simp]: "is_offered_id (flip i) \<longleftrightarrow> \<not> is_offered_id i"
  by (cases i) auto

lemma tlc_id_u64_flip [simp]: "tlc_id_u64 (flip i) = tlc_id_u64 i"
  by (cases i) auto

text \<open>The derived order of the enum: by constructor, then by number.\<close>

instantiation tlc_id :: linorder
begin

fun less_eq_tlc_id :: "tlc_id \<Rightarrow> tlc_id \<Rightarrow> bool" where
  "less_eq_tlc_id (Offered i) (Offered j) = (i \<le> j)"
| "less_eq_tlc_id (Offered i) (Received j) = True"
| "less_eq_tlc_id (Received i) (Offered j) = False"
| "less_eq_tlc_id (Received i) (Received j) = (i \<le> j)"

definition less_tlc_id :: "tlc_id \<Rightarrow> tlc_id \<Rightarrow> bool" where
  "less_tlc_id x y \<longleftrightarrow> x \<le> y \<and> \<not> y \<le> x"

instance
proof
  fix x y z :: tlc_id
  show "(x < y) = (x \<le> y \<and> \<not> y \<le> x)" by (simp add: less_tlc_id_def)
  show "x \<le> x" by (cases x) auto
  show "x \<le> y \<Longrightarrow> y \<le> z \<Longrightarrow> x \<le> z" by (cases x; cases y; cases z) auto
  show "x \<le> y \<Longrightarrow> y \<le> x \<Longrightarrow> x = y" by (cases x; cases y) auto
  show "x \<le> y \<or> y \<le> x" by (cases x; cases y) auto
qed

end

datatype outbound_tlc_status =
  LocalAnnounced | OutCommitted | RemoteRemoved | RemoveWaitPrevAck | RemoveWaitAck | OutRemoveAckConfirmed

datatype inbound_tlc_status =
  RemoteAnnounced | AnnounceWaitPrevAck | AnnounceWaitAck | InCommitted | LocalRemoved | InRemoveAckConfirmed

datatype tlc_status = Outbound outbound_tlc_status | Inbound inbound_tlc_status

fun as_outbound_status :: "tlc_status \<Rightarrow> (outbound_tlc_status, 'e) res" where
  "as_outbound_status (Outbound s) = Ok s"
| "as_outbound_status (Inbound _) = Panic"

fun as_inbound_status :: "tlc_status \<Rightarrow> (inbound_tlc_status, 'e) res" where
  "as_inbound_status (Inbound s) = Ok s"
| "as_inbound_status (Outbound _) = Panic"

section \<open>The life-cycle state of a channel\<close>

datatype channel_state =
    NegotiatingFunding u32
  | CollaboratingFundingTx u32
  | SigningCommitment u32
  | AwaitingTxSignatures u32
  | AwaitingChannelReady u32
  | ChannelReady
  | ShuttingDown u32
  | Closed u32
  | Stale

datatype channel_connectivity_state = Online | Offline | Syncing

fun is_awaiting_external_funding :: "channel_state \<Rightarrow> bool" where
  "is_awaiting_external_funding (NegotiatingFunding flags) = contains flags AWAITING_EXTERNAL_FUNDING"
| "is_awaiting_external_funding _ = False"

fun is_closed :: "channel_state \<Rightarrow> bool" where
  "is_closed (Closed _) = True"
| "is_closed (ShuttingDown flags) = (flags = WAITING_COMMITMENT_CONFIRMATION)"
| "is_closed _ = False"

fun can_abort_funding :: "channel_state \<Rightarrow> bool" where
  "can_abort_funding (NegotiatingFunding _) = True"
| "can_abort_funding (CollaboratingFundingTx _) = True"
| "can_abort_funding (SigningCommitment _) = True"
| "can_abort_funding (AwaitingTxSignatures flags) = (\<not> contains flags OUR_TX_SIGNATURES_SENT)"
| "can_abort_funding _ = False"

definition is_ok_for_commitment_operation :: "u32 \<Rightarrow> bool" where
  "is_ok_for_commitment_operation flags \<longleftrightarrow>
     \<not> contains flags DROPPING_PENDING \<and> \<not> contains flags WAITING_COMMITMENT_CONFIRMATION"

section \<open>Commitment numbers and channel parameters\<close>

record commitment_numbers =
  cn_local :: u64
  cn_remote :: u64

definition INITIAL_COMMITMENT_NUMBER :: u64 where "INITIAL_COMMITMENT_NUMBER = 0"

definition commitment_numbers_new :: commitment_numbers where
  "commitment_numbers_new = \<lparr>cn_local = INITIAL_COMMITMENT_NUMBER, cn_remote = INITIAL_COMMITMENT_NUMBER\<rparr>"

definition increment_local :: "commitment_numbers \<Rightarrow> (commitment_numbers, 'e) res" where
  "increment_local n = bind_res (plus_u (cn_local n) 1) (\<lambda>v. Ok (n\<lparr>cn_local := v\<rparr>))"

definition increment_remote :: "commitment_numbers \<Rightarrow> (commitment_numbers, 'e) res" where
  "increment_remote n = bind_res (plus_u (cn_remote n) 1) (\<lambda>v. Ok (n\<lparr>cn_remote := v\<rparr>))"

record channel_constraints =
  max_tlc_value_in_flight :: u128
  max_tlc_number_in_flight :: u64

record channel_tlc_info =
  cti_timestamp :: u64
  cti_enabled :: bool
  cti_tlc_fee_proportional_millionths :: u128
  cti_tlc_expiry_delta :: u64
  cti_tlc_minimum_value :: u128

definition channel_tlc_info_new :: "u128 \<Rightarrow> u64 \<Rightarrow> u128 \<Rightarrow> u64 \<Rightarrow> channel_tlc_info" where
  "channel_tlc_info_new minimum delta fee timestamp =
     \<lparr>cti_timestamp = timestamp, cti_enabled = True,
      cti_tlc_fee_proportional_millionths = fee, cti_tlc_expiry_delta = delta,
      cti_tlc_minimum_value = minimum\<rparr>"

section \<open>TLCs\<close>

datatype hash_algorithm = CkbHash | Sha256

fun hash_algorithm_u8 :: "hash_algorithm \<Rightarrow> u8" where
  "hash_algorithm_u8 CkbHash = 0"
| "hash_algorithm_u8 Sha256 = 1"

definition hash_algorithm_try_from :: "u8 \<Rightarrow> (hash_algorithm, u8) res" where
  "hash_algorithm_try_from v = (if v = 0 then Ok CkbHash else if v = 1 then Ok Sha256 else Err v)"

text \<open>The two hash functions come from external crates and are a parameter of the model.\<close>

record hashers =
  blake2b_256 :: "hash256 \<Rightarrow> hash256"
  sha256 :: "hash256 \<Rightarrow> hash256"

fun hash_with :: "hashers \<Rightarrow> hash_algorithm \<Rightarrow> hash256 \<Rightarrow> hash256" where
  "hash_with H CkbHash s = blake2b_256 H s"
| "hash_with H Sha256 s = sha256 H s"

datatype remove_tlc_reason = RemoveTlcFulfill hash256 | RemoveTlcFail bytes

definition NO_ERROR_PACKET_HMAC :: bytes where
  "NO_ERROR_PACKET_HMAC = replicate 32 0"

definition is_plaintext :: "bytes \<Rightarrow> bool" where
  "is_plaintext packet \<longleftrightarrow> length packet \<ge> 32 \<and> take 32 packet = NO_ERROR_PACKET_HMAC"

datatype tlc_err_packet_error = PlaintextForward

text \<open>The stream cipher of the onion crate is a parameter.\<close>

definition tlc_err_packet_backward ::
  "(256 word \<Rightarrow> bytes \<Rightarrow> bytes) \<Rightarrow> bytes \<Rightarrow> 256 word \<Rightarrow> (bytes, tlc_err_packet_error) res" where
  "tlc_err_packet_backward xor_cipher_stream packet shared_secret =
     (if is_plaintext packet then Err PlaintextForward
      else Ok (xor_cipher_stream shared_secret packet))"

fun remove_tlc_reason_backward ::
  "(256 word \<Rightarrow> bytes \<Rightarrow> bytes) \<Rightarrow> remove_tlc_reason \<Rightarrow> 256 word \<Rightarrow>
     (remove_tlc_reason, tlc_err_packet_error) res" where
  "remove_tlc_reason_backward xcs (RemoveTlcFulfill preimage) secret = Ok (RemoveTlcFulfill preimage)"
| "remove_tlc_reason_backward xcs (RemoveTlcFail packet) secret =
     bind_res (tlc_err_packet_backward xcs packet secret) (\<lambda>p. Ok (RemoveTlcFail p))"

record prev_tlc_info =
  prev_channel_id :: hash256
  prev_tlc_id :: u64
  forwarding_fee :: u128
  prev_shared_secret :: "256 word option"

record tlc_info =
  ti_status :: tlc_status
  ti_tlc_id :: tlc_id
  ti_amount :: u128
  ti_payment_hash :: hash256
  ti_total_amount :: "u128 option"
  ti_payment_secret :: "hash256 option"
  ti_attempt_id :: "u64 option"
  ti_expiry :: u64
  ti_hash_algorithm :: hash_algorithm
  ti_onion_packet :: "bytes option"
  ti_shared_secret :: "256 word"
  ti_is_trampoline_hop :: bool
  ti_created_at :: commitment_numbers
  ti_removed_reason :: "remove_tlc_reason option"
  ti_forwarding_tlc :: "(hash256 \<times> u64) option"
  ti_removed_confirmed_at :: "u64 option"
  ti_applied_flags :: u8

definition is_offered :: "tlc_info \<Rightarrow> bool" where
  "is_offered t = is_offered_id (ti_tlc_id t)"

definition is_received :: "tlc_info \<Rightarrow> bool" where
  "is_received t \<longleftrightarrow> \<not> is_offered t"

definition flip_mut :: "tlc_info \<Rightarrow> tlc_info" where
  "flip_mut t = t\<lparr>ti_tlc_id := flip (ti_tlc_id t)\<rparr>"

definition outbound_status :: "tlc_info \<Rightarrow> (outbound_tlc_status, 'e) res" where
  "outbound_status t = as_outbound_status (ti_status t)"

definition inbound_status :: "tlc_info \<Rightarrow> (inbound_tlc_status, 'e) res" where
  "inbound_status t = as_inbound_status (ti_status t)"

fun is_fail_reason :: "remove_tlc_reason option \<Rightarrow> bool" where
  "is_fail_reason (Some (RemoveTlcFail _)) = True"
| "is_fail_reason _ = False"

definition is_fail_remove_confirmed :: "tlc_info \<Rightarrow> bool" where
  "is_fail_remove_confirmed t \<longleftrightarrow>
     is_fail_reason (ti_removed_reason t) \<and>
     ti_status t \<in> {Outbound OutRemoveAckConfirmed, Outbound RemoveWaitAck, Inbound InRemoveAckConfirmed}"

definition get_htlc_type :: "tlc_info \<Rightarrow> u8" where
  "get_htlc_type t =
     push_bit 1 (hash_algorithm_u8 (ti_hash_algorithm t)) + (if is_offered t then 0 else 1)"

end
