(* ===== verification/Tlc_State.thy ===== *)
theory Tlc_State
  imports Channel_Types
begin

text \<open>
  \<open>PendingTlcs\<close> and \<open>TlcState\<close> of \<^verbatim>\<open>crates/fiber-types/src/channel.rs\<close>: the offered and received
  TLCs of a channel, their lookup, insertion and removal, the status ladder driven by
  \<open>CommitmentSigned\<close> and \<open>RevokeAndAck\<close>, and the selection of the TLCs a commitment transaction
  carries.
\<close>

section \<open>State and operations\<close>

record pending_tlcs =
  pt_tlcs :: "tlc_info list"
  pt_next_tlc_id :: u64

definition increment_next_id :: "pending_tlcs \<Rightarrow> (pending_tlcs, 'e) res" where
  "increment_next_id p = bind_res (plus_u (pt_next_tlc_id p) 1) (\<lambda>v. Ok (p\<lparr>pt_next_tlc_id := v\<rparr>))"

definition add_tlc_pending :: "pending_tlcs \<Rightarrow> tlc_info \<Rightarrow> pending_tlcs" where
  "add_tlc_pending p t = p\<lparr>pt_tlcs := pt_tlcs p @ [t]\<rparr>"

record tlc_state =
  ts_offered :: pending_tlcs
  ts_received :: pending_tlcs
  ts_waiting_ack :: bool

definition pending_tlcs_default :: pending_tlcs where
  "pending_tlcs_default = \<lparr>pt_tlcs = [], pt_next_tlc_id = 0\<rparr>"

definition tlc_state_default :: tlc_state where
  "tlc_state_default = \<lparr>ts_offered = pending_tlcs_default, ts_received = pending_tlcs_default,
     ts_waiting_ack = False\<rparr>"

abbreviation offered_list :: "tlc_state \<Rightarrow> tlc_info list" where
  "offered_list s \<equiv> pt_tlcs (ts_offered s)"

abbreviation received_list :: "tlc_state \<Rightarrow> tlc_info list" where
  "received_list s \<equiv> pt_tlcs (ts_received s)"

abbreviation set_offered_list :: "tlc_state \<Rightarrow> tlc_info list \<Rightarrow> tlc_state" where
  "set_offered_list s xs \<equiv> s\<lparr>ts_offered := (ts_offered s)\<lparr>pt_tlcs := xs\<rparr>\<rparr>"

abbreviation set_received_list :: "tlc_state \<Rightarrow> tlc_info list \<Rightarrow> tlc_state" where
  "set_received_list s xs \<equiv> s\<lparr>ts_received := (ts_received s)\<lparr>pt_tlcs := xs\<rparr>\<rparr>"

definition find_tlc :: "tlc_id \<Rightarrow> tlc_info list \<Rightarrow> tlc_info option" where
  "find_tlc i xs = List.find (\<lambda>t. ti_tlc_id t = i) xs"

definition get :: "tlc_state \<Rightarrow> tlc_id \<Rightarrow> tlc_info option" where
  "get s i = (if is_offered_id i then find_tlc i (offered_list s) else find_tlc i (received_list s))"

definition get_mut :: "tlc_state \<Rightarrow> tlc_id \<Rightarrow> tlc_info option" where
  "get_mut s i = (case find_tlc i (offered_list s) of
                    Some t \<Rightarrow> Some t | None \<Rightarrow> find_tlc i (received_list s))"

text \<open>Writing through the reference that \<open>get_mut\<close> returns changes the first match.\<close>

fun update_first :: "('a \<Rightarrow> bool) \<Rightarrow> ('a \<Rightarrow> 'a) \<Rightarrow> 'a list \<Rightarrow> 'a list" where
  "update_first P f [] = []"
| "update_first P f (x # xs) = (if P x then f x # xs else x # update_first P f xs)"

definition modify_tlc :: "tlc_state \<Rightarrow> tlc_id \<Rightarrow> (tlc_info \<Rightarrow> tlc_info) \<Rightarrow> tlc_state" where
  "modify_tlc s i f =
     (case find_tlc i (offered_list s) of
        Some _ \<Rightarrow> set_offered_list s (update_first (\<lambda>t. ti_tlc_id t = i) f (offered_list s))
      | None \<Rightarrow> set_received_list s (update_first (\<lambda>t. ti_tlc_id t = i) f (received_list s)))"

definition get_committed_received_tlcs :: "tlc_state \<Rightarrow> (tlc_info list, 'e) res" where
  "get_committed_received_tlcs s =
     filter_res (\<lambda>t. bind_res (inbound_status t) (\<lambda>st. Ok (st = InCommitted))) (received_list s)"

definition get_expired_offered_tlcs :: "tlc_state \<Rightarrow> u64 \<Rightarrow> (tlc_info list, 'e) res" where
  "get_expired_offered_tlcs s expect_expiry =
     filter_res (\<lambda>t. bind_res (outbound_status t) (\<lambda>st.
        Ok (st \<noteq> LocalAnnounced \<and> ti_removed_confirmed_at t = None \<and> ti_expiry t < expect_expiry)))
       (offered_list s)"

definition get_next_offering :: "tlc_state \<Rightarrow> u64" where
  "get_next_offering s = pt_next_tlc_id (ts_offered s)"

definition get_next_received :: "tlc_state \<Rightarrow> u64" where
  "get_next_received s = pt_next_tlc_id (ts_received s)"

definition increment_offering :: "tlc_state \<Rightarrow> (tlc_state, 'e) res" where
  "increment_offering s = bind_res (increment_next_id (ts_offered s)) (\<lambda>p. Ok (s\<lparr>ts_offered := p\<rparr>))"

definition increment_received :: "tlc_state \<Rightarrow> (tlc_state, 'e) res" where
  "increment_received s = bind_res (increment_next_id (ts_received s)) (\<lambda>p. Ok (s\<lparr>ts_received := p\<rparr>))"

definition set_waiting_ack_flag :: "tlc_state \<Rightarrow> bool \<Rightarrow> tlc_state" where
  "set_waiting_ack_flag s b = s\<lparr>ts_waiting_ack := b\<rparr>"

definition all_tlcs :: "tlc_state \<Rightarrow> tlc_info list" where
  "all_tlcs s = offered_list s @ received_list s"

definition apply_remove_tlc :: "tlc_state \<Rightarrow> tlc_id \<Rightarrow> tlc_state" where
  "apply_remove_tlc s i =
     (if is_offered_id i then set_offered_list s (filter (\<lambda>t. ti_tlc_id t \<noteq> i) (offered_list s))
      else set_received_list s (filter (\<lambda>t. ti_tlc_id t \<noteq> i) (received_list s)))"

definition add_offered_tlc :: "tlc_state \<Rightarrow> tlc_info \<Rightarrow> tlc_state" where
  "add_offered_tlc s t = s\<lparr>ts_offered := add_tlc_pending (ts_offered s) t\<rparr>"

definition add_received_tlc :: "tlc_state \<Rightarrow> tlc_info \<Rightarrow> tlc_state" where
  "add_received_tlc s t = s\<lparr>ts_received := add_tlc_pending (ts_received s) t\<rparr>"

definition set_received_tlc_removed ::
  "tlc_state \<Rightarrow> u64 \<Rightarrow> remove_tlc_reason \<Rightarrow> (hash256 \<times> tlc_state, 'e) res" where
  "set_received_tlc_removed s i reason =
     bind_res (expect (get_mut s (Received i))) (\<lambda>t.
     bind_res (inbound_status t) (\<lambda>st.
     bind_res (rust_assert (st \<in> {AnnounceWaitPrevAck, AnnounceWaitAck, InCommitted})) (\<lambda>_.
     Ok (ti_payment_hash t,
         modify_tlc s (Received i)
           (\<lambda>t. t\<lparr>ti_removed_reason := Some reason, ti_status := Inbound LocalRemoved\<rparr>)))))"

definition set_offered_tlc_removed ::
  "tlc_state \<Rightarrow> u64 \<Rightarrow> remove_tlc_reason \<Rightarrow> (hash256 \<times> tlc_state, 'e) res" where
  "set_offered_tlc_removed s i reason =
     bind_res (expect (get_mut s (Offered i))) (\<lambda>t.
     bind_res (outbound_status t) (\<lambda>st.
     bind_res (rust_assert (st \<in> {LocalAnnounced, OutCommitted})) (\<lambda>_.
     Ok (ti_payment_hash t,
         modify_tlc s (Offered i)
           (\<lambda>t. t\<lparr>ti_removed_reason := Some reason, ti_status := Outbound RemoteRemoved\<rparr>)))))"

fun outbound_in_commitment :: "bool \<Rightarrow> outbound_tlc_status \<Rightarrow> bool" where
  "outbound_in_commitment for_remote LocalAnnounced = for_remote"
| "outbound_in_commitment for_remote OutCommitted = True"
| "outbound_in_commitment for_remote RemoteRemoved = for_remote"
| "outbound_in_commitment for_remote RemoveWaitPrevAck = for_remote"
| "outbound_in_commitment for_remote RemoveWaitAck = False"
| "outbound_in_commitment for_remote OutRemoveAckConfirmed = False"

fun inbound_in_commitment :: "bool \<Rightarrow> inbound_tlc_status \<Rightarrow> bool" where
  "inbound_in_commitment for_remote RemoteAnnounced = (\<not> for_remote)"
| "inbound_in_commitment for_remote AnnounceWaitPrevAck = (\<not> for_remote)"
| "inbound_in_commitment for_remote AnnounceWaitAck = True"
| "inbound_in_commitment for_remote InCommitted = True"
| "inbound_in_commitment for_remote LocalRemoved = (\<not> for_remote)"
| "inbound_in_commitment for_remote InRemoveAckConfirmed = False"

fun outbound_in_commitment_v2 :: "bool \<Rightarrow> outbound_tlc_status \<Rightarrow> bool" where
  "outbound_in_commitment_v2 for_remote LocalAnnounced = for_remote"
| "outbound_in_commitment_v2 for_remote OutCommitted = True"
| "outbound_in_commitment_v2 for_remote RemoteRemoved = for_remote"
| "outbound_in_commitment_v2 for_remote RemoveWaitPrevAck = False"
| "outbound_in_commitment_v2 for_remote RemoveWaitAck = False"
| "outbound_in_commitment_v2 for_remote OutRemoveAckConfirmed = False"

fun inbound_in_commitment_v2 :: "bool \<Rightarrow> inbound_tlc_status \<Rightarrow> bool" where
  "inbound_in_commitment_v2 for_remote RemoteAnnounced = (\<not> for_remote)"
| "inbound_in_commitment_v2 for_remote AnnounceWaitPrevAck = True"
| "inbound_in_commitment_v2 for_remote AnnounceWaitAck = True"
| "inbound_in_commitment_v2 for_remote InCommitted = True"
| "inbound_in_commitment_v2 for_remote LocalRemoved = (\<not> for_remote)"
| "inbound_in_commitment_v2 for_remote InRemoveAckConfirmed = False"

definition filter_outbound :: "(outbound_tlc_status \<Rightarrow> bool) \<Rightarrow> tlc_info list \<Rightarrow> (tlc_info list, 'e) res" where
  "filter_outbound p xs = filter_res (\<lambda>t. bind_res (outbound_status t) (\<lambda>st. Ok (p st))) xs"

definition filter_inbound :: "(inbound_tlc_status \<Rightarrow> bool) \<Rightarrow> tlc_info list \<Rightarrow> (tlc_info list, 'e) res" where
  "filter_inbound p xs = filter_res (\<lambda>t. bind_res (inbound_status t) (\<lambda>st. Ok (p st))) xs"

definition commitment_signed_tlcs :: "tlc_state \<Rightarrow> bool \<Rightarrow> (tlc_info list, 'e) res" where
  "commitment_signed_tlcs s for_remote =
     bind_res (filter_outbound (outbound_in_commitment for_remote) (offered_list s)) (\<lambda>xs.
     bind_res (filter_inbound (inbound_in_commitment for_remote) (received_list s)) (\<lambda>ys.
     Ok (xs @ ys)))"

definition commitment_signed_tlcs_v2 :: "tlc_state \<Rightarrow> bool \<Rightarrow> (tlc_info list, 'e) res" where
  "commitment_signed_tlcs_v2 s for_remote =
     bind_res (filter_outbound (outbound_in_commitment_v2 for_remote) (offered_list s)) (\<lambda>xs.
     bind_res (filter_inbound (inbound_in_commitment_v2 for_remote) (received_list s)) (\<lambda>ys.
     Ok (xs @ ys)))"

definition need_another_commitment_signed :: "tlc_state \<Rightarrow> (bool, 'e) res" where
  "need_another_commitment_signed s =
     bind_res (any_res (\<lambda>t. bind_res (outbound_status t) (\<lambda>st.
        Ok (st \<in> {LocalAnnounced, RemoteRemoved, RemoveWaitPrevAck, RemoveWaitAck}))) (offered_list s))
     (\<lambda>b. if b then Ok True
          else any_res (\<lambda>t. bind_res (inbound_status t) (\<lambda>st.
                 Ok (st \<in> {RemoteAnnounced, AnnounceWaitPrevAck, AnnounceWaitAck}))) (received_list s))"

definition fold_outbound_cs :: "bool \<Rightarrow> tlc_info \<Rightarrow> (tlc_info, 'e) res" where
  "fold_outbound_cs waiting_ack t = bind_res (outbound_status t) (\<lambda>st.
     Ok (if st = RemoteRemoved
         then t\<lparr>ti_status := Outbound (if waiting_ack then RemoveWaitPrevAck else RemoveWaitAck)\<rparr>
         else t))"

definition fold_inbound_cs :: "bool \<Rightarrow> tlc_info \<Rightarrow> (tlc_info, 'e) res" where
  "fold_inbound_cs waiting_ack t = bind_res (inbound_status t) (\<lambda>st.
     Ok (if st = RemoteAnnounced
         then t\<lparr>ti_status := Inbound (if waiting_ack then AnnounceWaitPrevAck else AnnounceWaitAck)\<rparr>
         else t))"

definition update_for_commitment_signed :: "tlc_state \<Rightarrow> (bool \<times> tlc_state, 'e) res" where
  "update_for_commitment_signed s =
     bind_res (traverse_res (fold_outbound_cs (ts_waiting_ack s)) (offered_list s)) (\<lambda>xs.
     bind_res (traverse_res (fold_inbound_cs (ts_waiting_ack s)) (received_list s)) (\<lambda>ys.
     let s' = set_received_list (set_offered_list s xs) ys in
     bind_res (need_another_commitment_signed s') (\<lambda>b. Ok (b, s'))))"

definition ack_outbound :: "commitment_numbers \<Rightarrow> tlc_info \<Rightarrow> (tlc_info, 'e) res" where
  "ack_outbound n t = bind_res (outbound_status t) (\<lambda>st. Ok (case st of
       LocalAnnounced \<Rightarrow> t\<lparr>ti_status := Outbound OutCommitted\<rparr>
     | RemoveWaitPrevAck \<Rightarrow> t\<lparr>ti_status := Outbound RemoveWaitAck\<rparr>
     | RemoveWaitAck \<Rightarrow> t\<lparr>ti_status := Outbound OutRemoveAckConfirmed,
                          ti_removed_confirmed_at := Some (cn_local n)\<rparr>
     | _ \<Rightarrow> t))"

definition ack_inbound :: "commitment_numbers \<Rightarrow> tlc_info \<Rightarrow> (tlc_info, 'e) res" where
  "ack_inbound n t = bind_res (inbound_status t) (\<lambda>st. Ok (case st of
       AnnounceWaitPrevAck \<Rightarrow> t\<lparr>ti_status := Inbound AnnounceWaitAck\<rparr>
     | AnnounceWaitAck \<Rightarrow> t\<lparr>ti_status := Inbound InCommitted\<rparr>
     | LocalRemoved \<Rightarrow> t\<lparr>ti_status := Inbound InRemoveAckConfirmed,
                         ti_removed_confirmed_at := Some (cn_remote n)\<rparr>
     | _ \<Rightarrow> t))"

definition update_for_revoke_and_ack :: "tlc_state \<Rightarrow> commitment_numbers \<Rightarrow> (tlc_state, 'e) res" where
  "update_for_revoke_and_ack s n =
     bind_res (traverse_res (ack_outbound n) (offered_list s)) (\<lambda>xs.
     bind_res (traverse_res (ack_inbound n) (received_list s)) (\<lambda>ys.
     Ok (set_received_list (set_offered_list s xs) ys)))"

section \<open>Well-formedness\<close>

definition wf_offered :: "tlc_info \<Rightarrow> bool" where
  "wf_offered t \<longleftrightarrow> is_offered_id (ti_tlc_id t) \<and> (case ti_status t of Outbound _ \<Rightarrow> True | _ \<Rightarrow> False)"

definition wf_received :: "tlc_info \<Rightarrow> bool" where
  "wf_received t \<longleftrightarrow> \<not> is_offered_id (ti_tlc_id t) \<and> (case ti_status t of Inbound _ \<Rightarrow> True | _ \<Rightarrow> False)"

definition wf_pending :: "(tlc_info \<Rightarrow> bool) \<Rightarrow> pending_tlcs \<Rightarrow> bool" where
  "wf_pending w p \<longleftrightarrow>
     (\<forall>t\<in>set (pt_tlcs p). w t \<and> tlc_id_u64 (ti_tlc_id t) < pt_next_tlc_id p) \<and>
     distinct (map ti_tlc_id (pt_tlcs p))"

definition wf_tlc_state :: "tlc_state \<Rightarrow> bool" where
  "wf_tlc_state s \<longleftrightarrow> wf_pending wf_offered (ts_offered s) \<and> wf_pending wf_received (ts_received s)"

text \<open>Statuses read without the panic, meaningful for well-formed TLCs.\<close>

fun out_st :: "tlc_status \<Rightarrow> outbound_tlc_status" where
  "out_st (Outbound s) = s"
| "out_st (Inbound _) = LocalAnnounced"

fun in_st :: "tlc_status \<Rightarrow> inbound_tlc_status" where
  "in_st (Inbound s) = s"
| "in_st (Outbound _) = RemoteAnnounced"


definition insert_tlc :: "tlc_state \<Rightarrow> tlc_info \<Rightarrow> (tlc_state, 'e) res" where
  "insert_tlc s t = (if is_offered t then increment_offering (add_offered_tlc s t)
                     else increment_received (add_received_tlc s t))"

definition next_tlc_id :: "tlc_state \<Rightarrow> bool \<Rightarrow> tlc_id" where
  "next_tlc_id s offered = (if offered then Offered (get_next_offering s) else Received (get_next_received s))"

definition fresh_tlc :: "tlc_state \<Rightarrow> tlc_info \<Rightarrow> bool" where
  "fresh_tlc s t \<longleftrightarrow> (wf_offered t \<and> ti_tlc_id t = next_tlc_id s True) \<or>
                     (wf_received t \<and> ti_tlc_id t = next_tlc_id s False)"

text \<open>The ladder steps without the panic.\<close>

definition cs_out :: "bool \<Rightarrow> outbound_tlc_status \<Rightarrow> outbound_tlc_status" where
  "cs_out w st = (if st = RemoteRemoved then if w then RemoveWaitPrevAck else RemoveWaitAck else st)"

definition cs_in :: "bool \<Rightarrow> inbound_tlc_status \<Rightarrow> inbound_tlc_status" where
  "cs_in w st = (if st = RemoteAnnounced then if w then AnnounceWaitPrevAck else AnnounceWaitAck else st)"

fun raa_out :: "outbound_tlc_status \<Rightarrow> outbound_tlc_status" where
  "raa_out LocalAnnounced = OutCommitted"
| "raa_out RemoveWaitPrevAck = RemoveWaitAck"
| "raa_out RemoveWaitAck = OutRemoveAckConfirmed"
| "raa_out st = st"

fun raa_in :: "inbound_tlc_status \<Rightarrow> inbound_tlc_status" where
  "raa_in AnnounceWaitPrevAck = AnnounceWaitAck"
| "raa_in AnnounceWaitAck = InCommitted"
| "raa_in LocalRemoved = InRemoveAckConfirmed"
| "raa_in st = st"

definition cs_offered :: "bool \<Rightarrow> tlc_info \<Rightarrow> tlc_info" where
  "cs_offered w t = t\<lparr>ti_status := Outbound (cs_out w (out_st (ti_status t)))\<rparr>"

definition cs_received :: "bool \<Rightarrow> tlc_info \<Rightarrow> tlc_info" where
  "cs_received w t = t\<lparr>ti_status := Inbound (cs_in w (in_st (ti_status t)))\<rparr>"

definition raa_offered :: "commitment_numbers \<Rightarrow> tlc_info \<Rightarrow> tlc_info" where
  "raa_offered n t = t\<lparr>ti_status := Outbound (raa_out (out_st (ti_status t))),
     ti_removed_confirmed_at := (if out_st (ti_status t) = RemoveWaitAck then Some (cn_local n)
                                 else ti_removed_confirmed_at t)\<rparr>"

definition raa_received :: "commitment_numbers \<Rightarrow> tlc_info \<Rightarrow> tlc_info" where
  "raa_received n t = t\<lparr>ti_status := Inbound (raa_in (in_st (ti_status t))),
     ti_removed_confirmed_at := (if in_st (ti_status t) = LocalRemoved then Some (cn_remote n)
                                 else ti_removed_confirmed_at t)\<rparr>"

definition out_pending :: "outbound_tlc_status \<Rightarrow> bool" where
  "out_pending st \<longleftrightarrow> st \<in> {LocalAnnounced, RemoteRemoved, RemoveWaitPrevAck, RemoveWaitAck}"

definition in_pending :: "inbound_tlc_status \<Rightarrow> bool" where
  "in_pending st \<longleftrightarrow> st \<in> {RemoteAnnounced, AnnounceWaitPrevAck, AnnounceWaitAck}"

definition needs_cs :: "tlc_state \<Rightarrow> bool" where
  "needs_cs s \<longleftrightarrow> (\<exists>t\<in>set (offered_list s). out_pending (out_st (ti_status t))) \<or>
                   (\<exists>t\<in>set (received_list s). in_pending (in_st (ti_status t)))"

section \<open>The operations on well-formed states\<close>

lemma outbound_status_wf [simp]: "wf_offered t \<Longrightarrow> outbound_status t = Ok (out_st (ti_status t))"
  by (auto simp: wf_offered_def outbound_status_def split: tlc_status.splits)

lemma inbound_status_wf [simp]: "wf_received t \<Longrightarrow> inbound_status t = Ok (in_st (ti_status t))"
  by (auto simp: wf_received_def inbound_status_def split: tlc_status.splits)

lemma wf_offered_list: "wf_tlc_state s \<Longrightarrow> t \<in> set (offered_list s) \<Longrightarrow> wf_offered t"
  by (simp add: wf_tlc_state_def wf_pending_def)

lemma wf_received_list: "wf_tlc_state s \<Longrightarrow> t \<in> set (received_list s) \<Longrightarrow> wf_received t"
  by (simp add: wf_tlc_state_def wf_pending_def)

lemma filter_outbound_wf:
  "wf_tlc_state s \<Longrightarrow>
   filter_outbound p (offered_list s) = Ok (filter (\<lambda>t. p (out_st (ti_status t))) (offered_list s))"
  unfolding filter_outbound_def by (rule filter_res_Ok) (simp add: wf_offered_list)

lemma filter_inbound_wf:
  "wf_tlc_state s \<Longrightarrow>
   filter_inbound p (received_list s) = Ok (filter (\<lambda>t. p (in_st (ti_status t))) (received_list s))"
  unfolding filter_inbound_def by (rule filter_res_Ok) (simp add: wf_received_list)

lemmas filter_status_wf = filter_outbound_wf filter_inbound_wf

lemma commitment_signed_tlcs_wf:
  assumes "wf_tlc_state s"
  shows "commitment_signed_tlcs s r = Ok
     (filter (\<lambda>t. outbound_in_commitment r (out_st (ti_status t))) (offered_list s) @
      filter (\<lambda>t. inbound_in_commitment r (in_st (ti_status t))) (received_list s))"
  using assms by (simp add: commitment_signed_tlcs_def filter_status_wf)

lemma commitment_signed_tlcs_v2_wf:
  assumes "wf_tlc_state s"
  shows "commitment_signed_tlcs_v2 s r = Ok
     (filter (\<lambda>t. outbound_in_commitment_v2 r (out_st (ti_status t))) (offered_list s) @
      filter (\<lambda>t. inbound_in_commitment_v2 r (in_st (ti_status t))) (received_list s))"
  using assms by (simp add: commitment_signed_tlcs_v2_def filter_status_wf)

lemma fold_outbound_cs_wf: "wf_offered t \<Longrightarrow> fold_outbound_cs w t = Ok (cs_offered w t)"
  by (cases "ti_status t") (auto simp: fold_outbound_cs_def cs_offered_def cs_out_def wf_offered_def)

lemma fold_inbound_cs_wf: "wf_received t \<Longrightarrow> fold_inbound_cs w t = Ok (cs_received w t)"
  by (cases "ti_status t") (auto simp: fold_inbound_cs_def cs_received_def cs_in_def wf_received_def)

lemma ack_outbound_wf: "wf_offered t \<Longrightarrow> ack_outbound n t = Ok (raa_offered n t)"
  by (cases "ti_status t")
     (auto simp: ack_outbound_def raa_offered_def wf_offered_def split: outbound_tlc_status.splits)

lemma ack_inbound_wf: "wf_received t \<Longrightarrow> ack_inbound n t = Ok (raa_received n t)"
  by (cases "ti_status t")
     (auto simp: ack_inbound_def raa_received_def wf_received_def split: inbound_tlc_status.splits)

lemma any_outbound_wf:
  "wf_tlc_state s \<Longrightarrow>
   any_res (\<lambda>t. bind_res (outbound_status t) (\<lambda>st. Ok (p st))) (offered_list s) =
   Ok (\<exists>t\<in>set (offered_list s). p (out_st (ti_status t)))"
  by (rule any_res_Ok) (simp add: wf_offered_list)

lemma any_inbound_wf:
  "wf_tlc_state s \<Longrightarrow>
   any_res (\<lambda>t. bind_res (inbound_status t) (\<lambda>st. Ok (p st))) (received_list s) =
   Ok (\<exists>t\<in>set (received_list s). p (in_st (ti_status t)))"
  by (rule any_res_Ok) (simp add: wf_received_list)

lemma need_another_wf:
  assumes "wf_tlc_state s"
  shows "need_another_commitment_signed s = Ok (needs_cs s)"
  unfolding need_another_commitment_signed_def any_outbound_wf [OF assms] any_inbound_wf [OF assms]
  by (simp add: needs_cs_def out_pending_def in_pending_def)

text \<open>Every map over the two lists that keeps identifiers and directions keeps the invariant.\<close>

lemma wf_pending_map:
  assumes "wf_pending w p" and "\<And>t. w t \<Longrightarrow> w (f t)" and "\<And>t. ti_tlc_id (f t) = ti_tlc_id t"
  shows "wf_pending w (p\<lparr>pt_tlcs := map f (pt_tlcs p)\<rparr>)"
  using assms by (auto simp: wf_pending_def comp_def)

lemma wf_tlc_state_map:
  assumes "wf_tlc_state s"
    and "\<And>t. wf_offered t \<Longrightarrow> wf_offered (f t)" and "\<And>t. ti_tlc_id (f t) = ti_tlc_id t"
    and "\<And>t. wf_received t \<Longrightarrow> wf_received (g t)" and "\<And>t. ti_tlc_id (g t) = ti_tlc_id t"
  shows "wf_tlc_state (set_received_list (set_offered_list s (map f (offered_list s)))
           (map g (received_list s)))"
  using assms by (simp add: wf_tlc_state_def wf_pending_map)

lemma ladder_ids [simp]:
  "ti_tlc_id (cs_offered w t) = ti_tlc_id t" "ti_tlc_id (cs_received w t) = ti_tlc_id t"
  "ti_tlc_id (raa_offered n t) = ti_tlc_id t" "ti_tlc_id (raa_received n t) = ti_tlc_id t"
  by (simp_all add: cs_offered_def cs_received_def raa_offered_def raa_received_def)

lemma ladder_wf [simp]:
  "wf_offered t \<Longrightarrow> wf_offered (cs_offered w t)" "wf_received t \<Longrightarrow> wf_received (cs_received w t)"
  "wf_offered t \<Longrightarrow> wf_offered (raa_offered n t)" "wf_received t \<Longrightarrow> wf_received (raa_received n t)"
  by (simp_all add: cs_offered_def cs_received_def raa_offered_def raa_received_def
      wf_offered_def wf_received_def)

lemma ladder_status [simp]:
  "ti_status (cs_offered w t) = Outbound (cs_out w (out_st (ti_status t)))"
  "ti_status (cs_received w t) = Inbound (cs_in w (in_st (ti_status t)))"
  "ti_status (raa_offered n t) = Outbound (raa_out (out_st (ti_status t)))"
  "ti_status (raa_received n t) = Inbound (raa_in (in_st (ti_status t)))"
  by (simp_all add: cs_offered_def cs_received_def raa_offered_def raa_received_def)

definition after_cs :: "tlc_state \<Rightarrow> tlc_state" where
  "after_cs s = set_received_list
     (set_offered_list s (map (cs_offered (ts_waiting_ack s)) (offered_list s)))
     (map (cs_received (ts_waiting_ack s)) (received_list s))"

definition after_raa :: "commitment_numbers \<Rightarrow> tlc_state \<Rightarrow> tlc_state" where
  "after_raa n s = set_received_list (set_offered_list s (map (raa_offered n) (offered_list s)))
     (map (raa_received n) (received_list s))"

lemma wf_after_cs [simp]: "wf_tlc_state s \<Longrightarrow> wf_tlc_state (after_cs s)"
  unfolding after_cs_def by (rule wf_tlc_state_map) auto

lemma wf_after_raa [simp]: "wf_tlc_state s \<Longrightarrow> wf_tlc_state (after_raa n s)"
  unfolding after_raa_def by (rule wf_tlc_state_map) auto

lemma map_offered_wf:
  "wf_tlc_state s \<Longrightarrow> (\<And>t. wf_offered t \<Longrightarrow> f t = Ok (g t)) \<Longrightarrow>
   traverse_res f (offered_list s) = Ok (map g (offered_list s))"
  by (rule traverse_res_Ok) (simp add: wf_offered_list)

lemma map_received_wf:
  "wf_tlc_state s \<Longrightarrow> (\<And>t. wf_received t \<Longrightarrow> f t = Ok (g t)) \<Longrightarrow>
   traverse_res f (received_list s) = Ok (map g (received_list s))"
  by (rule traverse_res_Ok) (simp add: wf_received_list)

lemma traverse_ladder_wf:
  assumes "wf_tlc_state s"
  shows "traverse_res (fold_outbound_cs w) (offered_list s) = Ok (map (cs_offered w) (offered_list s))"
    and "traverse_res (fold_inbound_cs w) (received_list s) = Ok (map (cs_received w) (received_list s))"
    and "traverse_res (ack_outbound n) (offered_list s) = Ok (map (raa_offered n) (offered_list s))"
    and "traverse_res (ack_inbound n) (received_list s) = Ok (map (raa_received n) (received_list s))"
  by (simp_all add: map_offered_wf map_received_wf assms fold_outbound_cs_wf fold_inbound_cs_wf
      ack_outbound_wf ack_inbound_wf)

lemma update_for_commitment_signed_wf:
  assumes "wf_tlc_state s"
  shows "update_for_commitment_signed s = Ok (needs_cs (after_cs s), after_cs s)"
  using need_another_wf [OF wf_after_cs [OF assms]]
  unfolding update_for_commitment_signed_def traverse_ladder_wf [OF assms]
  by (simp add: after_cs_def Let_def)

lemma update_for_revoke_and_ack_wf:
  assumes "wf_tlc_state s"
  shows "update_for_revoke_and_ack s n = Ok (after_raa n s)"
  unfolding update_for_revoke_and_ack_def traverse_ladder_wf [OF assms]
  by (simp add: after_raa_def)

lemmas ladder_wf_ops = update_for_commitment_signed_wf update_for_revoke_and_ack_wf need_another_wf

section \<open>Lookup, insertion and removal\<close>

lemma find_tlc_Some: "find_tlc i xs = Some t \<Longrightarrow> t \<in> set xs \<and> ti_tlc_id t = i"
  unfolding find_tlc_def by (rule find_eq_Some_set)

lemma find_tlc_None: "find_tlc i xs = None \<longleftrightarrow> (\<forall>t\<in>set xs. ti_tlc_id t \<noteq> i)"
  unfolding find_tlc_def by (rule find_eq_None_set)

lemma find_tlc_in: "distinct (map ti_tlc_id xs) \<Longrightarrow> t \<in> set xs \<Longrightarrow> find_tlc (ti_tlc_id t) xs = Some t"
  by (induction xs) (auto simp: find_tlc_def rev_image_eqI)

lemma find_tlc_append:
  "find_tlc i (xs @ ys) = (case find_tlc i xs of Some t \<Rightarrow> Some t | None \<Rightarrow> find_tlc i ys)"
  by (induction xs) (auto simp: find_tlc_def)

lemma find_tlc_filter_neq: "find_tlc j (filter (\<lambda>t. ti_tlc_id t \<noteq> i) xs) = (if j = i then None else find_tlc j xs)"
  by (induction xs) (auto simp: find_tlc_def)

lemma find_tlc_singleton: "find_tlc i [t] = (if ti_tlc_id t = i then Some t else None)"
  by (simp add: find_tlc_def)

lemma find_tlc_map:
  "(\<And>t. ti_tlc_id (f t) = ti_tlc_id t) \<Longrightarrow> find_tlc i (map f xs) = map_option f (find_tlc i xs)"
  by (induction xs) (auto simp: find_tlc_def)

lemma update_first_find:
  "distinct (map ti_tlc_id xs) \<Longrightarrow> find_tlc i xs = Some t \<Longrightarrow>
   update_first (\<lambda>x. ti_tlc_id x = i) f xs = map (\<lambda>x. if ti_tlc_id x = i then f t else x) xs"
proof (induction xs)
  case (Cons x xs)
  have "map (\<lambda>x. if ti_tlc_id x = i then f t else x) xs = xs" if "ti_tlc_id x = i"
    using that Cons.prems(1) by (intro map_idI) (auto simp: image_iff)
  with Cons show ?case by (auto simp: find_tlc_def)
qed simp

lemma find_tlc_replace:
  "ti_tlc_id u = i \<Longrightarrow> find_tlc j (map (\<lambda>x. if ti_tlc_id x = i then u else x) xs) =
   (if j = i then map_option (\<lambda>_. u) (find_tlc i xs) else find_tlc j xs)"
  by (induction xs) (auto simp: find_tlc_def)

lemma ids_replace:
  "ti_tlc_id u = i \<Longrightarrow> map (ti_tlc_id \<circ> (\<lambda>x. if ti_tlc_id x = i then u else x)) xs = map ti_tlc_id xs"
  by auto

lemma wf_find_offered: "wf_tlc_state s \<Longrightarrow> \<not> is_offered_id i \<Longrightarrow> find_tlc i (offered_list s) = None"
  by (auto simp: find_tlc_None dest!: wf_offered_list simp: wf_offered_def)

lemma wf_find_received: "wf_tlc_state s \<Longrightarrow> is_offered_id i \<Longrightarrow> find_tlc i (received_list s) = None"
  by (auto simp: find_tlc_None dest!: wf_received_list simp: wf_received_def)

lemma get_mut_wf: "wf_tlc_state s \<Longrightarrow> get_mut s i = get s i"
  by (auto simp: get_mut_def get_def wf_find_offered wf_find_received split: option.splits)

lemma get_Some: "get s i = Some t \<Longrightarrow> t \<in> set (all_tlcs s) \<and> ti_tlc_id t = i"
  by (auto simp: get_def all_tlcs_def split: if_splits dest: find_tlc_Some)

lemma get_in: "wf_tlc_state s \<Longrightarrow> t \<in> set (all_tlcs s) \<Longrightarrow> get s (ti_tlc_id t) = Some t"
  by (auto simp: all_tlcs_def get_def wf_tlc_state_def wf_pending_def wf_offered_def wf_received_def
      intro: find_tlc_in)

lemma distinct_offered: "wf_tlc_state s \<Longrightarrow> distinct (map ti_tlc_id (offered_list s))"
  and distinct_received: "wf_tlc_state s \<Longrightarrow> distinct (map ti_tlc_id (received_list s))"
  by (simp_all add: wf_tlc_state_def wf_pending_def)

lemma get_wf_cases:
  assumes "wf_tlc_state s" and "get s i = Some t"
  shows "ti_tlc_id t = i" and "is_offered_id i \<Longrightarrow> wf_offered t" and "\<not> is_offered_id i \<Longrightarrow> wf_received t"
    and "is_offered t = is_offered_id i"
  using assms by (auto simp: get_def is_offered_def split: if_splits dest!: find_tlc_Some
      intro: wf_offered_list wf_received_list)

lemma modify_tlc_wf:
  assumes "wf_tlc_state s" and "get s i = Some t"
  shows "modify_tlc s i f =
    (if is_offered_id i
     then set_offered_list s (map (\<lambda>x. if ti_tlc_id x = i then f t else x) (offered_list s))
     else set_received_list s (map (\<lambda>x. if ti_tlc_id x = i then f t else x) (received_list s)))"
  using assms by (auto simp: modify_tlc_def get_def wf_find_offered update_first_find
      distinct_offered distinct_received split: option.splits)

lemma modify_tlc_keeps_wf:
  assumes "wf_tlc_state s" and "get s i = Some t"
    and "ti_tlc_id (f t) = i"
    and "is_offered_id i \<Longrightarrow> wf_offered (f t)" and "\<not> is_offered_id i \<Longrightarrow> wf_received (f t)"
  shows "wf_tlc_state (modify_tlc s i f)"
proof -
  have "tlc_id_u64 i < pt_next_tlc_id (if is_offered_id i then ts_offered s else ts_received s)"
    using assms(1) find_tlc_Some [of i _ t] assms(2)
    by (auto simp: get_def wf_tlc_state_def wf_pending_def split: if_splits)
  with assms show ?thesis
    unfolding modify_tlc_wf [OF assms(1,2)]
    by (auto simp: wf_tlc_state_def wf_pending_def ids_replace split: if_splits)
qed

lemma get_modify_tlc:
  assumes "wf_tlc_state s" and "get s i = Some t" and "ti_tlc_id (f t) = i"
  shows "get (modify_tlc s i f) = (get s)(i \<mapsto> f t)"
  using assms(2,3) unfolding modify_tlc_wf [OF assms(1,2)]
  by (auto simp: get_def fun_eq_iff find_tlc_replace split: if_splits)

lemma increment_next_id_Ok: "increment_next_id p = Ok p' \<longleftrightarrow> 
   unat (pt_next_tlc_id p') = unat (pt_next_tlc_id p) + 1 \<and> p' = p\<lparr>pt_next_tlc_id := pt_next_tlc_id p'\<rparr>"
  by (auto simp: increment_next_id_def plus_u_eq_Ok)

lemma insert_tlc_OkE:
  assumes "insert_tlc s t = Ok s'"
  obtains (offered) n where "is_offered t" "unat n = unat (get_next_offering s) + 1"
      "s' = s\<lparr>ts_offered := \<lparr>pt_tlcs = offered_list s @ [t], pt_next_tlc_id = n\<rparr>\<rparr>"
    | (received) n where "\<not> is_offered t" "unat n = unat (get_next_received s) + 1"
      "s' = s\<lparr>ts_received := \<lparr>pt_tlcs = received_list s @ [t], pt_next_tlc_id = n\<rparr>\<rparr>"
  using assms
  by (auto simp: insert_tlc_def increment_offering_def increment_received_def increment_next_id_def
      add_offered_tlc_def add_received_tlc_def add_tlc_pending_def plus_u_eq_Ok
      get_next_offering_def get_next_received_def split: if_splits)

lemma fresh_not_found:
  assumes "wf_tlc_state s" and "fresh_tlc s t"
  shows "get s (ti_tlc_id t) = None"
proof (rule ccontr)
  assume "get s (ti_tlc_id t) \<noteq> None"
  then obtain u where u: "get s (ti_tlc_id t) = Some u" by auto
  show False
    using get_Some [OF u] assms
    by (auto simp: all_tlcs_def fresh_tlc_def next_tlc_id_def get_next_offering_def get_next_received_def
        wf_tlc_state_def wf_pending_def wf_offered_def wf_received_def)
qed

lemma wf_pending_snoc:
  assumes "wf_pending w p" and "w t" and "tlc_id_u64 (ti_tlc_id t) = pt_next_tlc_id p"
    and "unat n = unat (pt_next_tlc_id p) + 1" and "ti_tlc_id t \<notin> ti_tlc_id ` set (pt_tlcs p)"
  shows "wf_pending w \<lparr>pt_tlcs = pt_tlcs p @ [t], pt_next_tlc_id = n\<rparr>"
  using assms by (auto simp: wf_pending_def word_less_nat_alt)

lemma insert_tlc_keeps_wf:
  assumes "wf_tlc_state s" and "fresh_tlc s t" and "insert_tlc s t = Ok s'"
  shows "wf_tlc_state s'"
  using assms(3)
proof (cases rule: insert_tlc_OkE)
  case (offered n)
  then show ?thesis
    using assms(1,2) fresh_not_found [OF assms(1,2)]
    by (auto simp: wf_tlc_state_def get_def is_offered_def find_tlc_None fresh_tlc_def
        next_tlc_id_def get_next_offering_def wf_received_def intro!: wf_pending_snoc)
next
  case (received n)
  then show ?thesis
    using assms(1,2) fresh_not_found [OF assms(1,2)]
    by (auto simp: wf_tlc_state_def get_def is_offered_def find_tlc_None fresh_tlc_def
        next_tlc_id_def get_next_received_def wf_offered_def intro!: wf_pending_snoc)
qed

lemma get_insert_tlc:
  assumes "wf_tlc_state s" and "fresh_tlc s t" and "insert_tlc s t = Ok s'"
  shows "get s' = (get s)(ti_tlc_id t \<mapsto> t)"
  using assms(3)
proof (cases rule: insert_tlc_OkE)
  case (offered n)
  then show ?thesis
    using fresh_not_found [OF assms(1,2)]
    by (auto simp: get_def find_tlc_append find_tlc_singleton is_offered_def fun_eq_iff split: option.splits)
next
  case (received n)
  then show ?thesis
    using fresh_not_found [OF assms(1,2)]
    by (auto simp: get_def find_tlc_append find_tlc_singleton is_offered_def fun_eq_iff split: option.splits)
qed

lemma get_apply_remove_tlc: "get (apply_remove_tlc s i) = (get s)(i := None)"
  by (auto simp: get_def apply_remove_tlc_def find_tlc_filter_neq fun_eq_iff)

lemma apply_remove_tlc_keeps_wf: "wf_tlc_state s \<Longrightarrow> wf_tlc_state (apply_remove_tlc s i)"
  by (auto simp: wf_tlc_state_def wf_pending_def apply_remove_tlc_def distinct_map_filter)

section \<open>The interface of the TLC table\<close>

text \<open>
  What the channel actor relies on: a table keyed by TLC identifier, with a freshness condition
  on insertion. The laws are those of a finite map.
\<close>

locale tlc_table =
  fixes invar :: "'s \<Rightarrow> bool"
    and lookup :: "'s \<Rightarrow> tlc_id \<Rightarrow> tlc_info option"
    and fresh :: "'s \<Rightarrow> tlc_info \<Rightarrow> bool"
    and ins :: "'s \<Rightarrow> tlc_info \<Rightarrow> ('s, 'e) res"
    and del :: "'s \<Rightarrow> tlc_id \<Rightarrow> 's"
  assumes lookup_key: "invar s \<Longrightarrow> lookup s i = Some t \<Longrightarrow> ti_tlc_id t = i"
    and fresh_lookup: "invar s \<Longrightarrow> fresh s t \<Longrightarrow> lookup s (ti_tlc_id t) = None"
    and ins_lookup: "invar s \<Longrightarrow> fresh s t \<Longrightarrow> ins s t = Ok s' \<Longrightarrow> lookup s' = (lookup s)(ti_tlc_id t \<mapsto> t)"
    and ins_invar: "invar s \<Longrightarrow> fresh s t \<Longrightarrow> ins s t = Ok s' \<Longrightarrow> invar s'"
    and del_lookup: "invar s \<Longrightarrow> lookup (del s i) = (lookup s)(i := None)"
    and del_invar: "invar s \<Longrightarrow> invar (del s i)"
begin

lemma ins_then_del:
  assumes "invar s" and "fresh s t" and "ins s t = Ok s'"
  shows "lookup (del s' (ti_tlc_id t)) = lookup s"
  using ins_lookup [OF assms] del_lookup [OF ins_invar [OF assms]] fresh_lookup [OF assms(1,2)]
  by (simp add: fun_eq_iff)

lemma del_all_invar: "invar s \<Longrightarrow> invar (fold (\<lambda>i s. del s i) is s)"
  by (induction "is" arbitrary: s) (simp_all add: del_invar)

lemma del_all_lookup:
  "invar s \<Longrightarrow> lookup (fold (\<lambda>i s. del s i) is s) i = (if i \<in> set is then None else lookup s i)"
  by (induction "is" arbitrary: s) (simp_all add: del_invar del_lookup)

lemma ins_keeps_others:
  assumes "invar s" and "fresh s t" and "ins s t = Ok s'" and "lookup s i = Some u"
  shows "lookup s' i = Some u"
  using ins_lookup [OF assms(1-3)] fresh_lookup [OF assms(1,2)] assms(4) by auto

end

interpretation tt: tlc_table wf_tlc_state get fresh_tlc insert_tlc apply_remove_tlc
proof unfold_locales
  show "ti_tlc_id t = i" if "wf_tlc_state s" "get s i = Some t" for s i t
    using that by (rule get_wf_cases(1))
qed (simp_all add: fresh_not_found get_insert_tlc insert_tlc_keeps_wf get_apply_remove_tlc
      apply_remove_tlc_keeps_wf)

section \<open>Removal bookkeeping\<close>

fun status_removed :: "tlc_status \<Rightarrow> bool" where
  "status_removed (Outbound st) = (st \<in> {RemoteRemoved, RemoveWaitPrevAck, RemoveWaitAck, OutRemoveAckConfirmed})"
| "status_removed (Inbound st) = (st \<in> {LocalRemoved, InRemoveAckConfirmed})"

definition status_confirmed :: "tlc_status \<Rightarrow> bool" where
  "status_confirmed st \<longleftrightarrow> st \<in> {Outbound OutRemoveAckConfirmed, Inbound InRemoveAckConfirmed}"

definition removal_recorded :: "tlc_info \<Rightarrow> bool" where
  "removal_recorded t \<longleftrightarrow>
     (ti_removed_reason t \<noteq> None \<longleftrightarrow> status_removed (ti_status t)) \<and>
     (ti_removed_confirmed_at t \<noteq> None \<longleftrightarrow> status_confirmed (ti_status t))"

definition tlc_inv :: "tlc_state \<Rightarrow> bool" where
  "tlc_inv s \<longleftrightarrow> wf_tlc_state s \<and> (\<forall>t\<in>set (all_tlcs s). removal_recorded t)"

definition new_tlc :: "tlc_info \<Rightarrow> bool" where
  "new_tlc t \<longleftrightarrow> ti_removed_reason t = None \<and> ti_removed_confirmed_at t = None \<and>
     ti_status t \<in> {Outbound LocalAnnounced, Inbound RemoteAnnounced}"

lemma tlc_inv_wf [simp]: "tlc_inv s \<Longrightarrow> wf_tlc_state s"
  by (simp add: tlc_inv_def)

lemma tlc_inv_default: "tlc_inv tlc_state_default"
  by (simp add: tlc_inv_def wf_tlc_state_def tlc_state_default_def pending_tlcs_default_def
      wf_pending_def all_tlcs_def)

lemma removal_recorded_new: "new_tlc t \<Longrightarrow> removal_recorded t"
  by (auto simp: new_tlc_def removal_recorded_def status_confirmed_def)

lemma removal_recorded_cs:
  "wf_offered t \<Longrightarrow> removal_recorded t \<Longrightarrow> removal_recorded (cs_offered w t)"
  "wf_received t \<Longrightarrow> removal_recorded t \<Longrightarrow> removal_recorded (cs_received w t)"
  by (cases "ti_status t";
      auto simp: removal_recorded_def cs_offered_def cs_received_def cs_out_def cs_in_def
        status_confirmed_def wf_offered_def wf_received_def)+

lemma removal_recorded_raa:
  assumes "removal_recorded t"
  shows "wf_offered t \<Longrightarrow> removal_recorded (raa_offered n t)"
    and "wf_received t \<Longrightarrow> removal_recorded (raa_received n t)"
proof -
  show "removal_recorded (raa_offered n t)" if w: "wf_offered t"
  proof -
    from w obtain st where st: "ti_status t = Outbound st"
      by (auto simp: wf_offered_def split: tlc_status.splits)
    with assms show ?thesis
      by (cases st) (auto simp: removal_recorded_def raa_offered_def status_confirmed_def)
  qed
  show "removal_recorded (raa_received n t)" if w: "wf_received t"
  proof -
    from w obtain st where st: "ti_status t = Inbound st"
      by (auto simp: wf_received_def split: tlc_status.splits)
    with assms show ?thesis
      by (cases st) (auto simp: removal_recorded_def raa_received_def status_confirmed_def)
  qed
qed

lemma tlc_inv_map:
  assumes "tlc_inv s" and "wf_tlc_state (set_received_list (set_offered_list s (map f (offered_list s))) (map g (received_list s)))"
    and "\<And>t. wf_offered t \<Longrightarrow> removal_recorded t \<Longrightarrow> removal_recorded (f t)"
    and "\<And>t. wf_received t \<Longrightarrow> removal_recorded t \<Longrightarrow> removal_recorded (g t)"
  shows "tlc_inv (set_received_list (set_offered_list s (map f (offered_list s))) (map g (received_list s)))"
proof -
  have "removal_recorded (f t)" if "t \<in> set (offered_list s)" for t
    using that assms(1,3) wf_offered_list by (auto simp: tlc_inv_def all_tlcs_def)
  moreover have "removal_recorded (g t)" if "t \<in> set (received_list s)" for t
    using that assms(1,4) wf_received_list by (auto simp: tlc_inv_def all_tlcs_def)
  ultimately show ?thesis
    using assms(2) by (auto simp: tlc_inv_def all_tlcs_def)
qed

lemma tlc_inv_after_cs [simp]: "tlc_inv s \<Longrightarrow> tlc_inv (after_cs s)"
  using wf_after_cs unfolding after_cs_def
  by (intro tlc_inv_map) (simp_all add: removal_recorded_cs)

lemma tlc_inv_after_raa [simp]: "tlc_inv s \<Longrightarrow> tlc_inv (after_raa n s)"
  using wf_after_raa unfolding after_raa_def
  by (intro tlc_inv_map) (simp_all add: removal_recorded_raa)

lemma tlc_inv_insert:
  assumes "tlc_inv s" and "fresh_tlc s t" and "new_tlc t" and "insert_tlc s t = Ok s'"
  shows "tlc_inv s'"
proof -
  have "set (all_tlcs s') = insert t (set (all_tlcs s))"
    using assms(4) by (cases rule: insert_tlc_OkE) (auto simp: all_tlcs_def)
  with assms show ?thesis
    by (auto simp: tlc_inv_def removal_recorded_new intro: insert_tlc_keeps_wf)
qed

lemma tlc_inv_remove: "tlc_inv s \<Longrightarrow> tlc_inv (apply_remove_tlc s i)"
  by (auto simp: tlc_inv_def apply_remove_tlc_keeps_wf) (auto simp: all_tlcs_def apply_remove_tlc_def split: if_splits)

lemma tlc_inv_modify:
  assumes "tlc_inv s" and "get s i = Some t" and "ti_tlc_id (f t) = i" and "removal_recorded (f t)"
    and "is_offered_id i \<Longrightarrow> wf_offered (f t)" and "\<not> is_offered_id i \<Longrightarrow> wf_received (f t)"
  shows "tlc_inv (modify_tlc s i f)"
proof -
  from assms have wf: "wf_tlc_state s" by simp
  then have "set (all_tlcs (modify_tlc s i f)) \<subseteq> insert (f t) (set (all_tlcs s))"
    using assms(2) by (auto simp: modify_tlc_wf all_tlcs_def split: if_splits)
  with assms wf show ?thesis
    by (auto simp: tlc_inv_def intro: modify_tlc_keeps_wf)
qed

lemma set_received_tlc_removed_OkE:
  assumes "wf_tlc_state s" and "set_received_tlc_removed s i reason = Ok (h, s')"
  obtains t where "get s (Received i) = Some t" "h = ti_payment_hash t" "wf_received t"
    "in_st (ti_status t) \<in> {AnnounceWaitPrevAck, AnnounceWaitAck, InCommitted}"
    "s' = modify_tlc s (Received i)
       (\<lambda>t. t\<lparr>ti_removed_reason := Some reason, ti_status := Inbound LocalRemoved\<rparr>)"
  using assms get_wf_cases [OF assms(1)]
  by (auto simp: set_received_tlc_removed_def get_mut_wf)

lemma set_offered_tlc_removed_OkE:
  assumes "wf_tlc_state s" and "set_offered_tlc_removed s i reason = Ok (h, s')"
  obtains t where "get s (Offered i) = Some t" "h = ti_payment_hash t" "wf_offered t"
    "out_st (ti_status t) \<in> {LocalAnnounced, OutCommitted}"
    "s' = modify_tlc s (Offered i)
       (\<lambda>t. t\<lparr>ti_removed_reason := Some reason, ti_status := Outbound RemoteRemoved\<rparr>)"
  using assms get_wf_cases [OF assms(1)]
  by (auto simp: set_offered_tlc_removed_def get_mut_wf)


lemma tlc_inv_received_removed:
  assumes "tlc_inv s" and "set_received_tlc_removed s i reason = Ok (h, s')"
  shows "tlc_inv s'"
  using tlc_inv_wf [OF assms(1)] assms(2)
proof (cases rule: set_received_tlc_removed_OkE)
  case (1 t)
  then have "removal_recorded t" and "ti_tlc_id t = Received i"
    using assms(1) get_Some by (auto simp: tlc_inv_def)
  with 1 assms(1) show ?thesis
    by (auto simp: removal_recorded_def status_confirmed_def wf_received_def split: tlc_status.splits
        intro!: tlc_inv_modify)
qed

lemma tlc_inv_offered_removed:
  assumes "tlc_inv s" and "set_offered_tlc_removed s i reason = Ok (h, s')"
  shows "tlc_inv s'"
  using tlc_inv_wf [OF assms(1)] assms(2)
proof (cases rule: set_offered_tlc_removed_OkE)
  case (1 t)
  then have "removal_recorded t" and "ti_tlc_id t = Offered i"
    using assms(1) get_Some by (auto simp: tlc_inv_def)
  with 1 assms(1) show ?thesis
    by (auto simp: removal_recorded_def status_confirmed_def wf_offered_def split: tlc_status.splits
        intro!: tlc_inv_modify)
qed

section \<open>Runs of the TLC table\<close>

text \<open>One rule per operation the channel actor performs on its TLC table.\<close>

inductive tlc_step :: "tlc_state \<Rightarrow> tlc_state \<Rightarrow> bool" where
  insert: "fresh_tlc s t \<Longrightarrow> new_tlc t \<Longrightarrow> insert_tlc s t = (Ok s' :: (tlc_state, unit) res) \<Longrightarrow> tlc_step s s'"
| received_removed: "set_received_tlc_removed s i reason = (Ok (h, s') :: (hash256 \<times> tlc_state, unit) res) \<Longrightarrow> tlc_step s s'"
| offered_removed: "set_offered_tlc_removed s i reason = (Ok (h, s') :: (hash256 \<times> tlc_state, unit) res) \<Longrightarrow> tlc_step s s'"
| commitment_signed: "update_for_commitment_signed s = (Ok (b, s') :: (bool \<times> tlc_state, unit) res) \<Longrightarrow> tlc_step s s'"
| revoke_and_ack: "update_for_revoke_and_ack s n = (Ok s' :: (tlc_state, unit) res) \<Longrightarrow> tlc_step s s'"
| waiting_ack: "tlc_step s (set_waiting_ack_flag s b)"
| remove: "tlc_step s (apply_remove_tlc s i)"

inductive tlc_reachable :: "tlc_state \<Rightarrow> bool" where
  start: "tlc_reachable tlc_state_default"
| step: "tlc_reachable s \<Longrightarrow> tlc_step s s' \<Longrightarrow> tlc_reachable s'"

lemma tlc_step_inv: "tlc_step s s' \<Longrightarrow> tlc_inv s \<Longrightarrow> tlc_inv s'"
proof (induction rule: tlc_step.induct)
  case (waiting_ack s b)
  then show ?case
    by (simp add: tlc_inv_def wf_tlc_state_def set_waiting_ack_flag_def all_tlcs_def)
qed (auto simp: ladder_wf_ops intro: tlc_inv_insert tlc_inv_received_removed tlc_inv_offered_removed
      tlc_inv_remove)

lemma tlc_reachable_inv: "tlc_reachable s \<Longrightarrow> tlc_inv s"
  by (induction rule: tlc_reachable.induct) (auto simp: tlc_inv_default intro: tlc_step_inv)

lemma get_committed_received_tlcs_wf:
  "wf_tlc_state s \<Longrightarrow> get_committed_received_tlcs s =
     Ok (filter (\<lambda>t. in_st (ti_status t) = InCommitted) (received_list s))"
  unfolding get_committed_received_tlcs_def by (rule filter_res_Ok) (simp add: wf_received_list)

lemma get_expired_offered_tlcs_wf:
  "wf_tlc_state s \<Longrightarrow> get_expired_offered_tlcs s e =
     Ok (filter (\<lambda>t. out_st (ti_status t) \<noteq> LocalAnnounced \<and> ti_removed_confirmed_at t = None \<and>
                      ti_expiry t < e) (offered_list s))"
  unfolding get_expired_offered_tlcs_def by (rule filter_res_Ok) (simp add: wf_offered_list)

section \<open>Properties\<close>

definition sample_tlc :: "tlc_id \<Rightarrow> tlc_status \<Rightarrow> u128 \<Rightarrow> tlc_info" where
  "sample_tlc i st amount = \<lparr>ti_status = st, ti_tlc_id = i, ti_amount = amount, ti_payment_hash = 7,
     ti_total_amount = None, ti_payment_secret = None, ti_attempt_id = None, ti_expiry = 1000,
     ti_hash_algorithm = CkbHash, ti_onion_packet = None, ti_shared_secret = 0,
     ti_is_trampoline_hop = False, ti_created_at = commitment_numbers_new, ti_removed_reason = None,
     ti_forwarding_tlc = None, ti_removed_confirmed_at = None, ti_applied_flags = 0\<rparr>"

definition sample_table :: tlc_state where
  "sample_table = \<lparr>ts_offered = \<lparr>pt_tlcs = [], pt_next_tlc_id = 0\<rparr>,
     ts_received = \<lparr>pt_tlcs = [sample_tlc (Received 0) (Inbound RemoteAnnounced) 5], pt_next_tlc_id = 1\<rparr>,
     ts_waiting_ack = False\<rparr>"

lemma sample_table_reachable: "tlc_reachable sample_table"
proof (rule tlc_reachable.step [OF tlc_reachable.start])
  show "tlc_step tlc_state_default sample_table"
    by (rule tlc_step.insert [where t = "sample_tlc (Received 0) (Inbound RemoteAnnounced) 5"])
       (simp_all add: fresh_tlc_def new_tlc_def sample_tlc_def next_tlc_id_def get_next_received_def
         tlc_state_default_def pending_tlcs_default_def wf_received_def wf_offered_def insert_tlc_def
         increment_received_def increment_next_id_def add_received_tlc_def add_tlc_pending_def
         plus_u_def checked_add_def sample_table_def is_offered_def)
qed

text \<open>C28. In every TLC table that the operations of the channel can reach from the empty table,
  identifiers are unique and below the next identifier, every TLC has the direction of its list,
  a removal reason is recorded exactly on removed TLCs and a confirmation number exactly on
  confirmed removals; and none of the status queries and ladder updates can hit an
  \<open>unreachable!\<close>.\<close>

theorem reachable_table_safe:
  assumes "tlc_reachable s"
  shows "tlc_inv s \<and>
    update_for_commitment_signed s \<noteq> (Panic :: (bool \<times> tlc_state, unit) res) \<and>
    update_for_revoke_and_ack s n \<noteq> (Panic :: (tlc_state, unit) res) \<and>
    commitment_signed_tlcs s r \<noteq> (Panic :: (tlc_info list, unit) res) \<and>
    commitment_signed_tlcs_v2 s r \<noteq> (Panic :: (tlc_info list, unit) res) \<and>
    need_another_commitment_signed s \<noteq> (Panic :: (bool, unit) res) \<and>
    get_committed_received_tlcs s \<noteq> (Panic :: (tlc_info list, unit) res) \<and>
    get_expired_offered_tlcs s e \<noteq> (Panic :: (tlc_info list, unit) res)"
proof -
  from assms have inv: "tlc_inv s" by (rule tlc_reachable_inv)
  then have wf: "wf_tlc_state s" by simp
  then show ?thesis
    using inv by (simp add: ladder_wf_ops commitment_signed_tlcs_wf commitment_signed_tlcs_v2_wf
        get_committed_received_tlcs_wf get_expired_offered_tlcs_wf)
qed

theorem reachable_table_safe_witness:
  "tlc_reachable sample_table \<and> tlc_inv sample_table"
  using reachable_table_safe [OF sample_table_reachable] sample_table_reachable by blast

text \<open>The ladder drains: once the pending updates are folded into a commitment, two
  acknowledgements in a row leave nothing that asks for another \<open>CommitmentSigned\<close>.\<close>

lemma ladder_drains:
  assumes "wf_tlc_state s"
  shows "bind_res (update_for_commitment_signed s) (\<lambda>(_, s1).
         bind_res (update_for_revoke_and_ack s1 n1) (\<lambda>s2.
         bind_res (update_for_revoke_and_ack s2 n2) need_another_commitment_signed))
       = (Ok False :: (bool, unit) res)"
proof -
  have out: "\<not> out_pending (raa_out (raa_out (cs_out w st)))" for w st
    by (cases st) (auto simp: out_pending_def cs_out_def)
  have inb: "\<not> in_pending (raa_in (raa_in (cs_in w st)))" for w st
    by (cases st) (auto simp: in_pending_def cs_in_def)
  from assms show ?thesis
    by (simp add: ladder_wf_ops) (simp add: needs_cs_def after_raa_def after_cs_def out inb)
qed

text \<open>Inserting a fresh TLC makes it and only it visible under its identifier, and removing it
  again restores every lookup.\<close>

lemma insert_lookup_remove:
  assumes "wf_tlc_state s" and "fresh_tlc s t" and "insert_tlc s t = (Ok s' :: (tlc_state, unit) res)"
  shows "get s' = (get s)(ti_tlc_id t \<mapsto> t) \<and> get (apply_remove_tlc s' (ti_tlc_id t)) = get s"
  using tt.ins_lookup [OF assms] tt.ins_then_del [OF assms] by simp

text \<open>Removing a received TLC is total on TLCs that have been folded into a commitment: it
  returns the payment hash, records the reason, moves exactly that TLC to \<open>LocalRemoved\<close> and
  leaves all others alone; on an unknown, uncommitted or already removed TLC it panics.\<close>

lemma set_received_tlc_removed_spec:
  assumes "wf_tlc_state s"
  shows "case get s (Received i) of
      None \<Rightarrow> set_received_tlc_removed s i reason = (Panic :: (hash256 \<times> tlc_state, unit) res)
    | Some t \<Rightarrow>
       (if in_st (ti_status t) \<in> {AnnounceWaitPrevAck, AnnounceWaitAck, InCommitted}
        then \<exists>s'. set_received_tlc_removed s i reason = (Ok (ti_payment_hash t, s') :: (hash256 \<times> tlc_state, unit) res) \<and>
               get s' = (get s)(Received i \<mapsto> t\<lparr>ti_removed_reason := Some reason, ti_status := Inbound LocalRemoved\<rparr>)
        else set_received_tlc_removed s i reason = (Panic :: (hash256 \<times> tlc_state, unit) res))"
proof (cases "get s (Received i)")
  case None
  then show ?thesis by (simp add: set_received_tlc_removed_def get_mut_wf [OF assms])
next
  case (Some t)
  then have "wf_received t" "ti_tlc_id t = Received i"
    using get_wf_cases [OF assms Some] by auto
  with Some show ?thesis
    by (auto simp: set_received_tlc_removed_def get_mut_wf [OF assms] get_modify_tlc [OF assms] rust_assert_def)
qed

end
