(* ===== verification/Commitment_Rounds.thy ===== *)
theory Commitment_Rounds
  imports Tlc_State
begin

text \<open>
  Two channel parties exchanging TLC updates, \<open>CommitmentSigned\<close> and \<open>RevokeAndAck\<close> over two
  FIFO links. A party signs the TLC list that \<open>get_active_tlcs\<close> builds for the peer's commitment
  (\<open>for_remote = true\<close>); the receiver rebuilds the list from its own table
  (\<open>for_remote = false\<close>) and the signature only verifies if both lists agree. The theory shows
  that they always do, for the V1 status ladder and for the V2 content rule.

  The proof projects the run to one TLC at a time: a TLC and the two links have only a few
  joint states, listed by \<open>rounds_at\<close>.
\<close>

section \<open>The TLC list of a commitment transaction\<close>

definition get_active_received_tlcs :: "tlc_state \<Rightarrow> bool \<Rightarrow> (tlc_info list, 'e) res" where
  "get_active_received_tlcs s for_remote =
     bind_res (commitment_signed_tlcs s for_remote) (\<lambda>xs. Ok (filter is_received xs))"

definition get_active_offered_tlcs :: "tlc_state \<Rightarrow> bool \<Rightarrow> (tlc_info list, 'e) res" where
  "get_active_offered_tlcs s for_remote =
     bind_res (commitment_signed_tlcs s for_remote) (\<lambda>xs. Ok (filter is_offered xs))"

definition sort_by_id :: "tlc_info list \<Rightarrow> tlc_info list" where
  "sort_by_id xs = sort_key (\<lambda>t. tlc_id_u64 (ti_tlc_id t)) xs"

definition order_active :: "bool \<Rightarrow> tlc_info list \<Rightarrow> tlc_info list \<Rightarrow> tlc_info list" where
  "order_active for_remote received_tlcs offered_tlcs =
     (let (a, b) = (if for_remote then (received_tlcs, offered_tlcs)
                    else (map flip_mut offered_tlcs, map flip_mut received_tlcs))
      in sort_by_id a @ sort_by_id b)"

definition get_active_tlcs_v2 :: "tlc_state \<Rightarrow> bool \<Rightarrow> (tlc_info list, 'e) res" where
  "get_active_tlcs_v2 s for_remote =
     bind_res (commitment_signed_tlcs_v2 s for_remote) (\<lambda>xs.
     bind_res (commitment_signed_tlcs_v2 s for_remote) (\<lambda>ys.
     Ok (order_active for_remote (filter is_received xs) (filter is_offered ys))))"

definition get_active_tlcs :: "bool \<Rightarrow> tlc_state \<Rightarrow> bool \<Rightarrow> (tlc_info list, 'e) res" where
  "get_active_tlcs is_v2 s for_remote =
     (if is_v2 then get_active_tlcs_v2 s for_remote
      else bind_res (get_active_received_tlcs s for_remote) (\<lambda>xs.
           bind_res (get_active_offered_tlcs s for_remote) (\<lambda>ys.
           Ok (order_active for_remote xs ys))))"

text \<open>The fields of a \<open>SettlementTlc\<close>, its keys apart.\<close>

record tlc_terms =
  tm_hash_algorithm :: hash_algorithm
  tm_amount :: u128
  tm_payment_hash :: hash256
  tm_expiry :: u64

definition tlc_terms :: "tlc_info \<Rightarrow> tlc_terms" where
  "tlc_terms t = \<lparr>tm_hash_algorithm = ti_hash_algorithm t, tm_amount = ti_amount t,
     tm_payment_hash = ti_payment_hash t, tm_expiry = ti_expiry t\<rparr>"

definition settlement_view :: "tlc_info \<Rightarrow> tlc_id \<times> tlc_terms" where
  "settlement_view t = (ti_tlc_id t, tlc_terms t)"

section \<open>Parties, messages, links\<close>

datatype peer_msg =
    AddTlc u64 tlc_terms
  | RemoveTlc u64 remove_tlc_reason
  | CommitmentSigned "(tlc_id \<times> tlc_terms) list"
  | RevokeAndAck

text \<open>
  \<open>party_step is_v2 s recv sent s'\<close>: the party in state \<open>s\<close> consumes \<open>recv\<close> (if any), sends
  \<open>sent\<close> and moves to \<open>s'\<close>. The guards are those of \<open>check_for_tlc_update\<close>,
  \<open>check_remove_tlc_with_reason\<close>, \<open>check_insert_tlc\<close>, \<open>handle_commitment_signed_command\<close> and
  \<open>handle_revoke_and_ack_peer_message\<close>.
\<close>

inductive party_step :: "bool \<Rightarrow> tlc_state \<Rightarrow> peer_msg option \<Rightarrow> peer_msg list \<Rightarrow> tlc_state \<Rightarrow> bool"
  for is_v2 :: bool where
  add_tlc: "\<not> ts_waiting_ack s \<Longrightarrow> fresh_tlc s t \<Longrightarrow> new_tlc t \<Longrightarrow> ti_tlc_id t = Offered i \<Longrightarrow>
     insert_tlc s t = (Ok s' :: (tlc_state, unit) res) \<Longrightarrow>
     party_step is_v2 s None [AddTlc i (tlc_terms t)] s'"
| remove_tlc: "\<not> ts_waiting_ack s \<Longrightarrow> get s (Received i) = Some t \<Longrightarrow> ti_status t = Inbound InCommitted \<Longrightarrow>
     set_received_tlc_removed s i reason = (Ok (h, s') :: (hash256 \<times> tlc_state, unit) res) \<Longrightarrow>
     party_step is_v2 s None [RemoveTlc i reason] s'"
| sign_commitment: "\<not> ts_waiting_ack s \<Longrightarrow>
     get_active_tlcs is_v2 s True = (Ok ts :: (tlc_info list, unit) res) \<Longrightarrow>
     party_step is_v2 s None [CommitmentSigned (map settlement_view ts)] (set_waiting_ack_flag s True)"
| clean_up: "get s i = Some t \<Longrightarrow> ti_removed_confirmed_at t \<noteq> None \<Longrightarrow>
     party_step is_v2 s None [] (apply_remove_tlc s i)"
| recv_add_tlc: "fresh_tlc s t \<Longrightarrow> new_tlc t \<Longrightarrow> ti_tlc_id t = Received i \<Longrightarrow>
     insert_tlc s t = (Ok s' :: (tlc_state, unit) res) \<Longrightarrow>
     party_step is_v2 s (Some (AddTlc i (tlc_terms t))) [] s'"
| recv_remove_tlc: "get s (Offered i) = Some t \<Longrightarrow> ti_status t = Outbound OutCommitted \<Longrightarrow>
     set_offered_tlc_removed s i reason = (Ok (h, s') :: (hash256 \<times> tlc_state, unit) res) \<Longrightarrow>
     party_step is_v2 s (Some (RemoveTlc i reason)) [] s'"
| recv_commitment: "get_active_tlcs is_v2 s False = (Ok ts :: (tlc_info list, unit) res) \<Longrightarrow>
     content = map settlement_view ts \<Longrightarrow>
     update_for_commitment_signed s = (Ok (b, s') :: (bool \<times> tlc_state, unit) res) \<Longrightarrow>
     party_step is_v2 s (Some (CommitmentSigned content)) [RevokeAndAck] s'"
| recv_ack: "ts_waiting_ack s \<Longrightarrow>
     update_for_revoke_and_ack s n = (Ok s' :: (tlc_state, unit) res) \<Longrightarrow>
     party_step is_v2 s (Some RevokeAndAck) [] (set_waiting_ack_flag s' False)"

record duplex =
  dx_a :: tlc_state
  dx_b :: tlc_state
  dx_ab :: "peer_msg list"
  dx_ba :: "peer_msg list"

definition swap_duplex :: "duplex \<Rightarrow> duplex" where
  "swap_duplex d = \<lparr>dx_a = dx_b d, dx_b = dx_a d, dx_ab = dx_ba d, dx_ba = dx_ab d\<rparr>"

inductive duplex_step :: "bool \<Rightarrow> duplex \<Rightarrow> duplex \<Rightarrow> bool" for is_v2 :: bool where
  local: "party_step is_v2 (dx_a d) None out s' \<Longrightarrow>
     duplex_step is_v2 d (d\<lparr>dx_a := s', dx_ab := dx_ab d @ out\<rparr>)"
| deliver: "dx_ba d = m # q \<Longrightarrow> party_step is_v2 (dx_a d) (Some m) out s' \<Longrightarrow>
     duplex_step is_v2 d (d\<lparr>dx_a := s', dx_ab := dx_ab d @ out, dx_ba := q\<rparr>)"
| other: "duplex_step is_v2 (swap_duplex d) d' \<Longrightarrow> duplex_step is_v2 d (swap_duplex d')"

definition duplex_init :: duplex where
  "duplex_init = \<lparr>dx_a = tlc_state_default, dx_b = tlc_state_default, dx_ab = [], dx_ba = []\<rparr>"

inductive duplex_reachable :: "bool \<Rightarrow> duplex \<Rightarrow> bool" for is_v2 :: bool where
  start: "duplex_reachable is_v2 duplex_init"
| step: "duplex_reachable is_v2 d \<Longrightarrow> duplex_step is_v2 d d' \<Longrightarrow> duplex_reachable is_v2 d'"

section \<open>One TLC\<close>

datatype tlc_msg = TAdd | TRem | TSign bool | TAck

type_synonym round_state =
  "outbound_tlc_status option \<times> inbound_tlc_status option \<times> bool \<times> bool \<times> tlc_msg list \<times> tlc_msg list"

definition quiet_rounds :: "bool \<Rightarrow> (bool \<times> bool \<times> tlc_msg list \<times> tlc_msg list) list" where
  "quiet_rounds c = [(False, False, [], []), (False, True, [TAck], []), (False, True, [], [TSign c]),
     (True, False, [TSign c], []), (True, False, [], [TAck]), (True, True, [TAck, TSign c], []),
     (True, True, [TAck], [TAck]), (True, True, [TSign c, TAck], []), (True, True, [TSign c], [TSign c]),
     (True, True, [], [TAck, TSign c]), (True, True, [], [TSign c, TAck])]"

fun rounds_at :: "outbound_tlc_status option \<Rightarrow> inbound_tlc_status option \<Rightarrow>
    (bool \<times> bool \<times> tlc_msg list \<times> tlc_msg list) list" where
  "rounds_at None None = quiet_rounds False"
| "rounds_at (Some LocalAnnounced) None =
     [(False, False, [TAdd], []), (False, True, [TAck, TAdd], []), (False, True, [TAdd, TAck], []),
      (False, True, [TAdd], [TSign False]), (True, False, [TAdd, TSign True], []),
      (True, True, [TAck, TAdd, TSign True], []), (True, True, [TAdd, TAck, TSign True], []),
      (True, True, [TAdd, TSign True], [TSign False]), (True, True, [TAdd, TSign True, TAck], [])]"
| "rounds_at (Some LocalAnnounced) (Some RemoteAnnounced) =
     [(False, False, [], []), (False, True, [TAck], []), (False, True, [], [TSign False]),
      (True, False, [TSign True], []), (True, True, [TAck, TSign True], []),
      (True, True, [TSign True, TAck], []), (True, True, [TSign True], [TSign False])]"
| "rounds_at (Some LocalAnnounced) (Some AnnounceWaitPrevAck) =
     [(True, True, [TAck], [TAck]), (True, True, [], [TSign False, TAck])]"
| "rounds_at (Some LocalAnnounced) (Some AnnounceWaitAck) =
     [(True, False, [], [TAck]), (True, True, [], [TAck, TSign True])]"
| "rounds_at (Some OutCommitted) (Some AnnounceWaitPrevAck) =
     [(False, True, [TAck], []), (True, True, [TAck, TSign True], [])]"
| "rounds_at (Some OutCommitted) (Some AnnounceWaitAck) = quiet_rounds True"
| "rounds_at (Some OutCommitted) (Some InCommitted) = quiet_rounds True"
| "rounds_at (Some OutCommitted) (Some LocalRemoved) =
     [(False, False, [], [TRem]), (False, True, [], [TRem, TSign False]),
      (True, False, [TSign True], [TRem]), (True, False, [], [TAck, TRem]),
      (True, False, [], [TRem, TAck]), (True, True, [TSign True], [TRem, TSign False]),
      (True, True, [], [TAck, TRem, TSign False]), (True, True, [], [TRem, TAck, TSign False]),
      (True, True, [], [TRem, TSign False, TAck])]"
| "rounds_at (Some RemoteRemoved) (Some LocalRemoved) =
     [(False, False, [], []), (False, True, [], [TSign False]), (True, False, [TSign True], []),
      (True, False, [], [TAck]), (True, True, [TSign True], [TSign False]),
      (True, True, [], [TAck, TSign False]), (True, True, [], [TSign False, TAck])]"
| "rounds_at (Some RemoveWaitPrevAck) (Some LocalRemoved) =
     [(True, True, [TAck], [TAck]), (True, True, [TSign True, TAck], [])]"
| "rounds_at (Some RemoveWaitAck) (Some LocalRemoved) =
     [(False, True, [TAck], []), (True, True, [TAck, TSign False], [])]"
| "rounds_at (Some RemoveWaitPrevAck) (Some InRemoveAckConfirmed) =
     [(True, False, [], [TAck]), (True, True, [], [TAck, TSign False])]"
| "rounds_at (Some RemoveWaitAck) (Some InRemoveAckConfirmed) = quiet_rounds False"
| "rounds_at (Some OutRemoveAckConfirmed) (Some InRemoveAckConfirmed) = quiet_rounds False"
| "rounds_at _ _ = []"

fun round_ok :: "round_state \<Rightarrow> bool" where
  "round_ok (o', i, wa, wb, qab, qba) \<longleftrightarrow> (wa, wb, qab, qba) \<in> set (rounds_at o' i)"

definition out_in :: "bool \<Rightarrow> bool \<Rightarrow> outbound_tlc_status option \<Rightarrow> bool" where
  "out_in v2 for_remote o' = (case o' of None \<Rightarrow> False
     | Some st \<Rightarrow> if v2 then outbound_in_commitment_v2 for_remote st else outbound_in_commitment for_remote st)"

definition in_in :: "bool \<Rightarrow> bool \<Rightarrow> inbound_tlc_status option \<Rightarrow> bool" where
  "in_in v2 for_remote i = (case i of None \<Rightarrow> False
     | Some st \<Rightarrow> if v2 then inbound_in_commitment_v2 for_remote st else inbound_in_commitment for_remote st)"

lemma rounds_at_cases:
  assumes "x \<in> set (rounds_at o' i)"
  shows "(o', i) \<in> {(None, None), (Some LocalAnnounced, None), (Some LocalAnnounced, Some RemoteAnnounced),
     (Some LocalAnnounced, Some AnnounceWaitPrevAck), (Some LocalAnnounced, Some AnnounceWaitAck),
     (Some OutCommitted, Some AnnounceWaitPrevAck), (Some OutCommitted, Some AnnounceWaitAck),
     (Some OutCommitted, Some InCommitted), (Some OutCommitted, Some LocalRemoved),
     (Some RemoteRemoved, Some LocalRemoved), (Some RemoveWaitPrevAck, Some LocalRemoved),
     (Some RemoveWaitAck, Some LocalRemoved), (Some RemoveWaitPrevAck, Some InRemoveAckConfirmed),
     (Some RemoveWaitAck, Some InRemoveAckConfirmed), (Some OutRemoveAckConfirmed, Some InRemoveAckConfirmed)}"
  using assms by (cases "(o', i)" rule: rounds_at.cases) simp_all

lemmas round_eval = quiet_rounds_def cs_out_def cs_in_def out_in_def in_in_def

lemma round_add:
  "round_ok (None, i, False, wb, qab, qba) \<Longrightarrow> round_ok (Some LocalAnnounced, i, False, wb, qab @ [TAdd], qba)"
  by (frule rounds_at_cases [OF round_ok.simps [THEN iffD1]]) (auto simp: round_eval)

lemma round_sign_offerer:
  "round_ok (o', i, False, wb, qab, qba) \<Longrightarrow> round_ok (o', i, True, wb, qab @ [TSign (out_in v2 True o')], qba)"
  by (frule rounds_at_cases [OF round_ok.simps [THEN iffD1]]) (auto simp: round_eval)

lemma round_sign_receiver:
  "round_ok (o', i, wa, False, qab, qba) \<Longrightarrow> round_ok (o', i, wa, True, qab, qba @ [TSign (in_in v2 True i)])"
  by (frule rounds_at_cases [OF round_ok.simps [THEN iffD1]]) (auto simp: round_eval)

lemma round_remove:
  "round_ok (o', Some InCommitted, wa, False, qab, qba) \<Longrightarrow>
   round_ok (o', Some LocalRemoved, wa, False, qab, qba @ [TRem])"
  by (frule rounds_at_cases [OF round_ok.simps [THEN iffD1]]) (auto simp: round_eval)

lemma round_recv_add:
  "round_ok (o', i, wa, wb, TAdd # qab, qba) \<Longrightarrow> i = None \<and> round_ok (o', Some RemoteAnnounced, wa, wb, qab, qba)"
  by (frule rounds_at_cases [OF round_ok.simps [THEN iffD1]]) (auto simp: round_eval)

lemma round_recv_remove:
  "round_ok (o', i, wa, wb, qab, TRem # qba) \<Longrightarrow>
   o' = Some OutCommitted \<and> round_ok (Some RemoteRemoved, i, wa, wb, qab, qba)"
  by (frule rounds_at_cases [OF round_ok.simps [THEN iffD1]]) (auto simp: round_eval)

lemma round_recv_sign_receiver:
  "round_ok (o', i, wa, wb, TSign b # qab, qba) \<Longrightarrow>
   b = in_in v2 False i \<and> round_ok (o', map_option (cs_in wb) i, wa, wb, qab, qba @ [TAck])"
  by (frule rounds_at_cases [OF round_ok.simps [THEN iffD1]]) (auto simp: round_eval)

lemma round_recv_sign_offerer:
  "round_ok (o', i, wa, wb, qab, TSign b # qba) \<Longrightarrow>
   b = out_in v2 False o' \<and> round_ok (map_option (cs_out wa) o', i, wa, wb, qab @ [TAck], qba)"
  by (frule rounds_at_cases [OF round_ok.simps [THEN iffD1]]) (auto simp: round_eval)

lemma round_recv_ack_receiver:
  "round_ok (o', i, wa, wb, TAck # qab, qba) \<Longrightarrow>
   wb \<and> round_ok (o', map_option raa_in i, wa, False, qab, qba)"
  by (frule rounds_at_cases [OF round_ok.simps [THEN iffD1]]) (auto simp: round_eval)

lemma round_recv_ack_offerer:
  "round_ok (o', i, wa, wb, qab, TAck # qba) \<Longrightarrow>
   wa \<and> round_ok (map_option raa_out o', i, False, wb, qab, qba)"
  by (frule rounds_at_cases [OF round_ok.simps [THEN iffD1]]) (auto simp: round_eval)

section \<open>Projection to one TLC\<close>

definition proj_out :: "tlc_state \<Rightarrow> u64 \<Rightarrow> outbound_tlc_status option" where
  "proj_out s n = (case get s (Offered n) of
       Some t \<Rightarrow> Some (out_st (ti_status t))
     | None \<Rightarrow> if n < get_next_offering s then Some OutRemoveAckConfirmed else None)"

definition proj_in :: "tlc_state \<Rightarrow> u64 \<Rightarrow> inbound_tlc_status option" where
  "proj_in s n = (case get s (Received n) of
       Some t \<Rightarrow> Some (in_st (ti_status t))
     | None \<Rightarrow> if n < get_next_received s then Some InRemoveAckConfirmed else None)"

fun fwd_msg :: "u64 \<Rightarrow> peer_msg \<Rightarrow> tlc_msg list" where
  "fwd_msg n (AddTlc i _) = (if i = n then [TAdd] else [])"
| "fwd_msg n (RemoveTlc _ _) = []"
| "fwd_msg n (CommitmentSigned c) = [TSign (Offered n \<in> fst ` set c)]"
| "fwd_msg n RevokeAndAck = [TAck]"

fun bwd_msg :: "u64 \<Rightarrow> peer_msg \<Rightarrow> tlc_msg list" where
  "bwd_msg n (AddTlc _ _) = []"
| "bwd_msg n (RemoveTlc i _) = (if i = n then [TRem] else [])"
| "bwd_msg n (CommitmentSigned c) = [TSign (Received n \<in> fst ` set c)]"
| "bwd_msg n RevokeAndAck = [TAck]"

abbreviation fwd :: "u64 \<Rightarrow> peer_msg list \<Rightarrow> tlc_msg list" where
  "fwd n q \<equiv> concat (map (fwd_msg n) q)"

abbreviation bwd :: "u64 \<Rightarrow> peer_msg list \<Rightarrow> tlc_msg list" where
  "bwd n q \<equiv> concat (map (bwd_msg n) q)"

definition project :: "duplex \<Rightarrow> u64 \<Rightarrow> round_state" where
  "project d n = (proj_out (dx_a d) n, proj_in (dx_b d) n, ts_waiting_ack (dx_a d), ts_waiting_ack (dx_b d),
     fwd n (dx_ab d), bwd n (dx_ba d))"

text \<open>How each table operation moves the projections.\<close>

lemma get_after_cs:
  "get (after_cs s) i = map_option (if is_offered_id i then cs_offered (ts_waiting_ack s) else cs_received (ts_waiting_ack s)) (get s i)"
  by (simp add: get_def after_cs_def find_tlc_map)

lemma get_after_raa:
  "get (after_raa n s) i = map_option (if is_offered_id i then raa_offered n else raa_received n) (get s i)"
  by (simp add: get_def after_raa_def find_tlc_map)

lemma next_after [simp]:
  "get_next_offering (after_cs s) = get_next_offering s" "get_next_received (after_cs s) = get_next_received s"
  "get_next_offering (after_raa n s) = get_next_offering s" "get_next_received (after_raa n s) = get_next_received s"
  by (simp_all add: after_cs_def after_raa_def get_next_offering_def get_next_received_def)

lemma waiting_after [simp]:
  "ts_waiting_ack (after_cs s) = ts_waiting_ack s" "ts_waiting_ack (after_raa n s) = ts_waiting_ack s"
  by (simp_all add: after_cs_def after_raa_def)

lemma proj_after_cs:
  "proj_out (after_cs s) n = map_option (cs_out (ts_waiting_ack s)) (proj_out s n)"
  "proj_in (after_cs s) n = map_option (cs_in (ts_waiting_ack s)) (proj_in s n)"
  by (auto simp: proj_out_def proj_in_def get_after_cs cs_offered_def cs_received_def cs_out_def cs_in_def
      split: option.splits)

lemma proj_after_raa:
  "proj_out (after_raa k s) n = map_option raa_out (proj_out s n)"
  "proj_in (after_raa k s) n = map_option raa_in (proj_in s n)"
  by (auto simp: proj_out_def proj_in_def get_after_raa raa_offered_def raa_received_def
      split: option.splits)

lemma get_waiting_flag [simp]: "get (set_waiting_ack_flag s b) = get s"
  by (simp add: set_waiting_ack_flag_def get_def fun_eq_iff)

lemma proj_waiting_flag [simp]:
  "proj_out (set_waiting_ack_flag s b) = proj_out s" "proj_in (set_waiting_ack_flag s b) = proj_in s"
  "ts_waiting_ack (set_waiting_ack_flag s b) = b"
  by (simp_all add: proj_out_def proj_in_def set_waiting_ack_flag_def get_def fun_eq_iff
      get_next_offering_def get_next_received_def)

lemma next_modify [simp]:
  "get_next_offering (modify_tlc s i f) = get_next_offering s"
  "get_next_received (modify_tlc s i f) = get_next_received s"
  "ts_waiting_ack (modify_tlc s i f) = ts_waiting_ack s"
  by (simp_all add: modify_tlc_def get_next_offering_def get_next_received_def split: option.splits)

lemma get_received_removed:
  assumes "wf_tlc_state s" and "set_received_tlc_removed s i r = Ok (h, s')"
  obtains t where "get s (Received i) = Some t"
    "get s' = (get s)(Received i \<mapsto> t\<lparr>ti_removed_reason := Some r, ti_status := Inbound LocalRemoved\<rparr>)"
    "get_next_offering s' = get_next_offering s" "get_next_received s' = get_next_received s"
    "ts_waiting_ack s' = ts_waiting_ack s"
  using assms
proof (cases rule: set_received_tlc_removed_OkE)
  case (1 t)
  have "get s' = (get s)(Received i \<mapsto> t\<lparr>ti_removed_reason := Some r, ti_status := Inbound LocalRemoved\<rparr>)"
    unfolding 1(5) using get_wf_cases(1) [OF assms(1) 1(1)]
    by (intro get_modify_tlc [OF assms(1) 1(1)]) simp
  with 1 that show ?thesis by simp
qed

lemma get_offered_removed:
  assumes "wf_tlc_state s" and "set_offered_tlc_removed s i r = Ok (h, s')"
  obtains t where "get s (Offered i) = Some t"
    "get s' = (get s)(Offered i \<mapsto> t\<lparr>ti_removed_reason := Some r, ti_status := Outbound RemoteRemoved\<rparr>)"
    "get_next_offering s' = get_next_offering s" "get_next_received s' = get_next_received s"
    "ts_waiting_ack s' = ts_waiting_ack s"
  using assms
proof (cases rule: set_offered_tlc_removed_OkE)
  case (1 t)
  have "get s' = (get s)(Offered i \<mapsto> t\<lparr>ti_removed_reason := Some r, ti_status := Outbound RemoteRemoved\<rparr>)"
    unfolding 1(5) using get_wf_cases(1) [OF assms(1) 1(1)]
    by (intro get_modify_tlc [OF assms(1) 1(1)]) simp
  with 1 that show ?thesis by simp
qed

lemma proj_received_removed:
  assumes "wf_tlc_state s" and "set_received_tlc_removed s i r = Ok (h, s')"
  shows "proj_out s' = proj_out s" and "proj_in s' = (proj_in s)(i \<mapsto> LocalRemoved)"
    and "ts_waiting_ack s' = ts_waiting_ack s"
  by (rule get_received_removed [OF assms]; auto simp: proj_out_def proj_in_def)+

lemma proj_offered_removed:
  assumes "wf_tlc_state s" and "set_offered_tlc_removed s i r = Ok (h, s')"
  shows "proj_in s' = proj_in s" and "proj_out s' = (proj_out s)(i \<mapsto> RemoteRemoved)"
    and "ts_waiting_ack s' = ts_waiting_ack s"
  by (rule get_offered_removed [OF assms]; auto simp: proj_out_def proj_in_def)+

lemma next_remove [simp]:
  "get_next_offering (apply_remove_tlc s i) = get_next_offering s"
  "get_next_received (apply_remove_tlc s i) = get_next_received s"
  "ts_waiting_ack (apply_remove_tlc s i) = ts_waiting_ack s"
  by (simp_all add: apply_remove_tlc_def get_next_offering_def get_next_received_def)

lemma get_bound:
  assumes "wf_tlc_state s"
  shows "get s (Offered n) = Some t \<Longrightarrow> n < get_next_offering s"
    and "get s (Received n) = Some t \<Longrightarrow> n < get_next_received s"
  using assms
  by (auto simp: get_def get_next_offering_def get_next_received_def wf_tlc_state_def wf_pending_def
      dest!: find_tlc_Some)

lemma proj_clean_up:
  assumes "tlc_inv s" and "get s i = Some t" and "ti_removed_confirmed_at t \<noteq> None"
  shows "proj_out (apply_remove_tlc s i) = proj_out s" and "proj_in (apply_remove_tlc s i) = proj_in s"
proof -
  have wf: "wf_tlc_state s" using assms(1) by simp
  have "removal_recorded t" using assms(1,2) get_Some by (auto simp: tlc_inv_def)
  with assms(3) have "ti_status t \<in> {Outbound OutRemoveAckConfirmed, Inbound InRemoveAckConfirmed}"
    by (simp add: removal_recorded_def status_confirmed_def)
  with get_wf_cases [OF wf assms(2)] assms(2) get_bound [OF wf]
  show "proj_out (apply_remove_tlc s i) = proj_out s" and "proj_in (apply_remove_tlc s i) = proj_in s"
    by (cases i; auto simp: proj_out_def proj_in_def get_apply_remove_tlc fun_eq_iff wf_offered_def wf_received_def)+
qed

lemma proj_insert_offered:
  assumes "wf_tlc_state s" and "fresh_tlc s t" and "new_tlc t" and "ti_tlc_id t = Offered i"
    and "insert_tlc s t = Ok s'"
  shows "i = get_next_offering s" and "proj_out s i = None" and "proj_out s' = (proj_out s)(i \<mapsto> LocalAnnounced)"
    and "proj_in s' = proj_in s" and "ts_waiting_ack s' = ts_waiting_ack s"
    and "unat (get_next_offering s') = unat i + 1" and "get_next_received s' = get_next_received s"
proof -
  show i: "i = get_next_offering s"
    using assms(2,4) by (auto simp: fresh_tlc_def next_tlc_id_def)
  have none: "get s (Offered i) = None"
    using fresh_not_found [OF assms(1,2)] assms(4) by simp
  then show "proj_out s i = None" by (simp add: proj_out_def i)
  have g: "get s' = (get s)(Offered i \<mapsto> t)"
    using get_insert_tlc [OF assms(1,2,5)] assms(4) by simp
  have st: "ti_status t = Outbound LocalAnnounced"
    using assms(2-4) by (auto simp: fresh_tlc_def next_tlc_id_def new_tlc_def wf_offered_def wf_received_def)
  have nx: "unat (get_next_offering s') = unat i + 1 \<and> get_next_received s' = get_next_received s \<and>
      ts_waiting_ack s' = ts_waiting_ack s"
    using assms(5,4) i
    by (cases rule: insert_tlc_OkE) (auto simp: get_next_offering_def get_next_received_def is_offered_def)
  then show "unat (get_next_offering s') = unat i + 1" and "get_next_received s' = get_next_received s"
    and "ts_waiting_ack s' = ts_waiting_ack s" by simp_all
  have "n < get_next_offering s' \<longleftrightarrow> n < i \<or> n = i" for n
    using nx by (auto simp: word_less_nat_alt word_unat_eq_iff)
  then show "proj_out s' = (proj_out s)(i \<mapsto> LocalAnnounced)"
    using g st i by (auto simp: proj_out_def fun_eq_iff split: option.splits)
  show "proj_in s' = proj_in s" using g nx by (auto simp: proj_in_def fun_eq_iff split: option.splits)
qed

lemma proj_insert_received:
  assumes "wf_tlc_state s" and "fresh_tlc s t" and "new_tlc t" and "ti_tlc_id t = Received i"
    and "insert_tlc s t = Ok s'"
  shows "i = get_next_received s" and "proj_in s i = None" and "proj_in s' = (proj_in s)(i \<mapsto> RemoteAnnounced)"
    and "proj_out s' = proj_out s" and "ts_waiting_ack s' = ts_waiting_ack s"
    and "unat (get_next_received s') = unat i + 1" and "get_next_offering s' = get_next_offering s"
proof -
  show i: "i = get_next_received s"
    using assms(2,4) by (auto simp: fresh_tlc_def next_tlc_id_def)
  have none: "get s (Received i) = None"
    using fresh_not_found [OF assms(1,2)] assms(4) by simp
  then show "proj_in s i = None" by (simp add: proj_in_def i)
  have g: "get s' = (get s)(Received i \<mapsto> t)"
    using get_insert_tlc [OF assms(1,2,5)] assms(4) by simp
  have st: "ti_status t = Inbound RemoteAnnounced"
    using assms(2-4) by (auto simp: fresh_tlc_def next_tlc_id_def new_tlc_def wf_offered_def wf_received_def)
  have nx: "unat (get_next_received s') = unat i + 1 \<and> get_next_offering s' = get_next_offering s \<and>
      ts_waiting_ack s' = ts_waiting_ack s"
    using assms(5,4) i
    by (cases rule: insert_tlc_OkE) (auto simp: get_next_offering_def get_next_received_def is_offered_def)
  then show "unat (get_next_received s') = unat i + 1" and "get_next_offering s' = get_next_offering s"
    and "ts_waiting_ack s' = ts_waiting_ack s" by simp_all
  have "n < get_next_received s' \<longleftrightarrow> n < i \<or> n = i" for n
    using nx by (auto simp: word_less_nat_alt word_unat_eq_iff)
  then show "proj_in s' = (proj_in s)(i \<mapsto> RemoteAnnounced)"
    using g st i by (auto simp: proj_in_def fun_eq_iff split: option.splits)
  show "proj_out s' = proj_out s" using g nx by (auto simp: proj_out_def fun_eq_iff split: option.splits)
qed

section \<open>The signed list\<close>

definition active :: "bool \<Rightarrow> tlc_state \<Rightarrow> bool \<Rightarrow> tlc_id \<Rightarrow> tlc_terms option" where
  "active v2 s for_remote i = (case get s i of None \<Rightarrow> None
     | Some t \<Rightarrow> if (if is_offered_id i then out_in v2 for_remote (Some (out_st (ti_status t)))
                     else in_in v2 for_remote (Some (in_st (ti_status t))))
                then Some (tlc_terms t) else None)"

text \<open>Position of an identifier in a signed list: received TLCs first, then offered ones.\<close>

definition id_rank :: "tlc_id \<Rightarrow> nat" where
  "id_rank i = (if is_offered_id i then 2 ^ 64 else 0) + unat (tlc_id_u64 i)"

definition canonical :: "(tlc_id \<times> 'a) list \<Rightarrow> bool" where
  "canonical c \<longleftrightarrow> sorted_wrt (<) (map (id_rank \<circ> fst) c)"

lemma id_rank_inj: "id_rank i = id_rank j \<longleftrightarrow> i = j"
  using unat_bound [of "tlc_id_u64 i"] unat_bound [of "tlc_id_u64 j"]
  by (cases i; cases j) (auto simp: id_rank_def word_unat_eq_iff)

lemma canonical_unique:
  assumes "canonical c" and "canonical c'" and "set c = set c'"
  shows "c = c'"
proof (rule map_sorted_distinct_set_unique [where f = "id_rank \<circ> fst"])
  show "inj_on (id_rank \<circ> fst) (set c \<union> set c')"
    using assms strict_sorted_iff [of "map (id_rank \<circ> fst) c"]
    by (auto simp: canonical_def distinct_map)
qed (use assms in \<open>auto simp: canonical_def strict_sorted_iff\<close>)

abbreviation out_active :: "bool \<Rightarrow> bool \<Rightarrow> tlc_info \<Rightarrow> bool" where
  "out_active v2 r t \<equiv> out_in v2 r (Some (out_st (ti_status t)))"

abbreviation in_active :: "bool \<Rightarrow> bool \<Rightarrow> tlc_info \<Rightarrow> bool" where
  "in_active v2 r t \<equiv> in_in v2 r (Some (in_st (ti_status t)))"

lemma offered_list_kind:
  "wf_tlc_state s \<Longrightarrow> t \<in> set (offered_list s) \<Longrightarrow> is_offered t"
  "wf_tlc_state s \<Longrightarrow> t \<in> set (received_list s) \<Longrightarrow> \<not> is_offered t"
  by (auto simp: is_offered_def wf_offered_def wf_received_def dest: wf_offered_list wf_received_list)

lemma split_by_kind:
  assumes "wf_tlc_state s"
  shows "filter (\<lambda>t. Q t \<and> is_received t) (received_list s) = filter Q (received_list s)"
    and "filter (\<lambda>t. Q t \<and> is_offered t) (offered_list s) = filter Q (offered_list s)"
    and "filter (\<lambda>t. Q t \<and> is_received t) (offered_list s) = []"
    and "filter (\<lambda>t. Q t \<and> is_offered t) (received_list s) = []"
  using offered_list_kind [OF assms] by (auto simp: is_received_def filter_empty_conv intro!: filter_cong)

lemma get_active_tlcs_wf:
  assumes "wf_tlc_state s"
  shows "get_active_tlcs v2 s r = Ok (order_active r (filter (in_active v2 r) (received_list s))
           (filter (out_active v2 r) (offered_list s)))"
  by (simp add: get_active_tlcs_def get_active_tlcs_v2_def get_active_received_tlcs_def
      get_active_offered_tlcs_def commitment_signed_tlcs_wf [OF assms] commitment_signed_tlcs_v2_wf [OF assms]
      split_by_kind [OF assms] out_in_def in_in_def)

lemma get_active_tlcs_eq:
  assumes "wf_tlc_state s" and "get_active_tlcs v2 s r = Ok ts"
  shows "ts = order_active r (filter (in_active v2 r) (received_list s)) (filter (out_active v2 r) (offered_list s))"
  using assms by (simp add: get_active_tlcs_wf)

lemma flip_mut_fields [simp]: "ti_tlc_id (flip_mut t) = flip (ti_tlc_id t)" "tlc_terms (flip_mut t) = tlc_terms t"
  by (simp_all add: flip_mut_def tlc_terms_def)

lemma set_sort_by_id [simp]: "set (sort_by_id xs) = set xs"
  by (simp add: sort_by_id_def)

lemma get_in_iff:
  assumes "wf_tlc_state s"
  shows "is_offered_id i \<Longrightarrow> get s i = Some t \<longleftrightarrow> t \<in> set (offered_list s) \<and> ti_tlc_id t = i"
    and "\<not> is_offered_id i \<Longrightarrow> get s i = Some t \<longleftrightarrow> t \<in> set (received_list s) \<and> ti_tlc_id t = i"
  using distinct_offered [OF assms] distinct_received [OF assms]
  by (auto simp: get_def intro: find_tlc_in dest: find_tlc_Some)

lemma active_Some_iff:
  assumes "wf_tlc_state s"
  shows "active v2 s r i = Some x \<longleftrightarrow>
    (\<exists>t. ti_tlc_id t = i \<and> tlc_terms t = x \<and>
      (t \<in> set (offered_list s) \<and> out_active v2 r t \<or> t \<in> set (received_list s) \<and> in_active v2 r t))"
proof (cases "is_offered_id i")
  case True
  then have "ti_tlc_id t = i \<Longrightarrow> t \<notin> set (received_list s)" for t
    using offered_list_kind(2) [OF assms, of t] by (auto simp: is_offered_def)
  moreover have "active v2 s r i = Some x \<longleftrightarrow> (\<exists>t. get s i = Some t \<and> out_active v2 r t \<and> tlc_terms t = x)"
    using True by (auto simp: active_def split: option.splits)
  ultimately show ?thesis
    unfolding get_in_iff(1) [OF assms True] by blast
next
  case False
  then have "ti_tlc_id t = i \<Longrightarrow> t \<notin> set (offered_list s)" for t
    using offered_list_kind(1) [OF assms, of t] by (auto simp: is_offered_def)
  moreover have "active v2 s r i = Some x \<longleftrightarrow> (\<exists>t. get s i = Some t \<and> in_active v2 r t \<and> tlc_terms t = x)"
    using False by (auto simp: active_def split: option.splits)
  ultimately show ?thesis
    unfolding get_in_iff(2) [OF assms False] by blast
qed

lemma signed_list_set:
  assumes "wf_tlc_state s" and "get_active_tlcs v2 s r = Ok ts"
  shows "(i, x) \<in> set (map settlement_view ts) \<longleftrightarrow> active v2 s r (if r then i else flip i) = Some x"
proof -
  note ts = get_active_tlcs_eq [OF assms]
  show ?thesis
  proof (cases r)
    case True
    then show ?thesis
      unfolding active_Some_iff [OF assms(1)] ts
      by (auto simp: order_active_def settlement_view_def image_iff)
  next
    case False
    have img: "(i, x) \<in> (settlement_view \<circ> flip_mut) ` A \<longleftrightarrow> (\<exists>t\<in>A. ti_tlc_id t = flip i \<and> tlc_terms t = x)" for A
      by (auto simp: settlement_view_def image_iff) (metis flip_flip)+
    from False show ?thesis
      unfolding active_Some_iff [OF assms(1)] ts
      by (simp add: order_active_def image_Un img [unfolded image_comp [symmetric]]) blast
  qed
qed

lemma sorted_part:
  assumes "distinct (map ti_tlc_id xs)" and "\<And>t. t \<in> set xs \<Longrightarrow> is_offered t = b"
  shows "sorted_wrt (<) (map (id_rank \<circ> fst) (map settlement_view (sort_by_id xs)))"
proof -
  have rank: "id_rank (ti_tlc_id t) = (if b then 2 ^ 64 else 0) + unat (tlc_id_u64 (ti_tlc_id t))"
    if "t \<in> set xs" for t using assms(2) [OF that] by (simp add: id_rank_def is_offered_def)
  have "sorted (map (\<lambda>t. tlc_id_u64 (ti_tlc_id t)) (sort_by_id xs))"
    by (simp add: sort_by_id_def)
  then have sorted: "sorted (map (\<lambda>t. id_rank (ti_tlc_id t)) (sort_by_id xs))"
    using rank by (auto simp: sorted_map sorted_wrt_map word_le_nat_alt elim!: sorted_wrt_mono_rel [rotated])
  have "distinct (map ti_tlc_id (sort_by_id xs))"
    using assms(1) by (simp add: sort_by_id_def distinct_map)
  then have "distinct (map (\<lambda>t. id_rank (ti_tlc_id t)) (sort_by_id xs))"
    by (auto simp: distinct_map inj_on_def id_rank_inj)
  with sorted show ?thesis
    by (simp add: strict_sorted_iff settlement_view_def comp_def)
qed

lemma canonical_parts:
  assumes "distinct (map ti_tlc_id xs)" and "\<And>t. t \<in> set xs \<Longrightarrow> \<not> is_offered t"
    and "distinct (map ti_tlc_id ys)" and "\<And>t. t \<in> set ys \<Longrightarrow> is_offered t"
  shows "canonical (map settlement_view (sort_by_id xs @ sort_by_id ys))"
proof -
  have "id_rank (ti_tlc_id x) < id_rank (ti_tlc_id y)" if "x \<in> set xs" "y \<in> set ys" for x y
    using assms(2) [OF that(1)] assms(4) [OF that(2)] unat_bound [of "tlc_id_u64 (ti_tlc_id x)"]
    by (simp add: id_rank_def is_offered_def trans_less_add1)
  then show ?thesis
    using sorted_part [OF assms(1), of False] sorted_part [OF assms(3), of True] assms(2,4)
    by (simp add: canonical_def sorted_wrt_append settlement_view_def)
qed

lemma signed_list_canonical:
  assumes "wf_tlc_state s" and "get_active_tlcs v2 s r = Ok ts"
  shows "canonical (map settlement_view ts)"
proof -
  note [simp] = is_offered_def
  have ids: "distinct (map ti_tlc_id (filter P (offered_list s)))"
      "distinct (map ti_tlc_id (filter P (received_list s)))"
      "distinct (map ti_tlc_id (map flip_mut (filter P (offered_list s))))"
      "distinct (map ti_tlc_id (map flip_mut (filter P (received_list s))))" for P
    using distinct_offered [OF assms(1)] distinct_received [OF assms(1)]
    by (auto simp: distinct_map_filter distinct_map inj_on_def dest: arg_cong [of "flip _" "flip _" flip])
  note ts = get_active_tlcs_eq [OF assms]
  show ?thesis
  proof (cases r)
    case True
    then show ?thesis unfolding ts order_active_def using ids offered_list_kind [OF assms(1)]
      by (simp only: if_True prod.case Let_def) (rule canonical_parts; auto)
  next
    case False
    then show ?thesis unfolding ts order_active_def using ids offered_list_kind [OF assms(1)]
      by (simp only: if_False prod.case Let_def) (rule canonical_parts; auto)
  qed
qed

section \<open>The invariant of the two links\<close>

definition terms_out :: "tlc_state \<Rightarrow> (u64 \<times> tlc_terms) set" where
  "terms_out s = {(n, tlc_terms t) |n t. get s (Offered n) = Some t}"

definition terms_in :: "tlc_state \<Rightarrow> (u64 \<times> tlc_terms) set" where
  "terms_in s = {(n, tlc_terms t) |n t. get s (Received n) = Some t}"

fun fwd_terms :: "peer_msg \<Rightarrow> (u64 \<times> tlc_terms) set" where
  "fwd_terms (AddTlc i x) = {(i, x)}"
| "fwd_terms (CommitmentSigned c) = {(i, x). (Offered i, x) \<in> set c}"
| "fwd_terms _ = {}"

fun bwd_terms :: "peer_msg \<Rightarrow> (u64 \<times> tlc_terms) set" where
  "bwd_terms (CommitmentSigned c) = {(i, x). (Received i, x) \<in> set c}"
| "bwd_terms _ = {}"

text \<open>Every place where the terms of a TLC from \<open>a\<close> to \<open>b\<close> are written down.\<close>

definition occurrences :: "duplex \<Rightarrow> (u64 \<times> tlc_terms) set" where
  "occurrences d = terms_out (dx_a d) \<union> terms_in (dx_b d) \<union>
     (\<Union>m\<in>set (dx_ab d). fwd_terms m) \<union> (\<Union>m\<in>set (dx_ba d). bwd_terms m)"

fun add_ids :: "peer_msg list \<Rightarrow> u64 list" where
  "add_ids [] = []"
| "add_ids (AddTlc i _ # q) = i # add_ids q"
| "add_ids (_ # q) = add_ids q"

fun canonical_msg :: "peer_msg \<Rightarrow> bool" where
  "canonical_msg (CommitmentSigned c) = canonical c"
| "canonical_msg _ = True"

definition adds_inv :: "duplex \<Rightarrow> bool" where
  "adds_inv d \<longleftrightarrow> sorted_wrt (<) (add_ids (dx_ab d)) \<and> (\<forall>i\<in>set (add_ids (dx_ab d)). i < get_next_offering (dx_a d))"

definition terms_inv :: "duplex \<Rightarrow> bool" where
  "terms_inv d \<longleftrightarrow> single_valued (occurrences d) \<and> (\<forall>i\<in>Domain (occurrences d). i < get_next_offering (dx_a d))"

definition link_inv :: "duplex \<Rightarrow> bool" where
  "link_inv d \<longleftrightarrow> (\<forall>n. round_ok (project d n)) \<and> adds_inv d \<and> terms_inv d \<and>
     (\<forall>m\<in>set (dx_ab d). canonical_msg m)"

definition duplex_inv :: "duplex \<Rightarrow> bool" where
  "duplex_inv d \<longleftrightarrow> tlc_inv (dx_a d) \<and> tlc_inv (dx_b d) \<and> link_inv d \<and> link_inv (swap_duplex d)"

text \<open>A link after its head was consumed.\<close>

fun consumed :: "peer_msg option \<Rightarrow> peer_msg list \<Rightarrow> peer_msg list \<Rightarrow> bool" where
  "consumed None q q' \<longleftrightarrow> q' = q"
| "consumed (Some m) q q' \<longleftrightarrow> q = m # q'"

lemma add_ids_append [simp]: "add_ids (p @ q) = add_ids p @ add_ids q"
  by (induction p rule: add_ids.induct) auto

lemma set_add_ids: "i \<in> set (add_ids q) \<longleftrightarrow> (\<exists>x. AddTlc i x \<in> set q)"
  by (induction q rule: add_ids.induct) auto

section \<open>What a party step does\<close>

lemma party_step_tlc_inv:
  assumes "party_step v2 s rec out s'" and "tlc_inv s"
  shows "tlc_inv s'"
  using assms
proof (induction rule: party_step.induct)
  case (recv_ack s n s')
  then show ?case
    by (metis tlc_step_inv tlc_step.revoke_and_ack tlc_step.waiting_ack)
qed (blast intro: tlc_step_inv tlc_step.intros)+

lemma terms_after [simp]:
  "tlc_terms (cs_offered w t) = tlc_terms t" "tlc_terms (cs_received w t) = tlc_terms t"
  "tlc_terms (raa_offered n t) = tlc_terms t" "tlc_terms (raa_received n t) = tlc_terms t"
  by (simp_all add: tlc_terms_def cs_offered_def cs_received_def raa_offered_def raa_received_def)

lemma terms_of_ladder [simp]:
  "terms_out (after_cs s) = terms_out s" "terms_in (after_cs s) = terms_in s"
  "terms_out (after_raa n s) = terms_out s" "terms_in (after_raa n s) = terms_in s"
  by (auto simp: terms_out_def terms_in_def get_after_cs get_after_raa)

lemma terms_waiting_flag [simp]:
  "terms_out (set_waiting_ack_flag s b) = terms_out s" "terms_in (set_waiting_ack_flag s b) = terms_in s"
  by (simp_all add: terms_out_def terms_in_def)

lemma terms_remove:
  "terms_out (apply_remove_tlc s i) \<subseteq> terms_out s" "terms_in (apply_remove_tlc s i) \<subseteq> terms_in s"
  by (auto simp: terms_out_def terms_in_def get_apply_remove_tlc split: if_splits)

lemma terms_received_removed:
  assumes "wf_tlc_state s" and "set_received_tlc_removed s i r = Ok (h, s')"
  shows "terms_out s' = terms_out s \<and> terms_in s' = terms_in s \<and> get_next_offering s' = get_next_offering s"
proof (rule get_received_removed [OF assms])
  fix t
  assume t: "get s (Received i) = Some t"
    and g: "get s' = (get s)(Received i \<mapsto> t\<lparr>ti_removed_reason := Some r, ti_status := Inbound LocalRemoved\<rparr>)"
    and n: "get_next_offering s' = get_next_offering s"
  have "tlc_terms (t\<lparr>ti_removed_reason := Some r, ti_status := Inbound LocalRemoved\<rparr>) = tlc_terms t"
    by (simp add: tlc_terms_def)
  with t g n show ?thesis by (auto simp: terms_out_def terms_in_def)
qed

lemma terms_offered_removed:
  assumes "wf_tlc_state s" and "set_offered_tlc_removed s i r = Ok (h, s')"
  shows "terms_out s' = terms_out s \<and> terms_in s' = terms_in s \<and> get_next_offering s' = get_next_offering s"
proof (rule get_offered_removed [OF assms])
  fix t
  assume t: "get s (Offered i) = Some t"
    and g: "get s' = (get s)(Offered i \<mapsto> t\<lparr>ti_removed_reason := Some r, ti_status := Outbound RemoteRemoved\<rparr>)"
    and n: "get_next_offering s' = get_next_offering s"
  have "tlc_terms (t\<lparr>ti_removed_reason := Some r, ti_status := Outbound RemoteRemoved\<rparr>) = tlc_terms t"
    by (simp add: tlc_terms_def)
  with t g n show ?thesis by (auto simp: terms_out_def terms_in_def)
qed

lemma active_terms:
  "active v2 s r (Offered n) = Some x \<Longrightarrow> (n, x) \<in> terms_out s"
  "active v2 s r (Received n) = Some x \<Longrightarrow> (n, x) \<in> terms_in s"
  by (auto simp: active_def terms_out_def terms_in_def split: option.splits if_splits)

lemma active_membership:
  "active v2 s r (Offered n) \<noteq> None \<longleftrightarrow> out_in v2 r (proj_out s n)"
  "active v2 s r (Received n) \<noteq> None \<longleftrightarrow> in_in v2 r (proj_in s n)"
  by (auto simp: active_def proj_out_def proj_in_def out_in_def in_in_def split: option.splits)

lemma sign_projection:
  assumes "wf_tlc_state s" and "get_active_tlcs v2 s r = Ok ts"
  shows "Offered n \<in> fst ` set (map settlement_view ts) \<longleftrightarrow>
           (if r then out_in v2 r (proj_out s n) else in_in v2 r (proj_in s n))"
    and "Received n \<in> fst ` set (map settlement_view ts) \<longleftrightarrow>
           (if r then in_in v2 r (proj_in s n) else out_in v2 r (proj_out s n))"
proof -
  have *: "i \<in> fst ` set (map settlement_view ts) \<longleftrightarrow> active v2 s r (if r then i else flip i) \<noteq> None" for i
    using signed_list_set [OF assms, of i] by (force simp del: set_map simp: image_iff)
  show "Offered n \<in> fst ` set (map settlement_view ts) \<longleftrightarrow>
      (if r then out_in v2 r (proj_out s n) else in_in v2 r (proj_in s n))"
    and "Received n \<in> fst ` set (map settlement_view ts) \<longleftrightarrow>
      (if r then in_in v2 r (proj_in s n) else out_in v2 r (proj_out s n))"
    unfolding * using active_membership [of v2 s r n] by (cases r; simp)+
qed

lemma next_waiting_flag [simp]:
  "get_next_offering (set_waiting_ack_flag s b) = get_next_offering s"
  "get_next_received (set_waiting_ack_flag s b) = get_next_received s"
  by (simp_all add: set_waiting_ack_flag_def get_next_offering_def get_next_received_def)

text \<open>What a step may write: terms only move from the table into messages and back, and a new
  identifier only appears in an \<open>AddTlc\<close> of its own.\<close>

definition new_terms :: "peer_msg list \<Rightarrow> (u64 \<times> tlc_terms) set" where
  "new_terms out = {(i, x). AddTlc i x \<in> set out}"

definition terms_flow :: "tlc_state \<Rightarrow> peer_msg option \<Rightarrow> peer_msg list \<Rightarrow> tlc_state \<Rightarrow> bool" where
  "terms_flow s rec out s' \<longleftrightarrow>
     terms_out s' \<subseteq> terms_out s \<union> new_terms out \<and>
     terms_in s' \<subseteq> terms_in s \<union> (case rec of None \<Rightarrow> {} | Some m \<Rightarrow> fwd_terms m) \<and>
     (\<Union>m\<in>set out. fwd_terms m) \<subseteq> terms_out s \<union> new_terms out \<and>
     (\<Union>m\<in>set out. bwd_terms m) \<subseteq> terms_in s \<and>
     (\<forall>m\<in>set out. canonical_msg m) \<and>
     (\<forall>i x. AddTlc i x \<in> set out \<longrightarrow> out = [AddTlc i x] \<and> i = get_next_offering s \<and> i < get_next_offering s') \<and>
     get_next_offering s \<le> get_next_offering s'"

lemma terms_flow_trivial:
  assumes "terms_out s' \<subseteq> terms_out s" and "terms_in s' \<subseteq> terms_in s"
    and "out = [] \<or> out = [RevokeAndAck] \<or> (\<exists>i r. out = [RemoveTlc i r])"
    and "get_next_offering s' = get_next_offering s"
  shows "terms_flow s rec out s'"
  using assms by (auto simp: terms_flow_def new_terms_def)

lemma party_terms_flow:
  assumes "party_step v2 s rec out s'" and "wf_tlc_state s"
  shows "terms_flow s rec out s'"
  using assms
proof (induction rule: party_step.induct)
  case (add_tlc s t i s')
  have g: "get s' = (get s)(Offered i \<mapsto> t)"
    using get_insert_tlc [OF add_tlc(6,2,5)] add_tlc(4) by simp
  show ?case
    using proj_insert_offered(1,6) [OF add_tlc(6,2,3,4,5)] g
    by (auto simp: terms_flow_def new_terms_def terms_out_def terms_in_def word_less_nat_alt word_le_nat_alt
        split: if_splits)
next
  case (remove_tlc s i t reason h s')
  show ?case
    using terms_received_removed [OF remove_tlc(5,4)]
    by (intro terms_flow_trivial) auto
next
  case (sign_commitment s ts)
  show ?case
    using signed_list_set [OF sign_commitment(3,2)] signed_list_canonical [OF sign_commitment(3,2)]
    by (auto simp: terms_flow_def simp del: set_map dest: active_terms)
next
  case (clean_up s i t)
  then show ?case using terms_remove by (intro terms_flow_trivial) auto
next
  case (recv_add_tlc s t i s')
  have g: "get s' = (get s)(Received i \<mapsto> t)"
    using get_insert_tlc [OF recv_add_tlc(5,1,4)] recv_add_tlc(3) by simp
  show ?case
    using proj_insert_received(7) [OF recv_add_tlc(5,1,2,3,4)] g
    by (auto simp: terms_flow_def terms_out_def terms_in_def split: if_splits)
next
  case (recv_remove_tlc s i t reason h s')
  show ?case
    using terms_offered_removed [OF recv_remove_tlc(4,3)]
    by (intro terms_flow_trivial) auto
next
  case (recv_commitment s ts content b s')
  then show ?case by (intro terms_flow_trivial) (auto simp: update_for_commitment_signed_wf)
next
  case (recv_ack s n s')
  then show ?case
    by (intro terms_flow_trivial) (auto simp: update_for_revoke_and_ack_wf)
qed

lemma terms_inv_offerer:
  assumes "terms_inv d" and "terms_flow (dx_a d) rec out s'" and "consumed rec (dx_ba d) q"
  shows "terms_inv (d\<lparr>dx_a := s', dx_ab := dx_ab d @ out, dx_ba := q\<rparr>)"
proof -
  let ?d = "d\<lparr>dx_a := s', dx_ab := dx_ab d @ out, dx_ba := q\<rparr>"
  have q: "set q \<subseteq> set (dx_ba d)" using assms(3) by (cases rec) auto
  have "terms_out s' \<union> (\<Union>m\<in>set out. fwd_terms m) \<subseteq> terms_out (dx_a d) \<union> new_terms out"
    using assms(2) by (simp add: terms_flow_def)
  with q have occ: "occurrences ?d \<subseteq> occurrences d \<union> new_terms out"
    by (auto simp: occurrences_def)
  have le: "get_next_offering (dx_a d) \<le> get_next_offering s'"
    using assms(2) by (simp add: terms_flow_def)
  have new: "out = [AddTlc i x] \<and> i = get_next_offering (dx_a d) \<and> i < get_next_offering s'" if "(i, x) \<in> new_terms out" for i x
    using assms(2) that by (simp add: terms_flow_def new_terms_def)
  have old: "i < get_next_offering (dx_a d)" if "(i, x) \<in> occurrences d" for i x
    using assms(1) that by (auto simp: terms_inv_def)
  have "single_valued (occurrences d \<union> new_terms out)"
    using assms(1) old new unfolding terms_inv_def single_valued_def
    by (metis Un_iff less_irrefl list.inject peer_msg.inject(1))
  moreover have "i < get_next_offering s'" if "(i, x) \<in> occurrences d \<union> new_terms out" for i x
    using that old [of i x] new [of i x] le by auto
  ultimately show ?thesis
    using occ by (auto simp: terms_inv_def dest: single_valued_subset)
qed

lemma terms_inv_receiver:
  assumes "terms_inv d" and "terms_flow (dx_b d) rec out s'" and "consumed rec (dx_ab d) q"
  shows "terms_inv (d\<lparr>dx_b := s', dx_ba := dx_ba d @ out, dx_ab := q\<rparr>)"
proof -
  have "occurrences (d\<lparr>dx_b := s', dx_ba := dx_ba d @ out, dx_ab := q\<rparr>) \<subseteq> occurrences d"
    using assms(2,3) by (cases rec) (auto simp: occurrences_def terms_flow_def)
  then show ?thesis using assms(1) by (auto simp: terms_inv_def dest: single_valued_subset)
qed

lemma adds_inv_offerer:
  assumes "adds_inv d" and "terms_flow (dx_a d) rec out s'" and "consumed rec (dx_ba d) q"
  shows "adds_inv (d\<lparr>dx_a := s', dx_ab := dx_ab d @ out, dx_ba := q\<rparr>)"
proof (cases "add_ids out = []")
  case True
  then show ?thesis
    using assms(1,2) by (auto simp: adds_inv_def terms_flow_def intro: order.strict_trans2)
next
  case False
  then obtain i x where "AddTlc i x \<in> set out"
    using set_add_ids [of _ out] by (metis list.set_sel(1))
  then have "out = [AddTlc i x]" "i = get_next_offering (dx_a d)" "i < get_next_offering s'"
    using assms(2) by (auto simp: terms_flow_def)
  with assms(1) show ?thesis
    by (auto simp: adds_inv_def sorted_wrt_append)
qed

lemma adds_inv_receiver:
  assumes "adds_inv d" and "consumed rec (dx_ab d) q"
  shows "adds_inv (d\<lparr>dx_b := s', dx_ba := dx_ba d @ out, dx_ab := q\<rparr>)"
proof (cases rec)
  case (Some m)
  with assms show ?thesis by (cases m) (auto simp: adds_inv_def)
qed (use assms in \<open>simp add: adds_inv_def\<close>)

section \<open>Every step keeps the rounds\<close>

lemma rounds_offerer:
  assumes ok: "\<And>n. round_ok (project d n)" and step: "party_step v2 (dx_a d) rec out s'"
    and inv: "tlc_inv (dx_a d)" and q: "consumed rec (dx_ba d) q"
  shows "round_ok (project (d\<lparr>dx_a := s', dx_ab := dx_ab d @ out, dx_ba := q\<rparr>) n)"
proof -
  have wf: "wf_tlc_state (dx_a d)" using inv by simp
  note ok' = ok [of n, unfolded project_def]
  from step show ?thesis
  proof (cases rule: party_step.cases)
    case (add_tlc t i)
    note p = proj_insert_offered [OF wf add_tlc(4-6,7)]
    show ?thesis
      using ok' round_add [of "proj_in (dx_b d) n"] p add_tlc q by (cases "n = i") (auto simp: project_def)
  next
    case (remove_tlc i t reason h)
    show ?thesis
      using ok' proj_received_removed [OF wf remove_tlc(6)] remove_tlc q by (simp add: project_def)
  next
    case (sign_commitment ts)
    show ?thesis
      using ok' round_sign_offerer [where ?v2.0 = v2] sign_projection(1) [OF wf sign_commitment(5), of n]
        sign_commitment q
      by (simp add: project_def del: set_map)
  next
    case (clean_up i t)
    show ?thesis
      using ok' proj_clean_up [OF inv clean_up(4,5)] clean_up q by (simp add: project_def)
  next
    case (recv_add_tlc t i)
    show ?thesis
      using ok' proj_insert_received [OF wf recv_add_tlc(3-6)] recv_add_tlc q by (simp add: project_def)
  next
    case (recv_remove_tlc i t reason h)
    note p = proj_offered_removed [OF wf recv_remove_tlc(5)]
    show ?thesis
      using ok' round_recv_remove p recv_remove_tlc q by (cases "n = i") (auto simp: project_def)
  next
    case (recv_commitment ts content b)
    have "s' = after_cs (dx_a d)"
      using recv_commitment(5) by (simp add: update_for_commitment_signed_wf wf)
    then show ?thesis
      using ok' round_recv_sign_offerer recv_commitment q by (simp add: project_def proj_after_cs)
  next
    case (recv_ack k s1)
    have "s1 = after_raa k (dx_a d)"
      using recv_ack(5) by (simp add: update_for_revoke_and_ack_wf wf)
    then show ?thesis
      using ok' round_recv_ack_offerer recv_ack q by (simp add: project_def proj_after_raa)
  qed
qed

lemma rounds_receiver:
  assumes ok: "\<And>n. round_ok (project d n)" and step: "party_step v2 (dx_b d) rec out s'"
    and inv: "tlc_inv (dx_b d)" and q: "consumed rec (dx_ab d) q"
  shows "round_ok (project (d\<lparr>dx_b := s', dx_ba := dx_ba d @ out, dx_ab := q\<rparr>) n)"
proof -
  have wf: "wf_tlc_state (dx_b d)" using inv by simp
  note ok' = ok [of n, unfolded project_def]
  from step show ?thesis
  proof (cases rule: party_step.cases)
    case (add_tlc t i)
    show ?thesis
      using ok' proj_insert_offered [OF wf add_tlc(4-6,7)] add_tlc q by (simp add: project_def)
  next
    case (remove_tlc i t reason h)
    have "proj_in (dx_b d) i = Some InCommitted"
      using remove_tlc by (simp add: proj_in_def)
    then show ?thesis
      using ok' round_remove proj_received_removed [OF wf remove_tlc(6)] remove_tlc q
      by (cases "n = i") (auto simp: project_def)
  next
    case (sign_commitment ts)
    show ?thesis
      using ok' round_sign_receiver [where ?v2.0 = v2] sign_projection(2) [OF wf sign_commitment(5), of n]
        sign_commitment q
      by (simp add: project_def del: set_map)
  next
    case (clean_up i t)
    show ?thesis
      using ok' proj_clean_up [OF inv clean_up(4,5)] clean_up q by (simp add: project_def)
  next
    case (recv_add_tlc t i)
    note p = proj_insert_received [OF wf recv_add_tlc(3-6)]
    show ?thesis
      using ok' round_recv_add p recv_add_tlc q by (cases "n = i") (auto simp: project_def)
  next
    case (recv_remove_tlc i t reason h)
    show ?thesis
      using ok' proj_offered_removed [OF wf recv_remove_tlc(5)] recv_remove_tlc q by (simp add: project_def)
  next
    case (recv_commitment ts content b)
    have "s' = after_cs (dx_b d)"
      using recv_commitment(5) by (simp add: update_for_commitment_signed_wf wf)
    then show ?thesis
      using ok' round_recv_sign_receiver recv_commitment q by (simp add: project_def proj_after_cs)
  next
    case (recv_ack k s1)
    have "s1 = after_raa k (dx_b d)"
      using recv_ack(5) by (simp add: update_for_revoke_and_ack_wf wf)
    then show ?thesis
      using ok' round_recv_ack_receiver recv_ack q by (simp add: project_def proj_after_raa)
  qed
qed

lemma link_inv_offerer:
  assumes "link_inv d" and "party_step v2 (dx_a d) rec out s'" and "tlc_inv (dx_a d)"
    and "consumed rec (dx_ba d) q"
  shows "link_inv (d\<lparr>dx_a := s', dx_ab := dx_ab d @ out, dx_ba := q\<rparr>)"
proof -
  have flow: "terms_flow (dx_a d) rec out s'"
    using party_terms_flow [OF assms(2)] assms(3) by simp
  then have "\<forall>m\<in>set out. canonical_msg m" by (simp add: terms_flow_def)
  with flow assms show ?thesis
    by (auto simp: link_inv_def intro: rounds_offerer adds_inv_offerer terms_inv_offerer)
qed

lemma link_inv_receiver:
  assumes "link_inv d" and "party_step v2 (dx_b d) rec out s'" and "tlc_inv (dx_b d)"
    and "consumed rec (dx_ab d) q"
  shows "link_inv (d\<lparr>dx_b := s', dx_ba := dx_ba d @ out, dx_ab := q\<rparr>)"
proof -
  have flow: "terms_flow (dx_b d) rec out s'"
    using party_terms_flow [OF assms(2)] assms(3) by simp
  have "set q \<subseteq> set (dx_ab d)" using assms(4) by (cases rec) auto
  with flow assms show ?thesis
    by (auto simp: link_inv_def intro: rounds_receiver adds_inv_receiver terms_inv_receiver)
qed

lemma swap_swap [simp]: "swap_duplex (swap_duplex d) = d"
  by (simp add: swap_duplex_def)

lemma duplex_inv_swap: "duplex_inv (swap_duplex d) = duplex_inv d"
  by (auto simp: duplex_inv_def) (simp_all add: swap_duplex_def)

lemma duplex_inv_party:
  assumes "duplex_inv d" and "party_step v2 (dx_a d) rec out s'" and "consumed rec (dx_ba d) q"
  shows "duplex_inv (d\<lparr>dx_a := s', dx_ab := dx_ab d @ out, dx_ba := q\<rparr>)"
proof -
  have "link_inv (swap_duplex d)" "tlc_inv (dx_a d)" using assms(1) by (simp_all add: duplex_inv_def)
  with assms(2,3) have "link_inv ((swap_duplex d)\<lparr>dx_b := s', dx_ba := dx_ab d @ out, dx_ab := q\<rparr>)"
    using link_inv_receiver [of "swap_duplex d"] by (simp add: swap_duplex_def)
  then show ?thesis
    using assms link_inv_offerer [OF _ assms(2) _ assms(3)] party_step_tlc_inv [OF assms(2)]
    by (simp add: duplex_inv_def swap_duplex_def)
qed

lemma duplex_step_inv: "duplex_step v2 d d' \<Longrightarrow> duplex_inv d \<Longrightarrow> duplex_inv d'"
proof (induction rule: duplex_step.induct)
  case (local d out s')
  then show ?case using duplex_inv_party [OF local(2,1), of "dx_ba d"] by simp
next
  case (deliver d m q out s')
  then show ?case using duplex_inv_party [OF deliver(3,2), of q] by simp
next
  case (other d d')
  then show ?case by (simp add: duplex_inv_swap)
qed

lemma duplex_inv_init: "duplex_inv duplex_init"
  using tlc_inv_default
  by (simp add: duplex_inv_def duplex_init_def swap_duplex_def link_inv_def project_def quiet_rounds_def
      adds_inv_def terms_inv_def occurrences_def terms_out_def terms_in_def proj_out_def proj_in_def
      get_def tlc_state_default_def pending_tlcs_default_def find_tlc_def get_next_offering_def
      get_next_received_def)

lemma duplex_reachable_inv: "duplex_reachable v2 d \<Longrightarrow> duplex_inv d"
  by (induction rule: duplex_reachable.induct) (auto simp: duplex_inv_init intro: duplex_step_inv)

lemma duplex_reachable_swap: "duplex_reachable v2 d \<Longrightarrow> duplex_reachable v2 (swap_duplex d)"
proof (induction rule: duplex_reachable.induct)
  case start
  have "swap_duplex duplex_init = duplex_init" by (simp add: swap_duplex_def duplex_init_def)
  then show ?case by (simp add: duplex_reachable.start)
next
  case (step d d')
  then have "duplex_step v2 (swap_duplex d) (swap_duplex d')"
    by (intro duplex_step.other) simp
  with step(3) show ?case by (rule duplex_reachable.step)
qed

section \<open>Agreement\<close>

lemma head_of_link:
  assumes "duplex_inv d" and "dx_ab d = m # q"
  shows "round_ok (proj_out (dx_a d) n, proj_in (dx_b d) n, ts_waiting_ack (dx_a d), ts_waiting_ack (dx_b d),
           fwd_msg n m @ fwd n q, bwd n (dx_ba d))"
    and "round_ok (proj_out (dx_b d) n, proj_in (dx_a d) n, ts_waiting_ack (dx_b d), ts_waiting_ack (dx_a d),
           fwd n (dx_ba d), bwd_msg n m @ bwd n q)"
  using assms by (simp_all add: duplex_inv_def link_inv_def project_def swap_duplex_def)

lemma head_sign:
  assumes "duplex_inv d" and "dx_ab d = CommitmentSigned c # q"
  shows "Offered n \<in> fst ` set c \<longleftrightarrow> in_in v2 False (proj_in (dx_b d) n)"
    and "Received n \<in> fst ` set c \<longleftrightarrow> out_in v2 False (proj_out (dx_b d) n)"
  using head_of_link [OF assms, of n] round_recv_sign_receiver round_recv_sign_offerer
  by (simp_all; metis)+

lemma occurrence_unique:
  assumes "duplex_inv d" and "CommitmentSigned c \<in> set (dx_ab d)"
  shows "(Offered n, x) \<in> set c \<Longrightarrow> (n, y) \<in> terms_in (dx_b d) \<Longrightarrow> x = y"
    and "(Received n, x) \<in> set c \<Longrightarrow> (n, y) \<in> terms_out (dx_b d) \<Longrightarrow> x = y"
proof -
  have sv: "single_valued (occurrences d)" "single_valued (occurrences (swap_duplex d))"
    using assms(1) by (simp_all add: duplex_inv_def link_inv_def terms_inv_def)
  show "x = y" if "(Offered n, x) \<in> set c" "(n, y) \<in> terms_in (dx_b d)"
  proof (rule single_valuedD [OF sv(1), of n])
    show "(n, x) \<in> occurrences d" using that(1) assms(2) by (force simp: occurrences_def)
    show "(n, y) \<in> occurrences d" using that(2) by (simp add: occurrences_def)
  qed
  show "x = y" if "(Received n, x) \<in> set c" "(n, y) \<in> terms_out (dx_b d)"
  proof (rule single_valuedD [OF sv(2), of n])
    show "(n, x) \<in> occurrences (swap_duplex d)"
      using that(1) assms(2) by (force simp: occurrences_def swap_duplex_def)
    show "(n, y) \<in> occurrences (swap_duplex d)"
      using that(2) by (simp add: occurrences_def swap_duplex_def)
  qed
qed

lemma entry_iff:
  assumes "v \<noteq> None \<longleftrightarrow> i \<in> fst ` set c" and "\<And>x y. (i, x) \<in> set c \<Longrightarrow> v = Some y \<Longrightarrow> x = y"
  shows "(i, x) \<in> set c \<longleftrightarrow> v = Some x"
proof
  assume "(i, x) \<in> set c"
  moreover from this have "v \<noteq> None" using assms(1) by force
  ultimately show "v = Some x" using assms(2) by auto
next
  assume v: "v = Some x"
  then obtain y where "(i, y) \<in> set c" using assms(1) by auto
  with v show "(i, x) \<in> set c" using assms(2) by auto
qed

lemma round_in_flight: "round_ok (Some st, None, wa, wb, qab, qba) \<Longrightarrow> TAdd \<in> set qab"
  by (frule rounds_at_cases [OF round_ok.simps [THEN iffD1]]) auto

lemma head_content:
  assumes "duplex_inv d" and "dx_ab d = CommitmentSigned c # q"
    and "get_active_tlcs v2 (dx_b d) False = Ok ts"
  shows "map settlement_view ts = c"
proof (rule canonical_unique)
  have wf: "wf_tlc_state (dx_b d)" using assms(1) by (simp add: duplex_inv_def)
  show "canonical (map settlement_view ts)" using wf assms(3) by (rule signed_list_canonical)
  show "canonical c" using assms(1,2) by (simp add: duplex_inv_def link_inv_def)
  have c: "CommitmentSigned c \<in> set (dx_ab d)" using assms(2) by simp
  have iff: "(i, x) \<in> set c \<longleftrightarrow> active v2 (dx_b d) False (flip i) = Some x" for i x
  proof (cases i)
    case (Offered n)
    have "active v2 (dx_b d) False (Received n) \<noteq> None \<longleftrightarrow> Offered n \<in> fst ` set c"
      using head_sign(1) [OF assms(1,2)] active_membership(2) by blast
    then have "(Offered n, x) \<in> set c \<longleftrightarrow> active v2 (dx_b d) False (Received n) = Some x"
      using occurrence_unique(1) [OF assms(1) c] active_terms(2) by (intro entry_iff) blast+
    with Offered show ?thesis by simp
  next
    case (Received n)
    have "active v2 (dx_b d) False (Offered n) \<noteq> None \<longleftrightarrow> Received n \<in> fst ` set c"
      using head_sign(2) [OF assms(1,2)] active_membership(1) by blast
    then have "(Received n, x) \<in> set c \<longleftrightarrow> active v2 (dx_b d) False (Offered n) = Some x"
      using occurrence_unique(2) [OF assms(1) c] active_terms(1) by (intro entry_iff) blast+
    with Received show ?thesis by simp
  qed
  show "set (map settlement_view ts) = set c"
    using signed_list_set [OF wf assms(3)] iff by (auto simp del: set_map)
qed

lemma head_add:
  assumes "duplex_inv d" and "dx_ab d = AddTlc i x # q"
  shows "i = get_next_received (dx_b d)"
proof (rule ccontr)
  assume ne: "i \<noteq> get_next_received (dx_b d)"
  let ?k = "get_next_received (dx_b d)"
  have wf: "wf_tlc_state (dx_b d)" using assms(1) by (simp add: duplex_inv_def)
  have "proj_in (dx_b d) i = None"
    using head_of_link(1) [OF assms, of i] round_recv_add by simp
  then have "\<not> i < ?k" by (auto simp: proj_in_def split: option.splits if_splits)
  with ne have less: "?k < i" by simp
  have adds: "sorted_wrt (<) (i # add_ids q)" "i < get_next_offering (dx_a d)"
    using assms by (simp_all add: duplex_inv_def link_inv_def adds_inv_def)
  have "get (dx_b d) (Received ?k) = None"
    using get_bound(2) [OF wf, of ?k] by (cases "get (dx_b d) (Received ?k)") auto
  then have "proj_in (dx_b d) ?k = None" by (simp add: proj_in_def)
  moreover obtain st where "proj_out (dx_a d) ?k = Some st"
    using order.strict_trans [OF less adds(2)]
    by (cases "get (dx_a d) (Offered ?k)") (auto simp: proj_out_def)
  moreover have "round_ok (project d ?k)"
    using assms(1) by (simp add: duplex_inv_def link_inv_def)
  ultimately have "TAdd \<in> set (fwd ?k (dx_ab d))"
    by (metis project_def round_in_flight)
  then obtain m where m: "m \<in> set (dx_ab d)" "TAdd \<in> set (fwd_msg ?k m)" by auto
  from m(2) obtain y where "m = AddTlc ?k y" by (cases m) (auto split: if_splits)
  with m(1) assms(2) ne have "?k \<in> set (add_ids q)" by (auto simp: set_add_ids)
  with adds(1) less show False by auto
qed

lemma head_remove:
  assumes "duplex_inv d" and "dx_ab d = RemoveTlc i r # q"
  shows "\<exists>t. get (dx_b d) (Offered i) = Some t \<and> ti_status t = Outbound OutCommitted"
proof -
  have wf: "wf_tlc_state (dx_b d)" using assms(1) by (simp add: duplex_inv_def)
  have "proj_out (dx_b d) i = Some OutCommitted"
    using head_of_link(2) [OF assms, of i] round_recv_remove by simp
  then obtain t where t: "get (dx_b d) (Offered i) = Some t" "out_st (ti_status t) = OutCommitted"
    by (auto simp: proj_out_def split: option.splits if_splits)
  with get_wf_cases(2) [OF wf t(1)] show ?thesis
    by (auto simp: wf_offered_def split: tlc_status.splits)
qed

lemma head_ack: "duplex_inv d \<Longrightarrow> dx_ab d = RevokeAndAck # q \<Longrightarrow> ts_waiting_ack (dx_b d)"
  using head_of_link(1) [of d RevokeAndAck q 0] round_recv_ack_receiver by fastforce

section \<open>Properties\<close>

text \<open>A run: \<open>a\<close> offers a TLC and signs.\<close>

definition sample_offer :: tlc_info where
  "sample_offer = sample_tlc (Offered 0) (Outbound LocalAnnounced) 5"

definition sample_sender :: tlc_state where
  "sample_sender = \<lparr>ts_offered = \<lparr>pt_tlcs = [sample_offer], pt_next_tlc_id = 1\<rparr>,
     ts_received = \<lparr>pt_tlcs = [], pt_next_tlc_id = 0\<rparr>, ts_waiting_ack = False\<rparr>"

definition sample_sent :: duplex where
  "sample_sent = \<lparr>dx_a = sample_sender, dx_b = tlc_state_default,
     dx_ab = [AddTlc 0 (tlc_terms sample_offer)], dx_ba = []\<rparr>"

definition sample_signed :: "peer_msg list \<Rightarrow> tlc_state \<Rightarrow> duplex" where
  "sample_signed ab b = \<lparr>dx_a = set_waiting_ack_flag sample_sender True, dx_b = b,
     dx_ab = ab @ [CommitmentSigned [settlement_view sample_offer]], dx_ba = []\<rparr>"

lemma sample_sent_reachable: "duplex_reachable v2 sample_sent"
proof (rule duplex_reachable.step [OF duplex_reachable.start])
  have "party_step v2 tlc_state_default None [AddTlc 0 (tlc_terms sample_offer)] sample_sender"
    by (rule party_step.add_tlc)
       (simp_all add: fresh_tlc_def new_tlc_def sample_offer_def sample_tlc_def next_tlc_id_def
         get_next_offering_def tlc_state_default_def pending_tlcs_default_def wf_received_def
         wf_offered_def insert_tlc_def increment_offering_def increment_next_id_def add_offered_tlc_def
         add_tlc_pending_def plus_u_def checked_add_def sample_sender_def is_offered_def)
  then show "duplex_step v2 duplex_init sample_sent"
    using duplex_step.local [of v2 duplex_init] by (simp add: duplex_init_def sample_sent_def)
qed

lemma sample_signed_reachable: "duplex_reachable v2 (sample_signed [] sample_table)"
proof -
  let ?add = "AddTlc 0 (tlc_terms sample_offer)"
  have wf: "wf_tlc_state sample_sender"
    using duplex_reachable_inv [OF sample_sent_reachable] by (simp add: duplex_inv_def sample_sent_def)
  have "get_active_tlcs v2 sample_sender True = (Ok [sample_offer] :: (tlc_info list, unit) res)"
    by (simp add: get_active_tlcs_wf [OF wf] order_active_def sort_by_id_def)
       (simp add: sample_sender_def sample_offer_def sample_tlc_def out_in_def)
  then have "party_step v2 sample_sender None [CommitmentSigned [settlement_view sample_offer]]
      (set_waiting_ack_flag sample_sender True)"
    using party_step.sign_commitment [of sample_sender v2 "[sample_offer]"] by (simp add: sample_sender_def)
  then have 1: "duplex_step v2 sample_sent (sample_signed [?add] tlc_state_default)"
    using duplex_step.local [of v2 sample_sent] by (simp add: sample_sent_def sample_signed_def)
  have terms: "tlc_terms (sample_tlc (Received 0) (Inbound RemoteAnnounced) 5) = tlc_terms sample_offer"
    by (simp add: sample_offer_def sample_tlc_def tlc_terms_def)
  have "party_step v2 tlc_state_default
      (Some (AddTlc 0 (tlc_terms (sample_tlc (Received 0) (Inbound RemoteAnnounced) 5)))) [] sample_table"
    by (rule party_step.recv_add_tlc)
       (simp_all add: fresh_tlc_def new_tlc_def sample_tlc_def next_tlc_id_def get_next_received_def
         tlc_state_default_def pending_tlcs_default_def wf_received_def wf_offered_def insert_tlc_def
         increment_received_def increment_next_id_def add_received_tlc_def add_tlc_pending_def
         plus_u_def checked_add_def sample_table_def is_offered_def)
  then have 2: "duplex_step v2 (sample_signed [?add] tlc_state_default) (sample_signed [] sample_table)"
    using duplex_step.other [OF duplex_step.deliver [of "swap_duplex (sample_signed [?add] tlc_state_default)" ?add]]
    by (simp add: sample_signed_def swap_duplex_def terms)
  show ?thesis
    by (rule duplex_reachable.step [OF duplex_reachable.step [OF sample_sent_reachable 1] 2])
qed

text \<open>C1. Commitment agreement: in every interleaving of local updates, signatures,
  acknowledgements and clean-ups of two honest parties over FIFO links, a \<open>CommitmentSigned\<close> at
  the head of a link covers exactly the TLC list (same TLCs, same terms, same order) that the
  receiver rebuilds for its own commitment from its own table. It holds for the V1 status ladder
  and for the V2 content rule.\<close>

theorem commitment_lists_agree:
  assumes "duplex_reachable is_v2 d" and "dx_ab d = CommitmentSigned content # q"
  shows "\<exists>ts. get_active_tlcs is_v2 (dx_b d) False = (Ok ts :: (tlc_info list, unit) res) \<and>
              map settlement_view ts = content"
proof -
  have inv: "duplex_inv d" using assms(1) by (rule duplex_reachable_inv)
  then have "wf_tlc_state (dx_b d)" by (simp add: duplex_inv_def)
  then obtain ts where "get_active_tlcs is_v2 (dx_b d) False = (Ok ts :: (tlc_info list, unit) res)"
    by (simp add: get_active_tlcs_wf)
  with head_content [OF inv assms(2)] show ?thesis by blast
qed

theorem commitment_lists_agree_witness:
  "duplex_reachable True (sample_signed [] sample_table) \<and>
   (\<exists>ts. get_active_tlcs True sample_table False = (Ok ts :: (tlc_info list, unit) res) \<and>
         map settlement_view ts = [settlement_view sample_offer])"
proof -
  let ?d = "sample_signed [] sample_table"
  have "dx_ab ?d = CommitmentSigned [settlement_view sample_offer] # []" "dx_b ?d = sample_table"
    by (simp_all add: sample_signed_def)
  with commitment_lists_agree [OF sample_signed_reachable [of True]] sample_signed_reachable
  show ?thesis by metis
qed

text \<open>No protocol message of an honest peer is out of place: an \<open>AddTlc\<close> carries the
  identifier the receiver expects next, a \<open>RemoveTlc\<close> names a TLC the receiver holds as
  \<open>Committed\<close>, and a \<open>RevokeAndAck\<close> arrives only while one is awaited.\<close>

lemma messages_in_place:
  assumes "duplex_reachable is_v2 d" and "dx_ab d = m # q"
  shows "case m of
      AddTlc i _ \<Rightarrow> Received i = next_tlc_id (dx_b d) False
    | RemoveTlc i _ \<Rightarrow> \<exists>t. get (dx_b d) (Offered i) = Some t \<and> ti_status t = Outbound OutCommitted
    | CommitmentSigned _ \<Rightarrow> True
    | RevokeAndAck \<Rightarrow> ts_waiting_ack (dx_b d)"
proof -
  have inv: "duplex_inv d" using assms(1) by (rule duplex_reachable_inv)
  with assms(2) head_add head_remove head_ack show ?thesis
    by (cases m) (auto simp: next_tlc_id_def)
qed

end
