(* ===== verification/Fees.thy ===== *)
theory Fees
  imports Channel_Types
begin

text \<open>
  Checked arithmetic, fee formulas and the parameter checks of channel opening:
  \<^verbatim>\<open>utils/arithmetic.rs\<close>, \<^verbatim>\<open>fiber/fee.rs\<close> and the amount helpers of \<^verbatim>\<open>fiber/channel.rs\<close>.
  Error values keep the constructor of \<open>ProcessingChannelError\<close> and drop the message text.
  The sizes of serialized transactions and cells, the epoch arithmetic of the chain library and
  the UDT whitelist are parameters, collected in \<open>chain_env\<close>. Build constants are those of a
  release build.
\<close>

section \<open>Errors and the chain environment\<close>

datatype processing_channel_error =
    InvalidState | PaymentEffectUnavailable | RepeatedProcessing | InvalidParameter | InternalError
  | CapacityError | SpawnErr | Musig2RoundFinalizeError | Musig2VerifyError | Musig2SigningError
  | WaitingTlcAck | PeelingOnionPacketError | IncorrectTlcExpiry | IncorrectTlcDirection
  | IncorrectFinalTlcExpiry | FinalIncorrectHTLCAmount | FinalIncorrectPaymentHash
  | FinalIncorrectPreimage | FinalIncorrectMPPInfo | TlcForwardFeeIsTooLow | FinalInvoiceInvalid
  | TlcNumberExceedLimit | TlcValueInflightExceedLimit | TlcAmountIsTooLow | TlcAmountExceedLimit
  | TlcExpirySoon | TlcExpiryTooFar | TlcForwardingError | ToBeAcceptedChannelsExceedLimit

type_synonym 'a chan_res = "('a, processing_channel_error) res"

record script =
  sc_code_hash :: hash256
  sc_hash_type :: u8
  sc_args :: bytes

definition script_default :: script where
  "script_default = \<lparr>sc_code_hash = 0, sc_hash_type = 0, sc_args = []\<rparr>"

type_synonym channel_features = u8

definition LEGACY :: channel_features where "LEGACY = 0"
definition V2 :: channel_features where "V2 = 1"

definition channel_features_from_bits :: "u8 \<Rightarrow> channel_features option" where
  "channel_features_from_bits b = (if b = 0 \<or> b = 1 then Some b else None)"

definition features_is_v2 :: "channel_features \<Rightarrow> bool" where
  "features_is_v2 f \<longleftrightarrow> f AND V2 \<noteq> 0"

definition lock_args_len :: "channel_features \<Rightarrow> nat" where
  "lock_args_len f = (if features_is_v2 f then 58 else 57)"

definition payment_hash_len :: "channel_features \<Rightarrow> nat" where
  "payment_hash_len f = (if features_is_v2 f then 32 else 20)"

definition for_negotiated :: "bool \<Rightarrow> bool option \<Rightarrow> channel_features" where
  "for_negotiated ours_supports peer_supports =
     (if ours_supports \<and> peer_supports = Some True then V2 else LEGACY)"

record chain_env =
  env_commitment_tx_size :: "script option \<Rightarrow> channel_features \<Rightarrow> u64"
  env_shutdown_tx_size :: "script option \<Rightarrow> script \<Rightarrow> script \<Rightarrow> u64"
  env_cell_occupied :: "script \<Rightarrow> script option \<Rightarrow> nat \<Rightarrow> u64 option"
  env_check_udt_script :: "script \<Rightarrow> bool"
  env_epoch_well_formed :: "u64 \<Rightarrow> bool"
  env_epoch_less :: "u64 \<Rightarrow> u64 \<Rightarrow> bool"
  env_epoch_new :: "u64 \<Rightarrow> u64"
  env_epoch_from_full_value :: "u64 \<Rightarrow> u64"
  env_tlc_expiry_delay :: "u64 \<Rightarrow> u64"

section \<open>Checked arithmetic\<close>

definition checked_add_u64 :: "u64 \<Rightarrow> u64 \<Rightarrow> u64 chan_res" where
  "checked_add_u64 lhs rhs = ok_or (checked_add lhs rhs) InvalidParameter"

definition checked_sub_u64 :: "u64 \<Rightarrow> u64 \<Rightarrow> u64 chan_res" where
  "checked_sub_u64 lhs rhs = ok_or (checked_sub lhs rhs) InvalidParameter"

definition checked_mul_u64 :: "u64 \<Rightarrow> u64 \<Rightarrow> u64 chan_res" where
  "checked_mul_u64 lhs rhs = ok_or (checked_mul lhs rhs) InvalidParameter"

definition checked_add_u128 :: "u128 \<Rightarrow> u128 \<Rightarrow> u128 chan_res" where
  "checked_add_u128 lhs rhs = ok_or (checked_add lhs rhs) InvalidParameter"

definition checked_sub_u128 :: "u128 \<Rightarrow> u128 \<Rightarrow> u128 chan_res" where
  "checked_sub_u128 lhs rhs = ok_or (checked_sub lhs rhs) InvalidParameter"

definition checked_mul_u128 :: "u128 \<Rightarrow> u128 \<Rightarrow> u128 chan_res" where
  "checked_mul_u128 lhs rhs = ok_or (checked_mul lhs rhs) InvalidParameter"

definition checked_sum_u128 :: "u128 list \<Rightarrow> u128 chan_res" where
  "checked_sum_u128 values = try_fold checked_add_u128 0 values"

text \<open>\<open>u64::try_from\<close> and \<open>u128::from\<close>.\<close>

definition u64_try_from :: "u128 \<Rightarrow> u64 chan_res" where
  "u64_try_from x = (if unat x < 2 ^ 64 then Ok (ucast x) else Err InvalidParameter)"

definition u128_from :: "u64 \<Rightarrow> u128" where
  "u128_from x = ucast x"

section \<open>Constants\<close>

definition FEE_RATE_WEIGHT_SCALE :: u128 where "FEE_RATE_WEIGHT_SCALE = 1000"
definition DEFAULT_FEE_RATE :: u64 where "DEFAULT_FEE_RATE = 1000"
definition MAX_FUNDING_FEE_RATE :: u64 where "MAX_FUNDING_FEE_RATE = DEFAULT_FEE_RATE * 100"
definition DEFAULT_COMMITMENT_FEE_RATE :: u64 where "DEFAULT_COMMITMENT_FEE_RATE = 1000"
definition MIN_COMMITMENT_DELAY_EPOCHS :: u64 where "MIN_COMMITMENT_DELAY_EPOCHS = 1"
definition MAX_COMMITMENT_DELAY_EPOCHS :: u64 where "MAX_COMMITMENT_DELAY_EPOCHS = 84"
definition MAX_TLC_NUMBER_IN_FLIGHT :: u64 where "MAX_TLC_NUMBER_IN_FLIGHT = 125"
definition CKB_SHANNONS :: u64 where "CKB_SHANNONS = 100000000"
definition DEFAULT_MIN_SHUTDOWN_FEE :: u64 where "DEFAULT_MIN_SHUTDOWN_FEE = CKB_SHANNONS"
definition DEFAULT_COMMITMENT_DELAY_EPOCHS :: u64 where "DEFAULT_COMMITMENT_DELAY_EPOCHS = 1"
definition MILLI_SECONDS_PER_EPOCH :: u64 where "MILLI_SECONDS_PER_EPOCH = 4 * 60 * 60 * 1000"
definition MIN_TLC_EXPIRY_DELTA :: u64 where "MIN_TLC_EXPIRY_DELTA = DEFAULT_COMMITMENT_DELAY_EPOCHS * MILLI_SECONDS_PER_EPOCH * 2 div 3"
definition MAX_PAYMENT_TLC_EXPIRY_LIMIT :: u64 where "MAX_PAYMENT_TLC_EXPIRY_LIMIT = 14 * 24 * 60 * 60 * 1000"

section \<open>Fees\<close>

definition checked_fee_from_rate :: "u64 \<Rightarrow> u64 \<Rightarrow> u64 chan_res" where
  "checked_fee_from_rate fee_rate tx_size =
     bind_res (checked_mul_u128 (u128_from fee_rate) (u128_from tx_size)) (\<lambda>p.
     u64_try_from (p div FEE_RATE_WEIGHT_SCALE))"

definition checked_calculate_commitment_tx_fee ::
  "chain_env \<Rightarrow> u64 \<Rightarrow> script option \<Rightarrow> channel_features \<Rightarrow> u64 chan_res" where
  "checked_calculate_commitment_tx_fee E fee_rate udt_type_script features =
     checked_fee_from_rate fee_rate (env_commitment_tx_size E udt_type_script features)"

definition checked_calculate_shutdown_tx_fee ::
  "chain_env \<Rightarrow> u64 \<Rightarrow> script option \<Rightarrow> script \<times> script \<Rightarrow> u64 chan_res" where
  "checked_calculate_shutdown_tx_fee E fee_rate udt_type_script shutdown_scripts =
     checked_fee_from_rate fee_rate
       (env_shutdown_tx_size E udt_type_script (fst shutdown_scripts) (snd shutdown_scripts))"

datatype fee_error = FeeError

definition calculate_fee_with_base :: "u128 \<Rightarrow> u128 \<Rightarrow> u128 \<Rightarrow> (u128, fee_error) res" where
  "calculate_fee_with_base amount fee_proportional_millionths base =
     (if base = 0 then Err FeeError
      else bind_res (ok_or (checked_mul fee_proportional_millionths amount) FeeError) (\<lambda>fee.
        let base_fee = fee div base; remainder = fee mod base in
        if remainder > 0 then ok_or (checked_add base_fee 1) FeeError else Ok base_fee))"

definition calculate_tlc_forward_fee :: "u128 \<Rightarrow> u128 \<Rightarrow> (u128, fee_error) res" where
  "calculate_tlc_forward_fee amount fee_proportional_millionths =
     calculate_fee_with_base amount fee_proportional_millionths 1000000"

definition check_commitment_reserved_fee ::
  "chain_env \<Rightarrow> u64 \<Rightarrow> script option \<Rightarrow> channel_features \<Rightarrow> u64 \<Rightarrow> unit chan_res" where
  "check_commitment_reserved_fee E commitment_fee_rate udt_type_script features reserved_fee =
     bind_res (checked_calculate_commitment_tx_fee E commitment_fee_rate udt_type_script features)
       (\<lambda>commitment_fee.
     bind_res (ok_or (checked_mul commitment_fee 2) InvalidParameter) (\<lambda>required_reserved_fee.
     ensure (\<not> required_reserved_fee > reserved_fee) InvalidParameter))"

section \<open>Capacities\<close>

definition occupied_capacity :: "chain_env \<Rightarrow> script \<Rightarrow> script option \<Rightarrow> channel_features \<Rightarrow> u64 chan_res" where
  "occupied_capacity E shutdown_script udt_type_script features =
     (let min_lock_script =
        (if length (sc_args shutdown_script) < lock_args_len features
         then script_default\<lparr>sc_args := replicate (lock_args_len features) 0\<rparr>
         else shutdown_script)
      in ok_or (env_cell_occupied E min_lock_script udt_type_script
                  (if udt_type_script \<noteq> None then 16 else 0)) CapacityError)"

definition reserved_capacity :: "chain_env \<Rightarrow> script \<Rightarrow> script option \<Rightarrow> channel_features \<Rightarrow> u64 chan_res" where
  "reserved_capacity E shutdown_script udt_type_script features =
     bind_res (occupied_capacity E shutdown_script udt_type_script features) (\<lambda>c.
     ok_or (checked_add c DEFAULT_MIN_SHUTDOWN_FEE) CapacityError)"

definition get_funding_and_reserved_amount ::
  "chain_env \<Rightarrow> u128 \<Rightarrow> script \<Rightarrow> script option \<Rightarrow> channel_features \<Rightarrow> (u128 \<times> u64) chan_res" where
  "get_funding_and_reserved_amount E total_amount shutdown_script udt_type_script features =
     bind_res (reserved_capacity E shutdown_script udt_type_script features) (\<lambda>reserved.
     if udt_type_script = None then
       (if total_amount < u128_from reserved then Err InvalidParameter
        else if total_amount \<ge> u128_from (- 1) then Err InvalidParameter
        else bind_res (ok_or (checked_sub total_amount (u128_from reserved)) InvalidParameter)
               (\<lambda>a. Ok (a, reserved)))
     else Ok (total_amount, reserved))"

definition minimum_acceptor_reserved_ckb_amount ::
  "chain_env \<Rightarrow> script option \<Rightarrow> channel_features \<Rightarrow> u64 chan_res" where
  "minimum_acceptor_reserved_ckb_amount E udt_type_script features =
     bind_res (occupied_capacity E script_default udt_type_script features) (\<lambda>c.
     ok_or (checked_add c DEFAULT_MIN_SHUTDOWN_FEE) InvalidParameter)"

definition check_open_channel_parameters ::
  "chain_env \<Rightarrow> script option \<Rightarrow> script \<Rightarrow> u64 \<Rightarrow> u64 \<Rightarrow> u64 \<Rightarrow> channel_features \<Rightarrow> u64 \<Rightarrow> u64 \<Rightarrow> unit chan_res" where
  "check_open_channel_parameters E udt_type_script shutdown_script reserved_ckb_amount
       funding_fee_rate commitment_fee_rate features commitment_delay_epoch max_tlc_number =
     bind_res (case udt_type_script of None \<Rightarrow> Ok ()
                 | Some s \<Rightarrow> ensure (env_check_udt_script E s) InvalidParameter) (\<lambda>_.
     bind_res (occupied_capacity E shutdown_script udt_type_script features) (\<lambda>occupied.
     bind_res (ensure (\<not> reserved_ckb_amount < occupied) InvalidParameter) (\<lambda>_.
     bind_res (minimum_acceptor_reserved_ckb_amount E udt_type_script features) (\<lambda>minimum_local.
     bind_res (ensure (checked_add reserved_ckb_amount minimum_local \<noteq> None) InvalidParameter) (\<lambda>_.
     bind_res (ensure (\<not> funding_fee_rate < DEFAULT_FEE_RATE) InvalidParameter) (\<lambda>_.
     bind_res (ensure (\<not> funding_fee_rate > MAX_FUNDING_FEE_RATE) InvalidParameter) (\<lambda>_.
     bind_res (ensure (\<not> commitment_fee_rate < DEFAULT_COMMITMENT_FEE_RATE) InvalidParameter) (\<lambda>_.
     bind_res (ok_or (checked_sub reserved_ckb_amount occupied) InvalidParameter) (\<lambda>reserved_fee.
     bind_res (check_commitment_reserved_fee E commitment_fee_rate udt_type_script features reserved_fee) (\<lambda>_.
     bind_res (ensure (env_epoch_well_formed E commitment_delay_epoch) InvalidParameter) (\<lambda>_.
     bind_res (ensure (\<not> env_epoch_less E commitment_delay_epoch
                         (env_epoch_new E MIN_COMMITMENT_DELAY_EPOCHS)) InvalidParameter) (\<lambda>_.
     bind_res (ensure (\<not> env_epoch_less E (env_epoch_new E MAX_COMMITMENT_DELAY_EPOCHS)
                         commitment_delay_epoch) InvalidParameter) (\<lambda>_.
     ensure (\<not> max_tlc_number > MAX_TLC_NUMBER_IN_FLIGHT) InvalidParameter)))))))))))))"

definition check_tlc_delta_with_epochs :: "chain_env \<Rightarrow> u64 \<Rightarrow> u64 \<Rightarrow> unit chan_res" where
  "check_tlc_delta_with_epochs E tlc_expiry_delta commitment_delay_epoch =
     bind_res (ensure (\<not> tlc_expiry_delta < MIN_TLC_EXPIRY_DELTA) InvalidParameter) (\<lambda>_.
     bind_res (ensure (\<not> tlc_expiry_delta > MAX_PAYMENT_TLC_EXPIRY_LIMIT) InvalidParameter) (\<lambda>_.
     let epochs = env_epoch_from_full_value E commitment_delay_epoch in
     bind_res (ensure (env_epoch_well_formed E epochs) InvalidParameter) (\<lambda>_.
     bind_res (ensure (\<not> env_epoch_less E epochs (env_epoch_new E MIN_COMMITMENT_DELAY_EPOCHS))
                 InvalidParameter) (\<lambda>_.
     bind_res (ensure (\<not> env_epoch_less E (env_epoch_new E MAX_COMMITMENT_DELAY_EPOCHS) epochs)
                 InvalidParameter) (\<lambda>_.
     ensure (\<not> tlc_expiry_delta < env_tlc_expiry_delay E epochs) InvalidParameter)))))"

section \<open>Totals\<close>

definition checked_total_reserved_ckb_amount_from :: "u64 \<Rightarrow> u64 \<Rightarrow> u64 chan_res" where
  "checked_total_reserved_ckb_amount_from local remote = ok_or (checked_add local remote) InvalidParameter"

definition checked_ckb_amount_with_reserved :: "u128 \<Rightarrow> u64 \<Rightarrow> u64 chan_res" where
  "checked_ckb_amount_with_reserved liquid_amount reserved_amount =
     bind_res (u64_try_from liquid_amount) (\<lambda>l. checked_add_u64 l reserved_amount)"

definition check_accept_channel_parameters_for_values ::
  "chain_env \<Rightarrow> u128 \<Rightarrow> u128 \<Rightarrow> u64 \<Rightarrow> u64 \<Rightarrow> u64 \<Rightarrow> script option \<Rightarrow> script \<Rightarrow> u64 \<Rightarrow> u64 \<Rightarrow>
     channel_features \<Rightarrow> unit chan_res" where
  "check_accept_channel_parameters_for_values E local_amount remote_amount local_reserved remote_reserved
       commitment_fee_rate udt_type_script remote_shutdown_script local_max remote_max features =
     bind_res (ensure (\<not> local_max > MAX_TLC_NUMBER_IN_FLIGHT) InvalidParameter) (\<lambda>_.
     bind_res (ensure (\<not> remote_max > MAX_TLC_NUMBER_IN_FLIGHT) InvalidParameter) (\<lambda>_.
     bind_res (checked_total_reserved_ckb_amount_from local_reserved remote_reserved) (\<lambda>total_reserved.
     bind_res (if udt_type_script \<noteq> None
               then ensure (checked_add local_amount remote_amount \<noteq> None) InvalidParameter
               else bind_res (ok_or (checked_add local_amount remote_amount) InvalidParameter) (\<lambda>total_ckb.
                    bind_res (ok_or (checked_sub (u128_from (- 1)) (u128_from total_reserved)) InvalidParameter)
                      (\<lambda>max_ckb. ensure (\<not> total_ckb > max_ckb) InvalidParameter))) (\<lambda>_.
     bind_res (occupied_capacity E remote_shutdown_script udt_type_script features) (\<lambda>occupied.
     bind_res (ensure (\<not> remote_reserved < occupied) InvalidParameter) (\<lambda>_.
     bind_res (ok_or (checked_sub remote_reserved occupied) InvalidParameter) (\<lambda>reserved_fee.
     check_commitment_reserved_fee E commitment_fee_rate udt_type_script features reserved_fee)))))))"

section \<open>Facts\<close>

lemma checked_u64_Ok [rust_arith]:
  "checked_add_u64 a b = Ok c \<longleftrightarrow> unat c = unat a + unat b"
  "checked_sub_u64 a b = Ok c \<longleftrightarrow> unat a = unat b + unat c"
  "checked_mul_u64 a b = Ok c \<longleftrightarrow> unat c = unat a * unat b"
  by (simp_all add: checked_add_u64_def checked_sub_u64_def checked_mul_u64_def rust_arith)

lemma checked_u128_Ok [rust_arith]:
  "checked_add_u128 a b = Ok c' \<longleftrightarrow> unat c' = unat a + unat b"
  "checked_sub_u128 a b = Ok c' \<longleftrightarrow> unat a = unat b + unat c'"
  "checked_mul_u128 a b = Ok c' \<longleftrightarrow> unat c' = unat a * unat b"
  by (simp_all add: checked_add_u128_def checked_sub_u128_def checked_mul_u128_def rust_arith)

lemma checked_u128_not_Panic [simp]:
  "checked_add_u128 a b \<noteq> Panic" "checked_sub_u128 a b \<noteq> Panic" "checked_mul_u128 a b \<noteq> Panic"
  by (simp_all add: checked_add_u128_def checked_sub_u128_def checked_mul_u128_def)

lemma unat_ucast_u128: "unat (ucast (x :: u64) :: u128) = unat x"
  using unat_bound [of x] by (simp add: unsigned_ucast_eq take_bit_nat_eq_self)

lemma unat_u128_from [rust_arith]: "unat (u128_from x) = unat x"
  by (simp add: u128_from_def unat_ucast_u128)

lemma u64_try_from_Ok [rust_arith]: "u64_try_from x = Ok y \<longleftrightarrow> unat y = unat x"
proof -
  have "unat (ucast x :: u64) = unat x" if "unat x < 2 ^ 64"
    using that by (simp add: unsigned_ucast_eq take_bit_nat_eq_self)
  then show ?thesis
    using unat_bound [of y] by (auto simp: u64_try_from_def word_unat_eq_iff)
qed

lemma try_fold_sum:
  "try_fold (\<lambda>acc x. checked_add_u128 acc (f x)) a xs = Ok r \<longleftrightarrow> unat r = unat a + (\<Sum>x\<leftarrow>xs. unat (f x))"
proof (induction xs arbitrary: a)
  case Nil
  then show ?case by (auto simp: word_unat_eq_iff)
next
  case (Cons x xs)
  have "(\<exists>b::u128. unat b = unat a + unat (f x) \<and> unat r = unat b + (\<Sum>x\<leftarrow>xs. unat (f x))) \<longleftrightarrow>
      unat r = unat a + (unat (f x) + (\<Sum>x\<leftarrow>xs. unat (f x)))"
  proof
    assume r: "unat r = unat a + (unat (f x) + (\<Sum>x\<leftarrow>xs. unat (f x)))"
    then have "unat a + unat (f x) < 2 ^ 128" using unat_bound [of r] by simp
    then have "unat (a + f x) = unat a + unat (f x)" by (simp add: unat_add_no_overflow)
    with r show "\<exists>b::u128. unat b = unat a + unat (f x) \<and> unat r = unat b + (\<Sum>x\<leftarrow>xs. unat (f x))"
      by (intro exI [of _ "a + f x"]) simp
  qed auto
  then show ?case by (simp add: Cons.IH rust_arith)
qed

lemma checked_sum_u128_Ok [rust_arith]:
  "checked_sum_u128 xs = Ok r \<longleftrightarrow> unat r = (\<Sum>x\<leftarrow>xs. unat x)"
  using try_fold_sum [of "\<lambda>x. x" 0 xs r] by (simp add: checked_sum_u128_def)

definition ceil_div :: "nat \<Rightarrow> nat \<Rightarrow> nat" where
  "ceil_div n b = (n + (b - 1)) div b"

lemma ceil_div_parts:
  assumes "r < b"
  shows "ceil_div (b * q + r) b = (if r = 0 then q else q + 1)"
  unfolding ceil_div_def
proof (rule div_nat_eqI)
  show "b * (if r = 0 then q else q + 1) \<le> b * q + r + (b - 1)"
    using assms by (auto simp: algebra_simps)
  show "b * q + r + (b - 1) < b * Suc (if r = 0 then q else q + 1)"
    using assms by (auto simp: algebra_simps)
qed

lemma ceil_div_eq: "0 < b \<Longrightarrow> ceil_div n b = (if n mod b = 0 then n div b else n div b + 1)"
  using ceil_div_parts [of "n mod b" b "n div b"] by simp

lemma ceil_div_bounds:
  assumes "0 < b"
  shows "n \<le> ceil_div n b * b \<and> ceil_div n b * b < n + b"
proof -
  obtain q r where "n = b * q + r" "r < b"
    using assms mod_less_divisor [OF assms] mult_div_mod_eq [of b n] by metis
  then show ?thesis using ceil_div_parts [of r b q] by (auto simp: algebra_simps)
qed

lemma calculate_fee_with_base_Ok:
  assumes "base \<noteq> 0"
  shows "calculate_fee_with_base a p base = Ok f \<longleftrightarrow>
    unat p * unat a < 2 ^ 128 \<and> unat f = ceil_div (unat p * unat a) (unat base)"
proof (cases "unat p * unat a < 2 ^ 128")
  case False
  then have "checked_mul p a = None" by (simp add: rust_arith)
  then show ?thesis using False assms by (simp add: calculate_fee_with_base_def)
next
  case True
  let ?n = "unat p * unat a"
  have pos: "0 < unat base" using assms by (simp add: unat_gt_0)
  have mul: "checked_mul p a = Some (p * a)" and n: "unat (p * a) = ?n"
    using True by (simp_all add: checked_mul_def unat_mul_no_overflow)
  show ?thesis
  proof (cases "p * a mod base > 0")
    case rem: True
    then have r: "?n mod unat base \<noteq> 0"
      using n by (simp add: word_gt_0 word_unat_eq_iff unat_mod)
    then have "unat base \<noteq> 1" by auto
    with pos have "2 \<le> unat base" by simp
    then have "?n div unat base \<le> ?n div 2" by (simp add: div_le_mono2)
    with True have "?n div unat base + 1 < 2 ^ 128" by simp
    then have "unat (p * a div base) + unat (1 :: u128) < 2 ^ LENGTH(128)"
      using n by (simp add: unat_div)
    then have "unat (p * a div base + 1) = ?n div unat base + 1"
      "checked_add (p * a div base) 1 = Some (p * a div base + 1)"
      using n unat_add_no_overflow [of "p * a div base" 1] by (simp_all add: unat_div checked_add_def)
    with rem r True mul assms pos show ?thesis
      by (auto simp: calculate_fee_with_base_def Let_def ceil_div_eq word_unat_eq_iff)
  next
    case rem: False
    then have "?n mod unat base = 0"
      using n by (simp add: word_gt_0 word_unat_eq_iff unat_mod)
    with rem True mul assms pos n show ?thesis
      by (auto simp: calculate_fee_with_base_def Let_def ceil_div_eq word_unat_eq_iff unat_div)
  qed
qed

lemma u128_from_max: "unat (u128_from (- 1)) = 2 ^ 64 - 1"
  by (simp add: unat_u128_from unat_minus_one_word_max)

lemma checked_fee_from_rate_Ok:
  "checked_fee_from_rate rate tx_size = Ok f \<longleftrightarrow> unat f = unat rate * unat tx_size div 1000"
proof -
  have "unat rate * unat tx_size < 2 ^ 64 * 2 ^ 64"
    using unat_bound [of rate] unat_bound [of tx_size] by (intro mult_strict_mono) auto
  then have lt: "unat (u128_from rate) * unat (u128_from tx_size) < 2 ^ LENGTH(128)"
    by (simp add: unat_u128_from)
  then have "checked_mul_u128 (u128_from rate) (u128_from tx_size) = Ok (u128_from rate * u128_from tx_size)"
    by (simp add: checked_mul_u128_def checked_mul_def)
  moreover have "unat (u128_from rate * u128_from tx_size) = unat rate * unat tx_size"
    using unat_mul_no_overflow [OF lt] by (simp add: unat_u128_from)
  ultimately show ?thesis
    by (simp add: checked_fee_from_rate_def u64_try_from_Ok unat_div FEE_RATE_WEIGHT_SCALE_def)
qed

lemma check_commitment_reserved_fee_Ok:
  "check_commitment_reserved_fee E rate udt feat reserved = Ok u \<longleftrightarrow>
     (\<exists>fee. checked_calculate_commitment_tx_fee E rate udt feat = Ok fee \<and> 2 * unat fee \<le> unat reserved)"
proof -
  have "(\<exists>d. checked_mul fee 2 = Some d \<and> \<not> d > reserved) \<longleftrightarrow> 2 * unat fee \<le> unat reserved" for fee
  proof
    assume "2 * unat fee \<le> unat reserved"
    then have "unat fee * unat (2 :: u64) < 2 ^ LENGTH(64)"
      using unat_bound [of reserved] by simp
    then have "checked_mul fee 2 = Some (fee * 2)" "unat (fee * 2) = unat fee * 2"
      using unat_mul_no_overflow [of fee 2] by (simp_all add: checked_mul_def)
    with \<open>2 * unat fee \<le> unat reserved\<close>
    show "\<exists>d. checked_mul fee 2 = Some d \<and> \<not> d > reserved" by (simp add: word_less_nat_alt)
  qed (auto simp: checked_mul_eq_Some word_less_nat_alt)
  then show ?thesis by (auto simp: check_commitment_reserved_fee_def)
qed

section \<open>Properties\<close>

text \<open>An environment in which a transaction of 500 bytes and a cell of 61 CKB are used.\<close>

definition sample_env :: chain_env where
  "sample_env = \<lparr>env_commitment_tx_size = (\<lambda>_ _. 500), env_shutdown_tx_size = (\<lambda>_ _ _. 600),
     env_cell_occupied = (\<lambda>_ _ _. Some 6100000000), env_check_udt_script = (\<lambda>_. True),
     env_epoch_well_formed = (\<lambda>_. True), env_epoch_less = (\<lambda>a b. a < b), env_epoch_new = (\<lambda>n. n),
     env_epoch_from_full_value = (\<lambda>n. n), env_tlc_expiry_delay = (\<lambda>n. n * 9600000)\<rparr>"

text \<open>The forwarding fee is the exact ceiling of \<open>amount * rate / 10^6\<close>; the computation fails
  exactly when the 128-bit product overflows and never panics, so a node neither undercharges
  nor charges a full unit too much.\<close>

lemma forward_fee_exact:
  "case calculate_tlc_forward_fee amount rate of
     Ok fee \<Rightarrow> unat rate * unat amount < 2 ^ 128 \<and> unat fee = ceil_div (unat rate * unat amount) 1000000 \<and>
               unat rate * unat amount \<le> unat fee * 1000000 \<and> unat fee * 1000000 < unat rate * unat amount + 1000000
   | Err _ \<Rightarrow> 2 ^ 128 \<le> unat rate * unat amount
   | Panic \<Rightarrow> False"
proof (cases "calculate_tlc_forward_fee amount rate")
  case (Ok fee)
  then have "unat rate * unat amount < 2 ^ 128 \<and> unat fee = ceil_div (unat rate * unat amount) 1000000"
    by (simp add: calculate_tlc_forward_fee_def calculate_fee_with_base_Ok)
  with Ok show ?thesis using ceil_div_bounds [of 1000000 "unat rate * unat amount"] by simp
next
  case (Err e)
  have "2 ^ 128 \<le> unat rate * unat amount"
  proof (rule ccontr)
    let ?c = "ceil_div (unat rate * unat amount) 1000000"
    assume "\<not> 2 ^ 128 \<le> unat rate * unat amount"
    moreover from this have "?c < 2 ^ 128"
      using ceil_div_bounds [of 1000000 "unat rate * unat amount"] by simp
    then have "unat (word_of_nat ?c :: u128) = ?c" by (simp add: unat_of_nat take_bit_nat_eq_self)
    ultimately have "calculate_tlc_forward_fee amount rate = Ok (word_of_nat ?c)"
      by (simp add: calculate_tlc_forward_fee_def calculate_fee_with_base_Ok)
    with Err show False by simp
  qed
  with Err show ?thesis by simp
next
  case Panic
  then show ?thesis
    by (simp add: calculate_tlc_forward_fee_def calculate_fee_with_base_def bind_res_eq_Panic Let_def split: if_splits)
qed

text \<open>Splitting the requested funding into a liquid and a reserved part loses nothing: on a CKB
  channel the two parts add up to the requested amount, which leaves room below the 64-bit
  capacity limit; on a UDT channel the whole amount is liquid and the CKB reserve is separate. The
  reserve always covers the occupied capacity plus the minimal shutdown fee.\<close>

lemma funding_split_conserves:
  assumes "get_funding_and_reserved_amount E amount script udt features = Ok (liquid, reserved)"
  shows "(if udt = None then unat liquid + unat reserved = unat amount \<and> unat amount < 2 ^ 64 - 1
          else liquid = amount) \<and>
         (\<exists>c. occupied_capacity E script udt features = Ok c \<and>
              unat reserved = unat c + unat DEFAULT_MIN_SHUTDOWN_FEE)"
  using assms
  by (auto simp: get_funding_and_reserved_amount_def reserved_capacity_def rust_arith
      word_le_nat_alt word_less_nat_alt unat_minus_one_word_max not_le split: if_splits)

text \<open>A channel whose parameters pass the acceptance check can always be settled: the amount
  reserve and the amount balance do not overflow, the whole CKB amount fits in 64 bits, and the
  peer's reserve covers its occupied capacity plus twice the commitment transaction fee.\<close>

lemma accepted_channel_affordable:
  assumes "check_accept_channel_parameters_for_values E local_amount remote_amount local_reserved remote_reserved
      rate udt remote_script local_max remote_max features = Ok ()"
  shows "\<exists>fee c. checked_calculate_commitment_tx_fee E rate udt features = Ok fee \<and>
      occupied_capacity E remote_script udt features = Ok c \<and>
      unat c + 2 * unat fee \<le> unat remote_reserved \<and>
      unat local_reserved + unat remote_reserved < 2 ^ 64 \<and>
      unat local_amount + unat remote_amount < 2 ^ 128 \<and>
      (udt = None \<longrightarrow> unat local_amount + unat remote_amount + unat local_reserved + unat remote_reserved < 2 ^ 64)"
proof -
  from assms obtain tot c fee rf where facts:
    "checked_add local_reserved remote_reserved = Some tot"
    "occupied_capacity E remote_script udt features = Ok c"
    "checked_sub remote_reserved c = Some rf"
    "checked_calculate_commitment_tx_fee E rate udt features = Ok fee" "2 * unat fee \<le> unat rf"
    "if udt \<noteq> None then checked_add local_amount remote_amount \<noteq> None
     else \<exists>t m. checked_add local_amount remote_amount = Some t \<and>
            checked_sub (u128_from (- 1)) (u128_from tot) = Some m \<and> \<not> t > m"
    by (auto simp: check_accept_channel_parameters_for_values_def check_commitment_reserved_fee_Ok
        checked_total_reserved_ckb_amount_from_def split: if_splits)
  have "unat tot < 2 ^ 64" using unat_bound [of tot] by simp
  moreover have "unat local_amount + unat remote_amount < 2 ^ 128"
  proof -
    have "checked_add local_amount remote_amount \<noteq> None" using facts(6) by (auto split: if_splits)
    then show ?thesis by (simp add: checked_add_eq_None)
  qed
  ultimately show ?thesis using facts
    by (auto simp: rust_arith unat_minus_one_word_max word_less_nat_alt not_less split: if_splits)
qed

end
