(* ===== verification/Channel_State.thy ===== *)
theory Channel_State
  imports Commitment_Rounds Fees
begin

text \<open>
  The state of one channel (\<open>ChannelActorData\<close> and the run-time fields of \<open>ChannelActorState\<close>)
  and its TLC operations, after \<^verbatim>\<open>crates/fiber-lib/src/fiber/channel.rs\<close>: the guards on adding and
  removing TLCs, the handlers that do it on a local command and on a peer message, the settled
  removal that moves the balance, the settlement amounts of a commitment transaction, the peer
  watchdogs and the queue of deferred peer updates. Messages and store writes are returned as
  effects; the wall clock is the argument \<open>now\<close>. Of a V2 session only what these operations read
  is kept.
\<close>

section \<open>State\<close>

record closing_session_v2 =
  cl_peer_wait_started_at :: u64
  cl_superseded_by_force_close :: bool
  cl_remote_shutdown :: bool
  cl_response :: bool
  cl_remote_response :: bool

record channel_session_v2 =
  sv_outgoing_wait :: "u64 option"
  sv_remove_effects :: "(tlc_info \<times> u32 option) list"
  sv_closing :: "closing_session_v2 option"

record shutdown_info =
  si_close_script :: script
  si_fee_rate :: u64
  si_signature :: "bytes option"

record add_tlc_command =
  ac_amount :: u128
  ac_payment_hash :: hash256
  ac_attempt_id :: "u64 option"
  ac_expiry :: u64
  ac_hash_algorithm :: hash_algorithm
  ac_onion_packet :: "bytes option"
  ac_shared_secret :: "256 word"
  ac_is_trampoline_hop :: bool
  ac_previous_tlc :: "prev_tlc_info option"

record add_tlc_msg =
  am_channel_id :: hash256
  am_tlc_id :: u64
  am_amount :: u128
  am_payment_hash :: hash256
  am_expiry :: u64
  am_hash_algorithm :: hash_algorithm
  am_onion_packet :: "bytes option"

record remove_tlc_msg =
  rm_channel_id :: hash256
  rm_tlc_id :: u64
  rm_reason :: remove_tlc_reason

record remove_tlc_command =
  rc_id :: u64
  rc_reason :: remove_tlc_reason

datatype retryable_tlc_operation = RetryRemoveTlc tlc_id remove_tlc_reason | RetryAddTlc add_tlc_command
datatype tlc_replay_update = ReplayAdd add_tlc_msg | ReplayRemove remove_tlc_msg
datatype deferred_peer_tlc_update = DeferredAdd add_tlc_msg | DeferredRemove remove_tlc_msg

type_synonym pub_nonce = "528 word"

text \<open>Of the transactions, what the node computes: the commitment cell, and of a funding transaction
  its hash and witnesses. The channel cell is the first output of the funding transaction.\<close>

record cell_output =
  co_lock :: script
  co_type :: "script option"
  co_capacity :: u64

record commitment_tx =
  ct_funding_tx :: hash256
  ct_output :: cell_output
  ct_output_data :: bytes
  ct_witness :: "bytes option"

record funding_tx =
  ft_hash :: hash256
  ft_witnesses :: "bytes list"

record external_funding =
  ef_enabled :: bool
  ef_signed_submitted :: bool
  ef_funding_lock_script :: "script option"

record revoke_and_ack =
  ra_channel_id :: hash256
  ra_partial_signature :: bytes
  ra_next_point :: pubkey
  ra_next_nonce :: pub_nonce

record channel =
  ch_id :: hash256
  ch_state :: channel_state
  ch_is_public :: bool
  ch_local_tlc_info :: channel_tlc_info
  ch_remote_tlc_info :: "channel_tlc_info option"
  ch_funding_udt_type_script :: "script option"
  ch_is_acceptor :: bool
  ch_is_one_way :: bool
  ch_to_local_amount :: u128
  ch_to_remote_amount :: u128
  ch_local_reserved_ckb_amount :: u64
  ch_remote_reserved_ckb_amount :: u64
  ch_commitment_fee_rate :: u64
  ch_commitment_delay_epoch :: u64
  ch_commitment_numbers :: commitment_numbers
  ch_local_constraints :: channel_constraints
  ch_remote_constraints :: channel_constraints
  ch_tlc_state :: tlc_state
  ch_retryable_tlc_operations :: "retryable_tlc_operation list"
  ch_waiting_forward_tlc_tasks :: "tlc_id \<rightharpoonup> 256 word"
  ch_remote_shutdown_script :: "script option"
  ch_local_shutdown_script :: script
  ch_last_committed_remote_nonce :: "pub_nonce option"
  ch_remote_revocation_nonce_for_verify :: "pub_nonce option"
  ch_remote_revocation_nonce_for_send :: "pub_nonce option"
  ch_remote_revocation_nonce_for_next :: "pub_nonce option"
  ch_remote_commitment_points :: "(u64 \<times> pubkey) list"
  ch_local_shutdown_info :: "shutdown_info option"
  ch_remote_shutdown_info :: "shutdown_info option"
  ch_reestablishing :: bool
  ch_pending_replay_updates :: "tlc_replay_update list"
  ch_last_was_revoke :: bool
  ch_connectivity_state :: channel_connectivity_state
  ch_channel_features :: channel_features
  ch_session_v2 :: "channel_session_v2 option"
  ch_waiting_peer_response :: "u64 option"
  ch_revocation_nonce_unbalanced_since :: "u64 option"
  ch_reestablish_started_at :: "u64 option"
  ch_defer_peer_tlc_updates :: bool
  ch_deferred_peer_tlc_updates :: "deferred_peer_tlc_update list"
  ch_local_funding_pubkey :: pubkey
  ch_remote_funding_pubkey :: pubkey
  ch_funding_tx :: "funding_tx option"
  ch_funding_tx_confirmed_at :: "(hash256 \<times> u32 \<times> u64) option"
  ch_external_funding :: external_funding
  ch_last_revoke_ack_msg :: "revoke_and_ack option"
  ch_latest_commitment_transaction :: "commitment_tx option"
  ch_shutdown_transaction_hash :: "hash256 option"

datatype channel_effect =
    SendAddTlc add_tlc_msg
  | SendRemoveTlc remove_tlc_msg
  | StorePreimage hash256 hash256
  | RemovePaymentHoldTlc hash256 hash256 u64

section \<open>Queries\<close>

definition is_ready :: "channel \<Rightarrow> bool" where
  "is_ready c \<longleftrightarrow> ch_state c = ChannelReady"

definition is_waiting_onchain_settlement :: "channel \<Rightarrow> bool" where
  "is_waiting_onchain_settlement c =
     (case ch_state c of Closed flags \<Rightarrow> contains flags WAITING_ONCHAIN_SETTLEMENT | _ \<Rightarrow> False)"

definition is_onchain_settlement_confirmed :: "channel \<Rightarrow> bool" where
  "is_onchain_settlement_confirmed c =
     (case ch_state c of Closed flags \<Rightarrow> contains flags ONCHAIN_SETTLEMENT_CONFIRMED | _ \<Rightarrow> False)"

definition has_pending_tlc_delivery :: "channel \<Rightarrow> bool" where
  "has_pending_tlc_delivery c \<longleftrightarrow> ch_retryable_tlc_operations c \<noteq> [] \<or>
     (case ch_session_v2 c of None \<Rightarrow> False | Some s \<Rightarrow> sv_remove_effects s \<noteq> [])"

datatype offline_channel_restore_mode = ReestablishPeer | WatchChain

definition offline_restore_mode :: "channel \<Rightarrow> offline_channel_restore_mode option" where
  "offline_restore_mode c = (case ch_state c of
       ShuttingDown flags \<Rightarrow>
         if contains flags WAITING_COMMITMENT_CONFIRMATION then Some WatchChain else Some ReestablishPeer
     | Closed flags \<Rightarrow>
         if contains flags WAITING_ONCHAIN_SETTLEMENT \<or> has_pending_tlc_delivery c then Some WatchChain else None
     | _ \<Rightarrow> Some ReestablishPeer)"

definition can_restore_offline_actor :: "channel \<Rightarrow> bool" where
  "can_restore_offline_actor c \<longleftrightarrow> offline_restore_mode c \<noteq> None"

definition is_risk_of_penalty :: "channel \<Rightarrow> bool" where
  "is_risk_of_penalty c = (case ch_state c of ChannelReady \<Rightarrow> True | ShuttingDown _ \<Rightarrow> True | _ \<Rightarrow> False)"

definition can_be_tlc_sender :: "channel \<Rightarrow> bool" where
  "can_be_tlc_sender c \<longleftrightarrow> \<not> ch_is_one_way c \<or> \<not> ch_is_acceptor c"

definition can_be_tlc_receiver :: "channel \<Rightarrow> bool" where
  "can_be_tlc_receiver c \<longleftrightarrow> \<not> ch_is_one_way c \<or> ch_is_acceptor c"

definition is_waiting_tlc_ack :: "channel \<Rightarrow> bool" where
  "is_waiting_tlc_ack c =
     (if ch_session_v2 c \<noteq> None then ts_waiting_ack (ch_tlc_state c)
      else ts_waiting_ack (ch_tlc_state c) \<or> ch_remote_revocation_nonce_for_send c = None \<or>
           ch_remote_revocation_nonce_for_verify c = None)"

definition any_tlc_pending :: "channel \<Rightarrow> bool" where
  "any_tlc_pending c \<longleftrightarrow> (\<exists>t\<in>set (all_tlcs (ch_tlc_state c)). ti_removed_confirmed_at t = None)"

definition get_all_received_tlcs :: "channel \<Rightarrow> tlc_info list" where
  "get_all_received_tlcs c = filter is_received (all_tlcs (ch_tlc_state c))"

definition get_all_offer_tlcs :: "channel \<Rightarrow> tlc_info list" where
  "get_all_offer_tlcs c = filter is_offered (all_tlcs (ch_tlc_state c))"

definition get_inflight_received_tlcs :: "channel \<Rightarrow> tlc_info list" where
  "get_inflight_received_tlcs c = filter (\<lambda>t. \<not> is_fail_remove_confirmed t) (get_all_received_tlcs c)"

definition get_inflight_offered_tlcs :: "channel \<Rightarrow> tlc_info list" where
  "get_inflight_offered_tlcs c = filter (\<lambda>t. \<not> is_fail_remove_confirmed t) (get_all_offer_tlcs c)"

definition sum_amounts :: "tlc_info list \<Rightarrow> u128 chan_res" where
  "sum_amounts ts = try_fold (\<lambda>acc t. checked_add_u128 acc (ti_amount t)) 0 ts"

definition get_offered_tlc_balance :: "channel \<Rightarrow> u128 chan_res" where
  "get_offered_tlc_balance c = sum_amounts (get_inflight_offered_tlcs c)"

definition get_received_tlc_balance :: "channel \<Rightarrow> u128 chan_res" where
  "get_received_tlc_balance c = sum_amounts (get_inflight_received_tlcs c)"

section \<open>Guards\<close>

definition check_tlc_limits :: "channel \<Rightarrow> u128 \<Rightarrow> bool \<Rightarrow> unit chan_res" where
  "check_tlc_limits c add_amount is_sent =
     bind_res (ensure (add_amount \<noteq> 0) TlcAmountIsTooLow) (\<lambda>_.
     if is_sent then
       bind_res (get_offered_tlc_balance c) (\<lambda>pending_sent_amount.
       bind_res (ok_or (checked_sub (ch_to_local_amount c) pending_sent_amount) TlcAmountExceedLimit) (\<lambda>free.
       bind_res (ensure (\<not> add_amount > free) TlcAmountExceedLimit) (\<lambda>_.
       bind_res (plus_u (word_of_nat (length (get_inflight_offered_tlcs c)) :: u64) 1) (\<lambda>active_offered_tlcs.
       bind_res (ensure (\<not> active_offered_tlcs >
                    min (max_tlc_number_in_flight (ch_remote_constraints c)) MAX_TLC_NUMBER_IN_FLIGHT)
                   TlcNumberExceedLimit) (\<lambda>_.
       bind_res (bind_res (sum_amounts (get_inflight_offered_tlcs c)) (\<lambda>sum. checked_add_u128 sum add_amount))
         (\<lambda>active_offered_amount.
       ensure (\<not> active_offered_amount > max_tlc_value_in_flight (ch_remote_constraints c))
         TlcValueInflightExceedLimit))))))
     else
       bind_res (get_received_tlc_balance c) (\<lambda>pending_recv_amount.
       bind_res (ok_or (checked_sub (ch_to_remote_amount c) pending_recv_amount) TlcAmountExceedLimit) (\<lambda>free.
       bind_res (ensure (\<not> add_amount > free) TlcAmountExceedLimit) (\<lambda>_.
       bind_res (ok_or (checked_add (word_of_nat (length (get_inflight_received_tlcs c)) :: u64) 1)
                   TlcNumberExceedLimit) (\<lambda>active_received_tlcs.
       bind_res (ensure (\<not> active_received_tlcs >
                    min (max_tlc_number_in_flight (ch_local_constraints c)) MAX_TLC_NUMBER_IN_FLIGHT)
                   TlcNumberExceedLimit) (\<lambda>_.
       bind_res (bind_res (sum_amounts (get_inflight_received_tlcs c)) (\<lambda>sum. checked_add_u128 sum add_amount))
         (\<lambda>active_received_amount.
       ensure (\<not> active_received_amount > max_tlc_value_in_flight (ch_local_constraints c))
         TlcValueInflightExceedLimit)))))))"

definition check_tlc_expiry :: "chain_env \<Rightarrow> u64 \<Rightarrow> channel \<Rightarrow> u64 \<Rightarrow> unit chan_res" where
  "check_tlc_expiry E now c expiry =
     bind_res (ok_or (checked_add now MIN_TLC_EXPIRY_DELTA) TlcExpiryTooFar) (\<lambda>min_expiry.
     bind_res (ensure (\<not> expiry \<le> min_expiry) TlcExpirySoon) (\<lambda>_.
     let delay = env_tlc_expiry_delay E (env_epoch_from_full_value E (ch_commitment_delay_epoch c)) in
     bind_res (ok_or (checked_add now delay) TlcExpiryTooFar) (\<lambda>expect_expiry.
     bind_res (ensure (\<not> expiry < expect_expiry) TlcExpirySoon) (\<lambda>_.
     bind_res (ok_or (checked_add now MAX_PAYMENT_TLC_EXPIRY_LIMIT) TlcExpiryTooFar) (\<lambda>max_expiry.
     ensure (\<not> expiry \<ge> max_expiry) TlcExpiryTooFar)))))"

definition check_tlc_forward_amount :: "channel \<Rightarrow> u128 \<Rightarrow> u128 option \<Rightarrow> unit chan_res" where
  "check_tlc_forward_amount c forward_amount forward_fee =
     (let info = ch_local_tlc_info c in
      if cti_tlc_minimum_value info \<noteq> 0 \<and> forward_amount < cti_tlc_minimum_value info then Err TlcAmountIsTooLow
      else case forward_fee of
         None \<Rightarrow> Ok ()
       | Some fee \<Rightarrow>
           (case calculate_tlc_forward_fee forward_amount (cti_tlc_fee_proportional_millionths info) of
              Ok expected_fee \<Rightarrow> if fee \<ge> expected_fee then Ok () else Err TlcForwardFeeIsTooLow
            | Err _ \<Rightarrow> Err TlcForwardFeeIsTooLow
            | Panic \<Rightarrow> Panic))"

datatype tlc_update_action = AddTlcCommand u128 | AddTlcPeer u128 | RemoveTlcCommand | RemoveTlcPeer

fun is_remove_action :: "tlc_update_action \<Rightarrow> bool" where
  "is_remove_action RemoveTlcCommand = True"
| "is_remove_action RemoveTlcPeer = True"
| "is_remove_action _ = False"

fun is_command_action :: "tlc_update_action \<Rightarrow> bool" where
  "is_command_action (AddTlcCommand _) = True"
| "is_command_action RemoveTlcCommand = True"
| "is_command_action _ = False"

fun is_add_peer_action :: "tlc_update_action \<Rightarrow> bool" where
  "is_add_peer_action (AddTlcPeer _) = True"
| "is_add_peer_action _ = False"

definition tlc_update_state_ok :: "channel_state \<Rightarrow> tlc_update_action \<Rightarrow> bool" where
  "tlc_update_state_ok st action = (case st of
       ChannelReady \<Rightarrow> True
     | ShuttingDown flags \<Rightarrow> is_remove_action action \<or> (is_add_peer_action action \<and> flags = OUR_SHUTDOWN_SENT)
     | _ \<Rightarrow> False)"

definition check_for_tlc_update :: "channel \<Rightarrow> tlc_update_action \<Rightarrow> unit chan_res" where
  "check_for_tlc_update c action =
     bind_res (case action of
         AddTlcCommand _ \<Rightarrow> ensure (can_be_tlc_sender c) IncorrectTlcDirection
       | RemoveTlcPeer \<Rightarrow> ensure (can_be_tlc_sender c) IncorrectTlcDirection
       | AddTlcPeer _ \<Rightarrow> ensure (can_be_tlc_receiver c) IncorrectTlcDirection
       | RemoveTlcCommand \<Rightarrow> ensure (can_be_tlc_receiver c) IncorrectTlcDirection) (\<lambda>_.
     bind_res (ensure (tlc_update_state_ok (ch_state c) action) InvalidState) (\<lambda>_.
     bind_res (case action of
         AddTlcCommand amount \<Rightarrow>
           bind_res (ensure (cti_enabled (ch_local_tlc_info c)) InvalidState) (\<lambda>_. check_tlc_limits c amount True)
       | AddTlcPeer amount \<Rightarrow> check_tlc_limits c amount False
       | _ \<Rightarrow> Ok ()) (\<lambda>_.
     bind_res (ensure (\<not> (is_command_action action \<and> is_waiting_tlc_ack c)) WaitingTlcAck) (\<lambda>_.
     ensure (\<not> (is_command_action action \<and> ch_reestablishing c)) WaitingTlcAck))))"

definition check_insert_tlc :: "channel \<Rightarrow> tlc_info \<Rightarrow> unit chan_res" where
  "check_insert_tlc c t = ensure (ti_tlc_id t = next_tlc_id (ch_tlc_state c) (is_offered t)) InvalidParameter"

definition check_remove_tlc_with_reason :: "hashers \<Rightarrow> channel \<Rightarrow> tlc_id \<Rightarrow> remove_tlc_reason \<Rightarrow> unit chan_res" where
  "check_remove_tlc_with_reason H c i reason = (case get (ch_tlc_state c) i of
       None \<Rightarrow> Err InvalidParameter
     | Some t \<Rightarrow>
        bind_res (ensure (ti_removed_reason t = None) RepeatedProcessing) (\<lambda>_.
        bind_res (if is_offered t then bind_res (outbound_status t) (\<lambda>st. ensure (st = OutCommitted) InvalidState)
                  else bind_res (inbound_status t) (\<lambda>st. ensure (st = InCommitted) InvalidState)) (\<lambda>_.
        case reason of
          RemoveTlcFulfill preimage \<Rightarrow>
            ensure (ti_payment_hash t = hash_with H (ti_hash_algorithm t) preimage) FinalIncorrectPreimage
        | RemoveTlcFail _ \<Rightarrow> Ok ())))"

text \<open>\<open>lookup\<close> is the store's table of channels.\<close>

definition check_add_tlc_consistent ::
  "(hash256 \<Rightarrow> channel option) \<Rightarrow> add_tlc_command \<Rightarrow> channel \<Rightarrow> unit chan_res" where
  "check_add_tlc_consistent lookup command current = (case ac_previous_tlc command of
       None \<Rightarrow> Ok ()
     | Some prev \<Rightarrow>
        bind_res (ok_or (lookup (prev_channel_id prev)) InvalidParameter) (\<lambda>stored.
        let prev_state = (if prev_channel_id prev = ch_id current then current else stored);
            prev_id = Received (prev_tlc_id prev);
            backed = (case get (ch_tlc_state prev_state) prev_id of None \<Rightarrow> False
              | Some t \<Rightarrow> ti_payment_hash t = ac_payment_hash command \<and>
                          ti_hash_algorithm t = ac_hash_algorithm command \<and>
                          ti_removed_reason t = None \<and> ti_forwarding_tlc t = None)
        in
        bind_res (ensure (ch_funding_udt_type_script prev_state = ch_funding_udt_type_script current)
                    InvalidParameter) (\<lambda>_.
        ensure (\<not> (\<not> (case ch_state prev_state of ChannelReady \<Rightarrow> True | ShuttingDown _ \<Rightarrow> True | _ \<Rightarrow> False) \<or> \<not> backed \<or>
                   (\<exists>t\<in>set (offered_list (ch_tlc_state current)).
                      ti_forwarding_tlc t = Some (prev_channel_id prev, prev_tlc_id prev)) \<or>
                   (\<exists>op\<in>set (ch_retryable_tlc_operations prev_state).
                      case op of RetryRemoveTlc i _ \<Rightarrow> i = prev_id | _ \<Rightarrow> False))) InvalidState)))"

section \<open>Adding TLCs\<close>

definition NO_SHARED_SECRET :: "256 word" where
  "NO_SHARED_SECRET = 0"

definition create_outbounding_tlc :: "channel \<Rightarrow> add_tlc_command \<Rightarrow> tlc_info chan_res" where
  "create_outbounding_tlc c command =
     (let i = Offered (get_next_offering (ch_tlc_state c)) in
      bind_res (rust_assert (get (ch_tlc_state c) i = None)) (\<lambda>_.
      Ok \<lparr>ti_status = Outbound LocalAnnounced, ti_tlc_id = i, ti_amount = ac_amount command,
          ti_payment_hash = ac_payment_hash command, ti_total_amount = None, ti_payment_secret = None,
          ti_attempt_id = ac_attempt_id command, ti_expiry = ac_expiry command,
          ti_hash_algorithm = ac_hash_algorithm command, ti_onion_packet = ac_onion_packet command,
          ti_shared_secret = ac_shared_secret command,
          ti_is_trampoline_hop = ac_is_trampoline_hop command,
          ti_created_at = ch_commitment_numbers c, ti_removed_reason = None,
          ti_forwarding_tlc = map_option (\<lambda>p. (prev_channel_id p, prev_tlc_id p)) (ac_previous_tlc command),
          ti_removed_confirmed_at = None, ti_applied_flags = 0\<rparr>))"

definition create_inbounding_tlc :: "channel \<Rightarrow> add_tlc_msg \<Rightarrow> tlc_info" where
  "create_inbounding_tlc c message =
     \<lparr>ti_status = Inbound RemoteAnnounced, ti_tlc_id = Received (am_tlc_id message),
      ti_amount = am_amount message, ti_payment_hash = am_payment_hash message,
      ti_total_amount = None, ti_payment_secret = None, ti_attempt_id = None,
      ti_expiry = am_expiry message, ti_hash_algorithm = am_hash_algorithm message,
      ti_onion_packet = am_onion_packet message, ti_shared_secret = NO_SHARED_SECRET,
      ti_is_trampoline_hop = False, ti_created_at = ch_commitment_numbers c,
      ti_removed_reason = None, ti_forwarding_tlc = None, ti_removed_confirmed_at = None,
      ti_applied_flags = 0\<rparr>"

definition set_tlc_state :: "channel \<Rightarrow> tlc_state \<Rightarrow> channel" where
  "set_tlc_state c s = c\<lparr>ch_tlc_state := s\<rparr>"

definition record_pending_replay_update :: "channel \<Rightarrow> tlc_replay_update \<Rightarrow> channel" where
  "record_pending_replay_update c u = c\<lparr>ch_pending_replay_updates := ch_pending_replay_updates c @ [u]\<rparr>"

definition add_tlc_update ::
  "chain_env \<Rightarrow> (hash256 \<Rightarrow> channel option) \<Rightarrow> u64 \<Rightarrow> channel \<Rightarrow> add_tlc_command \<Rightarrow>
     (u64 \<times> channel \<times> channel_effect list) chan_res" where
  "add_tlc_update E lookup now c command =
     bind_res (check_for_tlc_update c (AddTlcCommand (ac_amount command))) (\<lambda>_.
     bind_res (check_tlc_expiry E now c (ac_expiry command)) (\<lambda>_.
     bind_res (check_tlc_forward_amount c (ac_amount command)
                 (map_option forwarding_fee (ac_previous_tlc command))) (\<lambda>_.
     bind_res (create_outbounding_tlc c command) (\<lambda>t.
     bind_res (check_insert_tlc c t) (\<lambda>_.
     bind_res (check_add_tlc_consistent lookup command c) (\<lambda>_.
     bind_res (increment_offering (add_offered_tlc (ch_tlc_state c) t)) (\<lambda>s.
     let add_tlc = \<lparr>am_channel_id = ch_id c, am_tlc_id = tlc_id_u64 (ti_tlc_id t),
                    am_amount = ac_amount command, am_payment_hash = ac_payment_hash command,
                    am_expiry = ac_expiry command, am_hash_algorithm = ac_hash_algorithm command,
                    am_onion_packet = ac_onion_packet command\<rparr>;
         effects = (if ch_session_v2 c = None then [SendAddTlc add_tlc] else [])
     in Ok (tlc_id_u64 (ti_tlc_id t),
            record_pending_replay_update (set_tlc_state c s) (ReplayAdd add_tlc), effects))))))))"

definition same_replayed_tlc :: "tlc_info \<Rightarrow> tlc_info \<Rightarrow> bool" where
  "same_replayed_tlc existing t \<longleftrightarrow> ti_amount existing = ti_amount t \<and>
     ti_payment_hash existing = ti_payment_hash t \<and> ti_expiry existing = ti_expiry t \<and>
     is_offered existing = is_offered t"

definition handle_add_tlc_peer_message ::
  "chain_env \<Rightarrow> u64 \<Rightarrow> channel \<Rightarrow> add_tlc_msg \<Rightarrow> channel chan_res" where
  "handle_add_tlc_peer_message E now c add_tlc =
     bind_res (check_for_tlc_update c (AddTlcPeer (am_amount add_tlc))) (\<lambda>_.
     bind_res (check_tlc_expiry E now c (am_expiry add_tlc)) (\<lambda>_.
     let t = create_inbounding_tlc c add_tlc in
     case get (ch_tlc_state c) (ti_tlc_id t) of
       Some existing \<Rightarrow> if same_replayed_tlc existing t then Ok c else Err InvalidParameter
     | None \<Rightarrow>
        bind_res (check_insert_tlc c t) (\<lambda>_.
        bind_res (increment_received (add_received_tlc (ch_tlc_state c) t)) (\<lambda>s.
        Ok (set_tlc_state c s)))))"

section \<open>Removing TLCs\<close>

definition remove_tlc_update ::
  "hashers \<Rightarrow> channel \<Rightarrow> remove_tlc_command \<Rightarrow> (channel \<times> channel_effect list) chan_res" where
  "remove_tlc_update H c command =
     bind_res (check_for_tlc_update c RemoveTlcCommand) (\<lambda>_.
     bind_res (check_remove_tlc_with_reason H c (Received (rc_id command)) (rc_reason command)) (\<lambda>_.
     bind_res (set_received_tlc_removed (ch_tlc_state c) (rc_id command) (rc_reason command)) (\<lambda>(payment_hash, s).
     let remove_tlc = \<lparr>rm_channel_id = ch_id c, rm_tlc_id = rc_id command, rm_reason = rc_reason command\<rparr>;
         stored = (case rc_reason command of RemoveTlcFulfill p \<Rightarrow> [StorePreimage payment_hash p] | _ \<Rightarrow> []);
         sent = (if ch_session_v2 c = None then [SendRemoveTlc remove_tlc] else [])
     in Ok (record_pending_replay_update (set_tlc_state c s) (ReplayRemove remove_tlc),
            stored @ [RemovePaymentHoldTlc payment_hash (ch_id c) (rc_id command)] @ sent))))"

definition is_plaintext_failure :: "remove_tlc_reason \<Rightarrow> bool" where
  "is_plaintext_failure r = (case r of RemoveTlcFail packet \<Rightarrow> is_plaintext packet | _ \<Rightarrow> False)"

definition handle_remove_tlc_peer_message ::
  "hashers \<Rightarrow> channel \<Rightarrow> remove_tlc_msg \<Rightarrow> (channel \<times> channel_effect list) chan_res" where
  "handle_remove_tlc_peer_message H c remove_tlc =
     bind_res (check_for_tlc_update c RemoveTlcPeer) (\<lambda>_.
     bind_res (ensure (\<not> is_plaintext_failure (rm_reason remove_tlc)) InvalidParameter) (\<lambda>_.
     bind_res (check_remove_tlc_with_reason H c (Offered (rm_tlc_id remove_tlc)) (rm_reason remove_tlc)) (\<lambda>_.
     bind_res (set_offered_tlc_removed (ch_tlc_state c) (rm_tlc_id remove_tlc) (rm_reason remove_tlc))
       (\<lambda>(payment_hash, s).
     Ok (set_tlc_state c s,
         case rm_reason remove_tlc of RemoveTlcFulfill p \<Rightarrow> [StorePreimage payment_hash p] | _ \<Rightarrow> [])))))"

section \<open>Commitment points and clean-up\<close>

definition get_remote_commitment_point :: "channel \<Rightarrow> u64 \<Rightarrow> pubkey chan_res" where
  "get_remote_commitment_point c number =
     ok_or (map_option snd (List.find (\<lambda>(n, _). n = number) (ch_remote_commitment_points c))) InvalidParameter"

definition required_points :: "channel \<Rightarrow> u64 set" where
  "required_points c =
     (\<Union>t\<in>set (all_tlcs (ch_tlc_state c)). {cn_local (ti_created_at t), cn_remote (ti_created_at t)}) \<union>
     {cn_local (ch_commitment_numbers c), cn_remote (ch_commitment_numbers c)}"

definition prune_remote_commitment_points :: "channel \<Rightarrow> channel" where
  "prune_remote_commitment_points c =
     c\<lparr>ch_remote_commitment_points :=
         filter (\<lambda>(n, _). n \<in> required_points c) (ch_remote_commitment_points c)\<rparr>"

definition append_remote_commitment_point :: "channel \<Rightarrow> pubkey \<Rightarrow> channel" where
  "append_remote_commitment_point c point =
     prune_remote_commitment_points
       (c\<lparr>ch_remote_commitment_points :=
            ch_remote_commitment_points c @ [(cn_local (ch_commitment_numbers c), point)]\<rparr>)"

definition channel_apply_remove_tlc :: "channel \<Rightarrow> tlc_id \<Rightarrow> channel" where
  "channel_apply_remove_tlc c i =
     prune_remote_commitment_points
       (c\<lparr>ch_tlc_state := apply_remove_tlc (ch_tlc_state c) i,
          ch_waiting_forward_tlc_tasks := (ch_waiting_forward_tlc_tasks c)(i := None)\<rparr>)"

definition drop_stale_waiting_forward_tlc_tasks :: "channel \<Rightarrow> channel" where
  "drop_stale_waiting_forward_tlc_tasks c =
     c\<lparr>ch_waiting_forward_tlc_tasks := (\<lambda>i. if get (ch_tlc_state c) i \<noteq> None
          then ch_waiting_forward_tlc_tasks c i else None)\<rparr>"

definition clean_up_failed_tlcs :: "channel \<Rightarrow> channel" where
  "clean_up_failed_tlcs c =
     (let to_be_removed = map ti_tlc_id (filter (\<lambda>t. ti_removed_confirmed_at t \<noteq> None \<and>
                            contains (ti_applied_flags t) REMOVE) (all_tlcs (ch_tlc_state c)))
      in fold (\<lambda>i c. channel_apply_remove_tlc c i) to_be_removed c)"

section \<open>Settled removals\<close>

definition remove_tlc_with_reason ::
  "hashers \<Rightarrow> channel \<Rightarrow> tlc_id \<Rightarrow> (tlc_info \<times> remove_tlc_reason \<times> channel) chan_res" where
  "remove_tlc_with_reason H c i =
     bind_res (expect (get_mut (ch_tlc_state c) i)) (\<lambda>current.
     bind_res (expect (ti_removed_reason current)) (\<lambda>reason.
     bind_res (rust_assert (ti_status current \<in> {Inbound InRemoveAckConfirmed, Outbound OutRemoveAckConfirmed})) (\<lambda>_.
     case reason of
       RemoveTlcFail _ \<Rightarrow> Ok (current, reason, c)
     | RemoveTlcFulfill preimage \<Rightarrow>
        bind_res (ensure (ti_payment_hash current = hash_with H (ti_hash_algorithm current) preimage)
                    FinalIncorrectPreimage) (\<lambda>_.
        bind_res (if is_offered current then
                    bind_res (ok_or (checked_sub (ch_to_local_amount c) (ti_amount current)) InternalError) (\<lambda>l.
                    bind_res (ok_or (checked_add (ch_to_remote_amount c) (ti_amount current)) InternalError) (\<lambda>r.
                    Ok (l, r)))
                  else
                    bind_res (ok_or (checked_add (ch_to_local_amount c) (ti_amount current)) InternalError) (\<lambda>l.
                    bind_res (ok_or (checked_sub (ch_to_remote_amount c) (ti_amount current)) InternalError) (\<lambda>r.
                    Ok (l, r)))) (\<lambda>(to_local, to_remote).
        Ok (current, reason,
            channel_apply_remove_tlc (c\<lparr>ch_to_local_amount := to_local, ch_to_remote_amount := to_remote\<rparr>) i))))))"

definition mark_removed :: "channel \<Rightarrow> tlc_id \<Rightarrow> channel" where
  "mark_removed c i = set_tlc_state c
     (modify_tlc (ch_tlc_state c) i (\<lambda>t. t\<lparr>ti_applied_flags := ti_applied_flags t OR REMOVE\<rparr>))"

section \<open>Settlement amounts of a commitment transaction\<close>

text \<open>Key derivation is a parameter: the signer's TLC keys and the remote keys derived from the
  peer's base key and commitment point.\<close>

record key_env =
  ke_derive_tlc_key :: "u64 \<Rightarrow> 256 word"
  ke_derive_remote_tlc_pubkey :: "pubkey \<Rightarrow> pubkey option"

record settlement_tlc =
  st_tlc_id :: tlc_id
  st_hash_algorithm :: hash_algorithm
  st_payment_amount :: u128
  st_payment_hash :: hash256
  st_expiry :: u64
  st_local_key :: "256 word"
  st_remote_key :: pubkey

record settlement_data =
  sd_local_amount :: u128
  sd_remote_amount :: u128
  sd_tlcs :: "settlement_tlc list"

definition get_tlc_keys :: "key_env \<Rightarrow> channel \<Rightarrow> tlc_info \<Rightarrow> (256 word \<times> pubkey) chan_res" where
  "get_tlc_keys K c t =
     bind_res (get_remote_commitment_point c (cn_local (ti_created_at t))) (\<lambda>point.
     bind_res (ok_or (ke_derive_remote_tlc_pubkey K point) InvalidParameter) (\<lambda>remote_key.
     Ok (ke_derive_tlc_key K (cn_remote (ti_created_at t)), remote_key)))"

definition get_active_tlcs_for_settlement :: "key_env \<Rightarrow> channel \<Rightarrow> bool \<Rightarrow> settlement_tlc list chan_res" where
  "get_active_tlcs_for_settlement K c for_remote =
     bind_res (get_active_tlcs (features_is_v2 (ch_channel_features c)) (ch_tlc_state c) for_remote) (\<lambda>tlcs.
     traverse_res (\<lambda>t. bind_res (get_tlc_keys K c t) (\<lambda>(local_key, remote_key).
       Ok \<lparr>st_tlc_id = ti_tlc_id t, st_hash_algorithm = ti_hash_algorithm t,
           st_payment_amount = ti_amount t, st_payment_hash = ti_payment_hash t,
           st_expiry = ti_expiry t, st_local_key = local_key, st_remote_key = remote_key\<rparr>)) tlcs)"

fun outbound_in_settlement :: "bool \<Rightarrow> outbound_tlc_status \<Rightarrow> bool" where
  "outbound_in_settlement for_remote LocalAnnounced = for_remote"
| "outbound_in_settlement for_remote _ = True"

fun inbound_in_settlement :: "bool \<Rightarrow> bool \<Rightarrow> inbound_tlc_status \<Rightarrow> bool" where
  "inbound_in_settlement v2 for_remote RemoteAnnounced = (\<not> for_remote)"
| "inbound_in_settlement v2 for_remote AnnounceWaitPrevAck = (v2 \<or> \<not> for_remote)"
| "inbound_in_settlement v2 for_remote _ = True"

definition outbound_removed_in_settlement :: "bool \<Rightarrow> bool \<Rightarrow> outbound_tlc_status \<Rightarrow> bool" where
  "outbound_removed_in_settlement v2 for_remote st \<longleftrightarrow>
     st = RemoveWaitAck \<or> st = OutRemoveAckConfirmed \<or> (v2 \<and> st = RemoveWaitPrevAck) \<or>
     (st = RemoteRemoved \<and> \<not> for_remote)"

definition inbound_removed_in_settlement :: "bool \<Rightarrow> inbound_tlc_status \<Rightarrow> bool" where
  "inbound_removed_in_settlement for_remote st \<longleftrightarrow>
     st = InRemoveAckConfirmed \<or> (st = LocalRemoved \<and> for_remote)"

record settlement_sums =
  ss_offered_pending :: u128
  ss_offered_fulfilled :: u128
  ss_received_pending :: u128
  ss_received_fulfilled :: u128

text \<open>One turn of the loop over the pending TLCs.\<close>

definition add_to_sums :: "bool \<Rightarrow> bool \<Rightarrow> settlement_sums \<Rightarrow> tlc_info \<Rightarrow> settlement_sums chan_res" where
  "add_to_sums v2 for_remote acc info =
     (if is_offered info then
        bind_res (outbound_status info) (\<lambda>st.
        if outbound_removed_in_settlement v2 for_remote st then
          bind_res (expect (ti_removed_reason info)) (\<lambda>reason. case reason of
             RemoveTlcFulfill _ \<Rightarrow> bind_res (checked_add_u128 (ss_offered_fulfilled acc) (ti_amount info))
                                    (\<lambda>v. Ok (acc\<lparr>ss_offered_fulfilled := v\<rparr>))
           | RemoveTlcFail _ \<Rightarrow> Ok acc)
        else bind_res (checked_add_u128 (ss_offered_pending acc) (ti_amount info))
               (\<lambda>v. Ok (acc\<lparr>ss_offered_pending := v\<rparr>)))
      else
        bind_res (inbound_status info) (\<lambda>st.
        if inbound_removed_in_settlement for_remote st then
          bind_res (expect (ti_removed_reason info)) (\<lambda>reason. case reason of
             RemoveTlcFulfill _ \<Rightarrow> bind_res (checked_add_u128 (ss_received_fulfilled acc) (ti_amount info))
                                    (\<lambda>v. Ok (acc\<lparr>ss_received_fulfilled := v\<rparr>))
           | RemoveTlcFail _ \<Rightarrow> Ok acc)
        else bind_res (checked_add_u128 (ss_received_pending acc) (ti_amount info))
               (\<lambda>v. Ok (acc\<lparr>ss_received_pending := v\<rparr>))))"

definition settlement_value :: "u128 \<Rightarrow> u128 \<Rightarrow> u128 \<Rightarrow> u128 \<Rightarrow> u128 chan_res" where
  "settlement_value amount gained pending lost =
     bind_res (bind_res (checked_add_u128 amount gained) (\<lambda>a. checked_sub_u128 a pending))
       (\<lambda>a. checked_sub_u128 a lost)"

definition build_settlement_data :: "key_env \<Rightarrow> channel \<Rightarrow> bool \<Rightarrow> settlement_data chan_res" where
  "build_settlement_data K c for_remote =
     (let v2 = features_is_v2 (ch_channel_features c) in
      bind_res (filter_outbound (outbound_in_settlement for_remote) (offered_list (ch_tlc_state c))) (\<lambda>xs.
      bind_res (filter_inbound (inbound_in_settlement v2 for_remote) (received_list (ch_tlc_state c))) (\<lambda>ys.
      bind_res (try_fold (add_to_sums v2 for_remote) \<lparr>ss_offered_pending = 0, ss_offered_fulfilled = 0,
                  ss_received_pending = 0, ss_received_fulfilled = 0\<rparr> (xs @ ys)) (\<lambda>sums.
      bind_res (settlement_value (ch_to_local_amount c) (ss_received_fulfilled sums)
                  (ss_offered_pending sums) (ss_offered_fulfilled sums)) (\<lambda>to_local.
      bind_res (settlement_value (ch_to_remote_amount c) (ss_offered_fulfilled sums)
                  (ss_received_pending sums) (ss_received_fulfilled sums)) (\<lambda>to_remote.
      bind_res (if ch_funding_udt_type_script c = None
                then bind_res (checked_add_u128 to_local (u128_from (ch_local_reserved_ckb_amount c))) (\<lambda>l.
                     bind_res (checked_add_u128 to_remote (u128_from (ch_remote_reserved_ckb_amount c))) (\<lambda>r.
                     Ok (l, r)))
                else Ok (to_local, to_remote)) (\<lambda>(local_value, remote_value).
      bind_res (get_active_tlcs_for_settlement K c for_remote) (\<lambda>tlcs.
      Ok \<lparr>sd_local_amount = local_value, sd_remote_amount = remote_value, sd_tlcs = tlcs\<rparr>))))))))"

section \<open>Totals\<close>

definition checked_liquid_capacity :: "channel \<Rightarrow> u128 chan_res" where
  "checked_liquid_capacity c = checked_add_u128 (ch_to_local_amount c) (ch_to_remote_amount c)"

definition get_total_reserved_ckb_amount :: "channel \<Rightarrow> u64 chan_res" where
  "get_total_reserved_ckb_amount c =
     checked_total_reserved_ckb_amount_from (ch_local_reserved_ckb_amount c) (ch_remote_reserved_ckb_amount c)"

definition get_total_ckb_amount :: "channel \<Rightarrow> u64 chan_res" where
  "get_total_ckb_amount c =
     bind_res (get_total_reserved_ckb_amount c) (\<lambda>total_reserved.
     bind_res (checked_liquid_capacity c) (\<lambda>liquid.
     bind_res (checked_add_u128 liquid (u128_from total_reserved)) (\<lambda>total_ckb.
     u64_try_from total_ckb)))"

section \<open>Peer watchdogs\<close>

definition PEER_CHANNEL_RESPONSE_TIMEOUT :: u64 where "PEER_CHANNEL_RESPONSE_TIMEOUT = 30 * 1000"
definition REESTABLISH_TIMEOUT :: u64 where "REESTABLISH_TIMEOUT = 5 * 60 * 1000"

definition ack_peer_wait_v2 :: "channel \<Rightarrow> u64 option" where
  "ack_peer_wait_v2 c =
     (let can_wait = (case ch_state c of ChannelReady \<Rightarrow> True
                        | ShuttingDown flags \<Rightarrow> \<not> contains flags WAITING_COMMITMENT_CONFIRMATION | _ \<Rightarrow> False)
      in if \<not> ts_waiting_ack (ch_tlc_state c) \<or> \<not> can_wait then None
         else case ch_session_v2 c of None \<Rightarrow> None | Some s \<Rightarrow> sv_outgoing_wait s)"

definition close_peer_wait_v2 :: "channel \<Rightarrow> u64 option" where
  "close_peer_wait_v2 c = (case ch_state c of
       ShuttingDown _ \<Rightarrow>
         (case ch_session_v2 c of None \<Rightarrow> None | Some s \<Rightarrow>
            case sv_closing s of None \<Rightarrow> None | Some close \<Rightarrow>
              if \<not> cl_superseded_by_force_close close \<and>
                 (\<not> cl_remote_shutdown close \<or> (cl_response close \<and> \<not> cl_remote_response close))
              then Some (cl_peer_wait_started_at close) else None)
     | _ \<Rightarrow> None)"

definition peer_response_wait_v2 :: "channel \<Rightarrow> u64 option" where
  "peer_response_wait_v2 c = (case (close_peer_wait_v2 c, ack_peer_wait_v2 c) of
       (Some a, Some b) \<Rightarrow> Some (min a b)
     | (Some a, None) \<Rightarrow> Some a
     | (None, b) \<Rightarrow> b)"

definition peer_does_not_reply_ack_in_time :: "u64 \<Rightarrow> channel \<Rightarrow> bool" where
  "peer_does_not_reply_ack_in_time now c = (case peer_response_wait_v2 c of
       Some started \<Rightarrow>
         \<not> (ch_reestablishing c \<and> ch_connectivity_state c = Syncing) \<and>
         saturating_sub now started > PEER_CHANNEL_RESPONSE_TIMEOUT
     | None \<Rightarrow>
        (case ch_state c of ShuttingDown _ \<Rightarrow> False
         | _ \<Rightarrow> (case ch_waiting_peer_response c of None \<Rightarrow> False
                 | Some timestamp \<Rightarrow> saturating_sub now timestamp > PEER_CHANNEL_RESPONSE_TIMEOUT \<and>
                                     \<not> ch_reestablishing c)))"

definition is_revocation_nonce_ledger_unbalanced :: "channel \<Rightarrow> bool" where
  "is_revocation_nonce_ledger_unbalanced c \<longleftrightarrow>
     ch_session_v2 c = None \<and> is_ready c \<and> \<not> ch_reestablishing c \<and> \<not> ts_waiting_ack (ch_tlc_state c) \<and>
     (ch_remote_revocation_nonce_for_send c = None \<or> ch_remote_revocation_nonce_for_verify c = None)"

definition refresh_revocation_nonce_watchdog :: "u64 \<Rightarrow> channel \<Rightarrow> channel" where
  "refresh_revocation_nonce_watchdog now c =
     (if \<not> is_revocation_nonce_ledger_unbalanced c then c\<lparr>ch_revocation_nonce_unbalanced_since := None\<rparr>
      else if ch_revocation_nonce_unbalanced_since c = None
      then c\<lparr>ch_revocation_nonce_unbalanced_since := Some now\<rparr> else c)"

definition is_revocation_nonce_ledger_stalled :: "u64 \<Rightarrow> channel \<Rightarrow> bool" where
  "is_revocation_nonce_ledger_stalled now c \<longleftrightarrow> is_revocation_nonce_ledger_unbalanced c \<and>
     (case ch_revocation_nonce_unbalanced_since c of None \<Rightarrow> False
      | Some since \<Rightarrow> saturating_sub now since > PEER_CHANNEL_RESPONSE_TIMEOUT)"

definition is_reestablish_stalled :: "u64 \<Rightarrow> channel \<Rightarrow> bool" where
  "is_reestablish_stalled now c \<longleftrightarrow>
     ch_session_v2 c = None \<and>
     (case ch_state c of ChannelReady \<Rightarrow> True
        | ShuttingDown flags \<Rightarrow> \<not> contains flags WAITING_COMMITMENT_CONFIRMATION | _ \<Rightarrow> False) \<and>
     ch_reestablishing c \<and> ch_connectivity_state c = Syncing \<and>
     (case ch_reestablish_started_at c of None \<Rightarrow> False
      | Some started \<Rightarrow> saturating_sub now started > REESTABLISH_TIMEOUT)"

text \<open>\<open>set_waiting_ack\<close> also returns the delay after which the actor checks on the peer again.\<close>

definition set_waiting_ack :: "u64 \<Rightarrow> channel \<Rightarrow> bool \<Rightarrow> (u64 option \<times> channel) chan_res" where
  "set_waiting_ack now c waiting_ack =
     (let c = set_tlc_state c (set_waiting_ack_flag (ch_tlc_state c) waiting_ack) in
      if waiting_ack then
        (case peer_response_wait_v2 c of
           Some started \<Rightarrow>
             bind_res (plus_u (saturating_sub PEER_CHANNEL_RESPONSE_TIMEOUT (saturating_sub now started)) 1)
               (\<lambda>delay. Ok (Some delay, c\<lparr>ch_waiting_peer_response := Some started\<rparr>))
         | None \<Rightarrow> Ok (Some PEER_CHANNEL_RESPONSE_TIMEOUT, c\<lparr>ch_waiting_peer_response := Some now\<rparr>))
      else Ok (None, c\<lparr>ch_waiting_peer_response := None\<rparr>))"

section \<open>Deferred peer updates\<close>

definition start_defer_peer_tlc_updates :: "channel \<Rightarrow> channel" where
  "start_defer_peer_tlc_updates c = c\<lparr>ch_defer_peer_tlc_updates := True\<rparr>"

definition stop_defer_peer_tlc_updates :: "channel \<Rightarrow> channel" where
  "stop_defer_peer_tlc_updates c = c\<lparr>ch_defer_peer_tlc_updates := False\<rparr>"

definition drop_deferred_peer_tlc_updates :: "channel \<Rightarrow> channel" where
  "drop_deferred_peer_tlc_updates c =
     c\<lparr>ch_defer_peer_tlc_updates := False, ch_deferred_peer_tlc_updates := []\<rparr>"

definition max_deferred_peer_tlc_updates :: "channel \<Rightarrow> nat" where
  "max_deferred_peer_tlc_updates c =
     unat (saturating_add (max_tlc_number_in_flight (ch_local_constraints c))
             (max_tlc_number_in_flight (ch_remote_constraints c)))"

definition try_queue_deferred_peer_tlc_update :: "channel \<Rightarrow> deferred_peer_tlc_update \<Rightarrow> channel chan_res" where
  "try_queue_deferred_peer_tlc_update c update =
     (if length (ch_deferred_peer_tlc_updates c) \<ge> max_deferred_peer_tlc_updates c then Err InvalidState
      else Ok (c\<lparr>ch_deferred_peer_tlc_updates := ch_deferred_peer_tlc_updates c @ [update]\<rparr>))"

fun flush_updates ::
  "chain_env \<Rightarrow> hashers \<Rightarrow> u64 \<Rightarrow> deferred_peer_tlc_update list \<Rightarrow> channel \<Rightarrow> (channel \<times> channel_effect list) chan_res" where
  "flush_updates E H now [] c = Ok (c\<lparr>ch_deferred_peer_tlc_updates := []\<rparr>, [])"
| "flush_updates E H now (DeferredAdd m # us) c =
     bind_res (handle_add_tlc_peer_message E now (c\<lparr>ch_deferred_peer_tlc_updates := us\<rparr>) m) (\<lambda>c'.
     flush_updates E H now us c')"
| "flush_updates E H now (DeferredRemove m # us) c =
     bind_res (handle_remove_tlc_peer_message H (c\<lparr>ch_deferred_peer_tlc_updates := us\<rparr>) m) (\<lambda>(c', effects).
     bind_res (flush_updates E H now us c') (\<lambda>(c'', effects'). Ok (c'', effects @ effects')))"

definition flush_deferred_peer_tlc_updates ::
  "chain_env \<Rightarrow> hashers \<Rightarrow> u64 \<Rightarrow> channel \<Rightarrow> (channel \<times> channel_effect list) chan_res" where
  "flush_deferred_peer_tlc_updates E H now c =
     (if ch_defer_peer_tlc_updates c then Ok (c, [])
      else flush_updates E H now (ch_deferred_peer_tlc_updates c) c)"

end
