(* ===== verification/Channel_Funds.thy ===== *)
theory Channel_Funds
  imports Channel_State
begin

text \<open>
  Money: the amounts in flight are always covered by the balance of the side that offered them,
  the total of a channel never changes, no handler panics, and the two outputs and the TLCs of
  every commitment transaction add up to the whole channel.
\<close>

section \<open>Amounts in flight\<close>

definition inflight_sum :: "tlc_info list \<Rightarrow> nat" where
  "inflight_sum ts = (\<Sum>t\<leftarrow>filter (\<lambda>t. \<not> is_fail_remove_confirmed t) ts. unat (ti_amount t))"

abbreviation offered_inflight :: "tlc_state \<Rightarrow> nat" where
  "offered_inflight s \<equiv> inflight_sum (offered_list s)"

abbreviation received_inflight :: "tlc_state \<Rightarrow> nat" where
  "received_inflight s \<equiv> inflight_sum (received_list s)"

definition inflight_count :: "tlc_info list \<Rightarrow> nat" where
  "inflight_count ts = length (filter (\<lambda>t. \<not> is_fail_remove_confirmed t) ts)"

definition total_balance :: "channel \<Rightarrow> nat" where
  "total_balance c = unat (ch_to_local_amount c) + unat (ch_to_remote_amount c)"

definition funds_inv :: "channel \<Rightarrow> bool" where
  "funds_inv c \<longleftrightarrow> tlc_inv (ch_tlc_state c) \<and>
     offered_inflight (ch_tlc_state c) \<le> unat (ch_to_local_amount c) \<and>
     received_inflight (ch_tlc_state c) \<le> unat (ch_to_remote_amount c) \<and>
     inflight_count (offered_list (ch_tlc_state c)) \<le> 125 \<and>
     inflight_count (received_list (ch_tlc_state c)) \<le> 125 \<and>
     total_balance c < 2 ^ 128"

lemma inflight_sum_simps [simp]:
  "inflight_sum [] = 0"
  "inflight_sum (t # ts) = (if is_fail_remove_confirmed t then 0 else unat (ti_amount t)) + inflight_sum ts"
  by (simp_all add: inflight_sum_def)

lemma inflight_count_simps [simp]:
  "inflight_count [] = 0"
  "inflight_count (t # ts) = (if is_fail_remove_confirmed t then 0 else 1) + inflight_count ts"
  "inflight_count (xs @ ys) = inflight_count xs + inflight_count ys"
  by (simp_all add: inflight_count_def)

lemma inflight_sum_append [simp]: "inflight_sum (xs @ ys) = inflight_sum xs + inflight_sum ys"
  by (simp add: inflight_sum_def)

text \<open>\<open>less_inflight xs ys\<close>: the first list holds no more TLCs in flight, and no more value.\<close>

definition less_inflight :: "tlc_info list \<Rightarrow> tlc_info list \<Rightarrow> bool" where
  "less_inflight xs ys \<longleftrightarrow> inflight_sum xs \<le> inflight_sum ys \<and> inflight_count xs \<le> inflight_count ys"

lemma less_inflight_refl [simp]: "less_inflight xs xs"
  by (simp add: less_inflight_def)

lemma less_inflight_filter: "less_inflight (filter P ts) ts"
  by (induction ts) (auto simp: less_inflight_def)

lemma less_inflight_map:
  assumes "\<And>t. t \<in> set ts \<Longrightarrow> ti_amount (f t) = ti_amount t"
    and "\<And>t. t \<in> set ts \<Longrightarrow> is_fail_remove_confirmed t \<Longrightarrow> is_fail_remove_confirmed (f t)"
  shows "less_inflight (map f ts) ts"
  using assms unfolding less_inflight_def by (induction ts) (auto intro: add_le_mono)

lemma inflight_sum_remove:
  assumes "distinct (map ti_tlc_id ts)" and "t \<in> set ts" and "\<not> is_fail_remove_confirmed t"
  shows "inflight_sum (filter (\<lambda>x. ti_tlc_id x \<noteq> ti_tlc_id t) ts) + unat (ti_amount t) = inflight_sum ts"
  using assms
proof (induction ts)
  case (Cons x xs)
  show ?case
  proof (cases "x = t")
    case True
    with Cons.prems have "filter (\<lambda>x. ti_tlc_id x \<noteq> ti_tlc_id t) xs = xs"
      by (auto simp: filter_id_conv image_iff)
    with True Cons.prems show ?thesis by simp
  next
    case False
    with Cons.prems have "ti_tlc_id x \<noteq> ti_tlc_id t" by (auto simp: image_iff)
    with False Cons show ?thesis by simp
  qed
qed simp

lemma sum_amounts_Ok: "sum_amounts ts = Ok r \<longleftrightarrow> unat r = (\<Sum>t\<leftarrow>ts. unat (ti_amount t))"
  by (simp add: sum_amounts_def try_fold_sum)

lemma filter_kind:
  assumes "wf_tlc_state s"
  shows "filter is_received (offered_list s) = []" and "filter is_received (received_list s) = received_list s"
    and "filter is_offered (offered_list s) = offered_list s" and "filter is_offered (received_list s) = []"
  using offered_list_kind [OF assms] by (auto simp: is_received_def filter_empty_conv filter_id_conv)

lemma inflight_lists:
  assumes "wf_tlc_state (ch_tlc_state c)"
  shows "get_inflight_offered_tlcs c = filter (\<lambda>t. \<not> is_fail_remove_confirmed t) (offered_list (ch_tlc_state c))"
    and "get_inflight_received_tlcs c = filter (\<lambda>t. \<not> is_fail_remove_confirmed t) (received_list (ch_tlc_state c))"
  using filter_kind [OF assms]
  by (simp_all add: get_inflight_offered_tlcs_def get_inflight_received_tlcs_def get_all_offer_tlcs_def
      get_all_received_tlcs_def all_tlcs_def)

lemma tlc_balance_Ok:
  assumes "wf_tlc_state (ch_tlc_state c)"
  shows "get_offered_tlc_balance c = Ok r \<longleftrightarrow> unat r = offered_inflight (ch_tlc_state c)"
    and "get_received_tlc_balance c = Ok r \<longleftrightarrow> unat r = received_inflight (ch_tlc_state c)"
  by (simp_all add: get_offered_tlc_balance_def get_received_tlc_balance_def sum_amounts_Ok
      inflight_lists [OF assms] inflight_sum_def)

text \<open>What the limit check guarantees: the new amount is free, the count and the value stay
  within the advertised limits.\<close>

lemma check_tlc_limits_sent:
  assumes "wf_tlc_state (ch_tlc_state c)" and "check_tlc_limits c amount True = Ok u"
  shows "amount \<noteq> 0"
    and "offered_inflight (ch_tlc_state c) + unat amount \<le> unat (ch_to_local_amount c)"
    and "offered_inflight (ch_tlc_state c) + unat amount \<le> unat (max_tlc_value_in_flight (ch_remote_constraints c))"
  using assms
  by (auto simp: check_tlc_limits_def tlc_balance_Ok get_offered_tlc_balance_def [symmetric] rust_arith word_less_nat_alt not_less)

lemma check_tlc_limits_received:
  assumes "wf_tlc_state (ch_tlc_state c)" and "check_tlc_limits c amount False = Ok u"
  shows "amount \<noteq> 0"
    and "received_inflight (ch_tlc_state c) + unat amount \<le> unat (ch_to_remote_amount c)"
    and "received_inflight (ch_tlc_state c) + unat amount \<le> unat (max_tlc_value_in_flight (ch_local_constraints c))"
  using assms
  by (auto simp: check_tlc_limits_def tlc_balance_Ok get_received_tlc_balance_def [symmetric] rust_arith word_less_nat_alt not_less)

section \<open>Ladder steps only release funds\<close>

lemma is_fail_reason_iff: "is_fail_reason r \<longleftrightarrow> (\<exists>p. r = Some (RemoveTlcFail p))"
  by (cases r rule: is_fail_reason.cases) auto

lemma fail_confirmed_ladder:
  "wf_offered t \<Longrightarrow> is_fail_remove_confirmed t \<Longrightarrow> is_fail_remove_confirmed (cs_offered w t)"
  "wf_received t \<Longrightarrow> is_fail_remove_confirmed t \<Longrightarrow> is_fail_remove_confirmed (cs_received w t)"
  "wf_offered t \<Longrightarrow> is_fail_remove_confirmed t \<Longrightarrow> is_fail_remove_confirmed (raa_offered n t)"
  "wf_received t \<Longrightarrow> is_fail_remove_confirmed t \<Longrightarrow> is_fail_remove_confirmed (raa_received n t)"
  by (auto simp: is_fail_remove_confirmed_def cs_offered_def cs_received_def raa_offered_def raa_received_def
      cs_out_def cs_in_def wf_offered_def wf_received_def split: tlc_status.splits)

lemma amount_ladder [simp]:
  "ti_amount (cs_offered w t) = ti_amount t" "ti_amount (cs_received w t) = ti_amount t"
  "ti_amount (raa_offered n t) = ti_amount t" "ti_amount (raa_received n t) = ti_amount t"
  by (simp_all add: cs_offered_def cs_received_def raa_offered_def raa_received_def)

definition releases :: "tlc_state \<Rightarrow> tlc_state \<Rightarrow> bool" where
  "releases s s' \<longleftrightarrow> tlc_inv s' \<and> less_inflight (offered_list s') (offered_list s) \<and>
     less_inflight (received_list s') (received_list s)"

lemma funds_inv_releases:
  assumes "funds_inv c" and "releases (ch_tlc_state c) s'"
  shows "funds_inv (set_tlc_state c s')"
  using assms by (auto simp: funds_inv_def releases_def less_inflight_def set_tlc_state_def total_balance_def)

lemma releases_after_cs: "tlc_inv s \<Longrightarrow> releases s (after_cs s)"
  using wf_offered_list [of s] wf_received_list [of s] tlc_inv_after_cs [of s]
  by (auto simp: releases_def after_cs_def intro!: less_inflight_map intro: fail_confirmed_ladder)

lemma releases_after_raa: "tlc_inv s \<Longrightarrow> releases s (after_raa n s)"
  using wf_offered_list [of s] wf_received_list [of s] tlc_inv_after_raa [of s n]
  by (auto simp: releases_def after_raa_def intro!: less_inflight_map intro: fail_confirmed_ladder)

lemma releases_apply_remove: "tlc_inv s \<Longrightarrow> releases s (apply_remove_tlc s i)"
  using tlc_inv_remove by (auto simp: releases_def apply_remove_tlc_def less_inflight_filter)

lemma releases_waiting_flag: "tlc_inv s \<Longrightarrow> releases s (set_waiting_ack_flag s b)"
  using tlc_step_inv [OF tlc_step.waiting_ack] by (simp add: releases_def set_waiting_ack_flag_def)

lemma less_inflight_modify:
  assumes "wf_tlc_state s" and "get s i = Some t" and "ti_amount (f t) = ti_amount t"
    and "is_fail_remove_confirmed t \<Longrightarrow> is_fail_remove_confirmed (f t)"
  shows "less_inflight (offered_list (modify_tlc s i f)) (offered_list s)"
    and "less_inflight (received_list (modify_tlc s i f)) (received_list s)"
proof -
  have "ti_tlc_id x = i \<Longrightarrow> x \<in> set (offered_list s) \<Longrightarrow> is_offered_id i \<Longrightarrow> x = t"
    "ti_tlc_id x = i \<Longrightarrow> x \<in> set (received_list s) \<Longrightarrow> \<not> is_offered_id i \<Longrightarrow> x = t" for x
    using get_in [OF assms(1), of x] assms(2) by (auto simp: all_tlcs_def)
  then show "less_inflight (offered_list (modify_tlc s i f)) (offered_list s)"
    and "less_inflight (received_list (modify_tlc s i f)) (received_list s)"
    unfolding modify_tlc_wf [OF assms(1,2)] using assms(3,4)
    by (auto intro!: less_inflight_map)
qed

lemma releases_received_removed:
  assumes "tlc_inv s" and "set_received_tlc_removed s i r = Ok (h, s')"
  shows "releases s s'"
  using tlc_inv_wf [OF assms(1)] assms(2)
proof (cases rule: set_received_tlc_removed_OkE)
  case (1 t)
  have "\<not> is_fail_remove_confirmed t"
    using 1(3,4) by (auto simp: is_fail_remove_confirmed_def wf_received_def)
  then show ?thesis
    using less_inflight_modify [OF tlc_inv_wf [OF assms(1)] 1(1)] tlc_inv_received_removed [OF assms] 1(5)
    by (simp add: releases_def)
qed

lemma releases_offered_removed:
  assumes "tlc_inv s" and "set_offered_tlc_removed s i r = Ok (h, s')"
  shows "releases s s'"
  using tlc_inv_wf [OF assms(1)] assms(2)
proof (cases rule: set_offered_tlc_removed_OkE)
  case (1 t)
  have "\<not> is_fail_remove_confirmed t"
    using 1(3,4) by (auto simp: is_fail_remove_confirmed_def wf_offered_def)
  then show ?thesis
    using less_inflight_modify [OF tlc_inv_wf [OF assms(1)] 1(1)] tlc_inv_offered_removed [OF assms] 1(5)
    by (simp add: releases_def)
qed

lemma releases_mark_removed:
  assumes "tlc_inv s" and "get s i = Some t"
  shows "releases s (modify_tlc s i (\<lambda>t. t\<lparr>ti_applied_flags := ti_applied_flags t OR REMOVE\<rparr>))"
proof -
  let ?f = "\<lambda>t. t\<lparr>ti_applied_flags := ti_applied_flags t OR REMOVE\<rparr>"
  have wf: "wf_tlc_state s" using assms(1) by simp
  have "removal_recorded t" using assms get_Some by (auto simp: tlc_inv_def)
  then have "tlc_inv (modify_tlc s i ?f)"
    using get_wf_cases [OF wf assms(2)]
    by (intro tlc_inv_modify [OF assms]) (auto simp: removal_recorded_def wf_offered_def wf_received_def)
  then show ?thesis
    using less_inflight_modify [OF wf assms(2), of ?f] by (simp add: releases_def is_fail_remove_confirmed_def)
qed

section \<open>The handlers\<close>

lemma limits_count:
  assumes "inflight_count ts \<le> 125" and "unat m = unat (word_of_nat (inflight_count ts) :: u64) + 1"
    and "\<not> min k MAX_TLC_NUMBER_IN_FLIGHT < m"
  shows "inflight_count ts + 1 \<le> min (unat k) 125"
proof -
  have "unat (word_of_nat (inflight_count ts) :: u64) = inflight_count ts"
    using assms(1) by (simp add: unat_of_nat take_bit_nat_eq_self)
  with assms(2,3) show ?thesis
    by (auto simp: MAX_TLC_NUMBER_IN_FLIGHT_def word_less_nat_alt word_le_nat_alt min_def split: if_splits)
qed

lemma check_tlc_limits_count:
  assumes "wf_tlc_state (ch_tlc_state c)"
  shows "inflight_count (offered_list (ch_tlc_state c)) \<le> 125 \<Longrightarrow> check_tlc_limits c amount True = Ok u \<Longrightarrow>
      inflight_count (offered_list (ch_tlc_state c)) + 1 \<le> min (unat (max_tlc_number_in_flight (ch_remote_constraints c))) 125"
    and "inflight_count (received_list (ch_tlc_state c)) \<le> 125 \<Longrightarrow> check_tlc_limits c amount False = Ok u \<Longrightarrow>
      inflight_count (received_list (ch_tlc_state c)) + 1 \<le> min (unat (max_tlc_number_in_flight (ch_local_constraints c))) 125"
proof -
  have len: "length (get_inflight_offered_tlcs c) = inflight_count (offered_list (ch_tlc_state c))"
    "length (get_inflight_received_tlcs c) = inflight_count (received_list (ch_tlc_state c))"
    by (simp_all add: inflight_lists [OF assms] inflight_count_def)
  show "inflight_count (offered_list (ch_tlc_state c)) + 1 \<le> min (unat (max_tlc_number_in_flight (ch_remote_constraints c))) 125"
    if "inflight_count (offered_list (ch_tlc_state c)) \<le> 125" "check_tlc_limits c amount True = Ok u"
    using that(2) limits_count [OF that(1)] by (auto simp: check_tlc_limits_def plus_u_eq_Ok len)
  show "inflight_count (received_list (ch_tlc_state c)) + 1 \<le> min (unat (max_tlc_number_in_flight (ch_local_constraints c))) 125"
    if "inflight_count (received_list (ch_tlc_state c)) \<le> 125" "check_tlc_limits c amount False = Ok u"
    using that(2) limits_count [OF that(1)] by (auto simp: check_tlc_limits_def checked_add_eq_Some len)
qed

lemma new_tlc_inflight: "new_tlc t \<Longrightarrow> \<not> is_fail_remove_confirmed t"
  by (auto simp: new_tlc_def is_fail_remove_confirmed_def)

lemma funds_inv_insert:
  assumes "funds_inv c" and "fresh_tlc (ch_tlc_state c) t" and "new_tlc t"
    and "insert_tlc (ch_tlc_state c) t = Ok s'"
    and "is_offered t \<Longrightarrow> offered_inflight (ch_tlc_state c) + unat (ti_amount t) \<le> unat (ch_to_local_amount c) \<and>
           inflight_count (offered_list (ch_tlc_state c)) + 1 \<le> 125"
    and "\<not> is_offered t \<Longrightarrow> received_inflight (ch_tlc_state c) + unat (ti_amount t) \<le> unat (ch_to_remote_amount c) \<and>
           inflight_count (received_list (ch_tlc_state c)) + 1 \<le> 125"
  shows "funds_inv (set_tlc_state c s')"
proof -
  have "tlc_inv s'"
    using assms(1) tlc_inv_insert [OF _ assms(2-4)] by (simp add: funds_inv_def)
  note facts = this assms(1,5,6) new_tlc_inflight [OF assms(3)]
  from assms(4) show ?thesis
  proof (cases rule: insert_tlc_OkE)
    case (offered n)
    with facts show ?thesis by (auto simp: funds_inv_def set_tlc_state_def total_balance_def)
  next
    case (received n)
    with facts show ?thesis by (auto simp: funds_inv_def set_tlc_state_def total_balance_def)
  qed
qed

lemma created_outbound_fresh:
  assumes "create_outbounding_tlc c command = Ok t"
  shows "fresh_tlc (ch_tlc_state c) t" and "new_tlc t" and "is_offered t" and "ti_amount t = ac_amount command"
    and "ti_tlc_id t = Offered (get_next_offering (ch_tlc_state c))"
    and "tlc_terms t = \<lparr>tm_hash_algorithm = ac_hash_algorithm command, tm_amount = ac_amount command,
           tm_payment_hash = ac_payment_hash command, tm_expiry = ac_expiry command\<rparr>"
  using assms
  by (auto simp: create_outbounding_tlc_def fresh_tlc_def new_tlc_def is_offered_def next_tlc_id_def wf_offered_def
      tlc_terms_def Let_def)

lemma created_inbound_fresh:
  assumes "check_insert_tlc c (create_inbounding_tlc c m) = Ok u"
  shows "fresh_tlc (ch_tlc_state c) (create_inbounding_tlc c m)" and "new_tlc (create_inbounding_tlc c m)"
    and "am_tlc_id m = get_next_received (ch_tlc_state c)"
  using assms
  by (auto simp: create_inbounding_tlc_def check_insert_tlc_def fresh_tlc_def new_tlc_def is_offered_def
      next_tlc_id_def wf_received_def)

lemma create_inbounding_fields [simp]:
  "\<not> is_offered (create_inbounding_tlc c m)" "ti_amount (create_inbounding_tlc c m) = am_amount m"
  "ti_tlc_id (create_inbounding_tlc c m) = Received (am_tlc_id m)"
  "tlc_terms (create_inbounding_tlc c m) = \<lparr>tm_hash_algorithm = am_hash_algorithm m, tm_amount = am_amount m,
     tm_payment_hash = am_payment_hash m, tm_expiry = am_expiry m\<rparr>"
  by (simp_all add: create_inbounding_tlc_def is_offered_def tlc_terms_def)

lemma insert_offered: "is_offered t \<Longrightarrow> increment_offering (add_offered_tlc s t) = insert_tlc s t"
  and insert_received: "\<not> is_offered t \<Longrightarrow> increment_received (add_received_tlc s t) = insert_tlc s t"
  by (simp_all add: insert_tlc_def)

lemma set_tlc_state_simps [simp]:
  "ch_tlc_state (set_tlc_state c s) = s" "ch_to_local_amount (set_tlc_state c s) = ch_to_local_amount c"
  "ch_to_remote_amount (set_tlc_state c s) = ch_to_remote_amount c"
  "total_balance (set_tlc_state c s) = total_balance c"
  by (simp_all add: set_tlc_state_def total_balance_def)

lemma replay_update_simps [simp]:
  "ch_tlc_state (record_pending_replay_update c u) = ch_tlc_state c"
  "funds_inv (record_pending_replay_update c u) = funds_inv c"
  "total_balance (record_pending_replay_update c u) = total_balance c"
  by (simp_all add: record_pending_replay_update_def funds_inv_def total_balance_def)

lemma add_tlc_update_OkE:
  assumes "add_tlc_update E lookup now c command = Ok (i, c', effects)"
  obtains t s where "check_for_tlc_update c (AddTlcCommand (ac_amount command)) = Ok ()"
    "create_outbounding_tlc c command = Ok t" "insert_tlc (ch_tlc_state c) t = (Ok s :: tlc_state chan_res)"
    "i = get_next_offering (ch_tlc_state c)" "funds_inv c' = funds_inv (set_tlc_state c s)"
    "total_balance c' = total_balance c" "ch_tlc_state c' = s"
proof -
  from assms obtain t s where *: "check_for_tlc_update c (AddTlcCommand (ac_amount command)) = Ok ()"
    "create_outbounding_tlc c command = Ok t"
    "increment_offering (add_offered_tlc (ch_tlc_state c) t) = (Ok s :: tlc_state chan_res)"
    "i = tlc_id_u64 (ti_tlc_id t)" "\<exists>u. c' = record_pending_replay_update (set_tlc_state c s) u"
    by (auto simp: add_tlc_update_def Let_def)
  with created_outbound_fresh [OF *(2)] show thesis
    by (intro that) (auto simp: insert_offered)
qed

lemma check_for_add:
  "check_for_tlc_update c (AddTlcCommand a) = Ok u \<Longrightarrow> check_tlc_limits c a True = Ok () \<and> \<not> is_waiting_tlc_ack c"
  "check_for_tlc_update c (AddTlcPeer a) = Ok u \<Longrightarrow> check_tlc_limits c a False = Ok ()"
  "check_for_tlc_update c RemoveTlcCommand = Ok u \<Longrightarrow> \<not> is_waiting_tlc_ack c"
  by (simp_all add: check_for_tlc_update_def)

lemma add_tlc_update_inv:
  assumes "funds_inv c" and "add_tlc_update E lookup now c command = Ok (i, c', effects)"
  shows "funds_inv c' \<and> total_balance c' = total_balance c"
  using assms(2)
proof (rule add_tlc_update_OkE)
  fix t s
  assume *: "check_for_tlc_update c (AddTlcCommand (ac_amount command)) = Ok ()"
    "create_outbounding_tlc c command = Ok t" "insert_tlc (ch_tlc_state c) t = (Ok s :: tlc_state chan_res)"
    "funds_inv c' = funds_inv (set_tlc_state c s)" "total_balance c' = total_balance c"
  have wf: "wf_tlc_state (ch_tlc_state c)" and count: "inflight_count (offered_list (ch_tlc_state c)) \<le> 125"
    using assms(1) by (simp_all add: funds_inv_def)
  note t = created_outbound_fresh [OF *(2)]
  have lim: "check_tlc_limits c (ac_amount command) True = Ok ()" using check_for_add(1) [OF *(1)] by simp
  have "funds_inv (set_tlc_state c s)"
    using check_tlc_limits_sent [OF wf lim] check_tlc_limits_count(1) [OF wf count lim] t
    by (intro funds_inv_insert [OF assms(1) t(1,2) *(3)]) auto
  with *(4,5) show ?thesis by simp
qed

lemma handle_add_tlc_peer_message_OkE:
  assumes "handle_add_tlc_peer_message E now c m = Ok c'"
  obtains (replay) t where "get (ch_tlc_state c) (Received (am_tlc_id m)) = Some t" "c' = c"
      "same_replayed_tlc t (create_inbounding_tlc c m)"
  | (fresh) s where "check_for_tlc_update c (AddTlcPeer (am_amount m)) = Ok ()"
      "get (ch_tlc_state c) (Received (am_tlc_id m)) = None"
      "check_insert_tlc c (create_inbounding_tlc c m) = Ok ()"
      "insert_tlc (ch_tlc_state c) (create_inbounding_tlc c m) = (Ok s :: tlc_state chan_res)" "c' = set_tlc_state c s"
  using assms that
  by (auto simp: handle_add_tlc_peer_message_def Let_def insert_received split: option.splits if_splits)

lemma handle_add_tlc_peer_message_inv:
  assumes "funds_inv c" and "handle_add_tlc_peer_message E now c m = Ok c'"
  shows "funds_inv c' \<and> total_balance c' = total_balance c"
  using assms(2)
proof (cases rule: handle_add_tlc_peer_message_OkE)
  case (replay t)
  with assms(1) show ?thesis by simp
next
  case (fresh s)
  have wf: "wf_tlc_state (ch_tlc_state c)" and count: "inflight_count (received_list (ch_tlc_state c)) \<le> 125"
    using assms(1) by (simp_all add: funds_inv_def)
  note lim = check_for_add(2) [OF fresh(1)]
  have "funds_inv (set_tlc_state c s)"
    using check_tlc_limits_received [OF wf lim] check_tlc_limits_count(2) [OF wf count lim]
    by (intro funds_inv_insert [OF assms(1) created_inbound_fresh(1,2) [OF fresh(3)] fresh(4)]) auto
  with fresh(5) show ?thesis by simp
qed

lemma remove_tlc_update_inv:
  assumes "funds_inv c" and "remove_tlc_update H c command = Ok (c', effects)"
  shows "funds_inv c' \<and> total_balance c' = total_balance c"
proof -
  from assms(2) obtain h s where *: "set_received_tlc_removed (ch_tlc_state c) (rc_id command) (rc_reason command) = (Ok (h, s) :: (hash256 \<times> tlc_state) chan_res)"
    "funds_inv c' = funds_inv (set_tlc_state c s)" "total_balance c' = total_balance c"
    by (auto simp: remove_tlc_update_def Let_def)
  have "tlc_inv (ch_tlc_state c)" using assms(1) by (simp add: funds_inv_def)
  then have "funds_inv (set_tlc_state c s)"
    using *(1) assms(1) by (intro funds_inv_releases releases_received_removed)
  with * show ?thesis by simp
qed

lemma handle_remove_tlc_peer_message_inv:
  assumes "funds_inv c" and "handle_remove_tlc_peer_message H c m = Ok (c', effects)"
  shows "funds_inv c' \<and> total_balance c' = total_balance c"
proof -
  from assms(2) obtain h s where *: "set_offered_tlc_removed (ch_tlc_state c) (rm_tlc_id m) (rm_reason m) = (Ok (h, s) :: (hash256 \<times> tlc_state) chan_res)"
    "c' = set_tlc_state c s"
    by (auto simp: handle_remove_tlc_peer_message_def)
  have "tlc_inv (ch_tlc_state c)" using assms(1) by (simp add: funds_inv_def)
  then have "funds_inv (set_tlc_state c s)"
    using *(1) assms(1) by (intro funds_inv_releases releases_offered_removed)
  with * show ?thesis by simp
qed

section \<open>Settled removals\<close>

lemma prune_simps [simp]:
  "ch_tlc_state (prune_remote_commitment_points c) = ch_tlc_state c"
  "ch_to_local_amount (prune_remote_commitment_points c) = ch_to_local_amount c"
  "ch_to_remote_amount (prune_remote_commitment_points c) = ch_to_remote_amount c"
  by (simp_all add: prune_remote_commitment_points_def)

lemma channel_apply_remove_simps [simp]:
  "ch_tlc_state (channel_apply_remove_tlc c i) = apply_remove_tlc (ch_tlc_state c) i"
  "ch_to_local_amount (channel_apply_remove_tlc c i) = ch_to_local_amount c"
  "ch_to_remote_amount (channel_apply_remove_tlc c i) = ch_to_remote_amount c"
  "total_balance (channel_apply_remove_tlc c i) = total_balance c"
  by (simp_all add: channel_apply_remove_tlc_def total_balance_def)

lemma funds_inv_cong:
  assumes "ch_tlc_state c' = ch_tlc_state c" "ch_to_local_amount c' = ch_to_local_amount c"
    "ch_to_remote_amount c' = ch_to_remote_amount c"
  shows "funds_inv c' = funds_inv c"
  using assms by (simp add: funds_inv_def total_balance_def)

lemma channel_apply_remove_inv: "funds_inv c \<Longrightarrow> funds_inv (channel_apply_remove_tlc c i)"
  using funds_inv_releases [OF _ releases_apply_remove, of c i]
    funds_inv_cong [of "channel_apply_remove_tlc c i" "set_tlc_state c (apply_remove_tlc (ch_tlc_state c) i)"]
  by (simp add: funds_inv_def)

lemma clean_up_failed_tlcs_inv:
  assumes "funds_inv c"
  shows "funds_inv (clean_up_failed_tlcs c) \<and> total_balance (clean_up_failed_tlcs c) = total_balance c"
proof -
  have "funds_inv (fold (\<lambda>i c. channel_apply_remove_tlc c i) is c) \<and>
      total_balance (fold (\<lambda>i c. channel_apply_remove_tlc c i) is c) = total_balance c" for "is"
    using assms by (induction "is" arbitrary: c) (auto simp: channel_apply_remove_inv)
  then show ?thesis by (simp add: clean_up_failed_tlcs_def)
qed

lemma mark_removed_inv:
  assumes "funds_inv c" and "get (ch_tlc_state c) i = Some t"
  shows "funds_inv (mark_removed c i)"
  unfolding mark_removed_def
  using assms releases_mark_removed [of "ch_tlc_state c" i t]
  by (intro funds_inv_releases) (simp_all add: funds_inv_def)

text \<open>A TLC that still counts as in flight is covered by the balance of the side that offered it.\<close>

lemma inflight_covers:
  assumes "t \<in> set ts" and "\<not> is_fail_remove_confirmed t"
  shows "unat (ti_amount t) \<le> inflight_sum ts"
  using assms by (induction ts) auto

lemma fulfilled_not_failed: "ti_removed_reason t = Some (RemoveTlcFulfill p) \<Longrightarrow> \<not> is_fail_remove_confirmed t"
  by (simp add: is_fail_remove_confirmed_def)

definition moved_balance :: "channel \<Rightarrow> tlc_info \<Rightarrow> channel" where
  "moved_balance c t = (if is_offered t
     then c\<lparr>ch_to_local_amount := ch_to_local_amount c - ti_amount t, ch_to_remote_amount := ch_to_remote_amount c + ti_amount t\<rparr>
     else c\<lparr>ch_to_local_amount := ch_to_local_amount c + ti_amount t, ch_to_remote_amount := ch_to_remote_amount c - ti_amount t\<rparr>)"

lemma settled_amounts:
  assumes inv: "funds_inv c" and g: "get (ch_tlc_state c) i = Some t"
    and r: "ti_removed_reason t = Some (RemoveTlcFulfill p)"
  shows "is_offered t \<Longrightarrow> checked_sub (ch_to_local_amount c) (ti_amount t) = Some (ch_to_local_amount c - ti_amount t) \<and>
           checked_add (ch_to_remote_amount c) (ti_amount t) = Some (ch_to_remote_amount c + ti_amount t)"
    and "\<not> is_offered t \<Longrightarrow> checked_add (ch_to_local_amount c) (ti_amount t) = Some (ch_to_local_amount c + ti_amount t) \<and>
           checked_sub (ch_to_remote_amount c) (ti_amount t) = Some (ch_to_remote_amount c - ti_amount t)"
    and "total_balance (moved_balance c t) = total_balance c"
proof -
  have wf: "wf_tlc_state (ch_tlc_state c)" using inv by (simp add: funds_inv_def)
  have nf: "\<not> is_fail_remove_confirmed t" using r by (rule fulfilled_not_failed)
  have off: "is_offered t \<Longrightarrow> unat (ti_amount t) \<le> unat (ch_to_local_amount c)"
    using inv g get_wf_cases(4) [OF wf g] inflight_covers [OF _ nf, of "offered_list (ch_tlc_state c)"]
    by (auto simp: funds_inv_def get_def split: if_splits dest!: find_tlc_Some)
  have rec: "\<not> is_offered t \<Longrightarrow> unat (ti_amount t) \<le> unat (ch_to_remote_amount c)"
    using inv g get_wf_cases(4) [OF wf g] inflight_covers [OF _ nf, of "received_list (ch_tlc_state c)"]
    by (auto simp: funds_inv_def get_def split: if_splits dest!: find_tlc_Some)
  have tot: "unat (ch_to_local_amount c) + unat (ch_to_remote_amount c) < 2 ^ 128"
    using inv by (simp add: funds_inv_def total_balance_def)
  show "checked_sub (ch_to_local_amount c) (ti_amount t) = Some (ch_to_local_amount c - ti_amount t) \<and>
      checked_add (ch_to_remote_amount c) (ti_amount t) = Some (ch_to_remote_amount c + ti_amount t)" if "is_offered t"
    using off [OF that] tot by (simp add: checked_sub_def checked_add_def word_le_nat_alt)
  show "checked_add (ch_to_local_amount c) (ti_amount t) = Some (ch_to_local_amount c + ti_amount t) \<and>
      checked_sub (ch_to_remote_amount c) (ti_amount t) = Some (ch_to_remote_amount c - ti_amount t)" if "\<not> is_offered t"
    using rec [OF that] tot by (simp add: checked_sub_def checked_add_def word_le_nat_alt)
  show "total_balance (moved_balance c t) = total_balance c"
    using off rec tot
    by (cases "is_offered t") (simp_all add: moved_balance_def total_balance_def unat_sub word_le_nat_alt unat_add_no_overflow)
qed

lemma remove_tlc_with_reason_eval:
  assumes inv: "funds_inv c" and g: "get (ch_tlc_state c) i = Some t"
    and st: "ti_status t \<in> {Inbound InRemoveAckConfirmed, Outbound OutRemoveAckConfirmed}"
  shows "remove_tlc_with_reason H c i = (case ti_removed_reason t of
      None \<Rightarrow> Panic
    | Some (RemoveTlcFail e) \<Rightarrow> Ok (t, RemoveTlcFail e, c)
    | Some (RemoveTlcFulfill p) \<Rightarrow>
        if ti_payment_hash t = hash_with H (ti_hash_algorithm t) p
        then Ok (t, RemoveTlcFulfill p, channel_apply_remove_tlc (moved_balance c t) i)
        else Err FinalIncorrectPreimage)"
proof -
  have wf: "wf_tlc_state (ch_tlc_state c)" using inv by (simp add: funds_inv_def)
  show ?thesis
    using st settled_amounts [OF inv g]
    by (auto simp: remove_tlc_with_reason_def get_mut_wf [OF wf] g moved_balance_def ensure_def
        split: option.split remove_tlc_reason.split)
qed

lemma moved_balance_state [simp]: "ch_tlc_state (moved_balance c t) = ch_tlc_state c"
  by (simp add: moved_balance_def)

lemma moved_balance_inv:
  assumes inv: "funds_inv c" and g: "get (ch_tlc_state c) i = Some t"
    and r: "ti_removed_reason t = Some (RemoveTlcFulfill p)"
  shows "funds_inv (channel_apply_remove_tlc (moved_balance c t) i)"
proof -
  have wf: "wf_tlc_state (ch_tlc_state c)" using inv by (simp add: funds_inv_def)
  have nf: "\<not> is_fail_remove_confirmed t" using r by (rule fulfilled_not_failed)
  have i: "ti_tlc_id t = i" and k: "is_offered t = is_offered_id i"
    using get_wf_cases [OF wf g] by simp_all
  have rel: "releases (ch_tlc_state c) (apply_remove_tlc (ch_tlc_state c) i)"
    using inv by (intro releases_apply_remove) (simp add: funds_inv_def)
  note amounts = settled_amounts [OF inv g r]
  have "offered_inflight (apply_remove_tlc (ch_tlc_state c) i) \<le> unat (ch_to_local_amount (moved_balance c t)) \<and>
      received_inflight (apply_remove_tlc (ch_tlc_state c) i) \<le> unat (ch_to_remote_amount (moved_balance c t))"
  proof (cases "is_offered t")
    case True
    then have "offered_inflight (apply_remove_tlc (ch_tlc_state c) i) + unat (ti_amount t) = offered_inflight (ch_tlc_state c)"
      using inflight_sum_remove [OF distinct_offered [OF wf] _ nf] g i k
      by (auto simp: apply_remove_tlc_def get_def dest!: find_tlc_Some split: if_splits)
    with True amounts(1) inv rel show ?thesis
      by (auto simp: funds_inv_def moved_balance_def rust_arith releases_def less_inflight_def)
  next
    case False
    then have "received_inflight (apply_remove_tlc (ch_tlc_state c) i) + unat (ti_amount t) = received_inflight (ch_tlc_state c)"
      using inflight_sum_remove [OF distinct_received [OF wf] _ nf] g i k
      by (auto simp: apply_remove_tlc_def get_def dest!: find_tlc_Some split: if_splits)
    with False amounts(2) inv rel show ?thesis
      by (auto simp: funds_inv_def moved_balance_def rust_arith releases_def less_inflight_def)
  qed
  with rel inv amounts(3) show ?thesis
    by (auto simp: funds_inv_def releases_def less_inflight_def)
qed

lemma remove_tlc_with_reason_inv:
  assumes inv: "funds_inv c" and ok: "remove_tlc_with_reason H c i = Ok (t, r, c')"
  shows "funds_inv c' \<and> total_balance c' = total_balance c"
proof -
  have wf: "wf_tlc_state (ch_tlc_state c)" using inv by (simp add: funds_inv_def)
  from ok obtain u r' where g: "get (ch_tlc_state c) i = Some u" and rr: "ti_removed_reason u = Some r'"
    and st: "ti_status u \<in> {Inbound InRemoveAckConfirmed, Outbound OutRemoveAckConfirmed}"
    unfolding remove_tlc_with_reason_def get_mut_wf [OF wf]
    by (auto simp only: bind_res_eq_Ok expect_eq_Ok rust_assert_eq_Ok)
  note eval = remove_tlc_with_reason_eval [OF inv g st, of H]
  show ?thesis
  proof (cases r')
    case (RemoveTlcFulfill p)
    then show ?thesis
      using ok eval rr moved_balance_inv [OF inv g] settled_amounts(3) [OF inv g] by (auto split: if_splits)
  next
    case (RemoveTlcFail e)
    then show ?thesis using ok eval rr inv by simp
  qed
qed

section \<open>Settlement amounts\<close>

datatype settle_class = OfferedPending | OfferedFulfilled | ReceivedPending | ReceivedFulfilled | SettledFailed

definition settle_class :: "bool \<Rightarrow> bool \<Rightarrow> tlc_info \<Rightarrow> settle_class" where
  "settle_class v2 r t =
     (let removed = (if is_offered t then outbound_removed_in_settlement v2 r (out_st (ti_status t))
                     else inbound_removed_in_settlement r (in_st (ti_status t)))
      in if \<not> removed then if is_offered t then OfferedPending else ReceivedPending
         else if is_fail_reason (ti_removed_reason t) then SettledFailed
         else if is_offered t then OfferedFulfilled else ReceivedFulfilled)"

definition class_sum :: "bool \<Rightarrow> bool \<Rightarrow> settle_class \<Rightarrow> tlc_info list \<Rightarrow> nat" where
  "class_sum v2 r k ts = (\<Sum>t\<leftarrow>filter (\<lambda>t. settle_class v2 r t = k) ts. unat (ti_amount t))"

lemma class_sum_simps [simp]:
  "class_sum v2 r k [] = 0"
  "class_sum v2 r k (t # ts) = (if settle_class v2 r t = k then unat (ti_amount t) else 0) + class_sum v2 r k ts"
  "class_sum v2 r k (xs @ ys) = class_sum v2 r k xs + class_sum v2 r k ys"
  by (simp_all add: class_sum_def)

definition bump :: "settle_class \<Rightarrow> u128 \<Rightarrow> settlement_sums \<Rightarrow> settlement_sums chan_res" where
  "bump k a acc = (case k of
       OfferedPending \<Rightarrow> bind_res (checked_add_u128 (ss_offered_pending acc) a) (\<lambda>v. Ok (acc\<lparr>ss_offered_pending := v\<rparr>))
     | OfferedFulfilled \<Rightarrow> bind_res (checked_add_u128 (ss_offered_fulfilled acc) a) (\<lambda>v. Ok (acc\<lparr>ss_offered_fulfilled := v\<rparr>))
     | ReceivedPending \<Rightarrow> bind_res (checked_add_u128 (ss_received_pending acc) a) (\<lambda>v. Ok (acc\<lparr>ss_received_pending := v\<rparr>))
     | ReceivedFulfilled \<Rightarrow> bind_res (checked_add_u128 (ss_received_fulfilled acc) a) (\<lambda>v. Ok (acc\<lparr>ss_received_fulfilled := v\<rparr>))
     | SettledFailed \<Rightarrow> Ok acc)"

definition good_tlc :: "tlc_info \<Rightarrow> bool" where
  "good_tlc t \<longleftrightarrow> removal_recorded t \<and> (if is_offered t then wf_offered t else wf_received t)"

lemma add_to_sums_bump:
  assumes "good_tlc t"
  shows "add_to_sums v2 r acc t = bump (settle_class v2 r t) (ti_amount t) acc"
proof (cases "is_offered t")
  case True
  with assms have w: "wf_offered t" and rr: "removal_recorded t" by (simp_all add: good_tlc_def)
  from w obtain st where st: "ti_status t = Outbound st"
    by (auto simp: wf_offered_def split: tlc_status.splits)
  show ?thesis
  proof (cases "outbound_removed_in_settlement v2 r st")
    case removed: True
    then have "status_removed (ti_status t)" using st by (auto simp: outbound_removed_in_settlement_def)
    then obtain reason where "ti_removed_reason t = Some reason" using rr by (auto simp: removal_recorded_def)
    with True w removed st show ?thesis
      by (cases reason) (simp_all add: add_to_sums_def settle_class_def bump_def)
  qed (use True w st in \<open>simp add: add_to_sums_def settle_class_def bump_def\<close>)
next
  case False
  with assms have w: "wf_received t" and rr: "removal_recorded t" by (simp_all add: good_tlc_def)
  from w obtain st where st: "ti_status t = Inbound st"
    by (auto simp: wf_received_def split: tlc_status.splits)
  show ?thesis
  proof (cases "inbound_removed_in_settlement r st")
    case removed: True
    then have "status_removed (ti_status t)" using st by (auto simp: inbound_removed_in_settlement_def)
    then obtain reason where "ti_removed_reason t = Some reason" using rr by (auto simp: removal_recorded_def)
    with False w removed st show ?thesis
      by (cases reason) (simp_all add: add_to_sums_def settle_class_def bump_def)
  qed (use False w st in \<open>simp add: add_to_sums_def settle_class_def bump_def\<close>)
qed

definition sums_are :: "bool \<Rightarrow> bool \<Rightarrow> tlc_info list \<Rightarrow> settlement_sums \<Rightarrow> settlement_sums \<Rightarrow> bool" where
  "sums_are v2 r ts acc acc' \<longleftrightarrow>
     unat (ss_offered_pending acc') = unat (ss_offered_pending acc) + class_sum v2 r OfferedPending ts \<and>
     unat (ss_offered_fulfilled acc') = unat (ss_offered_fulfilled acc) + class_sum v2 r OfferedFulfilled ts \<and>
     unat (ss_received_pending acc') = unat (ss_received_pending acc) + class_sum v2 r ReceivedPending ts \<and>
     unat (ss_received_fulfilled acc') = unat (ss_received_fulfilled acc) + class_sum v2 r ReceivedFulfilled ts"

lemma bump_Ok:
  "bump (settle_class v2 r t) (ti_amount t) acc = Ok acc' \<Longrightarrow> sums_are v2 r [t] acc acc'"
  by (auto simp: bump_def sums_are_def rust_arith split: settle_class.splits)

lemma sums_are_trans: "sums_are v2 r [t] acc acc1 \<Longrightarrow> sums_are v2 r ts acc1 acc' \<Longrightarrow> sums_are v2 r (t # ts) acc acc'"
  by (auto simp: sums_are_def)

lemma try_fold_sums:
  assumes "\<forall>t\<in>set ts. good_tlc t" and "try_fold (add_to_sums v2 r) acc ts = Ok acc'"
  shows "sums_are v2 r ts acc acc'"
  using assms
proof (induction ts arbitrary: acc)
  case Nil
  then show ?case by (simp add: sums_are_def)
next
  case (Cons t ts)
  from Cons.prems obtain acc1 where acc1: "bump (settle_class v2 r t) (ti_amount t) acc = Ok acc1"
    and "try_fold (add_to_sums v2 r) acc1 ts = Ok acc'"
    by (auto simp: add_to_sums_bump)
  then have "sums_are v2 r ts acc1 acc'" using Cons.IH [of acc1] Cons.prems(1) by simp
  with bump_Ok [OF acc1] show ?case by (rule sums_are_trans)
qed

lemma bump_total:
  assumes "unat (ss_offered_pending acc) + class_sum v2 r OfferedPending [t] < 2 ^ 128"
    and "unat (ss_offered_fulfilled acc) + class_sum v2 r OfferedFulfilled [t] < 2 ^ 128"
    and "unat (ss_received_pending acc) + class_sum v2 r ReceivedPending [t] < 2 ^ 128"
    and "unat (ss_received_fulfilled acc) + class_sum v2 r ReceivedFulfilled [t] < 2 ^ 128"
  shows "\<exists>acc'. bump (settle_class v2 r t) (ti_amount t) acc = Ok acc'"
  using assms by (auto simp: bump_def checked_add_u128_def checked_add_def split: settle_class.splits)

lemma try_fold_sums_total:
  assumes "\<forall>t\<in>set ts. good_tlc t"
    and "unat (ss_offered_pending acc) + class_sum v2 r OfferedPending ts < 2 ^ 128"
    and "unat (ss_offered_fulfilled acc) + class_sum v2 r OfferedFulfilled ts < 2 ^ 128"
    and "unat (ss_received_pending acc) + class_sum v2 r ReceivedPending ts < 2 ^ 128"
    and "unat (ss_received_fulfilled acc) + class_sum v2 r ReceivedFulfilled ts < 2 ^ 128"
  shows "\<exists>acc'. try_fold (add_to_sums v2 r) acc ts = Ok acc'"
  using assms
proof (induction ts arbitrary: acc)
  case (Cons t ts)
  obtain acc1 where acc1: "bump (settle_class v2 r t) (ti_amount t) acc = Ok acc1"
    using bump_total [of acc v2 r t] Cons.prems by auto
  have "\<exists>acc'. try_fold (add_to_sums v2 r) acc1 ts = Ok acc'"
    using bump_Ok [OF acc1] Cons.prems by (intro Cons.IH) (auto simp: sums_are_def)
  with acc1 Cons.prems(1) show ?case by (simp add: add_to_sums_bump)
qed simp

lemma good_tlcs: "tlc_inv s \<Longrightarrow> t \<in> set (offered_list s) \<or> t \<in> set (received_list s) \<Longrightarrow> good_tlc t"
  using wf_offered_list [of s t] wf_received_list [of s t]
  by (auto simp: good_tlc_def tlc_inv_def all_tlcs_def is_offered_def wf_offered_def wf_received_def)

text \<open>The TLCs the settlement looks at.\<close>

definition settled_offered :: "bool \<Rightarrow> tlc_state \<Rightarrow> tlc_info list" where
  "settled_offered r s = filter (\<lambda>t. outbound_in_settlement r (out_st (ti_status t))) (offered_list s)"

definition settled_received :: "bool \<Rightarrow> bool \<Rightarrow> tlc_state \<Rightarrow> tlc_info list" where
  "settled_received v2 r s = filter (\<lambda>t. inbound_in_settlement v2 r (in_st (ti_status t))) (received_list s)"

lemma class_sum_inflight:
  assumes "tlc_inv s"
  shows "class_sum v2 r OfferedPending (settled_offered r s) + class_sum v2 r OfferedFulfilled (settled_offered r s)
           \<le> offered_inflight s"
    and "class_sum v2 r ReceivedPending (settled_received v2 r s) + class_sum v2 r ReceivedFulfilled (settled_received v2 r s)
           \<le> received_inflight s"
proof -
  have cls: "settle_class v2 r t = SettledFailed" if "good_tlc t" "is_fail_remove_confirmed t" for t
    using that
    by (auto simp: is_fail_remove_confirmed_def settle_class_def good_tlc_def outbound_removed_in_settlement_def
        inbound_removed_in_settlement_def wf_offered_def wf_received_def split: if_splits)
  have le: "class_sum v2 r k (filter P ts) + class_sum v2 r k' (filter P ts) \<le> inflight_sum ts"
    if "\<forall>t\<in>set ts. good_tlc t" "k \<noteq> k'" "k \<noteq> SettledFailed" "k' \<noteq> SettledFailed" for k k' P ts
    using that cls by (induction ts) (auto simp: add_le_mono)
  show "class_sum v2 r OfferedPending (settled_offered r s) + class_sum v2 r OfferedFulfilled (settled_offered r s)
      \<le> offered_inflight s"
    unfolding settled_offered_def using good_tlcs [OF assms] by (intro le) auto
  show "class_sum v2 r ReceivedPending (settled_received v2 r s) + class_sum v2 r ReceivedFulfilled (settled_received v2 r s)
      \<le> received_inflight s"
    unfolding settled_received_def using good_tlcs [OF assms] by (intro le) auto
qed

lemma class_sum_other_side:
  "\<forall>t\<in>set ts. is_offered t \<Longrightarrow> class_sum v2 r ReceivedPending ts = 0 \<and> class_sum v2 r ReceivedFulfilled ts = 0"
  "\<forall>t\<in>set ts. \<not> is_offered t \<Longrightarrow> class_sum v2 r OfferedPending ts = 0 \<and> class_sum v2 r OfferedFulfilled ts = 0"
  by (induction ts) (auto simp: settle_class_def Let_def split: if_splits)

definition settlement_reserve :: "channel \<Rightarrow> nat" where
  "settlement_reserve c = (if ch_funding_udt_type_script c = None
     then unat (ch_local_reserved_ckb_amount c) + unat (ch_remote_reserved_ckb_amount c) else 0)"

abbreviation zero_sums :: settlement_sums where
  "zero_sums \<equiv> \<lparr>ss_offered_pending = 0, ss_offered_fulfilled = 0, ss_received_pending = 0, ss_received_fulfilled = 0\<rparr>"

lemma settlement_filters:
  assumes "wf_tlc_state s"
  shows "filter_outbound (outbound_in_settlement r) (offered_list s) = Ok (settled_offered r s)"
    and "filter_inbound (inbound_in_settlement v2 r) (received_list s) = Ok (settled_received v2 r s)"
  using assms by (simp_all add: filter_status_wf settled_offered_def settled_received_def)

lemma settlement_sums:
  assumes "tlc_inv s"
    and "try_fold (add_to_sums v2 r) zero_sums (settled_offered r s @ settled_received v2 r s) = Ok sums"
  shows "unat (ss_offered_pending sums) = class_sum v2 r OfferedPending (settled_offered r s)"
    and "unat (ss_offered_fulfilled sums) = class_sum v2 r OfferedFulfilled (settled_offered r s)"
    and "unat (ss_received_pending sums) = class_sum v2 r ReceivedPending (settled_received v2 r s)"
    and "unat (ss_received_fulfilled sums) = class_sum v2 r ReceivedFulfilled (settled_received v2 r s)"
proof -
  have "\<forall>t\<in>set (settled_offered r s @ settled_received v2 r s). good_tlc t"
    using good_tlcs [OF assms(1)] by (auto simp: settled_offered_def settled_received_def)
  note sums = try_fold_sums [OF this assms(2)]
  have kinds: "\<forall>t\<in>set (settled_offered r s). is_offered t" "\<forall>t\<in>set (settled_received v2 r s). \<not> is_offered t"
    using offered_list_kind [OF tlc_inv_wf [OF assms(1)]] by (auto simp: settled_offered_def settled_received_def)
  show "unat (ss_offered_pending sums) = class_sum v2 r OfferedPending (settled_offered r s)"
    and "unat (ss_offered_fulfilled sums) = class_sum v2 r OfferedFulfilled (settled_offered r s)"
    and "unat (ss_received_pending sums) = class_sum v2 r ReceivedPending (settled_received v2 r s)"
    and "unat (ss_received_fulfilled sums) = class_sum v2 r ReceivedFulfilled (settled_received v2 r s)"
    using sums class_sum_other_side(1) [OF kinds(1)] class_sum_other_side(2) [OF kinds(2)]
    by (simp_all add: sums_are_def)
qed

lemma pending_out_iff:
  assumes "good_tlc t" "is_offered t"
  shows "outbound_in_settlement r (out_st (ti_status t)) \<and> settle_class v2 r t = OfferedPending \<longleftrightarrow>
    out_active v2 r t \<or> \<not> v2 \<and> \<not> r \<and> ti_status t = Outbound RemoveWaitPrevAck"
    and "\<not> (out_active v2 r t \<and> \<not> v2 \<and> \<not> r \<and> ti_status t = Outbound RemoveWaitPrevAck)"
proof -
  from assms obtain st where st: "ti_status t = Outbound st"
    by (auto simp: good_tlc_def wf_offered_def split: tlc_status.splits)
  with assms(2) show "outbound_in_settlement r (out_st (ti_status t)) \<and> settle_class v2 r t = OfferedPending \<longleftrightarrow>
      out_active v2 r t \<or> \<not> v2 \<and> \<not> r \<and> ti_status t = Outbound RemoveWaitPrevAck"
    by (cases st) (auto simp: out_in_def settle_class_def outbound_removed_in_settlement_def Let_def)
  show "\<not> (out_active v2 r t \<and> \<not> v2 \<and> \<not> r \<and> ti_status t = Outbound RemoveWaitPrevAck)"
    by (auto simp: out_in_def)
qed

lemma active_is_pending_in:
  assumes "good_tlc t" "\<not> is_offered t"
  shows "in_active v2 r t \<longleftrightarrow> inbound_in_settlement v2 r (in_st (ti_status t)) \<and> settle_class v2 r t = ReceivedPending"
proof -
  from assms obtain st where "ti_status t = Inbound st"
    by (auto simp: good_tlc_def wf_received_def split: tlc_status.splits)
  with assms show ?thesis
    by (cases st) (auto simp: in_in_def settle_class_def inbound_removed_in_settlement_def Let_def)
qed

abbreviation amounts :: "tlc_info list \<Rightarrow> nat" where
  "amounts ts \<equiv> (\<Sum>t\<leftarrow>ts. unat (ti_amount t))"

lemma amounts_sort [simp]: "amounts (sort_by_id ts) = amounts ts"
proof -
  have "amounts (insort_key k t ts) = unat (ti_amount t) + amounts ts" for k :: "tlc_info \<Rightarrow> u64" and t ts
    by (induction ts) auto
  then show ?thesis by (induction ts) (simp_all add: sort_by_id_def)
qed

lemma amounts_flip [simp]: "amounts (map flip_mut ts) = amounts ts"
  by (simp add: flip_mut_def comp_def)

text \<open>The TLCs of a commitment carry the pending sums, except that a V1 channel leaves one kind out of its own commitment: an
  offered TLC whose removal waits for an earlier acknowledgement is taken off the balance as pending, and is not among the TLCs.\<close>

definition left_out :: "bool \<Rightarrow> bool \<Rightarrow> tlc_state \<Rightarrow> nat" where
  "left_out v2 r s = (if v2 \<or> r then 0 else amounts (filter (\<lambda>t. ti_status t = Outbound RemoveWaitPrevAck) (offered_list s)))"

lemma amounts_filter_disj:
  "(\<And>t. t \<in> set ts \<Longrightarrow> \<not> (P t \<and> Q t)) \<Longrightarrow> amounts (filter (\<lambda>t. P t \<or> Q t) ts) = amounts (filter P ts) + amounts (filter Q ts)"
  by (induction ts) auto

lemma pending_out_amounts:
  assumes "tlc_inv s"
  shows "class_sum v2 r OfferedPending (settled_offered r s) = amounts (filter (out_active v2 r) (offered_list s)) + left_out v2 r s"
proof -
  have good: "good_tlc t \<and> is_offered t" if "t \<in> set (offered_list s)" for t
    using that good_tlcs [OF assms] offered_list_kind(1) [OF tlc_inv_wf [OF assms]] by blast
  let ?Q = "\<lambda>t. \<not> v2 \<and> \<not> r \<and> ti_status t = Outbound RemoveWaitPrevAck"
  have "class_sum v2 r OfferedPending (settled_offered r s) = amounts (filter (\<lambda>t. out_active v2 r t \<or> ?Q t) (offered_list s))"
    unfolding class_sum_def settled_offered_def filter_filter
    by (rule arg_cong [of _ _ amounts], rule filter_cong [OF HOL.refl]) (use good pending_out_iff(1) in blast)
  also have "\<dots> = amounts (filter (out_active v2 r) (offered_list s)) + amounts (filter ?Q (offered_list s))"
    by (rule amounts_filter_disj) (use good pending_out_iff(2) in blast)
  finally show ?thesis by (simp add: left_out_def)
qed

lemma active_amounts:
  assumes "tlc_inv s" and "get_active_tlcs v2 s r = Ok ts"
  shows "amounts ts + left_out v2 r s = class_sum v2 r OfferedPending (settled_offered r s) + class_sum v2 r ReceivedPending (settled_received v2 r s)"
proof -
  have wf: "wf_tlc_state s" using assms(1) by simp
  have "amounts ts = amounts (filter (out_active v2 r) (offered_list s)) + amounts (filter (in_active v2 r) (received_list s))"
    unfolding get_active_tlcs_eq [OF wf assms(2)] order_active_def
    by (cases r) (simp_all add: comp_def flip_mut_def)
  moreover have "filter (in_active v2 r) (received_list s) = filter (\<lambda>t. settle_class v2 r t = ReceivedPending) (settled_received v2 r s)"
    unfolding settled_received_def filter_filter
    using active_is_pending_in good_tlcs [OF assms(1)] offered_list_kind(2) [OF wf]
    by (intro filter_cong) auto
  ultimately show ?thesis using pending_out_amounts [OF assms(1), of v2 r] by (simp add: class_sum_def)
qed

lemma settlement_tlcs_amounts:
  assumes "get_active_tlcs_for_settlement K c r = Ok sts"
  obtains ts where "get_active_tlcs (features_is_v2 (ch_channel_features c)) (ch_tlc_state c) r = (Ok ts :: tlc_info list chan_res)"
    "(\<Sum>t\<leftarrow>sts. unat (st_payment_amount t)) = amounts ts"
proof -
  have *: "traverse_res (\<lambda>t. bind_res (get_tlc_keys K c t) (\<lambda>(local_key, remote_key).
       Ok \<lparr>st_tlc_id = ti_tlc_id t, st_hash_algorithm = ti_hash_algorithm t,
           st_payment_amount = ti_amount t, st_payment_hash = ti_payment_hash t,
           st_expiry = ti_expiry t, st_local_key = local_key, st_remote_key = remote_key\<rparr>)) ts = Ok sts \<Longrightarrow>
     (\<Sum>t\<leftarrow>sts. unat (st_payment_amount t)) = amounts ts" for ts sts
    by (induction ts arbitrary: sts) auto
  from assms that show thesis
    unfolding get_active_tlcs_for_settlement_def bind_res_eq_Ok using * by blast
qed

lemma settlement_value_Ok:
  "settlement_value amount gained pending lost = Ok v \<longleftrightarrow>
     unat amount + unat gained < 2 ^ 128 \<and> unat amount + unat gained = unat pending + unat lost + unat v"
proof
  assume *: "unat amount + unat gained < 2 ^ 128 \<and> unat amount + unat gained = unat pending + unat lost + unat v"
  then have add: "unat (amount + gained) = unat amount + unat gained" by (simp add: unat_add_no_overflow)
  with * have "pending \<le> amount + gained" by (simp add: word_le_nat_alt)
  then have sub: "unat (amount + gained - pending) = unat lost + unat v" using * add by (simp add: unat_sub)
  have "checked_add_u128 amount gained = Ok (amount + gained)" using add by (simp add: checked_u128_Ok)
  moreover have "checked_sub_u128 (amount + gained) pending = Ok (amount + gained - pending)"
    using * add sub by (simp add: checked_u128_Ok)
  moreover have "checked_sub_u128 (amount + gained - pending) lost = Ok v"
    using sub by (simp add: checked_u128_Ok)
  ultimately show "settlement_value amount gained pending lost = Ok v" by (simp add: settlement_value_def)
next
  assume "settlement_value amount gained pending lost = Ok v"
  then obtain a b :: u128 where "unat a = unat amount + unat gained" "unat a = unat pending + unat b" "unat b = unat lost + unat v"
    by (auto simp: settlement_value_def checked_u128_Ok)
  moreover have "unat a < 2 ^ 128" using unat_bound [of a] by simp
  ultimately show "unat amount + unat gained < 2 ^ 128 \<and> unat amount + unat gained = unat pending + unat lost + unat v"
    by simp
qed

lemma build_settlement_data_OkE:
  assumes "tlc_inv (ch_tlc_state c)" and "build_settlement_data K c r = Ok d"
  obtains op ful rp rf ts where
    "op = class_sum (features_is_v2 (ch_channel_features c)) r OfferedPending (settled_offered r (ch_tlc_state c))"
    "rp = class_sum (features_is_v2 (ch_channel_features c)) r ReceivedPending
            (settled_received (features_is_v2 (ch_channel_features c)) r (ch_tlc_state c))"
    "unat (sd_local_amount d) + op + ful = unat (ch_to_local_amount c) + rf +
       (if ch_funding_udt_type_script c = None then unat (ch_local_reserved_ckb_amount c) else 0)"
    "unat (sd_remote_amount d) + rp + rf = unat (ch_to_remote_amount c) + ful +
       (if ch_funding_udt_type_script c = None then unat (ch_remote_reserved_ckb_amount c) else 0)"
    "get_active_tlcs (features_is_v2 (ch_channel_features c)) (ch_tlc_state c) r = (Ok ts :: tlc_info list chan_res)"
    "(\<Sum>t\<leftarrow>sd_tlcs d. unat (st_payment_amount t)) = amounts ts"
proof -
  let ?v2 = "features_is_v2 (ch_channel_features c)" and ?s = "ch_tlc_state c"
  note wf = tlc_inv_wf [OF assms(1)]
  from assms(2) obtain sums l r' where
    sums: "try_fold (add_to_sums ?v2 r) zero_sums (settled_offered r ?s @ settled_received ?v2 r ?s) = Ok sums"
    and l: "settlement_value (ch_to_local_amount c) (ss_received_fulfilled sums) (ss_offered_pending sums)
              (ss_offered_fulfilled sums) = Ok l"
    and r: "settlement_value (ch_to_remote_amount c) (ss_offered_fulfilled sums) (ss_received_pending sums)
              (ss_received_fulfilled sums) = Ok r'"
    and v: "if ch_funding_udt_type_script c = None
            then checked_add_u128 l (u128_from (ch_local_reserved_ckb_amount c)) = Ok (sd_local_amount d) \<and>
                 checked_add_u128 r' (u128_from (ch_remote_reserved_ckb_amount c)) = Ok (sd_remote_amount d)
            else sd_local_amount d = l \<and> sd_remote_amount d = r'"
    and d: "get_active_tlcs_for_settlement K c r = Ok (sd_tlcs d)"
    unfolding build_settlement_data_def Let_def settlement_filters [OF wf]
    by (auto split: if_splits)
  from d obtain ts where "get_active_tlcs ?v2 ?s r = (Ok ts :: tlc_info list chan_res)"
    "(\<Sum>t\<leftarrow>sd_tlcs d. unat (st_payment_amount t)) = amounts ts" by (rule settlement_tlcs_amounts)
  with l r v settlement_sums [OF assms(1) sums] show thesis
    by (intro that [of "unat (ss_offered_pending sums)" "unat (ss_received_pending sums)"
          "unat (ss_offered_fulfilled sums)" "unat (ss_received_fulfilled sums)" ts])
       (auto simp: settlement_value_Ok checked_u128_Ok unat_u128_from split: if_splits)
qed

definition keys_known :: "key_env \<Rightarrow> channel \<Rightarrow> bool" where
  "keys_known K c \<longleftrightarrow> (\<forall>t\<in>set (all_tlcs (ch_tlc_state c)). \<exists>k. get_tlc_keys K c t = Ok k)"

lemma get_tlc_keys_flip [simp]: "get_tlc_keys K c (flip_mut t) = get_tlc_keys K c t"
  by (simp add: get_tlc_keys_def flip_mut_def)

lemma traverse_res_total: "\<forall>x\<in>set xs. \<exists>y. f x = Ok y \<Longrightarrow> \<exists>ys. traverse_res f xs = Ok ys"
  by (induction xs) auto

lemma settlement_tlcs_total:
  assumes "wf_tlc_state (ch_tlc_state c)" and "keys_known K c"
  shows "\<exists>sts. get_active_tlcs_for_settlement K c r = Ok sts"
proof -
  let ?v2 = "features_is_v2 (ch_channel_features c)"
  let ?ts = "order_active r (filter (in_active ?v2 r) (received_list (ch_tlc_state c)))
      (filter (out_active ?v2 r) (offered_list (ch_tlc_state c)))"
  have "\<exists>k. get_tlc_keys K c t = Ok k" if "t \<in> set ?ts" for t
    using that assms(2) by (cases r) (auto simp: order_active_def keys_known_def all_tlcs_def)
  then have "\<exists>ys. traverse_res (\<lambda>t. bind_res (get_tlc_keys K c t) (\<lambda>(local_key, remote_key).
       Ok \<lparr>st_tlc_id = ti_tlc_id t, st_hash_algorithm = ti_hash_algorithm t,
           st_payment_amount = ti_amount t, st_payment_hash = ti_payment_hash t,
           st_expiry = ti_expiry t, st_local_key = local_key, st_remote_key = remote_key\<rparr>)) ?ts = Ok ys"
    by (intro traverse_res_total) fastforce
  then show ?thesis by (simp add: get_active_tlcs_for_settlement_def get_active_tlcs_wf [OF assms(1)])
qed

lemma settlement_value_total:
  assumes "unat pending + unat lost \<le> unat amount" and "unat amount + unat gained < 2 ^ 128"
  shows "\<exists>v. settlement_value amount gained pending lost = Ok v \<and>
             unat v = unat amount + unat gained - unat pending - unat lost"
proof -
  let ?n = "unat amount + unat gained - unat pending - unat lost"
  have "?n < 2 ^ 128" using assms(2) by simp
  then have "unat (word_of_nat ?n :: u128) = ?n" by (simp add: unat_of_nat take_bit_nat_eq_self)
  with assms show ?thesis
    by (intro exI [of _ "word_of_nat ?n"]) (simp add: settlement_value_Ok)
qed

lemma checked_add_u128_total: "unat a + unat b < 2 ^ 128 \<Longrightarrow> \<exists>v. checked_add_u128 a b = Ok v"
  by (simp add: checked_add_u128_def checked_add_def)

lemma build_settlement_data_total:
  assumes inv: "funds_inv c" and keys: "keys_known K c"
    and fits: "total_balance c + settlement_reserve c < 2 ^ 128"
  shows "\<exists>d. build_settlement_data K c r = Ok d"
proof -
  let ?v2 = "features_is_v2 (ch_channel_features c)" and ?s = "ch_tlc_state c"
  have tinv: "tlc_inv ?s" and lo: "offered_inflight ?s \<le> unat (ch_to_local_amount c)"
    and re: "received_inflight ?s \<le> unat (ch_to_remote_amount c)"
    using inv by (simp_all add: funds_inv_def)
  note wf = tlc_inv_wf [OF tinv]
  note le = class_sum_inflight [OF tinv, of ?v2 r]
  have small: "unat (ch_to_local_amount c) < 2 ^ 128" "unat (ch_to_remote_amount c) < 2 ^ 128"
    using unat_bound [of "ch_to_local_amount c"] unat_bound [of "ch_to_remote_amount c"] by simp_all
  have kinds: "\<forall>t\<in>set (settled_offered r ?s). is_offered t" "\<forall>t\<in>set (settled_received ?v2 r ?s). \<not> is_offered t"
    using offered_list_kind [OF wf] by (auto simp: settled_offered_def settled_received_def)
  have good: "\<forall>t\<in>set (settled_offered r ?s @ settled_received ?v2 r ?s). good_tlc t"
    using good_tlcs [OF tinv] by (auto simp: settled_offered_def settled_received_def)
  obtain sums where sums:
    "try_fold (add_to_sums ?v2 r) zero_sums (settled_offered r ?s @ settled_received ?v2 r ?s) = Ok sums"
    using try_fold_sums_total [OF good, of zero_sums ?v2 r] le lo re small
      class_sum_other_side(1) [OF kinds(1), of ?v2 r] class_sum_other_side(2) [OF kinds(2), of ?v2 r] by auto
  note vals = settlement_sums [OF tinv sums]
  obtain l where l: "settlement_value (ch_to_local_amount c) (ss_received_fulfilled sums)
      (ss_offered_pending sums) (ss_offered_fulfilled sums) = Ok l"
    and lv: "unat l \<le> unat (ch_to_local_amount c) + unat (ss_received_fulfilled sums)"
    using settlement_value_total [of "ss_offered_pending sums" "ss_offered_fulfilled sums" "ch_to_local_amount c"
        "ss_received_fulfilled sums"] vals le lo re fits by (fastforce simp: total_balance_def)
  obtain m where m: "settlement_value (ch_to_remote_amount c) (ss_offered_fulfilled sums)
      (ss_received_pending sums) (ss_received_fulfilled sums) = Ok m"
    and mv: "unat m \<le> unat (ch_to_remote_amount c) + unat (ss_offered_fulfilled sums)"
    using settlement_value_total [of "ss_received_pending sums" "ss_received_fulfilled sums" "ch_to_remote_amount c"
        "ss_offered_fulfilled sums"] vals le lo re fits by (fastforce simp: total_balance_def)
  have "\<exists>p. (if ch_funding_udt_type_script c = None
                then bind_res (checked_add_u128 l (u128_from (ch_local_reserved_ckb_amount c))) (\<lambda>l.
                     bind_res (checked_add_u128 m (u128_from (ch_remote_reserved_ckb_amount c))) (\<lambda>r.
                     Ok (l, r)))
                else Ok (l, m)) = Ok p"
    using checked_add_u128_total [of l "u128_from (ch_local_reserved_ckb_amount c)"]
      checked_add_u128_total [of m "u128_from (ch_remote_reserved_ckb_amount c)"] lv mv vals le lo re fits
    by (auto simp: unat_u128_from settlement_reserve_def total_balance_def)
  then show ?thesis
    using sums l m settlement_tlcs_total [OF wf keys, of r]
    by (auto simp: build_settlement_data_def Let_def settlement_filters [OF wf] simp del: bind_res_eq_Ok)
qed

section \<open>Runs of a channel\<close>

text \<open>One rule per handler that touches TLCs or balances.\<close>

inductive chan_step :: "channel \<Rightarrow> channel \<Rightarrow> bool" where
  add: "add_tlc_update E lookup now c command = Ok (i, c', effects) \<Longrightarrow> chan_step c c'"
| add_peer: "handle_add_tlc_peer_message E now c m = Ok c' \<Longrightarrow> chan_step c c'"
| remove: "remove_tlc_update H c rcommand = Ok (c', effects) \<Longrightarrow> chan_step c c'"
| remove_peer: "handle_remove_tlc_peer_message H c rm = Ok (c', effects) \<Longrightarrow> chan_step c c'"
| commitment_signed: "update_for_commitment_signed (ch_tlc_state c) = (Ok (b, s) :: (bool \<times> tlc_state) chan_res) \<Longrightarrow>
    chan_step c (set_tlc_state c s)"
| revoke_and_ack: "update_for_revoke_and_ack (ch_tlc_state c) n = (Ok s :: tlc_state chan_res) \<Longrightarrow>
    chan_step c (set_tlc_state c s)"
| waiting_ack: "chan_step c (set_tlc_state c (set_waiting_ack_flag (ch_tlc_state c) b))"
| settle: "get (ch_tlc_state c) i = Some t0 \<Longrightarrow> remove_tlc_with_reason H (mark_removed c i) i = Ok (t, r, c') \<Longrightarrow> chan_step c c'"
| clean_up: "chan_step c (clean_up_failed_tlcs c)"
| append_point: "chan_step c (append_remote_commitment_point c point)"

lemma chan_step_inv: "chan_step c c' \<Longrightarrow> funds_inv c \<Longrightarrow> funds_inv c' \<and> total_balance c' = total_balance c"
proof (induction rule: chan_step.induct)
  case (commitment_signed c b s)
  then have "releases (ch_tlc_state c) s"
    using releases_after_cs by (auto simp: funds_inv_def update_for_commitment_signed_wf)
  with commitment_signed(2) show ?case by (simp add: funds_inv_releases)
next
  case (revoke_and_ack c n s)
  then have "releases (ch_tlc_state c) s"
    using releases_after_raa by (auto simp: funds_inv_def update_for_revoke_and_ack_wf)
  with revoke_and_ack(2) show ?case by (simp add: funds_inv_releases)
next
  case (waiting_ack c b)
  then have "releases (ch_tlc_state c) (set_waiting_ack_flag (ch_tlc_state c) b)"
    by (intro releases_waiting_flag) (simp add: funds_inv_def)
  with waiting_ack show ?case by (simp add: funds_inv_releases)
next
  case (settle c i t0 H t r c')
  then have "funds_inv (mark_removed c i)" by (intro mark_removed_inv)
  moreover have "total_balance (mark_removed c i) = total_balance c" by (simp add: mark_removed_def)
  ultimately show ?case using remove_tlc_with_reason_inv [OF _ settle(2)] by simp
next
  case (append_point c point)
  then show ?case
    using funds_inv_cong [of "append_remote_commitment_point c point" c]
    by (simp add: append_remote_commitment_point_def total_balance_def)
next
  case (add E lookup now c command i c' effects)
  show ?case by (rule add_tlc_update_inv [OF add(2,1)])
next
  case (add_peer E now c m c')
  show ?case by (rule handle_add_tlc_peer_message_inv [OF add_peer(2,1)])
next
  case (remove H c rcommand c' effects)
  show ?case by (rule remove_tlc_update_inv [OF remove(2,1)])
next
  case (remove_peer H c rm c' effects)
  show ?case by (rule handle_remove_tlc_peer_message_inv [OF remove_peer(2,1)])
next
  case (clean_up c)
  show ?case by (rule clean_up_failed_tlcs_inv [OF clean_up])
qed

inductive chan_run :: "channel \<Rightarrow> channel \<Rightarrow> bool" where
  refl: "chan_run c c"
| step: "chan_run c c' \<Longrightarrow> chan_step c' c'' \<Longrightarrow> chan_run c c''"

lemma chan_run_inv: "chan_run c c' \<Longrightarrow> funds_inv c \<Longrightarrow> funds_inv c' \<and> total_balance c' = total_balance c"
  by (induction rule: chan_run.induct) (auto dest: chan_step_inv)

section \<open>Properties\<close>

text \<open>A ready channel with one received TLC of 5 units, and a key environment.\<close>

definition sample_channel :: "tlc_state \<Rightarrow> u128 \<Rightarrow> u128 \<Rightarrow> channel" where
  "sample_channel s l r = \<lparr>ch_id = 9, ch_state = ChannelReady, ch_is_public = True,
     ch_local_tlc_info = channel_tlc_info_new 0 0 1000 1, ch_remote_tlc_info = None,
     ch_funding_udt_type_script = None, ch_is_acceptor = False, ch_is_one_way = False,
     ch_to_local_amount = l, ch_to_remote_amount = r, ch_local_reserved_ckb_amount = 100,
     ch_remote_reserved_ckb_amount = 100, ch_commitment_fee_rate = 1000, ch_commitment_delay_epoch = 1,
     ch_commitment_numbers = commitment_numbers_new,
     ch_local_constraints = \<lparr>max_tlc_value_in_flight = - 1, max_tlc_number_in_flight = 125\<rparr>,
     ch_remote_constraints = \<lparr>max_tlc_value_in_flight = - 1, max_tlc_number_in_flight = 125\<rparr>,
     ch_tlc_state = s, ch_retryable_tlc_operations = [], ch_waiting_forward_tlc_tasks = Map.empty,
     ch_remote_shutdown_script = Some script_default, ch_local_shutdown_script = script_default,
     ch_last_committed_remote_nonce = None, ch_remote_revocation_nonce_for_verify = Some 1,
     ch_remote_revocation_nonce_for_send = Some 1, ch_remote_revocation_nonce_for_next = None,
     ch_remote_commitment_points = [(0, 77)], ch_local_shutdown_info = None, ch_remote_shutdown_info = None,
     ch_reestablishing = False, ch_pending_replay_updates = [], ch_last_was_revoke = False,
     ch_connectivity_state = Online, ch_channel_features = LEGACY, ch_session_v2 = None,
     ch_waiting_peer_response = None, ch_revocation_nonce_unbalanced_since = None,
     ch_reestablish_started_at = None, ch_defer_peer_tlc_updates = False,
     ch_deferred_peer_tlc_updates = [], ch_local_funding_pubkey = 5, ch_remote_funding_pubkey = 6,
     ch_funding_tx = Some \<lparr>ft_hash = 33, ft_witnesses = []\<rparr>, ch_funding_tx_confirmed_at = Some (1, 0, 2),
     ch_external_funding = \<lparr>ef_enabled = False, ef_signed_submitted = False, ef_funding_lock_script = None\<rparr>,
     ch_last_revoke_ack_msg = None, ch_latest_commitment_transaction = None, ch_shutdown_transaction_hash = None\<rparr>"

definition sample_keys :: key_env where
  "sample_keys = \<lparr>ke_derive_tlc_key = (\<lambda>n. ucast n), ke_derive_remote_tlc_pubkey = (\<lambda>p. Some p)\<rparr>"

lemma sample_channel_inv: "funds_inv (sample_channel sample_table 10 10)"
  using tlc_reachable_inv [OF sample_table_reachable]
  by (simp add: funds_inv_def sample_channel_def total_balance_def)
     (simp add: sample_table_def sample_tlc_def is_fail_remove_confirmed_def)

text \<open>C2. Money is never created or lost by the TLC handlers: along every run (adding and removing
  TLCs by command or by peer message, signing, acknowledging, settling, cleaning up) the sum of
  both balances is constant, the value of the TLCs in flight stays covered by the balance of the
  side that offered them, at most 125 are in flight in each direction, and the table invariant
  holds.\<close>

theorem channel_run_conserves:
  assumes "chan_run c c'" and "funds_inv c"
  shows "total_balance c' = total_balance c \<and> tlc_inv (ch_tlc_state c') \<and>
    offered_inflight (ch_tlc_state c') \<le> unat (ch_to_local_amount c') \<and>
    received_inflight (ch_tlc_state c') \<le> unat (ch_to_remote_amount c') \<and>
    inflight_count (offered_list (ch_tlc_state c')) \<le> 125 \<and>
    inflight_count (received_list (ch_tlc_state c')) \<le> 125"
  using chan_run_inv [OF assms] by (auto simp: funds_inv_def)

theorem channel_run_conserves_witness:
  "\<exists>c'. chan_run (sample_channel sample_table 10 10) c' \<and> c' \<noteq> sample_channel sample_table 10 10 \<and>
        total_balance c' = 20"
proof -
  let ?c = "sample_channel sample_table 10 10"
  let ?c' = "set_tlc_state ?c (set_waiting_ack_flag (ch_tlc_state ?c) True)"
  have run: "chan_run ?c ?c'" by (rule chan_run.step [OF chan_run.refl chan_step.waiting_ack])
  have "total_balance ?c = 20" by (simp add: total_balance_def sample_channel_def)
  moreover have "?c' \<noteq> ?c" by (simp add: set_tlc_state_def sample_channel_def set_waiting_ack_flag_def sample_table_def)
  ultimately show ?thesis using channel_run_conserves [OF run sample_channel_inv] run by metis
qed

text \<open>C3. A commitment transaction accounts for the whole channel: whenever the settlement amounts are
  computed, the two outputs and the TLCs add up to both balances plus the reserves, to the unit, in a V2 channel and for the peer's commitment. In a
  V1 channel's own commitment exactly the offered TLCs whose removal waits for a previous acknowledgement are missing from that
  sum: they are counted as pending, and listed nowhere. The identity holds in every well-formed table.\<close>

theorem settlement_conserves:
  assumes "tlc_inv (ch_tlc_state c)" and "build_settlement_data K c for_remote = Ok d"
  shows "unat (sd_local_amount d) + unat (sd_remote_amount d) + (\<Sum>t\<leftarrow>sd_tlcs d. unat (st_payment_amount t)) +
           left_out (features_is_v2 (ch_channel_features c)) for_remote (ch_tlc_state c) =
         total_balance c + settlement_reserve c"
  using assms(1,2)
proof (rule build_settlement_data_OkE)
  let ?v2 = "features_is_v2 (ch_channel_features c)" and ?s = "ch_tlc_state c"
  fix op ful rp rf ts
  assume "op = class_sum ?v2 for_remote OfferedPending (settled_offered for_remote ?s)"
    "rp = class_sum ?v2 for_remote ReceivedPending (settled_received ?v2 for_remote ?s)"
    "get_active_tlcs ?v2 ?s for_remote = (Ok ts :: tlc_info list chan_res)"
  then have "amounts ts + left_out ?v2 for_remote ?s = op + rp" using active_amounts [OF assms(1)] by simp
  moreover assume "(\<Sum>t\<leftarrow>sd_tlcs d. unat (st_payment_amount t)) = amounts ts"
    "unat (sd_local_amount d) + op + ful = unat (ch_to_local_amount c) + rf +
       (if ch_funding_udt_type_script c = None then unat (ch_local_reserved_ckb_amount c) else 0)"
    "unat (sd_remote_amount d) + rp + rf = unat (ch_to_remote_amount c) + ful +
       (if ch_funding_udt_type_script c = None then unat (ch_remote_reserved_ckb_amount c) else 0)"
  ultimately show ?thesis
    by (cases "ch_funding_udt_type_script c") (simp_all add: total_balance_def settlement_reserve_def)
qed

text \<open>The settlement amounts can always be computed: in a channel whose funds invariant holds,
  whose TLC keys can be derived and whose total with the reserves fits the 128-bit amounts, no
  subtraction underflows, no addition overflows and no recorded reason is missing.\<close>

lemma settlement_total:
  assumes "funds_inv c" and "keys_known K c" and "total_balance c + settlement_reserve c < 2 ^ 128"
  shows "\<exists>d. build_settlement_data K c for_remote = Ok d"
  using assms by (rule build_settlement_data_total)

text \<open>A removal that waits: 5 of the 220 units of the channel are in neither output and in no TLC.\<close>

definition short_table :: tlc_state where
  "short_table = \<lparr>ts_offered = \<lparr>pt_tlcs = [(sample_tlc (Offered 0) (Outbound RemoveWaitPrevAck) 5)\<lparr>ti_removed_reason := Some (RemoveTlcFulfill 3)\<rparr>], pt_next_tlc_id = 1\<rparr>,
     ts_received = \<lparr>pt_tlcs = [], pt_next_tlc_id = 0\<rparr>, ts_waiting_ack = True\<rparr>"

lemma short_channel:
  shows "funds_inv (sample_channel short_table 10 10)" and "keys_known sample_keys (sample_channel short_table 10 10)"
    and "left_out (features_is_v2 (ch_channel_features (sample_channel short_table 10 10))) False (ch_tlc_state (sample_channel short_table 10 10)) = 5"
    and "total_balance (sample_channel short_table 10 10) + settlement_reserve (sample_channel short_table 10 10) = 220"
proof -
  show "funds_inv (sample_channel short_table 10 10)"
    by (simp add: funds_inv_def sample_channel_def short_table_def tlc_inv_def wf_tlc_state_def wf_pending_def wf_offered_def removal_recorded_def status_confirmed_def
        sample_tlc_def all_tlcs_def total_balance_def is_fail_remove_confirmed_def is_offered_def)
  show "keys_known sample_keys (sample_channel short_table 10 10)"
    by (simp add: keys_known_def get_tlc_keys_def sample_keys_def sample_channel_def get_remote_commitment_point_def
      short_table_def all_tlcs_def sample_tlc_def commitment_numbers_new_def INITIAL_COMMITMENT_NUMBER_def)
  show "left_out (features_is_v2 (ch_channel_features (sample_channel short_table 10 10))) False (ch_tlc_state (sample_channel short_table 10 10)) = 5"
    by (simp add: left_out_def sample_channel_def short_table_def sample_tlc_def LEGACY_def features_is_v2_def)
  show "total_balance (sample_channel short_table 10 10) + settlement_reserve (sample_channel short_table 10 10) = 220"
    by (simp add: total_balance_def settlement_reserve_def sample_channel_def)
qed

theorem settlement_conserves_witness:
  "\<exists>d. build_settlement_data sample_keys (sample_channel short_table 10 10) False = Ok d \<and>
       unat (sd_local_amount d) + unat (sd_remote_amount d) + (\<Sum>t\<leftarrow>sd_tlcs d. unat (st_payment_amount t)) + 5 = 220"
proof -
  let ?c = "sample_channel short_table 10 10"
  have "total_balance ?c + settlement_reserve ?c < 2 ^ 128" by (simp add: short_channel(4))
  then obtain d where d: "build_settlement_data sample_keys ?c False = Ok d"
    using build_settlement_data_total [OF short_channel(1,2)] by blast
  have "tlc_inv (ch_tlc_state ?c)" using short_channel(1) by (simp add: funds_inv_def)
  from settlement_conserves [OF this d] d show ?thesis unfolding short_channel by blast
qed

end
