(* ===== verification/Channel_Handlers.thy ===== *)
theory Channel_Handlers
  imports Channel_Funds
begin

text \<open>
  What the channel handlers guarantee beyond the money: the guards an accepted TLC has passed,
  the exact effect of a settled removal, the commitment points that survive pruning, the link
  between the handlers and the two-party protocol, the peer watchdogs and the deferred queue.
\<close>

section \<open>Commitment points\<close>

lemma find_filter_key:
  "n \<in> S \<Longrightarrow> List.find (\<lambda>(k, _). k = n) (filter (\<lambda>(k, _). k \<in> S) xs) = List.find (\<lambda>(k, _). k = n) xs"
  by (induction xs) auto

lemma prune_keeps_point:
  "n \<in> required_points c \<Longrightarrow>
   get_remote_commitment_point (prune_remote_commitment_points c) n = get_remote_commitment_point c n"
  by (simp add: get_remote_commitment_point_def prune_remote_commitment_points_def find_filter_key)

lemma created_at_required: "t \<in> set (all_tlcs (ch_tlc_state c)) \<Longrightarrow> cn_local (ti_created_at t) \<in> required_points c"
  by (auto simp: required_points_def)

lemma keys_prune:
  "t \<in> set (all_tlcs (ch_tlc_state c)) \<Longrightarrow>
   get_tlc_keys K (prune_remote_commitment_points c) t = get_tlc_keys K c t"
  by (simp add: get_tlc_keys_def prune_keeps_point created_at_required)

lemma get_tlc_keys_cong:
  "ch_remote_commitment_points c' = ch_remote_commitment_points c \<Longrightarrow> get_tlc_keys K c' t = get_tlc_keys K c t"
  by (simp add: get_tlc_keys_def get_remote_commitment_point_def)

lemma keys_append:
  assumes "get_tlc_keys K c t = Ok k" and "t \<in> set (all_tlcs (ch_tlc_state c))"
  shows "get_tlc_keys K (append_remote_commitment_point c point) t = Ok k"
proof -
  let ?c = "c\<lparr>ch_remote_commitment_points := ch_remote_commitment_points c @ [(cn_local (ch_commitment_numbers c), point)]\<rparr>"
  have "List.find P (xs @ ys) = Some x" if "List.find P xs = Some x" for P xs ys and x :: "u64 \<times> pubkey"
    using that by (induction xs) (auto split: if_splits)
  then have "get_tlc_keys K ?c t = Ok k"
    using assms(1) by (auto simp: get_tlc_keys_def get_remote_commitment_point_def)
  then show ?thesis
    using keys_prune [of t ?c] assms(2) by (simp add: append_remote_commitment_point_def)
qed

section \<open>From handlers to protocol steps\<close>

lemma insert_tlc_any_error:
  "insert_tlc s t = (Ok s' :: (tlc_state, 'e) res) \<Longrightarrow> insert_tlc s t = (Ok s' :: (tlc_state, 'f) res)"
  by (auto simp: insert_tlc_def increment_offering_def increment_received_def increment_next_id_def plus_u_def split: if_splits)

lemma set_received_tlc_removed_any_error:
  "set_received_tlc_removed s i r = (Ok x :: (hash256 \<times> tlc_state, 'e) res) \<Longrightarrow>
   set_received_tlc_removed s i r = (Ok x :: (hash256 \<times> tlc_state, 'f) res)"
  by (auto simp: set_received_tlc_removed_def inbound_status_def elim!: as_inbound_status.elims)

lemma set_offered_tlc_removed_any_error:
  "set_offered_tlc_removed s i r = (Ok x :: (hash256 \<times> tlc_state, 'e) res) \<Longrightarrow>
   set_offered_tlc_removed s i r = (Ok x :: (hash256 \<times> tlc_state, 'f) res)"
  by (auto simp: set_offered_tlc_removed_def outbound_status_def elim!: as_outbound_status.elims)

lemma not_waiting: "\<not> is_waiting_tlc_ack c \<Longrightarrow> \<not> ts_waiting_ack (ch_tlc_state c)"
  by (auto simp: is_waiting_tlc_ack_def split: if_splits)

text \<open>The two messages as the protocol sees them.\<close>

definition add_wire :: "add_tlc_msg \<Rightarrow> peer_msg" where
  "add_wire m = AddTlc (am_tlc_id m) \<lparr>tm_hash_algorithm = am_hash_algorithm m, tm_amount = am_amount m,
     tm_payment_hash = am_payment_hash m, tm_expiry = am_expiry m\<rparr>"

definition remove_wire :: "remove_tlc_msg \<Rightarrow> peer_msg" where
  "remove_wire m = RemoveTlc (rm_tlc_id m) (rm_reason m)"

lemma add_tlc_update_sends:
  assumes "add_tlc_update E lookup now c command = Ok (i, c', effects)"
  obtains m where "am_channel_id m = ch_id c" "am_tlc_id m = i" "am_onion_packet m = ac_onion_packet command"
    "add_wire m = AddTlc i \<lparr>tm_hash_algorithm = ac_hash_algorithm command, tm_amount = ac_amount command,
       tm_payment_hash = ac_payment_hash command, tm_expiry = ac_expiry command\<rparr>"
    "ch_pending_replay_updates c' = ch_pending_replay_updates c @ [ReplayAdd m]"
    "effects = (if ch_session_v2 c = None then [SendAddTlc m] else [])"
proof -
  let ?m = "\<lparr>am_channel_id = ch_id c, am_tlc_id = i, am_amount = ac_amount command, am_payment_hash = ac_payment_hash command,
    am_expiry = ac_expiry command, am_hash_algorithm = ac_hash_algorithm command, am_onion_packet = ac_onion_packet command\<rparr>"
  have "ch_pending_replay_updates c' = ch_pending_replay_updates c @ [ReplayAdd ?m]" "effects = (if ch_session_v2 c = None then [SendAddTlc ?m] else [])"
    using assms by (auto simp: add_tlc_update_def Let_def record_pending_replay_update_def set_tlc_state_def)
  then show thesis by (intro that [of ?m]) (simp_all add: add_wire_def)
qed

lemma remove_tlc_update_sends:
  assumes "remove_tlc_update H c command = Ok (c', effects)"
  obtains m kept where "rm_channel_id m = ch_id c" "remove_wire m = RemoveTlc (rc_id command) (rc_reason command)"
    "ch_pending_replay_updates c' = ch_pending_replay_updates c @ [ReplayRemove m]"
    "effects = kept @ (if ch_session_v2 c = None then [SendRemoveTlc m] else [])" "\<forall>x. SendRemoveTlc x \<notin> set kept"
proof -
  let ?m = "\<lparr>rm_channel_id = ch_id c, rm_tlc_id = rc_id command, rm_reason = rc_reason command\<rparr>"
  from assms obtain h where "ch_pending_replay_updates c' = ch_pending_replay_updates c @ [ReplayRemove ?m]"
    "effects = ((case rc_reason command of RemoveTlcFulfill p \<Rightarrow> [StorePreimage h p] | _ \<Rightarrow> []) @ [RemovePaymentHoldTlc h (ch_id c) (rc_id command)]) @
       (if ch_session_v2 c = None then [SendRemoveTlc ?m] else [])"
    by (auto simp: remove_tlc_update_def Let_def record_pending_replay_update_def set_tlc_state_def)
  then show thesis by (intro that [of ?m]) (auto simp: remove_wire_def split: remove_tlc_reason.splits)
qed

lemma add_tlc_update_party_step:
  assumes "add_tlc_update E lookup now c command = Ok (i, c', effects)"
  shows "party_step v2 (ch_tlc_state c) None
    [AddTlc i \<lparr>tm_hash_algorithm = ac_hash_algorithm command, tm_amount = ac_amount command,
       tm_payment_hash = ac_payment_hash command, tm_expiry = ac_expiry command\<rparr>] (ch_tlc_state c')"
  using assms
proof (rule add_tlc_update_OkE)
  fix t s
  assume *: "check_for_tlc_update c (AddTlcCommand (ac_amount command)) = Ok ()"
    "create_outbounding_tlc c command = Ok t" "insert_tlc (ch_tlc_state c) t = (Ok s :: tlc_state chan_res)"
    "i = get_next_offering (ch_tlc_state c)" "ch_tlc_state c' = s"
  note t = created_outbound_fresh [OF *(2)]
  show ?thesis
    using party_step.add_tlc [OF not_waiting t(1,2,5) insert_tlc_any_error [OF *(3)], of v2] check_for_add(1) [OF *(1)] *(4,5) t(6)
    by simp
qed

lemma handle_add_tlc_peer_message_party_step:
  assumes "handle_add_tlc_peer_message E now c m = Ok c'"
    and "get (ch_tlc_state c) (Received (am_tlc_id m)) = None"
  shows "party_step v2 (ch_tlc_state c) (Some (add_wire m)) [] (ch_tlc_state c')"
  using assms(1)
proof (cases rule: handle_add_tlc_peer_message_OkE)
  case (replay t)
  with assms(2) show ?thesis by simp
next
  case (fresh s)
  show ?thesis
    using party_step.recv_add_tlc [OF created_inbound_fresh(1,2) [OF fresh(3)] _ insert_tlc_any_error [OF fresh(4)],
        of "am_tlc_id m" v2] fresh(5)
    by (simp add: add_wire_def)
qed

lemma check_remove_Ok:
  assumes "wf_tlc_state (ch_tlc_state c)" and "check_remove_tlc_with_reason H c i reason = Ok u"
  obtains t where "get (ch_tlc_state c) i = Some t" "ti_removed_reason t = None"
    "ti_status t = (if is_offered_id i then Outbound OutCommitted else Inbound InCommitted)"
    "\<And>p. reason = RemoveTlcFulfill p \<Longrightarrow> ti_payment_hash t = hash_with H (ti_hash_algorithm t) p"
proof -
  from assms(2) obtain t where t: "get (ch_tlc_state c) i = Some t" and rest: "ti_removed_reason t = None"
    "if is_offered t then \<exists>st. outbound_status t = (Ok st :: outbound_tlc_status chan_res) \<and> st = OutCommitted
     else \<exists>st. inbound_status t = (Ok st :: inbound_tlc_status chan_res) \<and> st = InCommitted"
    "\<And>p. reason = RemoveTlcFulfill p \<Longrightarrow> ti_payment_hash t = hash_with H (ti_hash_algorithm t) p"
    by (auto simp: check_remove_tlc_with_reason_def split: option.splits if_splits remove_tlc_reason.splits)
  with get_wf_cases [OF assms(1) t] that show thesis
    by (auto simp: wf_offered_def wf_received_def split: if_splits tlc_status.splits)
qed

lemma remove_tlc_update_party_step:
  assumes "wf_tlc_state (ch_tlc_state c)" and "remove_tlc_update H c command = Ok (c', effects)"
  shows "party_step v2 (ch_tlc_state c) None [RemoveTlc (rc_id command) (rc_reason command)] (ch_tlc_state c')"
proof -
  from assms(2) obtain h s where *: "check_for_tlc_update c RemoveTlcCommand = Ok ()"
    "check_remove_tlc_with_reason H c (Received (rc_id command)) (rc_reason command) = Ok ()"
    "set_received_tlc_removed (ch_tlc_state c) (rc_id command) (rc_reason command) = (Ok (h, s) :: (hash256 \<times> tlc_state) chan_res)"
    "ch_tlc_state c' = s"
    by (auto simp: remove_tlc_update_def Let_def)
  from check_remove_Ok [OF assms(1) *(2)] obtain t where
    "get (ch_tlc_state c) (Received (rc_id command)) = Some t" "ti_status t = Inbound InCommitted" by auto
  then show ?thesis
    using party_step.remove_tlc [OF not_waiting _ _ set_received_tlc_removed_any_error [OF *(3)]]
      check_for_add(3) [OF *(1)] *(4) by simp
qed

lemma handle_remove_tlc_peer_message_party_step:
  assumes "wf_tlc_state (ch_tlc_state c)" and "handle_remove_tlc_peer_message H c m = Ok (c', effects)"
  shows "party_step v2 (ch_tlc_state c) (Some (remove_wire m)) [] (ch_tlc_state c')"
proof -
  from assms(2) obtain h s where *:
    "check_remove_tlc_with_reason H c (Offered (rm_tlc_id m)) (rm_reason m) = Ok ()"
    "set_offered_tlc_removed (ch_tlc_state c) (rm_tlc_id m) (rm_reason m) = (Ok (h, s) :: (hash256 \<times> tlc_state) chan_res)"
    "ch_tlc_state c' = s"
    by (auto simp: handle_remove_tlc_peer_message_def)
  from check_remove_Ok [OF assms(1) *(1)] obtain t where
    "get (ch_tlc_state c) (Offered (rm_tlc_id m)) = Some t" "ti_status t = Outbound OutCommitted" by auto
  then show ?thesis
    using party_step.recv_remove_tlc [OF _ _ set_offered_tlc_removed_any_error [OF *(2)]] *(3) by (simp add: remove_wire_def)
qed

lemma keys_known_apply_remove: "keys_known K c \<Longrightarrow> keys_known K (channel_apply_remove_tlc c i)"
proof -
  let ?c = "c\<lparr>ch_tlc_state := apply_remove_tlc (ch_tlc_state c) i,
    ch_waiting_forward_tlc_tasks := (ch_waiting_forward_tlc_tasks c)(i := None)\<rparr>"
  have "set (all_tlcs (apply_remove_tlc (ch_tlc_state c) i)) \<subseteq> set (all_tlcs (ch_tlc_state c))"
    by (auto simp: all_tlcs_def apply_remove_tlc_def)
  moreover have "get_tlc_keys K ?c t = get_tlc_keys K c t" for t by (rule get_tlc_keys_cong) simp
  ultimately show "keys_known K c \<Longrightarrow> keys_known K (channel_apply_remove_tlc c i)"
    by (auto simp: keys_known_def channel_apply_remove_tlc_def keys_prune)
qed

lemma keys_known_append: "keys_known K c \<Longrightarrow> keys_known K (append_remote_commitment_point c point)"
  using keys_append by (fastforce simp: keys_known_def append_remote_commitment_point_def)

lemma keys_known_clean_up: "keys_known K c \<Longrightarrow> keys_known K (clean_up_failed_tlcs c)"
proof -
  have "keys_known K c \<Longrightarrow> keys_known K (fold (\<lambda>i c. channel_apply_remove_tlc c i) is c)" for "is"
    by (induction "is" arbitrary: c) (auto simp: keys_known_apply_remove)
  then show "keys_known K c \<Longrightarrow> keys_known K (clean_up_failed_tlcs c)" by (simp add: clean_up_failed_tlcs_def)
qed

section \<open>What an accepted TLC has passed\<close>

lemma check_tlc_expiry_Ok:
  assumes "check_tlc_expiry E now c expiry = Ok u"
  shows "unat now + unat MIN_TLC_EXPIRY_DELTA < unat expiry"
    "unat now + unat (env_tlc_expiry_delay E (env_epoch_from_full_value E (ch_commitment_delay_epoch c))) \<le> unat expiry"
    "unat expiry < unat now + unat MAX_PAYMENT_TLC_EXPIRY_LIMIT"
  using assms by (auto simp: check_tlc_expiry_def Let_def rust_arith word_le_nat_alt word_less_nat_alt not_le not_less)

lemma check_tlc_forward_amount_Ok:
  assumes "check_tlc_forward_amount c amount fee = Ok u"
  shows "cti_tlc_minimum_value (ch_local_tlc_info c) \<le> amount"
    and "fee = Some f \<Longrightarrow> ceil_div (unat (cti_tlc_fee_proportional_millionths (ch_local_tlc_info c)) * unat amount) 1000000 \<le> unat f"
proof -
  show "cti_tlc_minimum_value (ch_local_tlc_info c) \<le> amount"
    using assms by (auto simp: check_tlc_forward_amount_def Let_def not_less split: if_splits)
next
  assume "fee = Some f"
  with assms obtain e where "calculate_tlc_forward_fee amount (cti_tlc_fee_proportional_millionths (ch_local_tlc_info c)) = Ok e" "e \<le> f"
    by (auto simp: check_tlc_forward_amount_def Let_def split: if_splits res.splits)
  then show "ceil_div (unat (cti_tlc_fee_proportional_millionths (ch_local_tlc_info c)) * unat amount) 1000000 \<le> unat f"
    by (simp add: calculate_tlc_forward_fee_def calculate_fee_with_base_Ok word_le_nat_alt)
qed

text \<open>A received TLC of another (or the same) channel that backs a forwarded one.\<close>

definition backed_by :: "(hash256 \<Rightarrow> channel option) \<Rightarrow> channel \<Rightarrow> add_tlc_command \<Rightarrow> prev_tlc_info \<Rightarrow> bool" where
  "backed_by lookup current command prev \<longleftrightarrow>
     (\<exists>stored t. lookup (prev_channel_id prev) = Some stored \<and>
        get (ch_tlc_state (if prev_channel_id prev = ch_id current then current else stored)) (Received (prev_tlc_id prev)) = Some t \<and>
        ti_payment_hash t = ac_payment_hash command \<and> ti_hash_algorithm t = ac_hash_algorithm command \<and>
        ti_removed_reason t = None \<and> ti_forwarding_tlc t = None)"

lemma not_Some_pair: "(\<forall>a b. x \<noteq> Some (a, b)) \<longleftrightarrow> x = None"
  by (cases x) auto

lemma check_add_tlc_consistent_Ok:
  assumes "check_add_tlc_consistent lookup command c = Ok u" and "ac_previous_tlc command = Some prev"
  shows "backed_by lookup c command prev"
    and "\<forall>t\<in>set (offered_list (ch_tlc_state c)). ti_forwarding_tlc t \<noteq> Some (prev_channel_id prev, prev_tlc_id prev)"
  using assms by (auto simp: check_add_tlc_consistent_def backed_by_def Let_def not_Some_pair
      split: option.splits if_splits)

lemma add_tlc_update_guards:
  assumes "add_tlc_update E lookup now c command = Ok (i, c', effects)"
  shows "check_for_tlc_update c (AddTlcCommand (ac_amount command)) = Ok ()"
    "check_tlc_expiry E now c (ac_expiry command) = Ok ()"
    "check_tlc_forward_amount c (ac_amount command) (map_option forwarding_fee (ac_previous_tlc command)) = Ok ()"
    "check_add_tlc_consistent lookup command c = Ok ()"
  using assms by (auto simp: add_tlc_update_def)

lemma check_for_add_state:
  assumes "check_for_tlc_update c (AddTlcCommand a) = Ok u"
  shows "ch_state c = ChannelReady" "cti_enabled (ch_local_tlc_info c)" "can_be_tlc_sender c" "a \<noteq> 0" "\<not> ch_reestablishing c"
  using assms by (auto simp: check_for_tlc_update_def tlc_update_state_ok_def check_tlc_limits_def split: channel_state.splits)

lemma add_tlc_update_get:
  assumes "wf_tlc_state (ch_tlc_state c)" and "add_tlc_update E lookup now c command = Ok (i, c', effects)"
  shows "\<exists>t. create_outbounding_tlc c command = Ok t \<and> get (ch_tlc_state c') = (get (ch_tlc_state c))(Offered i \<mapsto> t)"
  using assms(2)
proof (rule add_tlc_update_OkE)
  fix t s
  assume *: "create_outbounding_tlc c command = Ok t" "insert_tlc (ch_tlc_state c) t = (Ok s :: tlc_state chan_res)"
    "i = get_next_offering (ch_tlc_state c)" "ch_tlc_state c' = s"
  note t = created_outbound_fresh [OF *(1)]
  have "get s = (get (ch_tlc_state c))(ti_tlc_id t \<mapsto> t)"
    by (rule tt.ins_lookup [OF assms(1) t(1) insert_tlc_any_error [OF *(2)]])
  moreover have "ti_tlc_id t = Offered i" using *(1,3) by (auto simp: create_outbounding_tlc_def Let_def)
  ultimately show ?thesis using * by auto
qed

text \<open>C29. Every TLC a node offers has passed all the guards: the channel is ready, enabled, allows
  this direction and is not waiting for the peer; the amount is positive and at least the
  advertised minimum; the expiry lies in the permitted window; and for a forwarded payment the fee
  is at least the ceiling of the advertised rate and a live, not yet forwarded received TLC with
  the same hash backs it. The new TLC is stored under the returned identifier and nothing else in
  the table changes.\<close>

theorem offered_tlc_guarded:
  assumes "wf_tlc_state (ch_tlc_state c)" and "add_tlc_update E lookup now c command = Ok (i, c', effects)"
  shows "ch_state c = ChannelReady \<and> cti_enabled (ch_local_tlc_info c) \<and> can_be_tlc_sender c \<and> \<not> is_waiting_tlc_ack c \<and>
    0 < unat (ac_amount command) \<and> unat (cti_tlc_minimum_value (ch_local_tlc_info c)) \<le> unat (ac_amount command) \<and>
    unat now + unat MIN_TLC_EXPIRY_DELTA < unat (ac_expiry command) \<and>
    unat (ac_expiry command) < unat now + unat MAX_PAYMENT_TLC_EXPIRY_LIMIT \<and>
    (\<forall>prev. ac_previous_tlc command = Some prev \<longrightarrow> backed_by lookup c command prev \<and>
       ceil_div (unat (cti_tlc_fee_proportional_millionths (ch_local_tlc_info c)) * unat (ac_amount command)) 1000000
         \<le> unat (forwarding_fee prev)) \<and>
    (\<exists>t. get (ch_tlc_state c') = (get (ch_tlc_state c))(Offered i \<mapsto> t) \<and>
         ti_amount t = ac_amount command \<and> ti_expiry t = ac_expiry command \<and>
         ti_payment_hash t = ac_payment_hash command \<and> ti_status t = Outbound LocalAnnounced)"
proof (intro conjI allI impI)
  note g = add_tlc_update_guards [OF assms(2)]
  show "ch_state c = ChannelReady" "cti_enabled (ch_local_tlc_info c)" "can_be_tlc_sender c"
    using check_for_add_state [OF g(1)] by simp_all
  show "0 < unat (ac_amount command)" using check_for_add_state(4) [OF g(1)] unat_gt_0 by blast
  show "\<not> is_waiting_tlc_ack c" using check_for_add(1) [OF g(1)] by simp
  show "unat (cti_tlc_minimum_value (ch_local_tlc_info c)) \<le> unat (ac_amount command)"
    using check_tlc_forward_amount_Ok(1) [OF g(3)] by (simp add: word_le_nat_alt)
  show "unat now + unat MIN_TLC_EXPIRY_DELTA < unat (ac_expiry command)"
    "unat (ac_expiry command) < unat now + unat MAX_PAYMENT_TLC_EXPIRY_LIMIT"
    using check_tlc_expiry_Ok [OF g(2)] by simp_all
  fix prev assume prev: "ac_previous_tlc command = Some prev"
  show "backed_by lookup c command prev" using check_add_tlc_consistent_Ok(1) [OF g(4) prev] .
  show "ceil_div (unat (cti_tlc_fee_proportional_millionths (ch_local_tlc_info c)) * unat (ac_amount command)) 1000000
      \<le> unat (forwarding_fee prev)"
    using check_tlc_forward_amount_Ok(2) [OF g(3)] prev by simp
next
  from add_tlc_update_get [OF assms] show "\<exists>t. get (ch_tlc_state c') = (get (ch_tlc_state c))(Offered i \<mapsto> t) \<and>
      ti_amount t = ac_amount command \<and> ti_expiry t = ac_expiry command \<and>
      ti_payment_hash t = ac_payment_hash command \<and> ti_status t = Outbound LocalAnnounced"
    by (auto simp: create_outbounding_tlc_def Let_def)
qed

definition sample_add :: add_tlc_command where
  "sample_add = \<lparr>ac_amount = 3, ac_payment_hash = 7, ac_attempt_id = None, ac_expiry = 20000000,
     ac_hash_algorithm = CkbHash, ac_onion_packet = None, ac_shared_secret = 0, ac_is_trampoline_hop = False,
     ac_previous_tlc = Some \<lparr>prev_channel_id = 9, prev_tlc_id = 0, forwarding_fee = 1, prev_shared_secret = None\<rparr>\<rparr>"

lemmas sample_eval = sample_channel_def sample_table_def sample_tlc_def sample_env_def sample_add_def channel_tlc_info_new_def
  can_be_tlc_sender_def can_be_tlc_receiver_def tlc_update_state_ok_def is_waiting_tlc_ack_def
  get_inflight_offered_tlcs_def get_inflight_received_tlcs_def get_all_offer_tlcs_def get_all_received_tlcs_def
  get_offered_tlc_balance_def get_received_tlc_balance_def sum_amounts_def all_tlcs_def is_offered_def is_received_def
  is_fail_remove_confirmed_def checked_add_u128_def checked_add_def checked_sub_def plus_u_def
  MAX_TLC_NUMBER_IN_FLIGHT_def MIN_TLC_EXPIRY_DELTA_def MAX_PAYMENT_TLC_EXPIRY_LIMIT_def
  DEFAULT_COMMITMENT_DELAY_EPOCHS_def MILLI_SECONDS_PER_EPOCH_def

lemma sample_guard: "check_for_tlc_update (sample_channel sample_table 10 10) (AddTlcCommand 3) = Ok ()"
  by (simp add: check_for_tlc_update_def check_tlc_limits_def sample_eval)

lemma sample_expiry: "check_tlc_expiry sample_env 1000000 (sample_channel sample_table 10 10) 20000000 = Ok ()"
  by (simp add: check_tlc_expiry_def sample_eval)

lemma sample_forward: "check_tlc_forward_amount (sample_channel sample_table 10 10) 3 (Some 1) = Ok ()"
proof -
  have "calculate_tlc_forward_fee 3 1000 = Ok 1"
    by (simp add: calculate_tlc_forward_fee_def calculate_fee_with_base_Ok ceil_div_def)
  then show ?thesis by (simp add: check_tlc_forward_amount_def sample_eval)
qed

lemma sample_backed:
  "check_add_tlc_consistent (\<lambda>_. Some (sample_channel sample_table 10 10)) sample_add (sample_channel sample_table 10 10) = Ok ()"
  by (simp add: check_add_tlc_consistent_def sample_eval get_def find_tlc_def)

lemma sample_add_fields: "ac_amount sample_add = 3" "ac_expiry sample_add = 20000000"
  "map_option forwarding_fee (ac_previous_tlc sample_add) = Some 1"
  by (simp_all add: sample_add_def)

lemma sample_channel_accepts:
  "\<exists>c' effects. add_tlc_update sample_env (\<lambda>_. Some (sample_channel sample_table 10 10)) 1000000
     (sample_channel sample_table 10 10) sample_add = Ok (0, c', effects)"
  unfolding add_tlc_update_def sample_add_fields sample_guard sample_expiry sample_forward sample_backed
  by (simp add: create_outbounding_tlc_def check_insert_tlc_def)
     (simp add: get_next_offering_def next_tlc_id_def get_def find_tlc_def sample_eval increment_offering_def increment_next_id_def
         add_offered_tlc_def add_tlc_pending_def Let_def)

theorem offered_tlc_guarded_witness:
  "\<exists>c' effects. add_tlc_update sample_env (\<lambda>_. Some (sample_channel sample_table 10 10)) 1000000 (sample_channel sample_table 10 10) sample_add = Ok (0, c', effects) \<and>
     (\<exists>t. get (ch_tlc_state c') = (get sample_table)(Offered 0 \<mapsto> t) \<and> ti_amount t = 3)"
proof -
  let ?c = "sample_channel sample_table 10 10"
  have s: "ch_tlc_state ?c = sample_table" by (simp add: sample_channel_def)
  have wf: "wf_tlc_state (ch_tlc_state ?c)" using tlc_reachable_inv [OF sample_table_reachable] s by simp
  from sample_channel_accepts obtain c' effects where
    a: "add_tlc_update sample_env (\<lambda>_. Some ?c) 1000000 ?c sample_add = Ok (0, c', effects)" by blast
  have "ac_amount sample_add = 3" by (simp add: sample_add_def)
  then show ?thesis using offered_tlc_guarded [OF wf a] a s by auto
qed

section \<open>Forwarding at most once\<close>

definition forward_unique :: "tlc_state \<Rightarrow> bool" where
  "forward_unique s \<longleftrightarrow> (\<forall>t\<in>set (offered_list s). \<forall>u\<in>set (offered_list s).
     ti_forwarding_tlc t \<noteq> None \<and> ti_forwarding_tlc u = ti_forwarding_tlc t \<longrightarrow> ti_tlc_id u = ti_tlc_id t)"

definition keeps_forwarding :: "tlc_state \<Rightarrow> tlc_state \<Rightarrow> bool" where
  "keeps_forwarding s s' \<longleftrightarrow> (\<forall>t'\<in>set (offered_list s'). \<exists>t\<in>set (offered_list s).
     ti_tlc_id t = ti_tlc_id t' \<and> ti_forwarding_tlc t = ti_forwarding_tlc t')"

lemma keeps_forwarding_refl [simp]: "keeps_forwarding s s"
  by (auto simp: keeps_forwarding_def)

lemma keeps_forwarding_trans: "keeps_forwarding s s' \<Longrightarrow> keeps_forwarding s' s'' \<Longrightarrow> keeps_forwarding s s''"
  by (fastforce simp: keeps_forwarding_def)

lemma forward_unique_keeps: "keeps_forwarding s s' \<Longrightarrow> forward_unique s \<Longrightarrow> forward_unique s'"
  unfolding keeps_forwarding_def forward_unique_def by metis

lemma keeps_forwarding_map:
  assumes "\<And>t. ti_tlc_id (f t) = ti_tlc_id t \<and> ti_forwarding_tlc (f t) = ti_forwarding_tlc t"
    and "offered_list s' = map f (offered_list s)"
  shows "keeps_forwarding s s'"
  using assms by (auto simp: keeps_forwarding_def)

lemma keeps_forwarding_after_cs: "keeps_forwarding s (after_cs s)"
  by (rule keeps_forwarding_map [where f = "cs_offered (ts_waiting_ack s)"]) (simp_all add: after_cs_def cs_offered_def)

lemma keeps_forwarding_after_raa: "keeps_forwarding s (after_raa n s)"
  by (rule keeps_forwarding_map [where f = "raa_offered n"]) (simp_all add: after_raa_def raa_offered_def)

lemma keeps_forwarding_remove: "keeps_forwarding s (apply_remove_tlc s i)"
  by (auto simp: keeps_forwarding_def apply_remove_tlc_def)

lemma keeps_forwarding_modify:
  assumes "\<And>t. ti_tlc_id (f t) = ti_tlc_id t \<and> ti_forwarding_tlc (f t) = ti_forwarding_tlc t"
  shows "keeps_forwarding s (modify_tlc s i f)"
proof -
  have "x \<in> set (update_first P f ts) \<Longrightarrow> \<exists>t\<in>set ts. ti_tlc_id t = ti_tlc_id x \<and> ti_forwarding_tlc t = ti_forwarding_tlc x" for x P ts
    using assms by (induction ts) (auto split: if_splits)
  then show ?thesis by (auto simp: keeps_forwarding_def modify_tlc_def split: option.splits)
qed

lemma keeps_forwarding_set_removed:
  "set_received_tlc_removed s i r = Ok (h, s') \<Longrightarrow> keeps_forwarding s s'"
  "set_offered_tlc_removed s i r = Ok (h, s') \<Longrightarrow> keeps_forwarding s s'"
  by (auto simp: set_received_tlc_removed_def set_offered_tlc_removed_def intro!: keeps_forwarding_modify)

lemma keeps_forwarding_clean_up: "keeps_forwarding (ch_tlc_state c) (ch_tlc_state (clean_up_failed_tlcs c))"
proof -
  have "keeps_forwarding (ch_tlc_state c) (ch_tlc_state (fold (\<lambda>i c. channel_apply_remove_tlc c i) is c))" for "is"
  proof (induction "is" arbitrary: c)
    case (Cons i "is")
    have "keeps_forwarding (ch_tlc_state c) (ch_tlc_state (channel_apply_remove_tlc c i))"
      by (simp add: keeps_forwarding_remove)
    then show ?case
      using Cons.IH [of "channel_apply_remove_tlc c i"] keeps_forwarding_trans by (simp del: channel_apply_remove_simps)
  qed simp
  then show ?thesis by (simp add: clean_up_failed_tlcs_def)
qed

lemma keeps_forwarding_settle:
  assumes "remove_tlc_with_reason H c i = Ok (t, r, c')"
  shows "keeps_forwarding (ch_tlc_state c) (ch_tlc_state c')"
proof -
  from assms have "case r of RemoveTlcFail _ \<Rightarrow> c' = c
      | RemoveTlcFulfill _ \<Rightarrow> \<exists>l r. c' = channel_apply_remove_tlc (c\<lparr>ch_to_local_amount := l, ch_to_remote_amount := r\<rparr>) i"
    unfolding remove_tlc_with_reason_def bind_res_eq_Ok
    by (elim exE conjE; case_tac xa; (clarsimp simp del: channel_apply_remove_simps; blast?)?)
  then show ?thesis by (auto simp: keeps_forwarding_remove split: remove_tlc_reason.splits)
qed

lemma forward_unique_append:
  assumes "forward_unique s" and "offered_list s' = offered_list s @ [t]"
    and "\<And>u. u \<in> set (offered_list s) \<Longrightarrow> ti_forwarding_tlc t \<noteq> None \<Longrightarrow> ti_forwarding_tlc u \<noteq> ti_forwarding_tlc t"
  shows "forward_unique s'"
  unfolding forward_unique_def
proof (intro ballI impI)
  fix a b assume *: "a \<in> set (offered_list s')" "b \<in> set (offered_list s')"
    "ti_forwarding_tlc a \<noteq> None \<and> ti_forwarding_tlc b = ti_forwarding_tlc a"
  then consider "a = t" "b = t" | "a = t" "b \<in> set (offered_list s)" | "b = t" "a \<in> set (offered_list s)"
    | "a \<in> set (offered_list s)" "b \<in> set (offered_list s)" using assms(2) by auto
  then show "ti_tlc_id b = ti_tlc_id a"
  proof cases
    case 2 then show ?thesis using assms(3) [of b] *(3) by simp
  next
    case 3 then show ?thesis using assms(3) [of a] *(3) by simp
  next
    case 4 then show ?thesis using assms(1) *(3) unfolding forward_unique_def by blast
  qed simp
qed

lemma forward_unique_cong: "offered_list s' = offered_list s \<Longrightarrow> forward_unique s' = forward_unique s"
  by (simp add: forward_unique_def)

lemma forward_unique_add:
  assumes "add_tlc_update E lookup now c command = Ok (i, c', effects)" and "forward_unique (ch_tlc_state c)"
  shows "forward_unique (ch_tlc_state c')"
  using assms(1)
proof (rule add_tlc_update_OkE)
  fix t s
  assume *: "create_outbounding_tlc c command = Ok t" "insert_tlc (ch_tlc_state c) t = (Ok s :: tlc_state chan_res)" "ch_tlc_state c' = s"
  have fwd: "ti_forwarding_tlc t = map_option (\<lambda>p. (prev_channel_id p, prev_tlc_id p)) (ac_previous_tlc command)"
    using *(1) by (auto simp: create_outbounding_tlc_def Let_def)
  have "offered_list s = offered_list (ch_tlc_state c) @ [t]"
    using *(2) created_outbound_fresh(5) [OF *(1)] by (cases rule: insert_tlc_OkE) (auto simp: is_offered_def)
  moreover have "ti_forwarding_tlc u \<noteq> ti_forwarding_tlc t"
    if "u \<in> set (offered_list (ch_tlc_state c))" "ti_forwarding_tlc t \<noteq> None" for u
    using check_add_tlc_consistent_Ok(2) [OF add_tlc_update_guards(4) [OF assms(1)]] fwd that by auto
  ultimately show ?thesis using forward_unique_append [OF assms(2)] *(3) by simp
qed

lemma chan_step_forward_unique:
  "chan_step c c' \<Longrightarrow> funds_inv c \<Longrightarrow> forward_unique (ch_tlc_state c) \<Longrightarrow> forward_unique (ch_tlc_state c')"
proof (induction rule: chan_step.induct)
  case (add E lookup now c command i c' effects)
  then show ?case using forward_unique_add by blast
next
  case (add_peer E now c m c')
  have "offered_list (ch_tlc_state c') = offered_list (ch_tlc_state c)"
    using add_peer(1) by (cases rule: handle_add_tlc_peer_message_OkE) (auto elim!: insert_tlc_OkE)
  then show ?case using add_peer(3) forward_unique_cong by blast
next
  case (remove H c rcommand c' effects)
  then obtain h s where "set_received_tlc_removed (ch_tlc_state c) (rc_id rcommand) (rc_reason rcommand) = (Ok (h, s) :: (hash256 \<times> tlc_state) chan_res)"
    "ch_tlc_state c' = s" by (auto simp: remove_tlc_update_def Let_def)
  with remove(3) show ?case using keeps_forwarding_set_removed(1) forward_unique_keeps by blast
next
  case (remove_peer H c rm c' effects)
  then obtain h s where "set_offered_tlc_removed (ch_tlc_state c) (rm_tlc_id rm) (rm_reason rm) = (Ok (h, s) :: (hash256 \<times> tlc_state) chan_res)"
    "ch_tlc_state c' = s" by (auto simp: handle_remove_tlc_peer_message_def)
  with remove_peer(3) show ?case using keeps_forwarding_set_removed(2) forward_unique_keeps by blast
next
  case (commitment_signed c b s)
  then show ?case
    using forward_unique_keeps [OF keeps_forwarding_after_cs] by (auto simp: funds_inv_def update_for_commitment_signed_wf)
next
  case (revoke_and_ack c n s)
  then show ?case
    using forward_unique_keeps [OF keeps_forwarding_after_raa] by (auto simp: funds_inv_def update_for_revoke_and_ack_wf)
next
  case (settle c i t0 H t r c')
  have "keeps_forwarding (ch_tlc_state c) (ch_tlc_state (mark_removed c i))"
    by (auto simp: mark_removed_def intro: keeps_forwarding_modify)
  then show ?case
    using keeps_forwarding_settle [OF settle(2)] settle(4) forward_unique_keeps keeps_forwarding_trans by blast
next
  case (clean_up c)
  then show ?case using forward_unique_keeps [OF keeps_forwarding_clean_up] by blast
next
  case (waiting_ack c b)
  have "offered_list (set_waiting_ack_flag (ch_tlc_state c) b) = offered_list (ch_tlc_state c)"
    by (simp add: set_waiting_ack_flag_def)
  then show ?case unfolding set_tlc_state_simps using waiting_ack(2) by (rule iffD2 [OF forward_unique_cong])
next
  case (append_point c point)
  have "ch_tlc_state (append_remote_commitment_point c point) = ch_tlc_state c"
    by (simp add: append_remote_commitment_point_def)
  then show ?case using append_point(2) by (simp only:)
qed

lemma chan_run_forward_unique:
  "chan_run c c' \<Longrightarrow> funds_inv c \<Longrightarrow> forward_unique (ch_tlc_state c) \<Longrightarrow> forward_unique (ch_tlc_state c')"
  by (induction rule: chan_run.induct) (auto dest: chan_step_forward_unique chan_run_inv)

text \<open>C30. No received TLC is ever forwarded twice by a channel: along every run, two offered TLCs
  that name the same previous TLC are the same TLC, so a forwarded payment is paid for once.\<close>

theorem forwarded_at_most_once:
  assumes "chan_run c c'" and "funds_inv c" and "forward_unique (ch_tlc_state c)"
    and "t \<in> set (offered_list (ch_tlc_state c'))" and "u \<in> set (offered_list (ch_tlc_state c'))"
    and "ti_forwarding_tlc t = Some prev" and "ti_forwarding_tlc u = Some prev"
  shows "t = u"
proof -
  have "ti_tlc_id t = ti_tlc_id u"
    using bspec [OF bspec [OF chan_run_forward_unique [OF assms(1-3), unfolded forward_unique_def] assms(4)] assms(5)] assms(6,7)
    by simp
  moreover have "wf_tlc_state (ch_tlc_state c')" using chan_run_inv [OF assms(1,2)] by (simp add: funds_inv_def)
  ultimately show ?thesis using distinct_offered assms(4,5) by (auto simp: distinct_map dest: inj_onD)
qed

theorem forwarded_at_most_once_witness:
  "\<exists>c' t. chan_run (sample_channel sample_table 10 10) c' \<and> t \<in> set (offered_list (ch_tlc_state c')) \<and>
     ti_forwarding_tlc t = Some (9, 0) \<and>
     (\<forall>u\<in>set (offered_list (ch_tlc_state c')). ti_forwarding_tlc u = Some (9, 0) \<longrightarrow> t = u)"
proof -
  let ?c = "sample_channel sample_table 10 10"
  have fu: "forward_unique (ch_tlc_state ?c)" by (simp add: forward_unique_def sample_channel_def sample_table_def)
  from sample_channel_accepts obtain c' effects where
    a: "add_tlc_update sample_env (\<lambda>_. Some ?c) 1000000 ?c sample_add = Ok (0, c', effects)" by blast
  have run: "chan_run ?c c'" by (rule chan_run.step [OF chan_run.refl chan_step.add [OF a]])
  from a show ?thesis
  proof (rule add_tlc_update_OkE)
    fix t s
    assume *: "create_outbounding_tlc ?c sample_add = Ok t" "insert_tlc (ch_tlc_state ?c) t = (Ok s :: tlc_state chan_res)" "ch_tlc_state c' = s"
    have fwd: "ti_forwarding_tlc t = Some (9, 0)"
      using *(1) by (auto simp: create_outbounding_tlc_def Let_def sample_add_def)
    have t: "t \<in> set (offered_list (ch_tlc_state c'))"
      using *(2,3) created_outbound_fresh(5) [OF *(1)] by (cases rule: insert_tlc_OkE) (auto simp: is_offered_def)
    then show ?thesis using forwarded_at_most_once [OF run sample_channel_inv fu t _ fwd] run fwd by blast
  qed
qed

text \<open>C15. A settled TLC moves its amount exactly once: with the right preimage the payee gains what the
  payer loses, the TLC disappears and every other one is untouched; with a wrong preimage the
  operation fails; a failed TLC changes nothing. No subtraction underflows.\<close>

theorem settled_removal_exact:
  assumes "funds_inv c" and "get (ch_tlc_state c) i = Some t"
    and "ti_status t \<in> {Inbound InRemoveAckConfirmed, Outbound OutRemoveAckConfirmed}"
  shows "case ti_removed_reason t of
      Some (RemoveTlcFulfill p) \<Rightarrow>
        (if hash_with H (ti_hash_algorithm t) p = ti_payment_hash t
         then \<exists>c'. remove_tlc_with_reason H c i = Ok (t, RemoveTlcFulfill p, c') \<and>
           get (ch_tlc_state c') = (get (ch_tlc_state c))(i := None) \<and> funds_inv c' \<and>
           (if is_offered t
            then unat (ch_to_local_amount c') + unat (ti_amount t) = unat (ch_to_local_amount c) \<and>
                 unat (ch_to_remote_amount c') = unat (ch_to_remote_amount c) + unat (ti_amount t)
            else unat (ch_to_remote_amount c') + unat (ti_amount t) = unat (ch_to_remote_amount c) \<and>
                 unat (ch_to_local_amount c') = unat (ch_to_local_amount c) + unat (ti_amount t))
         else remove_tlc_with_reason H c i = Err FinalIncorrectPreimage)
    | Some (RemoveTlcFail e) \<Rightarrow> remove_tlc_with_reason H c i = Ok (t, RemoveTlcFail e, c)
    | None \<Rightarrow> remove_tlc_with_reason H c i = Panic"
proof -
  note eval = remove_tlc_with_reason_eval [OF assms, of H]
  have wf: "wf_tlc_state (ch_tlc_state c)" using assms(1) by (simp add: funds_inv_def)
  have "?thesis" if r: "ti_removed_reason t = Some (RemoveTlcFulfill p)" and h: "hash_with H (ti_hash_algorithm t) p = ti_payment_hash t" for p
  proof -
    let ?c = "channel_apply_remove_tlc (moved_balance c t) i"
    have "if is_offered t
        then unat (ch_to_local_amount ?c) + unat (ti_amount t) = unat (ch_to_local_amount c) \<and>
             unat (ch_to_remote_amount ?c) = unat (ch_to_remote_amount c) + unat (ti_amount t)
        else unat (ch_to_remote_amount ?c) + unat (ti_amount t) = unat (ch_to_remote_amount c) \<and>
             unat (ch_to_local_amount ?c) = unat (ch_to_local_amount c) + unat (ti_amount t)"
      using settled_amounts(1,2) [OF assms(1,2) r] by (auto simp: moved_balance_def rust_arith)
    moreover have "get (ch_tlc_state ?c) = (get (ch_tlc_state c))(i := None)"
      using tt.del_lookup [OF wf] by simp
    ultimately show ?thesis
      using r h eval moved_balance_inv [OF assms(1,2) r] by (simp del: channel_apply_remove_simps)
  qed
  then show ?thesis using eval by (auto split: option.splits remove_tlc_reason.splits)
qed

definition settled_table :: tlc_state where
  "settled_table = \<lparr>ts_offered = \<lparr>pt_tlcs = [], pt_next_tlc_id = 0\<rparr>,
     ts_received = \<lparr>pt_tlcs = [(sample_tlc (Received 0) (Inbound InRemoveAckConfirmed) 5)
         \<lparr>ti_removed_reason := Some (RemoveTlcFulfill 3), ti_removed_confirmed_at := Some 2\<rparr>], pt_next_tlc_id = 1\<rparr>,
     ts_waiting_ack = False\<rparr>"

lemma settled_table_inv: "funds_inv (sample_channel settled_table 10 6)"
  by (simp add: funds_inv_def sample_channel_def total_balance_def settled_table_def sample_tlc_def tlc_inv_def wf_tlc_state_def
      wf_pending_def wf_received_def removal_recorded_def status_confirmed_def all_tlcs_def is_fail_remove_confirmed_def)

theorem settled_removal_exact_witness:
  "\<exists>c' t. remove_tlc_with_reason \<lparr>blake2b_256 = (\<lambda>_. 7), sha256 = (\<lambda>_. 8)\<rparr> (sample_channel settled_table 10 6) (Received 0)
       = Ok (t, RemoveTlcFulfill 3, c') \<and> unat (ch_to_local_amount c') = 15 \<and> unat (ch_to_remote_amount c') = 1"
proof -
  let ?c = "sample_channel settled_table 10 6"
  let ?t = "(sample_tlc (Received 0) (Inbound InRemoveAckConfirmed) 5)
     \<lparr>ti_removed_reason := Some (RemoveTlcFulfill 3), ti_removed_confirmed_at := Some 2\<rparr>"
  have g: "get (ch_tlc_state ?c) (Received 0) = Some ?t"
    by (simp add: get_def find_tlc_def settled_table_def sample_channel_def sample_tlc_def)
  have st: "ti_status ?t \<in> {Inbound InRemoveAckConfirmed, Outbound OutRemoveAckConfirmed}" by (simp add: sample_tlc_def)
  have "ch_to_local_amount ?c = 10" "ch_to_remote_amount ?c = 6" by (simp_all add: sample_channel_def)
  moreover have "\<not> is_offered ?t" "ti_amount ?t = 5" "ti_hash_algorithm ?t = CkbHash" "ti_payment_hash ?t = 7"
    "ti_removed_reason ?t = Some (RemoveTlcFulfill 3)" by (simp_all add: sample_tlc_def is_offered_def)
  ultimately show ?thesis
    using settled_removal_exact [OF settled_table_inv g st, of "\<lparr>blake2b_256 = (\<lambda>_. 7), sha256 = (\<lambda>_. 8)\<rparr>"]
    by (auto simp del: bind_res_eq_Ok)
qed

lemma received_tlc_stored:
  assumes "wf_tlc_state (ch_tlc_state d)" and "handle_add_tlc_peer_message E now d m = Ok d'" and "get (ch_tlc_state d) (Received (am_tlc_id m)) = None"
  shows "get (ch_tlc_state d') = (get (ch_tlc_state d))(Received (am_tlc_id m) \<mapsto> create_inbounding_tlc d m)"
  using assms(2)
proof (cases rule: handle_add_tlc_peer_message_OkE)
  case (fresh s)
  then show ?thesis
    using tt.ins_lookup [OF assms(1) created_inbound_fresh(1) [OF fresh(3)] insert_tlc_any_error [OF fresh(4)]] by simp
qed (use assms(3) in simp)

lemma added_tlc_delivered:
  assumes "wf_tlc_state (ch_tlc_state c)" and "wf_tlc_state (ch_tlc_state d)"
    and "add_tlc_update E lookup now c command = Ok (i, c', effects)" and "add_wire m = AddTlc i terms"
    and "terms = \<lparr>tm_hash_algorithm = ac_hash_algorithm command, tm_amount = ac_amount command,
       tm_payment_hash = ac_payment_hash command, tm_expiry = ac_expiry command\<rparr>"
    and "am_onion_packet m = ac_onion_packet command"
    and "handle_add_tlc_peer_message E' now' d m = Ok d'" and "get (ch_tlc_state d) (Received i) = None"
  shows "\<exists>t t'. get (ch_tlc_state c') (Offered i) = Some t \<and> get (ch_tlc_state d') (Received i) = Some t' \<and>
    tlc_terms t' = tlc_terms t \<and> ti_onion_packet t' = ti_onion_packet t"
proof -
  from add_tlc_update_get [OF assms(1,3)] obtain t where t: "create_outbounding_tlc c command = Ok t"
    "get (ch_tlc_state c') = (get (ch_tlc_state c))(Offered i \<mapsto> t)" by blast
  have i: "am_tlc_id m = i" using assms(4) by (simp add: add_wire_def)
  have "tlc_terms t = terms" "ti_onion_packet t = ac_onion_packet command"
    using created_outbound_fresh(6) [OF t(1)] t(1) assms(5) by (auto simp: create_outbounding_tlc_def Let_def)
  moreover have "tlc_terms (create_inbounding_tlc d m) = terms" "ti_onion_packet (create_inbounding_tlc d m) = am_onion_packet m"
    using assms(4) by (auto simp: add_wire_def tlc_terms_def create_inbounding_tlc_def)
  ultimately show ?thesis using t(2) received_tlc_stored [OF assms(2,7)] assms(6,8) i by simp
qed

text \<open>C21. The four TLC handlers of the channel actor implement the two-party protocol. An accepted
  add command records exactly one message for replay, sends exactly that message (or leaves it to the session that batches updates), and
  is the protocol step that sends it: the message carries the identifier, amount, hash, algorithm, expiry and onion of the stored TLC,
  and a peer that accepts it stores a received TLC of the same terms and the same onion. An accepted remove command likewise sends the
  message of its protocol step. An accepted message of the peer is the protocol step that consumes it.\<close>

theorem handlers_follow_protocol:
  assumes "wf_tlc_state (ch_tlc_state c)" and "wf_tlc_state (ch_tlc_state d)"
  shows "(\<forall>E lookup now command i c' effects. add_tlc_update E lookup now c command = Ok (i, c', effects) \<longrightarrow>
      (\<exists>m. ch_pending_replay_updates c' = ch_pending_replay_updates c @ [ReplayAdd m] \<and>
         effects = (if ch_session_v2 c = None then [SendAddTlc m] else []) \<and> am_channel_id m = ch_id c \<and>
         add_wire m = AddTlc i \<lparr>tm_hash_algorithm = ac_hash_algorithm command, tm_amount = ac_amount command,
           tm_payment_hash = ac_payment_hash command, tm_expiry = ac_expiry command\<rparr> \<and>
         party_step v2 (ch_tlc_state c) None [add_wire m] (ch_tlc_state c') \<and>
         (\<forall>E' now' d'. handle_add_tlc_peer_message E' now' d m = Ok d' \<and> get (ch_tlc_state d) (Received i) = None \<longrightarrow>
            (\<exists>t t'. get (ch_tlc_state c') (Offered i) = Some t \<and> get (ch_tlc_state d') (Received i) = Some t' \<and>
               tlc_terms t' = tlc_terms t \<and> ti_onion_packet t' = ti_onion_packet t)))) \<and>
    (\<forall>E now m d'. handle_add_tlc_peer_message E now d m = Ok d' \<and> get (ch_tlc_state d) (Received (am_tlc_id m)) = None \<longrightarrow>
      party_step v2 (ch_tlc_state d) (Some (add_wire m)) [] (ch_tlc_state d')) \<and>
    (\<forall>H command c' effects. remove_tlc_update H c command = Ok (c', effects) \<longrightarrow>
      (\<exists>m kept. ch_pending_replay_updates c' = ch_pending_replay_updates c @ [ReplayRemove m] \<and>
         effects = kept @ (if ch_session_v2 c = None then [SendRemoveTlc m] else []) \<and> (\<forall>x. SendRemoveTlc x \<notin> set kept) \<and>
         rm_channel_id m = ch_id c \<and> remove_wire m = RemoveTlc (rc_id command) (rc_reason command) \<and>
         party_step v2 (ch_tlc_state c) None [remove_wire m] (ch_tlc_state c'))) \<and>
    (\<forall>H m d' effects. handle_remove_tlc_peer_message H d m = Ok (d', effects) \<longrightarrow>
      party_step v2 (ch_tlc_state d) (Some (remove_wire m)) [] (ch_tlc_state d'))"
proof (intro conjI allI impI)
  fix E lookup now command i c' effects
  assume a: "add_tlc_update E lookup now c command = Ok (i, c', effects)"
  from add_tlc_update_sends [OF a] obtain m where m: "am_channel_id m = ch_id c" "am_tlc_id m = i" "am_onion_packet m = ac_onion_packet command"
    "add_wire m = AddTlc i \<lparr>tm_hash_algorithm = ac_hash_algorithm command, tm_amount = ac_amount command,
       tm_payment_hash = ac_payment_hash command, tm_expiry = ac_expiry command\<rparr>"
    "ch_pending_replay_updates c' = ch_pending_replay_updates c @ [ReplayAdd m]"
    "effects = (if ch_session_v2 c = None then [SendAddTlc m] else [])" by blast
  have "party_step v2 (ch_tlc_state c) None [add_wire m] (ch_tlc_state c')" unfolding m(4) by (rule add_tlc_update_party_step [OF a])
  then show "\<exists>m. ch_pending_replay_updates c' = ch_pending_replay_updates c @ [ReplayAdd m] \<and>
         effects = (if ch_session_v2 c = None then [SendAddTlc m] else []) \<and> am_channel_id m = ch_id c \<and>
         add_wire m = AddTlc i \<lparr>tm_hash_algorithm = ac_hash_algorithm command, tm_amount = ac_amount command,
           tm_payment_hash = ac_payment_hash command, tm_expiry = ac_expiry command\<rparr> \<and>
         party_step v2 (ch_tlc_state c) None [add_wire m] (ch_tlc_state c') \<and>
         (\<forall>E' now' d'. handle_add_tlc_peer_message E' now' d m = Ok d' \<and> get (ch_tlc_state d) (Received i) = None \<longrightarrow>
            (\<exists>t t'. get (ch_tlc_state c') (Offered i) = Some t \<and> get (ch_tlc_state d') (Received i) = Some t' \<and>
               tlc_terms t' = tlc_terms t \<and> ti_onion_packet t' = ti_onion_packet t))"
    by (intro exI [of _ m] conjI m(1,4,5,6) allI impI) (assumption, elim conjE, rule added_tlc_delivered [OF assms a m(4) HOL.refl m(3)])
next
  fix H command c' effects
  assume a: "remove_tlc_update H c command = Ok (c', effects)"
  show "\<exists>m kept. ch_pending_replay_updates c' = ch_pending_replay_updates c @ [ReplayRemove m] \<and>
         effects = kept @ (if ch_session_v2 c = None then [SendRemoveTlc m] else []) \<and> (\<forall>x. SendRemoveTlc x \<notin> set kept) \<and>
         rm_channel_id m = ch_id c \<and> remove_wire m = RemoveTlc (rc_id command) (rc_reason command) \<and>
         party_step v2 (ch_tlc_state c) None [remove_wire m] (ch_tlc_state c')"
    by (rule remove_tlc_update_sends [OF a])
      (intro exI conjI, assumption+, simp add: remove_tlc_update_party_step [OF assms(1) a])
qed (auto intro: handle_add_tlc_peer_message_party_step handle_remove_tlc_peer_message_party_step [OF assms(2)])

theorem handlers_follow_protocol_witness:
  "\<exists>c' m. add_tlc_update sample_env (\<lambda>_. Some (sample_channel sample_table 10 10)) 1000000
       (sample_channel sample_table 10 10) sample_add = Ok (0, c', [SendAddTlc m]) \<and> am_amount m = 3 \<and> am_payment_hash m = 7 \<and>
     party_step False sample_table None [add_wire m] (ch_tlc_state c')"
proof -
  let ?c = "sample_channel sample_table 10 10"
  have s: "ch_tlc_state ?c = sample_table" by (simp add: sample_channel_def)
  have wf: "wf_tlc_state (ch_tlc_state ?c)" using tlc_reachable_inv [OF sample_table_reachable] s by simp
  from sample_channel_accepts obtain c' effects where
    a: "add_tlc_update sample_env (\<lambda>_. Some ?c) 1000000 ?c sample_add = Ok (0, c', effects)" by blast
  have "ac_hash_algorithm sample_add = CkbHash" "ac_payment_hash sample_add = 7" "ch_session_v2 ?c = None"
    by (simp_all add: sample_add_def sample_channel_def)
  then show ?thesis using conjunct1 [OF handlers_follow_protocol [OF wf wf, of False], rule_format, OF a] a s sample_add_fields(1)
    by (auto simp: add_wire_def)
qed

text \<open>The commitment points a channel still needs survive every clean-up: pruning keeps the point
  of each commitment number that a pending TLC or the current state refers to, so the keys of all
  pending TLCs stay derivable after removals, clean-ups and new points.\<close>

lemma tlc_keys_survive:
  assumes "keys_known K c"
  shows "keys_known K (channel_apply_remove_tlc c i) \<and> keys_known K (clean_up_failed_tlcs c) \<and>
    keys_known K (append_remote_commitment_point c point) \<and>
    (\<forall>n\<in>required_points c.
      get_remote_commitment_point (prune_remote_commitment_points c) n = get_remote_commitment_point c n)"
  using assms keys_known_apply_remove keys_known_clean_up keys_known_append prune_keeps_point by blast

definition sample_replay :: add_tlc_msg where
  "sample_replay = \<lparr>am_channel_id = 9, am_tlc_id = 0, am_amount = 5, am_payment_hash = 7, am_expiry = 1000,
     am_hash_algorithm = CkbHash, am_onion_packet = None\<rparr>"

lemma sample_replay_rejected:
  "handle_add_tlc_peer_message E now (sample_channel sample_table 10 6) sample_replay = Err TlcAmountExceedLimit"
  by (simp add: handle_add_tlc_peer_message_def check_for_tlc_update_def check_tlc_limits_def sample_replay_def sample_eval)

text \<open>C38. A replayed AddTlc is not always accepted as a no-op: the amount limits are checked before the
  duplicate is recognised, so a channel that already holds the TLC can reject its identical replay
  because the value is counted twice.\<close>

theorem replayed_add_may_fail:
  "\<exists>c m t. funds_inv c \<and> get (ch_tlc_state c) (Received (am_tlc_id m)) = Some t \<and>
     same_replayed_tlc t (create_inbounding_tlc c m) \<and>
     (\<forall>E now. handle_add_tlc_peer_message E now c m = Err TlcAmountExceedLimit)"
proof -
  let ?c = "sample_channel sample_table 10 6" and ?t = "sample_tlc (Received 0) (Inbound RemoteAnnounced) 5"
  have "funds_inv ?c" 
    using tlc_reachable_inv [OF sample_table_reachable]
    by (simp add: funds_inv_def sample_channel_def total_balance_def)
       (simp add: sample_table_def sample_tlc_def is_fail_remove_confirmed_def)
  moreover have "get (ch_tlc_state ?c) (Received (am_tlc_id sample_replay)) = Some ?t"
    by (simp add: get_def find_tlc_def sample_channel_def sample_table_def sample_tlc_def sample_replay_def)
  moreover have "same_replayed_tlc ?t (create_inbounding_tlc ?c sample_replay)"
    by (simp add: same_replayed_tlc_def create_inbounding_tlc_def sample_replay_def sample_tlc_def is_offered_def)
  ultimately show ?thesis using sample_replay_rejected by blast
qed

section \<open>Watchdogs and the deferred queue\<close>

lemma saturating_sub_gt:
  "saturating_sub a b > (k :: 'w::len word) \<longleftrightarrow> unat b + unat k < unat a"
proof (cases "b \<le> a")
  case True
  then show ?thesis by (auto simp: saturating_sub_def word_less_nat_alt word_le_nat_alt unat_sub)
next
  case False
  then show ?thesis by (simp add: saturating_sub_def word_le_nat_alt)
qed

text \<open>The acknowledgement watchdog of a V1 channel is exact: once a ready channel starts to wait at
  time \<open>now\<close>, the peer counts as unresponsive at precisely the times more than 30 seconds later,
  whatever the clock does in between, and never again after the acknowledgement has been
  recorded.\<close>

lemma ack_watchdog_exact:
  assumes "ch_session_v2 c = None" and "ch_state c = ChannelReady" and "\<not> ch_reestablishing c"
    and "set_waiting_ack now c True = Ok (delay, c')"
  shows "(\<forall>later. peer_does_not_reply_ack_in_time later c' \<longleftrightarrow> unat now + 30000 < unat later) \<and>
    (\<exists>c''. set_waiting_ack now' c' False = Ok (None, c'') \<and> (\<forall>later. \<not> peer_does_not_reply_ack_in_time later c''))"
proof -
  have wait: "peer_response_wait_v2 c = None" if "ch_session_v2 c = None" "ch_state c = ChannelReady" for c
    using that by (simp add: peer_response_wait_v2_def close_peer_wait_v2_def ack_peer_wait_v2_def)
  have c': "ch_session_v2 c' = None" "ch_state c' = ChannelReady" "\<not> ch_reestablishing c'" "ch_waiting_peer_response c' = Some now"
    using assms wait by (auto simp: set_waiting_ack_def Let_def set_tlc_state_def)
  have "set_waiting_ack now' c' False = Ok (None, set_tlc_state c' (set_waiting_ack_flag (ch_tlc_state c') False)\<lparr>ch_waiting_peer_response := None\<rparr>)"
    by (simp add: set_waiting_ack_def)
  then show ?thesis
    using c' by (simp add: peer_does_not_reply_ack_in_time_def wait saturating_sub_gt PEER_CHANNEL_RESPONSE_TIMEOUT_def set_tlc_state_def)
qed

lemma funds_inv_deferred [simp]:
  "funds_inv (c\<lparr>ch_deferred_peer_tlc_updates := us\<rparr>) = funds_inv c"
  "total_balance (c\<lparr>ch_deferred_peer_tlc_updates := us\<rparr>) = total_balance c"
  by (simp_all add: funds_inv_def total_balance_def)

lemma flush_updates_safe:
  "flush_updates E H now us c = Ok (c', effects) \<Longrightarrow> funds_inv c \<Longrightarrow>
   ch_deferred_peer_tlc_updates c' = [] \<and> funds_inv c' \<and> total_balance c' = total_balance c"
proof (induction us arbitrary: c effects)
  case (Cons u us)
  show ?case
  proof (cases u)
    case (DeferredAdd m)
    with Cons.prems(1) obtain c1 where c1: "handle_add_tlc_peer_message E now (c\<lparr>ch_deferred_peer_tlc_updates := us\<rparr>) m = Ok c1"
      and rest: "flush_updates E H now us c1 = Ok (c', effects)" by auto
    from handle_add_tlc_peer_message_inv [OF _ c1] Cons.prems(2) have "funds_inv c1" "total_balance c1 = total_balance c" by simp_all
    then show ?thesis using Cons.IH [OF rest] by simp
  next
    case (DeferredRemove m)
    with Cons.prems(1) obtain c1 e1 e2 where c1: "handle_remove_tlc_peer_message H (c\<lparr>ch_deferred_peer_tlc_updates := us\<rparr>) m = Ok (c1, e1)"
      and rest: "flush_updates E H now us c1 = Ok (c', e2)" by auto
    from handle_remove_tlc_peer_message_inv [OF _ c1] Cons.prems(2) have "funds_inv c1" "total_balance c1 = total_balance c" by simp_all
    then show ?thesis using Cons.IH [OF rest] by simp
  qed
qed auto

text \<open>The queue of deferred peer updates is bounded and safe: queueing appends at the end and is
  refused exactly when the queue has as many entries as both in-flight limits together; a flush
  that succeeds leaves the queue empty and keeps the funds invariant and the total balance.\<close>

lemma deferred_queue_safe:
  assumes "length (ch_deferred_peer_tlc_updates c) \<le> max_deferred_peer_tlc_updates c" and "funds_inv c"
  shows "(case try_queue_deferred_peer_tlc_update c u of
      Ok c' \<Rightarrow> ch_deferred_peer_tlc_updates c' = ch_deferred_peer_tlc_updates c @ [u] \<and>
        length (ch_deferred_peer_tlc_updates c') \<le> max_deferred_peer_tlc_updates c' \<and> funds_inv c'
    | Err e \<Rightarrow> e = InvalidState \<and> length (ch_deferred_peer_tlc_updates c) = max_deferred_peer_tlc_updates c
    | Panic \<Rightarrow> False) \<and>
    (\<forall>E H now c' effects. flush_deferred_peer_tlc_updates E H now (stop_defer_peer_tlc_updates c) = Ok (c', effects) \<longrightarrow>
       ch_deferred_peer_tlc_updates c' = [] \<and> funds_inv c' \<and> total_balance c' = total_balance c)"
proof (intro conjI allI impI)
  show "case try_queue_deferred_peer_tlc_update c u of
      Ok c' \<Rightarrow> ch_deferred_peer_tlc_updates c' = ch_deferred_peer_tlc_updates c @ [u] \<and>
        length (ch_deferred_peer_tlc_updates c') \<le> max_deferred_peer_tlc_updates c' \<and> funds_inv c'
    | Err e \<Rightarrow> e = InvalidState \<and> length (ch_deferred_peer_tlc_updates c) = max_deferred_peer_tlc_updates c
    | Panic \<Rightarrow> False"
    using assms by (simp add: try_queue_deferred_peer_tlc_update_def max_deferred_peer_tlc_updates_def)
  fix E H now c' effects
  assume f: "flush_deferred_peer_tlc_updates E H now (stop_defer_peer_tlc_updates c) = Ok (c', effects)"
  have s: "funds_inv (stop_defer_peer_tlc_updates c)" "total_balance (stop_defer_peer_tlc_updates c) = total_balance c"
    using assms(2) by (simp_all add: stop_defer_peer_tlc_updates_def funds_inv_def total_balance_def)
  then show "ch_deferred_peer_tlc_updates c' = []" "funds_inv c'" "total_balance c' = total_balance c"
    using f flush_updates_safe [OF _ s(1)]
    by (auto simp: flush_deferred_peer_tlc_updates_def stop_defer_peer_tlc_updates_def)
qed

end
