(* ===== verification/Byte_Codec.thy ===== *)
theory Byte_Codec
  imports Prelude
begin

text \<open>
  Integers as bytes (\<open>to_le_bytes\<close>, \<open>to_be_bytes\<close> and their inverses), slices, and sequential
  readers. The locale \<open>prefix_codec\<close> is the contract between a writer and its reader: reading
  what was written gives the value back and leaves the rest untouched. From it follow that
  encodings are injective and that lists of encoded values can be read back.
\<close>

section \<open>Integers\<close>

fun nat_le :: "nat \<Rightarrow> nat \<Rightarrow> bytes" where
  "nat_le 0 n = []"
| "nat_le (Suc k) n = word_of_nat n # nat_le k (n div 256)"

fun le_nat :: "bytes \<Rightarrow> nat" where
  "le_nat [] = 0"
| "le_nat (b # bs) = unat b + 256 * le_nat bs"

definition to_le_bytes :: "'w::len word \<Rightarrow> bytes" where
  "to_le_bytes w = nat_le (LENGTH('w) div 8) (unat w)"

definition to_be_bytes :: "'w::len word \<Rightarrow> bytes" where
  "to_be_bytes w = rev (to_le_bytes w)"

definition from_le_bytes :: "bytes \<Rightarrow> 'w::len word" where
  "from_le_bytes bs = word_of_nat (le_nat bs)"

definition from_be_bytes :: "bytes \<Rightarrow> 'w::len word" where
  "from_be_bytes bs = from_le_bytes (rev bs)"

lemma length_nat_le [simp]: "length (nat_le k n) = k"
  by (induction k arbitrary: n) auto

lemma le_nat_nat_le: "le_nat (nat_le k n) = n mod 256 ^ k"
proof (induction k arbitrary: n)
  case (Suc k)
  have "unat (word_of_nat n :: 8 word) = n mod 256" by (simp add: unat_of_nat take_bit_eq_mod)
  then show ?case using Suc by (simp add: mod_mult2_eq)
qed simp

lemma nat_le_le_nat: "length bs = k \<Longrightarrow> nat_le k (le_nat bs) = bs"
proof (induction bs arbitrary: k)
  case (Cons b bs)
  have b: "unat b < 256" using unat_bound [of b] by simp
  have "(256 :: 8 word) = 0" by simp
  then have "(word_of_nat (unat b + 256 * le_nat bs) :: 8 word) = b"
    by (simp only: of_nat_add of_nat_mult of_nat_numeral) simp
  moreover have "(unat b + 256 * le_nat bs) div 256 = le_nat bs" using b by simp
  ultimately show ?case using Cons by (cases k) auto
qed simp

text \<open>The widths in use are whole numbers of bytes.\<close>

definition byte_sized :: "'w::len word itself \<Rightarrow> bool" where
  "byte_sized t \<longleftrightarrow> 8 dvd LENGTH('w)"

lemma byte_sized_simps [simp]:
  "byte_sized TYPE(8 word)" "byte_sized TYPE(64 word)" "byte_sized TYPE(128 word)" "byte_sized TYPE(256 word)"
  by (simp_all add: byte_sized_def)

lemma power_256: "(256 :: nat) ^ k = 2 ^ (8 * k)"
  by (simp add: power_mult)

lemma le_bytes_inverse: "byte_sized TYPE('w word) \<Longrightarrow> from_le_bytes (to_le_bytes (w :: 'w::len word)) = w"
  using unat_bound [of w]
  by (simp add: from_le_bytes_def to_le_bytes_def le_nat_nat_le power_256 byte_sized_def)

lemma be_bytes_inverse: "byte_sized TYPE('w word) \<Longrightarrow> from_be_bytes (to_be_bytes (w :: 'w::len word)) = w"
  by (simp add: from_be_bytes_def to_be_bytes_def le_bytes_inverse)

lemma length_to_le_bytes [simp]: "length (to_le_bytes (w :: 'w::len word)) = LENGTH('w) div 8"
  and length_to_be_bytes [simp]: "length (to_be_bytes (w :: 'w::len word)) = LENGTH('w) div 8"
  by (simp_all add: to_le_bytes_def to_be_bytes_def)

lemma bytes_of_from_le:
  fixes bs :: bytes
  assumes "length bs = LENGTH('w::len) div 8" and "byte_sized TYPE('w word)"
  shows "to_le_bytes (from_le_bytes bs :: 'w word) = bs"
proof -
  have "le_nat bs < 256 ^ length bs"
  proof (induction bs)
    case (Cons b bs)
    have "unat b < 256" using unat_bound [of b] by simp
    with Cons show ?case by simp
  qed simp
  then have "le_nat bs < 2 ^ LENGTH('w)" using assms by (simp add: power_256 byte_sized_def)
  then show ?thesis using assms(1)
    by (simp add: to_le_bytes_def from_le_bytes_def unat_of_nat take_bit_nat_eq_self nat_le_le_nat)
qed

lemma bytes_of_from_be:
  fixes bs :: bytes
  assumes "length bs = LENGTH('w::len) div 8" and "byte_sized TYPE('w word)"
  shows "to_be_bytes (from_be_bytes bs :: 'w word) = bs"
  using assms by (simp add: to_be_bytes_def from_be_bytes_def bytes_of_from_le)

section \<open>Slices and readers\<close>

definition slice :: "nat \<Rightarrow> nat \<Rightarrow> 'a list \<Rightarrow> ('a list, 'e) res" where
  "slice a b xs = (if a \<le> b \<and> b \<le> length xs then Ok (take (b - a) (drop a xs)) else Panic)"

definition reader_take :: "nat \<Rightarrow> bytes \<Rightarrow> (bytes \<times> bytes, unit) res" where
  "reader_take n r = (if length r < n then Err () else Ok (take n r, drop n r))"

definition take_u8 :: "bytes \<Rightarrow> (u8 \<times> bytes, unit) res" where
  "take_u8 r = bind_res (reader_take 1 r) (\<lambda>(bs, r). Ok (bs ! 0, r))"

definition take_u128_le :: "bytes \<Rightarrow> (u128 \<times> bytes, unit) res" where
  "take_u128_le r = bind_res (reader_take 16 r) (\<lambda>(bs, r). Ok (from_le_bytes bs, r))"

fun read_many :: "(bytes \<Rightarrow> ('a \<times> bytes, 'e) res) \<Rightarrow> nat \<Rightarrow> bytes \<Rightarrow> ('a list \<times> bytes, 'e) res" where
  "read_many get 0 r = Ok ([], r)"
| "read_many get (Suc n) r =
     bind_res (get r) (\<lambda>(x, r). bind_res (read_many get n r) (\<lambda>(xs, r). Ok (x # xs, r)))"

lemma bind_res_cong [fundef_cong]:
  "m = m' \<Longrightarrow> (\<And>x. m' = Ok x \<Longrightarrow> f x = g x) \<Longrightarrow> bind_res m f = bind_res m' g"
  by (cases m) auto

lemma reader_take_append [simp]: "length xs = n \<Longrightarrow> reader_take n (xs @ r) = Ok (xs, r)"
  by (simp add: reader_take_def)

locale prefix_codec =
  fixes put :: "'a \<Rightarrow> bytes"
    and fetch :: "bytes \<Rightarrow> ('a \<times> bytes, 'e) res"
    and valid :: "'a \<Rightarrow> bool"
  assumes fetch_put: "valid x \<Longrightarrow> fetch (put x @ r) = Ok (x, r)"
begin

lemma put_append_inject:
  assumes "valid x" and "valid y" and "put x @ r = put y @ s"
  shows "x = y \<and> r = s"
proof -
  have "fetch (put x @ r) = Ok (y, s)" unfolding assms(3) by (rule fetch_put [OF assms(2)])
  with fetch_put [OF assms(1)] show ?thesis by simp
qed

lemma put_inject: "valid x \<Longrightarrow> valid y \<Longrightarrow> put x = put y \<Longrightarrow> x = y"
  using put_append_inject [of x y "[]" "[]"] by simp

lemma read_many_put:
  "(\<And>x. x \<in> set xs \<Longrightarrow> valid x) \<Longrightarrow> read_many fetch (length xs) (concat (map put xs) @ r) = Ok (xs, r)"
  by (induction xs) (simp_all add: fetch_put)

lemma concat_put_inject:
  assumes "\<And>x. x \<in> set xs \<Longrightarrow> valid x" "\<And>y. y \<in> set ys \<Longrightarrow> valid y" "length xs = length ys"
    and "concat (map put xs) @ r = concat (map put ys) @ s"
  shows "xs = ys \<and> r = s"
proof -
  have "read_many fetch (length xs) (concat (map put xs) @ r) = Ok (ys, s)"
    unfolding assms(3,4) by (rule read_many_put [OF assms(2)])
  with read_many_put [of xs r] assms(1) show ?thesis by simp
qed

end

interpretation u8c: prefix_codec "\<lambda>b. [b]" take_u8 "\<lambda>_. True"
  by unfold_locales (simp add: take_u8_def reader_take_def)

interpretation u128c: prefix_codec to_le_bytes take_u128_le "\<lambda>_. True"
  by unfold_locales (simp add: take_u128_le_def le_bytes_inverse)

interpretation blockc: prefix_codec "\<lambda>b. b" "reader_take n" "\<lambda>b. length b = n" for n
  by unfold_locales simp

end
