(* ===== verification/Settlement_Witness.thy ===== *)
theory Settlement_Witness
  imports Channel_Handlers Byte_Codec
begin

text \<open>
  The settlement witness: how a commitment transaction commits to the settlement snapshot
  (\<^verbatim>\<open>fiber-types/src/watchtower.rs\<close>), and how the watchtower reads it back from the chain and
  computes the witness that a settlement transaction leaves behind
  (\<^verbatim>\<open>fiber-lib/src/watchtower/actor.rs\<close>). Hash functions,
  key serialization and key aggregation are parameters; a byte array of the source is a list of
  bytes, a \<open>Hash256\<close> is a 256-bit word whose bytes are written most significant first.
\<close>

section \<open>Encoding\<close>

record crypto =
  cr_blake2b_256 :: "bytes \<Rightarrow> bytes"
  cr_serialize_pubkey :: "pubkey \<Rightarrow> bytes"
  cr_pubkey :: "256 word \<Rightarrow> pubkey"
  cr_aggregate_xonly :: "pubkey \<Rightarrow> pubkey \<Rightarrow> bytes option"
  cr_delay_since :: "u64 \<Rightarrow> u64"
  cr_commitment_lock :: script

text \<open>What the code relies on: digests have 32 bytes.\<close>

definition digest_len :: "crypto \<Rightarrow> bool" where
  "digest_len C \<longleftrightarrow> (\<forall>bs. length (cr_blake2b_256 C bs) = 32)"

definition blake160 :: "crypto \<Rightarrow> bytes \<Rightarrow> bytes" where
  "blake160 C bs = take 20 (cr_blake2b_256 C bs)"

definition key_hash :: "crypto \<Rightarrow> pubkey \<Rightarrow> bytes" where
  "key_hash C k = take 20 (cr_blake2b_256 C (cr_serialize_pubkey C k))"

definition settlement_tlc_witness :: "crypto \<Rightarrow> settlement_tlc \<Rightarrow> bool \<Rightarrow> channel_features \<Rightarrow> bytes" where
  "settlement_tlc_witness C tlc for_remote features =
     (let local = cr_pubkey C (st_local_key tlc);
          keys = (if for_remote then [st_remote_key tlc, local] else [local, st_remote_key tlc])
      in [push_bit 1 (hash_algorithm_u8 (st_hash_algorithm tlc)) + (if is_received_id (st_tlc_id tlc) then 1 else 0)] @
         to_le_bytes (st_payment_amount tlc) @
         take (payment_hash_len features) (to_be_bytes (st_payment_hash tlc)) @
         concat (map (key_hash C) keys) @
         to_le_bytes (0x4000000000000000 OR (st_expiry tlc div 1000)))"

definition settlement_data_witness ::
  "crypto \<Rightarrow> settlement_data \<Rightarrow> bool \<Rightarrow> channel_features \<Rightarrow> pubkey \<Rightarrow> pubkey \<Rightarrow> (bytes, unit) res" where
  "settlement_data_witness C data for_remote features local remote =
     bind_res (ensure (length (sd_tlcs data) < 256) ()) (\<lambda>_.
     let sides = (if for_remote then [(remote, sd_remote_amount data), (local, sd_local_amount data)]
                  else [(local, sd_local_amount data), (remote, sd_remote_amount data)])
     in Ok ([word_of_nat (length (sd_tlcs data))] @
            concat (map (\<lambda>t. settlement_tlc_witness C t for_remote features) (sd_tlcs data)) @
            concat (map (\<lambda>(key, amount). key_hash C key @ to_le_bytes amount) sides)))"

text \<open>\<open>settlement_data_to_witness\<close> panics where the encoder fails.\<close>

definition settlement_data_to_witness ::
  "crypto \<Rightarrow> settlement_data \<Rightarrow> bool \<Rightarrow> channel_features \<Rightarrow> 256 word \<Rightarrow> pubkey \<Rightarrow> (bytes, 'e) res" where
  "settlement_data_to_witness C data for_remote features local_key remote_key =
     (case settlement_data_witness C data for_remote features (cr_pubkey C local_key) remote_key of
        Ok w \<Rightarrow> Ok w | _ \<Rightarrow> Panic)"

section \<open>Decoding\<close>

record htlc =
  ht_type :: u8
  ht_payment_amount :: u128
  ht_payment_hash :: bytes
  ht_remote_pubkey_hash :: bytes
  ht_local_pubkey_hash :: bytes
  ht_expiry :: u64

definition htlc_build_from_witness :: "bytes \<Rightarrow> nat \<Rightarrow> (htlc, unit) res" where
  "htlc_build_from_witness w hash_len =
     bind_res (slice 0 1 w) (\<lambda>htlc_type.
     bind_res (slice 1 17 w) (\<lambda>payment_amount.
     bind_res (slice 17 (17 + hash_len) w) (\<lambda>payment_hash.
     let remote_start = 17 + hash_len; local_start = remote_start + 20; expiry_start = local_start + 20 in
     bind_res (slice remote_start (remote_start + 20) w) (\<lambda>remote_hash.
     bind_res (slice local_start (local_start + 20) w) (\<lambda>local_hash.
     bind_res (slice expiry_start (length w) w) (\<lambda>expiry.
     bind_res (rust_assert (length expiry = 8)) (\<lambda>_.
     Ok \<lparr>ht_type = htlc_type ! 0, ht_payment_amount = from_le_bytes payment_amount, ht_payment_hash = payment_hash,
         ht_remote_pubkey_hash = remote_hash, ht_local_pubkey_hash = local_hash,
         ht_expiry = from_le_bytes expiry\<rparr>)))))))"

definition htlc_to_witness :: "htlc \<Rightarrow> bytes" where
  "htlc_to_witness h = [ht_type h] @ to_le_bytes (ht_payment_amount h) @ ht_payment_hash h @
     ht_remote_pubkey_hash h @ ht_local_pubkey_hash h @ to_le_bytes (ht_expiry h)"

definition htlc_is_offered :: "htlc \<Rightarrow> bool" where
  "htlc_is_offered h \<longleftrightarrow> ht_type h AND 1 = 0"

record unlock =
  ul_type :: u8
  ul_with_preimage :: bool
  ul_signature :: bytes
  ul_preimage :: "hash256 option"

definition unlock_build_from_witness :: "bytes \<Rightarrow> (unlock, unit) res" where
  "unlock_build_from_witness w =
     bind_res (ensure (\<not> length w < 67) ()) (\<lambda>_.
     let with_preimage = (w ! 1 = 1) in
     bind_res (ensure (\<not> (with_preimage \<and> length w < 99)) ()) (\<lambda>_.
     bind_res (slice 2 67 w) (\<lambda>signature.
     bind_res (if with_preimage then bind_res (slice 67 99 w) (\<lambda>p. Ok (Some (from_be_bytes p))) else Ok None) (\<lambda>preimage.
     Ok \<lparr>ul_type = w ! 0, ul_with_preimage = with_preimage, ul_signature = signature, ul_preimage = preimage\<rparr>))))"

definition unlock_to_witness :: "unlock \<Rightarrow> (bytes, unit) res" where
  "unlock_to_witness u =
     bind_res (if ul_with_preimage u then bind_res (expect (ul_preimage u)) (\<lambda>p. Ok (to_be_bytes p)) else Ok []) (\<lambda>p.
     Ok ([ul_type u, if ul_with_preimage u then 1 else 0] @ ul_signature u @ p))"

definition unlock_witness_len :: "unlock \<Rightarrow> nat" where
  "unlock_witness_len u = (if ul_with_preimage u then 99 else 67)"

record settlement_witness =
  sw_pending_htlc_count :: nat
  sw_pending_htlcs :: "htlc list"
  sw_remote_pubkey_hash :: bytes
  sw_remote_amount :: u128
  sw_local_pubkey_hash :: bytes
  sw_local_amount :: u128
  sw_unlocks :: "unlock list"

definition fetch_htlc :: "nat \<Rightarrow> bytes \<Rightarrow> (htlc \<times> bytes, unit) res" where
  "fetch_htlc hash_len r =
     bind_res (reader_take (65 + hash_len) r) (\<lambda>(w, r).
     bind_res (htlc_build_from_witness w hash_len) (\<lambda>h. Ok (h, r)))"

definition fetch_unlock :: "bytes \<Rightarrow> (unlock \<times> bytes, unit) res" where
  "fetch_unlock r =
     bind_res (unlock_build_from_witness r) (\<lambda>u.
     bind_res (reader_take (unlock_witness_len u) r) (\<lambda>(_, r). Ok (u, r)))"

lemma fetch_unlock_shrinks: "fetch_unlock r = Ok (u, r') \<Longrightarrow> length r' < length r"
  by (auto simp: fetch_unlock_def reader_take_def unlock_witness_len_def unlock_build_from_witness_def Let_def split: if_splits)

function read_unlocks :: "bytes \<Rightarrow> (unlock list, unit) res" where
  "read_unlocks r = (if r = [] then Ok [] else
     bind_res (fetch_unlock r) (\<lambda>(u, r'). bind_res (read_unlocks r') (\<lambda>us. Ok (u # us))))"
  by pat_completeness auto
termination by (relation "measure length") (auto dest: fetch_unlock_shrinks)

declare read_unlocks.simps [simp del]

definition settlement_witness_build_from_witness :: "bytes \<Rightarrow> channel_features \<Rightarrow> (settlement_witness, unit) res" where
  "settlement_witness_build_from_witness witness features =
     bind_res (take_u8 witness) (\<lambda>(_, r).
     bind_res (take_u8 r) (\<lambda>(count, r).
     bind_res (read_many (fetch_htlc (payment_hash_len features)) (unat count) r) (\<lambda>(htlcs, r).
     bind_res (reader_take 20 r) (\<lambda>(remote_hash, r).
     bind_res (take_u128_le r) (\<lambda>(remote_amount, r).
     bind_res (reader_take 20 r) (\<lambda>(local_hash, r).
     bind_res (take_u128_le r) (\<lambda>(local_amount, r).
     bind_res (read_unlocks r) (\<lambda>unlocks.
     Ok \<lparr>sw_pending_htlc_count = unat count, sw_pending_htlcs = htlcs, sw_remote_pubkey_hash = remote_hash,
         sw_remote_amount = remote_amount, sw_local_pubkey_hash = local_hash, sw_local_amount = local_amount,
         sw_unlocks = unlocks\<rparr>))))))))"

definition settlement_witness_to_witness :: "settlement_witness \<Rightarrow> bytes" where
  "settlement_witness_to_witness sw = [word_of_nat (sw_pending_htlc_count sw)] @
     concat (map htlc_to_witness (sw_pending_htlcs sw)) @
     sw_remote_pubkey_hash sw @ to_le_bytes (sw_remote_amount sw) @
     sw_local_pubkey_hash sw @ to_le_bytes (sw_local_amount sw)"

text \<open>The unlocks of a settlement transaction, applied to the witness it leaves behind. On an
  invalid unlock the result is \<open>False\<close>.\<close>

fun apply_unlocks :: "nat \<Rightarrow> unlock list \<Rightarrow> settlement_witness \<Rightarrow> u8 list \<Rightarrow> bool \<times> settlement_witness \<times> u8 list" where
  "apply_unlocks n [] sw settled = (True, sw, settled)"
| "apply_unlocks n (u # us) sw settled =
     (if ul_type u = 0xFF then apply_unlocks n us (sw\<lparr>sw_local_amount := 0, sw_local_pubkey_hash := replicate 20 0\<rparr>) settled
      else if ul_type u = 0xFE then apply_unlocks n us (sw\<lparr>sw_remote_amount := 0, sw_remote_pubkey_hash := replicate 20 0\<rparr>) settled
      else if ul_type u < word_of_nat n then apply_unlocks n us sw (settled @ [ul_type u])
      else (False, sw, settled))"

fun retain_unsettled :: "u8 list \<Rightarrow> u8 \<Rightarrow> 'a list \<Rightarrow> 'a list" where
  "retain_unsettled settled i [] = []"
| "retain_unsettled settled i (x # xs) =
     (if i \<in> set settled then retain_unsettled settled (i + 1) xs else x # retain_unsettled settled (i + 1) xs)"

definition settlement_witness_update :: "settlement_witness \<Rightarrow> (bool \<times> settlement_witness, unit) res" where
  "settlement_witness_update sw =
     (let (valid, sw', settled) = apply_unlocks (sw_pending_htlc_count sw) (sw_unlocks sw) (sw\<lparr>sw_unlocks := []\<rparr>) []
      in if \<not> valid then Ok (False, sw')
         else if settled = [] then Ok (True, sw')
         else if sw_pending_htlc_count sw < length settled then Panic
         else Ok (True, sw'\<lparr>sw_pending_htlc_count := sw_pending_htlc_count sw - length settled,
                sw_pending_htlcs := retain_unsettled settled 0 (sw_pending_htlcs sw)\<rparr>))"

section \<open>Round trips\<close>

definition wf_htlc :: "nat \<Rightarrow> htlc \<Rightarrow> bool" where
  "wf_htlc n h \<longleftrightarrow> length (ht_payment_hash h) = n \<and> length (ht_remote_pubkey_hash h) = 20 \<and> length (ht_local_pubkey_hash h) = 20"

definition wf_unlock :: "unlock \<Rightarrow> bool" where
  "wf_unlock u \<longleftrightarrow> length (ul_signature u) = 65 \<and> (ul_with_preimage u \<longleftrightarrow> ul_preimage u \<noteq> None)"

definition unlock_bytes :: "unlock \<Rightarrow> bytes" where
  "unlock_bytes u = [ul_type u, if ul_with_preimage u then 1 else 0] @ ul_signature u @
     (case ul_preimage u of None \<Rightarrow> [] | Some p \<Rightarrow> to_be_bytes p)"

lemma unlock_to_witness_wf: "wf_unlock u \<Longrightarrow> unlock_to_witness u = Ok (unlock_bytes u)"
  by (cases "ul_preimage u") (auto simp: wf_unlock_def unlock_to_witness_def unlock_bytes_def)

lemma slice_mid: "length xs = a \<Longrightarrow> length ys = b - a \<Longrightarrow> a \<le> b \<Longrightarrow> slice a b (xs @ ys @ zs) = Ok ys"
  by (simp add: slice_def)

lemma htlc_build_inverse:
  assumes "wf_htlc n h"
  shows "htlc_build_from_witness (htlc_to_witness h) n = Ok h"
proof -
  let ?t = "[ht_type h]" and ?a = "to_le_bytes (ht_payment_amount h)" and ?p = "ht_payment_hash h"
    and ?r = "ht_remote_pubkey_hash h" and ?l = "ht_local_pubkey_hash h" and ?e = "to_le_bytes (ht_expiry h)"
  define w where "w = ?t @ ?a @ ?p @ ?r @ ?l @ ?e"
  have len: "length w = 65 + n" using assms by (simp add: wf_htlc_def w_def)
  have "slice 0 1 w = (Ok ?t :: (bytes, unit) res)" by (simp add: slice_def w_def)
  moreover have "slice 1 17 w = (Ok ?a :: (bytes, unit) res)" using slice_mid [of ?t 1 ?a 17] by (simp add: w_def)
  moreover have "slice 17 (17 + n) w = (Ok ?p :: (bytes, unit) res)"
    using assms slice_mid [of "?t @ ?a" 17 ?p "17 + n"] by (simp add: wf_htlc_def w_def)
  moreover have "slice (17 + n) (37 + n) w = (Ok ?r :: (bytes, unit) res)"
    using assms slice_mid [of "?t @ ?a @ ?p" "17 + n" ?r "37 + n"] by (simp add: wf_htlc_def w_def)
  moreover have "slice (37 + n) (57 + n) w = (Ok ?l :: (bytes, unit) res)"
    using assms slice_mid [of "?t @ ?a @ ?p @ ?r" "37 + n" ?l "57 + n"] by (simp add: wf_htlc_def w_def)
  moreover have "slice (57 + n) (65 + n) w = (Ok ?e :: (bytes, unit) res)"
    using assms slice_mid [of "?t @ ?a @ ?p @ ?r @ ?l" "57 + n" ?e "65 + n" "[]"] by (simp add: wf_htlc_def w_def)
  moreover have "htlc_to_witness h = w" by (simp add: htlc_to_witness_def w_def)
  ultimately show ?thesis
    by (simp add: htlc_build_from_witness_def Let_def len le_bytes_inverse add.commute)
qed

interpretation htc: prefix_codec htlc_to_witness "fetch_htlc n" "wf_htlc n" for n
proof unfold_locales
  fix h r assume wf: "wf_htlc n h"
  then have "length (htlc_to_witness h) = 65 + n" by (simp add: wf_htlc_def htlc_to_witness_def)
  then show "fetch_htlc n (htlc_to_witness h @ r) = Ok (h, r)"
    by (simp add: fetch_htlc_def htlc_build_inverse [OF wf])
qed

lemma length_unlock_bytes: "wf_unlock u \<Longrightarrow> length (unlock_bytes u) = unlock_witness_len u"
  by (cases "ul_preimage u") (auto simp: wf_unlock_def unlock_bytes_def unlock_witness_len_def)

lemma unlock_build_inverse:
  assumes "wf_unlock u"
  shows "unlock_build_from_witness (unlock_bytes u @ r) = Ok u"
proof (cases "ul_preimage u")
  case None
  with assms show ?thesis
    by (cases u) (simp add: wf_unlock_def unlock_bytes_def unlock_build_from_witness_def slice_def)
next
  case (Some p)
  with assms show ?thesis
    by (cases u) (simp add: wf_unlock_def unlock_bytes_def unlock_build_from_witness_def slice_def be_bytes_inverse)
qed

interpretation ulc: prefix_codec unlock_bytes fetch_unlock wf_unlock
  by unfold_locales (simp add: fetch_unlock_def unlock_build_inverse length_unlock_bytes)

lemma read_unlocks_put: "(\<And>u. u \<in> set us \<Longrightarrow> wf_unlock u) \<Longrightarrow> read_unlocks (concat (map unlock_bytes us)) = Ok us"
proof (induction us)
  case (Cons u us)
  have "unlock_bytes u \<noteq> []" by (simp add: unlock_bytes_def)
  with Cons show ?case by (simp add: read_unlocks.simps [of "_ @ _"] ulc.fetch_put)
qed (simp add: read_unlocks.simps)

definition wf_settlement_witness :: "channel_features \<Rightarrow> settlement_witness \<Rightarrow> bool" where
  "wf_settlement_witness f sw \<longleftrightarrow> sw_pending_htlc_count sw = length (sw_pending_htlcs sw) \<and> length (sw_pending_htlcs sw) < 256 \<and>
     (\<forall>h\<in>set (sw_pending_htlcs sw). wf_htlc (payment_hash_len f) h) \<and>
     length (sw_remote_pubkey_hash sw) = 20 \<and> length (sw_local_pubkey_hash sw) = 20 \<and> (\<forall>u\<in>set (sw_unlocks sw). wf_unlock u)"

lemma settlement_witness_parse:
  assumes "wf_settlement_witness f sw"
  shows "settlement_witness_build_from_witness (n # settlement_witness_to_witness sw @ concat (map unlock_bytes (sw_unlocks sw))) f = Ok sw"
proof -
  have len: "unat (word_of_nat (length (sw_pending_htlcs sw)) :: u8) = length (sw_pending_htlcs sw)"
    using assms by (simp add: wf_settlement_witness_def unat_of_nat take_bit_nat_eq_self)
  have u8: "take_u8 (b # r) = Ok (b, r)" for b r using u8c.fetch_put [of b r] by simp
  have many: "read_many (fetch_htlc (payment_hash_len f)) (length (sw_pending_htlcs sw)) (concat (map htlc_to_witness (sw_pending_htlcs sw)) @ r) = Ok (sw_pending_htlcs sw, r)" for r
    using assms by (intro htc.read_many_put) (simp add: wf_settlement_witness_def)
  have unlocks: "read_unlocks (concat (map unlock_bytes (sw_unlocks sw))) = Ok (sw_unlocks sw)"
    using assms by (intro read_unlocks_put) (simp add: wf_settlement_witness_def)
  show ?thesis
    using assms
    by (simp add: settlement_witness_build_from_witness_def settlement_witness_to_witness_def u8 len many unlocks
        u128c.fetch_put wf_settlement_witness_def)
qed

text \<open>C36. The watchtower reads back exactly what was written: decoding the encoding of a settlement
  witness followed by its unlocks returns it, for both witness layouts (20 or 32 hash bytes), any
  number of TLCs that fits the count byte and any unlocks.\<close>

theorem settlement_witness_roundtrip:
  assumes "wf_settlement_witness features sw"
  shows "settlement_witness_build_from_witness
      (unlock_count # settlement_witness_to_witness sw @ concat (map unlock_bytes (sw_unlocks sw))) features = Ok sw"
  using assms by (rule settlement_witness_parse)

definition sample_htlc :: htlc where
  "sample_htlc = \<lparr>ht_type = 1, ht_payment_amount = 5, ht_payment_hash = replicate 20 9,
     ht_remote_pubkey_hash = replicate 20 1, ht_local_pubkey_hash = replicate 20 2, ht_expiry = 0x4000000000000001\<rparr>"

definition sample_witness :: settlement_witness where
  "sample_witness = \<lparr>sw_pending_htlc_count = 1, sw_pending_htlcs = [sample_htlc], sw_remote_pubkey_hash = replicate 20 3,
     sw_remote_amount = 100, sw_local_pubkey_hash = replicate 20 4, sw_local_amount = 200,
     sw_unlocks = [\<lparr>ul_type = 0, ul_with_preimage = True, ul_signature = replicate 65 7, ul_preimage = Some 11\<rparr>]\<rparr>"

lemma sample_witness_wf: "wf_settlement_witness LEGACY sample_witness"
  by (simp add: wf_settlement_witness_def sample_witness_def sample_htlc_def wf_htlc_def wf_unlock_def
      payment_hash_len_def features_is_v2_def LEGACY_def)

theorem settlement_witness_roundtrip_witness:
  "\<exists>bs. settlement_witness_build_from_witness bs LEGACY = Ok sample_witness"
  using settlement_witness_roundtrip [OF sample_witness_wf] by blast

section \<open>What the witness commits to\<close>

text \<open>The decoded view of a settlement snapshot.\<close>

definition htlc_of :: "crypto \<Rightarrow> bool \<Rightarrow> channel_features \<Rightarrow> settlement_tlc \<Rightarrow> htlc" where
  "htlc_of C for_remote f t = (let local = key_hash C (cr_pubkey C (st_local_key t)); remote = key_hash C (st_remote_key t) in
     \<lparr>ht_type = push_bit 1 (hash_algorithm_u8 (st_hash_algorithm t)) + (if is_received_id (st_tlc_id t) then 1 else 0),
      ht_payment_amount = st_payment_amount t,
      ht_payment_hash = take (payment_hash_len f) (to_be_bytes (st_payment_hash t)),
      ht_remote_pubkey_hash = (if for_remote then remote else local),
      ht_local_pubkey_hash = (if for_remote then local else remote),
      ht_expiry = 0x4000000000000000 OR (st_expiry t div 1000)\<rparr>)"

definition witness_of :: "crypto \<Rightarrow> bool \<Rightarrow> channel_features \<Rightarrow> pubkey \<Rightarrow> pubkey \<Rightarrow> settlement_data \<Rightarrow> settlement_witness" where
  "witness_of C for_remote f local remote d =
     \<lparr>sw_pending_htlc_count = length (sd_tlcs d), sw_pending_htlcs = map (htlc_of C for_remote f) (sd_tlcs d),
      sw_remote_pubkey_hash = key_hash C (if for_remote then remote else local),
      sw_remote_amount = (if for_remote then sd_remote_amount d else sd_local_amount d),
      sw_local_pubkey_hash = key_hash C (if for_remote then local else remote),
      sw_local_amount = (if for_remote then sd_local_amount d else sd_remote_amount d), sw_unlocks = []\<rparr>"

lemma settlement_tlc_witness_htlc: "settlement_tlc_witness C t for_remote f = htlc_to_witness (htlc_of C for_remote f t)"
  by (simp add: settlement_tlc_witness_def htlc_to_witness_def htlc_of_def Let_def)

lemma settlement_data_witness_eq:
  "settlement_data_witness C d for_remote f local remote = Ok w \<longleftrightarrow>
   length (sd_tlcs d) < 256 \<and> w = settlement_witness_to_witness (witness_of C for_remote f local remote d)"
  by (auto simp: settlement_data_witness_def settlement_witness_to_witness_def witness_of_def Let_def
      settlement_tlc_witness_htlc comp_def)

lemma payment_hash_len_le: "payment_hash_len f \<le> 32"
  by (simp add: payment_hash_len_def)

lemma wf_witness_of:
  assumes "digest_len C" and "length (sd_tlcs d) < 256"
  shows "wf_settlement_witness f (witness_of C for_remote f local remote d)"
  using assms payment_hash_len_le [of f]
  by (auto simp: wf_settlement_witness_def witness_of_def wf_htlc_def htlc_of_def Let_def key_hash_def digest_len_def)

lemma since_inject: "0x4000000000000000 OR (a div 1000) = 0x4000000000000000 OR (b div 1000) \<Longrightarrow> a div 1000 = b div (1000 :: u64)"
proof -
  have small: "(a div 1000) AND 0x4000000000000000 = 0" for a :: u64
  proof -
    have "unat (a div 1000) < 2 ^ 62" using unat_bound [of a] by (simp add: unat_div)
    then have "take_bit 62 (a div 1000) = a div 1000"
      by (simp add: word_unat_eq_iff unsigned_take_bit_eq take_bit_nat_eq_self)
    then have "\<not> bit (a div 1000) 62" by (metis bit_take_bit_iff less_irrefl)
    then have "(a div 1000) AND 2 ^ 62 = 0" by (simp only: and_exp_eq_0_iff_not_bit not_False_eq_True)
    then show ?thesis by simp
  qed
  have cancel: "(m OR x) AND NOT m = x" if "x AND m = 0" for x m :: u64
    using that by (auto simp: bit_eq_iff bit_simps)
  assume "0x4000000000000000 OR (a div 1000) = 0x4000000000000000 OR (b div 1000)"
  then show "a div 1000 = b div 1000" using cancel [OF small [of a]] cancel [OF small [of b]] by metis
qed

lemma parse_witness_of:
  assumes "digest_len C" and "length (sd_tlcs d) < 256"
  shows "settlement_witness_build_from_witness (n # settlement_witness_to_witness (witness_of C for_remote f local remote d)) f =
    Ok (witness_of C for_remote f local remote d)"
proof -
  let ?w = "witness_of C for_remote f local remote d"
  have "settlement_witness_build_from_witness
      (n # settlement_witness_to_witness ?w @ concat (map unlock_bytes (sw_unlocks ?w))) f = Ok ?w"
    by (rule settlement_witness_parse [OF wf_witness_of [OF assms]])
  moreover have "sw_unlocks ?w = []" by (simp add: witness_of_def)
  ultimately show ?thesis by simp
qed

text \<open>The terms of a TLC that the chain sees.\<close>

definition chain_terms :: "channel_features \<Rightarrow> settlement_tlc \<Rightarrow> u8 \<times> u128 \<times> bytes \<times> u64" where
  "chain_terms f t = (push_bit 1 (hash_algorithm_u8 (st_hash_algorithm t)) + (if is_received_id (st_tlc_id t) then 1 else 0),
     st_payment_amount t, take (payment_hash_len f) (to_be_bytes (st_payment_hash t)), st_expiry t div 1000)"

lemma htlc_of_terms: "htlc_of C r f t = htlc_of C' r' f t' \<Longrightarrow> chain_terms f t = chain_terms f t'"
  by (auto simp: htlc_of_def chain_terms_def Let_def dest!: since_inject)

lemma map_eq_transfer:
  assumes "map f xs = map g ys" and "\<And>x y. f x = g y \<Longrightarrow> h x = h y"
  shows "map h xs = map h ys"
  using assms(1)
proof (induction xs arbitrary: ys)
  case (Cons x xs)
  then obtain y zs where "ys = y # zs" "f x = g y" "map f xs = map g zs" by (cases ys) auto
  with Cons.IH assms(2) show ?case by auto
qed simp

text \<open>C19. The witness commits to the settlement: two snapshots with the same encoding pay the same
  amounts and contain the same TLCs in the same order, with the same direction, hash algorithm,
  amount, hash prefix and expiry second; for a V2 channel the full payment hashes agree.\<close>

theorem settlement_witness_binds:
  assumes "digest_len C"
    and "settlement_data_witness C d for_remote features local remote = Ok w"
    and "settlement_data_witness C d' for_remote features local remote = Ok w"
  shows "sd_local_amount d' = sd_local_amount d \<and> sd_remote_amount d' = sd_remote_amount d \<and>
    map (chain_terms features) (sd_tlcs d') = map (chain_terms features) (sd_tlcs d) \<and>
    (features_is_v2 features \<longrightarrow> map st_payment_hash (sd_tlcs d') = map st_payment_hash (sd_tlcs d))"
proof -
  let ?w = "witness_of C for_remote features local remote"
  note eq = assms(2,3) [unfolded settlement_data_witness_eq]
  have bytes: "settlement_witness_to_witness (?w d) = settlement_witness_to_witness (?w d')"
    using eq(1) [THEN conjunct2] eq(2) [THEN conjunct2] by (rule subst)
  have "(Ok (?w d) :: (settlement_witness, unit) res) = Ok (?w d')"
    unfolding parse_witness_of [OF assms(1) eq(1) [THEN conjunct1], of 0, symmetric]
      parse_witness_of [OF assms(1) eq(2) [THEN conjunct1], of 0, symmetric] bytes ..
  then have same: "?w d = ?w d'" by (rule res.inject(1) [THEN iffD1])
  have htlcs: "map (htlc_of C for_remote features) (sd_tlcs d') = map (htlc_of C for_remote features) (sd_tlcs d)"
    using arg_cong [OF same [symmetric], of sw_pending_htlcs] unfolding witness_of_def settlement_witness.simps .
  have amounts: "sd_local_amount d' = sd_local_amount d" "sd_remote_amount d' = sd_remote_amount d"
    using arg_cong [OF same, of sw_local_amount] arg_cong [OF same, of sw_remote_amount]
    unfolding witness_of_def settlement_witness.simps by (cases for_remote; simp)+
  have terms: "map (chain_terms features) (sd_tlcs d') = map (chain_terms features) (sd_tlcs d)"
    using htlcs htlc_of_terms by (rule map_eq_transfer)
  have "st_payment_hash x = st_payment_hash y" if "features_is_v2 features" "chain_terms features x = chain_terms features y" for x y
  proof -
    have "to_be_bytes (st_payment_hash x) = to_be_bytes (st_payment_hash y)"
      using that by (simp add: chain_terms_def payment_hash_len_def)
    then have "(from_be_bytes (to_be_bytes (st_payment_hash x)) :: hash256) = from_be_bytes (to_be_bytes (st_payment_hash y))"
      by (rule arg_cong)
    then show ?thesis by (simp add: be_bytes_inverse)
  qed
  then have "features_is_v2 features \<longrightarrow> map st_payment_hash (sd_tlcs d') = map st_payment_hash (sd_tlcs d)"
    using map_eq_transfer [OF terms] by blast
  with amounts terms show ?thesis by blast
qed

definition sample_crypto :: crypto where
  "sample_crypto = \<lparr>cr_blake2b_256 = (\<lambda>bs. take 32 (bs @ replicate 32 0)), cr_serialize_pubkey = (\<lambda>k. to_be_bytes k),
     cr_pubkey = (\<lambda>k. ucast k), cr_aggregate_xonly = (\<lambda>a b. Some [ucast a, ucast b]),
     cr_delay_since = (\<lambda>n. n), cr_commitment_lock = script_default\<rparr>"

lemma sample_crypto_digest: "digest_len sample_crypto"
  by (auto simp: digest_len_def sample_crypto_def)

definition sample_settlement :: settlement_data where
  "sample_settlement = \<lparr>sd_local_amount = 10, sd_remote_amount = 20, sd_tlcs =
     [\<lparr>st_tlc_id = Offered 3, st_hash_algorithm = Sha256, st_payment_amount = 5, st_payment_hash = 99,
       st_expiry = 123456, st_local_key = 8, st_remote_key = 9\<rparr>]\<rparr>"

theorem settlement_witness_binds_witness:
  "\<exists>w. settlement_data_witness sample_crypto sample_settlement True V2 1 2 = Ok w \<and>
       (\<forall>d'. settlement_data_witness sample_crypto d' True V2 1 2 = Ok w \<longrightarrow>
          sd_local_amount d' = 10 \<and> map st_payment_hash (sd_tlcs d') = [99])"
proof -
  obtain w where w: "settlement_data_witness sample_crypto sample_settlement True V2 1 2 = Ok w"
    by (simp add: settlement_data_witness_def sample_settlement_def)
  have "features_is_v2 V2" by (simp add: features_is_v2_def V2_def)
  then have "sd_local_amount d' = 10 \<and> map st_payment_hash (sd_tlcs d') = [99]"
    if "settlement_data_witness sample_crypto d' True V2 1 2 = Ok w" for d'
    using settlement_witness_binds [OF sample_crypto_digest w that] by (simp add: sample_settlement_def)
  with w show ?thesis by blast
qed

section \<open>Both parties build the same witness\<close>

text \<open>\<open>d\<close> is what one party computes for the peer's commitment, \<open>d'\<close> what the peer computes for its
  own: amounts swapped, the same TLCs, and each side's local key is the other's remote key.\<close>

definition mirrored_tlc :: "crypto \<Rightarrow> settlement_tlc \<Rightarrow> settlement_tlc \<Rightarrow> bool" where
  "mirrored_tlc C t t' \<longleftrightarrow> st_tlc_id t' = st_tlc_id t \<and> st_hash_algorithm t' = st_hash_algorithm t \<and>
     st_payment_amount t' = st_payment_amount t \<and> st_payment_hash t' = st_payment_hash t \<and> st_expiry t' = st_expiry t \<and>
     cr_pubkey C (st_local_key t') = st_remote_key t \<and> st_remote_key t' = cr_pubkey C (st_local_key t)"

definition mirrored_settlement :: "crypto \<Rightarrow> settlement_data \<Rightarrow> settlement_data \<Rightarrow> bool" where
  "mirrored_settlement C d d' \<longleftrightarrow> sd_local_amount d' = sd_remote_amount d \<and> sd_remote_amount d' = sd_local_amount d \<and>
     list_all2 (mirrored_tlc C) (sd_tlcs d) (sd_tlcs d')"

text \<open>Both parties compute the same bytes: the witness one party encodes for the peer's commitment
  (\<open>for_remote\<close>) is the witness the peer encodes for its own, so the hash in the commitment lock and
  the signatures over it agree; the encoder fails for one exactly when it fails for the other.\<close>

lemma settlement_witnesses_agree:
  assumes "mirrored_settlement C d d'"
  shows "settlement_data_witness C d True features local remote = settlement_data_witness C d' False features remote local"
proof -
  have "settlement_tlc_witness C t True features = settlement_tlc_witness C t' False features" if "mirrored_tlc C t t'" for t t'
    using that by (simp add: mirrored_tlc_def settlement_tlc_witness_def Let_def)
  then have "map (\<lambda>t. settlement_tlc_witness C t True features) (sd_tlcs d) = map (\<lambda>t. settlement_tlc_witness C t False features) (sd_tlcs d')"
    using assms by (auto simp: mirrored_settlement_def list_all2_conv_all_nth intro: nth_equalityI)
  moreover have "length (sd_tlcs d) = length (sd_tlcs d')"
    using assms by (auto simp: mirrored_settlement_def dest: list_all2_lengthD)
  ultimately show ?thesis using assms by (simp add: settlement_data_witness_def mirrored_settlement_def)
qed

section \<open>Successive settlements\<close>

definition tlc_unlocks :: "unlock list \<Rightarrow> u8 list" where
  "tlc_unlocks us = map ul_type (filter (\<lambda>u. ul_type u < 0xFE) us)"

definition parties_paid :: "unlock list \<Rightarrow> settlement_witness \<Rightarrow> settlement_witness" where
  "parties_paid us sw = (let sw = (if 0xFF \<in> ul_type ` set us then sw\<lparr>sw_local_amount := 0, sw_local_pubkey_hash := replicate 20 0\<rparr> else sw)
     in if 0xFE \<in> ul_type ` set us then sw\<lparr>sw_remote_amount := 0, sw_remote_pubkey_hash := replicate 20 0\<rparr> else sw)"

lemma u8_tlc_index: "(x :: u8) < 0xFE \<longleftrightarrow> x \<noteq> 0xFE \<and> x \<noteq> 0xFF"
  using unat_bound [of x] by (auto simp: word_less_nat_alt word_unat_eq_iff)

lemma u8_less_nat: "n < 256 \<Longrightarrow> (x :: u8) < word_of_nat n \<longleftrightarrow> unat x < n"
  by (simp add: word_less_nat_alt unat_of_nat)

lemma apply_unlocks_valid:
  assumes "n < 256" and "\<forall>u\<in>set us. ul_type u < 0xFE \<longrightarrow> unat (ul_type u) < n"
  shows "apply_unlocks n us sw settled = (True, parties_paid us sw, settled @ tlc_unlocks us)"
  using assms(2)
proof (induction us arbitrary: sw settled)
  case Nil
  show ?case by (simp add: parties_paid_def tlc_unlocks_def)
next
  case (Cons u us)
  consider "ul_type u = 0xFF" | "ul_type u = 0xFE" | "ul_type u < 0xFE" using u8_tlc_index by blast
  then show ?case
  proof cases
    case 1
    then show ?thesis using Cons by (simp add: parties_paid_def tlc_unlocks_def Let_def)
  next
    case 2
    then show ?thesis using Cons by (simp add: parties_paid_def tlc_unlocks_def Let_def)
  next
    case 3
    then show ?thesis using Cons assms(1) u8_tlc_index [of "ul_type u"]
      by (simp add: parties_paid_def tlc_unlocks_def u8_less_nat Let_def)
  qed
qed

lemma retain_unsettled_nths:
  "retain_unsettled settled (word_of_nat k) xs = nths xs {i. word_of_nat (k + i) \<notin> set settled}"
proof (induction xs arbitrary: k)
  case (Cons x xs)
  have "retain_unsettled settled (word_of_nat k + 1) xs = nths xs {i. word_of_nat (Suc k + i) \<notin> set settled}"
    using Cons [of "Suc k"] by (simp add: add.commute)
  then show ?case by (simp add: nths_Cons ac_simps)
qed simp

lemma length_nths_le: "length (nths xs A) \<le> length xs"
proof -
  have "card {i. i < length xs \<and> i \<in> A} \<le> card {..<length xs}" by (rule card_mono) auto
  then show ?thesis by (simp add: length_nths)
qed

lemma card_settled:
  assumes "distinct settled" and "n \<le> 256" and "\<forall>x\<in>set settled. unat (x :: u8) < n"
  shows "card {i. i < n \<and> word_of_nat i \<notin> set settled} = n - length settled \<and> length settled \<le> n"
proof -
  have split: "{i. i < n \<and> word_of_nat i \<notin> set settled} = {..<n} - unat ` set settled"
    using assms(2) by (force simp: unat_of_nat)
  have sub: "unat ` set settled \<subseteq> {..<n}" using assms(3) by auto
  have card: "card (unat ` set settled) = length settled"
    using distinct_card [OF assms(1)] by (simp add: card_image inj_on_def word_unat_eq_iff)
  show ?thesis unfolding split
    using card_Diff_subset [OF _ sub] card_mono [OF _ sub] card by simp
qed

lemma update_valid:
  assumes "wf_settlement_witness f sw" and "distinct (tlc_unlocks (sw_unlocks sw))"
    and "\<forall>u\<in>set (sw_unlocks sw). ul_type u < 0xFE \<longrightarrow> unat (ul_type u) < sw_pending_htlc_count sw"
  defines "left \<equiv> nths (sw_pending_htlcs sw) {i. word_of_nat i \<notin> set (tlc_unlocks (sw_unlocks sw))}"
  shows "settlement_witness_update sw = Ok (True, (parties_paid (sw_unlocks sw) (sw\<lparr>sw_unlocks := []\<rparr>))
    \<lparr>sw_pending_htlc_count := length left, sw_pending_htlcs := left\<rparr>)"
proof -
  let ?n = "sw_pending_htlc_count sw" and ?s = "tlc_unlocks (sw_unlocks sw)"
  have n: "?n = length (sw_pending_htlcs sw)" "?n < 256" using assms(1) by (auto simp: wf_settlement_witness_def)
  have applied: "apply_unlocks ?n (sw_unlocks sw) (sw\<lparr>sw_unlocks := []\<rparr>) [] =
      (True, parties_paid (sw_unlocks sw) (sw\<lparr>sw_unlocks := []\<rparr>), ?s)"
    using apply_unlocks_valid [OF n(2) assms(3)] by simp
  have "\<forall>x\<in>set ?s. unat x < ?n" using assms(3) by (auto simp: tlc_unlocks_def)
  then have card: "length left = ?n - length ?s" "length ?s \<le> ?n"
    using card_settled [OF assms(2), of ?n] n by (simp_all add: left_def length_nths)
  have same: "parties_paid (sw_unlocks sw) (sw\<lparr>sw_unlocks := []\<rparr>) = (parties_paid (sw_unlocks sw) (sw\<lparr>sw_unlocks := []\<rparr>))
    \<lparr>sw_pending_htlc_count := ?n, sw_pending_htlcs := sw_pending_htlcs sw\<rparr>"
    by (simp add: parties_paid_def Let_def)
  show ?thesis
  proof (cases "?s = []")
    case True
    then have "left = sw_pending_htlcs sw" by (simp add: left_def nths_all)
    then show ?thesis using True applied same n by (simp add: settlement_witness_update_def)
  next
    case False
    have "retain_unsettled ?s 0 (sw_pending_htlcs sw) = left"
      using retain_unsettled_nths [of ?s 0] by (simp add: left_def)
    then show ?thesis using False applied card by (simp add: settlement_witness_update_def)
  qed
qed

lemma wf_parties_paid: "wf_settlement_witness f sw \<Longrightarrow> wf_settlement_witness f (parties_paid us sw)"
  by (simp add: wf_settlement_witness_def parties_paid_def Let_def)

text \<open>After a settlement transaction the watchtower expects exactly the right next witness: when the
  unlocks name existing TLCs and no TLC twice, the update succeeds, drops exactly the unlocked TLCs
  (keeping the order of the others), zeroes a party's share exactly when that party unlocked, leaves
  no unlocks, and the result is again a well-formed witness whose count byte is its length.\<close>

lemma settlement_witness_update_exact:
  assumes "wf_settlement_witness features sw" and "distinct (tlc_unlocks (sw_unlocks sw))"
    and "\<forall>u\<in>set (sw_unlocks sw). ul_type u < 0xFE \<longrightarrow> unat (ul_type u) < sw_pending_htlc_count sw"
  shows "\<exists>sw'. settlement_witness_update sw = Ok (True, sw') \<and> wf_settlement_witness features sw' \<and> sw_unlocks sw' = [] \<and>
    sw_pending_htlcs sw' = nths (sw_pending_htlcs sw) {i. word_of_nat i \<notin> set (tlc_unlocks (sw_unlocks sw))} \<and>
    sw_local_amount sw' = (if 0xFF \<in> ul_type ` set (sw_unlocks sw) then 0 else sw_local_amount sw) \<and>
    sw_remote_amount sw' = (if 0xFE \<in> ul_type ` set (sw_unlocks sw) then 0 else sw_remote_amount sw)"
proof -
  let ?left = "nths (sw_pending_htlcs sw) {i. word_of_nat i \<notin> set (tlc_unlocks (sw_unlocks sw))}"
  let ?base = "parties_paid (sw_unlocks sw) (sw\<lparr>sw_unlocks := []\<rparr>)"
  have base: "wf_settlement_witness features ?base"
    using assms(1) by (intro wf_parties_paid) (simp add: wf_settlement_witness_def)
  have "length ?left \<le> length (sw_pending_htlcs sw)" by (rule length_nths_le)
  moreover have "set ?left \<subseteq> set (sw_pending_htlcs sw)" by (rule set_nths_subset)
  ultimately have "wf_settlement_witness features (?base\<lparr>sw_pending_htlc_count := length ?left, sw_pending_htlcs := ?left\<rparr>)"
    using base assms(1) by (auto simp: wf_settlement_witness_def)
  then show ?thesis unfolding update_valid [OF assms] by (simp add: parties_paid_def Let_def)
qed

end
