(* ===== verification/Watch_Store.thy ===== *)
theory Watch_Store
  imports Settlement_Witness "HOL-Library.AList"
begin

text \<open>
  The watchtower's part of the store (\<^verbatim>\<open>fiber-lib/src/store/store_impl/mod.rs\<close>): the channels a node
  watches, the preimages it knows, and the evidence about TLCs settled on chain. A column of the
  key-value store is an association list from the components of its keys; the byte layout of the
  keys, and that it loses nothing, is in the first section. The write locks of the source make each
  operation atomic. Whether a channel actor still exists and is open is an argument.
\<close>

section \<open>Keys\<close>

type_synonym node_id = bytes

definition WATCHTOWER_TLC_SETTLED_PREFIX :: u8 where "WATCHTOWER_TLC_SETTLED_PREFIX = 200"
definition WATCHTOWER_CHANNEL_PREFIX :: u8 where "WATCHTOWER_CHANNEL_PREFIX = 224"
definition WATCHTOWER_PREIMAGE_PREFIX :: u8 where "WATCHTOWER_PREIMAGE_PREFIX = 225"
definition WATCHTOWER_NODE_PAYMENTHASH_PREFIX :: u8 where "WATCHTOWER_NODE_PAYMENTHASH_PREFIX = 226"

lemmas watch_prefixes = WATCHTOWER_TLC_SETTLED_PREFIX_def WATCHTOWER_CHANNEL_PREFIX_def
  WATCHTOWER_PREIMAGE_PREFIX_def WATCHTOWER_NODE_PAYMENTHASH_PREFIX_def

definition legacy_tlc_on_chain_settled_key :: "hash256 \<Rightarrow> bytes \<Rightarrow> bytes" where
  "legacy_tlc_on_chain_settled_key channel_id payment_hash =
     [WATCHTOWER_TLC_SETTLED_PREFIX] @ to_be_bytes channel_id @ payment_hash"

definition tlc_on_chain_settled_key :: "node_id \<Rightarrow> hash256 \<Rightarrow> tlc_id \<Rightarrow> bytes" where
  "tlc_on_chain_settled_key node_id channel_id tlc_id =
     (let (direction, i) = (case tlc_id of Offered i \<Rightarrow> (0, i) | Received i \<Rightarrow> (1, i))
      in [WATCHTOWER_TLC_SETTLED_PREFIX] @ to_be_bytes channel_id @ [2, direction] @ to_be_bytes i @ node_id)"

definition watchtower_preimage_key :: "node_id \<Rightarrow> hash256 \<Rightarrow> bytes" where
  "watchtower_preimage_key node_id payment_hash = [WATCHTOWER_PREIMAGE_PREFIX] @ to_be_bytes payment_hash @ node_id"

definition watchtower_node_payment_hash_key :: "node_id \<Rightarrow> hash256 \<Rightarrow> bytes" where
  "watchtower_node_payment_hash_key node_id payment_hash =
     [WATCHTOWER_NODE_PAYMENTHASH_PREFIX] @ node_id @ to_be_bytes payment_hash"

definition watchtower_channel_key :: "node_id \<Rightarrow> hash256 \<Rightarrow> bytes" where
  "watchtower_channel_key node_id channel_id = [WATCHTOWER_CHANNEL_PREFIX] @ node_id @ to_be_bytes channel_id"

definition parse_watchtower_scoped_payment_hash_key :: "bytes \<Rightarrow> (node_id \<times> hash256) option" where
  "parse_watchtower_scoped_payment_hash_key key =
     (if length key < 1 + 32 then None
      else let off = length key - 32 in Some (drop 1 (take off key), from_be_bytes (drop off key)))"

definition parse_watchtower_channel_key :: "bytes \<Rightarrow> (node_id \<times> hash256) option" where
  "parse_watchtower_channel_key key =
     (if length key < 1 + 32 then None
      else let off = length key - 32 in Some (drop 1 (take off key), from_be_bytes (drop off key)))"

lemma hash256_sized: "byte_sized TYPE(256 word)" "byte_sized TYPE(64 word)"
  by (simp_all add: byte_sized_def)

lemma to_be_bytes_inject: "to_be_bytes (a :: hash256) = to_be_bytes b \<longleftrightarrow> a = b"
  using be_bytes_inverse [OF hash256_sized(1), of a] be_bytes_inverse [OF hash256_sized(1), of b] by metis

lemma to_be_bytes_inject_u64: "to_be_bytes (a :: u64) = to_be_bytes b \<longleftrightarrow> a = b"
  using be_bytes_inverse [OF hash256_sized(2), of a] be_bytes_inverse [OF hash256_sized(2), of b] by metis

lemma parse_watch_keys:
  "parse_watchtower_channel_key (watchtower_channel_key n c) = Some (n, c)"
  "parse_watchtower_scoped_payment_hash_key (watchtower_node_payment_hash_key n h) = Some (n, h)"
  by (simp_all add: parse_watchtower_channel_key_def parse_watchtower_scoped_payment_hash_key_def
      watchtower_channel_key_def watchtower_node_payment_hash_key_def be_bytes_inverse hash256_sized)

lemma settled_key_inject:
  "tlc_on_chain_settled_key n c t = tlc_on_chain_settled_key n' c' t' \<longleftrightarrow> n = n' \<and> c = c' \<and> t = t'"
  by (cases t; cases t') (auto simp: tlc_on_chain_settled_key_def to_be_bytes_inject to_be_bytes_inject_u64)

lemma preimage_key_inject:
  "watchtower_preimage_key n h = watchtower_preimage_key n' h' \<longleftrightarrow> n = n' \<and> h = h'"
  by (auto simp: watchtower_preimage_key_def to_be_bytes_inject)

lemma legacy_key_distinct:
  assumes "length p = 20" and "legacy_tlc_on_chain_settled_key c p = tlc_on_chain_settled_key n c' t"
  shows "length n = 10"
  using arg_cong [OF assms(2), of length] assms(1)
  by (cases t) (simp_all add: legacy_tlc_on_chain_settled_key_def tlc_on_chain_settled_key_def)

text \<open>Keys of the watchtower columns identify what they stand for: the channel and payment-hash keys
  parse back to the node and the hash whatever the length of the node id, settlement and preimage
  keys are injective, and a legacy settlement key can equal a current one only for a node id of
  ten bytes.\<close>

lemma watch_keys_identify:
  "parse_watchtower_channel_key (watchtower_channel_key n c) = Some (n, c) \<and>
   parse_watchtower_scoped_payment_hash_key (watchtower_node_payment_hash_key n c) = Some (n, c) \<and>
   (tlc_on_chain_settled_key n c t = tlc_on_chain_settled_key n' c' t' \<longleftrightarrow> n = n' \<and> c = c' \<and> t = t') \<and>
   (watchtower_preimage_key n c = watchtower_preimage_key n' c' \<longleftrightarrow> n = n' \<and> c = c') \<and>
   \<not> (length p = 20 \<and> length n \<noteq> 10 \<and> legacy_tlc_on_chain_settled_key c' p = tlc_on_chain_settled_key n c t)"
  using legacy_key_distinct [of p c' n c t] by (simp add: parse_watch_keys settled_key_inject preimage_key_inject) blast

section \<open>State\<close>

record revocation_data =
  rd_commitment_number :: u64
  rd_aggregated_signature :: bytes
  rd_output :: cell_output
  rd_output_data :: bytes

record channel_data =
  cd_channel_id :: hash256
  cd_funding_udt_type_script :: "script option"
  cd_local_settlement_key :: "256 word"
  cd_remote_settlement_key :: pubkey
  cd_local_funding_pubkey :: pubkey
  cd_remote_funding_pubkey :: pubkey
  cd_remote_settlement_data :: settlement_data
  cd_pending_remote_settlement_data :: settlement_data
  cd_local_settlement_data :: settlement_data
  cd_revocation_data :: "revocation_data option"
  cd_channel_features :: channel_features

record onchain_tlc_settlement =
  os_payment_hash :: hash256
  os_hash_algorithm :: hash_algorithm
  os_preimage :: "hash256 option"
  os_tx_hash :: hash256
  os_tlc_index :: u8

record legacy_onchain_tlc_settlement =
  ls_preimage :: "hash256 option"
  ls_tx_hash :: "hash256 option"
  ls_tlc_index :: "u8 option"

datatype stored_onchain_tlc_settlement =
  Exact onchain_tlc_settlement | Legacy legacy_onchain_tlc_settlement

text \<open>A legacy value may be empty, here \<open>None\<close>.\<close>

record watch_store =
  ws_channels :: "((node_id \<times> hash256) \<times> channel_data) list"
  ws_preimages :: "((node_id \<times> hash256) \<times> hash256) list"
  ws_node_payment_hashes :: "(node_id \<times> hash256) list"
  ws_settled :: "((node_id \<times> hash256 \<times> tlc_id) \<times> onchain_tlc_settlement) list"
  ws_legacy_settled :: "((hash256 \<times> bytes) \<times> legacy_onchain_tlc_settlement option) list"

datatype preimage_cleanup_target = ExactHash hash256 | ExactSet "hash256 list"

fun cleanup_target_matches :: "preimage_cleanup_target \<Rightarrow> hash256 \<Rightarrow> bool" where
  "cleanup_target_matches (ExactHash target) payment_hash \<longleftrightarrow> payment_hash = target"
| "cleanup_target_matches (ExactSet targets) payment_hash \<longleftrightarrow> payment_hash \<in> set targets"

section \<open>Preimages in use\<close>

definition watch_channels_for_node :: "watch_store \<Rightarrow> node_id \<Rightarrow> channel_data list" where
  "watch_channels_for_node s node = map snd (filter (\<lambda>((n, _), _). n = node) (ws_channels s))"

definition exactly_settled :: "watch_store \<Rightarrow> node_id \<Rightarrow> hash256 \<Rightarrow> bool \<Rightarrow> settlement_tlc \<Rightarrow> bool" where
  "exactly_settled s node channel_id for_remote tlc =
     (let tlc_id = (if for_remote then st_tlc_id tlc else flip (st_tlc_id tlc))
      in case map_of (ws_settled s) (node, channel_id, tlc_id) of
           None \<Rightarrow> False
         | Some settlement \<Rightarrow> os_payment_hash settlement = st_payment_hash tlc \<and> os_hash_algorithm settlement = st_hash_algorithm tlc)"

text \<open>Whether a snapshot has TLCs with the hash, and if so whether one of them is settled and whether
  one is not.\<close>

definition snapshot_status ::
  "watch_store \<Rightarrow> node_id \<Rightarrow> hash256 \<Rightarrow> hash256 \<Rightarrow> settlement_data \<times> bool \<Rightarrow> (bool \<times> bool) option" where
  "snapshot_status s node channel_id payment_hash = (\<lambda>(data, for_remote).
     let matching = filter (\<lambda>t. st_payment_hash t = payment_hash) (sd_tlcs data);
         settled = exactly_settled s node channel_id for_remote
     in if matching = [] then None else Some (list_ex settled matching, list_ex (\<lambda>t. \<not> settled t) matching))"

definition watch_channel_needs_preimage :: "watch_store \<Rightarrow> node_id \<Rightarrow> channel_data \<Rightarrow> hash256 \<Rightarrow> bool" where
  "watch_channel_needs_preimage s node cd payment_hash =
     (let statuses = List.map_filter (snapshot_status s node (cd_channel_id cd) payment_hash)
            [(cd_remote_settlement_data cd, True), (cd_pending_remote_settlement_data cd, True), (cd_local_settlement_data cd, False)]
      in if list_ex fst statuses then list_ex (\<lambda>(exact, unsettled). exact \<and> unsettled) statuses else statuses \<noteq> [])"

definition watch_channel_payment_hashes :: "channel_data \<Rightarrow> hash256 list" where
  "watch_channel_payment_hashes cd = concat (map (\<lambda>d. map st_payment_hash (sd_tlcs d))
     [cd_remote_settlement_data cd, cd_pending_remote_settlement_data cd, cd_local_settlement_data cd])"

definition watch_preimage_in_use :: "watch_store \<Rightarrow> node_id \<Rightarrow> hash256 \<Rightarrow> bool" where
  "watch_preimage_in_use s node payment_hash =
     list_ex (\<lambda>cd. watch_channel_needs_preimage s node cd payment_hash) (watch_channels_for_node s node)"

definition watch_preimage_entries :: "watch_store \<Rightarrow> node_id option \<Rightarrow> (node_id \<times> hash256) list" where
  "watch_preimage_entries s node_id =
     filter (\<lambda>(n, _). case node_id of None \<Rightarrow> True | Some node \<Rightarrow> n = node) (ws_node_payment_hashes s)"

section \<open>Operations\<close>

definition cleanup_unused_watch_preimages_locked :: "watch_store \<Rightarrow> node_id \<Rightarrow> preimage_cleanup_target \<Rightarrow> watch_store" where
  "cleanup_unused_watch_preimages_locked s node target =
     (let preimages = (case target of
            ExactHash h \<Rightarrow> if (node, h) \<in> set (ws_node_payment_hashes s) then [(node, h)] else []
          | ExactSet _ \<Rightarrow> watch_preimage_entries s (Some node));
          unused = filter (\<lambda>(n, h). cleanup_target_matches target h \<and> \<not> watch_preimage_in_use s n h) preimages
      in s\<lparr>ws_preimages := fold AList.delete unused (ws_preimages s),
           ws_node_payment_hashes := fold removeAll unused (ws_node_payment_hashes s)\<rparr>)"

definition cleanup_unused_watch_preimages :: "watch_store \<Rightarrow> node_id option \<Rightarrow> preimage_cleanup_target \<Rightarrow> watch_store" where
  "cleanup_unused_watch_preimages s node_id target = (case node_id of
      Some node \<Rightarrow> cleanup_unused_watch_preimages_locked s node target
    | None \<Rightarrow> fold (\<lambda>node s. cleanup_unused_watch_preimages_locked s node target)
        (remdups (map fst (filter (\<lambda>(_, h). cleanup_target_matches target h) (watch_preimage_entries s None)))) s)"

definition insert_watch_channel_with_features ::
  "watch_store \<Rightarrow> node_id \<Rightarrow> hash256 \<Rightarrow> script option \<Rightarrow> 256 word \<Rightarrow> pubkey \<Rightarrow> pubkey \<Rightarrow> pubkey \<Rightarrow> settlement_data \<Rightarrow>
   channel_features \<Rightarrow> watch_store" where
  "insert_watch_channel_with_features s node channel_id udt local_settlement_key remote_settlement_key
     local_funding_pubkey remote_funding_pubkey data features =
     (if map_of (ws_channels s) (node, channel_id) \<noteq> None then s
      else s\<lparr>ws_channels := AList.update (node, channel_id)
        \<lparr>cd_channel_id = channel_id, cd_funding_udt_type_script = udt, cd_local_settlement_key = local_settlement_key,
         cd_remote_settlement_key = remote_settlement_key, cd_local_funding_pubkey = local_funding_pubkey,
         cd_remote_funding_pubkey = remote_funding_pubkey, cd_remote_settlement_data = data,
         cd_pending_remote_settlement_data = data, cd_local_settlement_data = data,
         cd_revocation_data = None, cd_channel_features = features\<rparr> (ws_channels s)\<rparr>)"

definition insert_watch_channel ::
  "watch_store \<Rightarrow> node_id \<Rightarrow> hash256 \<Rightarrow> script option \<Rightarrow> 256 word \<Rightarrow> pubkey \<Rightarrow> pubkey \<Rightarrow> pubkey \<Rightarrow> settlement_data \<Rightarrow> watch_store" where
  "insert_watch_channel s node channel_id udt local_settlement_key remote_settlement_key local_funding remote_funding data =
     insert_watch_channel_with_features s node channel_id udt local_settlement_key remote_settlement_key local_funding remote_funding data LEGACY"

definition remove_watch_channel :: "(hash256 \<Rightarrow> channel option) \<Rightarrow> watch_store \<Rightarrow> node_id \<Rightarrow> hash256 \<Rightarrow> watch_store" where
  "remove_watch_channel actor_state s node channel_id =
     (if (case actor_state channel_id of Some c \<Rightarrow> \<not> is_closed (ch_state c) | None \<Rightarrow> False) then s
      else let hashes = (case map_of (ws_channels s) (node, channel_id) of Some cd \<Rightarrow> watch_channel_payment_hashes cd | None \<Rightarrow> []);
               s' = s\<lparr>ws_channels := AList.delete (node, channel_id) (ws_channels s)\<rparr>
           in cleanup_unused_watch_preimages_locked s' node (ExactSet hashes))"

definition modify_watch_channel :: "watch_store \<Rightarrow> node_id \<Rightarrow> hash256 \<Rightarrow> (channel_data \<Rightarrow> channel_data) \<Rightarrow> watch_store" where
  "modify_watch_channel s node channel_id f = (case map_of (ws_channels s) (node, channel_id) of
      None \<Rightarrow> s
    | Some cd \<Rightarrow> s\<lparr>ws_channels := AList.update (node, channel_id) (f cd) (ws_channels s)\<rparr>)"

definition update_revocation :: "watch_store \<Rightarrow> node_id \<Rightarrow> hash256 \<Rightarrow> revocation_data \<Rightarrow> settlement_data \<Rightarrow> watch_store" where
  "update_revocation s node channel_id revocation data = modify_watch_channel s node channel_id (\<lambda>cd.
     if (case cd_revocation_data cd of Some old \<Rightarrow> rd_commitment_number old \<ge> rd_commitment_number revocation | None \<Rightarrow> False)
     then cd
     else cd\<lparr>cd_remote_settlement_data := data, cd_revocation_data := Some revocation\<rparr>)"

definition update_pending_remote_settlement :: "watch_store \<Rightarrow> node_id \<Rightarrow> hash256 \<Rightarrow> settlement_data \<Rightarrow> watch_store" where
  "update_pending_remote_settlement s node channel_id data =
     modify_watch_channel s node channel_id (\<lambda>cd. cd\<lparr>cd_pending_remote_settlement_data := data\<rparr>)"

definition update_local_settlement :: "watch_store \<Rightarrow> node_id \<Rightarrow> hash256 \<Rightarrow> settlement_data \<Rightarrow> watch_store" where
  "update_local_settlement s node channel_id data =
     modify_watch_channel s node channel_id (\<lambda>cd. cd\<lparr>cd_local_settlement_data := data\<rparr>)"

definition insert_watch_preimage :: "watch_store \<Rightarrow> node_id \<Rightarrow> hash256 \<Rightarrow> hash256 \<Rightarrow> watch_store" where
  "insert_watch_preimage s node payment_hash preimage =
     s\<lparr>ws_preimages := AList.update (node, payment_hash) preimage (ws_preimages s),
       ws_node_payment_hashes := List.insert (node, payment_hash) (ws_node_payment_hashes s)\<rparr>"

definition remove_watch_preimage :: "watch_store \<Rightarrow> node_id \<Rightarrow> hash256 \<Rightarrow> watch_store" where
  "remove_watch_preimage s node payment_hash = cleanup_unused_watch_preimages s (Some node) (ExactHash payment_hash)"

definition get_watch_preimage :: "watch_store \<Rightarrow> node_id \<Rightarrow> hash256 \<Rightarrow> hash256 option" where
  "get_watch_preimage s node payment_hash = map_of (ws_preimages s) (node, payment_hash)"

definition insert_onchain_tlc_settlement ::
  "watch_store \<Rightarrow> node_id \<Rightarrow> hash256 \<Rightarrow> tlc_id \<Rightarrow> onchain_tlc_settlement \<Rightarrow> watch_store" where
  "insert_onchain_tlc_settlement s node channel_id tlc_id settlement =
     (let key = (node, channel_id, tlc_id) in
      if os_preimage settlement = None \<and>
         (case map_of (ws_settled s) key of Some existing \<Rightarrow> os_preimage existing \<noteq> None | None \<Rightarrow> False) then s
      else let s' = s\<lparr>ws_settled := AList.update key settlement (ws_settled s)\<rparr>
           in if os_preimage settlement = None
              then cleanup_unused_watch_preimages s' None (ExactHash (os_payment_hash settlement)) else s')"

definition get_onchain_tlc_settlement ::
  "watch_store \<Rightarrow> node_id \<Rightarrow> hash256 \<Rightarrow> tlc_id \<Rightarrow> hash256 \<Rightarrow> stored_onchain_tlc_settlement option" where
  "get_onchain_tlc_settlement s node channel_id tlc_id payment_hash =
     (case map_of (ws_settled s) (node, channel_id, tlc_id) of
        Some settlement \<Rightarrow> Some (Exact settlement)
      | None \<Rightarrow> (case map_of (ws_legacy_settled s) (channel_id, take 20 (to_be_bytes payment_hash)) of
          None \<Rightarrow> None
        | Some None \<Rightarrow> Some (Legacy \<lparr>ls_preimage = None, ls_tx_hash = None, ls_tlc_index = None\<rparr>)
        | Some (Some legacy) \<Rightarrow> Some (Legacy legacy)))"

section \<open>Sequences of operations\<close>

datatype store_op =
    InsertWatchChannel node_id hash256 "script option" "256 word" pubkey pubkey pubkey settlement_data channel_features
  | RemoveWatchChannel node_id hash256
  | UpdateRevocation node_id hash256 revocation_data settlement_data
  | UpdatePendingRemoteSettlement node_id hash256 settlement_data
  | UpdateLocalSettlement node_id hash256 settlement_data
  | InsertWatchPreimage node_id hash256 hash256
  | RemoveWatchPreimage node_id hash256
  | InsertOnchainTlcSettlement node_id hash256 tlc_id onchain_tlc_settlement

fun exec_op :: "(hash256 \<Rightarrow> channel option) \<Rightarrow> watch_store \<Rightarrow> store_op \<Rightarrow> watch_store" where
  "exec_op A s (InsertWatchChannel n c u k1 k2 k3 k4 d f) = insert_watch_channel_with_features s n c u k1 k2 k3 k4 d f"
| "exec_op A s (RemoveWatchChannel n c) = remove_watch_channel A s n c"
| "exec_op A s (UpdateRevocation n c r d) = update_revocation s n c r d"
| "exec_op A s (UpdatePendingRemoteSettlement n c d) = update_pending_remote_settlement s n c d"
| "exec_op A s (UpdateLocalSettlement n c d) = update_local_settlement s n c d"
| "exec_op A s (InsertWatchPreimage n h p) = insert_watch_preimage s n h p"
| "exec_op A s (RemoveWatchPreimage n h) = remove_watch_preimage s n h"
| "exec_op A s (InsertOnchainTlcSettlement n c t x) = insert_onchain_tlc_settlement s n c t x"

abbreviation exec_ops :: "(hash256 \<Rightarrow> channel option) \<Rightarrow> watch_store \<Rightarrow> store_op list \<Rightarrow> watch_store" where
  "exec_ops A \<equiv> foldl (exec_op A)"

lemma map_of_fold_delete: "map_of (fold AList.delete ks xs) k = (if k \<in> set ks then None else map_of xs k)"
  by (induction ks arbitrary: xs) (auto simp: delete_conv')

lemma set_fold_removeAll: "set (fold removeAll ks xs) = set xs - set ks"
  by (induction ks arbitrary: xs) auto

lemma in_use_cong:
  assumes "ws_channels s = ws_channels s'" and "ws_settled s = ws_settled s'"
  shows "watch_preimage_in_use s = watch_preimage_in_use s'"
proof -
  have "exactly_settled s = exactly_settled s'" using assms(2) by (intro ext) (simp add: exactly_settled_def)
  then have "watch_channel_needs_preimage s = watch_channel_needs_preimage s'"
    by (intro ext) (simp add: watch_channel_needs_preimage_def snapshot_status_def)
  then show ?thesis using assms(1) by (intro ext) (simp add: watch_preimage_in_use_def watch_channels_for_node_def)
qed

lemma cleanup_locked_keeps [simp]:
  "ws_channels (cleanup_unused_watch_preimages_locked s n t) = ws_channels s"
  "ws_settled (cleanup_unused_watch_preimages_locked s n t) = ws_settled s"
  "ws_legacy_settled (cleanup_unused_watch_preimages_locked s n t) = ws_legacy_settled s"
  "watch_preimage_in_use (cleanup_unused_watch_preimages_locked s n t) = watch_preimage_in_use s"
  by (simp_all add: cleanup_unused_watch_preimages_locked_def Let_def) (rule in_use_cong; simp)

definition cleaned :: "watch_store \<Rightarrow> node_id set \<Rightarrow> preimage_cleanup_target \<Rightarrow> (node_id \<times> hash256) set" where
  "cleaned s ns t = {(n, h). n \<in> ns \<and> (n, h) \<in> set (ws_node_payment_hashes s) \<and> cleanup_target_matches t h \<and>
     \<not> watch_preimage_in_use s n h}"

lemma cleanup_locked_effect:
  "map_of (ws_preimages (cleanup_unused_watch_preimages_locked s n t)) k = (if k \<in> cleaned s {n} t then None else map_of (ws_preimages s) k)"
  "set (ws_node_payment_hashes (cleanup_unused_watch_preimages_locked s n t)) = set (ws_node_payment_hashes s) - cleaned s {n} t"
  by (cases t; auto simp: cleanup_unused_watch_preimages_locked_def Let_def map_of_fold_delete set_fold_removeAll
      cleaned_def watch_preimage_entries_def)+

lemma cleanup_fold_effect:
  fixes s :: watch_store and t :: preimage_cleanup_target
  defines "run \<equiv> \<lambda>ns. fold (\<lambda>n s. cleanup_unused_watch_preimages_locked s n t) ns s"
  shows "ws_channels (run ns) = ws_channels s \<and> ws_settled (run ns) = ws_settled s \<and>
    map_of (ws_preimages (run ns)) k = (if k \<in> cleaned s (set ns) t then None else map_of (ws_preimages s) k) \<and>
    set (ws_node_payment_hashes (run ns)) = set (ws_node_payment_hashes s) - cleaned s (set ns) t"
  unfolding run_def
proof (induction ns arbitrary: s)
  case Nil
  show ?case by (auto simp: cleaned_def)
next
  case (Cons n ns)
  let ?s = "cleanup_unused_watch_preimages_locked s n t"
  have "cleaned ?s (set ns) t \<union> cleaned s {n} t = cleaned s (set (n # ns)) t"
    using cleanup_locked_effect(2) [of s n t] by (auto simp: cleaned_def)
  then show ?case using Cons.IH [of ?s] cleanup_locked_effect [of s n t] by auto
qed

lemma cleanup_effect:
  shows "ws_channels (cleanup_unused_watch_preimages s node t) = ws_channels s"
    and "ws_settled (cleanup_unused_watch_preimages s node t) = ws_settled s"
    and "map_of (ws_preimages (cleanup_unused_watch_preimages s node t)) k =
      (if k \<in> cleaned s (case node of None \<Rightarrow> UNIV | Some n \<Rightarrow> {n}) t then None else map_of (ws_preimages s) k)"
    and "set (ws_node_payment_hashes (cleanup_unused_watch_preimages s node t)) =
      set (ws_node_payment_hashes s) - cleaned s (case node of None \<Rightarrow> UNIV | Some n \<Rightarrow> {n}) t"
proof -
  let ?ns = "remdups (map fst (filter (\<lambda>(_, h). cleanup_target_matches t h) (watch_preimage_entries s None)))"
  have "cleaned s (set ?ns) t = cleaned s UNIV t"
    by (force simp: cleaned_def watch_preimage_entries_def)
  then have all: "ws_channels (cleanup_unused_watch_preimages s node t) = ws_channels s \<and>
    ws_settled (cleanup_unused_watch_preimages s node t) = ws_settled s \<and>
    map_of (ws_preimages (cleanup_unused_watch_preimages s node t)) k =
      (if k \<in> cleaned s (case node of None \<Rightarrow> UNIV | Some n \<Rightarrow> {n}) t then None else map_of (ws_preimages s) k) \<and>
    set (ws_node_payment_hashes (cleanup_unused_watch_preimages s node t)) =
      set (ws_node_payment_hashes s) - cleaned s (case node of None \<Rightarrow> UNIV | Some n \<Rightarrow> {n}) t"
    using cleanup_fold_effect [of t ?ns s k] cleanup_locked_effect [of s "the node" t]
    by (cases node) (auto simp: cleanup_unused_watch_preimages_def)
  show "ws_channels (cleanup_unused_watch_preimages s node t) = ws_channels s"
    "ws_settled (cleanup_unused_watch_preimages s node t) = ws_settled s"
    "map_of (ws_preimages (cleanup_unused_watch_preimages s node t)) k =
      (if k \<in> cleaned s (case node of None \<Rightarrow> UNIV | Some n \<Rightarrow> {n}) t then None else map_of (ws_preimages s) k)"
    "set (ws_node_payment_hashes (cleanup_unused_watch_preimages s node t)) =
      set (ws_node_payment_hashes s) - cleaned s (case node of None \<Rightarrow> UNIV | Some n \<Rightarrow> {n}) t"
    using all by blast+
qed

lemma foldl_invariant: "P s \<Longrightarrow> (\<And>s x. x \<in> set xs \<Longrightarrow> P s \<Longrightarrow> P (f s x)) \<Longrightarrow> P (foldl f s xs)"
  by (induction xs arbitrary: s) auto

section \<open>Well-formedness\<close>

text \<open>The index of payment hashes lists exactly the stored preimages, every watched channel is stored
  under its own id, and no key occurs twice.\<close>

definition store_inv :: "watch_store \<Rightarrow> bool" where
  "store_inv s \<longleftrightarrow> set (ws_node_payment_hashes s) = dom (map_of (ws_preimages s)) \<and> distinct (map fst (ws_channels s)) \<and>
     (\<forall>((n, c), cd) \<in> set (ws_channels s). cd_channel_id cd = c)"

definition empty_store :: watch_store where
  "empty_store = \<lparr>ws_channels = [], ws_preimages = [], ws_node_payment_hashes = [], ws_settled = [], ws_legacy_settled = []\<rparr>"

lemma store_inv_cleanup:
  assumes "store_inv s"
  shows "store_inv (cleanup_unused_watch_preimages s node t)" and "store_inv (cleanup_unused_watch_preimages_locked s n t)"
proof -
  have "k \<in> dom (map_of (ws_preimages (cleanup_unused_watch_preimages s node t))) \<longleftrightarrow>
      k \<in> set (ws_node_payment_hashes (cleanup_unused_watch_preimages s node t))" for node k
    using assms cleanup_effect(3) [of s node t k] cleanup_effect(4) [of s node t] by (auto simp: store_inv_def split: if_splits)
  then show "store_inv (cleanup_unused_watch_preimages s node t)" for node
    using assms by (auto simp: store_inv_def cleanup_effect(1))
  from this [of "Some n"] show "store_inv (cleanup_unused_watch_preimages_locked s n t)"
    by (simp add: cleanup_unused_watch_preimages_def)
qed

lemma set_update_subset: "set (AList.update k v xs) \<subseteq> insert (k, v) (set xs)"
  by (induction xs) auto

lemma store_inv_update_channel:
  assumes "store_inv s" and "cd_channel_id cd = c"
  shows "store_inv (s\<lparr>ws_channels := AList.update (n, c) cd (ws_channels s)\<rparr>)"
  using assms set_update_subset [of "(n, c)" cd "ws_channels s"]
  by (fastforce simp: store_inv_def intro: distinct_update)

lemma store_inv_modify_channel:
  assumes "store_inv s" and "\<And>cd. cd_channel_id (f cd) = cd_channel_id cd"
  shows "store_inv (modify_watch_channel s n c f)"
proof (cases "map_of (ws_channels s) (n, c)")
  case (Some cd)
  then have "cd_channel_id cd = c" using assms(1) by (auto simp: store_inv_def dest!: map_of_SomeD)
  with Some assms show ?thesis by (simp add: modify_watch_channel_def store_inv_update_channel)
qed (simp add: modify_watch_channel_def assms(1))

lemma store_inv_exec_op:
  assumes "store_inv s"
  shows "store_inv (exec_op A s op)"
proof (cases op)
  case (InsertWatchChannel n c u k1 k2 k3 k4 d f)
  then show ?thesis using assms by (simp add: insert_watch_channel_with_features_def store_inv_update_channel)
next
  case (RemoveWatchChannel n c)
  have "store_inv (s\<lparr>ws_channels := AList.delete (n, c) (ws_channels s)\<rparr>)"
    using assms by (auto simp: store_inv_def AList.delete_eq distinct_map_filter)
  then show ?thesis using RemoveWatchChannel assms
    by (simp add: remove_watch_channel_def Let_def store_inv_cleanup(2) split: option.split)
next
  case (InsertWatchPreimage n h p)
  then show ?thesis using assms by (auto simp: insert_watch_preimage_def store_inv_def update_conv')
next
  case (InsertOnchainTlcSettlement n c t x)
  have "store_inv (s\<lparr>ws_settled := y\<rparr>)" for y using assms by (simp add: store_inv_def)
  then show ?thesis using InsertOnchainTlcSettlement assms
    by (simp add: insert_onchain_tlc_settlement_def Let_def store_inv_cleanup(1))
qed (simp_all add: update_revocation_def update_pending_remote_settlement_def update_local_settlement_def
      remove_watch_preimage_def store_inv_modify_channel store_inv_cleanup assms)

lemma store_inv_exec: "store_inv s \<Longrightarrow> store_inv (exec_ops A s ops)"
  by (rule foldl_invariant) (auto intro: store_inv_exec_op)

lemma store_inv_empty: "store_inv empty_store"
  by (simp add: store_inv_def empty_store_def)

section \<open>Preimages\<close>

text \<open>Preimages are kept exactly as long as they are needed: in every state of the store reached by
  any operations, asking to remove a preimage removes it if and only if no watched channel of the
  node still needs it, and touches no other preimage.\<close>

lemma preimage_kept_iff_needed:
  "get_watch_preimage (remove_watch_preimage (exec_ops A empty_store ops) n h) n' h' =
     (if n' = n \<and> h' = h \<and> \<not> watch_preimage_in_use (exec_ops A empty_store ops) n h then None
      else get_watch_preimage (exec_ops A empty_store ops) n' h')"
proof -
  let ?s = "exec_ops A empty_store ops"
  have "set (ws_node_payment_hashes ?s) = dom (map_of (ws_preimages ?s))"
    using store_inv_exec [OF store_inv_empty] by (simp add: store_inv_def)
  then show ?thesis
    by (auto simp: remove_watch_preimage_def get_watch_preimage_def cleanup_effect(3) cleaned_def)
qed

lemma exec_op_preimage:
  assumes "get_watch_preimage s n h = Some p" and "watch_preimage_in_use (exec_op A s op) n h"
    and "\<And>q. op \<noteq> InsertWatchPreimage n h q"
  shows "get_watch_preimage (exec_op A s op) n h = Some p"
proof (cases op)
  case (RemoveWatchChannel n' c)
  then show ?thesis using assms
    by (auto simp: remove_watch_channel_def get_watch_preimage_def Let_def cleanup_locked_effect cleaned_def split: if_splits)
next
  case (InsertOnchainTlcSettlement n' c t x)
  let ?s' = "s\<lparr>ws_settled := AList.update (n', c, t) x (ws_settled s)\<rparr>"
  have "watch_preimage_in_use (cleanup_unused_watch_preimages ?s' None tg) = watch_preimage_in_use ?s'" for tg
    by (rule in_use_cong) (simp_all add: cleanup_effect)
  then show ?thesis using InsertOnchainTlcSettlement assms(1,2)
    by (auto simp: insert_onchain_tlc_settlement_def get_watch_preimage_def Let_def cleanup_effect(3) cleaned_def split: if_splits)
next
  case (RemoveWatchPreimage n' h')
  have "watch_preimage_in_use (cleanup_unused_watch_preimages s (Some n') tg) = watch_preimage_in_use s" for tg
    by (rule in_use_cong) (simp_all add: cleanup_effect)
  then show ?thesis using RemoveWatchPreimage assms(1,2)
    by (auto simp: remove_watch_preimage_def get_watch_preimage_def cleanup_effect(3) cleaned_def)
qed (use assms in \<open>auto simp: insert_watch_channel_with_features_def update_revocation_def update_pending_remote_settlement_def
      update_local_settlement_def modify_watch_channel_def get_watch_preimage_def insert_watch_preimage_def update_conv'
      split: option.splits\<close>)

text \<open>C32. A preimage that a watched channel needs is never lost: along any sequence of store operations
  that does not overwrite it, if some watched channel of the node needs the preimage after each
  operation, the preimage is still there in the end.\<close>

theorem needed_preimage_survives:
  assumes "get_watch_preimage s n h = Some p"
    and "\<forall>k\<in>{1..length ops}. watch_preimage_in_use (exec_ops A s (take k ops)) n h"
    and "\<forall>q. InsertWatchPreimage n h q \<notin> set ops"
  shows "get_watch_preimage (exec_ops A s ops) n h = Some p"
  using assms
proof (induction ops rule: rev_induct)
  case (snoc op ops)
  have "watch_preimage_in_use (exec_ops A s (take k ops)) n h" if "k \<in> {1..length ops}" for k
    using bspec [OF snoc.prems(2), of k] that by simp
  then have "get_watch_preimage (exec_ops A s ops) n h = Some p" using snoc.IH snoc.prems(1,3) by simp
  moreover have "watch_preimage_in_use (exec_op A (exec_ops A s ops) op) n h"
    using bspec [OF snoc.prems(2), of "length (ops @ [op])"] by simp
  ultimately show ?case using snoc.prems(3) by (auto intro: exec_op_preimage)
qed simp

definition sample_revocation :: "u64 \<Rightarrow> revocation_data" where
  "sample_revocation k = \<lparr>rd_commitment_number = k, rd_aggregated_signature = [1], rd_output =
     \<lparr>co_lock = script_default, co_type = None, co_capacity = 100\<rparr>, rd_output_data = []\<rparr>"

definition watched_store :: watch_store where
  "watched_store = exec_ops (\<lambda>_. None) empty_store
     [InsertWatchChannel [1] 7 None 5 6 1 2 sample_settlement V2, InsertWatchPreimage [1] 99 42]"

lemmas watch_eval = watched_store_def empty_store_def insert_watch_channel_with_features_def insert_watch_preimage_def
  watch_preimage_in_use_def watch_channels_for_node_def watch_channel_needs_preimage_def snapshot_status_def
  exactly_settled_def List.map_filter_simps sample_settlement_def get_watch_preimage_def sample_revocation_def
  update_revocation_def modify_watch_channel_def insert_onchain_tlc_settlement_def Let_def

theorem needed_preimage_survives_witness:
  "get_watch_preimage (exec_ops (\<lambda>_. None) watched_store
     [RemoveWatchPreimage [1] 99, UpdateRevocation [1] 7 (sample_revocation 1) sample_settlement]) [1] 99 = Some 42"
proof (rule needed_preimage_survives)
  let ?ops = "[RemoveWatchPreimage [1] 99, UpdateRevocation [1] 7 (sample_revocation 1) sample_settlement]"
  have s: "exec_ops (\<lambda>_. None) watched_store [RemoveWatchPreimage [1] 99] = watched_store"
    by (simp add: remove_watch_preimage_def cleanup_unused_watch_preimages_def cleanup_unused_watch_preimages_locked_def watch_eval)
  have "watch_preimage_in_use watched_store [1] 99" by (simp add: watch_eval)
  moreover have "watch_preimage_in_use (exec_op (\<lambda>_. None) watched_store (UpdateRevocation [1] 7 (sample_revocation 1) sample_settlement)) [1] 99"
    by (simp add: watch_eval)
  ultimately show "\<forall>k\<in>{1..length ?ops}. watch_preimage_in_use (exec_ops (\<lambda>_. None) watched_store (take k ?ops)) [1] 99"
    using s by (auto simp: le_Suc_eq numeral_2_eq_2)
  show "get_watch_preimage watched_store [1] 99 = Some 42" by (simp add: watch_eval)
qed simp

section \<open>Evidence\<close>

lemma exec_op_settled:
  assumes "map_of (ws_settled s) k = Some r"
  shows "\<exists>r'. map_of (ws_settled (exec_op A s op)) k = Some r' \<and> (os_preimage r \<noteq> None \<longrightarrow> os_preimage r' \<noteq> None)"
  using assms
  by (cases op)
    (auto simp: insert_watch_channel_with_features_def remove_watch_channel_def update_revocation_def
      update_pending_remote_settlement_def update_local_settlement_def modify_watch_channel_def insert_watch_preimage_def
      remove_watch_preimage_def insert_onchain_tlc_settlement_def cleanup_effect(2) Let_def update_conv' split: option.splits)

text \<open>C11. On-chain evidence is permanent: once a settlement record exists for a TLC, it exists after any
  further operations, and a record that carries a preimage is never replaced by one without.\<close>

theorem settlement_evidence_permanent:
  assumes "map_of (ws_settled s) (n, c, t) = Some r"
  shows "\<exists>r'. map_of (ws_settled (exec_ops A s ops)) (n, c, t) = Some r' \<and> (os_preimage r \<noteq> None \<longrightarrow> os_preimage r' \<noteq> None)"
proof (rule foldl_invariant [where P = "\<lambda>s. \<exists>r'. map_of (ws_settled s) (n, c, t) = Some r' \<and> (os_preimage r \<noteq> None \<longrightarrow> os_preimage r' \<noteq> None)"])
  fix s :: watch_store and op assume "\<exists>r'. map_of (ws_settled s) (n, c, t) = Some r' \<and> (os_preimage r \<noteq> None \<longrightarrow> os_preimage r' \<noteq> None)"
  then show "\<exists>r'. map_of (ws_settled (exec_op A s op)) (n, c, t) = Some r' \<and> (os_preimage r \<noteq> None \<longrightarrow> os_preimage r' \<noteq> None)"
    using exec_op_settled by blast
qed (use assms in blast)

definition sample_evidence :: "hash256 option \<Rightarrow> onchain_tlc_settlement" where
  "sample_evidence p = \<lparr>os_payment_hash = 99, os_hash_algorithm = Sha256, os_preimage = p, os_tx_hash = 3, os_tlc_index = 0\<rparr>"

theorem settlement_evidence_permanent_witness:
  "\<exists>r'. map_of (ws_settled (exec_ops (\<lambda>_. None) (exec_op (\<lambda>_. None) watched_store
      (InsertOnchainTlcSettlement [1] 7 (Offered 3) (sample_evidence (Some 42))))
      [InsertOnchainTlcSettlement [1] 7 (Offered 3) (sample_evidence None)])) ([1], 7, Offered 3) = Some r' \<and> os_preimage r' \<noteq> None"
proof -
  let ?s = "exec_op (\<lambda>_. None) watched_store (InsertOnchainTlcSettlement [1] 7 (Offered 3) (sample_evidence (Some 42)))"
  have "map_of (ws_settled ?s) ([1], 7, Offered 3) = Some (sample_evidence (Some 42))"
    by (simp add: watch_eval sample_evidence_def)
  from settlement_evidence_permanent [OF this, where A = "\<lambda>_. None" and ops = "[InsertOnchainTlcSettlement [1] 7 (Offered 3) (sample_evidence None)]"]
  show ?thesis by (simp add: sample_evidence_def)
qed

section \<open>Watched channels\<close>

definition newer_than :: "channel_data \<Rightarrow> revocation_data \<Rightarrow> channel_data \<Rightarrow> bool" where
  "newer_than cd r cd' \<longleftrightarrow> cd_channel_id cd' = cd_channel_id cd \<and>
     cd_local_settlement_key cd' = cd_local_settlement_key cd \<and> cd_remote_settlement_key cd' = cd_remote_settlement_key cd \<and>
     cd_local_funding_pubkey cd' = cd_local_funding_pubkey cd \<and> cd_remote_funding_pubkey cd' = cd_remote_funding_pubkey cd \<and>
     cd_channel_features cd' = cd_channel_features cd \<and>
     (\<exists>r'. cd_revocation_data cd' = Some r' \<and> rd_commitment_number r \<le> rd_commitment_number r' \<and>
        (rd_commitment_number r' = rd_commitment_number r \<longrightarrow>
           r' = r \<and> cd_remote_settlement_data cd' = cd_remote_settlement_data cd))"

definition refused :: "(hash256 \<Rightarrow> channel option) \<Rightarrow> hash256 \<Rightarrow> bool" where
  "refused A c \<longleftrightarrow> (\<exists>ch. A c = Some ch \<and> \<not> is_closed (ch_state ch))"

lemma newer_than_trans:
  "newer_than cd r cd' \<Longrightarrow> cd_revocation_data cd' = Some r' \<Longrightarrow> newer_than cd' r' cd'' \<Longrightarrow> newer_than cd r cd''"
  by (force simp: newer_than_def)

lemma exec_op_newer:
  assumes "map_of (ws_channels s) (n, c) = Some cd" and "cd_revocation_data cd = Some r"
    and "op = RemoveWatchChannel n c \<Longrightarrow> refused A c"
  shows "\<exists>cd'. map_of (ws_channels (exec_op A s op)) (n, c) = Some cd' \<and> newer_than cd r cd'"
proof -
  have self: "newer_than cd r cd" using assms(2) by (simp add: newer_than_def)
  show ?thesis
  proof (cases op)
    case (UpdateRevocation n' c' r' d)
    then show ?thesis using assms self
      by (cases "map_of (ws_channels s) (n', c')") (auto simp: update_revocation_def modify_watch_channel_def update_conv' newer_than_def)
  next
    case (RemoveWatchChannel n' c')
    then show ?thesis using assms self
      by (auto simp: remove_watch_channel_def refused_def Let_def delete_conv' split: option.splits)
  next
    case (UpdatePendingRemoteSettlement n' c' d)
    then show ?thesis using assms self
      by (cases "map_of (ws_channels s) (n', c')")
        (auto simp: update_pending_remote_settlement_def modify_watch_channel_def update_conv' newer_than_def)
  next
    case (UpdateLocalSettlement n' c' d)
    then show ?thesis using assms self
      by (cases "map_of (ws_channels s) (n', c')")
        (auto simp: update_local_settlement_def modify_watch_channel_def update_conv' newer_than_def)
  next
    case (InsertWatchChannel n' c' u k1 k2 k3 k4 d f)
    then show ?thesis using assms self by (auto simp: insert_watch_channel_with_features_def update_conv')
  qed (use assms self in \<open>auto simp: insert_watch_preimage_def remove_watch_preimage_def insert_onchain_tlc_settlement_def
         cleanup_effect(1) Let_def\<close>)
qed

text \<open>Watching never rolls back: along any sequence of store operations a watched channel stays
  watched with the same keys and features, unless its removal is requested while no open channel
  actor exists; its revocation only moves to larger commitment numbers, and as long as the number is
  unchanged the revocation and the settlement snapshot stored with it are the same.\<close>

lemma revocation_never_rolls_back:
  assumes "map_of (ws_channels s) (n, c) = Some cd" and "cd_revocation_data cd = Some r"
    and "RemoveWatchChannel n c \<in> set ops \<Longrightarrow> refused A c"
  shows "\<exists>cd'. map_of (ws_channels (exec_ops A s ops)) (n, c) = Some cd' \<and> newer_than cd r cd'"
proof (rule foldl_invariant [where P = "\<lambda>s. \<exists>cd'. map_of (ws_channels s) (n, c) = Some cd' \<and> newer_than cd r cd'"])
  show "\<exists>cd'. map_of (ws_channels s) (n, c) = Some cd' \<and> newer_than cd r cd'"
    using assms(1,2) by (simp add: newer_than_def)
next
  fix s :: watch_store and op assume op: "op \<in> set ops" and "\<exists>cd'. map_of (ws_channels s) (n, c) = Some cd' \<and> newer_than cd r cd'"
  then obtain cd' r' where cd': "map_of (ws_channels s) (n, c) = Some cd'" "newer_than cd r cd'" "cd_revocation_data cd' = Some r'"
    unfolding newer_than_def by blast
  have "op = RemoveWatchChannel n c \<Longrightarrow> refused A c" using assms(3) op by simp
  from exec_op_newer [OF cd'(1,3) this]
  obtain cd'' where "map_of (ws_channels (exec_op A s op)) (n, c) = Some cd''" "newer_than cd' r' cd''" by auto
  then show "\<exists>cd'. map_of (ws_channels (exec_op A s op)) (n, c) = Some cd' \<and> newer_than cd r cd'"
    using newer_than_trans [OF cd'(2,3)] by auto
qed

end
