(* ===== verification/Onchain_Reconcile.thy ===== *)
theory Onchain_Reconcile
  imports Watch_Store
begin

text \<open>
  What a channel concludes from the chain (\<^verbatim>\<open>fiber-lib/src/fiber/onchain_tlc_reconcile.rs\<close>): which
  settlement snapshot a confirmed commitment transaction belongs to, how each TLC of the channel was
  resolved, which of them must now be fulfilled or failed towards the upstream channel or the payer,
  and whether anything is still unresolved. The records come from the watchtower's store; the
  shutdown snapshots, kept in another column, are an argument.
\<close>

section \<open>Snapshots\<close>

record tracked_settlement_tlc =
  tr_tlc_id :: tlc_id
  tr_payment_hash :: hash256
  tr_hash_algorithm :: hash_algorithm
  tr_witness :: bytes
  tr_channel_features :: channel_features

record parsed_commitment_lock =
  pl_for_remote :: bool
  pl_commitment_number :: u64
  pl_witness_hash :: bytes

definition parse_commitment_lock :: "crypto \<Rightarrow> script \<Rightarrow> pubkey \<Rightarrow> pubkey \<Rightarrow> parsed_commitment_lock option" where
  "parse_commitment_lock C lock local_funding remote_funding =
     (if sc_code_hash lock \<noteq> sc_code_hash (cr_commitment_lock C) \<or> sc_hash_type lock \<noteq> sc_hash_type (cr_commitment_lock C) then None
      else let lock_args = sc_args lock in
      if length lock_args < 56 then None
      else let pubkey_hash = take 20 lock_args in
      case cr_aggregate_xonly C local_funding remote_funding of None \<Rightarrow> None | Some remote_xonly \<Rightarrow>
      (case cr_aggregate_xonly C remote_funding local_funding of None \<Rightarrow> None | Some local_xonly \<Rightarrow>
      let parsed = (\<lambda>for_remote. \<lparr>pl_for_remote = for_remote,
             pl_commitment_number = from_be_bytes (take 8 (drop 28 lock_args)), pl_witness_hash = take 20 (drop 36 lock_args)\<rparr>)
      in if pubkey_hash = take 20 (cr_blake2b_256 C remote_xonly) then Some (parsed True)
         else if pubkey_hash = take 20 (cr_blake2b_256 C local_xonly) then Some (parsed False)
         else None))"

definition settlement_data_for_commitment :: "channel_data \<Rightarrow> bool \<Rightarrow> u64 \<Rightarrow> settlement_data" where
  "settlement_data_for_commitment cd for_remote commitment_number =
     (if for_remote then
        (if (case cd_revocation_data cd of
               None \<Rightarrow> False
             | Some revocation \<Rightarrow> (case checked_sub commitment_number 1 of
                 None \<Rightarrow> False | Some previous \<Rightarrow> rd_commitment_number revocation = previous))
         then cd_remote_settlement_data cd else cd_pending_remote_settlement_data cd)
      else cd_local_settlement_data cd)"

text \<open>The encoder panics on a snapshot of more than 255 TLCs.\<close>

fun first_matching_snapshot ::
  "crypto \<Rightarrow> channel_data \<Rightarrow> parsed_commitment_lock \<Rightarrow> settlement_data list \<Rightarrow> (settlement_data option, unit) res" where
  "first_matching_snapshot C cd parsed [] = Ok None"
| "first_matching_snapshot C cd parsed (data # candidates) =
     bind_res (settlement_data_to_witness C data (pl_for_remote parsed) (cd_channel_features cd)
         (cd_local_settlement_key cd) (cd_remote_settlement_key cd)) (\<lambda>witness.
     if blake160 C witness = pl_witness_hash parsed then Ok (Some data)
     else first_matching_snapshot C cd parsed candidates)"

definition verify_and_select_settlement_data ::
  "crypto \<Rightarrow> channel_data \<Rightarrow> script \<Rightarrow> ((bool \<times> u64 \<times> settlement_data) option, unit) res" where
  "verify_and_select_settlement_data C cd lock =
     (case parse_commitment_lock C lock (cd_local_funding_pubkey cd) (cd_remote_funding_pubkey cd) of
        None \<Rightarrow> Ok None
      | Some parsed \<Rightarrow>
          bind_res (first_matching_snapshot C cd parsed
            (if pl_for_remote parsed then [cd_remote_settlement_data cd, cd_pending_remote_settlement_data cd]
             else [cd_local_settlement_data cd])) (\<lambda>found.
          Ok (map_option (\<lambda>data. (pl_for_remote parsed, pl_commitment_number parsed, data)) found)))"

definition recover_shutdown_settlement_data ::
  "crypto \<Rightarrow> channel_data \<Rightarrow> script \<Rightarrow> ((bool \<times> u64 \<times> settlement_data) option, unit) res" where
  "recover_shutdown_settlement_data C cd lock =
     (case parse_commitment_lock C lock (cd_local_funding_pubkey cd) (cd_remote_funding_pubkey cd) of
        None \<Rightarrow> Ok None
      | Some parsed \<Rightarrow>
          if pl_for_remote parsed \<and>
             (case cd_revocation_data cd of None \<Rightarrow> False
              | Some revocation \<Rightarrow> pl_commitment_number parsed \<le> rd_commitment_number revocation)
          then Ok (Some (True, pl_commitment_number parsed, \<lparr>sd_local_amount = 0, sd_remote_amount = 0, sd_tlcs = []\<rparr>))
          else verify_and_select_settlement_data C cd lock)"

definition tracked_settlement_tlcs ::
  "crypto \<Rightarrow> settlement_data \<Rightarrow> bool \<Rightarrow> channel_features \<Rightarrow> tracked_settlement_tlc list" where
  "tracked_settlement_tlcs C data for_remote features = map (\<lambda>tlc.
     \<lparr>tr_tlc_id = (if for_remote then st_tlc_id tlc else flip (st_tlc_id tlc)), tr_payment_hash = st_payment_hash tlc,
      tr_hash_algorithm = st_hash_algorithm tlc, tr_witness = settlement_tlc_witness C tlc for_remote features,
      tr_channel_features = features\<rparr>) (sd_tlcs data)"

section \<open>Resolution of one TLC\<close>

datatype onchain_tlc_resolution =
  Unknown | Fulfilled hash256 | SettledWithoutPreimage | SettledWithInvalidPreimage

text \<open>The channel reads the records of its own node, whose id is empty.\<close>

definition resolve_onchain_tlc ::
  "hashers \<Rightarrow> hash256 \<Rightarrow> watch_store \<Rightarrow> tlc_id \<Rightarrow> hash256 \<Rightarrow> hash_algorithm \<Rightarrow> onchain_tlc_resolution" where
  "resolve_onchain_tlc H channel_id s tlc_id payment_hash algorithm =
     (case get_onchain_tlc_settlement s [] channel_id tlc_id payment_hash of
        None \<Rightarrow> Unknown
      | Some (Exact settlement) \<Rightarrow>
          if os_payment_hash settlement \<noteq> payment_hash \<or> os_hash_algorithm settlement \<noteq> algorithm then Unknown
          else (case os_preimage settlement of
              None \<Rightarrow> SettledWithoutPreimage
            | Some preimage \<Rightarrow> if hash_with H algorithm preimage = payment_hash then Fulfilled preimage
                else SettledWithInvalidPreimage)
      | Some (Legacy legacy) \<Rightarrow>
          (case ls_preimage legacy of
              None \<Rightarrow> Unknown
            | Some preimage \<Rightarrow> if hash_with H algorithm preimage = payment_hash then Fulfilled preimage else Unknown))"

definition resolve_tlc :: "hashers \<Rightarrow> channel \<Rightarrow> watch_store \<Rightarrow> tlc_info \<Rightarrow> onchain_tlc_resolution" where
  "resolve_tlc H c s tlc = resolve_onchain_tlc H (ch_id c) s (ti_tlc_id tlc) (ti_payment_hash tlc) (ti_hash_algorithm tlc)"

definition onchain_fulfilled_preimage :: "hashers \<Rightarrow> hash256 \<Rightarrow> watch_store \<Rightarrow> tlc_info \<Rightarrow> hash256 option" where
  "onchain_fulfilled_preimage H channel_id s tlc =
     (case resolve_onchain_tlc H channel_id s (ti_tlc_id tlc) (ti_payment_hash tlc) (ti_hash_algorithm tlc) of
        Fulfilled preimage \<Rightarrow> Some preimage | _ \<Rightarrow> None)"

definition can_reconcile_onchain_fulfillment :: "tlc_info \<Rightarrow> (bool, 'e) res" where
  "can_reconcile_onchain_fulfillment tlc =
     (if ti_removed_confirmed_at tlc \<noteq> None then Ok False
      else if ti_removed_reason tlc \<noteq> None then
        Ok (is_offered tlc \<and> ti_forwarding_tlc tlc \<noteq> None \<and> \<not> contains (ti_applied_flags tlc) REMOVE)
      else if is_offered tlc then
        bind_res (outbound_status tlc) (\<lambda>st. Ok (st \<in> {LocalAnnounced, OutCommitted}))
      else bind_res (inbound_status tlc) (\<lambda>st. Ok (st \<in> {AnnounceWaitPrevAck, AnnounceWaitAck, InCommitted})))"

definition is_uncommitted_payer_failure :: "tlc_info \<Rightarrow> bool" where
  "is_uncommitted_payer_failure tlc \<longleftrightarrow> is_offered tlc \<and> ti_forwarding_tlc tlc = None \<and> ti_attempt_id tlc \<noteq> None \<and>
     is_fail_reason (ti_removed_reason tlc) \<and> ti_removed_confirmed_at tlc = None \<and> \<not> contains (ti_applied_flags tlc) REMOVE"

section \<open>Collecting what must be settled\<close>

record onchain_fulfilled_tlc =
  of_tlc_id :: tlc_id
  of_forwarding_tlc :: "(hash256 \<times> u64) option"
  of_payment_hash :: hash256
  of_attempt_id :: "u64 option"
  of_preimage :: hash256

record onchain_confirmed_payer_tlc =
  op_tlc_id :: tlc_id
  op_payment_hash :: hash256
  op_attempt_id :: u64
  op_preimage :: hash256

datatype onchain_timeout_tlc_role = Forwarded hash256 u64 | OriginPayer "u64 option"

record onchain_timeout_settled_tlc =
  ot_tlc_id :: tlc_id
  ot_payment_hash :: hash256
  ot_shared_secret :: "256 word"
  ot_role :: onchain_timeout_tlc_role

record shutdown_settlement_record =
  sr_shutdown_tx_hash :: hash256
  sr_for_remote :: bool
  sr_commitment_number :: u64
  sr_settlement_data :: settlement_data

type_synonym shutdown_records = "hash256 \<rightharpoonup> shutdown_settlement_record"

definition collect_onchain_fulfilled_tlcs :: "hashers \<Rightarrow> channel \<Rightarrow> watch_store \<Rightarrow> (onchain_fulfilled_tlc list, 'e) res" where
  "collect_onchain_fulfilled_tlcs H c s =
     bind_res (filter_res can_reconcile_onchain_fulfillment (all_tlcs (ch_tlc_state c))) (\<lambda>tlcs.
     Ok (List.map_filter (\<lambda>tlc. case resolve_tlc H c s tlc of
           Fulfilled preimage \<Rightarrow> Some \<lparr>of_tlc_id = ti_tlc_id tlc, of_forwarding_tlc = ti_forwarding_tlc tlc,
              of_payment_hash = ti_payment_hash tlc, of_attempt_id = ti_attempt_id tlc, of_preimage = preimage\<rparr>
         | _ \<Rightarrow> None) tlcs))"

definition confirmed_payer_tlc :: "hashers \<Rightarrow> channel \<Rightarrow> watch_store \<Rightarrow> tlc_info \<Rightarrow> onchain_confirmed_payer_tlc option" where
  "confirmed_payer_tlc H c s tlc =
     (case ti_attempt_id tlc of None \<Rightarrow> None | Some attempt_id \<Rightarrow>
     (case ti_removed_reason tlc of None \<Rightarrow> None | Some reason \<Rightarrow>
      if is_fail_reason (Some reason) \<and> \<not> is_uncommitted_payer_failure tlc then None
      else (case onchain_fulfilled_preimage H (ch_id c) s tlc of None \<Rightarrow> None | Some preimage \<Rightarrow>
        (case reason of
           RemoveTlcFulfill p \<Rightarrow> if preimage \<noteq> p then None
             else Some \<lparr>op_tlc_id = ti_tlc_id tlc, op_payment_hash = ti_payment_hash tlc, op_attempt_id = attempt_id, op_preimage = preimage\<rparr>
         | RemoveTlcFail _ \<Rightarrow> Some \<lparr>op_tlc_id = ti_tlc_id tlc, op_payment_hash = ti_payment_hash tlc,
             op_attempt_id = attempt_id, op_preimage = preimage\<rparr>))))"

definition collect_onchain_confirmed_payer_tlcs :: "hashers \<Rightarrow> channel \<Rightarrow> watch_store \<Rightarrow> onchain_confirmed_payer_tlc list" where
  "collect_onchain_confirmed_payer_tlcs H c s =
     List.map_filter (confirmed_payer_tlc H c s) (filter (\<lambda>tlc. ti_forwarding_tlc tlc = None) (offered_list (ch_tlc_state c)))"

definition confirm_onchain_payer_fulfill :: "channel \<Rightarrow> onchain_confirmed_payer_tlc \<Rightarrow> bool \<times> channel" where
  "confirm_onchain_payer_fulfill c fulfilled =
     (case get_mut (ch_tlc_state c) (op_tlc_id fulfilled) of
        None \<Rightarrow> (False, c)
      | Some tlc \<Rightarrow>
          if \<not> is_uncommitted_payer_failure tlc then (False, c)
          else (True, c\<lparr>ch_tlc_state := modify_tlc (ch_tlc_state c) (op_tlc_id fulfilled) (\<lambda>t.
             t\<lparr>ti_removed_reason := Some (RemoveTlcFulfill (op_preimage fulfilled)),
               ti_applied_flags := ti_applied_flags t OR REMOVE\<rparr>)\<rparr>))"

definition matches_shutdown_settlement_record :: "channel \<Rightarrow> shutdown_settlement_record \<Rightarrow> bool" where
  "matches_shutdown_settlement_record c r =
     (case ch_state c of
        Closed flags \<Rightarrow> let local = contains flags UNCOOPERATIVE_LOCAL; remote = contains flags UNCOOPERATIVE_REMOTE
          in local \<noteq> remote \<and> sr_for_remote r = remote \<and> ch_shutdown_transaction_hash c = Some (sr_shutdown_tx_hash r)
      | _ \<Rightarrow> False)"

definition load_shutdown_settlement_record :: "channel \<Rightarrow> shutdown_records \<Rightarrow> shutdown_settlement_record option" where
  "load_shutdown_settlement_record c R =
     (case R (ch_id c) of Some r \<Rightarrow> if matches_shutdown_settlement_record c r then Some r else None | None \<Rightarrow> None)"

definition timeout_role :: "tlc_info \<Rightarrow> onchain_timeout_tlc_role" where
  "timeout_role tlc = (case ti_forwarding_tlc tlc of
     Some (channel_id, tlc_id) \<Rightarrow> Forwarded channel_id tlc_id | None \<Rightarrow> OriginPayer (ti_attempt_id tlc))"

definition timeout_settled_tlc :: "tlc_info \<Rightarrow> onchain_timeout_settled_tlc" where
  "timeout_settled_tlc tlc = \<lparr>ot_tlc_id = ti_tlc_id tlc, ot_payment_hash = ti_payment_hash tlc,
     ot_shared_secret = ti_shared_secret tlc, ot_role = timeout_role tlc\<rparr>"

definition local_tlc_id :: "bool \<Rightarrow> settlement_tlc \<Rightarrow> tlc_id" where
  "local_tlc_id for_remote t = (if for_remote then st_tlc_id t else flip (st_tlc_id t))"

definition collect_onchain_excluded_tlcs ::
  "channel \<Rightarrow> watch_store \<Rightarrow> shutdown_records \<Rightarrow> (onchain_timeout_settled_tlc list, 'e) res" where
  "collect_onchain_excluded_tlcs c s R =
     (if \<not> is_waiting_onchain_settlement c then Ok []
      else case load_shutdown_settlement_record c R of None \<Rightarrow> Ok [] | Some r \<Rightarrow>
      if (sd_local_amount (sr_settlement_data r) = 0 \<and> sd_remote_amount (sr_settlement_data r) = 0) \<or>
         (sr_for_remote r \<and> (case map_of (ws_channels s) ([], ch_id c) of
            None \<Rightarrow> False
          | Some cd \<Rightarrow> (case cd_revocation_data cd of None \<Rightarrow> False
              | Some revocation \<Rightarrow> sr_commitment_number r \<le> rd_commitment_number revocation)))
      then Ok []
      else bind_res (filter_res (\<lambda>tlc. bind_res (outbound_status tlc) (\<lambda>st.
               Ok (st = LocalAnnounced \<and> ti_removed_reason tlc = None \<and> ti_removed_confirmed_at tlc = None)))
             (offered_list (ch_tlc_state c))) (\<lambda>candidates.
           Ok (map timeout_settled_tlc (filter (\<lambda>tlc.
             \<not> list_ex (\<lambda>included. local_tlc_id (sr_for_remote r) included = ti_tlc_id tlc) (sd_tlcs (sr_settlement_data r))) candidates))))"

definition collect_onchain_timeout_settled_tlcs :: "hashers \<Rightarrow> channel \<Rightarrow> watch_store \<Rightarrow> u64 \<Rightarrow> onchain_timeout_settled_tlc list" where
  "collect_onchain_timeout_settled_tlcs H c s expect_expiry =
     List.map_filter (\<lambda>tlc. case resolve_tlc H c s tlc of
         SettledWithoutPreimage \<Rightarrow> if ti_expiry tlc < expect_expiry then Some (timeout_settled_tlc tlc) else None
       | SettledWithInvalidPreimage \<Rightarrow> Some (timeout_settled_tlc tlc)
       | _ \<Rightarrow> None)
     (filter (\<lambda>tlc. ti_removed_confirmed_at tlc = None) (offered_list (ch_tlc_state c)))"

definition collect_onchain_received_timeout_settled_tlcs :: "hashers \<Rightarrow> channel \<Rightarrow> watch_store \<Rightarrow> (u64 list, 'e) res" where
  "collect_onchain_received_timeout_settled_tlcs H c s =
     bind_res (filter_res can_reconcile_onchain_fulfillment (received_list (ch_tlc_state c))) (\<lambda>tlcs.
     traverse_res (\<lambda>tlc. case ti_tlc_id tlc of Received i \<Rightarrow> Ok i | Offered _ \<Rightarrow> Panic)
       (filter (\<lambda>tlc. resolve_tlc H c s tlc \<in> {SettledWithoutPreimage, SettledWithInvalidPreimage}) tlcs))"

definition has_unresolved_onchain_tlcs_for_snapshot :: "channel \<Rightarrow> settlement_data \<Rightarrow> bool \<Rightarrow> (bool, 'e) res" where
  "has_unresolved_onchain_tlcs_for_snapshot c snapshot for_remote =
     any_res (\<lambda>st. case get (ch_tlc_state c) (local_tlc_id for_remote st) of
         None \<Rightarrow> Ok True | Some tlc \<Rightarrow> can_reconcile_onchain_fulfillment tlc) (sd_tlcs snapshot)"

definition payer_failure_pending :: "hashers \<Rightarrow> channel \<Rightarrow> watch_store \<Rightarrow> bool \<Rightarrow> settlement_tlc \<Rightarrow> bool" where
  "payer_failure_pending H c s for_remote st =
     (case get (ch_tlc_state c) (local_tlc_id for_remote st) of
        None \<Rightarrow> False
      | Some tlc \<Rightarrow> is_uncommitted_payer_failure tlc \<and>
          resolve_onchain_tlc H (ch_id c) s (local_tlc_id for_remote st) (ti_payment_hash tlc) (ti_hash_algorithm tlc)
            \<noteq> SettledWithoutPreimage)"

definition has_unresolved_onchain_tlcs :: "hashers \<Rightarrow> channel \<Rightarrow> watch_store \<Rightarrow> shutdown_records \<Rightarrow> (bool, 'e) res" where
  "has_unresolved_onchain_tlcs H c s R =
     (case load_shutdown_settlement_record c R of
        Some r \<Rightarrow>
          bind_res (has_unresolved_onchain_tlcs_for_snapshot c (sr_settlement_data r) (sr_for_remote r)) (\<lambda>b.
          Ok (b \<or> list_ex (payer_failure_pending H c s (sr_for_remote r)) (sd_tlcs (sr_settlement_data r))))
      | None \<Rightarrow>
          if (case ch_state c of Closed flags \<Rightarrow> flags AND (UNCOOPERATIVE_LOCAL OR UNCOOPERATIVE_REMOTE) \<noteq> 0 | _ \<Rightarrow> False)
          then Ok True
          else any_res can_reconcile_onchain_fulfillment (all_tlcs (ch_tlc_state c)))"

section \<open>Outcomes are genuine\<close>

lemma resolve_fulfilled:
  "resolve_onchain_tlc H c s t h a = Fulfilled p \<Longrightarrow> hash_with H a p = h"
  by (auto simp: resolve_onchain_tlc_def split: option.splits stored_onchain_tlc_settlement.splits if_splits)

lemma resolve_tlc_fulfilled: "resolve_tlc H c s t = Fulfilled p \<Longrightarrow> hash_with H (ti_hash_algorithm t) p = ti_payment_hash t"
  unfolding resolve_tlc_def by (rule resolve_fulfilled)

lemma in_set_map_filter: "y \<in> set (List.map_filter f xs) \<longleftrightarrow> (\<exists>x\<in>set xs. f x = Some y)"
  by (force simp: List.map_filter_def)

lemma fulfilled_case: "(case r of Fulfilled p \<Rightarrow> Some (g p) | _ \<Rightarrow> None) = Some y \<longleftrightarrow> (\<exists>p. r = Fulfilled p \<and> y = g p)"
  by (cases r) auto

lemma timeout_case:
  "(case r of SettledWithoutPreimage \<Rightarrow> if b then Some x else None | SettledWithInvalidPreimage \<Rightarrow> Some x | _ \<Rightarrow> None) = Some y \<longleftrightarrow>
   y = x \<and> (r = SettledWithoutPreimage \<and> b \<or> r = SettledWithInvalidPreimage)"
  by (cases r) auto

lemma onchain_fulfilled_preimage_Some: "onchain_fulfilled_preimage H (ch_id c) s t = Some p \<longleftrightarrow> resolve_tlc H c s t = Fulfilled p"
  by (simp add: onchain_fulfilled_preimage_def fulfilled_case resolve_tlc_def)

definition reconcilable :: "tlc_info \<Rightarrow> bool" where
  "reconcilable t \<longleftrightarrow> can_reconcile_onchain_fulfillment t = (Ok True :: (bool, unit) res)"

lemma can_reconcile_total:
  assumes "wf_tlc_state ts" and "t \<in> set (all_tlcs ts)"
  shows "can_reconcile_onchain_fulfillment t = Ok (reconcilable t)"
proof -
  have "wf_offered t \<or> wf_received t" using assms by (auto simp: wf_tlc_state_def wf_pending_def all_tlcs_def)
  then show ?thesis
    by (cases "ti_status t")
      (auto simp: reconcilable_def can_reconcile_onchain_fulfillment_def wf_offered_def wf_received_def is_offered_def
        outbound_status_def inbound_status_def)
qed

lemma collect_fulfilled_eq:
  assumes "wf_tlc_state (ch_tlc_state c)"
  shows "collect_onchain_fulfilled_tlcs H c s = Ok (List.map_filter (\<lambda>tlc. case resolve_tlc H c s tlc of
           Fulfilled preimage \<Rightarrow> Some \<lparr>of_tlc_id = ti_tlc_id tlc, of_forwarding_tlc = ti_forwarding_tlc tlc,
              of_payment_hash = ti_payment_hash tlc, of_attempt_id = ti_attempt_id tlc, of_preimage = preimage\<rparr>
         | _ \<Rightarrow> None) (filter reconcilable (all_tlcs (ch_tlc_state c))))"
proof -
  have "filter_res can_reconcile_onchain_fulfillment (all_tlcs (ch_tlc_state c)) =
      (Ok (filter reconcilable (all_tlcs (ch_tlc_state c))) :: (tlc_info list, 'a) res)"
    using can_reconcile_total [OF assms] by (rule filter_res_Ok)
  then show ?thesis by (simp add: collect_onchain_fulfilled_tlcs_def)
qed

lemma collect_received_timeout_eq:
  assumes "wf_tlc_state (ch_tlc_state c)"
  shows "collect_onchain_received_timeout_settled_tlcs H c s = Ok (map (\<lambda>t. tlc_id_u64 (ti_tlc_id t))
    (filter (\<lambda>t. resolve_tlc H c s t \<in> {SettledWithoutPreimage, SettledWithInvalidPreimage}) (filter reconcilable (received_list (ch_tlc_state c)))))"
proof -
  have "filter_res can_reconcile_onchain_fulfillment (received_list (ch_tlc_state c)) =
      (Ok (filter reconcilable (received_list (ch_tlc_state c))) :: (tlc_info list, 'a) res)"
    by (intro filter_res_Ok can_reconcile_total [OF assms]) (simp add: all_tlcs_def)
  moreover have "traverse_res (\<lambda>tlc. case ti_tlc_id tlc of Received i \<Rightarrow> Ok i | Offered _ \<Rightarrow> Panic) ts =
      (Ok (map (\<lambda>t. tlc_id_u64 (ti_tlc_id t)) ts) :: (u64 list, 'a) res)" if "set ts \<subseteq> set (received_list (ch_tlc_state c))" for ts
    using that assms by (intro traverse_res_Ok) (fastforce simp: wf_tlc_state_def wf_pending_def wf_received_def split: tlc_id.split)
  ultimately show ?thesis by (simp add: collect_onchain_received_timeout_settled_tlcs_def subset_iff)
qed

text \<open>How one TLC was resolved, in the terms of the collected lists.\<close>

lemma in_collect_timeout:
  "x \<in> set (collect_onchain_timeout_settled_tlcs H c s e) \<longleftrightarrow> (\<exists>t\<in>set (offered_list (ch_tlc_state c)).
     x = timeout_settled_tlc t \<and> ti_removed_confirmed_at t = None \<and>
     (resolve_tlc H c s t = SettledWithoutPreimage \<and> ti_expiry t < e \<or> resolve_tlc H c s t = SettledWithInvalidPreimage))"
  by (auto simp: collect_onchain_timeout_settled_tlcs_def in_set_map_filter timeout_case)

lemma confirmed_payer_Some:
  assumes "confirmed_payer_tlc H c s t = Some x"
  shows "op_tlc_id x = ti_tlc_id t \<and> op_payment_hash x = ti_payment_hash t \<and> ti_attempt_id t = Some (op_attempt_id x) \<and>
    resolve_tlc H c s t = Fulfilled (op_preimage x) \<and>
    (ti_removed_reason t = Some (RemoveTlcFulfill (op_preimage x)) \<or> is_uncommitted_payer_failure t)"
proof -
  obtain a r where ar: "ti_attempt_id t = Some a" "ti_removed_reason t = Some r"
    using assms by (cases "ti_attempt_id t"; cases "ti_removed_reason t") (auto simp: confirmed_payer_tlc_def)
  with assms obtain p where p: "onchain_fulfilled_preimage H (ch_id c) s t = Some p"
    by (cases "onchain_fulfilled_preimage H (ch_id c) s t") (auto simp: confirmed_payer_tlc_def split: if_splits)
  then have "resolve_tlc H c s t = Fulfilled p" by (simp add: onchain_fulfilled_preimage_Some)
  with assms ar p show ?thesis
    by (cases r) (auto simp: confirmed_payer_tlc_def split: if_splits)
qed

lemma in_collect_payer:
  assumes "x \<in> set (collect_onchain_confirmed_payer_tlcs H c s)"
  shows "\<exists>t\<in>set (offered_list (ch_tlc_state c)). confirmed_payer_tlc H c s t = Some x \<and> ti_forwarding_tlc t = None"
  using assms by (auto simp: collect_onchain_confirmed_payer_tlcs_def in_set_map_filter)

lemma unique_tlc:
  assumes "wf_tlc_state ts" and "t \<in> set (all_tlcs ts)" and "t' \<in> set (all_tlcs ts)" and "ti_tlc_id t = ti_tlc_id t'"
  shows "t = t'"
proof -
  have part: "x \<in> set (if is_offered_id (ti_tlc_id x) then offered_list ts else received_list ts)" if "x \<in> set (all_tlcs ts)" for x
    using that assms(1) by (auto simp: wf_tlc_state_def wf_pending_def all_tlcs_def wf_offered_def wf_received_def)
  have "distinct (map ti_tlc_id (offered_list ts))" "distinct (map ti_tlc_id (received_list ts))"
    using assms(1) by (auto simp: wf_tlc_state_def wf_pending_def)
  then show ?thesis using part [OF assms(2)] part [OF assms(3)] assms(4)
    by (auto simp: distinct_map inj_on_def split: if_splits)
qed

text \<open>The scan of a settlement records outcomes of the TLCs it tracks, those of the confirmed commitment; what is recorded of a TLC then
  says that the commitment holds it.\<close>

definition evidence_in_snapshot :: "hashers \<Rightarrow> channel \<Rightarrow> watch_store \<Rightarrow> shutdown_records \<Rightarrow> bool" where
  "evidence_in_snapshot H c s R \<longleftrightarrow> (\<forall>r. load_shutdown_settlement_record c R = Some r \<longrightarrow>
     (\<forall>t\<in>set (all_tlcs (ch_tlc_state c)). resolve_tlc H c s t \<noteq> Unknown \<longrightarrow>
        (\<exists>st\<in>set (sd_tlcs (sr_settlement_data r)). local_tlc_id (sr_for_remote r) st = ti_tlc_id t)))"

lemma collect_excluded:
  assumes "wf_tlc_state (ch_tlc_state c)"
  obtains xs where "collect_onchain_excluded_tlcs c s R = (Ok xs :: (_, unit) res)"
    and "\<And>x. x \<in> set xs \<Longrightarrow> \<exists>r t. load_shutdown_settlement_record c R = Some r \<and> t \<in> set (offered_list (ch_tlc_state c)) \<and> x = timeout_settled_tlc t \<and>
      \<not> (\<exists>st\<in>set (sd_tlcs (sr_settlement_data r)). local_tlc_id (sr_for_remote r) st = ti_tlc_id t)"
proof -
  let ?P = "\<lambda>t. ti_status t = Outbound LocalAnnounced \<and> ti_removed_reason t = None \<and> ti_removed_confirmed_at t = None"
  have "filter_res (\<lambda>tlc. bind_res (outbound_status tlc) (\<lambda>st. Ok (st = LocalAnnounced \<and> ti_removed_reason tlc = None \<and> ti_removed_confirmed_at tlc = None)))
      (offered_list (ch_tlc_state c)) = (Ok (filter ?P (offered_list (ch_tlc_state c))) :: (tlc_info list, unit) res)"
  proof (rule filter_res_Ok)
    fix t assume "t \<in> set (offered_list (ch_tlc_state c))"
    then have "wf_offered t" by (rule wf_offered_list [OF assms])
    then obtain st where "ti_status t = Outbound st" by (auto simp: wf_offered_def split: tlc_status.splits)
    then show "bind_res (outbound_status t) (\<lambda>st. Ok (st = LocalAnnounced \<and> ti_removed_reason t = None \<and> ti_removed_confirmed_at t = None)) = (Ok (?P t) :: (bool, unit) res)"
      by (simp add: outbound_status_def del: bind_res_eq_Ok)
  qed
  then show thesis by (intro that [of "case collect_onchain_excluded_tlcs c s R of Ok xs \<Rightarrow> xs | (_ :: (onchain_timeout_settled_tlc list, unit) res) \<Rightarrow> []"])
      (auto simp: collect_onchain_excluded_tlcs_def list_ex_iff split: option.splits if_splits)
qed

text \<open>What each report says about how the TLC was resolved.\<close>

definition chain_fulfilled :: "hashers \<Rightarrow> channel \<Rightarrow> watch_store \<Rightarrow> tlc_id \<Rightarrow> bool" where
  "chain_fulfilled H c s i \<longleftrightarrow> (\<exists>t\<in>set (all_tlcs (ch_tlc_state c)). \<exists>p. ti_tlc_id t = i \<and> resolve_tlc H c s t = Fulfilled p)"

definition chain_failed :: "hashers \<Rightarrow> channel \<Rightarrow> watch_store \<Rightarrow> tlc_id \<Rightarrow> bool" where
  "chain_failed H c s i \<longleftrightarrow> (\<exists>t\<in>set (all_tlcs (ch_tlc_state c)). ti_tlc_id t = i \<and> resolve_tlc H c s t \<in> {SettledWithoutPreimage, SettledWithInvalidPreimage})"

lemma chain_outcome_unique: "wf_tlc_state (ch_tlc_state c) \<Longrightarrow> \<not> (chain_fulfilled H c s i \<and> chain_failed H c s i)"
  using unique_tlc by (fastforce simp: chain_fulfilled_def chain_failed_def)

lemma reported_fulfilled:
  assumes "wf_tlc_state (ch_tlc_state c)" and "collect_onchain_fulfilled_tlcs H c s = (Ok fs :: (_, unit) res)" and "f \<in> set fs"
  shows "\<exists>t\<in>set (all_tlcs (ch_tlc_state c)). of_tlc_id f = ti_tlc_id t \<and> of_payment_hash f = ti_payment_hash t \<and>
      of_forwarding_tlc f = ti_forwarding_tlc t \<and> resolve_tlc H c s t = Fulfilled (of_preimage f)"
proof -
  obtain t p where "t \<in> set (all_tlcs (ch_tlc_state c))" "resolve_tlc H c s t = Fulfilled p" "f = \<lparr>of_tlc_id = ti_tlc_id t,
      of_forwarding_tlc = ti_forwarding_tlc t, of_payment_hash = ti_payment_hash t, of_attempt_id = ti_attempt_id t, of_preimage = p\<rparr>"
    using assms(2,3) by (auto simp: collect_fulfilled_eq [OF assms(1)] in_set_map_filter fulfilled_case)
  then show ?thesis by (intro bexI [of _ t]) auto
qed

lemma reported_payer:
  assumes "p \<in> set (collect_onchain_confirmed_payer_tlcs H c s)"
  shows "\<exists>t\<in>set (all_tlcs (ch_tlc_state c)). op_tlc_id p = ti_tlc_id t \<and> ti_forwarding_tlc t = None \<and>
      ti_attempt_id t = Some (op_attempt_id p) \<and> resolve_tlc H c s t = Fulfilled (op_preimage p)"
  using in_collect_payer [OF assms] confirmed_payer_Some by (fastforce simp: all_tlcs_def)

lemma reported_timeout:
  assumes "wf_tlc_state (ch_tlc_state c)" and "collect_onchain_received_timeout_settled_tlcs H c s = (Ok rs :: (_, unit) res)"
    and "i \<in> ot_tlc_id ` set (collect_onchain_timeout_settled_tlcs H c s e) \<union> Received ` set rs"
  shows "chain_failed H c s i"
proof -
  have "Received (tlc_id_u64 (ti_tlc_id t)) = ti_tlc_id t" if "t \<in> set (received_list (ch_tlc_state c))" for t
    using that assms(1) by (cases "ti_tlc_id t") (auto simp: wf_tlc_state_def wf_pending_def wf_received_def)
  then show ?thesis using assms(2,3)
    by (auto simp: collect_received_timeout_eq [OF assms(1)] in_collect_timeout all_tlcs_def timeout_settled_tlc_def chain_failed_def) blast+
qed

text \<open>C14. Chain outcomes are genuine and exclusive: on a well-formed channel the collectors never panic,
  every TLC reported as fulfilled (to the upstream channel or to the payer) belongs to the channel and
  comes with a preimage of its full payment hash under its hash algorithm, and no TLC is reported both
  as fulfilled and as failed by a timeout. A TLC that is failed because the confirmed commitment does not hold it is not reported as fulfilled either, as long as the
  store records outcomes only of TLCs that the commitment holds.\<close>

theorem onchain_outcomes_genuine:
  assumes "wf_tlc_state (ch_tlc_state c)"
  shows "\<exists>fulfilled received_failed excluded.
    collect_onchain_fulfilled_tlcs H c s = (Ok fulfilled :: (_, unit) res) \<and>
    collect_onchain_received_timeout_settled_tlcs H c s = (Ok received_failed :: (_, unit) res) \<and>
    collect_onchain_excluded_tlcs c s R = (Ok excluded :: (_, unit) res) \<and>
    (\<forall>f\<in>set fulfilled. \<exists>t\<in>set (all_tlcs (ch_tlc_state c)). of_tlc_id f = ti_tlc_id t \<and> of_payment_hash f = ti_payment_hash t \<and>
       of_forwarding_tlc f = ti_forwarding_tlc t \<and> hash_with H (ti_hash_algorithm t) (of_preimage f) = ti_payment_hash t) \<and>
    (\<forall>p\<in>set (collect_onchain_confirmed_payer_tlcs H c s). \<exists>t\<in>set (all_tlcs (ch_tlc_state c)). op_tlc_id p = ti_tlc_id t \<and>
       ti_forwarding_tlc t = None \<and> ti_attempt_id t = Some (op_attempt_id p) \<and> hash_with H (ti_hash_algorithm t) (op_preimage p) = ti_payment_hash t) \<and>
    (of_tlc_id ` set fulfilled \<union> op_tlc_id ` set (collect_onchain_confirmed_payer_tlcs H c s)) \<inter>
      (ot_tlc_id ` set (collect_onchain_timeout_settled_tlcs H c s expect_expiry) \<union> Received ` set received_failed) = {} \<and>
    (evidence_in_snapshot H c s R \<longrightarrow>
      (of_tlc_id ` set fulfilled \<union> op_tlc_id ` set (collect_onchain_confirmed_payer_tlcs H c s)) \<inter> ot_tlc_id ` set excluded = {})"
proof -
  obtain fs rs where fs: "collect_onchain_fulfilled_tlcs H c s = (Ok fs :: (_, unit) res)"
    and rs: "collect_onchain_received_timeout_settled_tlcs H c s = (Ok rs :: (_, unit) res)"
    using collect_fulfilled_eq [OF assms] collect_received_timeout_eq [OF assms] by blast
  obtain xs where xs: "collect_onchain_excluded_tlcs c s R = (Ok xs :: (_, unit) res)"
    and out: "\<And>x. x \<in> set xs \<Longrightarrow> \<exists>r t. load_shutdown_settlement_record c R = Some r \<and> t \<in> set (offered_list (ch_tlc_state c)) \<and> x = timeout_settled_tlc t \<and>
      \<not> (\<exists>st\<in>set (sd_tlcs (sr_settlement_data r)). local_tlc_id (sr_for_remote r) st = ti_tlc_id t)"
    using collect_excluded [OF assms] by blast
  let ?good = "of_tlc_id ` set fs \<union> op_tlc_id ` set (collect_onchain_confirmed_payer_tlcs H c s)"
  have ok: "chain_fulfilled H c s i" if "i \<in> ?good" for i
    using that by (auto simp: chain_fulfilled_def dest!: reported_fulfilled [OF assms fs] reported_payer)
  have excl: "?good \<inter> (ot_tlc_id ` set (collect_onchain_timeout_settled_tlcs H c s expect_expiry) \<union> Received ` set rs) = {}"
  proof -
    have "\<not> chain_fulfilled H c s i" if "i \<in> ot_tlc_id ` set (collect_onchain_timeout_settled_tlcs H c s expect_expiry) \<union> Received ` set rs" for i
      using reported_timeout [OF assms rs that] chain_outcome_unique [OF assms, of H s i] by simp
    then show ?thesis using ok by (meson disjoint_iff)
  qed
  have excl': "?good \<inter> ot_tlc_id ` set xs = {}" if "evidence_in_snapshot H c s R"
  proof -
    have "\<not> chain_fulfilled H c s (ot_tlc_id x)" if mem: "x \<in> set xs" for x
    proof
      obtain r t where r: "load_shutdown_settlement_record c R = Some r" and x: "t \<in> set (offered_list (ch_tlc_state c))" "x = timeout_settled_tlc t"
        and no: "\<not> (\<exists>st\<in>set (sd_tlcs (sr_settlement_data r)). local_tlc_id (sr_for_remote r) st = ti_tlc_id t)"
        using out [OF mem] by blast
      then have t: "t \<in> set (all_tlcs (ch_tlc_state c))" "ot_tlc_id x = ti_tlc_id t" by (simp_all add: timeout_settled_tlc_def all_tlcs_def)
      assume "chain_fulfilled H c s (ot_tlc_id x)"
      then obtain t' p where "t' \<in> set (all_tlcs (ch_tlc_state c))" "ti_tlc_id t' = ti_tlc_id t" "resolve_tlc H c s t' = Fulfilled p"
        using t(2) by (auto simp: chain_fulfilled_def)
      then have "t' = t" "resolve_tlc H c s t' \<noteq> Unknown" using unique_tlc [OF assms _ t(1)] by simp_all
      then have "resolve_tlc H c s t \<noteq> Unknown" by simp
      then show False using \<open>evidence_in_snapshot H c s R\<close> r t(1) no by (auto simp: evidence_in_snapshot_def)
    qed
    then have "\<not> chain_fulfilled H c s i" if "i \<in> ot_tlc_id ` set xs" for i using that by (elim imageE) simp
    then show ?thesis using ok by (meson disjoint_iff)
  qed
  have "\<forall>f\<in>set fs. \<exists>t\<in>set (all_tlcs (ch_tlc_state c)). of_tlc_id f = ti_tlc_id t \<and> of_payment_hash f = ti_payment_hash t \<and>
      of_forwarding_tlc f = ti_forwarding_tlc t \<and> hash_with H (ti_hash_algorithm t) (of_preimage f) = ti_payment_hash t"
    using reported_fulfilled [OF assms fs] resolve_tlc_fulfilled by fast
  moreover have "\<forall>p\<in>set (collect_onchain_confirmed_payer_tlcs H c s). \<exists>t\<in>set (all_tlcs (ch_tlc_state c)). op_tlc_id p = ti_tlc_id t \<and>
      ti_forwarding_tlc t = None \<and> ti_attempt_id t = Some (op_attempt_id p) \<and> hash_with H (ti_hash_algorithm t) (op_preimage p) = ti_payment_hash t"
    using reported_payer resolve_tlc_fulfilled by fast
  ultimately show ?thesis using fs rs xs excl excl' by (intro exI [of _ fs] exI [of _ rs] exI [of _ xs] conjI impI)
qed

definition sample_hashers :: hashers where
  "sample_hashers = \<lparr>blake2b_256 = (\<lambda>x. x + 1), sha256 = (\<lambda>x. x + 2)\<rparr>"

definition closed_channel :: "tlc_state \<Rightarrow> channel" where
  "closed_channel ts = (sample_channel ts 10 10)\<lparr>ch_state := Closed (UNCOOPERATIVE_LOCAL OR WAITING_ONCHAIN_SETTLEMENT),
     ch_shutdown_transaction_hash := Some 44\<rparr>"

definition snapshot_tlc :: "tlc_id \<Rightarrow> settlement_tlc" where
  "snapshot_tlc i = \<lparr>st_tlc_id = i, st_hash_algorithm = CkbHash, st_payment_amount = 5, st_payment_hash = 7, st_expiry = 0, st_local_key = 1, st_remote_key = 2\<rparr>"

definition closed_records :: "settlement_tlc list \<Rightarrow> shutdown_records" where
  "closed_records tlcs = [9 \<mapsto> \<lparr>sr_shutdown_tx_hash = 44, sr_for_remote = False, sr_commitment_number = 1,
     sr_settlement_data = \<lparr>sd_local_amount = 10, sd_remote_amount = 10, sd_tlcs = tlcs\<rparr>\<rparr>]"

lemma closed_flags:
  "(UNCOOPERATIVE_LOCAL OR WAITING_ONCHAIN_SETTLEMENT) AND (UNCOOPERATIVE_LOCAL OR UNCOOPERATIVE_REMOTE) \<noteq> 0"
  "contains (UNCOOPERATIVE_LOCAL OR WAITING_ONCHAIN_SETTLEMENT) UNCOOPERATIVE_LOCAL"
  "\<not> contains (UNCOOPERATIVE_LOCAL OR WAITING_ONCHAIN_SETTLEMENT) UNCOOPERATIVE_REMOTE"
  by (simp_all add: UNCOOPERATIVE_LOCAL_def UNCOOPERATIVE_REMOTE_def WAITING_ONCHAIN_SETTLEMENT_def contains_def)

lemma closed_record: "load_shutdown_settlement_record (closed_channel ts) (closed_records tlcs) = Some \<lparr>sr_shutdown_tx_hash = 44, sr_for_remote = False, sr_commitment_number = 1,
     sr_settlement_data = \<lparr>sd_local_amount = 10, sd_remote_amount = 10, sd_tlcs = tlcs\<rparr>\<rparr>"
  using closed_flags by (simp add: load_shutdown_settlement_record_def closed_channel_def closed_records_def sample_channel_def matches_shutdown_settlement_record_def)

text \<open>One offered TLC was announced and is in no commitment, another is in the confirmed one and was claimed on the chain with its preimage.\<close>

definition claimed_table :: tlc_state where
  "claimed_table = \<lparr>ts_offered = \<lparr>pt_tlcs = [sample_tlc (Offered 0) (Outbound OutCommitted) 5, sample_tlc (Offered 1) (Outbound LocalAnnounced) 5], pt_next_tlc_id = 2\<rparr>,
     ts_received = \<lparr>pt_tlcs = [], pt_next_tlc_id = 0\<rparr>, ts_waiting_ack = False\<rparr>"

definition claimed_store :: watch_store where
  "claimed_store = empty_store\<lparr>ws_settled := [(([], 9, Offered 0), \<lparr>os_payment_hash = 7, os_hash_algorithm = CkbHash, os_preimage = Some 6, os_tx_hash = 1, os_tlc_index = 0\<rparr>)]\<rparr>"

lemmas claimed_eval = claimed_table_def claimed_store_def closed_channel_def sample_channel_def sample_tlc_def sample_hashers_def empty_store_def all_tlcs_def
  resolve_tlc_def resolve_onchain_tlc_def get_onchain_tlc_settlement_def snapshot_tlc_def

theorem onchain_outcomes_genuine_witness:
  "\<exists>fulfilled excluded. collect_onchain_fulfilled_tlcs sample_hashers (closed_channel claimed_table) claimed_store = (Ok fulfilled :: (_, unit) res) \<and>
     collect_onchain_excluded_tlcs (closed_channel claimed_table) claimed_store (closed_records [snapshot_tlc (Received 0)]) = (Ok excluded :: (_, unit) res) \<and>
     of_tlc_id ` set fulfilled \<inter> ot_tlc_id ` set excluded = {}"
proof -
  have wf: "wf_tlc_state (ch_tlc_state (closed_channel claimed_table))"
    by (simp add: claimed_eval wf_tlc_state_def wf_pending_def wf_offered_def)
  have evidence: "evidence_in_snapshot sample_hashers (closed_channel claimed_table) claimed_store (closed_records [snapshot_tlc (Received 0)])"
    unfolding evidence_in_snapshot_def closed_record by (simp add: claimed_eval local_tlc_id_def)
  from onchain_outcomes_genuine [OF wf, of sample_hashers claimed_store "closed_records [snapshot_tlc (Received 0)]" 0] show ?thesis
    by - (elim exE conjE, intro exI conjI, assumption, assumption, use evidence in \<open>simp add: Int_Un_distrib2\<close>)
qed

section \<open>When nothing is left to resolve\<close>

lemma any_res_False:
  assumes "any_res p xs = Ok False" and "x \<in> set xs"
  shows "p x = Ok False"
  using assms by (induction xs) (auto split: if_splits)

lemma not_reconcilable_final:
  assumes "tlc_inv ts" and "t \<in> set (all_tlcs ts)" and "can_reconcile_onchain_fulfillment t = (Ok False :: (bool, unit) res)"
  shows "(is_offered t \<longrightarrow> ti_removed_reason t \<noteq> None \<and>
      (ti_removed_confirmed_at t \<noteq> None \<or> contains (ti_applied_flags t) REMOVE \<or> ti_forwarding_tlc t = None)) \<and>
    (\<not> is_offered t \<longrightarrow> ti_removed_reason t \<noteq> None \<or> ti_status t = Inbound RemoteAnnounced)"
proof -
  have rec: "removal_recorded t" and wf: "wf_offered t \<or> wf_received t"
    using assms(1,2) by (auto simp: tlc_inv_def wf_tlc_state_def wf_pending_def all_tlcs_def)
  show ?thesis
  proof (cases "ti_status t")
    case (Outbound st)
    with rec wf assms(3) show ?thesis
      by (cases st)
        (auto simp: can_reconcile_onchain_fulfillment_def removal_recorded_def status_confirmed_def wf_offered_def wf_received_def
          is_offered_def outbound_status_def split: if_splits)
  next
    case (Inbound st)
    with rec wf assms(3) show ?thesis
      by (cases st)
        (auto simp: can_reconcile_onchain_fulfillment_def removal_recorded_def status_confirmed_def wf_offered_def wf_received_def
          is_offered_def inbound_status_def split: if_splits)
  qed
qed

text \<open>C33. A force-closed channel stops waiting only when everything is final: if no unresolved TLC is
  reported, the snapshot of the confirmed commitment is known, and every TLC in it is in the table;
  an offered one has been removed, and its outcome has been applied or confirmed or concerns no
  upstream channel; a failure not yet delivered to the payer is proven by the chain; a received one
  has been removed or was never part of a commitment of this node.\<close>

theorem resolved_means_final:
  assumes "tlc_inv (ch_tlc_state c)" and "ch_state c = Closed flags"
    and "flags AND (UNCOOPERATIVE_LOCAL OR UNCOOPERATIVE_REMOTE) \<noteq> 0"
    and "has_unresolved_onchain_tlcs H c s R = (Ok False :: (bool, unit) res)"
  shows "\<exists>r. load_shutdown_settlement_record c R = Some r \<and> (\<forall>st\<in>set (sd_tlcs (sr_settlement_data r)).
    \<exists>t. get (ch_tlc_state c) (local_tlc_id (sr_for_remote r) st) = Some t \<and>
      (is_offered t \<longrightarrow> ti_removed_reason t \<noteq> None \<and>
        (ti_removed_confirmed_at t \<noteq> None \<or> contains (ti_applied_flags t) REMOVE \<or> ti_forwarding_tlc t = None)) \<and>
      (is_uncommitted_payer_failure t \<longrightarrow> resolve_tlc H c s t = SettledWithoutPreimage) \<and>
      (\<not> is_offered t \<longrightarrow> ti_removed_reason t \<noteq> None \<or> ti_status t = Inbound RemoteAnnounced))"
proof -
  let ?ts = "ch_tlc_state c"
  obtain r where r: "load_shutdown_settlement_record c R = Some r"
    using assms(2-4) by (cases "load_shutdown_settlement_record c R") (auto simp: has_unresolved_onchain_tlcs_def)
  then have snap: "has_unresolved_onchain_tlcs_for_snapshot c (sr_settlement_data r) (sr_for_remote r) = (Ok False :: (bool, unit) res)"
    and payer: "st \<in> set (sd_tlcs (sr_settlement_data r)) \<Longrightarrow> \<not> payer_failure_pending H c s (sr_for_remote r) st" for st
    using assms(4) by (auto simp: has_unresolved_onchain_tlcs_def list_ex_iff)
  have "\<exists>t. get ?ts (local_tlc_id (sr_for_remote r) st) = Some t \<and>
      (is_offered t \<longrightarrow> ti_removed_reason t \<noteq> None \<and>
        (ti_removed_confirmed_at t \<noteq> None \<or> contains (ti_applied_flags t) REMOVE \<or> ti_forwarding_tlc t = None)) \<and>
      (is_uncommitted_payer_failure t \<longrightarrow> resolve_tlc H c s t = SettledWithoutPreimage) \<and>
      (\<not> is_offered t \<longrightarrow> ti_removed_reason t \<noteq> None \<or> ti_status t = Inbound RemoteAnnounced)"
    if st: "st \<in> set (sd_tlcs (sr_settlement_data r))" for st
  proof -
    note one = any_res_False [OF snap [unfolded has_unresolved_onchain_tlcs_for_snapshot_def] st]
    then obtain t where t: "get ?ts (local_tlc_id (sr_for_remote r) st) = Some t" by (auto split: option.splits)
    with one have "can_reconcile_onchain_fulfillment t = (Ok False :: (bool, unit) res)" by simp
    note final = not_reconcilable_final [OF assms(1) _ this]
    have "is_uncommitted_payer_failure t \<longrightarrow> resolve_tlc H c s t = SettledWithoutPreimage"
      using payer [OF st] t get_Some [OF t] by (simp add: payer_failure_pending_def resolve_tlc_def)
    with final get_Some [OF t] t show ?thesis by blast
  qed
  with r show ?thesis by blast
qed

definition drained_table :: tlc_state where
  "drained_table = \<lparr>ts_offered = \<lparr>pt_tlcs = [(sample_tlc (Offered 0) (Outbound OutRemoveAckConfirmed) 5)\<lparr>ti_removed_reason := Some (RemoveTlcFulfill 6),
       ti_removed_confirmed_at := Some 1\<rparr>], pt_next_tlc_id = 1\<rparr>,
     ts_received = \<lparr>pt_tlcs = [(sample_tlc (Received 0) (Inbound LocalRemoved) 5)\<lparr>ti_removed_reason := Some (RemoveTlcFulfill 6)\<rparr>], pt_next_tlc_id = 1\<rparr>,
     ts_waiting_ack = False\<rparr>"

lemmas drained_eval = drained_table_def closed_channel_def sample_channel_def sample_tlc_def snapshot_tlc_def local_tlc_id_def get_def find_tlc_def is_offered_def

theorem resolved_means_final_witness:
  "\<exists>r. load_shutdown_settlement_record (closed_channel drained_table) (closed_records [snapshot_tlc (Received 0), snapshot_tlc (Offered 0)]) = Some r \<and>
     length (sd_tlcs (sr_settlement_data r)) = 2 \<and> (\<forall>st\<in>set (sd_tlcs (sr_settlement_data r)).
       \<exists>t. get drained_table (local_tlc_id (sr_for_remote r) st) = Some t \<and> (is_offered t \<longrightarrow> ti_removed_reason t \<noteq> None))"
proof -
  let ?tlcs = "[snapshot_tlc (Received 0), snapshot_tlc (Offered 0)]"
  have inv: "tlc_inv (ch_tlc_state (closed_channel drained_table))"
    by (simp add: drained_eval tlc_inv_def wf_tlc_state_def wf_pending_def wf_offered_def wf_received_def removal_recorded_def status_confirmed_def all_tlcs_def)
  have state: "ch_state (closed_channel drained_table) = Closed (UNCOOPERATIVE_LOCAL OR WAITING_ONCHAIN_SETTLEMENT)" "ch_tlc_state (closed_channel drained_table) = drained_table"
    by (simp_all add: closed_channel_def sample_channel_def)
  have "has_unresolved_onchain_tlcs sample_hashers (closed_channel drained_table) empty_store (closed_records ?tlcs) = (Ok False :: (bool, unit) res)"
    unfolding has_unresolved_onchain_tlcs_def closed_record
    by (simp add: has_unresolved_onchain_tlcs_for_snapshot_def payer_failure_pending_def drained_eval can_reconcile_onchain_fulfillment_def is_uncommitted_payer_failure_def)
  from resolved_means_final [OF inv state(1) closed_flags(1) this, unfolded closed_record state(2) option.inject] show ?thesis
    unfolding closed_record by (elim exE conjE) (rule exI, rule conjI, rule HOL.refl, auto)
qed

end
