(* ===== verification/Settlement_Scan.thy ===== *)
theory Settlement_Scan
  imports Onchain_Reconcile
begin

text \<open>
  Following a force-closed channel on the chain (\<^verbatim>\<open>fiber-lib/src/watchtower/actor.rs\<close>): each settlement
  transaction spends a watched commitment cell, names the TLCs it settles in its witness, and may
  leave a successor cell with the remaining TLCs. The scan matches each witness against the TLCs it
  tracks, records exact evidence for each settled TLC and moves on to the successor. The
  transactions come from the chain's indexer and are an argument.
\<close>

section \<open>Transactions\<close>

type_synonym out_point = "hash256 \<times> u32"

record chain_tx =
  tx_hash :: hash256
  tx_inputs :: "out_point list"
  tx_output_locks :: "script list"
  tx_witnesses :: "bytes list"

definition XUDT_COMPATIBLE_WITNESS :: bytes where
  "XUDT_COMPATIBLE_WITNESS = [16, 0, 0, 0, 16, 0, 0, 0, 16, 0, 0, 0, 16, 0, 0, 0]"

definition lock_matches_commitment_prefix :: "script \<Rightarrow> script \<Rightarrow> bool" where
  "lock_matches_commitment_prefix lock prefix \<longleftrightarrow> sc_code_hash lock = sc_code_hash prefix \<and> sc_hash_type lock = sc_hash_type prefix \<and>
     take (length (sc_args prefix)) (sc_args lock) = sc_args prefix"

definition has_successor_commitment_output :: "chain_tx \<Rightarrow> script \<Rightarrow> bool" where
  "has_successor_commitment_output tx prefix =
     (case tx_output_locks tx of [] \<Rightarrow> False | lock # _ \<Rightarrow> lock_matches_commitment_prefix lock prefix)"

section \<open>One settlement transaction\<close>

record scan_ctx =
  cx_hashers :: hashers
  cx_channel_id :: hash256
  cx_node_id :: node_id
  cx_prefix :: script
  cx_features :: channel_features

definition decode_settlement_witness :: "channel_features \<Rightarrow> bytes \<Rightarrow> settlement_witness option" where
  "decode_settlement_witness features w = (case settlement_witness_build_from_witness w features of Ok sw \<Rightarrow> Some sw | _ \<Rightarrow> None)"

definition evidence :: "tracked_settlement_tlc \<Rightarrow> hash256 option \<Rightarrow> hash256 \<Rightarrow> u8 \<Rightarrow> onchain_tlc_settlement" where
  "evidence tlc preimage h i = \<lparr>os_payment_hash = tr_payment_hash tlc, os_hash_algorithm = tr_hash_algorithm tlc,
     os_preimage = preimage, os_tx_hash = h, os_tlc_index = i\<rparr>"

definition settle_all_tracked :: "scan_ctx \<Rightarrow> hash256 \<Rightarrow> tracked_settlement_tlc list \<Rightarrow> watch_store \<Rightarrow> watch_store" where
  "settle_all_tracked X h tracked s = fold (\<lambda>(i, tlc) s.
     insert_onchain_tlc_settlement s (cx_node_id X) (cx_channel_id X) (tr_tlc_id tlc) (evidence tlc None h (word_of_nat i)))
     (List.enumerate 0 tracked) s"

definition remaining_tracked :: "nat list \<Rightarrow> tracked_settlement_tlc list \<Rightarrow> tracked_settlement_tlc list" where
  "remaining_tracked settled tracked = map snd (filter (\<lambda>(i, _). i \<notin> set settled) (List.enumerate 0 tracked))"

definition store_revealed_preimage ::
  "scan_ctx \<Rightarrow> tracked_settlement_tlc \<Rightarrow> hash256 option \<Rightarrow> watch_store \<Rightarrow> watch_store" where
  "store_revealed_preimage X tlc preimage s = (case preimage of
      Some p \<Rightarrow> if hash_with (cx_hashers X) (tr_hash_algorithm tlc) p = tr_payment_hash tlc
                then insert_watch_preimage s (cx_node_id X) (tr_payment_hash tlc) p else s
    | None \<Rightarrow> s)"

fun reconcile_unlocks ::
  "scan_ctx \<Rightarrow> hash256 \<Rightarrow> tracked_settlement_tlc list \<Rightarrow> bool \<Rightarrow> unlock list \<Rightarrow> nat list \<Rightarrow> watch_store \<Rightarrow>
   tracked_settlement_tlc list option \<times> watch_store" where
  "reconcile_unlocks X h tracked terminal [] settled s = (Some (remaining_tracked settled tracked), s)"
| "reconcile_unlocks X h tracked terminal (u # us) settled s =
     (if ul_type u \<ge> 0xFE then
        (if terminal then (Some [], settle_all_tracked X h tracked s)
         else reconcile_unlocks X h tracked terminal us settled s)
      else let index = unat (ul_type u) in
      if length tracked \<le> index then (None, s)
      else if ul_with_preimage u \<and> ul_preimage u = None then (None, s)
      else let tlc = tracked ! index;
               preimage = (if ul_with_preimage u then ul_preimage u else None);
               s1 = store_revealed_preimage X tlc preimage s;
               s2 = insert_onchain_tlc_settlement s1 (cx_node_id X) (cx_channel_id X) (tr_tlc_id tlc) (evidence tlc preimage h (ul_type u))
           in reconcile_unlocks X h tracked terminal us (index # settled) s2)"

definition reconcile_settlement_witness ::
  "scan_ctx \<Rightarrow> chain_tx \<Rightarrow> nat \<Rightarrow> tracked_settlement_tlc list \<Rightarrow> bool \<Rightarrow> watch_store \<Rightarrow>
   tracked_settlement_tlc list option \<times> watch_store" where
  "reconcile_settlement_witness X tx witness_index tracked terminal s =
     (if length (tx_witnesses tx) \<le> witness_index then (None, s)
      else let witness = tx_witnesses tx ! witness_index in
      if length witness \<le> 18 \<or> take 16 witness \<noteq> XUDT_COMPATIBLE_WITNESS then (None, s)
      else case decode_settlement_witness (cx_features X) (drop 16 witness) of None \<Rightarrow> (None, s) | Some sw \<Rightarrow>
      if length (sw_pending_htlcs sw) \<noteq> length tracked \<or>
         list_ex (\<lambda>(htlc, tlc). htlc_to_witness htlc \<noteq> tr_witness tlc) (zip (sw_pending_htlcs sw) tracked) then (None, s)
      else reconcile_unlocks X (tx_hash tx) tracked terminal (sw_unlocks sw) [] s)"

definition verified_watch_preimage :: "hashers \<Rightarrow> watch_store \<Rightarrow> node_id \<Rightarrow> tracked_settlement_tlc \<Rightarrow> hash256 option" where
  "verified_watch_preimage H s node tlc = (case get_watch_preimage s node (tr_payment_hash tlc) of
      None \<Rightarrow> None
    | Some preimage \<Rightarrow> if hash_with H (tr_hash_algorithm tlc) preimage = tr_payment_hash tlc then Some preimage else None)"

section \<open>The scan\<close>

record scan_state =
  sn_watched :: "(out_point \<times> tracked_settlement_tlc list) list"
  sn_processed :: "hash256 list"
  sn_indices :: "(hash256 \<times> nat) list"
  sn_store :: watch_store

definition watched_input :: "(out_point \<times> tracked_settlement_tlc list) list \<Rightarrow> chain_tx \<Rightarrow> (nat \<times> out_point) option" where
  "watched_input watched tx = List.find (\<lambda>(_, out). map_of watched out \<noteq> None) (List.enumerate 0 (tx_inputs tx))"

definition process_watched_settlement_tx :: "scan_ctx \<Rightarrow> chain_tx \<Rightarrow> scan_state \<Rightarrow> nat option \<times> scan_state" where
  "process_watched_settlement_tx X tx st =
     (if tx_hash tx \<in> set (sn_processed st) then (None, st)
      else case watched_input (sn_watched st) tx of None \<Rightarrow> (None, st) | Some (index, out) \<Rightarrow>
      (case map_of (sn_watched st) out of None \<Rightarrow> (None, st) | Some tracked \<Rightarrow>
      let terminal = (\<not> has_successor_commitment_output tx (cx_prefix X));
          (remaining, s) = reconcile_settlement_witness X tx index tracked terminal (sn_store st)
      in case remaining of
           None \<Rightarrow> (None, st\<lparr>sn_store := s\<rparr>)
         | Some tlcs \<Rightarrow>
             let watched = AList.delete out (sn_watched st)
             in (Some index, st\<lparr>sn_store := s, sn_processed := tx_hash tx # sn_processed st,
                 sn_watched := (if has_successor_commitment_output tx (cx_prefix X)
                   then AList.update (tx_hash tx, 0) tlcs watched else watched)\<rparr>)))"

fun scan_pass :: "scan_ctx \<Rightarrow> chain_tx list \<Rightarrow> scan_state \<Rightarrow> bool \<times> scan_state" where
  "scan_pass X [] st = (False, st)"
| "scan_pass X (tx # txs) st =
     (if tx_hash tx \<in> set (sn_processed st) then scan_pass X txs st
      else case process_watched_settlement_tx X tx st of
          (Some index, st') \<Rightarrow> (True, snd (scan_pass X txs (st'\<lparr>sn_indices := AList.update (tx_hash tx) index (sn_indices st')\<rparr>)))
        | (None, st') \<Rightarrow> scan_pass X txs st')"

section \<open>Decoding never panics\<close>

lemma htlc_build_total: "length w = 65 + n \<Longrightarrow> \<exists>h. htlc_build_from_witness w n = Ok h"
  by (simp add: htlc_build_from_witness_def slice_def Let_def)

lemma fetch_htlc_no_panic: "fetch_htlc n r \<noteq> Panic"
proof (cases "length r < 65 + n")
  case False
  then obtain h where "htlc_build_from_witness (take (65 + n) r) n = Ok h"
    using htlc_build_total [of "take (65 + n) r" n] by auto
  with False show ?thesis by (simp add: fetch_htlc_def reader_take_def)
qed (simp add: fetch_htlc_def reader_take_def)

lemma unlock_build_no_panic: "unlock_build_from_witness w \<noteq> Panic"
  by (auto simp: unlock_build_from_witness_def slice_def Let_def)

lemma read_many_no_panic: "(\<And>r. f r \<noteq> Panic) \<Longrightarrow> read_many f k r \<noteq> Panic"
  by (induction k arbitrary: r) (auto simp: res_simps split: prod.splits)

lemma fetch_unlock_no_panic: "fetch_unlock r \<noteq> Panic"
  using unlock_build_no_panic [of r] by (auto simp: fetch_unlock_def reader_take_def res_simps split: prod.splits)

lemma read_unlocks_no_panic: "read_unlocks r \<noteq> Panic"
proof (induction r rule: read_unlocks.induct)
  case (1 r)
  then show ?case
    using fetch_unlock_no_panic [of r] by (subst read_unlocks.simps) (auto simp: res_simps split: prod.splits)
qed

lemma settlement_witness_no_panic: "settlement_witness_build_from_witness w f \<noteq> Panic"
  using read_many_no_panic [OF fetch_htlc_no_panic] read_unlocks_no_panic
  by (auto simp: settlement_witness_build_from_witness_def take_u8_def take_u128_le_def reader_take_def res_simps split: prod.splits)

section \<open>Termination\<close>

lemma process_None:
  assumes "process_watched_settlement_tx X tx st = (None, st')"
  shows "\<exists>s. st' = st\<lparr>sn_store := s\<rparr>"
  using assms
  by (auto simp: process_watched_settlement_tx_def Let_def split: if_splits option.splits prod.splits intro: exI [of _ "sn_store st"])

lemma process_Some:
  assumes "process_watched_settlement_tx X tx st = (Some i, st')"
  obtains out tracked rem s where "tx_hash tx \<notin> set (sn_processed st)" "watched_input (sn_watched st) tx = Some (i, out)"
    "map_of (sn_watched st) out = Some tracked"
    "reconcile_settlement_witness X tx i tracked (\<not> has_successor_commitment_output tx (cx_prefix X)) (sn_store st) = (Some rem, s)"
    "st' = st\<lparr>sn_store := s, sn_processed := tx_hash tx # sn_processed st, sn_watched :=
       (if has_successor_commitment_output tx (cx_prefix X) then AList.update (tx_hash tx, 0) rem (AList.delete out (sn_watched st))
        else AList.delete out (sn_watched st))\<rparr>"
  using assms by (auto simp: process_watched_settlement_tx_def Let_def split: if_splits option.splits prod.splits)

lemma process_processed:
  "process_watched_settlement_tx X tx st = (r, st') \<Longrightarrow>
   set (sn_processed st') = (if r = None then {} else {tx_hash tx}) \<union> set (sn_processed st)"
  by (cases r) (auto dest: process_None elim: process_Some)

lemma pass_processed: "set (sn_processed st) \<subseteq> set (sn_processed (snd (scan_pass X txs st)))"
proof (induction txs arbitrary: st)
  case (Cons tx txs)
  obtain r st' where p: "process_watched_settlement_tx X tx st = (r, st')" by fastforce
  let ?u = "st'\<lparr>sn_indices := AList.update (tx_hash tx) (the r) (sn_indices st')\<rparr>"
  show ?case using process_processed [OF p] Cons.IH [of st'] Cons.IH [of ?u] Cons.IH [of st] p
    by (cases r) auto
qed simp

lemma pass_progress:
  "scan_pass X txs st = (True, st') \<Longrightarrow> \<exists>h\<in>tx_hash ` set txs. h \<notin> set (sn_processed st) \<and> h \<in> set (sn_processed st')"
proof (induction txs arbitrary: st)
  case (Cons tx txs)
  show ?case
  proof (cases "tx_hash tx \<in> set (sn_processed st)")
    case True
    then show ?thesis using Cons by auto
  next
    case fresh: False
    obtain r st1 where p: "process_watched_settlement_tx X tx st = (r, st1)" by fastforce
    show ?thesis
    proof (cases r)
      case None
      then show ?thesis using Cons p fresh process_processed [OF p] by auto
    next
      case (Some i)
      then have "st' = snd (scan_pass X txs (st1\<lparr>sn_indices := AList.update (tx_hash tx) i (sn_indices st1)\<rparr>))"
        using Cons.prems fresh p by auto
      then have "set (sn_processed st1) \<subseteq> set (sn_processed st')"
        using pass_processed [of "st1\<lparr>sn_indices := AList.update (tx_hash tx) i (sn_indices st1)\<rparr>" X txs] by simp
      then show ?thesis using process_processed [OF p] Some fresh by auto
    qed
  qed
qed simp

function scan_loop :: "scan_ctx \<Rightarrow> chain_tx list \<Rightarrow> scan_state \<Rightarrow> scan_state" where
  "scan_loop X txs st = (if fst (scan_pass X txs st) then scan_loop X txs (snd (scan_pass X txs st)) else snd (scan_pass X txs st))"
  by pat_completeness auto

termination
proof (relation "measure (\<lambda>(X, txs, st). card (tx_hash ` set txs - set (sn_processed st)))")
  fix X txs st assume "fst (scan_pass X txs st)"
  then obtain st' where st': "scan_pass X txs st = (True, st')" by (cases "scan_pass X txs st") auto
  then have "tx_hash ` set txs - set (sn_processed st') \<subset> tx_hash ` set txs - set (sn_processed st)"
    using pass_progress [OF st'] pass_processed [of st X txs] by auto
  then have "card (tx_hash ` set txs - set (sn_processed st')) < card (tx_hash ` set txs - set (sn_processed st))"
    by (intro psubset_card_mono) auto
  with st' show "((X, txs, snd (scan_pass X txs st)), X, txs, st) \<in>
      measure (\<lambda>(X, txs, st). card (tx_hash ` set txs - set (sn_processed st)))" by simp
qed simp

declare scan_loop.simps [simp del]

definition scan_watched_settlement_txs ::
  "scan_ctx \<Rightarrow> out_point \<Rightarrow> tracked_settlement_tlc list \<Rightarrow> chain_tx list \<Rightarrow> watch_store \<Rightarrow> scan_state" where
  "scan_watched_settlement_txs X first_out_point initial_tlcs candidates s =
     scan_loop X candidates \<lparr>sn_watched = [(first_out_point, initial_tlcs)], sn_processed = [], sn_indices = [], sn_store = s\<rparr>"

text \<open>An invariant that one transaction keeps holds at the end of the scan.\<close>

lemma scan_pass_invariant:
  assumes "\<And>tx st. tx \<in> set txs \<Longrightarrow> I st \<Longrightarrow> I (snd (process_watched_settlement_tx X tx st))"
    and "\<And>st m. I st \<Longrightarrow> I (st\<lparr>sn_indices := m\<rparr>)" and "I st"
  shows "I (snd (scan_pass X txs st))"
  using assms(1,3)
proof (induction txs arbitrary: st)
  case (Cons tx txs)
  obtain r st' where p: "process_watched_settlement_tx X tx st = (r, st')" by fastforce
  have "I st'" using Cons.prems(1) [of tx st] Cons.prems(2) p by simp
  then show ?case using Cons.IH Cons.prems assms(2) p by (cases r) auto
qed simp

lemma scan_loop_invariant:
  assumes "\<And>tx st. tx \<in> set txs \<Longrightarrow> I st \<Longrightarrow> I (snd (process_watched_settlement_tx X tx st))"
    and "\<And>st m. I st \<Longrightarrow> I (st\<lparr>sn_indices := m\<rparr>)" and "I st"
  shows "I (scan_loop X txs st)"
  using assms
proof (induction X txs st rule: scan_loop.induct)
  case (1 X txs st)
  have "I (snd (scan_pass X txs st))" using 1(2-) by (rule scan_pass_invariant)
  then show ?case using 1 by (subst scan_loop.simps) auto
qed

section \<open>The scan ends at a fixed point\<close>

lemma reconcile_unlocks_store: "fst (reconcile_unlocks X h tr b us st s) = fst (reconcile_unlocks X h tr b us st s')"
proof (induction us arbitrary: st s s')
  case (Cons u us)
  show ?case
  proof (cases "ul_type u \<ge> 0xFE")
    case True
    then show ?thesis using Cons.IH [of st s s'] by (cases b) simp_all
  next
    case False
    then show ?thesis using Cons.IH [of "unat (ul_type u) # st"] by (auto simp: Let_def)
  qed
qed simp

lemma reconcile_store: "fst (reconcile_settlement_witness X tx i tr b s) = fst (reconcile_settlement_witness X tx i tr b s')"
  using reconcile_unlocks_store [of X "tx_hash tx" tr b _ "[]" s s']
  by (simp add: reconcile_settlement_witness_def Let_def split: option.split)

lemma process_store_eq:
  assumes "sn_watched st = sn_watched st'" and "sn_processed st = sn_processed st'"
  shows "fst (process_watched_settlement_tx X tx st) = fst (process_watched_settlement_tx X tx st')"
proof -
  have "fst (reconcile_settlement_witness X tx i tr b (sn_store st)) = fst (reconcile_settlement_witness X tx i tr b (sn_store st'))" for i tr b
    by (rule reconcile_store)
  then show ?thesis using assms
    by (auto simp: process_watched_settlement_tx_def Let_def split: option.split prod.split) (metis fst_conv option.distinct(1))+
qed

lemma pass_no_progress:
  assumes "scan_pass X txs st = (False, st')"
  shows "sn_watched st' = sn_watched st \<and> sn_processed st' = sn_processed st \<and>
    (\<forall>tx\<in>set txs. tx_hash tx \<in> set (sn_processed st) \<or> fst (process_watched_settlement_tx X tx st) = None)"
  using assms
proof (induction txs arbitrary: st)
  case (Cons tx txs)
  show ?case
  proof (cases "tx_hash tx \<in> set (sn_processed st)")
    case True
    then show ?thesis using Cons by auto
  next
    case fresh: False
    obtain r st1 where p: "process_watched_settlement_tx X tx st = (r, st1)" by fastforce
    with Cons.prems fresh have r: "r = None" by (cases r) auto
    with process_None p obtain s where "st1 = st\<lparr>sn_store := s\<rparr>" by blast
    then have same: "sn_watched st1 = sn_watched st" "sn_processed st1 = sn_processed st" by simp_all
    have rest: "scan_pass X txs st1 = (False, st')" using Cons.prems fresh p r by simp
    show ?thesis using Cons.IH [OF rest] same p r process_store_eq [OF same] by auto
  qed
qed simp

lemma scan_loop_fixpoint:
  "\<forall>tx\<in>set txs. tx_hash tx \<in> set (sn_processed (scan_loop X txs st)) \<or>
     fst (process_watched_settlement_tx X tx (scan_loop X txs st)) = None"
proof (induction X txs st rule: scan_loop.induct)
  case (1 X txs st)
  obtain b st' where p: "scan_pass X txs st = (b, st')" by fastforce
  show ?case
  proof (cases b)
    case True
    then show ?thesis using 1 p by (subst (1 2) scan_loop.simps) simp
  next
    case False
    then have "scan_loop X txs st = st'" using p by (subst scan_loop.simps) simp
    then show ?thesis using pass_no_progress [of X txs st st'] p False process_store_eq [of st st'] by auto
  qed
qed

text \<open>C35. The scan terminates at a fixed point, whatever the indexer returns and in whatever order: when
  it stops, every candidate transaction has been processed or is not a valid settlement of any
  commitment cell still watched; decoding its witness never panics.\<close>

theorem scan_reaches_fixed_point:
  "filter (\<lambda>tx. tx_hash tx \<notin> set (sn_processed (scan_watched_settlement_txs X out tlcs candidates s)) \<and>
      fst (process_watched_settlement_tx X tx (scan_watched_settlement_txs X out tlcs candidates s)) \<noteq> None) candidates = [] \<and>
   settlement_witness_build_from_witness w features \<noteq> Panic"
  unfolding scan_watched_settlement_txs_def
  using scan_loop_fixpoint [of candidates X] settlement_witness_no_panic [of w features] by (auto simp: filter_empty_conv)

section \<open>Evidence is sound\<close>

definition sound_evidence ::
  "scan_ctx \<Rightarrow> tracked_settlement_tlc list \<Rightarrow> hash256 set \<Rightarrow> watch_store \<Rightarrow> watch_store \<Rightarrow> bool" where
  "sound_evidence X T hs s0 s \<longleftrightarrow>
     (\<forall>n c t r. map_of (ws_settled s) (n, c, t) = Some r \<longrightarrow> map_of (ws_settled s0) (n, c, t) = Some r \<or>
        n = cx_node_id X \<and> c = cx_channel_id X \<and> os_tx_hash r \<in> hs \<and>
        (\<exists>tlc\<in>set T. tr_tlc_id tlc = t \<and> os_payment_hash r = tr_payment_hash tlc \<and> os_hash_algorithm r = tr_hash_algorithm tlc)) \<and>
     (\<forall>n h p. get_watch_preimage s n h = Some p \<longrightarrow> get_watch_preimage s0 n h = Some p \<or>
        n = cx_node_id X \<and> (\<exists>tlc\<in>set T. tr_payment_hash tlc = h \<and> hash_with (cx_hashers X) (tr_hash_algorithm tlc) p = h))"

lemma sound_refl: "sound_evidence X T hs s s"
  by (simp add: sound_evidence_def)

lemma sound_fewer:
  assumes "sound_evidence X T hs s0 s" and "ws_settled s' = ws_settled s"
    and "\<And>k. map_of (ws_preimages s') k = None \<or> map_of (ws_preimages s') k = map_of (ws_preimages s) k"
  shows "sound_evidence X T hs s0 s'"
proof -
  have "get_watch_preimage s n h = Some p" if "get_watch_preimage s' n h = Some p" for n h p
    using that assms(3) [of "(n, h)"] by (auto simp: get_watch_preimage_def)
  then show ?thesis using assms(1) unfolding sound_evidence_def assms(2) by blast
qed

lemma sound_insert:
  assumes "sound_evidence X T hs s0 s" and "tlc \<in> set T" and "h \<in> hs"
  shows "sound_evidence X T hs s0 (insert_onchain_tlc_settlement s (cx_node_id X) (cx_channel_id X) (tr_tlc_id tlc) (evidence tlc p h i))"
proof -
  let ?s = "s\<lparr>ws_settled := AList.update (cx_node_id X, cx_channel_id X, tr_tlc_id tlc) (evidence tlc p h i) (ws_settled s)\<rparr>"
  have upd: "sound_evidence X T hs s0 ?s"
    using assms by (auto simp: sound_evidence_def update_conv' evidence_def get_watch_preimage_def)
  have "sound_evidence X T hs s0 (cleanup_unused_watch_preimages ?s None t)" for t
    using upd by (rule sound_fewer) (auto simp: cleanup_effect)
  with upd assms(1) show ?thesis by (simp add: insert_onchain_tlc_settlement_def Let_def)
qed

lemma sound_reveal:
  assumes "sound_evidence X T hs s0 s" and "tlc \<in> set T"
  shows "sound_evidence X T hs s0 (store_revealed_preimage X tlc p s)"
  using assms by (auto simp: store_revealed_preimage_def sound_evidence_def insert_watch_preimage_def get_watch_preimage_def update_conv' split: option.split)

lemma sound_settle_all:
  assumes "sound_evidence X T hs s0 s" and "set tr \<subseteq> set T" and "h \<in> hs"
  shows "sound_evidence X T hs s0 (settle_all_tracked X h tr s)"
proof -
  have "sound_evidence X T hs s0 (fold (\<lambda>(i, tlc) s. insert_onchain_tlc_settlement s (cx_node_id X) (cx_channel_id X) (tr_tlc_id tlc)
      (evidence tlc None h (word_of_nat i))) ps s)" if "snd ` set ps \<subseteq> set T" for ps
    using assms(1) that
  proof (induction ps arbitrary: s)
    case (Cons q ps)
    then have "sound_evidence X T hs s0 (insert_onchain_tlc_settlement s (cx_node_id X) (cx_channel_id X) (tr_tlc_id (snd q))
        (evidence (snd q) None h (word_of_nat (fst q))))" by (intro sound_insert assms(3)) auto
    with Cons show ?case by (auto simp: case_prod_beta)
  qed simp
  moreover have "snd ` set (List.enumerate 0 tr) \<subseteq> set T" using assms(2) by (metis list.set_map map_snd_enumerate)
  ultimately show ?thesis by (simp add: settle_all_tracked_def)
qed

text \<open>What each recorded settlement keeps, the whole loop over the unlocks keeps.\<close>

lemma reconcile_unlocks_invariant:
  assumes "P s" and "\<And>s. P s \<Longrightarrow> P (settle_all_tracked X h tr s)"
    and "\<And>s i p. P s \<Longrightarrow> i < length tr \<Longrightarrow> P (insert_onchain_tlc_settlement (store_revealed_preimage X (tr ! i) p s)
        (cx_node_id X) (cx_channel_id X) (tr_tlc_id (tr ! i)) (evidence (tr ! i) p h (word_of_nat i)))"
  shows "P (snd (reconcile_unlocks X h tr b us st s))"
  using assms(1)
proof (induction us arbitrary: st s)
  case (Cons u us)
  show ?case
  proof (cases "ul_type u \<ge> 0xFE")
    case True
    then show ?thesis using Cons assms(2) by (cases b) simp_all
  next
    case False
    then have "0xFE \<le> ul_type u \<longleftrightarrow> False" by simp
    then show ?thesis using Cons.prems Cons.IH [OF assms(3) [OF Cons.prems, of "unat (ul_type u)"]] by (simp add: Let_def)
  qed
qed simp

lemma sound_unlocks:
  assumes "sound_evidence X T hs s0 s" and "set tr \<subseteq> set T" and "h \<in> hs"
  shows "sound_evidence X T hs s0 (snd (reconcile_unlocks X h tr b us st s))"
proof (rule reconcile_unlocks_invariant [where P = "sound_evidence X T hs s0", OF assms(1)])
  fix s i p assume s: "sound_evidence X T hs s0 s" and "i < length tr"
  then have "tr ! i \<in> set T" using assms(2) by (meson nth_mem subsetD)
  then show "sound_evidence X T hs s0 (insert_onchain_tlc_settlement (store_revealed_preimage X (tr ! i) p s)
      (cx_node_id X) (cx_channel_id X) (tr_tlc_id (tr ! i)) (evidence (tr ! i) p h (word_of_nat i)))"
    by (intro sound_insert sound_reveal s assms(3))
qed (intro sound_settle_all assms(2,3))

lemma process_store:
  "sn_store (snd (process_watched_settlement_tx X tx st)) = sn_store st \<or>
   (\<exists>i out tr b. map_of (sn_watched st) out = Some tr \<and>
      sn_store (snd (process_watched_settlement_tx X tx st)) = snd (reconcile_settlement_witness X tx i tr b (sn_store st)))"
proof (cases "\<exists>i out tr. watched_input (sn_watched st) tx = Some (i, out) \<and> map_of (sn_watched st) out = Some tr")
  case True
  then obtain i out tr where w: "watched_input (sn_watched st) tx = Some (i, out)" "map_of (sn_watched st) out = Some tr" by blast
  let ?r = "reconcile_settlement_witness X tx i tr (\<not> has_successor_commitment_output tx (cx_prefix X)) (sn_store st)"
  have "sn_store (snd (process_watched_settlement_tx X tx st)) = sn_store st \<or> sn_store (snd (process_watched_settlement_tx X tx st)) = snd ?r"
    using w by (cases ?r; cases "fst ?r") (auto simp: process_watched_settlement_tx_def Let_def split: if_splits)
  with w show ?thesis by blast
next
  case False
  then have "snd (process_watched_settlement_tx X tx st) = st"
    by (auto simp: process_watched_settlement_tx_def Let_def split: option.split prod.split)
  then show ?thesis by simp
qed

lemma set_remaining: "set (remaining_tracked settled tr) \<subseteq> set tr"
  by (auto simp: remaining_tracked_def in_set_enumerate_eq)

lemma unlocks_remaining: "reconcile_unlocks X h tr b us st s = (Some rem, s') \<Longrightarrow> set rem \<subseteq> set tr"
proof (induction us arbitrary: st s)
  case Nil
  then show ?case using set_remaining by auto
next
  case (Cons u us)
  then show ?case by (auto simp: Let_def split: if_splits)
qed

lemma reconcile_cases:
  "reconcile_settlement_witness X tx i tr b s = (None, s) \<or>
   (\<exists>w sw. w \<in> set (tx_witnesses tx) \<and> decode_settlement_witness (cx_features X) (drop 16 w) = Some sw \<and>
      length (sw_pending_htlcs sw) = length tr \<and>
      reconcile_settlement_witness X tx i tr b s = reconcile_unlocks X (tx_hash tx) tr b (sw_unlocks sw) [] s)"
proof (cases "length (tx_witnesses tx) \<le> i")
  case False
  let ?w = "tx_witnesses tx ! i"
  have "?w \<in> set (tx_witnesses tx)" using False by (intro nth_mem) simp
  moreover have "reconcile_settlement_witness X tx i tr b s = (None, s) \<or>
      (\<exists>sw. decode_settlement_witness (cx_features X) (drop 16 ?w) = Some sw \<and> length (sw_pending_htlcs sw) = length tr \<and>
         reconcile_settlement_witness X tx i tr b s = reconcile_unlocks X (tx_hash tx) tr b (sw_unlocks sw) [] s)"
    using False by (cases "decode_settlement_witness (cx_features X) (drop 16 ?w)") (simp_all add: reconcile_settlement_witness_def Let_def)
  ultimately show ?thesis by blast
qed (simp add: reconcile_settlement_witness_def)

lemma sound_reconcile:
  assumes "sound_evidence X T hs s0 s" and "set tr \<subseteq> set T" and "tx_hash tx \<in> hs"
  shows "sound_evidence X T hs s0 (snd (reconcile_settlement_witness X tx i tr b s))"
  using reconcile_cases [of X tx i tr b s] assms(1) sound_unlocks [OF assms] by (metis snd_conv)

lemma reconcile_remaining:
  "reconcile_settlement_witness X tx i tr b s = (Some rem, s') \<Longrightarrow> set rem \<subseteq> set tr"
  using reconcile_cases [of X tx i tr b s] unlocks_remaining by (metis option.distinct(1) prod.inject)

definition tracks :: "tracked_settlement_tlc list \<Rightarrow> (out_point \<times> tracked_settlement_tlc list) list \<Rightarrow> bool" where
  "tracks T watched \<longleftrightarrow> (\<forall>out l. map_of watched out = Some l \<longrightarrow> set l \<subseteq> set T)"

lemma sound_process:
  assumes "sound_evidence X T hs s0 (sn_store st) \<and> tracks T (sn_watched st)" and "tx_hash tx \<in> hs"
  shows "sound_evidence X T hs s0 (sn_store (snd (process_watched_settlement_tx X tx st))) \<and>
    tracks T (sn_watched (snd (process_watched_settlement_tx X tx st)))"
proof -
  obtain r st' where p: "process_watched_settlement_tx X tx st = (r, st')" by fastforce
  have store: "sound_evidence X T hs s0 (sn_store st')"
    using process_store [of X tx st]
  proof (elim disjE exE conjE)
    fix i out tr b assume "map_of (sn_watched st) out = Some tr"
      and eq: "sn_store (snd (process_watched_settlement_tx X tx st)) = snd (reconcile_settlement_witness X tx i tr b (sn_store st))"
    then have "set tr \<subseteq> set T" using assms(1) unfolding tracks_def by blast
    then show ?thesis using sound_reconcile [OF conjunct1 [OF assms(1)] _ assms(2)] eq p by simp
  qed (use assms(1) p in simp)
  have "tracks T (sn_watched st')"
  proof (cases r)
    case None
    with process_None p obtain s where "st' = st\<lparr>sn_store := s\<rparr>" by blast
    then show ?thesis using assms(1) by simp
  next
    case (Some i)
    from p [unfolded this] show ?thesis
    proof (rule process_Some)
      fix out tr rem s
      assume "map_of (sn_watched st) out = Some tr"
        and rec: "reconcile_settlement_witness X tx i tr (\<not> has_successor_commitment_output tx (cx_prefix X)) (sn_store st) = (Some rem, s)"
        and st': "st' = st\<lparr>sn_store := s, sn_processed := tx_hash tx # sn_processed st, sn_watched :=
          (if has_successor_commitment_output tx (cx_prefix X) then AList.update (tx_hash tx, 0) rem (AList.delete out (sn_watched st))
           else AList.delete out (sn_watched st))\<rparr>"
      then have "set rem \<subseteq> set T" using assms(1) reconcile_remaining [OF rec] unfolding tracks_def by blast
      then show ?thesis using assms(1) unfolding st' by (auto simp: tracks_def update_conv' delete_conv' split: if_splits)
    qed
  qed
  with store p show ?thesis by simp
qed

text \<open>C34. Evidence found on the chain is sound: every settlement record the scan adds is for this channel
  and node, carries the hash of a scanned transaction, and names a TLC of the verified snapshot with
  that TLC's full payment hash and hash algorithm; every preimage it adds is a preimage of the full
  payment hash of such a TLC.\<close>

theorem scan_evidence_sound:
  "sound_evidence X tlcs (tx_hash ` set candidates) s (sn_store (scan_watched_settlement_txs X out tlcs candidates s))"
proof -
  have "sound_evidence X tlcs (tx_hash ` set candidates) s (sn_store (scan_watched_settlement_txs X out tlcs candidates s)) \<and>
      tracks tlcs (sn_watched (scan_watched_settlement_txs X out tlcs candidates s))"
    unfolding scan_watched_settlement_txs_def
  proof (rule scan_loop_invariant)
    fix tx :: chain_tx and st :: scan_state assume "tx \<in> set candidates"
      and "sound_evidence X tlcs (tx_hash ` set candidates) s (sn_store st) \<and> tracks tlcs (sn_watched st)"
    then show "sound_evidence X tlcs (tx_hash ` set candidates) s (sn_store (snd (process_watched_settlement_tx X tx st))) \<and>
        tracks tlcs (sn_watched (snd (process_watched_settlement_tx X tx st)))"
      by (intro sound_process) auto
  qed (auto simp: sound_refl tracks_def)
  then show ?thesis ..
qed

section \<open>No TLC is lost\<close>

definition recorded :: "scan_ctx \<Rightarrow> watch_store \<Rightarrow> tracked_settlement_tlc \<Rightarrow> bool" where
  "recorded X s tlc \<longleftrightarrow> map_of (ws_settled s) (cx_node_id X, cx_channel_id X, tr_tlc_id tlc) \<noteq> None"


lemma recorded_reveal [simp]: "recorded X (store_revealed_preimage X tlc p s) tlc' = recorded X s tlc'"
  by (simp add: recorded_def store_revealed_preimage_def insert_watch_preimage_def split: option.split)



















end
