(* ===== verification/Commitment_Tx.thy ===== *)
theory Commitment_Tx
  imports Settlement_Scan
begin

text \<open>
  Commitment transactions and their revocation
  (\<^verbatim>\<open>fiber-lib/src/fiber/channel.rs\<close>): the output a commitment transaction creates and what its lock
  script commits to, the revocation message two parties sign, the bookkeeping of commitment numbers
  and of the revocation nonces of the peer. Key derivation, signing,
  aggregation, molecule serialization and transaction sizes are parameters.
\<close>

section \<open>Signing contexts\<close>

record sign_ctx =
  sx_local_first :: bool
  sx_pubkeys :: "pubkey \<times> pubkey"
  sx_nonces :: "pub_nonce \<times> pub_nonce"
  sx_secnonce_number :: u64

record tx_env =
  te_crypto :: crypto
  te_chain :: chain_env
  te_keys :: key_env
  te_local_settlement_key :: "256 word"
  te_remote_settlement_key :: pubkey
  te_revocation_nonce :: "u64 \<Rightarrow> pub_nonce"
  te_commitment_point :: "u64 \<Rightarrow> pubkey"
  te_tlc_key_safe :: "pubkey \<Rightarrow> bool"
  te_output_bytes :: "cell_output \<Rightarrow> bytes"
  te_data_bytes :: "bytes \<Rightarrow> bytes"
  te_sign :: "sign_ctx \<Rightarrow> bytes \<Rightarrow> bytes"
  te_sign_and_aggregate :: "sign_ctx \<Rightarrow> bytes \<Rightarrow> bytes \<Rightarrow> bytes option"

definition should_local_go_first_in_musig2 :: "channel \<Rightarrow> bool" where
  "should_local_go_first_in_musig2 c \<longleftrightarrow> ch_local_funding_pubkey c \<le> ch_remote_funding_pubkey c"

definition order_things_for_musig2 :: "channel \<Rightarrow> 'a \<Rightarrow> 'a \<Rightarrow> 'a list" where
  "order_things_for_musig2 c local remote = (if should_local_go_first_in_musig2 c then [local, remote] else [remote, local])"

definition get_musig2_agg_context :: "channel \<Rightarrow> bool \<Rightarrow> pubkey \<times> pubkey" where
  "get_musig2_agg_context c for_remote = (if for_remote then (ch_local_funding_pubkey c, ch_remote_funding_pubkey c)
     else (ch_remote_funding_pubkey c, ch_local_funding_pubkey c))"

definition get_commitment_lock_script_xonly :: "crypto \<Rightarrow> channel \<Rightarrow> bool \<Rightarrow> (bytes, 'e) res" where
  "get_commitment_lock_script_xonly C c for_remote = (case get_musig2_agg_context c for_remote of (a, b) \<Rightarrow> expect (cr_aggregate_xonly C a b))"

definition get_current_commitment_number :: "channel \<Rightarrow> bool \<Rightarrow> u64" where
  "get_current_commitment_number c for_remote =
     (if for_remote then cn_local (ch_commitment_numbers c) else cn_remote (ch_commitment_numbers c))"

definition get_next_commitment_number :: "channel \<Rightarrow> bool \<Rightarrow> (u64, 'e) res" where
  "get_next_commitment_number c for_remote = plus_u (get_current_commitment_number c for_remote) 1"

definition get_revocation_nonce :: "tx_env \<Rightarrow> channel \<Rightarrow> bool \<Rightarrow> pub_nonce" where
  "get_revocation_nonce E c for_remote = te_revocation_nonce E (get_current_commitment_number c for_remote)"

definition get_next_revocation_nonce :: "tx_env \<Rightarrow> channel \<Rightarrow> (pub_nonce, 'e) res" where
  "get_next_revocation_nonce E c = bind_res (get_next_commitment_number c False) (\<lambda>n. Ok (te_revocation_nonce E n))"

definition get_revoke_sign_context :: "tx_env \<Rightarrow> channel \<Rightarrow> bool \<Rightarrow> sign_ctx option" where
  "get_revoke_sign_context E c for_remote =
     (case (if for_remote then ch_remote_revocation_nonce_for_verify c else ch_remote_revocation_nonce_for_send c) of
        None \<Rightarrow> None
      | Some remote_nonce \<Rightarrow> let local_nonce = get_revocation_nonce E c for_remote in
          Some \<lparr>sx_local_first = for_remote, sx_pubkeys = get_musig2_agg_context c for_remote,
            sx_nonces = (if for_remote then (local_nonce, remote_nonce) else (remote_nonce, local_nonce)),
            sx_secnonce_number = get_current_commitment_number c for_remote\<rparr>)"

section \<open>The commitment transaction\<close>

definition get_delay_epoch_as_lock_args_bytes :: "crypto \<Rightarrow> channel \<Rightarrow> bytes" where
  "get_delay_epoch_as_lock_args_bytes C c = to_le_bytes (cr_delay_since C (ch_commitment_delay_epoch c))"

definition get_remote_shutdown_script :: "channel \<Rightarrow> (script, 'e) res" where
  "get_remote_shutdown_script c = expect (ch_remote_shutdown_script c)"

definition commitment_lock_script_args :: "tx_env \<Rightarrow> channel \<Rightarrow> bool \<Rightarrow> settlement_data \<Rightarrow> bytes chan_res" where
  "commitment_lock_script_args E c for_remote data =
     bind_res (get_commitment_lock_script_xonly (te_crypto E) c for_remote) (\<lambda>xonly.
     bind_res (settlement_data_to_witness (te_crypto E) data for_remote (ch_channel_features c)
         (te_local_settlement_key E) (te_remote_settlement_key E)) (\<lambda>witness.
     Ok (take 20 (cr_blake2b_256 (te_crypto E) xonly) @ get_delay_epoch_as_lock_args_bytes (te_crypto E) c @
         to_be_bytes (get_current_commitment_number c for_remote) @ blake160 (te_crypto E) witness @ [0] @
         (if features_is_v2 (ch_channel_features c) then [ch_channel_features c] else []))))"

definition funds_output :: "tx_env \<Rightarrow> channel \<Rightarrow> script chan_res \<Rightarrow> (cell_output \<times> bytes) chan_res" where
  "funds_output E c lock_script =
     bind_res (checked_calculate_commitment_tx_fee (te_chain E) (ch_commitment_fee_rate c) (ch_funding_udt_type_script c) (ch_channel_features c)) (\<lambda>fee.
     bind_res lock_script (\<lambda>lock.
     case ch_funding_udt_type_script c of
       Some udt \<Rightarrow>
         bind_res (bind_res (get_total_reserved_ckb_amount c) (\<lambda>reserved. checked_sub_u64 reserved fee)) (\<lambda>capacity.
         bind_res (checked_liquid_capacity c) (\<lambda>liquid.
         Ok (\<lparr>co_lock = lock, co_type = Some udt, co_capacity = capacity\<rparr>, to_le_bytes liquid)))
     | None \<Rightarrow>
         bind_res (bind_res (get_total_ckb_amount c) (\<lambda>amount. checked_sub_u64 amount fee)) (\<lambda>capacity.
         Ok (\<lparr>co_lock = lock, co_type = None, co_capacity = capacity\<rparr>, []))))"

definition build_commitment_transaction_output ::
  "tx_env \<Rightarrow> channel \<Rightarrow> bool \<Rightarrow> (cell_output \<times> bytes \<times> settlement_data) chan_res" where
  "build_commitment_transaction_output E c for_remote =
     bind_res (get_commitment_lock_script_xonly (te_crypto E) c for_remote) (\<lambda>_.
     bind_res (build_settlement_data (te_keys E) c for_remote) (\<lambda>data.
     bind_res (commitment_lock_script_args E c for_remote data) (\<lambda>args.
     bind_res (funds_output E c (Ok ((cr_commitment_lock (te_crypto E))\<lparr>sc_args := args\<rparr>))) (\<lambda>(output, output_data).
     Ok (output, output_data, data)))))"

definition build_commitment_tx_and_settlement_data ::
  "tx_env \<Rightarrow> channel \<Rightarrow> bool \<Rightarrow> (commitment_tx \<times> settlement_data) chan_res" where
  "build_commitment_tx_and_settlement_data E c for_remote =
     bind_res (ok_or (ch_funding_tx c) InvalidState) (\<lambda>funding.
     bind_res (build_commitment_transaction_output E c for_remote) (\<lambda>(output, output_data, data).
     Ok (\<lparr>ct_funding_tx = ft_hash funding, ct_output = output, ct_output_data = output_data, ct_witness = None\<rparr>, data)))"

section \<open>Revocation\<close>

definition revocation_message :: "tx_env \<Rightarrow> channel \<Rightarrow> bytes \<Rightarrow> u64 \<Rightarrow> cell_output \<Rightarrow> bytes \<Rightarrow> bytes" where
  "revocation_message E c xonly commitment_number output output_data =
     cr_blake2b_256 (te_crypto E) (te_output_bytes E output @ te_data_bytes E output_data @
       (take 20 (cr_blake2b_256 (te_crypto E) xonly) @ get_delay_epoch_as_lock_args_bytes (te_crypto E) c @ to_be_bytes commitment_number))"

text \<open>What the revoking side signs and what the other side signs and aggregates: the context, the
  message, the revoked number and the penalty output.\<close>

definition revocation_request ::
  "tx_env \<Rightarrow> channel \<Rightarrow> bool \<Rightarrow> (sign_ctx \<times> bytes \<times> u64 \<times> cell_output \<times> bytes) chan_res" where
  "revocation_request E c for_remote =
     bind_res (ok_or (get_revoke_sign_context E c for_remote) InvalidState) (\<lambda>ctx.
     bind_res (expect (cr_aggregate_xonly (te_crypto E) (fst (sx_pubkeys ctx)) (snd (sx_pubkeys ctx)))) (\<lambda>xonly.
     bind_res (funds_output E c (if for_remote then Ok (ch_local_shutdown_script c) else get_remote_shutdown_script c)) (\<lambda>(output, output_data).
     bind_res (ok_or (checked_sub (get_current_commitment_number c for_remote) 1) InvalidState) (\<lambda>number.
     Ok (ctx, revocation_message E c xonly number output output_data, number, output, output_data)))))"

definition rotate_nonces_after_send :: "channel \<Rightarrow> channel" where
  "rotate_nonces_after_send c =
     (if ch_remote_revocation_nonce_for_verify c = None
      then c\<lparr>ch_remote_revocation_nonce_for_send := ch_remote_revocation_nonce_for_next c,
             ch_remote_revocation_nonce_for_verify := ch_remote_revocation_nonce_for_next c\<rparr>
      else c\<lparr>ch_remote_revocation_nonce_for_send := None\<rparr>)"

definition rotate_nonces_after_receive :: "pub_nonce \<Rightarrow> channel \<Rightarrow> channel" where
  "rotate_nonces_after_receive next_nonce c =
     (let c = c\<lparr>ch_remote_revocation_nonce_for_next := Some next_nonce\<rparr> in
      if ch_remote_revocation_nonce_for_send c = None
      then c\<lparr>ch_remote_revocation_nonce_for_send := ch_remote_revocation_nonce_for_next c,
             ch_remote_revocation_nonce_for_verify := ch_remote_revocation_nonce_for_next c\<rparr>
      else c\<lparr>ch_remote_revocation_nonce_for_verify := None\<rparr>)"

definition send_revoke_and_ack_message :: "tx_env \<Rightarrow> channel \<Rightarrow> bool \<Rightarrow> (revoke_and_ack \<times> channel) chan_res" where
  "send_revoke_and_ack_message E c resend =
     (if resend \<or> ch_remote_revocation_nonce_for_send c = None then
        (case ch_last_revoke_ack_msg c of
           Some msg \<Rightarrow> Ok (msg, c\<lparr>ch_last_was_revoke := True\<rparr>)
         | None \<Rightarrow> Err InvalidState)
      else
        bind_res (revocation_request E c False) (\<lambda>(ctx, message, _).
        bind_res (get_next_revocation_nonce E c) (\<lambda>next_nonce.
        bind_res (increment_remote (ch_commitment_numbers c)) (\<lambda>numbers.
        let c = c\<lparr>ch_commitment_numbers := numbers\<rparr>;
            msg = \<lparr>ra_channel_id = ch_id c, ra_partial_signature = te_sign E ctx message,
                   ra_next_point = te_commitment_point E (cn_remote (ch_commitment_numbers c)), ra_next_nonce = next_nonce\<rparr>;
            c = rotate_nonces_after_send (c\<lparr>ch_last_revoke_ack_msg := Some msg\<rparr>)
        in Ok (msg, c\<lparr>ch_last_was_revoke := True\<rparr>)))))"

definition handle_revoke_and_ack_peer_message ::
  "tx_env \<Rightarrow> u64 \<Rightarrow> channel \<Rightarrow> revoke_and_ack \<Rightarrow> (revocation_data \<times> settlement_data \<times> channel) chan_res" where
  "handle_revoke_and_ack_peer_message E now c msg =
     bind_res (ensure (ts_waiting_ack (ch_tlc_state c)) InvalidState) (\<lambda>_.
     bind_res (ensure (te_tlc_key_safe E (ra_next_point msg)) InvalidParameter) (\<lambda>_.
     bind_res (revocation_request E c True) (\<lambda>(ctx, message, number, output, output_data).
     bind_res (ok_or (te_sign_and_aggregate E ctx message (ra_partial_signature msg)) Musig2SigningError) (\<lambda>signature.
     let revocation = \<lparr>rd_commitment_number = number, rd_aggregated_signature = signature, rd_output = output, rd_output_data = output_data\<rparr> in
     bind_res (build_settlement_data (te_keys E) c True) (\<lambda>data.
     bind_res (increment_local (ch_commitment_numbers c)) (\<lambda>numbers.
     let c = append_remote_commitment_point (c\<lparr>ch_commitment_numbers := numbers\<rparr>) (ra_next_point msg) in
     bind_res (update_for_revoke_and_ack (ch_tlc_state c) (ch_commitment_numbers c)) (\<lambda>ts.
     bind_res (set_waiting_ack now (c\<lparr>ch_tlc_state := ts\<rparr>) False) (\<lambda>(_, c).
     Ok (revocation, data, rotate_nonces_after_receive (ra_next_nonce msg) c)))))))))"

definition restore_missing_revocation_send_nonce :: "channel \<Rightarrow> channel" where
  "restore_missing_revocation_send_nonce c =
     (if ch_session_v2 c \<noteq> None then c
      else if ch_remote_revocation_nonce_for_send c \<noteq> None \<or> ch_last_revoke_ack_msg c \<noteq> None then c
      else case (case ch_remote_revocation_nonce_for_verify c of Some n \<Rightarrow> Some n | None \<Rightarrow> ch_remote_revocation_nonce_for_next c) of
          Some nonce \<Rightarrow> c\<lparr>ch_remote_revocation_nonce_for_send := Some nonce\<rparr>
        | None \<Rightarrow> c)"

section \<open>Both parties sign the same revocation\<close>

lemma checked_add_sum:
  "unat a + unat b = unat c + unat d \<Longrightarrow> checked_add a b = checked_add c (d :: 'w::len word)"
  by (simp add: checked_add_def word_unat_eq_iff unat_word_ariths)

definition total_reserved :: "channel \<Rightarrow> nat" where
  "total_reserved c = unat (ch_local_reserved_ckb_amount c) + unat (ch_remote_reserved_ckb_amount c)"

text \<open>Two channel states of the two parties, \<open>c\<close> about to revoke its own commitment: they share the
  negotiated parameters and the totals, know each other's keys and scripts, count the revoked
  commitment alike, and hold each other's current revocation nonces.\<close>

definition same_parameters :: "tx_env \<Rightarrow> channel \<Rightarrow> tx_env \<Rightarrow> channel \<Rightarrow> bool" where
  "same_parameters E c E' c' \<longleftrightarrow> te_crypto E' = te_crypto E \<and> te_chain E' = te_chain E \<and>
     te_output_bytes E' = te_output_bytes E \<and> te_data_bytes E' = te_data_bytes E \<and>
     ch_local_funding_pubkey c' = ch_remote_funding_pubkey c \<and> ch_remote_funding_pubkey c' = ch_local_funding_pubkey c \<and>
     ch_commitment_fee_rate c' = ch_commitment_fee_rate c \<and> ch_funding_udt_type_script c' = ch_funding_udt_type_script c \<and>
     ch_channel_features c' = ch_channel_features c \<and> ch_commitment_delay_epoch c' = ch_commitment_delay_epoch c \<and>
     total_balance c' = total_balance c \<and> total_reserved c' = total_reserved c"

definition ready_to_revoke :: "tx_env \<Rightarrow> channel \<Rightarrow> tx_env \<Rightarrow> channel \<Rightarrow> bool" where
  "ready_to_revoke E c E' c' \<longleftrightarrow> same_parameters E c E' c' \<and>
     ch_remote_shutdown_script c = Some (ch_local_shutdown_script c') \<and>
     cn_local (ch_commitment_numbers c') = cn_remote (ch_commitment_numbers c) \<and>
     ch_remote_revocation_nonce_for_send c = Some (te_revocation_nonce E' (cn_local (ch_commitment_numbers c'))) \<and>
     ch_remote_revocation_nonce_for_verify c' = Some (te_revocation_nonce E (cn_remote (ch_commitment_numbers c)))"

lemma same_totals:
  assumes "same_parameters E c E' c'"
  shows "checked_liquid_capacity c' = checked_liquid_capacity c"
    and "get_total_reserved_ckb_amount c' = get_total_reserved_ckb_amount c"
    and "get_total_ckb_amount c' = get_total_ckb_amount c"
proof -
  show liquid: "checked_liquid_capacity c' = checked_liquid_capacity c"
    using assms by (auto simp: same_parameters_def checked_liquid_capacity_def checked_add_u128_def total_balance_def
        intro: arg_cong [OF checked_add_sum])
  show reserved: "get_total_reserved_ckb_amount c' = get_total_reserved_ckb_amount c"
    using assms checked_add_sum [of "ch_local_reserved_ckb_amount c'" "ch_remote_reserved_ckb_amount c'"
        "ch_local_reserved_ckb_amount c" "ch_remote_reserved_ckb_amount c"]
    by (simp add: same_parameters_def get_total_reserved_ckb_amount_def checked_total_reserved_ckb_amount_from_def
        checked_add_u64_def total_reserved_def)
  show "get_total_ckb_amount c' = get_total_ckb_amount c"
    by (simp add: get_total_ckb_amount_def liquid reserved)
qed

lemma same_funds_output:
  assumes "same_parameters E c E' c'"
  shows "funds_output E' c' lock = funds_output E c lock"
  unfolding funds_output_def same_totals [OF assms] using assms by (simp add: same_parameters_def)

text \<open>C24. A revocation is always accepted for what it revokes: whenever two parties share the channel
  parameters, agree on the number and hold each other's nonces, the revoking side signs exactly the
  message the other side verifies and completes: same key and nonce order, same penalty output to
  the other side, same revoked number; one side fails exactly when the other does.\<close>

theorem revocation_requests_agree:
  assumes "ready_to_revoke E c E' c'"
  shows "bind_res (revocation_request E' c' True) (\<lambda>(ctx, rest). Ok (sx_pubkeys ctx, sx_nonces ctx, sx_secnonce_number ctx, rest)) =
    bind_res (revocation_request E c False) (\<lambda>(ctx, rest). Ok (sx_pubkeys ctx, sx_nonces ctx, sx_secnonce_number ctx, rest))"
proof -
  have same: "same_parameters E c E' c'" using assms by (simp add: ready_to_revoke_def)
  show ?thesis
    using assms same
    by (cases "funds_output E c (Ok (ch_local_shutdown_script c'))";
        cases "cr_aggregate_xonly (te_crypto E) (ch_remote_funding_pubkey c) (ch_local_funding_pubkey c)";
        cases "checked_sub (cn_remote (ch_commitment_numbers c)) 1")
      (simp_all add: ready_to_revoke_def revocation_request_def get_revoke_sign_context_def get_revocation_nonce_def
        get_current_commitment_number_def get_musig2_agg_context_def same_funds_output [OF same] get_remote_shutdown_script_def
        revocation_message_def get_delay_epoch_as_lock_args_bytes_def same_parameters_def expect_def ok_or_def split: prod.splits)
qed

definition sample_tx_env :: tx_env where
  "sample_tx_env = \<lparr>te_crypto = sample_crypto, te_chain = sample_env, te_keys = sample_keys, te_local_settlement_key = 3,
     te_remote_settlement_key = 4, te_revocation_nonce = (\<lambda>n. ucast n), te_commitment_point = (\<lambda>n. ucast n), te_tlc_key_safe = (\<lambda>_. True),
     te_output_bytes = (\<lambda>o'. to_le_bytes (co_capacity o')), te_data_bytes = (\<lambda>d. d), te_sign = (\<lambda>_ m. m),
     te_sign_and_aggregate = (\<lambda>_ m s. Some (m @ s))\<rparr>"

definition revoking_channel :: channel where
  "revoking_channel = (sample_channel sample_table 10 10)\<lparr>ch_commitment_numbers := \<lparr>cn_local = 1, cn_remote = 1\<rparr>,
     ch_local_reserved_ckb_amount := 10000, ch_remote_reserved_ckb_amount := 10000\<rparr>"

definition peer_of_revoking :: channel where
  "peer_of_revoking = revoking_channel\<lparr>ch_local_funding_pubkey := 6, ch_remote_funding_pubkey := 5\<rparr>"

theorem revocation_requests_agree_witness:
  "bind_res (revocation_request sample_tx_env peer_of_revoking True) (\<lambda>(ctx, rest). Ok (sx_pubkeys ctx, sx_nonces ctx, sx_secnonce_number ctx, rest)) =
   bind_res (revocation_request sample_tx_env revoking_channel False) (\<lambda>(ctx, rest). Ok (sx_pubkeys ctx, sx_nonces ctx, sx_secnonce_number ctx, rest))"
  by (rule revocation_requests_agree)
    (simp add: ready_to_revoke_def same_parameters_def peer_of_revoking_def revoking_channel_def sample_channel_def sample_tx_env_def
      total_balance_def total_reserved_def)

section \<open>The ledger of revocation nonces\<close>

text \<open>One side's view of the exchange of revocations: acknowledgements it signs afresh, cached ones it
  sends again, ones it receives, the repair after a restart, and any other change that leaves the
  nonces and the cached message alone. The lists record the nonce of the peer that each fresh
  acknowledgement was signed with, and for each received one the nonce it was verified with and the
  one it brought.\<close>

definition same_nonces :: "channel \<Rightarrow> channel \<Rightarrow> bool" where
  "same_nonces c c' \<longleftrightarrow> ch_remote_revocation_nonce_for_send c' = ch_remote_revocation_nonce_for_send c \<and>
     ch_remote_revocation_nonce_for_verify c' = ch_remote_revocation_nonce_for_verify c \<and>
     ch_remote_revocation_nonce_for_next c' = ch_remote_revocation_nonce_for_next c \<and>
     ch_last_revoke_ack_msg c' = ch_last_revoke_ack_msg c"

inductive nonce_run :: "tx_env \<Rightarrow> channel \<Rightarrow> pub_nonce list \<Rightarrow> (pub_nonce \<times> pub_nonce) list \<Rightarrow> channel \<Rightarrow> bool" for E c0 where
  start: "nonce_run E c0 [] [] c0"
| send: "nonce_run E c0 sent got c \<Longrightarrow> ch_remote_revocation_nonce_for_send c = Some n \<Longrightarrow>
    send_revoke_and_ack_message E c False = Ok (msg, c') \<Longrightarrow> nonce_run E c0 (sent @ [n]) got c'"
| resend: "nonce_run E c0 sent got c \<Longrightarrow> b \<or> ch_remote_revocation_nonce_for_send c = None \<Longrightarrow>
    send_revoke_and_ack_message E c b = Ok (msg, c') \<Longrightarrow> nonce_run E c0 sent got c'"
| receive: "nonce_run E c0 sent got c \<Longrightarrow> ch_remote_revocation_nonce_for_verify c = Some n \<Longrightarrow>
    handle_revoke_and_ack_peer_message E now c msg = Ok (r, d, c') \<Longrightarrow> nonce_run E c0 sent (got @ [(n, ra_next_nonce msg)]) c'"
| restore: "nonce_run E c0 sent got c \<Longrightarrow> nonce_run E c0 sent got (restore_missing_revocation_send_nonce c)"
| other: "nonce_run E c0 sent got c \<Longrightarrow> same_nonces c c' \<Longrightarrow> nonce_run E c0 sent got c'"

lemma append_point_nonces [simp]:
  "ch_remote_revocation_nonce_for_send (append_remote_commitment_point c p) = ch_remote_revocation_nonce_for_send c"
  "ch_remote_revocation_nonce_for_verify (append_remote_commitment_point c p) = ch_remote_revocation_nonce_for_verify c"
  "ch_remote_revocation_nonce_for_next (append_remote_commitment_point c p) = ch_remote_revocation_nonce_for_next c"
  "ch_last_revoke_ack_msg (append_remote_commitment_point c p) = ch_last_revoke_ack_msg c"
  by (simp_all add: append_remote_commitment_point_def prune_remote_commitment_points_def Let_def)

lemma send_fresh:
  assumes "send_revoke_and_ack_message E c False = Ok (msg, c')" and "ch_remote_revocation_nonce_for_send c = Some n"
  obtains numbers where "c' = (rotate_nonces_after_send (c\<lparr>ch_commitment_numbers := numbers, ch_last_revoke_ack_msg := Some msg\<rparr>))\<lparr>ch_last_was_revoke := True\<rparr>"
  using assms unfolding send_revoke_and_ack_message_def by (auto simp: Let_def)

lemma send_cached:
  assumes "send_revoke_and_ack_message E c b = Ok (msg, c')" and "b \<or> ch_remote_revocation_nonce_for_send c = None"
  shows "same_nonces c c'"
  using assms by (auto simp: send_revoke_and_ack_message_def same_nonces_def split: option.splits)

lemma receive_nonces:
  assumes "handle_revoke_and_ack_peer_message E now c msg = Ok (r, d, c')"
  shows "\<exists>c1. same_nonces c c1 \<and> c' = rotate_nonces_after_receive (ra_next_nonce msg) c1"
proof -
  from assms obtain ns ts x c1 where
    w: "set_waiting_ack now ((append_remote_commitment_point (c\<lparr>ch_commitment_numbers := ns\<rparr>) (ra_next_point msg))\<lparr>ch_tlc_state := ts\<rparr>) False = Ok (x, c1)"
    and "c' = rotate_nonces_after_receive (ra_next_nonce msg) c1"
    unfolding handle_revoke_and_ack_peer_message_def by (auto simp: Let_def)
  moreover from w have "same_nonces c c1" by (auto simp: set_waiting_ack_def set_tlc_state_def Let_def same_nonces_def)
  ultimately show ?thesis by blast
qed

lemma rotate_after_send:
  "ch_last_revoke_ack_msg (rotate_nonces_after_send c) = ch_last_revoke_ack_msg c"
  "ch_remote_revocation_nonce_for_next (rotate_nonces_after_send c) = ch_remote_revocation_nonce_for_next c"
  "ch_remote_revocation_nonce_for_send (rotate_nonces_after_send c) =
     (if ch_remote_revocation_nonce_for_verify c = None then ch_remote_revocation_nonce_for_next c else None)"
  "ch_remote_revocation_nonce_for_verify (rotate_nonces_after_send c) =
     (if ch_remote_revocation_nonce_for_verify c = None then ch_remote_revocation_nonce_for_next c else ch_remote_revocation_nonce_for_verify c)"
  by (simp_all add: rotate_nonces_after_send_def)

lemma rotate_after_receive:
  "ch_last_revoke_ack_msg (rotate_nonces_after_receive n c) = ch_last_revoke_ack_msg c"
  "ch_remote_revocation_nonce_for_next (rotate_nonces_after_receive n c) = Some n"
  "ch_remote_revocation_nonce_for_send (rotate_nonces_after_receive n c) =
     (if ch_remote_revocation_nonce_for_send c = None then Some n else ch_remote_revocation_nonce_for_send c)"
  "ch_remote_revocation_nonce_for_verify (rotate_nonces_after_receive n c) =
     (if ch_remote_revocation_nonce_for_send c = None then Some n else None)"
  by (simp_all add: rotate_nonces_after_receive_def Let_def)

text \<open>The ledger: with \<open>N\<close> the nonces known in order, the slots always hold the next unused one.\<close>

definition ledger :: "pub_nonce \<Rightarrow> channel \<Rightarrow> pub_nonce list \<Rightarrow> (pub_nonce \<times> pub_nonce) list \<Rightarrow> bool" where
  "ledger n0 c sent got \<longleftrightarrow> (let N = n0 # map snd got; s = length sent; r = length got in
     take s N = sent \<and> take r N = map fst got \<and> (0 < s \<longrightarrow> ch_last_revoke_ack_msg c \<noteq> None) \<and>
     (s = r \<and> ch_remote_revocation_nonce_for_send c = Some (N ! r) \<and> ch_remote_revocation_nonce_for_verify c = Some (N ! r) \<or>
      s = Suc r \<and> ch_remote_revocation_nonce_for_send c = None \<and> ch_remote_revocation_nonce_for_verify c = Some (N ! r) \<or>
      r = Suc s \<and> ch_remote_revocation_nonce_for_send c = Some (N ! s) \<and> ch_remote_revocation_nonce_for_verify c = None \<and>
        ch_remote_revocation_nonce_for_next c = Some (N ! r)))"

lemma ledger_same: "ledger n0 c sent got \<Longrightarrow> same_nonces c c' \<Longrightarrow> ledger n0 c' sent got"
  by (simp add: ledger_def same_nonces_def Let_def)

lemma ledger_send:
  assumes "ledger n0 c sent got" and "ch_remote_revocation_nonce_for_send c = Some n"
  shows "ledger n0 ((rotate_nonces_after_send (c\<lparr>ch_commitment_numbers := ns, ch_last_revoke_ack_msg := Some msg\<rparr>))\<lparr>ch_last_was_revoke := True\<rparr>) (sent @ [n]) got"
proof -
  let ?N = "n0 # map snd got"
  have "length sent < length ?N" and n: "n = ?N ! length sent"
    using assms by (auto simp: ledger_def Let_def)
  then have "take (Suc (length sent)) ?N = take (length sent) ?N @ [?N ! length sent]" by (intro take_Suc_conv_app_nth)
  moreover have "take (length sent) ?N = sent" using assms(1) by (simp add: ledger_def Let_def)
  ultimately have "take (length (sent @ [n])) ?N = sent @ [n]" using n by simp
  then show ?thesis using assms n unfolding ledger_def Let_def by (elim conjE disjE) (simp_all add: rotate_after_send)
qed

lemma ledger_receive:
  assumes "ledger n0 c sent got" and "ch_remote_revocation_nonce_for_verify c = Some n"
  shows "ledger n0 (rotate_nonces_after_receive n' c) sent (got @ [(n, n')])"
proof -
  let ?N = "n0 # map snd got"
  have n: "n = ?N ! length got" using assms by (auto simp: ledger_def Let_def)
  have "take (Suc (length got)) ?N = take (length got) ?N @ [?N ! length got]" by (intro take_Suc_conv_app_nth) simp
  moreover have "take (length got) ?N = map fst got" using assms(1) by (simp add: ledger_def Let_def)
  ultimately have "take (Suc (length got)) ?N = map fst got @ [n]" using n by simp
  then have got: "take (length (got @ [(n, n')])) (n0 # map snd (got @ [(n, n')])) = map fst (got @ [(n, n')])" by simp
  have "take (length sent) ?N = sent" "length sent \<le> length ?N" using assms(1) by (auto simp: ledger_def Let_def)
  then have "take (length sent) (?N @ [n']) = sent" by (simp only: take_append) simp
  then have sent: "take (length sent) (n0 # map snd (got @ [(n, n')])) = sent" by simp
  have nth: "(n0 # map snd (got @ [(n, n')])) ! k = ?N ! k" if "k \<le> length got" for k
    using that by (simp add: nth_append nth_Cons split: nat.split)
  have last: "(n0 # map snd (got @ [(n, n')])) ! Suc (length got) = n'" by (simp add: nth_append)
  have msg: "0 < length sent \<longrightarrow> ch_last_revoke_ack_msg c \<noteq> None" using assms(1) by (simp add: ledger_def Let_def)
  consider "length sent = length got" "ch_remote_revocation_nonce_for_send c = Some (?N ! length got)"
    | "length sent = Suc (length got)" "ch_remote_revocation_nonce_for_send c = None"
    using assms by (auto simp: ledger_def Let_def)
  then show ?thesis
  proof cases
    case 1
    then show ?thesis unfolding ledger_def Let_def using got sent msg nth [of "length got"] last
      by (intro conjI disjI2) (simp_all only: rotate_after_receive, simp_all)
  next
    case 2
    then show ?thesis unfolding ledger_def Let_def using got sent msg last
      by (intro conjI disjI1) (simp_all only: rotate_after_receive, simp_all)
  qed
qed

lemma nonce_run_ledger:
  assumes "nonce_run E c0 sent got c" and "ch_remote_revocation_nonce_for_send c0 = Some n0"
    and "ch_remote_revocation_nonce_for_verify c0 = Some n0"
  shows "ledger n0 c sent got"
  using assms(1)
proof induction
  case start
  then show ?case using assms(2,3) by (simp add: ledger_def)
next
  case (send sent got c n msg c')
  from send(3,2) show ?case by (rule send_fresh) (auto intro: ledger_send [OF send.IH send(2)])
next
  case (resend sent got c b msg c')
  then show ?case using ledger_same send_cached by blast
next
  case (receive sent got c n now msg r d c')
  from receive_nonces [OF receive(3)] obtain c1
    where same: "same_nonces c c1" and c': "c' = rotate_nonces_after_receive (ra_next_nonce msg) c1" by blast
  have "ch_remote_revocation_nonce_for_verify c1 = Some n" using same receive(2) by (simp add: same_nonces_def)
  then show ?case unfolding c' by (rule ledger_receive [OF ledger_same [OF receive.IH same]])
next
  case (restore sent got c)
  then have "ch_remote_revocation_nonce_for_send c \<noteq> None \<or> ch_last_revoke_ack_msg c \<noteq> None" by (auto simp: ledger_def Let_def)
  then have "restore_missing_revocation_send_nonce c = c" by (auto simp: restore_missing_revocation_send_nonce_def)
  with restore.IH show ?case by simp
next
  case (other sent got c c')
  then show ?case using ledger_same by blast
qed

text \<open>C9. No revocation nonce of the peer is used twice: along every run, the acknowledgements this side
  signs afresh consume the peer's nonces in the order they were received, starting with the initial
  one, each once; the acknowledgements it verifies consume the same sequence; neither side of the
  ledger is ever more than one ahead of the other.\<close>

theorem revocation_nonces_used_once:
  assumes "nonce_run E c0 sent got c" and "ch_remote_revocation_nonce_for_send c0 = Some n0"
    and "ch_remote_revocation_nonce_for_verify c0 = Some n0"
  shows "take (length sent) (n0 # map snd got) = sent \<and> take (length got) (n0 # map snd got) = map fst got \<and>
    length sent \<le> length got + 1 \<and> length got \<le> length sent + 1"
  using nonce_run_ledger [OF assms] by (auto simp: ledger_def Let_def)

theorem revocation_nonces_used_once_witness:
  "\<exists>sent c. nonce_run sample_tx_env revoking_channel sent [] c \<and> length sent = 1 \<and> take (length sent) [1] = sent"
proof -
  have "\<exists>ctx m k. revocation_request sample_tx_env revoking_channel False = Ok (ctx, m, k)"
    by (simp add: revocation_request_def funds_output_def get_revoke_sign_context_def revoking_channel_def sample_eval sample_tx_env_def
        checked_calculate_commitment_tx_fee_def checked_fee_from_rate_def get_total_ckb_amount_def get_total_reserved_ckb_amount_def
        checked_liquid_capacity_def checked_total_reserved_ckb_amount_from_def get_remote_shutdown_script_def get_current_commitment_number_def
        get_musig2_agg_context_def sample_crypto_def FEE_RATE_WEIGHT_SCALE_def u128_from_def u64_try_from_def checked_mul_u128_def
        checked_mul_def checked_sub_u64_def)
  then obtain ctx m k where "revocation_request sample_tx_env revoking_channel False = Ok (ctx, m, k)" by blast
  then have "\<exists>msg c'. send_revoke_and_ack_message sample_tx_env revoking_channel False = Ok (msg, c')"
    by (simp add: send_revoke_and_ack_message_def Let_def get_next_revocation_nonce_def get_next_commitment_number_def
        get_current_commitment_number_def increment_remote_def plus_u_def checked_add_def revoking_channel_def sample_channel_def)
  then obtain msg c' where "send_revoke_and_ack_message sample_tx_env revoking_channel False = Ok (msg, c')" by blast
  moreover have init: "ch_remote_revocation_nonce_for_send revoking_channel = Some 1" "ch_remote_revocation_nonce_for_verify revoking_channel = Some 1"
    by (simp_all add: revoking_channel_def sample_channel_def)
  ultimately have run: "nonce_run sample_tx_env revoking_channel ([] @ [1]) [] c'"
    by (intro nonce_run.send [OF nonce_run.start])
  from revocation_nonces_used_once [OF this init] run show ?thesis by auto
qed

section \<open>A force close leads back to its snapshot\<close>

lemma expect_Ok: "expect x = Ok y \<longleftrightarrow> x = Some y"
  by (cases x) (auto simp: expect_def)

lemma lock_args_parts:
  assumes "commitment_lock_script_args E c for_remote data = Ok args"
  obtains xonly witness where
    "(case get_musig2_agg_context c for_remote of (a, b) \<Rightarrow> cr_aggregate_xonly (te_crypto E) a b) = Some xonly"
    "settlement_data_to_witness (te_crypto E) data for_remote (ch_channel_features c)
       (te_local_settlement_key E) (te_remote_settlement_key E) = (Ok witness :: bytes chan_res)"
    "args = take 20 (cr_blake2b_256 (te_crypto E) xonly) @ get_delay_epoch_as_lock_args_bytes (te_crypto E) c @
       to_be_bytes (get_current_commitment_number c for_remote) @ blake160 (te_crypto E) witness @ [0] @
       (if features_is_v2 (ch_channel_features c) then [ch_channel_features c] else [])"
  using assms
  by (auto simp: commitment_lock_script_args_def get_commitment_lock_script_xonly_def expect_Ok split: prod.splits)

lemma parse_lock_eq:
  assumes "\<not> length args < 56" and "cr_aggregate_xonly C a b = Some x" and "cr_aggregate_xonly C b a = Some y"
  shows "parse_commitment_lock C ((cr_commitment_lock C)\<lparr>sc_args := args\<rparr>) a b =
    (if take 20 args = take 20 (cr_blake2b_256 C x) then Some \<lparr>pl_for_remote = True,
       pl_commitment_number = from_be_bytes (take 8 (drop 28 args)), pl_witness_hash = take 20 (drop 36 args)\<rparr>
     else if take 20 args = take 20 (cr_blake2b_256 C y) then Some \<lparr>pl_for_remote = False,
       pl_commitment_number = from_be_bytes (take 8 (drop 28 args)), pl_witness_hash = take 20 (drop 36 args)\<rparr>
     else None)"
  using assms by (simp add: parse_commitment_lock_def Let_def)

lemma parse_lock_args:
  assumes "digest_len C" and "length d = 8" and "length w = 20"
    and "cr_aggregate_xonly C a b = Some x" and "cr_aggregate_xonly C b a = Some y"
    and "if r then k = take 20 (cr_blake2b_256 C x)
         else k = take 20 (cr_blake2b_256 C y) \<and> take 20 (cr_blake2b_256 C x) \<noteq> take 20 (cr_blake2b_256 C y)"
  shows "parse_commitment_lock C ((cr_commitment_lock C)\<lparr>sc_args := k @ d @ to_be_bytes (n :: u64) @ w @ rest\<rparr>) a b =
    Some \<lparr>pl_for_remote = r, pl_commitment_number = n, pl_witness_hash = w\<rparr>"
proof -
  have k: "length k = 20" using assms(1,6) by (auto simp: digest_len_def split: if_splits)
  let ?args = "k @ d @ to_be_bytes n @ w @ rest"
  have parts: "take 20 ?args = k" "take 8 (drop 28 ?args) = to_be_bytes n" "take 20 (drop 36 ?args) = w" "\<not> length ?args < 56"
    using k assms(2,3) by (simp_all add: drop_append)
  have num: "from_be_bytes (to_be_bytes n) = n" by (rule be_bytes_inverse) (simp add: byte_sized_def)
  show ?thesis
    unfolding parse_lock_eq [OF parts(4) assms(4,5)] parts(1-3) num using assms(6) by (cases r) auto
qed

text \<open>The watchtower's data of a channel: keys, features and snapshots as the channel has them.\<close>

definition watches :: "tx_env \<Rightarrow> channel \<Rightarrow> channel_data \<Rightarrow> bool" where
  "watches E c cd \<longleftrightarrow> cd_local_funding_pubkey cd = ch_local_funding_pubkey c \<and> cd_remote_funding_pubkey cd = ch_remote_funding_pubkey c \<and>
     cd_local_settlement_key cd = te_local_settlement_key E \<and> cd_remote_settlement_key cd = te_remote_settlement_key E \<and>
     cd_channel_features cd = ch_channel_features c"

text \<open>What the code relies on: the aggregate of two keys exists and depends on their order.\<close>

definition ordered_keys :: "crypto \<Rightarrow> pubkey \<Rightarrow> pubkey \<Rightarrow> bool" where
  "ordered_keys C a b \<longleftrightarrow> (\<exists>x y. cr_aggregate_xonly C a b = Some x \<and> cr_aggregate_xonly C b a = Some y \<and>
     take 20 (cr_blake2b_256 C x) \<noteq> take 20 (cr_blake2b_256 C y))"

definition snapshots_for :: "channel_data \<Rightarrow> bool \<Rightarrow> settlement_data list" where
  "snapshots_for cd for_remote = (if for_remote then [cd_remote_settlement_data cd, cd_pending_remote_settlement_data cd]
     else [cd_local_settlement_data cd])"

lemma first_matching_found:
  assumes "settlement_data_to_witness C d (pl_for_remote p) (cd_channel_features cd) (cd_local_settlement_key cd) (cd_remote_settlement_key cd) =
      (Ok witness :: (bytes, unit) res)"
    and "blake160 C witness = pl_witness_hash p" and "d \<in> set ds"
    and "\<forall>d'\<in>set ds. length (sd_tlcs d') < 256"
  shows "\<exists>d'. first_matching_snapshot C cd p ds = Ok (Some d') \<and> d' \<in> set ds \<and>
    (\<exists>w'. settlement_data_to_witness C d' (pl_for_remote p) (cd_channel_features cd) (cd_local_settlement_key cd) (cd_remote_settlement_key cd) =
       (Ok w' :: (bytes, unit) res) \<and> blake160 C w' = pl_witness_hash p)"
  using assms(3,4)
proof (induction ds)
  case (Cons d0 ds)
  obtain w0 where w0: "settlement_data_to_witness C d0 (pl_for_remote p) (cd_channel_features cd) (cd_local_settlement_key cd)
      (cd_remote_settlement_key cd) = (Ok w0 :: (bytes, unit) res)"
    using Cons.prems(2) by (auto simp: settlement_data_to_witness_def settlement_data_witness_def Let_def)
  show ?case
  proof (cases "blake160 C w0 = pl_witness_hash p")
    case True
    with w0 show ?thesis by (intro exI [of _ d0]) simp
  next
    case False
    with w0 assms(1,2) have "d \<noteq> d0" by auto
    with Cons have "\<exists>d'. first_matching_snapshot C cd p ds = Ok (Some d') \<and> d' \<in> set ds \<and>
      (\<exists>w'. settlement_data_to_witness C d' (pl_for_remote p) (cd_channel_features cd) (cd_local_settlement_key cd) (cd_remote_settlement_key cd) =
       (Ok w' :: (bytes, unit) res) \<and> blake160 C w' = pl_witness_hash p)" by simp
    with False w0 show ?thesis by auto
  qed
qed simp

lemma to_witness_poly:
  "settlement_data_to_witness C d r f k k' = Ok w \<Longrightarrow> settlement_data_to_witness C d r f k k' = Ok w"
  by (cases "settlement_data_witness C d r f (cr_pubkey C k) k'") (simp_all add: settlement_data_to_witness_def)

text \<open>C20. A confirmed commitment transaction leads back to its settlement: if the commitment transaction
  a channel builds appears on the chain and the watchtower holds the keys of the channel and, among
  its snapshots for that direction, the settlement the transaction was built for, then the lock
  script parses to the right direction and commitment number, and the snapshot selected for it has
  exactly the witness hash the transaction commits to.\<close>

theorem force_close_snapshot_found:
  assumes "build_commitment_transaction_output E c for_remote = Ok (output, output_data, data)"
    and "watches E c cd" and "data \<in> set (snapshots_for cd for_remote)" and "\<forall>d\<in>set (snapshots_for cd for_remote). length (sd_tlcs d) < 256"
    and "digest_len (te_crypto E)" and "ordered_keys (te_crypto E) (ch_local_funding_pubkey c) (ch_remote_funding_pubkey c)"
  shows "\<exists>data' w. verify_and_select_settlement_data (te_crypto E) cd (co_lock output) =
      Ok (Some (for_remote, get_current_commitment_number c for_remote, data')) \<and> data' \<in> set (snapshots_for cd for_remote) \<and>
    settlement_data_to_witness (te_crypto E) data' for_remote (ch_channel_features c) (te_local_settlement_key E) (te_remote_settlement_key E) =
      (Ok w :: (bytes, unit) res) \<and> blake160 (te_crypto E) w = take 20 (drop 36 (sc_args (co_lock output)))"
proof -
  let ?C = "te_crypto E" and ?a = "ch_local_funding_pubkey c" and ?b = "ch_remote_funding_pubkey c"
  from assms(1) obtain args where args: "commitment_lock_script_args E c for_remote data = Ok args"
    and lock: "co_lock output = (cr_commitment_lock ?C)\<lparr>sc_args := args\<rparr>"
    by (auto simp: build_commitment_transaction_output_def funds_output_def split: option.splits)
  from assms(6) obtain x y where keys: "cr_aggregate_xonly ?C ?a ?b = Some x" "cr_aggregate_xonly ?C ?b ?a = Some y"
    "take 20 (cr_blake2b_256 ?C x) \<noteq> take 20 (cr_blake2b_256 ?C y)" unfolding ordered_keys_def by blast
  from args show ?thesis
  proof (rule lock_args_parts)
    fix xonly witness
    assume agg: "(case get_musig2_agg_context c for_remote of (a, b) \<Rightarrow> cr_aggregate_xonly ?C a b) = Some xonly"
      and wit: "settlement_data_to_witness ?C data for_remote (ch_channel_features c) (te_local_settlement_key E) (te_remote_settlement_key E) =
        (Ok witness :: bytes chan_res)"
      and eq: "args = take 20 (cr_blake2b_256 ?C xonly) @ get_delay_epoch_as_lock_args_bytes ?C c @
        to_be_bytes (get_current_commitment_number c for_remote) @ blake160 ?C witness @ [0] @
        (if features_is_v2 (ch_channel_features c) then [ch_channel_features c] else [])"
    have len: "length (get_delay_epoch_as_lock_args_bytes ?C c) = 8" "length (blake160 ?C witness) = 20"
      using assms(5) by (simp_all add: get_delay_epoch_as_lock_args_bytes_def blake160_def digest_len_def)
    have dir: "if for_remote then take 20 (cr_blake2b_256 ?C xonly) = take 20 (cr_blake2b_256 ?C x)
        else take 20 (cr_blake2b_256 ?C xonly) = take 20 (cr_blake2b_256 ?C y) \<and> take 20 (cr_blake2b_256 ?C x) \<noteq> take 20 (cr_blake2b_256 ?C y)"
      using agg keys by (cases for_remote) (simp_all add: get_musig2_agg_context_def)
    let ?p = "\<lparr>pl_for_remote = for_remote, pl_commitment_number = get_current_commitment_number c for_remote, pl_witness_hash = blake160 ?C witness\<rparr>"
    have parsed: "parse_commitment_lock ?C (co_lock output) ?a ?b = Some ?p"
      unfolding lock eq by (rule parse_lock_args [OF assms(5) len keys(1,2) dir])
    have wit': "settlement_data_to_witness ?C data for_remote (ch_channel_features c) (te_local_settlement_key E) (te_remote_settlement_key E) =
        (Ok witness :: (bytes, unit) res)" using wit by (rule to_witness_poly)
    have "\<exists>d'. first_matching_snapshot ?C cd ?p (snapshots_for cd for_remote) = Ok (Some d') \<and> d' \<in> set (snapshots_for cd for_remote) \<and>
      (\<exists>w'. settlement_data_to_witness ?C d' (pl_for_remote ?p) (cd_channel_features cd) (cd_local_settlement_key cd) (cd_remote_settlement_key cd) =
       (Ok w' :: (bytes, unit) res) \<and> blake160 ?C w' = pl_witness_hash ?p)"
      using assms(2-4) wit' by (intro first_matching_found) (auto simp: watches_def)
    moreover have "take 20 (drop 36 (sc_args (co_lock output))) = blake160 ?C witness"
      using len assms(5) by (simp add: lock eq digest_len_def drop_append)
    ultimately show ?thesis using parsed assms(2)
      by (auto simp: verify_and_select_settlement_data_def watches_def snapshots_for_def)
  qed
qed

definition closing_snapshot_channel :: channel where
  "closing_snapshot_channel = revoking_channel\<lparr>ch_tlc_state := tlc_state_default\<rparr>"

definition watched_sample :: "settlement_data \<Rightarrow> channel_data" where
  "watched_sample d = \<lparr>cd_channel_id = 9, cd_funding_udt_type_script = None, cd_local_settlement_key = 3, cd_remote_settlement_key = 4,
     cd_local_funding_pubkey = 5, cd_remote_funding_pubkey = 6, cd_remote_settlement_data = d, cd_pending_remote_settlement_data = d,
     cd_local_settlement_data = d, cd_revocation_data = None, cd_channel_features = LEGACY\<rparr>"

lemma snapshot_sample_data: "build_settlement_data sample_keys closing_snapshot_channel False =
    Ok \<lparr>sd_local_amount = 10010, sd_remote_amount = 10010, sd_tlcs = []\<rparr>"
  by (simp add: build_settlement_data_def closing_snapshot_channel_def revoking_channel_def sample_channel_def tlc_state_default_def
      pending_tlcs_default_def filter_outbound_def filter_inbound_def settlement_value_def get_active_tlcs_for_settlement_def get_active_tlcs_def
      get_active_received_tlcs_def get_active_offered_tlcs_def order_active_def
      commitment_signed_tlcs_def sort_by_id_def features_is_v2_def LEGACY_def V2_def
      checked_add_u128_def checked_sub_u128_def checked_add_def checked_sub_def u128_from_def)

lemma snapshot_sample: "\<exists>out d. build_commitment_transaction_output sample_tx_env closing_snapshot_channel False =
    Ok (out, d, \<lparr>sd_local_amount = 10010, sd_remote_amount = 10010, sd_tlcs = []\<rparr>)"
proof -
  let ?d = "\<lparr>sd_local_amount = 10010, sd_remote_amount = 10010, sd_tlcs = []\<rparr>"
  have x: "get_commitment_lock_script_xonly sample_crypto closing_snapshot_channel False = (Ok [6, 5] :: bytes chan_res)"
    by (simp add: get_commitment_lock_script_xonly_def get_musig2_agg_context_def sample_crypto_def closing_snapshot_channel_def
        revoking_channel_def sample_channel_def expect_def)
  then obtain args where args: "commitment_lock_script_args sample_tx_env closing_snapshot_channel False ?d = Ok args"
    by (simp add: commitment_lock_script_args_def sample_tx_env_def settlement_data_to_witness_def settlement_data_witness_def Let_def)
  have "\<exists>out od. funds_output sample_tx_env closing_snapshot_channel (Ok s) = Ok (out, od)" for s
    by (simp add: funds_output_def closing_snapshot_channel_def revoking_channel_def sample_eval sample_tx_env_def
        checked_calculate_commitment_tx_fee_def checked_fee_from_rate_def get_total_ckb_amount_def get_total_reserved_ckb_amount_def
        checked_liquid_capacity_def checked_total_reserved_ckb_amount_from_def FEE_RATE_WEIGHT_SCALE_def u128_from_def u64_try_from_def
        checked_mul_u128_def checked_mul_def checked_sub_u64_def)
  then obtain out od where "funds_output sample_tx_env closing_snapshot_channel (Ok ((cr_commitment_lock sample_crypto)\<lparr>sc_args := args\<rparr>)) = Ok (out, od)"
    by blast
  moreover have "te_crypto sample_tx_env = sample_crypto" "te_keys sample_tx_env = sample_keys" by (simp_all add: sample_tx_env_def)
  ultimately show ?thesis using x args snapshot_sample_data by (simp add: build_commitment_transaction_output_def)
qed

theorem force_close_snapshot_found_witness:
  "\<exists>out d. build_commitment_transaction_output sample_tx_env closing_snapshot_channel False =
      Ok (out, d, \<lparr>sd_local_amount = 10010, sd_remote_amount = 10010, sd_tlcs = []\<rparr>) \<and>
   (\<exists>data'. verify_and_select_settlement_data sample_crypto (watched_sample \<lparr>sd_local_amount = 10010, sd_remote_amount = 10010, sd_tlcs = []\<rparr>)
      (co_lock out) = Ok (Some (False, 1, data')))"
proof -
  let ?d = "\<lparr>sd_local_amount = 10010, sd_remote_amount = 10010, sd_tlcs = []\<rparr>"
  from snapshot_sample obtain out od where b: "build_commitment_transaction_output sample_tx_env closing_snapshot_channel False = Ok (out, od, ?d)" by blast
  have n: "get_current_commitment_number closing_snapshot_channel False = 1"
    by (simp add: get_current_commitment_number_def closing_snapshot_channel_def revoking_channel_def)
  have C: "te_crypto sample_tx_env = sample_crypto" by (simp add: sample_tx_env_def)
  have "\<exists>data' w. verify_and_select_settlement_data (te_crypto sample_tx_env) (watched_sample ?d) (co_lock out) =
      Ok (Some (False, get_current_commitment_number closing_snapshot_channel False, data')) \<and> data' \<in> set (snapshots_for (watched_sample ?d) False) \<and>
    settlement_data_to_witness (te_crypto sample_tx_env) data' False (ch_channel_features closing_snapshot_channel) (te_local_settlement_key sample_tx_env) (te_remote_settlement_key sample_tx_env) =
      (Ok w :: (bytes, unit) res) \<and> blake160 (te_crypto sample_tx_env) w = take 20 (drop 36 (sc_args (co_lock out)))"
  proof (rule force_close_snapshot_found [OF b])
    show "watches sample_tx_env closing_snapshot_channel (watched_sample ?d)"
      by (simp add: watches_def sample_tx_env_def closing_snapshot_channel_def revoking_channel_def sample_channel_def watched_sample_def)
    show "ordered_keys (te_crypto sample_tx_env) (ch_local_funding_pubkey closing_snapshot_channel) (ch_remote_funding_pubkey closing_snapshot_channel)"
      by (simp add: ordered_keys_def sample_tx_env_def closing_snapshot_channel_def revoking_channel_def sample_channel_def sample_crypto_def)
  qed (simp_all add: snapshots_for_def watched_sample_def C sample_crypto_digest)
  with b n C show ?thesis by auto
qed

end
