(* ===== verification/Cooperative_Close.thy ===== *)
theory Cooperative_Close
  imports Commitment_Tx "HOL-Library.Multiset"
begin

text \<open>
  Closing a channel (\<^verbatim>\<open>fiber-lib/src/fiber/channel.rs\<close>): the shutdown command and messages, the
  transition to a signed closing transaction once no TLC is pending, force close, and the
  confirmation of the closing transaction. An operation returns the channel it leaves behind, the
  messages and events it emits, and its result, since the source keeps what it changed before an
  error. Signing, aggregation and the size of the signed transaction are parameters; the steps of
  Channel V2, which take another path, are not modelled here.
\<close>

section \<open>State and environment\<close>

record shutdown_tx =
  stx_funding :: hash256
  stx_outputs :: "cell_output list"
  stx_outputs_data :: "bytes list"

record shutdown_command =
  sh_close_script :: "script option"
  sh_fee_rate :: "u64 option"
  sh_force :: bool

datatype close_effect =
    SendShutdown script u64
  | SendClosingSigned bytes
  | ClosingTransactionPending shutdown_tx bytes
  | ForceClosePending commitment_tx
  | BroadcastDisabledUpdate

type_synonym close_result = "channel \<times> close_effect list \<times> unit chan_res"

record close_env =
  ce_chain :: chain_env
  ce_cell_deps_ok :: bool
  ce_sign :: "channel \<Rightarrow> shutdown_tx \<Rightarrow> bytes option"
  ce_aggregate :: "channel \<Rightarrow> bytes \<Rightarrow> bytes \<Rightarrow> shutdown_tx \<Rightarrow> bytes option"
  ce_signed_size :: "shutdown_tx \<Rightarrow> bytes \<Rightarrow> u64"

text \<open>Leaving the opening phase clears the state of external funding.\<close>

definition update_state :: "channel \<Rightarrow> channel_state \<Rightarrow> channel" where
  "update_state c new_state =
     (let c = c\<lparr>ch_state := new_state\<rparr> in
      case new_state of
        ChannelReady \<Rightarrow> c\<lparr>ch_external_funding := \<lparr>ef_enabled = False, ef_signed_submitted = False, ef_funding_lock_script = None\<rparr>\<rparr>
      | Closed _ \<Rightarrow> c\<lparr>ch_external_funding := \<lparr>ef_enabled = False, ef_signed_submitted = False, ef_funding_lock_script = None\<rparr>\<rparr>
      | _ \<Rightarrow> c)"

section \<open>Fee checks\<close>

definition available_shutdown_fee :: "chain_env \<Rightarrow> channel \<Rightarrow> script \<Rightarrow> u128 \<Rightarrow> u64 \<Rightarrow> u64 chan_res" where
  "available_shutdown_fee E c close_script liquid reserved =
     bind_res (occupied_capacity E close_script (ch_funding_udt_type_script c) (ch_channel_features c)) (\<lambda>occupied.
     if ch_funding_udt_type_script c = None
     then bind_res (checked_ckb_amount_with_reserved liquid reserved) (\<lambda>amount. ok_or (checked_sub amount occupied) InvalidParameter)
     else ok_or (checked_sub reserved occupied) InvalidParameter)"

definition check_shutdown_fee_rate :: "chain_env \<Rightarrow> channel \<Rightarrow> u64 \<Rightarrow> script \<Rightarrow> unit chan_res" where
  "check_shutdown_fee_rate E c fee_rate close_script =
     bind_res (ensure (\<not> fee_rate < ch_commitment_fee_rate c) InvalidParameter) (\<lambda>_.
     bind_res (get_remote_shutdown_script c) (\<lambda>remote_script.
     bind_res (checked_calculate_shutdown_tx_fee E fee_rate (ch_funding_udt_type_script c) (remote_script, close_script)) (\<lambda>fee.
     bind_res (available_shutdown_fee E c close_script (ch_to_local_amount c) (ch_local_reserved_ckb_amount c)) (\<lambda>available_max_fee.
     ensure (\<not> fee > available_max_fee) InvalidParameter))))"

definition check_shutdown_fee_valid :: "chain_env \<Rightarrow> channel \<Rightarrow> script \<Rightarrow> u64 \<Rightarrow> bool" where
  "check_shutdown_fee_valid E c remote_close_script remote_fee_rate =
     (case checked_calculate_shutdown_tx_fee E remote_fee_rate (ch_funding_udt_type_script c)
         (remote_close_script, ch_local_shutdown_script c) of
        Ok fee \<Rightarrow> (case available_shutdown_fee E c remote_close_script (ch_to_remote_amount c) (ch_remote_reserved_ckb_amount c) of
            Ok available \<Rightarrow> fee \<le> available | _ \<Rightarrow> False)
      | _ \<Rightarrow> False)"

definition check_valid_to_auto_accept_shutdown :: "channel \<Rightarrow> bool" where
  "check_valid_to_auto_accept_shutdown c =
     (case ch_remote_shutdown_info c of Some i \<Rightarrow> si_fee_rate i \<ge> ch_commitment_fee_rate c | None \<Rightarrow> False)"

section \<open>The closing transaction\<close>

definition shutdown_output :: "channel \<Rightarrow> script \<Rightarrow> u128 \<Rightarrow> u64 \<Rightarrow> u64 \<Rightarrow> (cell_output \<times> bytes) chan_res" where
  "shutdown_output c close_script liquid reserved fee =
     (case ch_funding_udt_type_script c of
        Some udt \<Rightarrow> bind_res (checked_sub_u64 reserved fee) (\<lambda>capacity.
          Ok (\<lparr>co_lock = close_script, co_type = Some udt, co_capacity = capacity\<rparr>, to_le_bytes liquid))
      | None \<Rightarrow> bind_res (bind_res (checked_ckb_amount_with_reserved liquid reserved) (\<lambda>amount. checked_sub_u64 amount fee)) (\<lambda>capacity.
          Ok (\<lparr>co_lock = close_script, co_type = None, co_capacity = capacity\<rparr>, [])))"

definition build_shutdown_tx :: "close_env \<Rightarrow> channel \<Rightarrow> shutdown_tx chan_res" where
  "build_shutdown_tx E c =
     (case (ch_local_shutdown_info c, ch_remote_shutdown_info c, ch_funding_tx c) of
        (Some local, Some remote, Some funding) \<Rightarrow>
          bind_res (checked_calculate_shutdown_tx_fee (ce_chain E) (si_fee_rate local) (ch_funding_udt_type_script c)
              (si_close_script remote, si_close_script local)) (\<lambda>local_fee.
          bind_res (checked_calculate_shutdown_tx_fee (ce_chain E) (si_fee_rate remote) (ch_funding_udt_type_script c)
              (si_close_script local, si_close_script remote)) (\<lambda>remote_fee.
          bind_res (ensure (ce_cell_deps_ok E) InternalError) (\<lambda>_.
          bind_res (shutdown_output c (si_close_script local) (ch_to_local_amount c) (ch_local_reserved_ckb_amount c) local_fee) (\<lambda>(to_local, local_data).
          bind_res (shutdown_output c (si_close_script remote) (ch_to_remote_amount c) (ch_remote_reserved_ckb_amount c) remote_fee) (\<lambda>(to_remote, remote_data).
          Ok \<lparr>stx_funding = ft_hash funding, stx_outputs = order_things_for_musig2 c to_local to_remote,
              stx_outputs_data = order_things_for_musig2 c local_data remote_data\<rparr>)))))
      | _ \<Rightarrow> Err InvalidState)"

section \<open>Handlers\<close>

definition sign_and_publish_close :: "close_env \<Rightarrow> channel \<Rightarrow> close_result" where
  "sign_and_publish_close E c =
     (case (ch_local_shutdown_info c, ch_remote_shutdown_info c) of
        (Some local, Some remote) \<Rightarrow>
          (case build_shutdown_tx E c of
             Err e \<Rightarrow> (c, [], Err e) | Panic \<Rightarrow> (c, [], Panic)
           | Ok tx \<Rightarrow>
             (case (case si_signature local of
                      Some s \<Rightarrow> Some (s, c, [])
                    | None \<Rightarrow> map_option (\<lambda>s. (s, c\<lparr>ch_local_shutdown_info := Some (local\<lparr>si_signature := Some s\<rparr>)\<rparr>, [SendClosingSigned s])) (ce_sign E c tx)) of
                None \<Rightarrow> (c, [], Err Musig2SigningError)
              | Some (our_signature, c, effects) \<Rightarrow>
                (case si_signature remote of
                   None \<Rightarrow> (c, effects, Ok ())
                 | Some their_signature \<Rightarrow>
                   (case ce_aggregate E c our_signature their_signature tx of
                      None \<Rightarrow> (c, effects, Err Musig2RoundFinalizeError)
                    | Some witness \<Rightarrow>
                      if ce_signed_size E tx witness \<noteq>
                         env_shutdown_tx_size (ce_chain E) (ch_funding_udt_type_script c) (si_close_script local) (si_close_script remote)
                      then (c, effects, Panic)
                      else (update_state c (ShuttingDown WAITING_COMMITMENT_CONFIRMATION),
                            effects @ [ClosingTransactionPending tx witness], Ok ())))))
      | _ \<Rightarrow> (c, [], Ok ()))"

definition maybe_transfer_to_shutdown :: "close_env \<Rightarrow> channel \<Rightarrow> close_result" where
  "maybe_transfer_to_shutdown E c =
     (if ch_session_v2 c \<noteq> None then (c, [], Ok ())
      else case ch_state c of
        ShuttingDown flags \<Rightarrow>
          if \<not> contains flags AWAITING_PENDING_TLCS \<or> any_tlc_pending c then (c, [], Ok ())
          else sign_and_publish_close E ((update_state c (ShuttingDown (flags OR DROPPING_PENDING)))\<lparr>ch_waiting_peer_response := None\<rparr>)
      | _ \<Rightarrow> (c, [], Ok ()))"

definition emit :: "close_effect list \<Rightarrow> close_result \<Rightarrow> close_result" where
  "emit es = (\<lambda>(c, effects, r). (c, es @ effects, r))"

definition step_shutting_down :: "close_env \<Rightarrow> channel \<Rightarrow> u32 \<Rightarrow> close_result" where
  "step_shutting_down E c flags =
     (if check_valid_to_auto_accept_shutdown c \<and> flags = THEIR_SHUTDOWN_SENT then
        let close_script = ch_local_shutdown_script c;
            c = c\<lparr>ch_local_shutdown_info := Some \<lparr>si_close_script = close_script, si_fee_rate = 0, si_signature = None\<rparr>\<rparr>
        in emit [SendShutdown close_script 0]
             (maybe_transfer_to_shutdown E (update_state c (ShuttingDown (flags OR OUR_SHUTDOWN_SENT))))
      else maybe_transfer_to_shutdown E (update_state c (ShuttingDown flags)))"

definition handle_shutdown_peer_message :: "close_env \<Rightarrow> channel \<Rightarrow> script \<Rightarrow> u64 \<Rightarrow> close_result" where
  "handle_shutdown_peer_message E c close_script fee_rate =
     (let flags = (case ch_state c of
            ChannelReady \<Rightarrow> if list_ex (\<lambda>t. ti_status t = Inbound RemoteAnnounced) (all_tlcs (ch_tlc_state c))
              then Err InvalidState else Ok 0
          | ShuttingDown flags \<Rightarrow> if contains flags THEIR_SHUTDOWN_SENT then Err InvalidParameter else Ok flags
          | _ \<Rightarrow> Err InvalidState)
      in case flags of
           Err e \<Rightarrow> (c, [], Err e) | Panic \<Rightarrow> (c, [], Panic)
         | Ok flags \<Rightarrow>
             if \<not> check_shutdown_fee_valid (ce_chain E) c close_script fee_rate then (c, [], Err InvalidParameter)
             else step_shutting_down E
               (c\<lparr>ch_remote_shutdown_info := Some \<lparr>si_close_script = close_script, si_fee_rate = fee_rate, si_signature = None\<rparr>\<rparr>)
               (flags OR THEIR_SHUTDOWN_SENT))"

definition handle_closing_signed :: "close_env \<Rightarrow> channel \<Rightarrow> hash256 \<Rightarrow> bytes \<Rightarrow> close_result" where
  "handle_closing_signed E c channel_id partial_signature =
     (if channel_id \<noteq> ch_id c then (c, [], Err InvalidParameter)
      else maybe_transfer_to_shutdown E (case ch_remote_shutdown_info c of
          Some info \<Rightarrow> c\<lparr>ch_remote_shutdown_info := Some (info\<lparr>si_signature := Some partial_signature\<rparr>)\<rparr>
        | None \<Rightarrow> c))"

definition ensure_v2_not_quarantined :: "channel \<Rightarrow> unit chan_res" where
  "ensure_v2_not_quarantined c = ensure (\<not> (features_is_v2 (ch_channel_features c) \<and> ch_state c = Stale)) InvalidState"

definition force_shutdown_allowed :: "channel \<Rightarrow> bool" where
  "force_shutdown_allowed c = (case ch_state c of
      ChannelReady \<Rightarrow> True
    | ShuttingDown _ \<Rightarrow> True
    | AwaitingChannelReady flags \<Rightarrow> contains flags OUR_CHANNEL_READY \<and> ch_latest_commitment_transaction c \<noteq> None
    | AwaitingTxSignatures _ \<Rightarrow> ef_signed_submitted (ch_external_funding c) \<and> ch_funding_tx_confirmed_at c \<noteq> None \<and>
        ch_latest_commitment_transaction c \<noteq> None
    | _ \<Rightarrow> False)"

definition supersede_close :: "channel \<Rightarrow> channel" where
  "supersede_close c = (case ch_session_v2 c of
      None \<Rightarrow> c
    | Some s \<Rightarrow> c\<lparr>ch_session_v2 := Some (s\<lparr>sv_closing := map_option (\<lambda>cl. cl\<lparr>cl_superseded_by_force_close := True\<rparr>) (sv_closing s)\<rparr>)\<rparr>)"

text \<open>The non-forced close of a V2 channel is another operation, an argument here.\<close>

definition handle_shutdown_command ::
  "(channel \<Rightarrow> shutdown_command \<Rightarrow> close_result) \<Rightarrow> close_env \<Rightarrow> channel \<Rightarrow> shutdown_command \<Rightarrow> close_result" where
  "handle_shutdown_command shutdown_v2 E c command =
     (case ensure_v2_not_quarantined c of
        Err e \<Rightarrow> (c, [], Err e) | Panic \<Rightarrow> (c, [], Panic)
      | Ok _ \<Rightarrow>
        if ch_session_v2 c \<noteq> None \<and> \<not> sh_force command then shutdown_v2 c command
        else if sh_force command then
          (if \<not> force_shutdown_allowed c then (c, [], Err InvalidState)
           else case ch_latest_commitment_transaction c of
               None \<Rightarrow> (c, [], Panic)
             | Some tx \<Rightarrow>
                 if \<not> ce_cell_deps_ok E then (c, [], Err InternalError)
                 else (update_state (supersede_close c) (ShuttingDown WAITING_COMMITMENT_CONFIRMATION), [ForceClosePending tx], Ok ()))
        else if ch_connectivity_state c \<noteq> Online then (c, [], Err InvalidState)
        else if ch_state c \<noteq> ChannelReady then (c, [], Err InvalidState)
        else if list_ex (\<lambda>t. ti_status t = Outbound LocalAnnounced) (all_tlcs (ch_tlc_state c)) then (c, [], Err InvalidState)
        else
          let fee_rate = (case sh_fee_rate command of Some r \<Rightarrow> r | None \<Rightarrow> ch_commitment_fee_rate c);
              close_script = (case sh_close_script command of Some s \<Rightarrow> s | None \<Rightarrow> ch_local_shutdown_script c)
          in case check_shutdown_fee_rate (ce_chain E) c fee_rate close_script of
               Err e \<Rightarrow> (c, [], Err e) | Panic \<Rightarrow> (c, [], Panic)
             | Ok _ \<Rightarrow>
                 emit [SendShutdown close_script fee_rate] (maybe_transfer_to_shutdown E (update_state
                   (c\<lparr>ch_local_shutdown_info := Some \<lparr>si_close_script = close_script, si_fee_rate = fee_rate, si_signature = None\<rparr>\<rparr>)
                   (ShuttingDown (0 OR OUR_SHUTDOWN_SENT)))))"

definition update_close_transaction_confirmed :: "channel \<Rightarrow> hash256 \<Rightarrow> bool \<Rightarrow> bool \<Rightarrow> close_result" where
  "update_close_transaction_confirmed c h force close_by_us =
     (let expected = (case ch_state c of
            ShuttingDown flags \<Rightarrow> contains flags WAITING_COMMITMENT_CONFIRMATION \<or> force \<and> \<not> close_by_us
          | ChannelReady \<Rightarrow> force \<and> \<not> close_by_us
          | AwaitingChannelReady _ \<Rightarrow> force \<and> \<not> close_by_us
          | _ \<Rightarrow> False);
          closed = (if force then (if close_by_us then UNCOOPERATIVE_LOCAL OR WAITING_ONCHAIN_SETTLEMENT
                                   else UNCOOPERATIVE_REMOTE OR WAITING_ONCHAIN_SETTLEMENT)
                    else COOPERATIVE)
      in if \<not> expected then (c, [], Err InvalidState)
         else ((update_state c (Closed closed))\<lparr>ch_shutdown_transaction_hash := Some h\<rparr>,
               if ch_is_public c then [BroadcastDisabledUpdate] else [], Ok ()))"

definition can_abort_funding_on_timeout :: "channel \<Rightarrow> bool" where
  "can_abort_funding_on_timeout c =
     (if ef_signed_submitted (ch_external_funding c) then False
      else case ch_state c of
          NegotiatingFunding _ \<Rightarrow> True
        | CollaboratingFundingTx _ \<Rightarrow> True
        | SigningCommitment _ \<Rightarrow> True
        | AwaitingTxSignatures flags \<Rightarrow> \<not> contains flags OUR_TX_SIGNATURES_SENT
        | _ \<Rightarrow> False)"

section \<open>Both parties build the same closing transaction\<close>

definition mirrored_close :: "channel \<Rightarrow> channel \<Rightarrow> bool" where
  "mirrored_close c c' \<longleftrightarrow> ch_local_shutdown_info c' = ch_remote_shutdown_info c \<and> ch_remote_shutdown_info c' = ch_local_shutdown_info c \<and>
     ch_funding_tx c' = ch_funding_tx c \<and> ch_funding_udt_type_script c' = ch_funding_udt_type_script c \<and>
     ch_to_local_amount c' = ch_to_remote_amount c \<and> ch_to_remote_amount c' = ch_to_local_amount c \<and>
     ch_local_reserved_ckb_amount c' = ch_remote_reserved_ckb_amount c \<and> ch_remote_reserved_ckb_amount c' = ch_local_reserved_ckb_amount c \<and>
     ch_local_funding_pubkey c' = ch_remote_funding_pubkey c \<and> ch_remote_funding_pubkey c' = ch_local_funding_pubkey c \<and>
     ch_local_funding_pubkey c \<noteq> ch_remote_funding_pubkey c"

lemma order_mirrored: "mirrored_close c c' \<Longrightarrow> order_things_for_musig2 c' a b = order_things_for_musig2 c b a"
  by (auto simp: mirrored_close_def order_things_for_musig2_def should_local_go_first_in_musig2_def)

lemma shutdown_output_capacity:
  assumes "shutdown_output c s liquid reserved fee = Ok (out, data)"
  shows "unat (co_capacity out) + unat fee = unat reserved + (if ch_funding_udt_type_script c = None then unat liquid else 0) \<and>
    co_lock out = s \<and> co_type out = ch_funding_udt_type_script c \<and>
    data = (if ch_funding_udt_type_script c = None then [] else to_le_bytes liquid)"
  using assms
  by (auto simp: shutdown_output_def checked_sub_u64_def checked_ckb_amount_with_reserved_def checked_add_u64_def rust_arith
      split: option.splits)

text \<open>What one party is paid: its balance and its reserve less its fee, at its own script. In a channel of
  a user-defined token the balance is the data of the cell.\<close>

definition pays_out :: "channel \<Rightarrow> script \<Rightarrow> u128 \<Rightarrow> u64 \<Rightarrow> u64 \<Rightarrow> cell_output \<Rightarrow> bytes \<Rightarrow> bool" where
  "pays_out c close_script liquid reserved fee out data \<longleftrightarrow> co_lock out = close_script \<and> co_type out = ch_funding_udt_type_script c \<and>
     (case ch_funding_udt_type_script c of
        None \<Rightarrow> unat (co_capacity out) + unat fee = unat liquid + unat reserved \<and> data = []
      | Some _ \<Rightarrow> unat (co_capacity out) + unat fee = unat reserved \<and> data = to_le_bytes liquid)"

lemma shutdown_output_pays:
  "shutdown_output c s liquid reserved fee = Ok (out, data) \<Longrightarrow> pays_out c s liquid reserved fee out data"
  by (auto simp: pays_out_def shutdown_output_def checked_sub_u64_def checked_ckb_amount_with_reserved_def checked_add_u64_def rust_arith
      split: option.splits)

text \<open>C25. Both parties build the same closing transaction: when each side's channel mirrors the other's
  and one of them can build the closing transaction, the other builds the identical one, input,
  order of outputs and output data included. Its two outputs pay each party its own balance and reserve at its own
  close script, less the fee at the rate that party offered.\<close>

theorem closing_tx_agrees:
  assumes "build_shutdown_tx E c = Ok tx" and "mirrored_close c c'"
  shows "build_shutdown_tx E c' = Ok tx \<and>
    (\<exists>local remote fee_l fee_r to_local local_data to_remote remote_data.
       ch_local_shutdown_info c = Some local \<and> ch_remote_shutdown_info c = Some remote \<and>
       checked_calculate_shutdown_tx_fee (ce_chain E) (si_fee_rate local) (ch_funding_udt_type_script c)
         (si_close_script remote, si_close_script local) = Ok fee_l \<and>
       checked_calculate_shutdown_tx_fee (ce_chain E) (si_fee_rate remote) (ch_funding_udt_type_script c)
         (si_close_script local, si_close_script remote) = Ok fee_r \<and>
       pays_out c (si_close_script local) (ch_to_local_amount c) (ch_local_reserved_ckb_amount c) fee_l to_local local_data \<and>
       pays_out c (si_close_script remote) (ch_to_remote_amount c) (ch_remote_reserved_ckb_amount c) fee_r to_remote remote_data \<and>
       (stx_outputs tx = [to_local, to_remote] \<and> stx_outputs_data tx = [local_data, remote_data] \<or>
        stx_outputs tx = [to_remote, to_local] \<and> stx_outputs_data tx = [remote_data, local_data]))"
proof -
  from assms(1) obtain local remote funding fee_l fee_r lo ld ro rd where
    info: "ch_local_shutdown_info c = Some local" "ch_remote_shutdown_info c = Some remote" "ch_funding_tx c = Some funding" and
    fees: "checked_calculate_shutdown_tx_fee (ce_chain E) (si_fee_rate local) (ch_funding_udt_type_script c)
         (si_close_script remote, si_close_script local) = Ok fee_l"
      "checked_calculate_shutdown_tx_fee (ce_chain E) (si_fee_rate remote) (ch_funding_udt_type_script c)
         (si_close_script local, si_close_script remote) = Ok fee_r" and
    deps: "ce_cell_deps_ok E" and
    outs: "shutdown_output c (si_close_script local) (ch_to_local_amount c) (ch_local_reserved_ckb_amount c) fee_l = Ok (lo, ld)"
      "shutdown_output c (si_close_script remote) (ch_to_remote_amount c) (ch_remote_reserved_ckb_amount c) fee_r = Ok (ro, rd)" and
    tx: "tx = \<lparr>stx_funding = ft_hash funding, stx_outputs = order_things_for_musig2 c lo ro, stx_outputs_data = order_things_for_musig2 c ld rd\<rparr>"
    by (auto simp: build_shutdown_tx_def split: option.splits)
  have "shutdown_output c' = shutdown_output c"
    using assms(2) by (intro ext) (simp add: shutdown_output_def mirrored_close_def)
  then have same: "build_shutdown_tx E c' = Ok tx"
    using assms(2) info fees deps outs
    by (simp add: build_shutdown_tx_def mirrored_close_def tx order_mirrored [OF assms(2)] split: prod.splits)
  have order: "stx_outputs tx = [lo, ro] \<and> stx_outputs_data tx = [ld, rd] \<or> stx_outputs tx = [ro, lo] \<and> stx_outputs_data tx = [rd, ld]"
    by (simp add: tx order_things_for_musig2_def)
  show ?thesis using same info(1,2) fees shutdown_output_pays [OF outs(1)] shutdown_output_pays [OF outs(2)] order by blast
qed

definition shutdown_size_of :: "script \<Rightarrow> script \<Rightarrow> u64" where
  "shutdown_size_of a b = 600 + of_nat (length (sc_args a)) + of_nat (length (sc_args b))"

definition closing_chain :: chain_env where
  "closing_chain = sample_env\<lparr>env_shutdown_tx_size := (\<lambda>_. shutdown_size_of),
     env_cell_occupied := (\<lambda>s _ _. Some (100000000 * (41 + of_nat (length (sc_args s)))))\<rparr>"

definition closing_env :: close_env where
  "closing_env = \<lparr>ce_chain = closing_chain, ce_cell_deps_ok = True, ce_sign = (\<lambda>_ _. Some [7]),
     ce_aggregate = (\<lambda>_ a b _. Some (a @ b)), ce_signed_size = (\<lambda>_ _. 720)\<rparr>"

text \<open>A close script with 60 bytes of arguments, and a channel whose local side owns exactly what a
  cell under such a script occupies plus the fee it was quoted.\<close>

definition custom_script :: "8 word \<Rightarrow> script" where
  "custom_script b = script_default\<lparr>sc_args := replicate 60 b\<rparr>"

definition closing_channel :: channel where
  "closing_channel = (sample_channel tlc_state_default 10100000560 90000000000)"

definition closing_command :: shutdown_command where
  "closing_command = \<lparr>sh_close_script = Some (custom_script 1), sh_fee_rate = None, sh_force = False\<rparr>"

definition agreed_info :: "8 word \<Rightarrow> shutdown_info" where
  "agreed_info b = \<lparr>si_close_script = custom_script b, si_fee_rate = 1000, si_signature = None\<rparr>"

definition agreed_channel :: channel where
  "agreed_channel = closing_channel\<lparr>ch_local_shutdown_info := Some (agreed_info 1),
     ch_remote_shutdown_info := Some (agreed_info 2), ch_state := ShuttingDown 7\<rparr>"

definition agreed_peer :: channel where
  "agreed_peer = agreed_channel\<lparr>ch_local_shutdown_info := Some (agreed_info 2), ch_remote_shutdown_info := Some (agreed_info 1),
     ch_to_local_amount := 90000000000, ch_to_remote_amount := 10100000560, ch_local_funding_pubkey := 6, ch_remote_funding_pubkey := 5\<rparr>"

lemmas closing_samples = closing_chain_def closing_env_def custom_script_def closing_channel_def closing_command_def agreed_info_def
  agreed_channel_def agreed_peer_def shutdown_size_of_def sample_channel_def sample_env_def

lemmas fee_eval = checked_calculate_shutdown_tx_fee_def checked_fee_from_rate_def FEE_RATE_WEIGHT_SCALE_def u128_from_def u64_try_from_def
  checked_mul_u128_def checked_mul_def checked_sub_u64_def checked_ckb_amount_with_reserved_def checked_add_u64_def checked_add_def checked_sub_def

lemma agreed_tx: "build_shutdown_tx closing_env agreed_channel = Ok \<lparr>stx_funding = 33,
    stx_outputs = [\<lparr>co_lock = custom_script 1, co_type = None, co_capacity = 10099999940\<rparr>,
       \<lparr>co_lock = custom_script 2, co_type = None, co_capacity = 89999999380\<rparr>], stx_outputs_data = [[], []]\<rparr>"
  by (simp add: build_shutdown_tx_def shutdown_output_def closing_samples fee_eval order_things_for_musig2_def
      should_local_go_first_in_musig2_def)

theorem closing_tx_agrees_witness:
  "\<exists>tx. build_shutdown_tx closing_env agreed_channel = Ok tx \<and> build_shutdown_tx closing_env agreed_peer = Ok tx \<and> length (stx_outputs tx) = 2"
proof -
  have "mirrored_close agreed_channel agreed_peer" by (simp add: mirrored_close_def closing_samples)
  from closing_tx_agrees [OF agreed_tx this] agreed_tx show ?thesis by simp
qed

section \<open>What the fee checks leave open\<close>

text \<open>The checks price the transaction with the shutdown script the other side registered when the
  channel was opened. When the other side keeps that script, a checked close leaves the local output
  at least the capacity it occupies.\<close>

lemma checked_close_keeps_capacity:
  assumes "check_shutdown_fee_rate E c r s = Ok ()" and "ch_remote_shutdown_script c = Some remote"
    and "checked_calculate_shutdown_tx_fee E r (ch_funding_udt_type_script c) (remote, s) = Ok fee"
    and "shutdown_output c s (ch_to_local_amount c) (ch_local_reserved_ckb_amount c) fee = Ok (out, data)"
    and "occupied_capacity E s (ch_funding_udt_type_script c) (ch_channel_features c) = Ok occupied"
  shows "unat occupied \<le> unat (co_capacity out)"
proof -
  from assms(1-3,5) obtain available where a: "available_shutdown_fee E c s (ch_to_local_amount c) (ch_local_reserved_ckb_amount c) = Ok available"
    and le: "unat fee \<le> unat available"
    by (auto simp: check_shutdown_fee_rate_def get_remote_shutdown_script_def expect_def word_le_nat_alt not_less)
  from a assms(5) have "unat available + unat occupied = unat (ch_local_reserved_ckb_amount c) +
      (if ch_funding_udt_type_script c = None then unat (ch_to_local_amount c) else 0)"
    by (auto simp: available_shutdown_fee_def checked_ckb_amount_with_reserved_def checked_add_u64_def rust_arith split: if_splits)
  with le shutdown_output_capacity [OF assms(4)] show ?thesis by (simp split: if_splits)
qed

lemma peer_shutdown_fee_ok:
  "check_shutdown_fee_valid closing_chain (closing_channel\<lparr>ch_local_shutdown_info := i, ch_state := st\<rparr>) (custom_script 2) 1000"
  by (simp add: check_shutdown_fee_valid_def available_shutdown_fee_def occupied_capacity_def lock_args_len_def closing_samples fee_eval
      script_default_def)

lemma own_shutdown_fee_ok: "check_shutdown_fee_rate closing_chain closing_channel 1000 (custom_script 1) = Ok ()"
  by (simp add: check_shutdown_fee_rate_def available_shutdown_fee_def occupied_capacity_def lock_args_len_def closing_samples fee_eval
      script_default_def get_remote_shutdown_script_def expect_def)

lemma no_tlc_default: "ch_tlc_state c = tlc_state_default \<Longrightarrow> \<not> any_tlc_pending c"
  by (simp add: any_tlc_pending_def all_tlcs_def tlc_state_default_def pending_tlcs_default_def)

lemma own_shutdown:
  "handle_shutdown_command V closing_env closing_channel closing_command =
     (closing_channel\<lparr>ch_local_shutdown_info := Some (agreed_info 1), ch_state := ShuttingDown 1\<rparr>, [SendShutdown (custom_script 1) 1000], Ok ())"
proof -
  have fields: "ch_session_v2 closing_channel = None" "ch_state closing_channel = ChannelReady" "ch_connectivity_state closing_channel = Online"
    "ch_commitment_fee_rate closing_channel = 1000" "ch_tlc_state closing_channel = tlc_state_default"
    "ce_chain closing_env = closing_chain" by (simp_all add: closing_channel_def sample_channel_def closing_env_def)
  have tlcs: "all_tlcs tlc_state_default = []" by (simp add: all_tlcs_def tlc_state_default_def pending_tlcs_default_def)
  show ?thesis
    by (simp add: handle_shutdown_command_def ensure_v2_not_quarantined_def closing_command_def fields tlcs own_shutdown_fee_ok
        maybe_transfer_to_shutdown_def update_state_def emit_def flag_defs agreed_info_def contains_def Let_def)
qed

definition signed_channel :: channel where
  "signed_channel = agreed_channel\<lparr>ch_local_shutdown_info := Some ((agreed_info 1)\<lparr>si_signature := Some [7]\<rparr>)\<rparr>"

lemma peer_shutdown:
  "handle_shutdown_peer_message closing_env (closing_channel\<lparr>ch_local_shutdown_info := Some (agreed_info 1), ch_state := ShuttingDown 1\<rparr>)
     (custom_script 2) 1000 = (signed_channel, [SendClosingSigned [7]], Ok ())"
proof -
  have fields: "ch_session_v2 closing_channel = None" "ch_tlc_state closing_channel = tlc_state_default" "ch_waiting_peer_response closing_channel = None"
    "ce_chain closing_env = closing_chain" by (simp_all add: closing_channel_def sample_channel_def closing_env_def)
  have w: "agreed_channel\<lparr>ch_waiting_peer_response := None\<rparr> = agreed_channel" by (simp add: agreed_channel_def closing_channel_def sample_channel_def)
  have "sign_and_publish_close closing_env agreed_channel = (signed_channel, [SendClosingSigned [7]], Ok ())"
    using agreed_tx by (simp add: sign_and_publish_close_def signed_channel_def) (simp add: agreed_channel_def agreed_info_def closing_env_def)
  moreover have "handle_shutdown_peer_message closing_env (closing_channel\<lparr>ch_local_shutdown_info := Some (agreed_info 1), ch_state := ShuttingDown 1\<rparr>)
     (custom_script 2) 1000 = sign_and_publish_close closing_env (agreed_channel\<lparr>ch_waiting_peer_response := None\<rparr>)"
    by (simp add: handle_shutdown_peer_message_def fields peer_shutdown_fee_ok step_shutting_down_def maybe_transfer_to_shutdown_def
        update_state_def flag_defs contains_def Let_def no_tlc_default agreed_channel_def agreed_info_def)
  ultimately show ?thesis using w by simp
qed

text \<open>C39. The fee checks of a close do not cover a simultaneous close: a channel accepts its own shutdown
  command with a custom close script and then the peer's shutdown message with another custom one,
  both checks pass and the closing signature is sent, yet the closing transaction, which is priced
  with the two actual scripts, leaves the local output less capacity than its cell occupies.\<close>

theorem simultaneous_close_underfunded:
  "\<exists>c1 c2 out tx. handle_shutdown_command (\<lambda>c _. (c, [], Ok ())) closing_env closing_channel closing_command = (c1, [SendShutdown (custom_script 1) 1000], Ok ()) \<and>
     handle_shutdown_peer_message closing_env c1 (custom_script 2) 1000 = (c2, [SendClosingSigned [7]], Ok ()) \<and>
     build_shutdown_tx closing_env c2 = Ok tx \<and> out \<in> set (stx_outputs tx) \<and>
     (\<exists>occupied. env_cell_occupied closing_chain (co_lock out) (co_type out) 0 = Some occupied \<and> unat (co_capacity out) < unat occupied)"
proof -
  have "build_shutdown_tx closing_env signed_channel = build_shutdown_tx closing_env agreed_channel"
    unfolding agreed_tx
    by (simp add: build_shutdown_tx_def shutdown_output_def closing_samples signed_channel_def fee_eval order_things_for_musig2_def
        should_local_go_first_in_musig2_def)
  moreover have "\<exists>occupied. env_cell_occupied closing_chain (custom_script 1) None 0 = Some occupied \<and> unat (10099999940 :: u64) < unat occupied"
    by (simp add: closing_chain_def custom_script_def)
  ultimately show ?thesis using own_shutdown peer_shutdown agreed_tx
    by (intro exI [of _ "closing_channel\<lparr>ch_local_shutdown_info := Some (agreed_info 1), ch_state := ShuttingDown 1\<rparr>"] exI [of _ signed_channel]
        exI [of _ "\<lparr>co_lock = custom_script 1, co_type = None, co_capacity = 10099999940\<rparr>"]) simp
qed

section \<open>Runs of the closing handlers\<close>

text \<open>The effects of a run, each with the channel the handler left behind. Between the handlers of the
  close, the handlers of the TLC protocol may run.\<close>

inductive close_run :: "close_env \<Rightarrow> channel \<Rightarrow> (channel \<times> close_effect) list \<Rightarrow> channel \<Rightarrow> bool" for E c0 where
  start: "close_run E c0 [] c0"
| command: "close_run E c0 log c \<Longrightarrow> handle_shutdown_command V E c command = (c', es, r) \<Longrightarrow> r \<noteq> Panic \<Longrightarrow>
    close_run E c0 (log @ map (Pair c') es) c'"
| shutdown: "close_run E c0 log c \<Longrightarrow> handle_shutdown_peer_message E c close_script fee_rate = (c', es, r) \<Longrightarrow> r \<noteq> Panic \<Longrightarrow>
    close_run E c0 (log @ map (Pair c') es) c'"
| closing_signed: "close_run E c0 log c \<Longrightarrow> handle_closing_signed E c channel_id partial_signature = (c', es, r) \<Longrightarrow> r \<noteq> Panic \<Longrightarrow>
    close_run E c0 (log @ map (Pair c') es) c'"
| tlcs_resolved: "close_run E c0 log c \<Longrightarrow> maybe_transfer_to_shutdown E c = (c', es, r) \<Longrightarrow> r \<noteq> Panic \<Longrightarrow>
    close_run E c0 (log @ map (Pair c') es) c'"
| confirmed: "close_run E c0 log c \<Longrightarrow> update_close_transaction_confirmed c h force close_by_us = (c', es, r) \<Longrightarrow>
    close_run E c0 (log @ map (Pair c') es) c'"
| tlcs: "close_run E c0 log c \<Longrightarrow> chan_step c c' \<Longrightarrow> close_run E c0 log c'"

fun is_signature :: "close_effect \<Rightarrow> bool" where
  "is_signature (SendClosingSigned _) = True"
| "is_signature _ = False"

fun is_publication :: "close_effect \<Rightarrow> bool" where
  "is_publication (ClosingTransactionPending _ _) = True"
| "is_publication _ = False"

abbreviation signatures :: "(channel \<times> close_effect) list \<Rightarrow> nat" where
  "signatures log \<equiv> length (filter (is_signature \<circ> snd) log)"

abbreviation publications :: "(channel \<times> close_effect) list \<Rightarrow> nat" where
  "publications log \<equiv> length (filter (is_publication \<circ> snd) log)"

text \<open>What an effect says about the channel it is logged with.\<close>

definition both_signed :: "channel \<Rightarrow> bool" where
  "both_signed c \<longleftrightarrow> (\<exists>i j. ch_local_shutdown_info c = Some i \<and> si_signature i \<noteq> None \<and> ch_remote_shutdown_info c = Some j \<and> si_signature j \<noteq> None)"

fun effect_ok :: "close_env \<Rightarrow> channel \<times> close_effect \<Rightarrow> bool" where
  "effect_ok E (c, SendClosingSigned s) \<longleftrightarrow> \<not> any_tlc_pending c \<and> (\<exists>tx. build_shutdown_tx E c = Ok tx) \<and>
     map_option si_signature (ch_local_shutdown_info c) = Some (Some s)"
| "effect_ok E (c, ClosingTransactionPending tx w) \<longleftrightarrow> \<not> any_tlc_pending c \<and> build_shutdown_tx E c = Ok tx \<and> both_signed c"
| "effect_ok E _ \<longleftrightarrow> True"

definition close_phase :: "channel \<Rightarrow> (channel \<times> close_effect) list \<Rightarrow> bool" where
  "close_phase c log = (case ch_state c of
      ChannelReady \<Rightarrow> signatures log = 0 \<and> publications log = 0
    | ShuttingDown flags \<Rightarrow>
        if contains flags WAITING_COMMITMENT_CONFIRMATION then \<not> contains flags OUR_SHUTDOWN_SENT
        else publications log = 0 \<and>
          (if contains flags OUR_SHUTDOWN_SENT
           then case ch_local_shutdown_info c of None \<Rightarrow> False | Some i \<Rightarrow> signatures log = (if si_signature i = None then 0 else 1)
           else signatures log = 0)
    | Closed _ \<Rightarrow> True
    | _ \<Rightarrow> False)"

definition close_inv :: "close_env \<Rightarrow> channel \<Rightarrow> (channel \<times> close_effect) list \<Rightarrow> bool" where
  "close_inv E c log \<longleftrightarrow> ch_session_v2 c = None \<and> signatures log \<le> 1 \<and> publications log \<le> 1 \<and> close_phase c log \<and> list_all (effect_ok E) log"

section \<open>The flags of a close\<close>

lemma shutdown_bits:
  "contains f OUR_SHUTDOWN_SENT \<longleftrightarrow> bit f 0" "contains f THEIR_SHUTDOWN_SENT \<longleftrightarrow> bit f 1"
  "contains f WAITING_COMMITMENT_CONFIRMATION \<longleftrightarrow> bit f 3" "contains f AWAITING_PENDING_TLCS \<longleftrightarrow> bit f 0 \<and> bit f 1"
proof -
  have one: "f AND 2 ^ n = 2 ^ n \<longleftrightarrow> bit f n" if "n < 32" for f :: u32 and n
    using that by (auto simp: bit_eq_iff [where 'a = "32 word"] bit_simps)
  from one [of 0 f] one [of 1 f] one [of 3 f]
  show "contains f OUR_SHUTDOWN_SENT \<longleftrightarrow> bit f 0" "contains f THEIR_SHUTDOWN_SENT \<longleftrightarrow> bit f 1"
    "contains f WAITING_COMMITMENT_CONFIRMATION \<longleftrightarrow> bit f 3"
    by (simp_all add: contains_def flag_defs)
  then show "contains f AWAITING_PENDING_TLCS \<longleftrightarrow> bit f 0 \<and> bit f 1"
    by (auto simp: contains_def AWAITING_PENDING_TLCS_def bit_eq_iff bit_simps)
qed

lemma shutdown_bit_values:
  "bit OUR_SHUTDOWN_SENT n \<longleftrightarrow> n = 0" "bit THEIR_SHUTDOWN_SENT n \<longleftrightarrow> n = 1" "bit DROPPING_PENDING n \<longleftrightarrow> n = 2"
  "bit WAITING_COMMITMENT_CONFIRMATION n \<longleftrightarrow> n = 3"
proof -
  have "bit (2 ^ k :: u32) n \<longleftrightarrow> n = k" if "k < 32" for k
    using that by (auto simp: bit_simps exp_eq_zero_iff)
  from this [of 0] this [of 1] this [of 2] this [of 3]
  show "bit OUR_SHUTDOWN_SENT n \<longleftrightarrow> n = 0" "bit THEIR_SHUTDOWN_SENT n \<longleftrightarrow> n = 1" "bit DROPPING_PENDING n \<longleftrightarrow> n = 2"
    "bit WAITING_COMMITMENT_CONFIRMATION n \<longleftrightarrow> n = 3" by (simp_all add: flag_defs)
qed

lemmas close_flags = shutdown_bits shutdown_bit_values bit_or_iff

section \<open>The handlers keep the phase\<close>

lemma build_shutdown_tx_signature:
  "ch_local_shutdown_info c = Some i \<Longrightarrow>
     build_shutdown_tx E (c\<lparr>ch_local_shutdown_info := Some (i\<lparr>si_signature := s\<rparr>)\<rparr>) = build_shutdown_tx E c"
  by (simp add: build_shutdown_tx_def shutdown_output_def order_things_for_musig2_def should_local_go_first_in_musig2_def cong: option.case_cong)

lemma build_shutdown_tx_state: "build_shutdown_tx E (c\<lparr>ch_state := st\<rparr>) = build_shutdown_tx E c"
  by (simp add: build_shutdown_tx_def shutdown_output_def order_things_for_musig2_def should_local_go_first_in_musig2_def cong: option.case_cong)

lemma update_state_shutting [simp]: "update_state c (ShuttingDown f) = c\<lparr>ch_state := ShuttingDown f\<rparr>"
  by (simp add: update_state_def)

lemma any_tlc_pending_cong: "ch_tlc_state c' = ch_tlc_state c \<Longrightarrow> any_tlc_pending c' = any_tlc_pending c"
  by (simp add: any_tlc_pending_def)

definition ready_to_sign :: "close_env \<Rightarrow> channel \<Rightarrow> (channel \<times> close_effect) list \<Rightarrow> bool" where
  "ready_to_sign E c log \<longleftrightarrow> close_inv E c log \<and> \<not> any_tlc_pending c \<and> (\<exists>f. ch_state c = ShuttingDown f \<and> contains f OUR_SHUTDOWN_SENT \<and>
     \<not> contains f WAITING_COMMITMENT_CONFIRMATION)"

lemma signed_keeps:
  assumes "ready_to_sign E c log" and "ch_local_shutdown_info c = Some i" and "si_signature i = None" and "build_shutdown_tx E c = Ok tx"
  shows "close_inv E (c\<lparr>ch_local_shutdown_info := Some (i\<lparr>si_signature := Some s\<rparr>)\<rparr>)
    (log @ [(c\<lparr>ch_local_shutdown_info := Some (i\<lparr>si_signature := Some s\<rparr>)\<rparr>, SendClosingSigned s)])"
  using assms by (auto simp: ready_to_sign_def close_inv_def close_phase_def build_shutdown_tx_signature any_tlc_pending_def)

lemma waiting_not_ours: "contains WAITING_COMMITMENT_CONFIRMATION OUR_SHUTDOWN_SENT \<longleftrightarrow> False"
  by (simp add: close_flags)

lemma published_keeps:
  assumes "ready_to_sign E c log" and "both_signed c" and "build_shutdown_tx E c = Ok tx"
  shows "close_inv E (c\<lparr>ch_state := ShuttingDown WAITING_COMMITMENT_CONFIRMATION\<rparr>)
    (log @ [(c\<lparr>ch_state := ShuttingDown WAITING_COMMITMENT_CONFIRMATION\<rparr>, ClosingTransactionPending tx w)])"
  using assms by (auto simp: ready_to_sign_def close_inv_def close_phase_def build_shutdown_tx_state any_tlc_pending_def both_signed_def waiting_not_ours)

lemma signed_published_keeps:
  fixes s
  assumes "ready_to_sign E c log" and "ch_local_shutdown_info c = Some i" and "ch_remote_shutdown_info c = Some j"
    and "si_signature i = None" and "si_signature j \<noteq> None" and "build_shutdown_tx E c = Ok tx"
  defines "c' \<equiv> c\<lparr>ch_local_shutdown_info := Some (i\<lparr>si_signature := Some s\<rparr>), ch_state := ShuttingDown WAITING_COMMITMENT_CONFIRMATION\<rparr>"
  shows "close_inv E c' (log @ [(c', SendClosingSigned s), (c', ClosingTransactionPending tx w)])"
proof -
  have "build_shutdown_tx E c' = Ok tx" using assms(2,6) by (simp add: c'_def build_shutdown_tx_state build_shutdown_tx_signature)
  then show ?thesis using assms(1-5)
    by (auto simp: c'_def ready_to_sign_def close_inv_def close_phase_def any_tlc_pending_def both_signed_def waiting_not_ours)
qed

lemma sign_and_publish_keeps:
  assumes "sign_and_publish_close E c = (c', es, r)" and "ready_to_sign E c log"
  shows "close_inv E c' (log @ map (Pair c') es)"
proof (cases "\<exists>i j tx. ch_local_shutdown_info c = Some i \<and> ch_remote_shutdown_info c = Some j \<and> build_shutdown_tx E c = Ok tx")
  case True
  then obtain i j tx where ij: "ch_local_shutdown_info c = Some i" "ch_remote_shutdown_info c = Some j" "build_shutdown_tx E c = Ok tx" by blast
  have inv: "close_inv E c log" using assms(2) by (simp add: ready_to_sign_def)
  show ?thesis
  proof (cases "si_signature i")
    case None
    show ?thesis
      using assms ij None inv signed_keeps [OF assms(2) ij(1) None ij(3)] signed_published_keeps [OF assms(2) ij(1,2) None _ ij(3)]
      by (auto simp: sign_and_publish_close_def split: option.splits if_splits)
  next
    case (Some s)
    then have "si_signature j \<noteq> None \<Longrightarrow> both_signed c" using ij by (simp add: both_signed_def)
    then show ?thesis
      using assms ij Some inv published_keeps [OF assms(2) _ ij(3)]
      by (auto simp: sign_and_publish_close_def split: option.splits if_splits)
  qed
next
  case False
  then have "c' = c \<and> es = []" using assms(1)
    by (cases "ch_local_shutdown_info c"; cases "ch_remote_shutdown_info c"; cases "build_shutdown_tx E c")
      (simp_all add: sign_and_publish_close_def)
  with assms(2) show ?thesis by (simp add: ready_to_sign_def)
qed

lemma maybe_transfer_keeps:
  assumes "maybe_transfer_to_shutdown E c = (c', es, r)" and "close_inv E c log"
  shows "close_inv E c' (log @ map (Pair c') es)"
proof (cases "\<exists>f. ch_state c = ShuttingDown f \<and> contains f AWAITING_PENDING_TLCS \<and> \<not> any_tlc_pending c")
  case True
  then obtain f where f: "ch_state c = ShuttingDown f" "contains f AWAITING_PENDING_TLCS" "\<not> any_tlc_pending c" by blast
  let ?c = "c\<lparr>ch_state := ShuttingDown (f OR DROPPING_PENDING), ch_waiting_peer_response := None\<rparr>"
  have ours: "contains f OUR_SHUTDOWN_SENT" using f(2) by (simp add: shutdown_bits)
  have "\<not> contains f WAITING_COMMITMENT_CONFIRMATION"
    using assms(2) f(1) ours by (auto simp: close_inv_def close_phase_def)
  note phase = ours this
  have bits: "contains (f OR DROPPING_PENDING) OUR_SHUTDOWN_SENT" "\<not> contains (f OR DROPPING_PENDING) WAITING_COMMITMENT_CONFIRMATION"
    using phase by (simp_all add: close_flags)
  have "close_inv E ?c log" using assms(2) f(1) phase bits by (simp add: close_inv_def close_phase_def)
  then have "ready_to_sign E ?c log" using bits f(3) by (auto simp: ready_to_sign_def any_tlc_pending_def)
  moreover have "sign_and_publish_close E ?c = (c', es, r)"
    using assms f by (simp add: maybe_transfer_to_shutdown_def close_inv_def)
  ultimately show ?thesis by (intro sign_and_publish_keeps)
next
  case False
  then have "c' = c \<and> es = []"
    using assms by (auto simp: maybe_transfer_to_shutdown_def split: channel_state.splits if_splits)
  with assms(2) show ?thesis by simp
qed

lemma emit_keeps:
  assumes "emit es (maybe_transfer_to_shutdown E c) = (c', es', r)" and "close_inv E c log"
    and "\<And>x. list_all (\<lambda>e. effect_ok E (x, e) \<and> \<not> is_signature e \<and> \<not> is_publication e) es"
  shows "close_inv E c' (log @ map (Pair c') es')"
proof -
  obtain fx where m: "maybe_transfer_to_shutdown E c = (c', fx, r)" and es': "es' = es @ fx"
    using assms(1) by (cases "maybe_transfer_to_shutdown E c") (auto simp: emit_def)
  have neutral: "filter (is_signature \<circ> snd) (map (Pair c') es) = []" "filter (is_publication \<circ> snd) (map (Pair c') es) = []"
    "list_all (effect_ok E) (map (Pair c') es)"
    using assms(3) [of c'] by (induction es) auto
  have "close_inv E c' (log @ map (Pair c') fx)" using m assms(2) by (rule maybe_transfer_keeps)
  with neutral show ?thesis by (simp add: es' close_inv_def close_phase_def cong: channel_state.case_cong option.case_cong if_cong)
qed

lemma step_shutting_down_keeps:
  assumes "step_shutting_down E c flags = (c', es, r)" and "close_inv E (c\<lparr>ch_state := ShuttingDown flags\<rparr>) log"
  shows "close_inv E c' (log @ map (Pair c') es)"
proof (cases "check_valid_to_auto_accept_shutdown c \<and> flags = THEIR_SHUTDOWN_SENT")
  case True
  let ?c = "c\<lparr>ch_local_shutdown_info := Some \<lparr>si_close_script = ch_local_shutdown_script c, si_fee_rate = 0, si_signature = None\<rparr>,
    ch_state := ShuttingDown (THEIR_SHUTDOWN_SENT OR OUR_SHUTDOWN_SENT)\<rparr>"
  have bits: "contains (THEIR_SHUTDOWN_SENT OR OUR_SHUTDOWN_SENT) OUR_SHUTDOWN_SENT" "\<not> contains THEIR_SHUTDOWN_SENT OUR_SHUTDOWN_SENT"
    "\<not> contains (THEIR_SHUTDOWN_SENT OR OUR_SHUTDOWN_SENT) WAITING_COMMITMENT_CONFIRMATION"
    "\<not> contains THEIR_SHUTDOWN_SENT WAITING_COMMITMENT_CONFIRMATION" by (simp_all add: close_flags)
  have "close_inv E ?c log" using assms(2) True bits by (simp add: close_inv_def close_phase_def)
  then show ?thesis using assms(1) True 
    by (intro emit_keeps [of "[SendShutdown (ch_local_shutdown_script c) 0]" E ?c]) (simp_all add: step_shutting_down_def Let_def)
next
  case False
  with assms show ?thesis by (intro maybe_transfer_keeps) (auto simp: step_shutting_down_def)
qed

lemma close_inv_fields:
  assumes "ch_state c' = ch_state c" and "ch_local_shutdown_info c' = ch_local_shutdown_info c" and "ch_session_v2 c' = ch_session_v2 c"
  shows "close_inv E c' log = close_inv E c log"
  unfolding close_inv_def close_phase_def assms ..

lemma shutdown_keeps:
  assumes "handle_shutdown_peer_message E c close_script fee_rate = (c', es, r)" and inv: "close_inv E c log"
  shows "close_inv E c' (log @ map (Pair c') es)"
proof -
  let ?r = "c\<lparr>ch_remote_shutdown_info := Some \<lparr>si_close_script = close_script, si_fee_rate = fee_rate, si_signature = None\<rparr>\<rparr>"
  have step: ?thesis if f: "step_shutting_down E ?r (f OR THEIR_SHUTDOWN_SENT) = (c', es, r)"
    and start: "ch_state c = ChannelReady \<and> f = 0 \<or> ch_state c = ShuttingDown f" for f
  proof (rule step_shutting_down_keeps [OF f])
    have new: "close_inv E (?r\<lparr>ch_state := ShuttingDown g\<rparr>) log \<longleftrightarrow> close_inv E (c\<lparr>ch_state := ShuttingDown g\<rparr>) log" for g
      by (rule close_inv_fields) simp_all
    have bits: "contains (f OR THEIR_SHUTDOWN_SENT) OUR_SHUTDOWN_SENT = contains f OUR_SHUTDOWN_SENT"
      "contains (f OR THEIR_SHUTDOWN_SENT) WAITING_COMMITMENT_CONFIRMATION = contains f WAITING_COMMITMENT_CONFIRMATION"
      by (simp_all add: close_flags)
    have theirs: "\<not> contains THEIR_SHUTDOWN_SENT OUR_SHUTDOWN_SENT" "\<not> contains THEIR_SHUTDOWN_SENT WAITING_COMMITMENT_CONFIRMATION"
      by (simp_all add: close_flags)
    show "close_inv E (?r\<lparr>ch_state := ShuttingDown (f OR THEIR_SHUTDOWN_SENT)\<rparr>) log"
      using start
    proof
      assume "ch_state c = ChannelReady \<and> f = 0"
      then show ?thesis using inv unfolding new close_inv_def close_phase_def by (simp add: theirs)
    next
      assume "ch_state c = ShuttingDown f"
      moreover have "close_phase (c\<lparr>ch_state := ShuttingDown (f OR THEIR_SHUTDOWN_SENT)\<rparr>) log = close_phase (c\<lparr>ch_state := ShuttingDown f\<rparr>) log"
        by (simp add: close_phase_def bits)
      moreover have "close_phase (c\<lparr>ch_state := ShuttingDown f\<rparr>) log = close_phase c log" using calculation(1) by (simp add: close_phase_def)
      ultimately show ?thesis using inv unfolding new unfolding close_inv_def by simp
    qed
  qed
  show ?thesis
  proof (cases "ch_state c")
    case (ShuttingDown f)
    then show ?thesis using assms step [of f] by (auto simp: handle_shutdown_peer_message_def split: if_splits)
  next
    case ChannelReady
    then show ?thesis using assms step [of 0] by (auto simp: handle_shutdown_peer_message_def split: if_splits)
  qed (use assms in \<open>auto simp: handle_shutdown_peer_message_def\<close>)
qed

lemma closing_signed_keeps:
  assumes "handle_closing_signed E c channel_id s = (c', es, r)" and "close_inv E c log"
  shows "close_inv E c' (log @ map (Pair c') es)"
proof (cases "channel_id = ch_id c")
  case True
  let ?c = "case ch_remote_shutdown_info c of Some info \<Rightarrow> c\<lparr>ch_remote_shutdown_info := Some (info\<lparr>si_signature := Some s\<rparr>)\<rparr> | None \<Rightarrow> c"
  have "close_inv E ?c log" using assms(2) by (subst close_inv_fields [of _ c]) (simp_all split: option.split)
  with True assms(1) show ?thesis by (intro maybe_transfer_keeps) (simp_all add: handle_closing_signed_def)
qed (use assms in \<open>simp_all add: handle_closing_signed_def\<close>)


lemma supersede_v1: "ch_session_v2 c = None \<Longrightarrow> supersede_close c = c"
  by (simp add: supersede_close_def)

lemma command_keeps:
  assumes "handle_shutdown_command V E c command = (c', es, r)" and inv: "close_inv E c log"
  shows "close_inv E c' (log @ map (Pair c') es)"
proof (cases "sh_force command")
  case True
  have v1: "ch_session_v2 c = None" using inv by (simp add: close_inv_def)
  have "c' = c \<and> es = [] \<or> (\<exists>tx. c' = c\<lparr>ch_state := ShuttingDown WAITING_COMMITMENT_CONFIRMATION\<rparr> \<and> es = [ForceClosePending tx])"
    using assms(1) True v1
    by (auto simp: handle_shutdown_command_def supersede_v1 split: res.splits if_splits option.splits)
  then show ?thesis
  proof (elim disjE conjE exE)
    fix tx
    assume "c' = c\<lparr>ch_state := ShuttingDown WAITING_COMMITMENT_CONFIRMATION\<rparr>" "es = [ForceClosePending tx]"
    with inv show ?thesis by (simp add: close_inv_def close_phase_def waiting_not_ours)
  qed (use inv in simp)
next
  case False
  have v1: "ch_session_v2 c = None" using inv by (simp add: close_inv_def)
  let ?c = "\<lambda>s f. c\<lparr>ch_local_shutdown_info := Some \<lparr>si_close_script = s, si_fee_rate = f, si_signature = None\<rparr>, ch_state := ShuttingDown OUR_SHUTDOWN_SENT\<rparr>"
  have "c' = c \<and> es = [] \<or> ch_state c = ChannelReady \<and> (\<exists>s f. emit [SendShutdown s f] (maybe_transfer_to_shutdown E (?c s f)) = (c', es, r))"
    using assms(1) False v1
    by (auto simp: handle_shutdown_command_def Let_def split: res.splits if_splits option.splits)
  then show ?thesis
  proof (elim disjE conjE exE)
    fix s f
    assume ready: "ch_state c = ChannelReady" and m: "emit [SendShutdown s f] (maybe_transfer_to_shutdown E (?c s f)) = (c', es, r)"
    have "\<not> contains OUR_SHUTDOWN_SENT WAITING_COMMITMENT_CONFIRMATION" by (simp add: close_flags)
    then have "close_inv E (?c s f) log" using inv ready by (simp add: close_inv_def close_phase_def)
    with m show ?thesis by (rule emit_keeps) simp
  qed (use inv in simp)
qed

lemma confirmed_keeps:
  assumes "update_close_transaction_confirmed c h force close_by_us = (c', es, r)" and "close_inv E c log"
  shows "close_inv E c' (log @ map (Pair c') es)"
proof -
  have "c' = c \<and> es = [] \<or> (\<exists>f. ch_state c' = Closed f) \<and> ch_session_v2 c' = ch_session_v2 c \<and> set es \<subseteq> {BroadcastDisabledUpdate}"
    using assms(1) by (auto simp: update_close_transaction_confirmed_def Let_def update_state_def split: if_splits)
  then show ?thesis
  proof (elim disjE conjE exE)
    fix f
    assume "ch_state c' = Closed f" "ch_session_v2 c' = ch_session_v2 c" and es: "set es \<subseteq> {BroadcastDisabledUpdate}"
    moreover have "filter (is_signature \<circ> snd) (map (Pair c') es) = []" "filter (is_publication \<circ> snd) (map (Pair c') es) = []"
      "list_all (effect_ok E) (map (Pair c') es)" using es by (induction es) auto
    ultimately show ?thesis using assms(2) by (simp add: close_inv_def close_phase_def)
  qed (use assms in simp)
qed

lemma remove_with_reason_close_fields:
  assumes "remove_tlc_with_reason H c i = Ok (t, r, c')"
  shows "ch_state c' = ch_state c \<and> ch_local_shutdown_info c' = ch_local_shutdown_info c \<and> ch_session_v2 c' = ch_session_v2 c"
proof -
  from assms obtain u r' where "get_mut (ch_tlc_state c) i = Some u" "ti_removed_reason u = Some r'"
    unfolding remove_tlc_with_reason_def by (auto simp only: bind_res_eq_Ok expect_eq_Ok)
  with assms show ?thesis
    by (cases r') (auto simp: remove_tlc_with_reason_def channel_apply_remove_tlc_def prune_remote_commitment_points_def)
qed

lemma chan_step_close_fields:
  "chan_step c c' \<Longrightarrow> ch_state c' = ch_state c \<and> ch_local_shutdown_info c' = ch_local_shutdown_info c \<and> ch_session_v2 c' = ch_session_v2 c"
proof (induction rule: chan_step.induct)
  case (settle c i t0 H t r c')
  show ?case using remove_with_reason_close_fields [OF settle(2)] by (simp add: mark_removed_def set_tlc_state_def)
next
  case (clean_up c)
  have "ch_state (fold (\<lambda>i c. channel_apply_remove_tlc c i) is c) = ch_state c \<and>
    ch_local_shutdown_info (fold (\<lambda>i c. channel_apply_remove_tlc c i) is c) = ch_local_shutdown_info c \<and>
    ch_session_v2 (fold (\<lambda>i c. channel_apply_remove_tlc c i) is c) = ch_session_v2 c" for "is"
    by (induction "is" arbitrary: c) (simp_all add: channel_apply_remove_tlc_def prune_remote_commitment_points_def)
  then show ?case by (simp add: clean_up_failed_tlcs_def Let_def)
qed (auto simp: add_tlc_update_def handle_add_tlc_peer_message_def remove_tlc_update_def handle_remove_tlc_peer_message_def
    set_tlc_state_def record_pending_replay_update_def append_remote_commitment_point_def prune_remote_commitment_points_def Let_def
    split: option.splits if_splits)

lemma close_run_inv:
  assumes "close_run E c0 log c" and "ch_state c0 = ChannelReady" and "ch_session_v2 c0 = None"
  shows "close_inv E c log"
  using assms(1)
proof induction
  case start
  then show ?case using assms(2,3) by (simp add: close_inv_def close_phase_def)
next
  case (tlcs log c c')
  then show ?case using chan_step_close_fields close_inv_fields by blast
qed (auto intro: command_keeps shutdown_keeps closing_signed_keeps maybe_transfer_keeps confirmed_keeps)


text \<open>C12. A close signs once and publishes once, and only a settled channel: along every run of the closing
  handlers, interleaved with the TLC handlers in any order, a channel that started ready and open sends at
  most one closing signature and publishes at most one cooperative closing transaction; whenever it
  does either, no TLC is pending, the signature sent is the one it keeps for the transaction it builds,
  and the transaction published is the one the channel builds at that moment, signed by both sides.\<close>

theorem close_signs_and_publishes_once:
  assumes "close_run E c0 log c" and "ch_state c0 = ChannelReady" and "ch_session_v2 c0 = None"
  shows "signatures log \<le> 1 \<and> publications log \<le> 1 \<and> list_all (effect_ok E) log"
  using close_run_inv [OF assms] by (simp add: close_inv_def)

theorem close_signs_and_publishes_once_witness:
  "\<exists>log. close_run closing_env closing_channel log signed_channel \<and> signatures log = 1 \<and> list_all (effect_ok closing_env) log"
proof -
  let ?c = "closing_channel\<lparr>ch_local_shutdown_info := Some (agreed_info 1), ch_state := ShuttingDown 1\<rparr>"
  have "close_run closing_env closing_channel ([] @ map (Pair ?c) [SendShutdown (custom_script 1) 1000]) ?c"
    by (rule close_run.command [OF close_run.start own_shutdown]) simp
  then have "close_run closing_env closing_channel (([] @ map (Pair ?c) [SendShutdown (custom_script 1) 1000]) @
      map (Pair signed_channel) [SendClosingSigned [7]]) signed_channel"
    by (rule close_run.shutdown [OF _ peer_shutdown]) simp
  then have "close_run closing_env closing_channel [(?c, SendShutdown (custom_script 1) 1000), (signed_channel, SendClosingSigned [7])] signed_channel"
    by simp
  moreover from close_signs_and_publishes_once [OF this]
  have "list_all (effect_ok closing_env) [(?c, SendShutdown (custom_script 1) 1000), (signed_channel, SendClosingSigned [7])]"
    by (simp add: closing_channel_def sample_channel_def)
  ultimately show ?thesis by (intro exI conjI) (assumption | simp)+
qed

end
