(* ===== verification/Reestablish.thy ===== *)
theory Reestablish
  imports Cooperative_Close
begin

text \<open>
  Reestablishing a channel after the connection was lost (\<^verbatim>\<open>fiber-lib/src/fiber/channel.rs\<close>): what is stored when a commitment is sent, the
  checks before it is replayed, the order of the replay, and the whole handler of the handshake for every state of the channel. The last
  sections put two such channels on links that lose what they hold when the connection breaks, and show that the handshake brings back exactly that.
\<close>

section \<open>What is kept for a reconnect\<close>

datatype replay_order_hint = RevokeThenCommit | CommitThenRevoke

record commitment_signed_template =
  tp_next_commitment_nonce :: pub_nonce
  tp_partial_signature :: "bytes option"

record commit_diff =
  df_channel_id :: hash256
  df_local_at_send :: u64
  df_remote_at_send :: u64
  df_commit_tx :: commitment_tx
  df_replay_updates :: "tlc_replay_update list"
  df_template :: "commitment_signed_template option"
  df_order_hint :: "replay_order_hint option"

record reestablish_channel =
  rs_channel_id :: hash256
  rs_local :: u64
  rs_remote :: u64

text \<open>
  The channel and a flag of its actor that is not stored: the handshake is over, but the network is told that the channel is ready only after the
  acknowledgement of the peer. The clock, the signature under an old commitment transaction that was stored without one, and the derivation of
  the nonce of the next commitment are arguments.
\<close>

record reest_node =
  rn_channel :: channel
  rn_pending_ready :: bool

record reest_env =
  re_tx :: tx_env
  re_close :: close_env
  re_now :: u64
  re_sign_commitment :: "channel \<Rightarrow> commitment_tx \<Rightarrow> bytes chan_res"
  re_next_commitment_nonce :: "channel \<Rightarrow> pub_nonce"

datatype reest_effect =
    ReAddTlc add_tlc_msg
  | ReRemoveTlc remove_tlc_msg
  | ReCommitmentSigned bytes pub_nonce
  | ReRevokeAndAck revoke_and_ack
  | ReChannelReady
  | ReTxUpdate funding_tx
  | ReShutdown script u64
  | NotifyFundingTx funding_tx
  | CommandCommitmentSigned
  | AbortFunding
  | StopClosed
  | NotifyChannelOnline
  | NotifyChannelReady hash256
  | OwnedChannelUpdated
  | ResumeFunding
  | StepTxSignatures
  | CloseEffect close_effect

type_synonym reest_result = "reest_node \<times> reest_effect list \<times> unit chan_res"

definition then_do :: "reest_result \<Rightarrow> (reest_node \<Rightarrow> reest_result) \<Rightarrow> reest_result" where
  "then_do r f = (case r of
      (n, es, Ok _) \<Rightarrow> (case f n of (n, es', r) \<Rightarrow> (n, es @ es', r))
    | (n, es, e) \<Rightarrow> (n, es, e))"

definition set_channel :: "(channel \<Rightarrow> channel) \<Rightarrow> reest_node \<Rightarrow> reest_node" where
  "set_channel f n = n\<lparr>rn_channel := f (rn_channel n)\<rparr>"

section \<open>Checks\<close>

definition abs_diff :: "u64 \<Rightarrow> u64 \<Rightarrow> u64" where
  "abs_diff a b = (if a < b then b - a else a - b)"

fun update_channel_id :: "tlc_replay_update \<Rightarrow> hash256" where
  "update_channel_id (ReplayAdd m) = am_channel_id m"
| "update_channel_id (ReplayRemove m) = rm_channel_id m"

definition validate_commit_diff_for_replay_inputs :: "hash256 \<Rightarrow> bool \<Rightarrow> u64 \<Rightarrow> u64 \<Rightarrow> reestablish_channel \<Rightarrow> commit_diff \<Rightarrow> unit chan_res" where
  "validate_commit_diff_for_replay_inputs channel_id waiting_ack local remote msg diff =
     bind_res (ensure (rs_channel_id msg = channel_id) InvalidParameter) (\<lambda>_.
     bind_res (ensure (df_channel_id diff = channel_id) InvalidState) (\<lambda>_.
     bind_res (ensure waiting_ack InvalidState) (\<lambda>_.
     bind_res (ensure (rs_remote msg = local) InvalidState) (\<lambda>_.
     bind_res (ensure (df_local_at_send diff = local) InvalidState) (\<lambda>_.
     bind_res (ensure (\<not> (remote < df_remote_at_send diff \<or> remote > saturating_add (df_remote_at_send diff) 1)) InvalidState) (\<lambda>_.
     ensure (\<forall>u \<in> set (df_replay_updates diff). update_channel_id u = channel_id) InvalidState))))))"

definition validate_commit_diff_for_replay :: "channel \<Rightarrow> reestablish_channel \<Rightarrow> commit_diff \<Rightarrow> unit chan_res" where
  "validate_commit_diff_for_replay c = validate_commit_diff_for_replay_inputs (ch_id c) (is_waiting_tlc_ack c)
     (cn_local (ch_commitment_numbers c)) (cn_remote (ch_commitment_numbers c))"

definition resolve_dual_owed_replay_order :: "replay_order_hint option \<Rightarrow> u64 \<Rightarrow> u64 \<Rightarrow> bool \<Rightarrow> replay_order_hint" where
  "resolve_dual_owed_replay_order hint remote_now remote_at_send last_was_revoke =
     (if remote_now > remote_at_send \<or> hint = Some CommitThenRevoke \<or> last_was_revoke then CommitThenRevoke else RevokeThenCommit)"

definition validate_external_funding_commit_diff_for_replay :: "channel \<Rightarrow> commit_diff \<Rightarrow> unit chan_res" where
  "validate_external_funding_commit_diff_for_replay c diff =
     (let remote = cn_remote (ch_commitment_numbers c) in
      bind_res (ensure (df_channel_id diff = ch_id c) InvalidState) (\<lambda>_.
      bind_res (ensure (df_local_at_send diff = cn_local (ch_commitment_numbers c)) InvalidState) (\<lambda>_.
      ensure (\<not> (remote < df_remote_at_send diff \<or> remote > saturating_add (df_remote_at_send diff) 1)) InvalidState)))"

definition should_replay_external_funding_commitment_on_reestablish :: "channel \<Rightarrow> bool" where
  "should_replay_external_funding_commitment_on_reestablish c \<longleftrightarrow> ef_enabled (ch_external_funding c) \<and> ef_signed_submitted (ch_external_funding c) \<and>
     (case ch_state c of AwaitingTxSignatures _ \<Rightarrow> True | _ \<Rightarrow> False)"

definition external_funding_waiting_submit :: "channel \<Rightarrow> bool" where
  "external_funding_waiting_submit c \<longleftrightarrow> ef_enabled (ch_external_funding c) \<and> \<not> ef_signed_submitted (ch_external_funding c) \<and>
     (is_awaiting_external_funding (ch_state c) \<or> (case ch_state c of SigningCommitment flags \<Rightarrow> flags AND COMMITMENT_SIGNED_SENT \<noteq> 0 | _ \<Rightarrow> False))"

definition external_funding_submitted_in_flight :: "channel \<Rightarrow> bool" where
  "external_funding_submitted_in_flight c \<longleftrightarrow> ef_enabled (ch_external_funding c) \<and> ef_signed_submitted (ch_external_funding c) \<and>
     (case ch_state c of CollaboratingFundingTx _ \<Rightarrow> True | SigningCommitment _ \<Rightarrow> True | _ \<Rightarrow> False)"

section \<open>Sending again\<close>

fun replay_update :: "tlc_replay_update \<Rightarrow> reest_effect" where
  "replay_update (ReplayAdd m) = ReAddTlc m"
| "replay_update (ReplayRemove m) = ReRemoveTlc m"

definition resend_commitment_from_diff :: "reest_env \<Rightarrow> commit_diff \<Rightarrow> reest_node \<Rightarrow> reest_result" where
  "resend_commitment_from_diff E diff n =
     (let updates = map replay_update (df_replay_updates diff);
          nonce = (case df_template diff of Some t \<Rightarrow> tp_next_commitment_nonce t | None \<Rightarrow> re_next_commitment_nonce E (rn_channel n))
      in case (case Option.bind (df_template diff) tp_partial_signature of Some s \<Rightarrow> Ok s | None \<Rightarrow> re_sign_commitment E (rn_channel n) (df_commit_tx diff)) of
           Ok signature \<Rightarrow> (n, updates @ [ReCommitmentSigned signature nonce], Ok ())
         | Err e \<Rightarrow> (n, updates, Err e)
         | Panic \<Rightarrow> (n, updates, Panic))"

definition resend_revoke_and_ack :: "reest_env \<Rightarrow> reest_node \<Rightarrow> reest_result" where
  "resend_revoke_and_ack E n = (case send_revoke_and_ack_message (re_tx E) (rn_channel n) True of
      Ok (msg, c) \<Rightarrow> (n\<lparr>rn_channel := c\<rparr>, [ReRevokeAndAck msg], Ok ())
    | Err e \<Rightarrow> (n, [], Err e)
    | Panic \<Rightarrow> (n, [], Panic))"

definition resent_tlc :: "hash256 \<Rightarrow> tlc_info \<Rightarrow> reest_effect list chan_res" where
  "resent_tlc channel_id t =
     bind_res (if is_offered t then bind_res (outbound_status t) (\<lambda>st. Ok (st = LocalAnnounced)) else Ok False) (\<lambda>announced.
     if announced
     then Ok [ReAddTlc \<lparr>am_channel_id = channel_id, am_tlc_id = tlc_id_u64 (ti_tlc_id t), am_amount = ti_amount t, am_payment_hash = ti_payment_hash t,
       am_expiry = ti_expiry t, am_hash_algorithm = ti_hash_algorithm t, am_onion_packet = ti_onion_packet t\<rparr>]
     else case ti_removed_reason t of None \<Rightarrow> Ok [] | Some reason \<Rightarrow>
       bind_res (if is_received t then bind_res (inbound_status t) (\<lambda>st. Ok (st = LocalRemoved)) else Ok False) (\<lambda>removed.
       Ok (if removed then [ReRemoveTlc \<lparr>rm_channel_id = channel_id, rm_tlc_id = tlc_id_u64 (ti_tlc_id t), rm_reason = reason\<rparr>] else [])))"

definition resend_tlcs_on_reestablish :: "bool \<Rightarrow> reest_node \<Rightarrow> reest_result" where
  "resend_tlcs_on_reestablish send_commitment_signed n =
     (let c = rn_channel n in
      case bind_res (traverse_res (resent_tlc (ch_id c)) (all_tlcs (ch_tlc_state c))) (\<lambda>lists. let updates = concat lists in
           bind_res (if \<not> send_commitment_signed then Ok False else if updates \<noteq> [] then Ok True else need_another_commitment_signed (ch_tlc_state c)) (\<lambda>need.
           Ok (updates @ (if need then [CommandCommitmentSigned] else [])))) of
        Ok es \<Rightarrow> (n, es, Ok ()) | Err e \<Rightarrow> (n, [], Err e) | Panic \<Rightarrow> (n, [], Panic))"

section \<open>The handshake\<close>

definition send_reestablish_message :: "channel \<Rightarrow> reestablish_channel" where
  "send_reestablish_message c = \<lparr>rs_channel_id = ch_id c, rs_local = cn_local (ch_commitment_numbers c), rs_remote = cn_remote (ch_commitment_numbers c)\<rparr>"

definition mark_reestablishing_offline :: "channel \<Rightarrow> channel" where
  "mark_reestablishing_offline c = c\<lparr>ch_waiting_peer_response := None, ch_reestablishing := True, ch_reestablish_started_at := None, ch_connectivity_state := Offline\<rparr>"

definition refresh_peer_response_wait_v2_after_reestablish :: "u64 \<Rightarrow> channel \<Rightarrow> channel" where
  "refresh_peer_response_wait_v2_after_reestablish now c = (case ch_session_v2 c of None \<Rightarrow> c | Some s \<Rightarrow>
     c\<lparr>ch_waiting_peer_response := None, ch_session_v2 := Some (s\<lparr>
       sv_outgoing_wait := (if ack_peer_wait_v2 c \<noteq> None then map_option (\<lambda>_. now) (sv_outgoing_wait s) else sv_outgoing_wait s),
       sv_closing := (if close_peer_wait_v2 c \<noteq> None then map_option (\<lambda>cl. cl\<lparr>cl_peer_wait_started_at := now\<rparr>) (sv_closing s) else sv_closing s)\<rparr>)\<rparr>)"

definition on_reestablished_channel_ready :: "reest_env \<Rightarrow> reest_node \<Rightarrow> reest_result" where
  "on_reestablished_channel_ready E n = (case ch_funding_tx (rn_channel n) of
      None \<Rightarrow> (n, [], Ok ())
    | Some tx \<Rightarrow>
        (n\<lparr>rn_pending_ready := False, rn_channel := refresh_peer_response_wait_v2_after_reestablish (re_now E)
             ((rn_channel n)\<lparr>ch_reestablishing := False, ch_reestablish_started_at := None, ch_connectivity_state := Online\<rparr>)\<rparr>,
         [NotifyChannelOnline, NotifyChannelReady (ft_hash tx), OwnedChannelUpdated], Ok ()))"

definition channel_ready_gap :: "channel \<Rightarrow> reestablish_channel \<Rightarrow> bool" where
  "channel_ready_gap c msg \<longleftrightarrow> ch_state c = ChannelReady \<and> ch_funding_tx_confirmed_at c \<noteq> None \<and>
     cn_local (ch_commitment_numbers c) = INITIAL_COMMITMENT_NUMBER + 2 \<and> cn_remote (ch_commitment_numbers c) = INITIAL_COMMITMENT_NUMBER + 2 \<and>
     rs_local msg = INITIAL_COMMITMENT_NUMBER + 1 \<and> rs_remote msg = INITIAL_COMMITMENT_NUMBER + 1 \<and>
     \<not> ts_waiting_ack (ch_tlc_state c) \<and> all_tlcs (ch_tlc_state c) = []"

definition reestablish_ready :: "reest_env \<Rightarrow> reestablish_channel \<Rightarrow> commit_diff option \<Rightarrow> reest_node \<Rightarrow> reest_result" where
  "reestablish_ready E msg pending n =
     (let n = n\<lparr>rn_pending_ready := False, rn_channel := restore_missing_revocation_send_nonce ((rn_channel n)\<lparr>ch_waiting_peer_response := None\<rparr>)\<rparr>;
          c = rn_channel n;
          local = cn_local (ch_commitment_numbers c); remote = cn_remote (ch_commitment_numbers c);
          waiting = ts_waiting_ack (ch_tlc_state c);
          complete = (\<lambda>r. then_do r (on_reestablished_channel_ready E));
          resume = (\<lambda>n. n\<lparr>rn_pending_ready := True, rn_channel := (rn_channel n)\<lparr>ch_reestablishing := False\<rparr>\<rparr>);
          revoked = (\<lambda>b. set_channel (\<lambda>c. c\<lparr>ch_last_was_revoke := b\<rparr>));
          checked = (\<lambda>diff n. case validate_commit_diff_for_replay c msg diff of Ok _ \<Rightarrow> (n, [], Ok ()) | Err e \<Rightarrow> (n, [], Err e) | Panic \<Rightarrow> (n, [], Panic));
          unwait = (\<lambda>n. case set_waiting_ack (re_now E) (rn_channel n) False of Ok (_, c) \<Rightarrow> (n\<lparr>rn_channel := c\<rparr>, [], Ok ()) | Err e \<Rightarrow> (n, [], Err e) | Panic \<Rightarrow> (n, [], Panic))
      in
      if abs_diff (rs_local msg) remote > 1 \<or> abs_diff (rs_remote msg) local > 1 then (n, [], Err InvalidParameter)
      else if channel_ready_gap c msg then
        (case on_reestablished_channel_ready E n of (n, es, _) \<Rightarrow> (n, es @ [ReChannelReady], Ok ()))
      else if local = rs_remote msg \<and> remote = rs_local msg then
        (case (waiting, pending) of
           (True, Some diff) \<Rightarrow> then_do (then_do (checked diff n) (resend_commitment_from_diff E diff)) (\<lambda>n. (resume (revoked False n), [], Ok ()))
         | _ \<Rightarrow> complete (then_do (unwait n) (resend_tlcs_on_reestablish True)))
      else if (case checked_add (rs_local msg) 1 of Some next \<Rightarrow> remote = next | None \<Rightarrow> False) then
        complete (if waiting \<and> local = rs_remote msg
          then (case pending of
              Some diff \<Rightarrow> then_do (checked diff n) (\<lambda>n. let n = set_channel start_defer_peer_tlc_updates n in
                (case resolve_dual_owed_replay_order (df_order_hint diff) remote (df_remote_at_send diff) (ch_last_was_revoke (rn_channel n)) of
                   RevokeThenCommit \<Rightarrow> then_do (then_do (resend_revoke_and_ack E n) (resend_commitment_from_diff E diff)) (\<lambda>n. (revoked False n, [], Ok ()))
                 | CommitThenRevoke \<Rightarrow> then_do (resend_commitment_from_diff E diff n) (resend_revoke_and_ack E)))
            | None \<Rightarrow> then_do (then_do (resend_revoke_and_ack E n) unwait) (resend_tlcs_on_reestablish True))
          else resend_revoke_and_ack E n)
      else if waiting \<and> local = rs_remote msg then
        complete (case pending of
            Some diff \<Rightarrow> then_do (then_do (checked diff n) (resend_commitment_from_diff E diff)) (\<lambda>n. (revoked False n, [], Ok ()))
          | None \<Rightarrow> resend_tlcs_on_reestablish True n)
      else (resume n, [], Ok ()))"

definition notify_funding_tx :: "channel \<Rightarrow> reest_effect list" where
  "notify_funding_tx c = (case ch_funding_tx c of None \<Rightarrow> [] | Some tx \<Rightarrow>
     if (case ch_state c of CollaboratingFundingTx _ \<Rightarrow> True | SigningCommitment _ \<Rightarrow> True | AwaitingTxSignatures _ \<Rightarrow> True
         | AwaitingChannelReady flags \<Rightarrow> \<not> contains flags OUR_CHANNEL_READY | _ \<Rightarrow> False)
     then [NotifyFundingTx tx] else [])"

definition replay_tx_update :: "reest_node \<Rightarrow> reest_result" where
  "replay_tx_update n = (let c = rn_channel n in
     if ef_signed_submitted (ch_external_funding c) \<and> \<not> ch_is_acceptor c \<and> ch_latest_commitment_transaction c \<noteq> None \<and>
        (case ch_state c of SigningCommitment _ \<Rightarrow> True | AwaitingTxSignatures _ \<Rightarrow> True | _ \<Rightarrow> False)
     then (case ch_funding_tx c of Some tx \<Rightarrow> (n, [ReTxUpdate tx], Ok ()) | None \<Rightarrow> (n, [], Panic))
     else (n, [], Ok ()))"

definition replay_external_commitment :: "reest_env \<Rightarrow> commit_diff option \<Rightarrow> reest_node \<Rightarrow> reest_result" where
  "replay_external_commitment E pending n = (case pending of
      None \<Rightarrow> (n, [], Ok ())
    | Some diff \<Rightarrow> (case validate_external_funding_commit_diff_for_replay (rn_channel n) diff of
          Ok _ \<Rightarrow> resend_commitment_from_diff E diff n | Err e \<Rightarrow> (n, [], Err e) | Panic \<Rightarrow> (n, [], Panic)))"

text \<open>
  The whole handler. Resuming the funding workflow and exchanging the signatures of the funding transaction continue outside of it and are
  effects here. After a passed audit the source calls the handler again on the channel that became ready; none of the checks on channels in funding applies to it.
\<close>

definition handle_reestablish_channel_message :: "reest_env \<Rightarrow> reestablish_channel \<Rightarrow> commit_diff option \<Rightarrow> reest_node \<Rightarrow> reest_result" where
  "handle_reestablish_channel_message E msg pending n =
     (let n = set_channel (\<lambda>c. c\<lparr>ch_reestablish_started_at := None\<rparr>) n;
          c = rn_channel n;
          restart = n\<lparr>rn_pending_ready := False, rn_channel := c\<lparr>ch_waiting_peer_response := None, ch_reestablishing := False\<rparr>\<rparr>
      in then_do (then_do (n, notify_funding_tx c, Ok ()) replay_tx_update) (\<lambda>n.
      if external_funding_waiting_submit c then
        (if (case ch_state c of SigningCommitment flags \<Rightarrow> contains flags OUR_COMMITMENT_SIGNED_SENT | _ \<Rightarrow> False)
         then replay_external_commitment E pending restart else (restart, [], Ok ()))
      else if external_funding_submitted_in_flight c then
        (case ch_state c of
           SigningCommitment flags \<Rightarrow>
             if contains flags THEIR_COMMITMENT_SIGNED_SENT \<and> \<not> contains flags OUR_COMMITMENT_SIGNED_SENT then (restart, [CommandCommitmentSigned], Ok ())
             else if contains flags OUR_COMMITMENT_SIGNED_SENT \<and> \<not> contains flags THEIR_COMMITMENT_SIGNED_SENT then replay_external_commitment E pending restart
             else if contains flags COMMITMENT_SIGNED_SENT then (restart, [StepTxSignatures], Ok ())
             else (restart, [], Ok ())
         | _ \<Rightarrow> (restart, [], Ok ()))
      else case ch_state c of
        NegotiatingFunding _ \<Rightarrow> (n, [AbortFunding], Ok ())
      | CollaboratingFundingTx _ \<Rightarrow> (n, [AbortFunding], Ok ())
      | SigningCommitment _ \<Rightarrow> (n, [AbortFunding], Ok ())
      | AwaitingTxSignatures _ \<Rightarrow>
          then_do (then_do (if should_replay_external_funding_commitment_on_reestablish c then replay_external_commitment E pending n else (n, [], Ok ()))
            (on_reestablished_channel_ready E)) (\<lambda>n. (n, [ResumeFunding], Ok ()))
      | AwaitingChannelReady _ \<Rightarrow> then_do (on_reestablished_channel_ready E n) (\<lambda>n. (n, [ResumeFunding], Ok ()))
      | ChannelReady \<Rightarrow> reestablish_ready E msg pending n
      | Stale \<Rightarrow>
          if abs_diff (rs_local msg) (cn_remote (ch_commitment_numbers c)) > 1 \<or> abs_diff (rs_remote msg) (cn_local (ch_commitment_numbers c)) > 1
          then (n, [], Err InvalidParameter)
          else reestablish_ready E msg pending (set_channel (\<lambda>c. update_state c ChannelReady) n)
      | ShuttingDown flags \<Rightarrow>
          (case step_shutting_down (re_close E) c flags of (c', es, r) \<Rightarrow>
             (n\<lparr>rn_channel := c'\<rparr>,
              (if contains flags THEIR_SHUTDOWN_SENT then [] else [ReShutdown (ch_local_shutdown_script c) (ch_commitment_fee_rate c)]) @ map CloseEffect es, r))
      | Closed _ \<Rightarrow> (n, if has_pending_tlc_delivery c then [] else [StopClosed], Ok ())))"

text \<open>What a commitment leaves behind for a reconnect, and the note that an acknowledgement was sent after it.\<close>

definition commit_diff_of :: "channel \<Rightarrow> commitment_tx \<Rightarrow> bytes \<Rightarrow> pub_nonce \<Rightarrow> commit_diff" where
  "commit_diff_of c tx signature nonce =
     \<lparr>df_channel_id = ch_id c, df_local_at_send = cn_local (ch_commitment_numbers c), df_remote_at_send = cn_remote (ch_commitment_numbers c),
      df_commit_tx = tx, df_replay_updates = ch_pending_replay_updates c,
      df_template = Some \<lparr>tp_next_commitment_nonce = nonce, tp_partial_signature = Some signature\<rparr>, df_order_hint = Some RevokeThenCommit\<rparr>"

definition set_pending_commit_diff_replay_order_hint :: "replay_order_hint \<Rightarrow> commit_diff option \<Rightarrow> commit_diff option" where
  "set_pending_commit_diff_replay_order_hint hint = map_option (\<lambda>diff. diff\<lparr>df_order_hint := Some hint\<rparr>)"

section \<open>Two parties, broken connections\<close>

record party =
  pa_channel :: channel
  pa_diff :: "commit_diff option"

text \<open>The handler that announces updates also signs them, or they wait for the next commitment; so updates are counted with the commitment that covers them.\<close>

datatype wire = WCommit "tlc_replay_update list" bytes pub_nonce | WAck revoke_and_ack

text \<open>What the rest of a handler keeps of a channel: everything the handshake rests on.\<close>

definition same_session :: "channel \<Rightarrow> channel \<Rightarrow> bool" where
  "same_session c c' \<longleftrightarrow> ch_id c' = ch_id c \<and> ch_state c' = ch_state c \<and> ch_commitment_numbers c' = ch_commitment_numbers c \<and>
     ts_waiting_ack (ch_tlc_state c') = ts_waiting_ack (ch_tlc_state c) \<and> ch_last_was_revoke c' = ch_last_was_revoke c \<and>
     ch_last_revoke_ack_msg c' = ch_last_revoke_ack_msg c \<and> wf_tlc_state (ch_tlc_state c') \<and>
     (\<forall>u \<in> set (ch_pending_replay_updates c'). update_channel_id u = ch_id c)"

inductive party_move :: "tx_env \<Rightarrow> party \<Rightarrow> wire option \<Rightarrow> wire list \<Rightarrow> party \<Rightarrow> bool" for E where
  sign: "\<not> ts_waiting_ack (ch_tlc_state c) \<Longrightarrow>
     set_waiting_ack now (c\<lparr>ch_pending_replay_updates := [], ch_last_was_revoke := False\<rparr>) True = Ok (delay, c') \<Longrightarrow>
     party_move E \<lparr>pa_channel = c, pa_diff = d\<rparr> None [WCommit (ch_pending_replay_updates c) signature nonce]
       \<lparr>pa_channel = c', pa_diff = Some (commit_diff_of c tx signature nonce)\<rparr>"
| recv_commit: "ch_remote_revocation_nonce_for_send c \<noteq> None \<Longrightarrow> send_revoke_and_ack_message E c False = Ok (ack, c1) \<Longrightarrow> same_session c1 c' \<Longrightarrow>
     party_move E \<lparr>pa_channel = c, pa_diff = d\<rparr> (Some (WCommit updates signature nonce)) [WAck ack]
       \<lparr>pa_channel = c', pa_diff = (if ts_waiting_ack (ch_tlc_state c) then set_pending_commit_diff_replay_order_hint CommitThenRevoke d else d)\<rparr>"
| recv_ack: "handle_revoke_and_ack_peer_message E now c msg = Ok (revocation, data, c1) \<Longrightarrow> same_session c1 c' \<Longrightarrow>
     party_move E \<lparr>pa_channel = c, pa_diff = d\<rparr> (Some (WAck msg)) [] \<lparr>pa_channel = c', pa_diff = d\<rparr>"
| other: "same_session c c' \<Longrightarrow> party_move E \<lparr>pa_channel = c, pa_diff = d\<rparr> None [] \<lparr>pa_channel = c', pa_diff = d\<rparr>"

fun rounds :: "tlc_replay_update list \<Rightarrow> reest_effect list \<Rightarrow> wire list" where
  "rounds us [] = []"
| "rounds us (ReAddTlc m # es) = rounds (us @ [ReplayAdd m]) es"
| "rounds us (ReRemoveTlc m # es) = rounds (us @ [ReplayRemove m]) es"
| "rounds us (ReCommitmentSigned signature nonce # es) = WCommit us signature nonce # rounds [] es"
| "rounds us (ReRevokeAndAck ack # es) = WAck ack # rounds us es"
| "rounds us (_ # es) = rounds us es"

record session =
  ss_a :: party
  ss_b :: party
  ss_ab :: "wire list"
  ss_ba :: "wire list"

definition swap_session :: "session \<Rightarrow> session" where
  "swap_session s = \<lparr>ss_a = ss_b s, ss_b = ss_a s, ss_ab = ss_ba s, ss_ba = ss_ab s\<rparr>"

text \<open>What a party does when the peer's message arrives after the connection was lost.\<close>

definition reconnects :: "reest_env \<Rightarrow> party \<Rightarrow> party \<Rightarrow> reest_result" where
  "reconnects E p peer = handle_reestablish_channel_message E (send_reestablish_message (pa_channel peer)) (pa_diff p)
     \<lparr>rn_channel = mark_reestablishing_offline (pa_channel p), rn_pending_ready = False\<rparr>"

text \<open>
  Messages of a party arrive in order or not at all. When the connection breaks, both links lose what they hold; each party then announces the
  numbers it has, and replays what it finds missing. A party handles nothing else before the announcement of its peer, and its own
  commands are refused until then, so both answer from the states in which the connection broke.
\<close>

inductive session_step :: "tx_env \<Rightarrow> tx_env \<Rightarrow> session \<Rightarrow> session \<Rightarrow> bool" for EA EB where
  local_a: "party_move EA (ss_a s) None out p \<Longrightarrow> session_step EA EB s (s\<lparr>ss_a := p, ss_ab := ss_ab s @ out\<rparr>)"
| local_b: "party_move EB (ss_b s) None out p \<Longrightarrow> session_step EA EB s (s\<lparr>ss_b := p, ss_ba := ss_ba s @ out\<rparr>)"
| deliver_a: "ss_ba s = m # q \<Longrightarrow> party_move EA (ss_a s) (Some m) out p \<Longrightarrow> session_step EA EB s (s\<lparr>ss_a := p, ss_ab := ss_ab s @ out, ss_ba := q\<rparr>)"
| deliver_b: "ss_ab s = m # q \<Longrightarrow> party_move EB (ss_b s) (Some m) out p \<Longrightarrow> session_step EA EB s (s\<lparr>ss_b := p, ss_ba := ss_ba s @ out, ss_ab := q\<rparr>)"
| reconnect: "re_tx RA = EA \<Longrightarrow> re_tx RB = EB \<Longrightarrow> reconnects RA (ss_a s) (ss_b s) = (na, es, Ok ()) \<Longrightarrow> reconnects RB (ss_b s) (ss_a s) = (nb, fs, Ok ()) \<Longrightarrow>
     session_step EA EB s \<lparr>ss_a = (ss_a s)\<lparr>pa_channel := rn_channel na\<rparr>, ss_b = (ss_b s)\<lparr>pa_channel := rn_channel nb\<rparr>, ss_ab = rounds [] es, ss_ba = rounds [] fs\<rparr>"

section \<open>What is owed\<close>

abbreviation local_of :: "party \<Rightarrow> u64" where "local_of p \<equiv> cn_local (ch_commitment_numbers (pa_channel p))"
abbreviation remote_of :: "party \<Rightarrow> u64" where "remote_of p \<equiv> cn_remote (ch_commitment_numbers (pa_channel p))"
abbreviation waits :: "party \<Rightarrow> bool" where "waits p \<equiv> ts_waiting_ack (ch_tlc_state (pa_channel p))"

definition ahead :: "u64 \<Rightarrow> u64 \<Rightarrow> bool" where
  "ahead a b \<longleftrightarrow> unat a = unat b + 1"

definition wire_of :: "commit_diff \<Rightarrow> wire option" where
  "wire_of diff = Option.bind (df_template diff) (\<lambda>t. map_option (\<lambda>s. WCommit (df_replay_updates diff) s (tp_next_commitment_nonce t)) (tp_partial_signature t))"

text \<open>An acknowledgement is owed while the peer has not counted it, a commitment while the peer has not acknowledged it.\<close>

definition ack_owed :: "party \<Rightarrow> party \<Rightarrow> wire list" where
  "ack_owed p peer = (if ahead (remote_of p) (local_of peer) then map WAck (case ch_last_revoke_ack_msg (pa_channel p) of Some m \<Rightarrow> [m] | None \<Rightarrow> []) else [])"

definition commit_open :: "party \<Rightarrow> party \<Rightarrow> bool" where
  "commit_open p peer \<longleftrightarrow> waits p \<and> remote_of peer = local_of p"

definition commit_owed :: "party \<Rightarrow> party \<Rightarrow> wire list" where
  "commit_owed p peer = (if commit_open p peer then (case Option.bind (pa_diff p) wire_of of Some w \<Rightarrow> [w] | None \<Rightarrow> []) else [])"

definition commit_first :: "party \<Rightarrow> bool" where
  "commit_first p \<longleftrightarrow> (case pa_diff p of Some diff \<Rightarrow> ahead (remote_of p) (df_remote_at_send diff) | None \<Rightarrow> False)"

definition owed :: "party \<Rightarrow> party \<Rightarrow> wire list" where
  "owed p peer = (if commit_first p then commit_owed p peer @ ack_owed p peer else ack_owed p peer @ commit_owed p peer)"

definition diff_ok :: "party \<Rightarrow> bool" where
  "diff_ok p \<longleftrightarrow> (\<exists>diff w. pa_diff p = Some diff \<and> wire_of diff = Some w \<and> df_channel_id diff = ch_id (pa_channel p) \<and> df_local_at_send diff = local_of p \<and>
     (\<forall>u \<in> set (df_replay_updates diff). update_channel_id u = ch_id (pa_channel p)) \<and>
     (ahead (remote_of p) (df_remote_at_send diff) \<or>
      df_remote_at_send diff = remote_of p \<and> df_order_hint diff = Some RevokeThenCommit \<and> \<not> ch_last_was_revoke (pa_channel p)))"

definition party_ok :: "party \<Rightarrow> party \<Rightarrow> bool" where
  "party_ok p peer \<longleftrightarrow> ch_state (pa_channel p) = ChannelReady \<and> ch_id (pa_channel p) = ch_id (pa_channel peer) \<and> wf_tlc_state (ch_tlc_state (pa_channel p)) \<and>
     (\<forall>u \<in> set (ch_pending_replay_updates (pa_channel p)). update_channel_id u = ch_id (pa_channel p)) \<and>
     (remote_of p = local_of peer \<or> ahead (remote_of p) (local_of peer) \<and> waits peer \<and> ch_last_revoke_ack_msg (pa_channel p) \<noteq> None) \<and>
     (commit_open p peer \<longrightarrow> diff_ok p \<and> (commit_first p \<longrightarrow> ahead (remote_of p) (local_of peer)))"

definition session_inv :: "session \<Rightarrow> bool" where
  "session_inv s \<longleftrightarrow> party_ok (ss_a s) (ss_b s) \<and> party_ok (ss_b s) (ss_a s) \<and> ss_ab s = owed (ss_a s) (ss_b s) \<and> ss_ba s = owed (ss_b s) (ss_a s)"

lemma swap_session_simps [simp]: "swap_session (swap_session s) = s" "session_inv (swap_session s) = session_inv s"
  by (auto simp: swap_session_def session_inv_def)

lemma ahead_irrefl [simp]: "\<not> ahead a a"
  by (simp add: ahead_def)

lemma ahead_greater: "ahead a b \<Longrightarrow> b < a"
  by (simp add: ahead_def word_less_nat_alt)

lemma ahead_neq: "ahead a b \<Longrightarrow> a \<noteq> b" "ahead a b \<Longrightarrow> \<not> ahead b a"
  by (auto simp: ahead_def)

section \<open>One step at a time\<close>

lemma acknowledged:
  assumes "send_revoke_and_ack_message E c False = Ok (ack, c1)" and "ch_remote_revocation_nonce_for_send c \<noteq> None"
  shows "ch_id c1 = ch_id c" "ch_state c1 = ch_state c" "cn_local (ch_commitment_numbers c1) = cn_local (ch_commitment_numbers c)"
    "ahead (cn_remote (ch_commitment_numbers c1)) (cn_remote (ch_commitment_numbers c))" "ts_waiting_ack (ch_tlc_state c1) = ts_waiting_ack (ch_tlc_state c)"
    "ch_last_was_revoke c1" "ch_last_revoke_ack_msg c1 = Some ack"
  using assms
  by (auto simp: send_revoke_and_ack_message_def Let_def bind_res_eq_Ok increment_remote_def rust_arith ahead_def rotate_nonces_after_send_def split: if_splits)

lemma point_frame [simp]:
  "ch_id (append_remote_commitment_point c p) = ch_id c" "ch_state (append_remote_commitment_point c p) = ch_state c"
  "ch_commitment_numbers (append_remote_commitment_point c p) = ch_commitment_numbers c" "ch_last_was_revoke (append_remote_commitment_point c p) = ch_last_was_revoke c"
  by (simp_all add: append_remote_commitment_point_def prune_remote_commitment_points_def Let_def)

lemma acknowledgement_taken:
  assumes "handle_revoke_and_ack_peer_message E now c msg = Ok (revocation, data, c1)"
  shows "ts_waiting_ack (ch_tlc_state c)" "ch_id c1 = ch_id c" "ch_state c1 = ch_state c" "ahead (cn_local (ch_commitment_numbers c1)) (cn_local (ch_commitment_numbers c))"
    "cn_remote (ch_commitment_numbers c1) = cn_remote (ch_commitment_numbers c)" "\<not> ts_waiting_ack (ch_tlc_state c1)"
    "ch_last_was_revoke c1 = ch_last_was_revoke c" "ch_last_revoke_ack_msg c1 = ch_last_revoke_ack_msg c"
proof -
  from assms obtain ns ts x c2 where waiting: "ts_waiting_ack (ch_tlc_state c)" and ns: "increment_local (ch_commitment_numbers c) = (Ok ns :: commitment_numbers chan_res)"
    and w: "set_waiting_ack now ((append_remote_commitment_point (c\<lparr>ch_commitment_numbers := ns\<rparr>) (ra_next_point msg))\<lparr>ch_tlc_state := ts\<rparr>) False = Ok (x, c2)"
    and c1: "c1 = rotate_nonces_after_receive (ra_next_nonce msg) c2"
    unfolding handle_revoke_and_ack_peer_message_def by (auto simp: Let_def ensure_eq_Ok)
  have "ch_commitment_numbers c2 = ns" "\<not> ts_waiting_ack (ch_tlc_state c2)" "ch_id c2 = ch_id c" "ch_state c2 = ch_state c" "ch_last_was_revoke c2 = ch_last_was_revoke c"
    "ch_last_revoke_ack_msg c2 = ch_last_revoke_ack_msg c"
    using w by (auto simp: set_waiting_ack_def set_waiting_ack_flag_def set_tlc_state_def Let_def)
  moreover have "ahead (cn_local ns) (cn_local (ch_commitment_numbers c))" "cn_remote ns = cn_remote (ch_commitment_numbers c)"
    using ns by (auto simp: increment_local_def bind_res_eq_Ok rust_arith ahead_def)
  ultimately show "ts_waiting_ack (ch_tlc_state c)" "ch_id c1 = ch_id c" "ch_state c1 = ch_state c" "ahead (cn_local (ch_commitment_numbers c1)) (cn_local (ch_commitment_numbers c))"
    "cn_remote (ch_commitment_numbers c1) = cn_remote (ch_commitment_numbers c)" "\<not> ts_waiting_ack (ch_tlc_state c1)"
    "ch_last_was_revoke c1 = ch_last_was_revoke c" "ch_last_revoke_ack_msg c1 = ch_last_revoke_ack_msg c"
    using waiting by (auto simp: c1 rotate_nonces_after_receive_def Let_def)
qed

lemma signed:
  assumes "set_waiting_ack now (c\<lparr>ch_pending_replay_updates := [], ch_last_was_revoke := False\<rparr>) True = Ok (delay, c')"
  shows "ch_id c' = ch_id c" "ch_state c' = ch_state c" "ch_commitment_numbers c' = ch_commitment_numbers c" "ts_waiting_ack (ch_tlc_state c')"
    "\<not> ch_last_was_revoke c'" "ch_last_revoke_ack_msg c' = ch_last_revoke_ack_msg c" "wf_tlc_state (ch_tlc_state c') = wf_tlc_state (ch_tlc_state c)"
    "ch_pending_replay_updates c' = []"
  using assms by (auto simp: set_waiting_ack_def set_waiting_ack_flag_def set_tlc_state_def Let_def bind_res_eq_Ok wf_tlc_state_def split: option.splits)

lemmas party_view = party_ok_def owed_def ack_owed_def commit_owed_def commit_open_def commit_first_def

lemma wire_of_commit [simp]: "wire_of diff \<noteq> Some (WAck m)"
  by (auto simp: wire_of_def split: Option.bind_splits)

lemma other_keeps:
  assumes "same_session c c'" and "party_ok \<lparr>pa_channel = c, pa_diff = d\<rparr> peer" and "party_ok peer \<lparr>pa_channel = c, pa_diff = d\<rparr>"
  defines "p \<equiv> \<lparr>pa_channel = c, pa_diff = d\<rparr>" and "p' \<equiv> \<lparr>pa_channel = c', pa_diff = d\<rparr>"
  shows "party_ok p' peer \<and> party_ok peer p' \<and> owed p' peer = owed p peer \<and> owed peer p' = owed peer p"
proof -
  have c': "ch_id c' = ch_id c" "ch_state c' = ch_state c" "ch_commitment_numbers c' = ch_commitment_numbers c"
    "ts_waiting_ack (ch_tlc_state c') = ts_waiting_ack (ch_tlc_state c)" "ch_last_was_revoke c' = ch_last_was_revoke c"
    "ch_last_revoke_ack_msg c' = ch_last_revoke_ack_msg c" "wf_tlc_state (ch_tlc_state c')" "\<forall>u \<in> set (ch_pending_replay_updates c'). update_channel_id u = ch_id c"
    using assms(1) by (simp_all add: same_session_def)
  have same: "diff_ok p' = diff_ok p" "commit_first p' = commit_first p" "commit_open p' peer = commit_open p peer" "commit_open peer p' = commit_open peer p"
    "ack_owed p' peer = ack_owed p peer" "ack_owed peer p' = ack_owed peer p"
    by (simp_all add: p_def p'_def diff_ok_def commit_first_def commit_open_def ack_owed_def c' split: option.split)
  then have "owed p' peer = owed p peer" "owed peer p' = owed peer p" by (simp_all add: owed_def commit_owed_def p_def p'_def)
  moreover have "party_ok p' peer" "party_ok peer p'"
    using assms(2,3) same c' unfolding party_ok_def p_def [symmetric] by (simp_all add: p_def p'_def)
  ultimately show ?thesis by blast
qed

lemma sign_keeps:
  fixes tx signature nonce
  assumes "\<not> ts_waiting_ack (ch_tlc_state c)" and "set_waiting_ack now (c\<lparr>ch_pending_replay_updates := [], ch_last_was_revoke := False\<rparr>) True = Ok (delay, c')"
    and "party_ok \<lparr>pa_channel = c, pa_diff = d\<rparr> peer" and "party_ok peer \<lparr>pa_channel = c, pa_diff = d\<rparr>"
  defines "p \<equiv> \<lparr>pa_channel = c, pa_diff = d\<rparr>" and "p' \<equiv> \<lparr>pa_channel = c', pa_diff = Some (commit_diff_of c tx signature nonce)\<rparr>"
  shows "party_ok p' peer \<and> party_ok peer p' \<and> owed p' peer = owed p peer @ [WCommit (ch_pending_replay_updates c) signature nonce] \<and> owed peer p' = owed peer p"
proof -
  note c' = signed [OF assms(2)]
  have up: "remote_of peer = cn_local (ch_commitment_numbers c)" using assms(1,4) by (auto simp: party_ok_def)
  have wire: "wire_of (commit_diff_of c tx signature nonce) = Some (WCommit (ch_pending_replay_updates c) signature nonce)"
    by (simp add: wire_of_def commit_diff_of_def)
  have "party_ok p' peer"
    using assms(3) up c' wire by (simp add: p'_def party_view diff_ok_def) (simp add: commit_diff_of_def)
  moreover have "party_ok peer p'" using assms(4) c' up by (auto simp: p'_def party_view)
  moreover have "owed p' peer = owed p peer @ [WCommit (ch_pending_replay_updates c) signature nonce]"
    using up c' wire assms(1) by (simp add: p_def p'_def party_view) (simp add: commit_diff_of_def)
  moreover have "owed peer p' = owed peer p" using c' by (simp add: p_def p'_def party_view)
  ultimately show ?thesis by blast
qed

lemma recv_commit_keeps:
  fixes ack
  assumes "ch_remote_revocation_nonce_for_send c \<noteq> None" and "send_revoke_and_ack_message E c False = Ok (ack, c1)" and "same_session c1 c'"
    and "party_ok \<lparr>pa_channel = c, pa_diff = d\<rparr> peer" and "party_ok peer \<lparr>pa_channel = c, pa_diff = d\<rparr>"
    and "owed peer \<lparr>pa_channel = c, pa_diff = d\<rparr> = WCommit updates signature nonce # q"
  defines "p \<equiv> \<lparr>pa_channel = c, pa_diff = d\<rparr>"
    and "p' \<equiv> \<lparr>pa_channel = c', pa_diff = (if ts_waiting_ack (ch_tlc_state c) then set_pending_commit_diff_replay_order_hint CommitThenRevoke d else d)\<rparr>"
  shows "party_ok p' peer \<and> party_ok peer p' \<and> owed p' peer = owed p peer @ [WAck ack] \<and> owed peer p' = q"
proof -
  note sent = acknowledged [OF assms(2,1)]
  have c': "ch_id c' = ch_id c" "ch_state c' = ch_state c" "cn_local (ch_commitment_numbers c') = cn_local (ch_commitment_numbers c)"
    "ahead (cn_remote (ch_commitment_numbers c')) (cn_remote (ch_commitment_numbers c))" "ts_waiting_ack (ch_tlc_state c') = ts_waiting_ack (ch_tlc_state c)"
    "ch_last_revoke_ack_msg c' = Some ack" "wf_tlc_state (ch_tlc_state c')" "\<forall>u \<in> set (ch_pending_replay_updates c'). update_channel_id u = ch_id c"
    using sent assms(3) by (simp_all add: same_session_def)
  have open_peer: "waits peer" "cn_remote (ch_commitment_numbers c) = local_of peer" "commit_first peer \<or> \<not> ahead (remote_of peer) (cn_local (ch_commitment_numbers c))"
    using assms(6,5) by (auto simp: party_view split: if_splits option.splits)
  have "party_ok p' peer"
    using assms(4) open_peer c' 
    by (auto simp: p'_def party_view diff_ok_def set_pending_commit_diff_replay_order_hint_def wire_of_def ahead_neq split: option.splits)
  moreover have "party_ok peer p'" using assms(5) c' open_peer by (auto simp: p'_def party_view ahead_neq)
  moreover have "owed p' peer = owed p peer @ [WAck ack]"
    using assms(4) open_peer c'
    by (auto simp: p_def p'_def party_view diff_ok_def set_pending_commit_diff_replay_order_hint_def wire_of_def ahead_neq split: option.splits)
  moreover have "owed peer p' = q" using assms(6) c' open_peer by (auto simp: p_def p'_def party_view ahead_neq split: if_splits option.splits)
  ultimately show ?thesis by blast
qed

lemma recv_ack_keeps:
  assumes "handle_revoke_and_ack_peer_message E now c msg = Ok (revocation, data, c1)" and "same_session c1 c'"
    and "party_ok \<lparr>pa_channel = c, pa_diff = d\<rparr> peer" and "party_ok peer \<lparr>pa_channel = c, pa_diff = d\<rparr>"
    and "owed peer \<lparr>pa_channel = c, pa_diff = d\<rparr> = WAck msg # q"
  defines "p \<equiv> \<lparr>pa_channel = c, pa_diff = d\<rparr>" and "p' \<equiv> \<lparr>pa_channel = c', pa_diff = d\<rparr>"
  shows "party_ok p' peer \<and> party_ok peer p' \<and> owed p' peer = owed p peer \<and> owed peer p' = q"
proof -
  note took = acknowledgement_taken [OF assms(1)]
  have c': "ch_id c' = ch_id c" "ch_state c' = ch_state c" "ahead (cn_local (ch_commitment_numbers c')) (cn_local (ch_commitment_numbers c))"
    "cn_remote (ch_commitment_numbers c') = cn_remote (ch_commitment_numbers c)" "\<not> ts_waiting_ack (ch_tlc_state c')"
    "ch_last_revoke_ack_msg c' = ch_last_revoke_ack_msg c" "wf_tlc_state (ch_tlc_state c')" "\<forall>u \<in> set (ch_pending_replay_updates c'). update_channel_id u = ch_id c"
    using took assms(2) by (simp_all add: same_session_def)
  have ack_peer: "ahead (remote_of peer) (cn_local (ch_commitment_numbers c))" "commit_open peer p \<Longrightarrow> \<not> commit_first peer" "ts_waiting_ack (ch_tlc_state c)"
    using assms(4,5) took(1) by (auto simp: p_def party_view diff_ok_def split: if_splits option.splits Option.bind_splits)
  have "remote_of peer = cn_local (ch_commitment_numbers c')" using ack_peer(1) c'(3) by (simp add: ahead_def word_unat_eq_iff)
  then show ?thesis using assms(3,4,5) c' ack_peer by (auto simp: p_def p'_def party_view diff_ok_def split: if_splits option.splits)
qed

section \<open>What the handler replays\<close>

lemma rounds_updates: "rounds us (map replay_update upd @ es) = rounds (us @ upd) es"
proof (induction upd arbitrary: us)
  case (Cons u upd)
  then show ?case by (cases u) simp_all
qed simp

fun quiet :: "reest_effect \<Rightarrow> bool" where
  "quiet (ReCommitmentSigned _ _) = False"
| "quiet (ReRevokeAndAck _) = False"
| "quiet _ = True"

lemma rounds_quiet: "list_all quiet es \<Longrightarrow> rounds us es = []"
  by (induction us es rule: rounds.induct) simp_all

text \<open>What a replay leaves of the channel.\<close>

definition replayed :: "bool \<Rightarrow> channel \<Rightarrow> channel \<Rightarrow> bool" where
  "replayed b c c' \<longleftrightarrow> ch_id c' = ch_id c \<and> ch_state c' = ch_state c \<and> ch_commitment_numbers c' = ch_commitment_numbers c \<and> ch_tlc_state c' = ch_tlc_state c \<and>
     ch_last_revoke_ack_msg c' = ch_last_revoke_ack_msg c \<and> ch_pending_replay_updates c' = ch_pending_replay_updates c \<and> ch_last_was_revoke c' = b"

lemma replayed_frame [simp]:
  "replayed b (restore_missing_revocation_send_nonce c) c' = replayed b c c'" "replayed b (c\<lparr>ch_waiting_peer_response := x\<rparr>) c' = replayed b c c'"
  "replayed b c (restore_missing_revocation_send_nonce c') = replayed b c c'" "replayed b c (c'\<lparr>ch_waiting_peer_response := x\<rparr>) = replayed b c c'"
  "replayed b (mark_reestablishing_offline c) c' = replayed b c c'" "replayed b (c\<lparr>ch_reestablish_started_at := y\<rparr>) c' = replayed b c c'"
  "replayed b c (c'\<lparr>ch_reestablishing := r\<rparr>) = replayed b c c'"  "replayed b c (start_defer_peer_tlc_updates c') = replayed b c c'"
  by (auto simp: replayed_def restore_missing_revocation_send_nonce_def mark_reestablishing_offline_def start_defer_peer_tlc_updates_def split: option.split)

lemma restore_frame [simp]:
  "ch_commitment_numbers (restore_missing_revocation_send_nonce c) = ch_commitment_numbers c" "ch_tlc_state (restore_missing_revocation_send_nonce c) = ch_tlc_state c"
  "ch_state (restore_missing_revocation_send_nonce c) = ch_state c" "ch_id (restore_missing_revocation_send_nonce c) = ch_id c"
  "ch_last_was_revoke (restore_missing_revocation_send_nonce c) = ch_last_was_revoke c" "ch_last_revoke_ack_msg (restore_missing_revocation_send_nonce c) = ch_last_revoke_ack_msg c"
  "ch_pending_replay_updates (restore_missing_revocation_send_nonce c) = ch_pending_replay_updates c"
  by (auto simp: restore_missing_revocation_send_nonce_def split: option.split)

text \<open>Telling the network that the channel is ready changes nothing a replay rests on.\<close>

lemma then_do_Ok [simp]: "then_do (n, es, Ok u) f = (case f n of (n, es', r) \<Rightarrow> (n, es @ es', r))"
  by (simp add: then_do_def)

lemma ready_announced: "\<exists>n' es. on_reestablished_channel_ready E n = (n', es, Ok ()) \<and> list_all quiet es \<and> replayed (ch_last_was_revoke (rn_channel n)) (rn_channel n) (rn_channel n')"
  by (auto simp: on_reestablished_channel_ready_def refresh_peer_response_wait_v2_after_reestablish_def replayed_def split: option.split)

lemma replayed_trans: "replayed b c d \<Longrightarrow> replayed (ch_last_was_revoke d) d e \<Longrightarrow> replayed b c e"
  by (simp add: replayed_def)

lemma complete_keeps:
  assumes "r = (n, es, Ok ())" and "replayed b c (rn_channel n)"
  shows "\<exists>n' fs. then_do r (on_reestablished_channel_ready E) = (n', es @ fs, Ok ()) \<and> list_all quiet fs \<and> replayed b c (rn_channel n')"
  using ready_announced [of E n] replayed_trans [OF assms(2)] by (auto simp: assms(1))

lemma resend_ack:
  assumes "ch_last_revoke_ack_msg (rn_channel n) = Some m"
  shows "resend_revoke_and_ack E n = (set_channel (\<lambda>c. c\<lparr>ch_last_was_revoke := True\<rparr>) n, [ReRevokeAndAck m], Ok ())"
  using assms by (simp add: resend_revoke_and_ack_def send_revoke_and_ack_message_def set_channel_def)

lemma resend_tlcs:
  assumes "wf_tlc_state (ch_tlc_state (rn_channel n))"
  shows "\<exists>es. resend_tlcs_on_reestablish True n = (n, es, Ok ()) \<and> list_all quiet es"
proof -
  let ?c = "rn_channel n"
  have one: "\<exists>es. resent_tlc (ch_id ?c) t = Ok es \<and> list_all quiet es" if "t \<in> set (all_tlcs (ch_tlc_state ?c))" for t
  proof -
    have "wf_offered t \<or> wf_received t" using that wf_offered_list [OF assms] wf_received_list [OF assms] by (auto simp: all_tlcs_def)
    then show ?thesis
    proof
      assume "wf_offered t"
      then obtain st where "ti_status t = Outbound st" "is_offered_id (ti_tlc_id t)" by (auto simp: wf_offered_def split: tlc_status.splits)
      then show ?thesis
        by (cases "st = LocalAnnounced"; cases "ti_removed_reason t")
          (simp_all add: resent_tlc_def is_offered_def is_received_def outbound_status_def del: bind_res_eq_Ok)
    next
      assume "wf_received t"
      then obtain st where "ti_status t = Inbound st" "\<not> is_offered_id (ti_tlc_id t)" by (auto simp: wf_received_def split: tlc_status.splits)
      then show ?thesis
        by (cases "st = LocalRemoved"; cases "ti_removed_reason t")
          (simp_all add: resent_tlc_def is_offered_def is_received_def inbound_status_def del: bind_res_eq_Ok)
    qed
  qed
  define g where "g t = (case resent_tlc (ch_id ?c) t of Ok es \<Rightarrow> es | _ \<Rightarrow> [])" for t
  have "traverse_res (resent_tlc (ch_id ?c)) (all_tlcs (ch_tlc_state ?c)) = Ok (map g (all_tlcs (ch_tlc_state ?c)))"
    by (rule traverse_res_Ok) (use one in \<open>fastforce simp: g_def\<close>)
  moreover have "list_all quiet (concat (map g (all_tlcs (ch_tlc_state ?c))))"
    using one by (fastforce simp: g_def list_all_iff)
  ultimately show ?thesis by (auto simp: resend_tlcs_on_reestablish_def Let_def need_another_wf [OF assms])
qed

lemma ready_handler:
  assumes "ch_state (rn_channel n) = ChannelReady"
  shows "handle_reestablish_channel_message E msg pending n = reestablish_ready E msg pending (set_channel (\<lambda>c. c\<lparr>ch_reestablish_started_at := None\<rparr>) n)"
proof -
  let ?n = "set_channel (\<lambda>c. c\<lparr>ch_reestablish_started_at := None\<rparr>) n"
  have "ch_state (rn_channel ?n) = ChannelReady" using assms by (simp add: set_channel_def)
  then show ?thesis
    by (simp add: handle_reestablish_channel_message_def Let_def notify_funding_tx_def replay_tx_update_def external_funding_waiting_submit_def
        external_funding_submitted_in_flight_def split: option.split prod.split)
qed

lemma near: "a = b \<or> ahead a b \<Longrightarrow> \<not> abs_diff b a > 1"
proof (elim disjE)
  assume "ahead a b"
  then have "b < a" "unat (a - b) = 1" by (auto simp: ahead_def word_less_nat_alt unat_sub_if')
  then show "\<not> abs_diff b a > 1" by (simp add: abs_diff_def word_less_nat_alt)
qed (simp add: abs_diff_def)

lemma near': "a = b \<or> ahead a b \<Longrightarrow> \<not> abs_diff a b > 1"
proof (elim disjE)
  assume "ahead a b"
  then have "b < a" "unat (a - b) = 1" by (auto simp: ahead_def word_less_nat_alt unat_sub_if')
  then show "\<not> abs_diff a b > 1" by (simp add: abs_diff_def word_less_nat_alt)
qed (simp add: abs_diff_def)

lemma ahead_checked: "checked_add b 1 = Some a \<longleftrightarrow> ahead a (b :: u64)"
  using unat_bound [of a] by (auto simp: ahead_def checked_add_def unat_word_ariths word_unat_eq_iff)

lemma validated:
  assumes "diff_ok p" and "commit_open p peer" and "pa_diff p = Some diff" and "ch_id (pa_channel p) = ch_id (pa_channel peer)"
    and "replayed b (pa_channel p) c"
  shows "validate_commit_diff_for_replay c (send_reestablish_message (pa_channel peer)) diff = Ok ()"
proof -
  have "\<not> (remote_of p < df_remote_at_send diff \<or> remote_of p > saturating_add (df_remote_at_send diff) 1)"
    using assms(1,3) unat_bound [of "remote_of p"] by (auto simp: diff_ok_def ahead_def word_less_nat_alt rust_arith min_def split: if_splits)
  then show ?thesis using assms
    by (simp add: validate_commit_diff_for_replay_def validate_commit_diff_for_replay_inputs_def send_reestablish_message_def replayed_def diff_ok_def commit_open_def
        ensure_def is_waiting_tlc_ack_def)
qed

lemma replay_order:
  assumes "diff_ok p" and "pa_diff p = Some diff"
  shows "resolve_dual_owed_replay_order (df_order_hint diff) (remote_of p) (df_remote_at_send diff) (ch_last_was_revoke (pa_channel p)) =
    (if commit_first p then CommitThenRevoke else RevokeThenCommit)"
proof -
  consider "ahead (remote_of p) (df_remote_at_send diff)"
    | "df_remote_at_send diff = remote_of p" "df_order_hint diff = Some RevokeThenCommit" "\<not> ch_last_was_revoke (pa_channel p)"
    using assms by (auto simp: diff_ok_def)
  then show ?thesis
    by cases (simp_all add: resolve_dual_owed_replay_order_def commit_first_def assms(2) ahead_greater)
qed

lemma commit_replayed:
  assumes "diff_ok p" and "pa_diff p = Some diff" and "commit_open p peer"
  obtains es where "\<And>n. resend_commitment_from_diff E diff n = (n, es, Ok ())" and "\<And>fs. rounds [] (es @ fs) = commit_owed p peer @ rounds [] fs"
proof -
  obtain w where w: "wire_of diff = Some w" using assms(1,2) by (auto simp: diff_ok_def)
  let ?es = "map replay_update (df_replay_updates diff) @ (case Option.bind (df_template diff) (\<lambda>t. map_option (\<lambda>s. (s, tp_next_commitment_nonce t)) (tp_partial_signature t)) of
      Some (s, nonce) \<Rightarrow> [ReCommitmentSigned s nonce] | None \<Rightarrow> [])"
  have "resend_commitment_from_diff E diff n = (n, ?es, Ok ())" for n
    using w by (auto simp: wire_of_def resend_commitment_from_diff_def Let_def split: Option.bind_splits)
  moreover have "rounds [] (?es @ fs) = commit_owed p peer @ rounds [] fs" for fs
    using w assms(2,3) by (auto simp: commit_owed_def wire_of_def rounds_updates split: Option.bind_splits)
  ultimately show ?thesis by (rule that)
qed

definition replays :: "party \<Rightarrow> party \<Rightarrow> reest_result \<Rightarrow> bool" where
  "replays p peer r \<longleftrightarrow> (\<exists>n es b. r = (n, es, Ok ()) \<and> rounds [] es = owed p peer \<and> replayed b (pa_channel p) (rn_channel n) \<and>
     (commit_open p peer \<and> \<not> commit_first p \<longrightarrow> \<not> b))"

lemma replaysI:
  "r = (n, es, Ok ()) \<Longrightarrow> rounds [] es = owed p peer \<Longrightarrow> replayed b (pa_channel p) (rn_channel n) \<Longrightarrow> (commit_open p peer \<and> \<not> commit_first p \<Longrightarrow> \<not> b) \<Longrightarrow> replays p peer r"
  unfolding replays_def by blast

lemma rounds_then_quiet: "list_all quiet fs \<Longrightarrow> rounds us (es @ fs) = rounds us es"
  by (induction us es rule: rounds.induct) (simp_all add: rounds_quiet)

lemma complete_replays:
  assumes "replays p peer r"
  shows "replays p peer (then_do r (on_reestablished_channel_ready E))"
proof -
  obtain n es b where r: "r = (n, es, Ok ())" "rounds [] es = owed p peer" "replayed b (pa_channel p) (rn_channel n)" "commit_open p peer \<and> \<not> commit_first p \<longrightarrow> \<not> b"
    using assms by (auto simp: replays_def)
  obtain n' fs where "then_do r (on_reestablished_channel_ready E) = (n', es @ fs, Ok ())" "list_all quiet fs" "replayed b (pa_channel p) (rn_channel n')"
    using complete_keeps [OF r(1,3)] by blast
  then show ?thesis using r(2,4) by (intro replaysI [of _ n' "es @ fs" p peer b]) (simp_all add: rounds_then_quiet)
qed

lemma replayed_revoke [simp]: "replayed b c (c'\<lparr>ch_last_was_revoke := b'\<rparr>) \<longleftrightarrow> b' = b \<and> replayed (ch_last_was_revoke c') c c'"
  by (auto simp: replayed_def)

abbreviation resuming :: "reest_node \<Rightarrow> reest_node" where
  "resuming n \<equiv> n\<lparr>rn_pending_ready := False, rn_channel := restore_missing_revocation_send_nonce ((rn_channel n)\<lparr>ch_waiting_peer_response := None\<rparr>)\<rparr>"

lemma replayed_view:
  assumes "replayed (ch_last_was_revoke (pa_channel p)) (pa_channel p) (rn_channel n)"
  shows "ch_commitment_numbers (rn_channel n) = ch_commitment_numbers (pa_channel p)" "ch_tlc_state (rn_channel n) = ch_tlc_state (pa_channel p)"
    "ch_last_was_revoke (rn_channel n) = ch_last_was_revoke (pa_channel p)" "ch_last_revoke_ack_msg (rn_channel n) = ch_last_revoke_ack_msg (pa_channel p)"
  using assms by (simp_all add: replayed_def)

lemma announced [simp]:
  "rs_local (send_reestablish_message c) = cn_local (ch_commitment_numbers c)" "rs_remote (send_reestablish_message c) = cn_remote (ch_commitment_numbers c)"
  by (simp_all add: send_reestablish_message_def)

text \<open>The numbers of the two parties differ by one at most, and never the way they do when only the end of the opening was lost.\<close>

lemma ready_checks:
  assumes "party_ok p peer" and "party_ok peer p" and "replayed (ch_last_was_revoke (pa_channel p)) (pa_channel p) (rn_channel n)"
  shows "\<not> (abs_diff (local_of peer) (remote_of p) > 1 \<or> abs_diff (remote_of peer) (local_of p) > 1)"
    and "\<not> channel_ready_gap (rn_channel (resuming n)) (send_reestablish_message (pa_channel peer))"
proof -
  have up: "remote_of p = local_of peer \<or> ahead (remote_of p) (local_of peer)" "remote_of peer = local_of p \<or> ahead (remote_of peer) (local_of p)"
    using assms(1,2) by (auto simp: party_ok_def)
  show "\<not> (abs_diff (local_of peer) (remote_of p) > 1 \<or> abs_diff (remote_of peer) (local_of p) > 1)" using near [OF up(1)] near' [OF up(2)] by blast
  show "\<not> channel_ready_gap (rn_channel (resuming n)) (send_reestablish_message (pa_channel peer))"
    using up(2) by (auto simp: channel_ready_gap_def replayed_view [OF assms(3)] ahead_def INITIAL_COMMITMENT_NUMBER_def)
qed

lemma ready_commit:
  assumes "party_ok p peer" and "party_ok peer p" and c: "replayed (ch_last_was_revoke (pa_channel p)) (pa_channel p) (rn_channel n)"
    and "commit_open p peer" and same: "remote_of p = local_of peer"
  shows "replays p peer (reestablish_ready E (send_reestablish_message (pa_channel peer)) (pa_diff p) n)"
proof -
  have diff: "diff_ok p" using assms(1,4) by (simp add: party_ok_def)
  then obtain d where d: "pa_diff p = Some d" by (auto simp: diff_ok_def)
  obtain es where es: "\<And>n. resend_commitment_from_diff E d n = (n, es, Ok ())" and out: "\<And>fs. rounds [] (es @ fs) = commit_owed p peer @ rounds [] fs"
    using commit_replayed [OF diff d assms(4)] by blast
  have "ch_id (pa_channel p) = ch_id (pa_channel peer)" using assms(1) by (simp add: party_ok_def)
  note valid = validated [OF diff assms(4) d this, of _ "rn_channel (resuming n)"]
  let ?last = "(resuming n)\<lparr>rn_pending_ready := True, rn_channel := (rn_channel (resuming n))\<lparr>ch_last_was_revoke := False, ch_reestablishing := False\<rparr>\<rparr>"
  have "reestablish_ready E (send_reestablish_message (pa_channel peer)) (pa_diff p) n = (?last, es, Ok ())"
    using ready_checks [OF assms(1-3)] same assms(4) valid c by (simp add: reestablish_ready_def Let_def replayed_view [OF c] d es set_channel_def commit_open_def)
  moreover have "rounds [] es = owed p peer" using out [of "[]"] same by (simp add: owed_def ack_owed_def)
  ultimately show ?thesis using c by (intro replaysI [where b = False]) (auto simp: replayed_def)
qed

lemma ready_both:
  assumes "party_ok p peer" and "party_ok peer p" and c: "replayed (ch_last_was_revoke (pa_channel p)) (pa_channel p) (rn_channel n)"
    and "commit_open p peer" and ack: "ahead (remote_of p) (local_of peer)"
  shows "replays p peer (reestablish_ready E (send_reestablish_message (pa_channel peer)) (pa_diff p) n)"
proof -
  have diff: "diff_ok p" using assms(1,4) by (simp add: party_ok_def)
  then obtain d where d: "pa_diff p = Some d" by (auto simp: diff_ok_def)
  obtain es where es: "\<And>n. resend_commitment_from_diff E d n = (n, es, Ok ())" and out: "\<And>fs. rounds [] (es @ fs) = commit_owed p peer @ rounds [] fs"
    using commit_replayed [OF diff d assms(4)] by blast
  have "ch_id (pa_channel p) = ch_id (pa_channel peer)" using assms(1) by (simp add: party_ok_def)
  note valid = validated [OF diff assms(4) d this, of _ "rn_channel (resuming n)"]
  obtain m where m: "ch_last_revoke_ack_msg (pa_channel p) = Some m" using assms(1) ack by (auto simp: party_ok_def)
  let ?d = "set_channel start_defer_peer_tlc_updates (resuming n)"
  have md: "ch_last_revoke_ack_msg (rn_channel ?d) = Some m" "ch_last_was_revoke (rn_channel ?d) = ch_last_was_revoke (pa_channel p)"
    using m by (simp_all add: set_channel_def start_defer_peer_tlc_updates_def replayed_view [OF c])
  have run: "reestablish_ready E (send_reestablish_message (pa_channel peer)) (pa_diff p) n = then_do (if commit_first p
      then then_do (resend_commitment_from_diff E d ?d) (resend_revoke_and_ack E)
      else then_do (then_do (resend_revoke_and_ack E ?d) (resend_commitment_from_diff E d)) (\<lambda>n. (set_channel (\<lambda>c. c\<lparr>ch_last_was_revoke := False\<rparr>) n, [], Ok ())))
      (on_reestablished_channel_ready E)"
    using ready_checks [OF assms(1-3)] assms(4) valid c ack ahead_checked [of "local_of peer" "remote_of p"] ahead_neq(1) [OF ack] replay_order [OF diff d] md(2)
    by (simp add: reestablish_ready_def Let_def replayed_view [OF c] d commit_open_def)
  have acks: "ack_owed p peer = [WAck m]" using ack m by (simp add: ack_owed_def)
  have kept: "replayed True (pa_channel p) (rn_channel (set_channel (\<lambda>c. c\<lparr>ch_last_was_revoke := True\<rparr>) ?d))"
    "replayed False (pa_channel p) (rn_channel (set_channel (\<lambda>c. c\<lparr>ch_last_was_revoke := False\<rparr>) (set_channel (\<lambda>c. c\<lparr>ch_last_was_revoke := True\<rparr>) ?d)))"
    using c by (simp_all add: set_channel_def replayed_def start_defer_peer_tlc_updates_def)
  show ?thesis
  proof (cases "commit_first p")
    case True
    then show ?thesis unfolding run using kept(1) out [of "[ReRevokeAndAck m]"]
      by (intro complete_replays replaysI [where b = True]) (simp_all add: es resend_ack [OF md(1)] owed_def acks)
  next
    case False
    then show ?thesis unfolding run using kept(2) out [of "[]"]
      by (intro complete_replays replaysI [where b = False and es = "ReRevokeAndAck m # es"]) (simp_all add: es resend_ack [OF md(1)] owed_def acks)
  qed
qed

lemma ready_ack:
  assumes "party_ok p peer" and "party_ok peer p" and c: "replayed (ch_last_was_revoke (pa_channel p)) (pa_channel p) (rn_channel n)"
    and shut: "\<not> commit_open p peer" and ack: "ahead (remote_of p) (local_of peer)"
  shows "replays p peer (reestablish_ready E (send_reestablish_message (pa_channel peer)) (pa_diff p) n)"
proof -
  obtain m where m: "ch_last_revoke_ack_msg (pa_channel p) = Some m" using assms(1) ack by (auto simp: party_ok_def)
  then have mn: "ch_last_revoke_ack_msg (rn_channel (resuming n)) = Some m" using replayed_view(4) [OF c] by simp
  have run: "reestablish_ready E (send_reestablish_message (pa_channel peer)) (pa_diff p) n = then_do (resend_revoke_and_ack E (resuming n)) (on_reestablished_channel_ready E)"
    using ready_checks [OF assms(1-3)] shut ack ahead_checked [of "local_of peer" "remote_of p"] ahead_neq(1) [OF ack]
    by (auto simp: reestablish_ready_def Let_def replayed_view [OF c] commit_open_def)
  have "replayed True (pa_channel p) (rn_channel (set_channel (\<lambda>c. c\<lparr>ch_last_was_revoke := True\<rparr>) (resuming n)))"
    using c by (simp add: set_channel_def replayed_def)
  then show ?thesis unfolding run using shut
    by (intro complete_replays replaysI [where b = True and es = "[ReRevokeAndAck m]"]) (simp_all add: resend_ack [OF mn] owed_def commit_owed_def ack_owed_def ack m)
qed

lemma ready_idle:
  assumes "party_ok p peer" and "party_ok peer p" and c: "replayed (ch_last_was_revoke (pa_channel p)) (pa_channel p) (rn_channel n)"
    and shut: "\<not> commit_open p peer" and same: "remote_of p = local_of peer"
  shows "replays p peer (reestablish_ready E (send_reestablish_message (pa_channel peer)) (pa_diff p) n)"
proof -
  have no_owed: "owed p peer = []" using shut same by (simp add: owed_def commit_owed_def ack_owed_def)
  show ?thesis
  proof (cases "remote_of peer = local_of p")
    case True
    then have idle: "\<not> waits p" using shut by (simp add: commit_open_def)
    let ?x = "\<lambda>x. (resuming n)\<lparr>rn_channel := x\<rparr>"
    obtain x where x: "set_waiting_ack (re_now E) (rn_channel (resuming n)) False = Ok (None, x)" "replayed (ch_last_was_revoke (pa_channel p)) (pa_channel p) x" "ch_tlc_state x = ch_tlc_state (pa_channel p)"
      using c idle by (simp add: set_waiting_ack_def set_waiting_ack_flag_def set_tlc_state_def replayed_def)
    obtain es where es: "resend_tlcs_on_reestablish True (?x x) = (?x x, es, Ok ())" "list_all quiet es"
      using resend_tlcs [of "?x x"] assms(1) x(3) by (auto simp: party_ok_def)
    have run: "reestablish_ready E (send_reestablish_message (pa_channel peer)) (pa_diff p) n = then_do (?x x, es, Ok ()) (on_reestablished_channel_ready E)"
      using ready_checks [OF assms(1-3)] same True idle x(1) es(1) by (simp add: reestablish_ready_def Let_def replayed_view [OF c])
    have "rounds [] es = owed p peer" unfolding no_owed by (rule rounds_quiet [OF es(2)])
    then show ?thesis unfolding run using x(2) shut
      by (intro complete_replays replaysI [OF HOL.refl, where b = "ch_last_was_revoke (pa_channel p)"]) simp_all
  next
    case False
    have "checked_add (local_of peer) 1 \<noteq> Some (remote_of p)" using same by (simp add: ahead_checked)
    then have "reestablish_ready E (send_reestablish_message (pa_channel peer)) (pa_diff p) n =
        ((resuming n)\<lparr>rn_pending_ready := True, rn_channel := (rn_channel (resuming n))\<lparr>ch_reestablishing := False\<rparr>\<rparr>, [], Ok ())"
      using ready_checks [OF assms(1-3)] False by (auto simp: reestablish_ready_def Let_def replayed_view [OF c] split: option.split)
    then show ?thesis using c shut by (intro replaysI [where b = "ch_last_was_revoke (pa_channel p)" and es = "[]"]) (assumption | simp add: no_owed)+
  qed
qed

lemma ready_replays:
  assumes "party_ok p peer" and "party_ok peer p" and "replayed (ch_last_was_revoke (pa_channel p)) (pa_channel p) (rn_channel n)"
  shows "replays p peer (reestablish_ready E (send_reestablish_message (pa_channel peer)) (pa_diff p) n)"
  using ready_commit [OF assms] ready_both [OF assms] ready_ack [OF assms] ready_idle [OF assms] assms(1) by (auto simp: party_ok_def)

lemma reconnect_replays:
  assumes "party_ok p peer" and "party_ok peer p"
  shows "replays p peer (reconnects E p peer)"
proof -
  let ?n = "\<lparr>rn_channel = mark_reestablishing_offline (pa_channel p), rn_pending_ready = False\<rparr>"
  have "ch_state (rn_channel ?n) = ChannelReady" using assms(1) by (simp add: party_ok_def mark_reestablishing_offline_def)
  moreover have "replayed (ch_last_was_revoke (pa_channel p)) (pa_channel p) (rn_channel (set_channel (\<lambda>c. c\<lparr>ch_reestablish_started_at := None\<rparr>) ?n))"
    by (simp add: set_channel_def replayed_def mark_reestablishing_offline_def)
  ultimately show ?thesis unfolding reconnects_def using ready_handler ready_replays [OF assms] by simp
qed

lemma replayed_keeps:
  assumes "replayed b (pa_channel p) c'" and "commit_open p peer \<and> \<not> commit_first p \<longrightarrow> \<not> b" and "party_ok p peer" and "party_ok peer p"
  defines "p' \<equiv> p\<lparr>pa_channel := c'\<rparr>"
  shows "party_ok p' peer \<and> party_ok peer p' \<and> owed p' peer = owed p peer \<and> owed peer p' = owed peer p \<and> commit_open peer p' = commit_open peer p"
proof -
  have c': "ch_id c' = ch_id (pa_channel p)" "ch_state c' = ch_state (pa_channel p)" "ch_commitment_numbers c' = ch_commitment_numbers (pa_channel p)"
    "ch_tlc_state c' = ch_tlc_state (pa_channel p)" "ch_last_revoke_ack_msg c' = ch_last_revoke_ack_msg (pa_channel p)"
    "ch_pending_replay_updates c' = ch_pending_replay_updates (pa_channel p)" "ch_last_was_revoke c' = b"
    using assms(1) by (simp_all add: replayed_def)
  have same: "commit_first p' = commit_first p" "commit_open p' peer = commit_open p peer" "commit_open peer p' = commit_open peer p"
    "ack_owed p' peer = ack_owed p peer" "ack_owed peer p' = ack_owed peer p"
    by (simp_all add: p'_def commit_first_def commit_open_def ack_owed_def c' split: option.split)
  have diff: "diff_ok p'" if "commit_open p peer"
  proof -
    have "diff_ok p" using assms(3) that by (simp add: party_ok_def)
    then show ?thesis using assms(2) that c' by (auto simp: p'_def diff_ok_def commit_first_def)
  qed
  have "owed p' peer = owed p peer" "owed peer p' = owed peer p" using same by (simp_all add: owed_def commit_owed_def p'_def)
  moreover have "party_ok p' peer" "party_ok peer p'" using assms(3,4) same c' diff unfolding party_ok_def by (simp_all add: p'_def)
  ultimately show ?thesis using same(3) by blast
qed

lemma move_keeps:
  assumes "party_move E p recv out p'" and "party_ok p peer" and "party_ok peer p"
    and "owed peer p = (case recv of None \<Rightarrow> q | Some m \<Rightarrow> m # q)"
  shows "party_ok p' peer \<and> party_ok peer p' \<and> owed p' peer = owed p peer @ out \<and> owed peer p' = q"
  using assms
proof (induction rule: party_move.induct)
  case (sign c now delay c' d signature nonce tx)
  then show ?case using sign_keeps [OF sign(1,2,3,4), of tx signature nonce] by simp
next
  case (recv_commit c ack c1 c' d updates signature nonce)
  then show ?case using recv_commit_keeps [OF recv_commit(1-5)] by simp
next
  case (recv_ack now c msg revocation data c1 c' d)
  then show ?case using recv_ack_keeps [OF recv_ack(1-4)] by simp
next
  case (other c c' d)
  then show ?case using other_keeps [OF other(1-3)] by simp
qed

lemma session_step_inv:
  assumes "session_step EA EB s s'" and "session_inv s"
  shows "session_inv s'"
  using assms
proof (induction rule: session_step.induct)
  case (local_a s out p)
  then show ?case using move_keeps [OF local_a(1), of "ss_b s" "ss_ba s"] by (simp add: session_inv_def)
next
  case (local_b s out p)
  then show ?case using move_keeps [OF local_b(1), of "ss_a s" "ss_ab s"] by (simp add: session_inv_def)
next
  case (deliver_a s m q out p)
  then show ?case using move_keeps [OF deliver_a(2), of "ss_b s" q] by (simp add: session_inv_def)
next
  case (deliver_b s m q out p)
  then show ?case using move_keeps [OF deliver_b(2), of "ss_a s" q] by (simp add: session_inv_def)
next
  case (reconnect RA RB s na es nb fs)
  then have ok: "party_ok (ss_a s) (ss_b s)" "party_ok (ss_b s) (ss_a s)" by (simp_all add: session_inv_def)
  obtain b where a: "rounds [] es = owed (ss_a s) (ss_b s)" "replayed b (pa_channel (ss_a s)) (rn_channel na)" "commit_open (ss_a s) (ss_b s) \<and> \<not> commit_first (ss_a s) \<longrightarrow> \<not> b"
    using reconnect_replays [OF ok, of RA] reconnect(3) by (auto simp: replays_def)
  obtain b' where b: "rounds [] fs = owed (ss_b s) (ss_a s)" "replayed b' (pa_channel (ss_b s)) (rn_channel nb)" "commit_open (ss_b s) (ss_a s) \<and> \<not> commit_first (ss_b s) \<longrightarrow> \<not> b'"
    using reconnect_replays [OF ok(2,1), of RB] reconnect(4) by (auto simp: replays_def)
  let ?a = "(ss_a s)\<lparr>pa_channel := rn_channel na\<rparr>"
  note one = replayed_keeps [OF a(2,3) ok]
  note two = replayed_keeps [OF b(2), of ?a]
  show ?case using one two a(1) b(1,3) by (simp add: session_inv_def)
qed

definition party_start :: "party \<Rightarrow> party \<Rightarrow> bool" where
  "party_start p peer \<longleftrightarrow> ch_state (pa_channel p) = ChannelReady \<and> ch_id (pa_channel p) = ch_id (pa_channel peer) \<and> wf_tlc_state (ch_tlc_state (pa_channel p)) \<and>
     \<not> waits p \<and> remote_of p = local_of peer \<and> (\<forall>u \<in> set (ch_pending_replay_updates (pa_channel p)). update_channel_id u = ch_id (pa_channel p))"

definition session_start :: "session \<Rightarrow> bool" where
  "session_start s \<longleftrightarrow> ss_ab s = [] \<and> ss_ba s = [] \<and> party_start (ss_a s) (ss_b s) \<and> party_start (ss_b s) (ss_a s)"

lemma session_start_inv:
  assumes "session_start s"
  shows "session_inv s"
proof -
  have "party_ok p peer \<and> owed p peer = []" if "party_start p peer" for p peer
    using that by (auto simp: party_start_def party_ok_def owed_def ack_owed_def commit_owed_def commit_open_def)
  then show ?thesis using assms by (simp add: session_start_def session_inv_def)
qed

lemma session_run_inv: "(session_step EA EB)\<^sup>*\<^sup>* s0 s \<Longrightarrow> session_inv s0 \<Longrightarrow> session_inv s"
  by (induction rule: rtranclp_induct) (auto intro: session_step_inv)

text \<open>C6. No message of the commitment protocol is lost or reordered by a broken connection. Two nodes start with equal numbers and nothing in flight; they sign, acknowledge and
  receive in any interleaving, and any number of times the connection breaks, drops both links and is reestablished. Whenever it breaks, both handlers
  accept the announcement of the peer, and the commitments (with the TLC updates they cover, the signature and the nonce) and acknowledgements they send again are those the links held, in
  the same order. An acknowledgement in flight always finds its receiver waiting for one. The rule for a received commitment has a revocation nonce of the
  peer at hand; without one the code repeats its last acknowledgement, and the watchdog on nonces ends such a channel.
\<close>

theorem reconnect_replays_what_was_lost:
  assumes "session_start s0" and "(session_step EA EB)\<^sup>*\<^sup>* s0 s"
  shows "\<exists>na es nb fs. reconnects RA (ss_a s) (ss_b s) = (na, es, Ok ()) \<and> rounds [] es = ss_ab s \<and>
    reconnects RB (ss_b s) (ss_a s) = (nb, fs, Ok ()) \<and> rounds [] fs = ss_ba s \<and>
    (\<forall>m q. ss_ab s = WAck m # q \<longrightarrow> waits (ss_b s)) \<and> (\<forall>m q. ss_ba s = WAck m # q \<longrightarrow> waits (ss_a s))"
proof -
  have inv: "session_inv s" by (rule session_run_inv [OF assms(2) session_start_inv [OF assms(1)]])
  then have ok: "party_ok (ss_a s) (ss_b s)" "party_ok (ss_b s) (ss_a s)" and links: "ss_ab s = owed (ss_a s) (ss_b s)" "ss_ba s = owed (ss_b s) (ss_a s)"
    by (simp_all add: session_inv_def)
  have awaited: "waits peer" if "party_ok p peer" "owed p peer = WAck m # q" for p peer m q
    using that by (auto simp: party_ok_def owed_def ack_owed_def commit_owed_def split: if_splits option.splits Option.bind_splits)
  show ?thesis using reconnect_replays [OF ok, of RA] reconnect_replays [OF ok(2,1), of RB] awaited ok unfolding links by (fastforce simp: replays_def)
qed

section \<open>An instance\<close>

definition crossing_channel :: channel where
  "crossing_channel = (set_tlc_state revoking_channel (set_waiting_ack_flag sample_table True))\<lparr>ch_waiting_peer_response := Some 5\<rparr>"

lemmas crossing_eval = crossing_channel_def set_tlc_state_def set_waiting_ack_flag_def revoking_channel_def sample_channel_def sample_table_def sample_tlc_def

lemma crossing_signed:
  "set_waiting_ack 5 (revoking_channel\<lparr>ch_pending_replay_updates := [], ch_last_was_revoke := False\<rparr>) True = Ok (Some PEER_CHANNEL_RESPONSE_TIMEOUT, crossing_channel)"
  by (simp add: set_waiting_ack_def crossing_eval peer_response_wait_v2_def ack_peer_wait_v2_def close_peer_wait_v2_def Let_def)

lemma acknowledgement_exists:
  assumes "revocation_request E c False = Ok (ctx, m, k)" and "ch_remote_revocation_nonce_for_send c \<noteq> None" and "unat (cn_remote (ch_commitment_numbers c)) + 1 < 2 ^ 64"
  shows "\<exists>ack c1. send_revoke_and_ack_message E c False = Ok (ack, c1) \<and> ch_tlc_state c1 = ch_tlc_state c \<and> ch_pending_replay_updates c1 = ch_pending_replay_updates c"
  using assms by (auto simp: send_revoke_and_ack_message_def Let_def get_next_revocation_nonce_def get_next_commitment_number_def get_current_commitment_number_def
      increment_remote_def plus_u_def checked_add_def rotate_nonces_after_send_def)

lemma crossing_acknowledged: "\<exists>ack c1. send_revoke_and_ack_message sample_tx_env crossing_channel False = Ok (ack, c1) \<and> same_session c1 c1"
proof -
  have "\<exists>ctx m k. revocation_request sample_tx_env crossing_channel False = Ok (ctx, m, k)"
    by (simp add: crossing_eval revocation_request_def funds_output_def get_revoke_sign_context_def sample_eval sample_tx_env_def
        checked_calculate_commitment_tx_fee_def checked_fee_from_rate_def get_total_ckb_amount_def get_total_reserved_ckb_amount_def
        checked_liquid_capacity_def checked_total_reserved_ckb_amount_from_def get_remote_shutdown_script_def get_current_commitment_number_def
        get_musig2_agg_context_def sample_crypto_def FEE_RATE_WEIGHT_SCALE_def u128_from_def u64_try_from_def checked_mul_u128_def
        checked_mul_def checked_sub_u64_def)
  then obtain ctx m k where request: "revocation_request sample_tx_env crossing_channel False = Ok (ctx, m, k)" by blast
  have nonce: "ch_remote_revocation_nonce_for_send crossing_channel \<noteq> None" "unat (cn_remote (ch_commitment_numbers crossing_channel)) + 1 < 2 ^ 64"
    by (simp_all add: crossing_eval)
  obtain ack c1 where c1: "send_revoke_and_ack_message sample_tx_env crossing_channel False = Ok (ack, c1)" "ch_tlc_state c1 = ch_tlc_state crossing_channel"
    "ch_pending_replay_updates c1 = ch_pending_replay_updates crossing_channel"
    using acknowledgement_exists [OF request nonce] by blast
  have "wf_tlc_state (ch_tlc_state crossing_channel)" "ch_pending_replay_updates crossing_channel = []"
    by (simp_all add: crossing_eval wf_tlc_state_def wf_pending_def wf_received_def)
  then show ?thesis using c1 by (auto simp: same_session_def)
qed

text \<open>
  Both sides of a channel sign at the same time, the second one acknowledges what it receives, and the connection breaks: it sends its commitment
  and then its acknowledgement again, and the first one has nothing to repeat.
\<close>

definition crossing_tx :: commitment_tx where
  "crossing_tx = \<lparr>ct_funding_tx = 33, ct_output = \<lparr>co_lock = script_default, co_type = None, co_capacity = 20000\<rparr>, ct_output_data = [], ct_witness = None\<rparr>"

definition crossing_start :: session where
  "crossing_start = \<lparr>ss_a = \<lparr>pa_channel = revoking_channel, pa_diff = None\<rparr>, ss_b = \<lparr>pa_channel = revoking_channel, pa_diff = None\<rparr>, ss_ab = [], ss_ba = []\<rparr>"

lemma crossing_start_ok: "session_start crossing_start"
  by (simp add: session_start_def party_start_def crossing_start_def crossing_eval wf_tlc_state_def wf_pending_def wf_received_def)

lemma crossing_run: "\<exists>s ack. (session_step sample_tx_env sample_tx_env)\<^sup>*\<^sup>* crossing_start s \<and> ss_ab s = [] \<and> ss_ba s = [WCommit [] [2] 8, WAck ack]"
proof -
  let ?p = "\<lparr>pa_channel = revoking_channel, pa_diff = None\<rparr>"
  let ?signed = "\<lambda>sig nonce. \<lparr>pa_channel = crossing_channel, pa_diff = Some (commit_diff_of revoking_channel crossing_tx sig nonce)\<rparr>"
  have idle: "\<not> ts_waiting_ack (ch_tlc_state revoking_channel)" "ch_pending_replay_updates revoking_channel = []" by (simp_all add: crossing_eval)
  have sign: "party_move sample_tx_env ?p None [WCommit [] sig nonce] (?signed sig nonce)" for sig nonce
    using party_move.sign [OF idle(1) crossing_signed, of sample_tx_env None sig nonce crossing_tx] by (simp only: idle(2))
  let ?s1 = "crossing_start\<lparr>ss_a := ?signed [1] 7, ss_ab := [WCommit [] [1] 7]\<rparr>"
  let ?s2 = "?s1\<lparr>ss_b := ?signed [2] 8, ss_ba := [WCommit [] [2] 8]\<rparr>"
  have one: "session_step sample_tx_env sample_tx_env crossing_start ?s1"
    using session_step.local_a [of sample_tx_env crossing_start "[WCommit [] [1] 7]" "?signed [1] 7"] sign [of "[1]" 7] by (simp add: crossing_start_def)
  have two: "session_step sample_tx_env sample_tx_env ?s1 ?s2"
    using session_step.local_b [of sample_tx_env ?s1 "[WCommit [] [2] 8]" "?signed [2] 8"] sign [of "[2]" 8] by (simp add: crossing_start_def)
  obtain ack c1 where c1: "send_revoke_and_ack_message sample_tx_env crossing_channel False = Ok (ack, c1)" "same_session c1 c1" using crossing_acknowledged by blast
  have "ch_remote_revocation_nonce_for_send crossing_channel \<noteq> None" by (simp add: crossing_eval)
  from party_move.recv_commit [OF this c1] obtain p where p: "party_move sample_tx_env (?signed [2] 8) (Some (WCommit [] [1] 7)) [WAck ack] p" by blast
  have three: "session_step sample_tx_env sample_tx_env ?s2 (?s2\<lparr>ss_b := p, ss_ba := ss_ba ?s2 @ [WAck ack], ss_ab := []\<rparr>)"
    by (rule session_step.deliver_b [of _ "WCommit [] [1] 7"]) (use p in \<open>simp_all add: crossing_start_def\<close>)
  have "(session_step sample_tx_env sample_tx_env)\<^sup>*\<^sup>* crossing_start (?s2\<lparr>ss_b := p, ss_ba := ss_ba ?s2 @ [WAck ack], ss_ab := []\<rparr>)"
    using one two three by (meson converse_rtranclp_into_rtranclp rtranclp.rtrancl_refl)
  then show ?thesis by fastforce
qed

theorem reconnect_replays_what_was_lost_witness:
  "\<forall>R. \<exists>s ack. (session_step sample_tx_env sample_tx_env)\<^sup>*\<^sup>* crossing_start s \<and>
     (\<exists>na es nb fs. reconnects R (ss_a s) (ss_b s) = (na, es, Ok ()) \<and> rounds [] es = [] \<and>
        reconnects R (ss_b s) (ss_a s) = (nb, fs, Ok ()) \<and> rounds [] fs = [WCommit [] [2] 8, WAck ack])"
proof
  fix R
  obtain s ack where s: "(session_step sample_tx_env sample_tx_env)\<^sup>*\<^sup>* crossing_start s" "ss_ab s = []" "ss_ba s = [WCommit [] [2] 8, WAck ack]" using crossing_run by blast
  show "\<exists>s ack. (session_step sample_tx_env sample_tx_env)\<^sup>*\<^sup>* crossing_start s \<and>
     (\<exists>na es nb fs. reconnects R (ss_a s) (ss_b s) = (na, es, Ok ()) \<and> rounds [] es = [] \<and>
        reconnects R (ss_b s) (ss_a s) = (nb, fs, Ok ()) \<and> rounds [] fs = [WCommit [] [2] 8, WAck ack])"
    using reconnect_replays_what_was_lost [OF crossing_start_ok s(1), of R R] s by (metis (no_types))
qed

section \<open>Channels that are shutting down\<close>

text \<open>
  In a channel that is shutting down the handler leaves the flag up, and as long as it is up the actor drops every message but the handshake: the close stays open.
\<close>

lemma sign_and_publish_keeps_flag: "sign_and_publish_close E c = (c', es, r) \<Longrightarrow> ch_reestablishing c' = ch_reestablishing c"
  by (auto simp: sign_and_publish_close_def update_state_def Let_def split: option.splits prod.splits if_splits res.splits)

lemma step_shutting_down_keeps_flag: "step_shutting_down E c flags = (c', es, r) \<Longrightarrow> ch_reestablishing c' = ch_reestablishing c"
  by (auto simp: step_shutting_down_def maybe_transfer_to_shutdown_def emit_def update_state_def Let_def split: prod.splits if_splits channel_state.splits
      dest!: sign_and_publish_keeps_flag)

lemma shutdown_reconnect_stalls:
  assumes "ch_state (rn_channel n) = ShuttingDown flags" and "ch_reestablishing (rn_channel n)" and "handle_reestablish_channel_message E msg pending n = (n', es, r)"
  shows "ch_reestablishing (rn_channel n') \<and> rounds [] es = []"
proof -
  have quiet: "rounds us (map CloseEffect fs) = []" for us fs by (induction fs) simp_all
  show ?thesis using assms quiet
    by (auto simp: handle_reestablish_channel_message_def Let_def notify_funding_tx_def replay_tx_update_def external_funding_waiting_submit_def
        external_funding_submitted_in_flight_def set_channel_def dest!: step_shutting_down_keeps_flag split: option.splits prod.splits if_splits)
qed

end
