(* ===== verification/Invoice_Store.thy ===== *)
theory Invoice_Store
  imports Onchain_Reconcile "HOL-Library.Product_Lexorder" "HOL-Library.Multiset"
begin

text \<open>
  Invoices and the part of the store that serves received payments: feature vectors
  (\<^verbatim>\<open>fiber-types/src/protocol.rs\<close>), invoices with their attributes (\<^verbatim>\<open>fiber-types/src/invoice.rs\<close>,
  \<^verbatim>\<open>fiber-lib/src/invoice/invoice_impl.rs\<close>), the columns for invoices, their status, preimages and held
  TLCs (\<^verbatim>\<open>fiber-lib/src/store/store_impl/mod.rs\<close>), and the commands that add, settle and cancel an
  invoice (\<^verbatim>\<open>fiber-lib/src/fiber/network.rs\<close>). The clock is an argument in milliseconds; text encoding and
  signatures of invoices are not modelled.
\<close>

section \<open>Feature vectors\<close>

type_synonym u16 = "16 word"

definition BASIC_MPP_REQUIRED :: u16 where "BASIC_MPP_REQUIRED = 2"
definition BASIC_MPP_OPTIONAL :: u16 where "BASIC_MPP_OPTIONAL = 3"
definition TRAMPOLINE_ROUTING_REQUIRED :: u16 where "TRAMPOLINE_ROUTING_REQUIRED = 4"
definition TRAMPOLINE_ROUTING_OPTIONAL :: u16 where "TRAMPOLINE_ROUTING_OPTIONAL = 5"
definition MAX_FEATURE_BIT :: u16 where "MAX_FEATURE_BIT = 7"

definition feature_vector_new :: bytes where
  "feature_vector_new = replicate (unat (MAX_FEATURE_BIT div 8) + 1) 0"

definition is_set :: "bytes \<Rightarrow> u16 \<Rightarrow> bool" where
  "is_set v n = (let idx = unat n div 8 in
     if length v \<le> idx then False else drop_bit (unat n mod 8) (v ! idx) AND 1 = 1)"

definition set_bit_to :: "bytes \<Rightarrow> u16 \<Rightarrow> bool \<Rightarrow> bytes" where
  "set_bit_to v n b =
     (let idx = unat n div 8;
          v = (if length v \<le> idx then v @ replicate (idx + 1 - length v) 0 else v);
          mask = push_bit (unat n mod 8) 1
      in v[idx := (if b then v ! idx OR mask else v ! idx AND NOT mask)])"

definition enabled_features :: "bytes \<Rightarrow> u16 list" where
  "enabled_features v = filter (is_set v) (map of_nat [0..<unat (of_nat (length v * 8) :: u16)])"

definition requires_feature :: "bytes \<Rightarrow> u16 \<Rightarrow> bool" where
  "requires_feature v n \<longleftrightarrow> is_set v n \<and> n mod 2 = 0"

definition supports_feature :: "bytes \<Rightarrow> u16 \<Rightarrow> bool" where
  "supports_feature v n \<longleftrightarrow> is_set v n \<or> is_set v (n XOR 1)"

definition compatible_with :: "bytes \<Rightarrow> bytes \<Rightarrow> bool" where
  "compatible_with v w \<longleftrightarrow> \<not> list_ex (\<lambda>n. requires_feature v n \<and> \<not> supports_feature w n) (enabled_features v)"

definition supports_basic_mpp :: "bytes \<Rightarrow> bool" where
  "supports_basic_mpp v = supports_feature v BASIC_MPP_OPTIONAL"

definition supports_trampoline_routing :: "bytes \<Rightarrow> bool" where
  "supports_trampoline_routing v = supports_feature v TRAMPOLINE_ROUTING_OPTIONAL"

section \<open>Invoices\<close>

record duration =
  du_secs :: u64
  du_nanos :: u32

definition as_millis :: "duration \<Rightarrow> u128" where
  "as_millis d = ucast (du_secs d) * 1000 + ucast (du_nanos d div 1000000)"

datatype attribute =
    FinalHtlcTimeout u64
  | FinalHtlcMinimumExpiryDelta u64
  | ExpiryTime duration
  | Description bytes
  | FallbackAddr bytes
  | UdtScript script
  | PayeePublicKey pubkey
  | HashAlgorithm hash_algorithm
  | Feature bytes
  | PaymentSecret hash256

record invoice_data =
  id_timestamp :: u128
  id_payment_hash :: hash256
  id_attrs :: "attribute list"

datatype currency = Fibb | Fibt | Fibd

record ckb_invoice =
  iv_currency :: currency
  iv_amount :: "u128 option"
  iv_data :: invoice_data

datatype ckb_invoice_status = InvOpen | InvCancelled | InvExpired | InvReceived | InvPaid

fun first_attr :: "(attribute \<Rightarrow> 'a option) \<Rightarrow> attribute list \<Rightarrow> 'a option" where
  "first_attr f [] = None"
| "first_attr f (a # as) = (case f a of Some x \<Rightarrow> Some x | None \<Rightarrow> first_attr f as)"

definition udt_type_script :: "ckb_invoice \<Rightarrow> script option" where
  "udt_type_script i = first_attr (\<lambda>a. case a of UdtScript s \<Rightarrow> Some s | _ \<Rightarrow> None) (id_attrs (iv_data i))"

definition expiry_time :: "ckb_invoice \<Rightarrow> duration option" where
  "expiry_time i = first_attr (\<lambda>a. case a of ExpiryTime d \<Rightarrow> Some d | _ \<Rightarrow> None) (id_attrs (iv_data i))"

definition final_tlc_minimum_expiry_delta :: "ckb_invoice \<Rightarrow> u64 option" where
  "final_tlc_minimum_expiry_delta i =
     first_attr (\<lambda>a. case a of FinalHtlcMinimumExpiryDelta d \<Rightarrow> Some d | _ \<Rightarrow> None) (id_attrs (iv_data i))"

definition DEFAULT_FINAL_TLC_EXPIRY_DELTA :: u64 where "DEFAULT_FINAL_TLC_EXPIRY_DELTA = 24 * 60 * 60 * 1000"

definition final_tlc_minimum_expiry_delta_or_default :: "ckb_invoice \<Rightarrow> u64" where
  "final_tlc_minimum_expiry_delta_or_default i =
     (case final_tlc_minimum_expiry_delta i of Some d \<Rightarrow> d | None \<Rightarrow> DEFAULT_FINAL_TLC_EXPIRY_DELTA)"

definition invoice_hash_algorithm :: "ckb_invoice \<Rightarrow> hash_algorithm option" where
  "invoice_hash_algorithm i = first_attr (\<lambda>a. case a of HashAlgorithm h \<Rightarrow> Some h | _ \<Rightarrow> None) (id_attrs (iv_data i))"

definition payment_secret :: "ckb_invoice \<Rightarrow> hash256 option" where
  "payment_secret i = first_attr (\<lambda>a. case a of PaymentSecret s \<Rightarrow> Some s | _ \<Rightarrow> None) (id_attrs (iv_data i))"

fun is_mpp_attr :: "attribute \<Rightarrow> bool" where
  "is_mpp_attr (Feature v) = supports_basic_mpp v"
| "is_mpp_attr _ = False"

definition allow_mpp :: "ckb_invoice \<Rightarrow> bool" where
  "allow_mpp i = list_ex is_mpp_attr (id_attrs (iv_data i))"

fun is_trampoline_attr :: "attribute \<Rightarrow> bool" where
  "is_trampoline_attr (Feature v) = supports_trampoline_routing v"
| "is_trampoline_attr _ = False"

definition allow_trampoline_routing :: "ckb_invoice \<Rightarrow> bool" where
  "allow_trampoline_routing i = list_ex is_trampoline_attr (id_attrs (iv_data i))"

definition payee_pub_key :: "ckb_invoice \<Rightarrow> pubkey option" where
  "payee_pub_key i = first_attr (\<lambda>a. case a of PayeePublicKey k \<Rightarrow> Some k | _ \<Rightarrow> None) (id_attrs (iv_data i))"

definition is_expired :: "u128 \<Rightarrow> ckb_invoice \<Rightarrow> bool" where
  "is_expired now i = (case expiry_time i of
      None \<Rightarrow> False
    | Some expiry \<Rightarrow> (case checked_add (id_timestamp (iv_data i)) (as_millis expiry) of
          None \<Rightarrow> False | Some t \<Rightarrow> t < now))"

definition is_tlc_expire_too_soon :: "u128 \<Rightarrow> ckb_invoice \<Rightarrow> u64 \<Rightarrow> (bool, 'e) res" where
  "is_tlc_expire_too_soon now i tlc_expiry =
     bind_res (plus_u now (ucast (final_tlc_minimum_expiry_delta_or_default i))) (\<lambda>required. Ok (ucast tlc_expiry < required))"

section \<open>Building an invoice\<close>

datatype invoice_error =
    PaymentSecretRequiredForMpp | BothPaymenthashAndPreimage | NeitherPaymenthashNorPreimage
  | DuplicatedAttributeKey | DescriptionTooLong nat | DeprecatedAttribute
  | DuplicatedInvoice | InvoiceAlreadyExists | InvoiceNotFound

definition MAX_DESCRIPTION_LENGTH :: nat where "MAX_DESCRIPTION_LENGTH = 639"

fun attr_kind :: "attribute \<Rightarrow> nat" where
  "attr_kind (FinalHtlcTimeout _) = 0"
| "attr_kind (FinalHtlcMinimumExpiryDelta _) = 1"
| "attr_kind (ExpiryTime _) = 2"
| "attr_kind (Description _) = 3"
| "attr_kind (FallbackAddr _) = 4"
| "attr_kind (UdtScript _) = 5"
| "attr_kind (PayeePublicKey _) = 6"
| "attr_kind (HashAlgorithm _) = 7"
| "attr_kind (Feature _) = 8"
| "attr_kind (PaymentSecret _) = 9"

record invoice_builder =
  ib_currency :: currency
  ib_amount :: "u128 option"
  ib_payment_hash :: "hash256 option"
  ib_payment_preimage :: "hash256 option"
  ib_attrs :: "attribute list"

definition invoice_builder_new :: "currency \<Rightarrow> invoice_builder" where
  "invoice_builder_new c = \<lparr>ib_currency = c, ib_amount = None, ib_payment_hash = None, ib_payment_preimage = None, ib_attrs = []\<rparr>"

definition add_attr :: "invoice_builder \<Rightarrow> attribute \<Rightarrow> invoice_builder" where
  "add_attr ib a = ib\<lparr>ib_attrs := ib_attrs ib @ [a]\<rparr>"

fun replace_attr :: "attribute list \<Rightarrow> attribute \<Rightarrow> attribute list" where
  "replace_attr [] a = [a]"
| "replace_attr (b # bs) a = (if attr_kind b = attr_kind a then a # bs else b # replace_attr bs a)"

definition update_attr :: "invoice_builder \<Rightarrow> attribute \<Rightarrow> invoice_builder" where
  "update_attr ib a = ib\<lparr>ib_attrs := replace_attr (ib_attrs ib) a\<rparr>"

definition update_feature_vector :: "invoice_builder \<Rightarrow> (bytes \<Rightarrow> bytes) \<Rightarrow> invoice_builder" where
  "update_feature_vector ib f =
     update_attr ib (Feature (f (case first_attr (\<lambda>a. case a of Feature v \<Rightarrow> Some v | _ \<Rightarrow> None) (ib_attrs ib) of
        Some v \<Rightarrow> v | None \<Rightarrow> feature_vector_new)))"

definition builder_allow_mpp :: "invoice_builder \<Rightarrow> bool \<Rightarrow> invoice_builder" where
  "builder_allow_mpp ib allow = update_feature_vector ib (\<lambda>v. set_bit_to v BASIC_MPP_OPTIONAL allow)"

definition builder_allow_trampoline_routing :: "invoice_builder \<Rightarrow> bool \<Rightarrow> invoice_builder" where
  "builder_allow_trampoline_routing ib allow = update_feature_vector ib (\<lambda>v. set_bit_to v TRAMPOLINE_ROUTING_OPTIONAL allow)"

definition check_attrs_valid :: "attribute list \<Rightarrow> (unit, invoice_error) res" where
  "check_attrs_valid attrs =
     (if list_ex is_mpp_attr attrs \<and> first_attr (\<lambda>a. case a of PaymentSecret s \<Rightarrow> Some s | _ \<Rightarrow> None) attrs = None
      then Err PaymentSecretRequiredForMpp
      else if \<not> distinct (map attr_kind attrs) then Err DuplicatedAttributeKey
      else case first_attr (\<lambda>a. case a of Description d \<Rightarrow> if MAX_DESCRIPTION_LENGTH < length d then Some (length d) else None | _ \<Rightarrow> None) attrs of
          Some len \<Rightarrow> Err (DescriptionTooLong len)
        | None \<Rightarrow> if list_ex (\<lambda>a. case a of FinalHtlcTimeout _ \<Rightarrow> True | _ \<Rightarrow> False) attrs then Err DeprecatedAttribute else Ok ())"

definition build_invoice :: "hashers \<Rightarrow> u128 \<Rightarrow> invoice_builder \<Rightarrow> (ckb_invoice, invoice_error) res" where
  "build_invoice H now ib =
     bind_res (case (ib_payment_hash ib, ib_payment_preimage ib) of
         (Some h, None) \<Rightarrow> Ok h
       | (None, Some p) \<Rightarrow>
           Ok (hash_with H (case first_attr (\<lambda>a. case a of HashAlgorithm h \<Rightarrow> Some h | _ \<Rightarrow> None) (ib_attrs ib) of
               Some h \<Rightarrow> h | None \<Rightarrow> CkbHash) p)
       | (Some _, Some _) \<Rightarrow> Err BothPaymenthashAndPreimage
       | (None, None) \<Rightarrow> Err NeitherPaymenthashNorPreimage) (\<lambda>payment_hash.
     bind_res (check_attrs_valid (ib_attrs ib)) (\<lambda>_.
     Ok \<lparr>iv_currency = ib_currency ib, iv_amount = ib_amount ib, iv_data = \<lparr>id_timestamp = now, id_payment_hash = payment_hash, id_attrs = ib_attrs ib\<rparr>\<rparr>))"

section \<open>The store\<close>

record hold_tlc =
  ho_channel_id :: hash256
  ho_tlc_id :: u64
  ho_hold_expire_at :: u64

text \<open>Held TLCs are kept in the order of their database keys: payment hash, channel and the
  little-endian bytes of the TLC id.\<close>

record pay_store =
  ps_invoices :: "hash256 \<rightharpoonup> ckb_invoice"
  ps_invoice_status :: "hash256 \<rightharpoonup> ckb_invoice_status"
  ps_preimages :: "hash256 \<rightharpoonup> hash256"
  ps_invoice_preimages :: "hash256 \<Rightarrow> bool"
  ps_holds :: "(hash256 \<times> hold_tlc) list"
  ps_custom_records :: "hash256 \<rightharpoonup> (u32 \<rightharpoonup> bytes)"
  ps_channels :: "(hash256 \<times> channel) list"
  ps_watch :: watch_store

definition get_invoice :: "pay_store \<Rightarrow> hash256 \<Rightarrow> ckb_invoice option" where
  "get_invoice s h = ps_invoices s h"

definition get_invoice_status :: "pay_store \<Rightarrow> hash256 \<Rightarrow> ckb_invoice_status option" where
  "get_invoice_status s h = ps_invoice_status s h"

definition insert_invoice :: "pay_store \<Rightarrow> ckb_invoice \<Rightarrow> hash256 option \<Rightarrow> (pay_store, invoice_error) res" where
  "insert_invoice s i preimage =
     (let h = id_payment_hash (iv_data i) in
      if get_invoice s h \<noteq> None then Err DuplicatedInvoice
      else let s = s\<lparr>ps_invoices := (ps_invoices s)(h \<mapsto> i), ps_invoice_status := (ps_invoice_status s)(h \<mapsto> InvOpen)\<rparr>
           in Ok (case preimage of
               None \<Rightarrow> s
             | Some p \<Rightarrow> s\<lparr>ps_preimages := (ps_preimages s)(h \<mapsto> p), ps_invoice_preimages := (ps_invoice_preimages s)(h := True)\<rparr>))"

definition update_invoice_status :: "pay_store \<Rightarrow> hash256 \<Rightarrow> ckb_invoice_status \<Rightarrow> (pay_store, invoice_error) res" where
  "update_invoice_status s h st =
     (if get_invoice s h = None then Err InvoiceNotFound
      else Ok (s\<lparr>ps_invoice_status := (ps_invoice_status s)(h \<mapsto> st)\<rparr>))"

definition has_invoice_preimage :: "pay_store \<Rightarrow> hash256 \<Rightarrow> bool" where
  "has_invoice_preimage s h = ps_invoice_preimages s h"

definition insert_preimage :: "pay_store \<Rightarrow> hash256 \<Rightarrow> hash256 \<Rightarrow> pay_store" where
  "insert_preimage s h p = s\<lparr>ps_preimages := (ps_preimages s)(h \<mapsto> p)\<rparr>"

definition remove_preimage :: "pay_store \<Rightarrow> hash256 \<Rightarrow> pay_store" where
  "remove_preimage s h = s\<lparr>ps_preimages := (ps_preimages s)(h := None), ps_invoice_preimages := (ps_invoice_preimages s)(h := False)\<rparr>"

text \<open>A local node id is empty; the preimages of the node's own watchtower are consulted second.\<close>

definition get_preimage :: "pay_store \<Rightarrow> hash256 \<Rightarrow> hash256 option" where
  "get_preimage s h = (case ps_preimages s h of Some p \<Rightarrow> Some p | None \<Rightarrow> get_watch_preimage (ps_watch s) [] h)"

definition hold_key :: "hash256 \<times> hold_tlc \<Rightarrow> hash256 \<times> hash256 \<times> u64" where
  "hold_key = (\<lambda>(h, ho). (h, ho_channel_id ho, from_be_bytes (to_le_bytes (ho_tlc_id ho))))"

definition remove_payment_hold_tlc :: "pay_store \<Rightarrow> hash256 \<Rightarrow> hash256 \<Rightarrow> u64 \<Rightarrow> pay_store" where
  "remove_payment_hold_tlc s h channel_id tlc_id =
     s\<lparr>ps_holds := filter (\<lambda>(h', ho). \<not> (h' = h \<and> ho_channel_id ho = channel_id \<and> ho_tlc_id ho = tlc_id)) (ps_holds s)\<rparr>"

definition insert_payment_hold_tlc :: "pay_store \<Rightarrow> hash256 \<Rightarrow> hold_tlc \<Rightarrow> pay_store" where
  "insert_payment_hold_tlc s h ho =
     (let s = remove_payment_hold_tlc s h (ho_channel_id ho) (ho_tlc_id ho)
      in s\<lparr>ps_holds := insort_key hold_key (h, ho) (ps_holds s)\<rparr>)"

definition get_payment_hold_tlcs :: "pay_store \<Rightarrow> hash256 \<Rightarrow> hold_tlc list" where
  "get_payment_hold_tlcs s h = map snd (filter (\<lambda>(h', _). h' = h) (ps_holds s))"

definition get_channel_actor_state :: "pay_store \<Rightarrow> hash256 \<Rightarrow> channel option" where
  "get_channel_actor_state s channel_id = map_of (ps_channels s) channel_id"

section \<open>Commands on an invoice\<close>

datatype settle_invoice_error = SettleNotFound | HashMismatch | InvoiceStillOpen | SettleAlreadyCancelled
  | InvoiceAlreadyExpired | SettleAlreadyPaid

datatype cancel_invoice_error = CancelNotFound | CancelAlreadyCancelled | CancelAlreadyPaid | PaymentPreimageAlreadyExists
  | CancelInternalError

datatype receipt_effect =
    PreimageCreated hash256 hash256
  | SettleHoldTlcSet hash256
  | SettleReceivedHoldTlcSet hash256
  | PreimageRemoved hash256

definition add_invoice :: "pay_store \<Rightarrow> ckb_invoice \<Rightarrow> hash256 option \<Rightarrow> (pay_store, invoice_error) res" where
  "add_invoice s i preimage =
     (if get_invoice s (id_payment_hash (iv_data i)) \<noteq> None then Err InvoiceAlreadyExists else insert_invoice s i preimage)"

definition settle_invoice ::
  "hashers \<Rightarrow> u128 \<Rightarrow> pay_store \<Rightarrow> hash256 \<Rightarrow> hash256 \<Rightarrow> (pay_store \<times> receipt_effect list, settle_invoice_error) res" where
  "settle_invoice H now s h preimage =
     bind_res (ok_or (get_invoice s h) SettleNotFound) (\<lambda>i.
     bind_res (ensure (hash_with H (case invoice_hash_algorithm i of Some a \<Rightarrow> a | None \<Rightarrow> CkbHash) preimage = h) HashMismatch) (\<lambda>_.
     bind_res (case get_invoice_status s h of
         Some InvReceived \<Rightarrow> Ok ()
       | Some InvOpen \<Rightarrow> Err (if is_expired now i then InvoiceAlreadyExpired else InvoiceStillOpen)
       | Some InvCancelled \<Rightarrow> Err SettleAlreadyCancelled
       | Some InvExpired \<Rightarrow> Err InvoiceAlreadyExpired
       | Some InvPaid \<Rightarrow> Err SettleAlreadyPaid
       | None \<Rightarrow> Err SettleNotFound) (\<lambda>_.
     Ok (insert_preimage s h preimage, [PreimageCreated h preimage, SettleReceivedHoldTlcSet h]))))"

definition cancel_invoice ::
  "u128 \<Rightarrow> pay_store \<Rightarrow> hash256 \<Rightarrow> (pay_store \<times> receipt_effect list, cancel_invoice_error) res" where
  "cancel_invoice now s h =
     bind_res (ok_or (get_invoice s h) CancelNotFound) (\<lambda>i.
     bind_res (ok_or (get_invoice_status s h) CancelNotFound) (\<lambda>stored.
     let status = (if stored = InvOpen \<and> is_expired now i then InvExpired else stored) in
     bind_res (case status of
         InvPaid \<Rightarrow> Err CancelAlreadyPaid
       | InvCancelled \<Rightarrow> Err CancelAlreadyCancelled
       | InvReceived \<Rightarrow> if get_preimage s h \<noteq> None then Err PaymentPreimageAlreadyExists else Ok ()
       | _ \<Rightarrow> Ok ()) (\<lambda>_.
     case update_invoice_status s h InvCancelled of
       Ok s \<Rightarrow> Ok (s, [SettleHoldTlcSet h]) | Err _ \<Rightarrow> Err CancelInternalError | Panic \<Rightarrow> Panic)))"

section \<open>Features as sets of bits\<close>

lemma is_set_bit: "is_set v n \<longleftrightarrow> unat n div 8 < length v \<and> bit (v ! (unat n div 8)) (unat n mod 8)"
  by (auto simp: is_set_def Let_def bit_iff_and_drop_bit_eq_1 not_le)

lemma set_bit_to_bytes:
  "length (set_bit_to v n b) = max (length v) (unat n div 8 + 1)"
  "k < length (set_bit_to v n b) \<Longrightarrow> set_bit_to v n b ! k =
    (let old = (if k < length v then v ! k else 0) in
     if k = unat n div 8 then (if b then old OR push_bit (unat n mod 8) 1 else old AND NOT (push_bit (unat n mod 8) 1)) else old)"
  by (auto simp: set_bit_to_def Let_def nth_append)

lemma byte_bit_bound: "unat (n :: u16) mod 8 < 8" by simp

lemma is_set_set_bit_to: "is_set (set_bit_to v n b) m \<longleftrightarrow> (if m = n then b else is_set v m)"
proof -
  have split: "unat m div 8 = unat n div 8 \<and> unat m mod 8 = unat n mod 8 \<longleftrightarrow> m = n"
    by (metis div_mult_mod_eq word_unat_eq_iff)
  have set_bit: "bit (x OR push_bit k 1) j \<longleftrightarrow> bit x j \<or> j = k" "bit (x AND NOT (push_bit k 1)) j \<longleftrightarrow> bit x j \<and> j \<noteq> k"
    if "j < 8" "k < 8" for x :: u8 and j k
    using that by (auto simp: bit_or_iff bit_and_iff bit_not_iff bit_exp_iff)
  have byte: "unat m div 8 < length (set_bit_to v n b) \<Longrightarrow> bit (set_bit_to v n b ! (unat m div 8)) (unat m mod 8) \<longleftrightarrow>
      (if m = n then b else unat m div 8 < length v \<and> bit (v ! (unat m div 8)) (unat m mod 8))"
    unfolding set_bit_to_bytes(2) Let_def using split byte_bit_bound [of n] byte_bit_bound [of m] set_bit
    by (cases "unat m div 8 = unat n div 8"; cases "unat m div 8 < length v") (auto simp: bit_exp_iff)
  have "m = n \<Longrightarrow> unat m div 8 < length (set_bit_to v n b)" "unat m div 8 < length v \<Longrightarrow> unat m div 8 < length (set_bit_to v n b)"
    by (simp_all add: set_bit_to_bytes)
  with byte show ?thesis by (auto simp: is_set_bit)
qed


lemma set_enabled_features: "length v < 8192 \<Longrightarrow> set (enabled_features v) = {n. is_set v n}"
proof -
  assume len: "length v < 8192"
  have small: "unat (of_nat n :: u16) = n" if "n < 2 ^ 16" for n
    using that by (simp add: unsigned_of_nat take_bit_nat_eq_self)
  have bound: "unat (of_nat (length v * 8) :: u16) = length v * 8"
    using len by (intro small) simp
  have "n \<in> of_nat ` {0..<length v * 8}" if "is_set v n" for n
    using that by (intro image_eqI [of _ _ "unat n"]) (auto simp: is_set_bit)
  then show ?thesis unfolding enabled_features_def bound by auto
qed

text \<open>Feature vectors behave as sets of bits: setting or clearing one bit changes that bit alone, and
  a vector below the 16-bit limit of the enumeration is compatible with another exactly when every required
  (even) bit it sets is supported there, as required or as optional.
\<close>
lemma features_compatible:
  assumes "length v < 8192"
  shows "(compatible_with v w \<longleftrightarrow> (\<forall>n. is_set v n \<and> n mod 2 = 0 \<longrightarrow> is_set w n \<or> is_set w (n XOR 1))) \<and>
    (is_set (set_bit_to v n b) m \<longleftrightarrow> (if m = n then b else is_set v m))"
proof
  have required: "(\<not> (\<exists>n\<in>Collect P. (P n \<and> Q n) \<and> \<not> S n)) \<longleftrightarrow> (\<forall>n. P n \<and> Q n \<longrightarrow> S n)" for P Q S :: "u16 \<Rightarrow> bool" by blast
  show "compatible_with v w \<longleftrightarrow> (\<forall>n. is_set v n \<and> n mod 2 = 0 \<longrightarrow> is_set w n \<or> is_set w (n XOR 1))"
    unfolding compatible_with_def list_ex_iff requires_feature_def supports_feature_def set_enabled_features [OF assms] by (rule required)
qed (rule is_set_set_bit_to)

text \<open>The number of bits is cut to 16 bits, so a vector of 8192 bytes enables nothing and is compatible with
  every other, whatever it requires.\<close>

lemma long_features_ignored: "length v = 8192 \<Longrightarrow> enabled_features v = [] \<and> compatible_with v w"
  by (simp add: enabled_features_def compatible_with_def)

section \<open>Invoices the builder returns\<close>

definition wf_invoice :: "ckb_invoice \<Rightarrow> bool" where
  "wf_invoice i \<longleftrightarrow> distinct (map attr_kind (id_attrs (iv_data i))) \<and> (allow_mpp i \<longrightarrow> payment_secret i \<noteq> None) \<and>
     list_all (\<lambda>a. case a of Description d \<Rightarrow> \<not> MAX_DESCRIPTION_LENGTH < length d | FinalHtlcTimeout _ \<Rightarrow> False | _ \<Rightarrow> True) (id_attrs (iv_data i))"

lemma first_attr_None: "first_attr f as = None \<longleftrightarrow> list_all (\<lambda>a. f a = None) as"
  by (induction as) (auto split: option.split)

lemma check_attrs_valid_Ok:
  "check_attrs_valid attrs = Ok () \<Longrightarrow> wf_invoice \<lparr>iv_currency = c, iv_amount = a, iv_data = \<lparr>id_timestamp = t, id_payment_hash = h, id_attrs = attrs\<rparr>\<rparr>"
  by (auto simp: check_attrs_valid_def wf_invoice_def allow_mpp_def payment_secret_def first_attr_None list_all_iff list_ex_iff
      split: if_splits option.splits attribute.splits)

lemma replace_attr_kinds: "set (map attr_kind (replace_attr as a)) = insert (attr_kind a) (set (map attr_kind as))"
  by (induction as a rule: replace_attr.induct) auto

lemma replace_attr_distinct: "distinct (map attr_kind as) \<Longrightarrow> distinct (map attr_kind (replace_attr as a))"
proof (induction as a rule: replace_attr.induct)
  case (2 b bs a)
  then show ?case using replace_attr_kinds [of bs a] by auto
qed simp

lemma replace_attr_in: "a \<in> set (replace_attr as a)"
  by (induction as a rule: replace_attr.induct) auto

text \<open>C37. Every invoice the builder returns is well formed: no attribute is given twice, multi-part payment comes with
  a payment secret, the description is bounded and the deprecated time-out is absent; its payment hash is the
  given one or the hash of the given preimage, never both. Setting an attribute through the builder keeps the kinds distinct, and
  asking for multi-part payment is what the invoice then announces.
\<close>
theorem built_invoice_well_formed:
  assumes "build_invoice H now ib = Ok i"
  shows "wf_invoice i \<and> iv_amount i = ib_amount ib \<and> id_attrs (iv_data i) = ib_attrs ib \<and>
    (ib_payment_hash ib = Some (id_payment_hash (iv_data i)) \<and> ib_payment_preimage ib = None \<or>
     (\<exists>p. ib_payment_hash ib = None \<and> ib_payment_preimage ib = Some p \<and>
       id_payment_hash (iv_data i) = hash_with H (case invoice_hash_algorithm i of Some a \<Rightarrow> a | None \<Rightarrow> CkbHash) p)) \<and>
    distinct (map attr_kind (ib_attrs (update_attr ib a))) \<and>
    (ib_attrs ib = ib_attrs (builder_allow_mpp ib' True) \<longrightarrow> allow_mpp i)"
proof -
  from assms obtain h where i: "i = \<lparr>iv_currency = ib_currency ib, iv_amount = ib_amount ib,
      iv_data = \<lparr>id_timestamp = now, id_payment_hash = h, id_attrs = ib_attrs ib\<rparr>\<rparr>" and ok: "check_attrs_valid (ib_attrs ib) = Ok ()"
    and h: "(ib_payment_hash ib = Some h \<and> ib_payment_preimage ib = None) \<or>
      (\<exists>p. ib_payment_hash ib = None \<and> ib_payment_preimage ib = Some p \<and>
       h = hash_with H (case first_attr (\<lambda>a. case a of HashAlgorithm h \<Rightarrow> Some h | _ \<Rightarrow> None) (ib_attrs ib) of Some a \<Rightarrow> a | None \<Rightarrow> CkbHash) p)"
    by (auto simp: build_invoice_def bind_res_eq_Ok split: option.splits)
  have wf: "wf_invoice i" unfolding i by (rule check_attrs_valid_Ok [OF ok])
  have mpp: "allow_mpp i" if "ib_attrs ib = ib_attrs (builder_allow_mpp ib' True)"
  proof -
    from that obtain v where "Feature (set_bit_to v BASIC_MPP_OPTIONAL True) \<in> set (ib_attrs ib)"
      using replace_attr_in by (auto simp: builder_allow_mpp_def update_feature_vector_def update_attr_def)
    then show ?thesis
      by (auto simp: i allow_mpp_def list_ex_iff supports_basic_mpp_def supports_feature_def is_set_set_bit_to intro!: bexI)
  qed
  show ?thesis
    using wf mpp h replace_attr_distinct [of "ib_attrs ib" a]
    by (simp add: wf_invoice_def i update_attr_def invoice_hash_algorithm_def)
qed

definition sample_builder :: invoice_builder where
  "sample_builder = (invoice_builder_new Fibd)\<lparr>ib_payment_preimage := Some 7, ib_attrs := [PaymentSecret 5, Feature [8]]\<rparr>"

theorem built_invoice_well_formed_witness:
  "\<exists>i. build_invoice sample_hashers 0 sample_builder = Ok i \<and> wf_invoice i \<and> id_payment_hash (iv_data i) = 8"
proof -
  obtain i where i: "build_invoice sample_hashers 0 sample_builder = Ok i" "id_payment_hash (iv_data i) = 8"
    by (simp add: build_invoice_def sample_builder_def invoice_builder_new_def check_attrs_valid_def sample_hashers_def)
  then show ?thesis using built_invoice_well_formed [OF i(1)] by blast
qed

end
