(* ===== verification/Payment_Receipt.thy ===== *)
theory Payment_Receipt
  imports Invoice_Store
begin

text \<open>
  Receiving a payment: the final hop's checks of a TLC and the decision what to do with it
  (\<^verbatim>\<open>fiber-lib/src/fiber/channel.rs\<close>), the settlement of a set of TLCs against an invoice
  (\<^verbatim>\<open>fiber-lib/src/fiber/settle_tlc_set_command.rs\<close>, \<^verbatim>\<open>utils/payment.rs\<close>), and the network actor's
  commands for held TLCs (\<^verbatim>\<open>fiber-lib/src/fiber/network.rs\<close>). Peeling the onion and encrypting error
  packets are done by third-party packages: the peeled data and the function that builds a packet
  are arguments, as is the clock.
\<close>

section \<open>Error codes\<close>

definition BADONION :: u16 where "BADONION = 0x8000"
definition PERM :: u16 where "PERM = 0x4000"
definition NODE :: u16 where "NODE = 0x2000"
definition UPDATE :: u16 where "UPDATE = 0x1000"

definition CODE_IncorrectOrUnknownPaymentDetails :: u16 where "CODE_IncorrectOrUnknownPaymentDetails = PERM OR 15"
definition CODE_InvoiceExpired :: u16 where "CODE_InvoiceExpired = PERM OR 16"
definition CODE_InvoiceCancelled :: u16 where "CODE_InvoiceCancelled = PERM OR 17"
definition CODE_FinalIncorrectTlcAmount :: u16 where "CODE_FinalIncorrectTlcAmount = 19"
definition CODE_HoldTlcTimeout :: u16 where "CODE_HoldTlcTimeout = PERM OR 23"

definition is_perm :: "u16 \<Rightarrow> bool" where
  "is_perm code \<longleftrightarrow> code AND PERM \<noteq> 0"

record receipt_env =
  re_hashers :: hashers
  re_err_packet :: "u16 \<Rightarrow> 256 word \<Rightarrow> bytes"
  re_records_size_ok :: "(u32 \<rightharpoonup> bytes) \<Rightarrow> bool"

section \<open>Multi-part payment data\<close>

record basic_mpp_payment_data =
  mp_payment_secret :: hash256
  mp_total_amount :: u128

definition CUSTOM_RECORD_KEY :: u32 where "CUSTOM_RECORD_KEY = 65536"

definition mpp_to_vec :: "basic_mpp_payment_data \<Rightarrow> bytes" where
  "mpp_to_vec d = to_be_bytes (mp_payment_secret d) @ to_le_bytes (mp_total_amount d)"

definition mpp_write :: "basic_mpp_payment_data \<Rightarrow> (u32 \<rightharpoonup> bytes) \<Rightarrow> (u32 \<rightharpoonup> bytes)" where
  "mpp_write d records = records(CUSTOM_RECORD_KEY \<mapsto> mpp_to_vec d)"

definition mpp_read :: "(u32 \<rightharpoonup> bytes) \<Rightarrow> basic_mpp_payment_data option" where
  "mpp_read records = (case records CUSTOM_RECORD_KEY of
      None \<Rightarrow> None
    | Some data \<Rightarrow> if length data \<noteq> 32 + 16 then None
        else Some \<lparr>mp_payment_secret = from_be_bytes (take 32 data), mp_total_amount = from_le_bytes (drop 32 data)\<rparr>)"

section \<open>Invoices and TLCs\<close>

definition unwrap_or :: "'a option \<Rightarrow> 'a \<Rightarrow> 'a" where
  "unwrap_or x d = (case x of Some y \<Rightarrow> y | None \<Rightarrow> d)"

fun sum_checked :: "u128 \<Rightarrow> tlc_info list \<Rightarrow> u128 option" where
  "sum_checked acc [] = Some acc"
| "sum_checked acc (t # ts) = (case checked_add acc (ti_amount t) of None \<Rightarrow> None | Some a \<Rightarrow> sum_checked a ts)"

definition is_invoice_fulfilled :: "ckb_invoice \<Rightarrow> tlc_info list \<Rightarrow> bool" where
  "is_invoice_fulfilled i tlcs = (case tlcs of
      [] \<Rightarrow> False
    | first # rest \<Rightarrow>
        let declared = unwrap_or (ti_total_amount first) (ti_amount first) in
        if declared < unwrap_or (iv_amount i) 0 then False
        else let needed = unwrap_or (iv_amount i) declared in
          (case sum_checked (ti_amount first) rest of None \<Rightarrow> False | Some paid \<Rightarrow> paid \<ge> needed))"

definition channel_get_invoice_status :: "u64 \<Rightarrow> pay_store \<Rightarrow> ckb_invoice \<Rightarrow> ckb_invoice_status chan_res" where
  "channel_get_invoice_status now s i =
     bind_res (expect (get_invoice_status s (id_payment_hash (iv_data i)))) (\<lambda>st.
     Ok (if st = InvOpen \<and> is_expired (ucast now) i then InvExpired else st))"

definition is_waiting_forward_result_for_received_tlc :: "channel \<Rightarrow> tlc_id \<Rightarrow> bool" where
  "is_waiting_forward_result_for_received_tlc c i \<longleftrightarrow> ch_waiting_forward_tlc_tasks c i \<noteq> None"

fun is_queued_fail :: "tlc_id \<Rightarrow> retryable_tlc_operation \<Rightarrow> bool" where
  "is_queued_fail i (RetryRemoveTlc j (RemoveTlcFail _)) \<longleftrightarrow> j = i"
| "is_queued_fail i _ \<longleftrightarrow> False"

definition can_auto_fulfill_received_tlc :: "channel \<Rightarrow> tlc_info \<Rightarrow> bool" where
  "can_auto_fulfill_received_tlc c t \<longleftrightarrow> is_received t \<and> ti_removed_reason t = None \<and> ti_forwarding_tlc t = None \<and>
     \<not> is_waiting_forward_result_for_received_tlc c (ti_tlc_id t) \<and>
     \<not> list_ex (is_queued_fail (ti_tlc_id t)) (ch_retryable_tlc_operations c)"

section \<open>The final hop\<close>

record trampoline_final =
  tf_final_amount :: u128
  tf_final_tlc_expiry_delta :: u64
  tf_payment_preimage :: "hash256 option"
  tf_custom_records :: "(u32 \<rightharpoonup> bytes) option"

record peeled_hop =
  ph_amount :: u128
  ph_expiry :: u64
  ph_payment_preimage :: "hash256 option"
  ph_custom_records :: "(u32 \<rightharpoonup> bytes) option"

definition final_hop_payload ::
  "u64 \<Rightarrow> tlc_info \<Rightarrow> peeled_hop \<Rightarrow> trampoline_final option \<Rightarrow>
   (hash256 option \<times> (u32 \<rightharpoonup> bytes) option \<times> basic_mpp_payment_data option) chan_res" where
  "final_hop_payload now t hop inner = (case inner of
      Some f \<Rightarrow>
        let record = Option.bind (tf_custom_records f) mpp_read;
            matches = (case record of
                Some r \<Rightarrow> mp_total_amount r = tf_final_amount f \<and> ti_amount t \<le> tf_final_amount f
              | None \<Rightarrow> ti_amount t = tf_final_amount f)
        in bind_res (ensure (\<not> (ph_amount hop \<noteq> ti_amount t \<or> \<not> matches)) FinalIncorrectHTLCAmount) (\<lambda>_.
           bind_res (ok_or (checked_add now (max (tf_final_tlc_expiry_delta f) MIN_TLC_EXPIRY_DELTA)) IncorrectFinalTlcExpiry) (\<lambda>required.
           bind_res (ensure (\<not> (ti_expiry t < ph_expiry hop \<or> ti_expiry t < required)) IncorrectFinalTlcExpiry) (\<lambda>_.
           Ok (tf_payment_preimage f, tf_custom_records f, record))))
    | None \<Rightarrow>
        bind_res (ensure (\<not> ph_amount hop \<noteq> ti_amount t) FinalIncorrectHTLCAmount) (\<lambda>_.
        bind_res (ensure (\<not> ti_expiry t < ph_expiry hop) IncorrectFinalTlcExpiry) (\<lambda>_.
        Ok (ph_payment_preimage hop, ph_custom_records hop, Option.bind (ph_custom_records hop) mpp_read))))"

definition check_invoice_accepts :: "u64 \<Rightarrow> pay_store \<Rightarrow> ckb_invoice option \<Rightarrow> tlc_info \<Rightarrow> unit chan_res" where
  "check_invoice_accepts now s invoice t = (case invoice of
      None \<Rightarrow> Ok ()
    | Some i \<Rightarrow>
        bind_res (channel_get_invoice_status now s i) (\<lambda>st.
        bind_res (ensure (st = InvOpen) FinalInvoiceInvalid) (\<lambda>_.
        bind_res (ensure (ti_hash_algorithm t = unwrap_or (invoice_hash_algorithm i) CkbHash) FinalIncorrectPaymentHash) (\<lambda>_.
        bind_res (is_tlc_expire_too_soon (ucast now) i (ti_expiry t)) (\<lambda>soon.
        ensure (\<not> soon) IncorrectFinalTlcExpiry)))))"

definition check_mpp_record :: "ckb_invoice option \<Rightarrow> basic_mpp_payment_data option \<Rightarrow> tlc_info \<Rightarrow> tlc_info chan_res" where
  "check_mpp_record invoice mpp_record t = (case (invoice, mpp_record) of
      (Some i, Some record) \<Rightarrow>
        bind_res (ensure (\<not> mp_total_amount record < unwrap_or (iv_amount i) 0) FinalIncorrectMPPInfo) (\<lambda>_.
        bind_res (ensure (\<not> (iv_amount i \<noteq> None \<and> mp_total_amount record \<noteq> unwrap_or (iv_amount i) 0)) FinalIncorrectMPPInfo) (\<lambda>_.
        bind_res (ensure (\<not> (case payment_secret i of Some secret \<Rightarrow> secret \<noteq> mp_payment_secret record | None \<Rightarrow> False)) FinalIncorrectMPPInfo) (\<lambda>_.
        Ok (t\<lparr>ti_payment_secret := Some (mp_payment_secret record), ti_total_amount := Some (mp_total_amount record)\<rparr>))))
    | (Some i, None) \<Rightarrow>
        bind_res (ensure (\<not> (allow_mpp i \<or> payment_secret i \<noteq> None)) FinalIncorrectMPPInfo) (\<lambda>_.
        bind_res (ensure (is_invoice_fulfilled i [t]) FinalIncorrectHTLCAmount) (\<lambda>_. Ok t))
    | (None, Some _) \<Rightarrow> Err FinalIncorrectMPPInfo
    | (None, None) \<Rightarrow> Ok t)"

text \<open>The handler returns the channel and the store it leaves behind with its result, since it writes
  the payment data of the TLC before the checks of the preimage.\<close>

definition accept_preimage ::
  "receipt_env \<Rightarrow> pay_store \<Rightarrow> tlc_info \<Rightarrow> bool \<Rightarrow> hash256 option \<Rightarrow> (u32 \<rightharpoonup> bytes) option \<Rightarrow> pay_store \<times> unit chan_res" where
  "accept_preimage R s t has_invoice final_preimage custom_records =
     (case (case final_preimage of Some p \<Rightarrow> Some p | None \<Rightarrow> get_preimage s (ti_payment_hash t)) of
        Some p \<Rightarrow>
          if ti_payment_hash t \<noteq> hash_with (re_hashers R) (ti_hash_algorithm t) p then (s, Err FinalIncorrectPreimage)
          else (case custom_records of
              Some records \<Rightarrow> if \<not> re_records_size_ok R records then (s, Err InvalidParameter)
                else (insert_preimage (s\<lparr>ps_custom_records := (ps_custom_records s)(ti_payment_hash t \<mapsto> records)\<rparr>) (ti_payment_hash t) p, Ok ())
            | None \<Rightarrow> (insert_preimage s (ti_payment_hash t) p, Ok ()))
      | None \<Rightarrow> if \<not> has_invoice then (s, Err FinalIncorrectPaymentHash) else (s, Ok ()))"

definition apply_final_hop_tlc_onion_packet ::
  "receipt_env \<Rightarrow> u64 \<Rightarrow> pay_store \<Rightarrow> channel \<Rightarrow> tlc_info \<Rightarrow> ckb_invoice option \<Rightarrow> peeled_hop \<Rightarrow> trampoline_final option \<Rightarrow>
   channel \<times> pay_store \<times> unit chan_res" where
  "apply_final_hop_tlc_onion_packet R now s c add_tlc invoice hop inner =
     (case bind_res (final_hop_payload now add_tlc hop inner) (\<lambda>payload.
           bind_res (check_invoice_accepts now s invoice add_tlc) (\<lambda>_.
           bind_res (ok_or (get_mut (ch_tlc_state c) (ti_tlc_id add_tlc)) InternalError) (\<lambda>t.
           bind_res (check_mpp_record invoice (snd (snd payload)) t) (\<lambda>t'. Ok (payload, t'))))) of
        Err e \<Rightarrow> (c, s, Err e) | Panic \<Rightarrow> (c, s, Panic)
      | Ok ((preimage, records, _), t') \<Rightarrow>
          let c = set_tlc_state c (modify_tlc (ch_tlc_state c) (ti_tlc_id add_tlc) (\<lambda>_. t'));
              (s, r) = accept_preimage R s add_tlc (invoice \<noteq> None) preimage records
          in (c, s, r))"

section \<open>What to do with a TLC that pays this node\<close>

definition DEFAULT_HOLD_TLC_TIMEOUT :: u64 where "DEFAULT_HOLD_TLC_TIMEOUT = 120 * 1000"

record pending_notify_settle_tlc =
  pn_payment_hash :: hash256
  pn_tlc_id :: u64
  pn_hold_expire_at :: "u64 option"

datatype settle_decision = LeaveTlc | RemoveTlcWith remove_tlc_reason | NotifySettle pending_notify_settle_tlc

definition fail_reason :: "receipt_env \<Rightarrow> u16 \<Rightarrow> 256 word \<Rightarrow> remove_tlc_reason" where
  "fail_reason R code secret = RemoveTlcFail (re_err_packet R code secret)"

definition hold_invoice_expire_at :: "ckb_invoice \<Rightarrow> tlc_info \<Rightarrow> u64" where
  "hold_invoice_expire_at i t = (case expiry_time i of
      Some d \<Rightarrow> (let m = min (saturating_add (as_millis d) (id_timestamp (iv_data i))) (ucast (ti_expiry t))
        in if unat m < 2 ^ 64 then ucast m else - 1)
    | None \<Rightarrow> ti_expiry t)"

definition try_to_settle_down_tlc_with_invoice ::
  "receipt_env \<Rightarrow> u64 \<Rightarrow> pay_store \<Rightarrow> tlc_info \<Rightarrow> ckb_invoice \<Rightarrow> settle_decision chan_res" where
  "try_to_settle_down_tlc_with_invoice R now s t i =
     bind_res (channel_get_invoice_status now s i) (\<lambda>st. case st of
        InvExpired \<Rightarrow> Ok (RemoveTlcWith (fail_reason R CODE_InvoiceExpired (ti_shared_secret t)))
      | InvCancelled \<Rightarrow> Ok (RemoveTlcWith (fail_reason R CODE_InvoiceCancelled (ti_shared_secret t)))
      | InvPaid \<Rightarrow> Ok LeaveTlc
      | _ \<Rightarrow>
          if \<not> allow_mpp i \<and> \<not> is_invoice_fulfilled i [t]
          then Ok (RemoveTlcWith (fail_reason R CODE_FinalIncorrectTlcAmount (ti_shared_secret t)))
          else bind_res (if get_preimage s (ti_payment_hash t) \<noteq> None
                         then (if allow_mpp i then bind_res (plus_u now DEFAULT_HOLD_TLC_TIMEOUT) (\<lambda>e. Ok (Some e)) else Ok None)
                         else Ok (Some (hold_invoice_expire_at i t))) (\<lambda>expire.
               Ok (NotifySettle \<lparr>pn_payment_hash = ti_payment_hash t, pn_tlc_id = tlc_id_u64 (ti_tlc_id t), pn_hold_expire_at = expire\<rparr>)))"

definition try_to_settle_down_tlc_without_invoice :: "pay_store \<Rightarrow> tlc_info \<Rightarrow> settle_decision" where
  "try_to_settle_down_tlc_without_invoice s t = (case get_preimage s (ti_payment_hash t) of
      None \<Rightarrow> LeaveTlc | Some p \<Rightarrow> RemoveTlcWith (RemoveTlcFulfill p))"

definition try_to_settle_down_tlc :: "receipt_env \<Rightarrow> u64 \<Rightarrow> pay_store \<Rightarrow> channel \<Rightarrow> tlc_id \<Rightarrow> settle_decision chan_res" where
  "try_to_settle_down_tlc R now s c i =
     bind_res (expect (get (ch_tlc_state c) i)) (\<lambda>t.
     if \<not> can_auto_fulfill_received_tlc c t then Ok LeaveTlc
     else case get_invoice s (ti_payment_hash t) of
         Some invoice \<Rightarrow>
           bind_res (ensure (\<not> ch_funding_udt_type_script c \<noteq> udt_type_script invoice) InvalidParameter) (\<lambda>_.
           try_to_settle_down_tlc_with_invoice R now s t invoice)
       | None \<Rightarrow> Ok (try_to_settle_down_tlc_without_invoice s t))"

section \<open>Settling a set of TLCs\<close>

record tlc_settlement_context =
  tc_channel_id :: hash256
  tc_id :: u64
  tc_amount :: u128
  tc_total_amount :: "u128 option"
  tc_shared_secret :: "256 word"

record tlc_settlement =
  tl_channel_id :: hash256
  tl_remove_tlc_command :: remove_tlc_command

record settle_tlc_set_command =
  sc_payment_hash :: hash256
  sc_is_hold_tlc_set :: bool
  sc_allow_received_invoice :: bool
  sc_tlcs :: "tlc_settlement_context list"

definition total_amount_or_amount :: "tlc_settlement_context \<Rightarrow> u128" where
  "total_amount_or_amount t = unwrap_or (tc_total_amount t) (tc_amount t)"

definition into_remove_tlc_fail_settlement :: "receipt_env \<Rightarrow> u16 \<Rightarrow> tlc_settlement_context \<Rightarrow> tlc_settlement" where
  "into_remove_tlc_fail_settlement R code t = \<lparr>tl_channel_id = tc_channel_id t,
     tl_remove_tlc_command = \<lparr>rc_id = tc_id t, rc_reason = fail_reason R code (tc_shared_secret t)\<rparr>\<rparr>"

definition into_remove_tlc_fulfill_settlement :: "hash256 \<Rightarrow> tlc_settlement_context \<Rightarrow> tlc_settlement" where
  "into_remove_tlc_fulfill_settlement preimage t = \<lparr>tl_channel_id = tc_channel_id t,
     tl_remove_tlc_command = \<lparr>rc_id = tc_id t, rc_reason = RemoveTlcFulfill preimage\<rparr>\<rparr>"

definition make_settlement_context :: "pay_store \<Rightarrow> hash256 \<times> u64 \<Rightarrow> tlc_settlement_context option" where
  "make_settlement_context s = (\<lambda>(channel_id, tlc_id).
     case get_channel_actor_state s channel_id of
       None \<Rightarrow> None
     | Some c \<Rightarrow> (case get (ch_tlc_state c) (Received tlc_id) of
           None \<Rightarrow> None
         | Some t \<Rightarrow> if can_auto_fulfill_received_tlc c t
             then Some \<lparr>tc_channel_id = channel_id, tc_id = tlc_id_u64 (ti_tlc_id t), tc_amount = ti_amount t,
               tc_total_amount = ti_total_amount t, tc_shared_secret = ti_shared_secret t\<rparr>
             else None))"

definition new_hold_tlc_set_with_received_invoice :: "pay_store \<Rightarrow> hash256 \<Rightarrow> bool \<Rightarrow> settle_tlc_set_command" where
  "new_hold_tlc_set_with_received_invoice s h allow = \<lparr>sc_payment_hash = h, sc_is_hold_tlc_set = True, sc_allow_received_invoice = allow,
     sc_tlcs = List.map_filter (\<lambda>ho. make_settlement_context s (ho_channel_id ho, ho_tlc_id ho)) (get_payment_hold_tlcs s h)\<rparr>"

definition new_hold_tlc_set :: "pay_store \<Rightarrow> hash256 \<Rightarrow> settle_tlc_set_command" where
  "new_hold_tlc_set s h = new_hold_tlc_set_with_received_invoice s h False"

definition new_received_hold_tlc_set :: "pay_store \<Rightarrow> hash256 \<Rightarrow> settle_tlc_set_command" where
  "new_received_hold_tlc_set s h = new_hold_tlc_set_with_received_invoice s h True"

definition new_immediate_tlc_set :: "pay_store \<Rightarrow> hash256 \<Rightarrow> (hash256 \<times> u64) list \<Rightarrow> settle_tlc_set_command" where
  "new_immediate_tlc_set s h ids = \<lparr>sc_payment_hash = h, sc_is_hold_tlc_set = False, sc_allow_received_invoice = False,
     sc_tlcs = List.map_filter (make_settlement_context s) ids\<rparr>"

definition new_tlc_set :: "pay_store \<Rightarrow> hash256 \<Rightarrow> (hash256 \<times> u64) list \<Rightarrow> settle_tlc_set_command" where
  "new_tlc_set s h ids = (if ids = [] then new_hold_tlc_set s h else new_immediate_tlc_set s h ids)"

definition reject_tlcs :: "receipt_env \<Rightarrow> tlc_settlement_context list \<Rightarrow> u16 \<Rightarrow> tlc_settlement list" where
  "reject_tlcs R tlcs code = map (into_remove_tlc_fail_settlement R code) tlcs"

definition retain_until :: "u128 \<Rightarrow> tlc_settlement_context list \<Rightarrow> u128 \<times> nat" where
  "retain_until needed tlcs = fold (\<lambda>t (acc, n). if acc < needed then (saturating_add acc (tc_amount t), n + 1) else (acc, n)) tlcs (0, 0)"

definition leave_just_fulfilled_tlcs_for_mpp_invoice ::
  "receipt_env \<Rightarrow> ckb_invoice \<Rightarrow> tlc_settlement_context list \<Rightarrow> tlc_settlement_context list \<times> tlc_settlement list" where
  "leave_just_fulfilled_tlcs_for_mpp_invoice R i tlcs = (case tlcs of
      [] \<Rightarrow> ([], [])
    | first # _ \<Rightarrow>
        let declared = total_amount_or_amount first in
        if declared < unwrap_or (iv_amount i) 0 then ([], reject_tlcs R tlcs CODE_IncorrectOrUnknownPaymentDetails)
        else let needed = unwrap_or (iv_amount i) declared; (acc, n) = retain_until needed tlcs
             in if acc < needed then ([], []) else (take n tlcs, reject_tlcs R (drop n tlcs) CODE_HoldTlcTimeout))"

definition swap_remove :: "'a list \<Rightarrow> nat \<Rightarrow> 'a list" where
  "swap_remove xs k = butlast (xs[k := last xs])"

fun position :: "('a \<Rightarrow> bool) \<Rightarrow> 'a list \<Rightarrow> nat option" where
  "position P [] = None"
| "position P (x # xs) = (if P x then Some 0 else map_option Suc (position P xs))"

definition leave_just_fulfilled_tlcs_for_non_mpp_invoice ::
  "receipt_env \<Rightarrow> ckb_invoice \<Rightarrow> tlc_settlement_context list \<Rightarrow> tlc_settlement_context list \<times> tlc_settlement list" where
  "leave_just_fulfilled_tlcs_for_non_mpp_invoice R i tlcs = (case position (\<lambda>t. tc_amount t \<ge> unwrap_or (iv_amount i) 0) tlcs of
      None \<Rightarrow> ([], reject_tlcs R tlcs CODE_IncorrectOrUnknownPaymentDetails)
    | Some k \<Rightarrow> ([tlcs ! k], reject_tlcs R (swap_remove tlcs k) CODE_HoldTlcTimeout))"

definition leave_just_fulfilled_tlcs ::
  "receipt_env \<Rightarrow> ckb_invoice \<Rightarrow> tlc_settlement_context list \<Rightarrow> tlc_settlement_context list \<times> tlc_settlement list" where
  "leave_just_fulfilled_tlcs R i tlcs = (if allow_mpp i then leave_just_fulfilled_tlcs_for_mpp_invoice R i tlcs
     else leave_just_fulfilled_tlcs_for_non_mpp_invoice R i tlcs)"

definition verify_invoice_status :: "u64 \<Rightarrow> settle_tlc_set_command \<Rightarrow> ckb_invoice \<Rightarrow> ckb_invoice_status \<Rightarrow> (unit, u16) res" where
  "verify_invoice_status now cmd i st = (case st of
      InvOpen \<Rightarrow> if is_expired (ucast now) i then Err CODE_InvoiceExpired else Ok ()
    | InvReceived \<Rightarrow> if sc_is_hold_tlc_set cmd then Ok () else Err CODE_HoldTlcTimeout
    | InvExpired \<Rightarrow> Err CODE_InvoiceExpired
    | InvCancelled \<Rightarrow> Err CODE_InvoiceCancelled
    | InvPaid \<Rightarrow> Err CODE_HoldTlcTimeout)"

fun windows_agree :: "'a list \<Rightarrow> bool" where
  "windows_agree (x # y # zs) \<longleftrightarrow> x = y \<and> windows_agree (y # zs)"
| "windows_agree _ \<longleftrightarrow> True"

definition verify_mpp_tlcs_have_consistent_total_amount :: "settle_tlc_set_command \<Rightarrow> ckb_invoice \<Rightarrow> (unit, u16) res" where
  "verify_mpp_tlcs_have_consistent_total_amount cmd i =
     ensure (\<not> (allow_mpp i \<and> length (sc_tlcs cmd) > 1 \<and> \<not> windows_agree (map tc_total_amount (sc_tlcs cmd)))) CODE_IncorrectOrUnknownPaymentDetails"

definition should_skip_received_hold_set :: "settle_tlc_set_command \<Rightarrow> ckb_invoice_status \<Rightarrow> bool" where
  "should_skip_received_hold_set cmd st \<longleftrightarrow> st = InvReceived \<and> sc_is_hold_tlc_set cmd \<and> \<not> sc_allow_received_invoice cmd"

definition mark_invoice_as_received_if_still_open :: "pay_store \<Rightarrow> hash256 \<Rightarrow> ckb_invoice_status \<Rightarrow> (pay_store, unit) res" where
  "mark_invoice_as_received_if_still_open s h st =
     (if st = InvOpen then (case update_invoice_status s h InvReceived of Ok s \<Rightarrow> Ok s | _ \<Rightarrow> Panic) else Ok s)"

definition try_settle_all :: "pay_store \<Rightarrow> hash256 \<Rightarrow> tlc_settlement_context list \<Rightarrow> tlc_settlement list" where
  "try_settle_all s h tlcs = (case get_preimage s h of
      Some p \<Rightarrow> map (into_remove_tlc_fulfill_settlement p) tlcs | None \<Rightarrow> [])"

definition run_settle_tlc_set :: "receipt_env \<Rightarrow> u64 \<Rightarrow> pay_store \<Rightarrow> settle_tlc_set_command \<Rightarrow> (tlc_settlement list \<times> pay_store, unit) res" where
  "run_settle_tlc_set R now s cmd =
     (let h = sc_payment_hash cmd in
      case (get_invoice s h, get_invoice_status s h) of
        (Some i, Some st) \<Rightarrow>
          (case bind_res (verify_invoice_status now cmd i st) (\<lambda>_. verify_mpp_tlcs_have_consistent_total_amount cmd i) of
             Err code \<Rightarrow> Ok (reject_tlcs R (sc_tlcs cmd) code, s)
           | Panic \<Rightarrow> Panic
           | Ok _ \<Rightarrow>
               if should_skip_received_hold_set cmd st then Ok ([], s)
               else let (tlcs, rejected) = leave_just_fulfilled_tlcs R i (sc_tlcs cmd) in
                 if tlcs = [] then Ok (rejected, s)
                 else bind_res (mark_invoice_as_received_if_still_open s h st) (\<lambda>s.
                   Ok (try_settle_all s h tlcs @ rejected, s)))
      | _ \<Rightarrow> Ok (reject_tlcs R (sc_tlcs cmd) CODE_InvoiceCancelled, s))"

section \<open>Settlement seen on the chain\<close>

definition collect_onchain_fulfilled_received_tlcs :: "receipt_env \<Rightarrow> pay_store \<Rightarrow> hash256 \<Rightarrow> tlc_info list" where
  "collect_onchain_fulfilled_received_tlcs R s h =
     concat (map (\<lambda>(channel_id, _). case get_channel_actor_state s channel_id of
         None \<Rightarrow> []
       | Some c \<Rightarrow> filter (\<lambda>t. ti_forwarding_tlc t = None \<and> ch_waiting_forward_tlc_tasks c (ti_tlc_id t) = None \<and> ti_payment_hash t = h \<and>
           (case ti_removed_reason t of
              Some (RemoveTlcFulfill p) \<Rightarrow> onchain_fulfilled_preimage (re_hashers R) (ch_id c) (ps_watch s) t = Some p
            | _ \<Rightarrow> False)) (received_list (ch_tlc_state c))) (ps_channels s))"

definition run_settle_onchain_fulfilled_invoice :: "receipt_env \<Rightarrow> pay_store \<Rightarrow> hash256 \<Rightarrow> (bool \<times> pay_store, unit) res" where
  "run_settle_onchain_fulfilled_invoice R s h =
     (case get_invoice s h of
        None \<Rightarrow> Ok (False, s)
      | Some i \<Rightarrow>
          if get_invoice_status s h = Some InvPaid then Ok (False, s)
          else let tlcs = collect_onchain_fulfilled_received_tlcs R s h in
            if allow_mpp i \<and> length tlcs > 1 \<and> \<not> windows_agree (map ti_total_amount tlcs) then Ok (False, s)
            else if is_invoice_fulfilled i tlcs then (case update_invoice_status s h InvPaid of Ok s \<Rightarrow> Ok (True, s) | _ \<Rightarrow> Panic)
            else Ok (False, s))"

section \<open>A settled TLC and its invoice\<close>

definition has_matching_tlc :: "hash256 \<Rightarrow> channel \<Rightarrow> bool" where
  "has_matching_tlc h c \<longleftrightarrow> list_ex (\<lambda>t. ti_payment_hash t = h) (all_tlcs (ch_tlc_state c)) \<or>
     (case ch_session_v2 c of Some v \<Rightarrow> list_ex (\<lambda>(t, _). ti_payment_hash t = h) (sv_remove_effects v) | None \<Rightarrow> False)"

definition has_pending_tlc_for_payment_hash :: "pay_store \<Rightarrow> channel \<Rightarrow> hash256 \<Rightarrow> bool" where
  "has_pending_tlc_for_payment_hash s c h \<longleftrightarrow> has_matching_tlc h c \<or>
     list_ex (\<lambda>(channel_id, _). channel_id \<noteq> ch_id c \<and>
       (case get_channel_actor_state s channel_id of Some c' \<Rightarrow> has_matching_tlc h c' | None \<Rightarrow> False)) (ps_channels s)"

text \<open>The part of \<open>apply_remove_tlc_operation\<close> that records a fulfilled TLC in the store; \<open>c\<close> is the
  channel after the removal.\<close>

definition record_fulfilled_tlc :: "pay_store \<Rightarrow> channel \<Rightarrow> bool \<Rightarrow> tlc_info \<Rightarrow> (pay_store \<times> receipt_effect list, unit) res" where
  "record_fulfilled_tlc s c was_waiting_forward t =
     (let h = ti_payment_hash t in
      bind_res (if is_received t \<and> ti_forwarding_tlc t = None \<and> \<not> was_waiting_forward \<and> get_invoice s h \<noteq> None
                then (case update_invoice_status s h InvPaid of Ok s \<Rightarrow> Ok s | _ \<Rightarrow> Panic) else Ok s) (\<lambda>s.
      let retain_invoice_preimage = (has_invoice_preimage s h \<and> get_invoice_status s h = Some InvOpen) in
      Ok (if \<not> retain_invoice_preimage \<and> \<not> has_pending_tlc_for_payment_hash s c h
          then (remove_preimage s h, [PreimageRemoved h]) else (s, []))))"

section \<open>Held TLCs\<close>

definition timeout_hold_tlc :: "receipt_env \<Rightarrow> pay_store \<Rightarrow> hash256 \<Rightarrow> hash256 \<Rightarrow> u64 \<Rightarrow> tlc_settlement list \<times> pay_store" where
  "timeout_hold_tlc R s h channel_id tlc_id =
     (if \<not> list_ex (\<lambda>ho. ho_channel_id ho = channel_id \<and> ho_tlc_id ho = tlc_id) (get_payment_hold_tlcs s h) then ([], s)
      else if get_invoice_status s h = Some InvReceived then ([], s)
      else case Option.bind (get_channel_actor_state s channel_id) (\<lambda>c. get (ch_tlc_state c) (Received tlc_id)) of
          None \<Rightarrow> ([], remove_payment_hold_tlc s h channel_id tlc_id)
        | Some t \<Rightarrow> ([\<lparr>tl_channel_id = channel_id, tl_remove_tlc_command =
              \<lparr>rc_id = tlc_id_u64 (ti_tlc_id t), rc_reason = fail_reason R CODE_HoldTlcTimeout (ti_shared_secret t)\<rparr>\<rparr>], s))"

definition settle_hold_tlc_set :: "receipt_env \<Rightarrow> u64 \<Rightarrow> pay_store \<Rightarrow> hash256 \<Rightarrow> (tlc_settlement list \<times> pay_store, unit) res" where
  "settle_hold_tlc_set R now s h = run_settle_tlc_set R now s (new_hold_tlc_set s h)"

definition handed_over :: "pay_store \<Rightarrow> hash256 \<Rightarrow> hold_tlc \<Rightarrow> bool" where
  "handed_over s h ho = (case get_channel_actor_state s (ho_channel_id ho) of
      None \<Rightarrow> False
    | Some c \<Rightarrow> (case get (ch_tlc_state c) (Received (ho_tlc_id ho)) of
          None \<Rightarrow> False
        | Some t \<Rightarrow> ti_payment_hash t = h \<and> (ti_removed_reason t \<noteq> None \<or>
            list_ex (\<lambda>op. case op of RetryRemoveTlc queued _ \<Rightarrow> queued = Received (ho_tlc_id ho) | _ \<Rightarrow> False) (ch_retryable_tlc_operations c))))"

definition complete_hold_handoff :: "pay_store \<Rightarrow> hash256 \<Rightarrow> pay_store" where
  "complete_hold_handoff s h = fold (\<lambda>ho s. if handed_over s h ho then remove_payment_hold_tlc s h (ho_channel_id ho) (ho_tlc_id ho) else s)
     (get_payment_hold_tlcs s h) s"

definition settle_received_hold_tlc_set :: "receipt_env \<Rightarrow> u64 \<Rightarrow> pay_store \<Rightarrow> hash256 \<Rightarrow> (tlc_settlement list \<times> pay_store, unit) res" where
  "settle_received_hold_tlc_set R now s h =
     (let s = complete_hold_handoff s h in run_settle_tlc_set R now s (new_received_hold_tlc_set s h))"

definition settle_tlc_set :: "receipt_env \<Rightarrow> u64 \<Rightarrow> pay_store \<Rightarrow> hash256 \<Rightarrow> (hash256 \<times> u64) list \<Rightarrow> (tlc_settlement list \<times> pay_store, unit) res" where
  "settle_tlc_set R now s h ids = run_settle_tlc_set R now s (new_tlc_set s h ids)"

definition remove_tlc_result :: "pay_store \<Rightarrow> hash256 option \<Rightarrow> hash256 \<Rightarrow> u64 \<Rightarrow> unit chan_res \<Rightarrow> pay_store" where
  "remove_tlc_result s hold_payment_hash channel_id tlc_id result =
     (if result = Ok () \<or> result = Err WaitingTlcAck
      then (case hold_payment_hash of Some h \<Rightarrow> remove_payment_hold_tlc s h channel_id tlc_id | None \<Rightarrow> s)
      else s)"

section \<open>The prefix that completes a payment\<close>

definition ctx_sum :: "tlc_settlement_context list \<Rightarrow> nat" where
  "ctx_sum tlcs = (\<Sum>t\<leftarrow>tlcs. unat (tc_amount t))"

lemma ctx_sum_simps [simp]: "ctx_sum [] = 0" "ctx_sum (t # ts) = unat (tc_amount t) + ctx_sum ts"
  by (simp_all add: ctx_sum_def)

lemma unat_u128_bound: "unat (x :: u128) \<le> 2 ^ 128 - 1"
  using unsigned_less [of x, where ?'a = nat] by simp

lemma retain_fold:
  assumes "fold (\<lambda>t (acc, n). if acc < needed then (saturating_add acc (tc_amount t), n + 1) else (acc, n)) tlcs (a, m) = (acc, n)"
  shows "\<exists>k. n = m + k \<and> k \<le> length tlcs \<and> unat acc = min (unat a + ctx_sum (take k tlcs)) (2 ^ 128 - 1) \<and>
    (acc < needed \<longrightarrow> k = length tlcs) \<and> (a < needed \<and> tlcs \<noteq> [] \<longrightarrow> 0 < k) \<and>
    (\<forall>j<k. unat a + ctx_sum (take j tlcs) < unat needed)"
  using assms
proof (induction tlcs arbitrary: a m)
  case Nil
  then show ?case using unat_u128_bound [of acc] by (simp add: min_def)
next
  case (Cons t ts)
  show ?case
  proof (cases "a < needed")
    case True
    with Cons.prems have "fold (\<lambda>t (acc, n). if acc < needed then (saturating_add acc (tc_amount t), n + 1) else (acc, n)) ts
        (saturating_add a (tc_amount t), m + 1) = (acc, n)" by simp
    from Cons.IH [OF this] obtain k where "n = m + 1 + k" "k \<le> length ts" "acc < needed \<longrightarrow> k = length ts"
      "unat acc = min (unat (saturating_add a (tc_amount t)) + ctx_sum (take k ts)) (2 ^ 128 - 1)"
      and before: "\<forall>j<k. unat (saturating_add a (tc_amount t)) + ctx_sum (take j ts) < unat needed" by blast
    moreover have "unat a + ctx_sum (take j (t # ts)) < unat needed" if "j < Suc k" for j
      using that True before unat_u128_bound [of needed]
      by (cases j) (auto simp: word_less_nat_alt rust_arith min_def split: if_splits)
    ultimately show ?thesis by (intro exI [of _ "Suc k"]) (auto simp: rust_arith)
  next
    case False
    then have "fold (\<lambda>t (acc, n). if acc < needed then (saturating_add acc (tc_amount t), n + 1) else (acc, n)) ts (a, m) = (a, m)"
      by (induction ts) simp_all
    with Cons.prems False show ?thesis using unat_u128_bound [of a] by (intro exI [of _ 0]) auto
  qed
qed

lemma retain_until_spec:
  assumes "retain_until needed tlcs = (acc, n)"
  shows "n \<le> length tlcs \<and> unat acc = min (ctx_sum (take n tlcs)) (2 ^ 128 - 1) \<and> (acc < needed \<longrightarrow> n = length tlcs) \<and>
    (0 < needed \<and> tlcs \<noteq> [] \<longrightarrow> 0 < n) \<and> (\<forall>j<n. ctx_sum (take j tlcs) < unat needed)"
  using retain_fold [of needed tlcs 0 0 acc n] assms by (auto simp: retain_until_def)

lemma ctx_sum_take: "ctx_sum (take n tlcs) \<le> ctx_sum tlcs"
  by (induction tlcs arbitrary: n) (auto simp: take_Cons split: nat.split)

lemma retain_until_enough:
  assumes "retain_until needed tlcs = (acc, n)"
  shows "acc < needed \<longleftrightarrow> ctx_sum tlcs < unat needed" and "\<not> acc < needed \<Longrightarrow> unat needed \<le> ctx_sum (take n tlcs)"
proof -
  have acc: "unat acc = min (ctx_sum (take n tlcs)) (2 ^ 128 - 1)" and all: "acc < needed \<Longrightarrow> n = length tlcs"
    using retain_until_spec [OF assms] by blast+
  have le: "unat needed \<le> 2 ^ 128 - 1" by (rule unat_u128_bound)
  have bound: "unat acc \<le> ctx_sum (take n tlcs)" unfolding acc by (rule min.cobounded1)
  show taken: "unat needed \<le> ctx_sum (take n tlcs)" if "\<not> acc < needed"
    using that bound unfolding word_less_nat_alt by linarith
  show "acc < needed \<longleftrightarrow> ctx_sum tlcs < unat needed"
  proof
    assume less: "acc < needed"
    then have "unat acc < unat needed" unfolding word_less_nat_alt .
    moreover have "ctx_sum (take n tlcs) = ctx_sum tlcs" using all [OF less] by (metis take_all order_refl)
    ultimately show "ctx_sum tlcs < unat needed" using acc le unfolding min_def by (metis leD)
  next
    assume "ctx_sum tlcs < unat needed"
    then show "acc < needed" using taken ctx_sum_take [of n tlcs] by (meson leD le_trans)
  qed
qed

lemma position_Some: "position P xs = Some k \<Longrightarrow> k < length xs \<and> P (xs ! k)"
  by (induction xs arbitrary: k) (auto split: if_splits)

lemma swap_remove_mset: "k < length xs \<Longrightarrow> add_mset (xs ! k) (mset (swap_remove xs k)) = mset xs"
proof -
  assume k: "k < length xs"
  then have "xs \<noteq> []" by auto
  have "xs[k := last xs] \<noteq> []" using k by auto
  have lst: "last (xs[k := last xs]) = last xs"
    using k \<open>xs \<noteq> []\<close> by (cases "k = length xs - 1") (auto simp: last_conv_nth)
  have "mset (xs[k := last xs]) = add_mset (last (xs[k := last xs])) (mset (butlast (xs[k := last xs])))"
    using append_butlast_last_id [OF \<open>xs[k := last xs] \<noteq> []\<close>] by (metis add_mset_add_single mset.simps(1,2) mset_append)
  with lst have "mset (xs[k := last xs]) = add_mset (last xs) (mset (swap_remove xs k))" by (simp add: swap_remove_def)
  moreover have "mset (xs[k := last xs]) = add_mset (last xs) (mset xs - {#xs ! k#})" using k by (rule mset_update)
  ultimately have "mset (swap_remove xs k) = mset xs - {#xs ! k#}" by simp
  with k show ?thesis by simp
qed

section \<open>What a settlement of a set may do\<close>

definition ctx_tlc :: "tlc_settlement_context \<Rightarrow> hash256 \<times> u64" where
  "ctx_tlc t = (tc_channel_id t, tc_id t)"

definition settled_tlc :: "tlc_settlement \<Rightarrow> hash256 \<times> u64" where
  "settled_tlc x = (tl_channel_id x, rc_id (tl_remove_tlc_command x))"

definition is_fail_settlement :: "tlc_settlement \<Rightarrow> bool" where
  "is_fail_settlement x \<longleftrightarrow> is_fail_reason (Some (rc_reason (tl_remove_tlc_command x)))"

lemma settled_tlc_simps [simp]:
  "settled_tlc (into_remove_tlc_fulfill_settlement p t) = ctx_tlc t" "settled_tlc (into_remove_tlc_fail_settlement R code t) = ctx_tlc t"
  by (simp_all add: settled_tlc_def ctx_tlc_def into_remove_tlc_fulfill_settlement_def into_remove_tlc_fail_settlement_def)

lemma reject_tlcs_ids [simp]: "map settled_tlc (reject_tlcs R tlcs code) = map ctx_tlc tlcs"
  by (simp add: reject_tlcs_def)

lemma reject_tlcs_mset [simp]: "image_mset settled_tlc (mset (reject_tlcs R tlcs code)) = image_mset ctx_tlc (mset tlcs)"
  using reject_tlcs_ids by (metis mset_map)

lemma reject_tlcs_fail [simp]: "list_all is_fail_settlement (reject_tlcs R tlcs code)"
  by (simp add: reject_tlcs_def list_all_iff is_fail_settlement_def into_remove_tlc_fail_settlement_def fail_reason_def is_fail_reason_iff)

definition covers :: "ckb_invoice \<Rightarrow> tlc_settlement_context list \<Rightarrow> bool" where
  "covers i tlcs \<longleftrightarrow> unat (unwrap_or (iv_amount i) 0) \<le> ctx_sum tlcs \<and> (\<not> allow_mpp i \<longrightarrow> length tlcs = 1)"

text \<open>Parts of a multi-part payment declare one total; it is at least what the invoice asks for, and the parts reach the invoice's amount, or the
  declared total when the invoice leaves the amount open.\<close>

definition one_total :: "ckb_invoice \<Rightarrow> tlc_settlement_context list \<Rightarrow> tlc_settlement_context list \<Rightarrow> bool" where
  "one_total i tlcs kept \<longleftrightarrow> (\<exists>total. (\<forall>t\<in>set tlcs. tc_total_amount t = total) \<and>
     (\<forall>a. total = Some a \<longrightarrow> unwrap_or (iv_amount i) 0 \<le> a \<and> unat (unwrap_or (iv_amount i) a) \<le> ctx_sum kept))"

lemma windows_agree_iff: "windows_agree xs \<longleftrightarrow> (\<forall>x\<in>set xs. \<forall>y\<in>set xs. x = y)"
  by (induction xs rule: windows_agree.induct) auto

lemma leave_mpp_total:
  assumes "leave_just_fulfilled_tlcs_for_mpp_invoice R i (sc_tlcs cmd) = (kept, rejected)" and "kept \<noteq> []" and "allow_mpp i"
    and "verify_mpp_tlcs_have_consistent_total_amount cmd i = Ok ()"
  shows "one_total i (sc_tlcs cmd) kept"
proof (cases "sc_tlcs cmd")
  case (Cons first rest)
  let ?declared = "total_amount_or_amount first"
  obtain acc n where r: "retain_until (unwrap_or (iv_amount i) ?declared) (sc_tlcs cmd) = (acc, n)" by fastforce
  have kept: "\<not> ?declared < unwrap_or (iv_amount i) 0" "\<not> acc < unwrap_or (iv_amount i) ?declared" "kept = take n (sc_tlcs cmd)"
    using assms(1,2) r Cons by (auto simp: leave_just_fulfilled_tlcs_for_mpp_invoice_def Let_def split: if_splits)
  have same: "tc_total_amount t = tc_total_amount first" if "t \<in> set (sc_tlcs cmd)" for t
    using assms(3,4) that Cons by (auto simp: verify_mpp_tlcs_have_consistent_total_amount_def ensure_def windows_agree_iff split: if_splits)
  have "?declared = a" if "tc_total_amount first = Some a" for a using that by (simp add: total_amount_or_amount_def unwrap_or_def)
  then show ?thesis unfolding one_total_def using same kept retain_until_enough(2) [OF r kept(2)] by (intro exI [of _ "tc_total_amount first"]) auto
qed (use assms in \<open>simp add: leave_just_fulfilled_tlcs_for_mpp_invoice_def\<close>)

lemma leave_mpp:
  assumes "leave_just_fulfilled_tlcs_for_mpp_invoice R i tlcs = (kept, rejected)" and "allow_mpp i"
  shows "mset (map ctx_tlc kept) + mset (map settled_tlc rejected) \<subseteq># mset (map ctx_tlc tlcs) \<and> list_all is_fail_settlement rejected \<and>
    set kept \<subseteq> set tlcs \<and> (kept \<noteq> [] \<longrightarrow> covers i kept)"
proof (cases tlcs)
  case (Cons first rest)
  obtain acc n where r: "retain_until (unwrap_or (iv_amount i) (total_amount_or_amount first)) tlcs = (acc, n)" by fastforce
  have parts: "image_mset ctx_tlc (mset (take n tlcs)) + image_mset ctx_tlc (mset (drop n tlcs)) = image_mset ctx_tlc (mset tlcs)"
    by (metis append_take_drop_id image_mset_union mset_append)
  have "(kept = [] \<and> rejected = reject_tlcs R tlcs CODE_IncorrectOrUnknownPaymentDetails) \<or> (kept = [] \<and> rejected = []) \<or>
      (\<not> acc < unwrap_or (iv_amount i) (total_amount_or_amount first) \<and> kept = take n tlcs \<and> rejected = reject_tlcs R (drop n tlcs) CODE_HoldTlcTimeout)"
    using assms(1) r Cons by (auto simp: leave_just_fulfilled_tlcs_for_mpp_invoice_def Let_def split: if_splits)
  then show ?thesis
    using parts assms(2) retain_until_enough(2) [OF r] set_take_subset [of n tlcs] by (elim disjE) (auto simp: covers_def unwrap_or_def split: option.splits)
qed (use assms in \<open>simp add: leave_just_fulfilled_tlcs_for_mpp_invoice_def\<close>)

lemma leave_non_mpp:
  assumes "leave_just_fulfilled_tlcs_for_non_mpp_invoice R i tlcs = (kept, rejected)" and "\<not> allow_mpp i"
  shows "mset (map ctx_tlc kept) + mset (map settled_tlc rejected) \<subseteq># mset (map ctx_tlc tlcs) \<and> list_all is_fail_settlement rejected \<and>
    set kept \<subseteq> set tlcs \<and> (kept \<noteq> [] \<longrightarrow> covers i kept)"
proof (cases "position (\<lambda>t. tc_amount t \<ge> unwrap_or (iv_amount i) 0) tlcs")
  case (Some k)
  note pos = position_Some [OF Some]
  have "add_mset (ctx_tlc (tlcs ! k)) (mset (map ctx_tlc (swap_remove tlcs k))) = mset (map ctx_tlc tlcs)"
    using arg_cong [OF swap_remove_mset [of k tlcs], of "image_mset ctx_tlc"] pos by simp
  then show ?thesis using assms Some pos
    by (auto simp: leave_just_fulfilled_tlcs_for_non_mpp_invoice_def covers_def word_le_nat_alt)
qed (use assms in \<open>auto simp: leave_just_fulfilled_tlcs_for_non_mpp_invoice_def\<close>)

lemma leave_just_fulfilled:
  assumes "leave_just_fulfilled_tlcs R i tlcs = (kept, rejected)"
  shows "mset (map ctx_tlc kept) + mset (map settled_tlc rejected) \<subseteq># mset (map ctx_tlc tlcs) \<and> list_all is_fail_settlement rejected \<and>
    set kept \<subseteq> set tlcs \<and> (kept \<noteq> [] \<longrightarrow> covers i kept)"
  using assms leave_mpp leave_non_mpp by (cases "allow_mpp i") (auto simp: leave_just_fulfilled_tlcs_def)

definition accepts_settlement :: "u64 \<Rightarrow> settle_tlc_set_command \<Rightarrow> ckb_invoice \<Rightarrow> ckb_invoice_status \<Rightarrow> bool" where
  "accepts_settlement now cmd i st \<longleftrightarrow> (st = InvOpen \<and> \<not> is_expired (ucast now) i) \<or>
     (st = InvReceived \<and> sc_is_hold_tlc_set cmd \<and> sc_allow_received_invoice cmd)"

lemma verify_invoice_status_cases:
  "verify_invoice_status now cmd i st = Ok () \<and> (accepts_settlement now cmd i st \<or> should_skip_received_hold_set cmd st) \<or>
   (\<exists>code. verify_invoice_status now cmd i st = Err code)"
  by (cases st) (auto simp: verify_invoice_status_def accepts_settlement_def should_skip_received_hold_set_def)

lemma verify_total_cases:
  "verify_mpp_tlcs_have_consistent_total_amount cmd i = Ok () \<or> (\<exists>code. verify_mpp_tlcs_have_consistent_total_amount cmd i = Err code)"
  by (simp add: verify_mpp_tlcs_have_consistent_total_amount_def ensure_def)

lemma get_preimage_frame [simp]:
  "get_preimage (s\<lparr>ps_invoice_status := m\<rparr>) h = get_preimage s h" "get_preimage (s\<lparr>ps_holds := hs\<rparr>) h = get_preimage s h"
  by (simp_all add: get_preimage_def cong: option.case_cong)

lemma mark_received:
  assumes "get_invoice s h = Some i" and "get_invoice_status s h = Some st" and "accepts_settlement now cmd i st"
  shows "mark_invoice_as_received_if_still_open s h st = Ok (s\<lparr>ps_invoice_status := (ps_invoice_status s)(h \<mapsto> InvReceived)\<rparr>)"
  using assms
  by (auto simp: mark_invoice_as_received_if_still_open_def update_invoice_status_def accepts_settlement_def get_invoice_status_def fun_upd_idem)

text \<open>The three outcomes of a settlement: everything rejected, nothing decided, or a part that covers the
  invoice kept.\<close>

lemma run_settle_tlc_set_cases:
  assumes "h = sc_payment_hash cmd"
  obtains (rejected) code where "run_settle_tlc_set R now s cmd = Ok (reject_tlcs R (sc_tlcs cmd) code, s)"
  | (waiting) i rejected where "run_settle_tlc_set R now s cmd = Ok (rejected, s)"
      "rejected = [] \<or> leave_just_fulfilled_tlcs R i (sc_tlcs cmd) = ([], rejected)"
  | (kept) i st kept rejected where "get_invoice s h = Some i" "get_invoice_status s h = Some st" "accepts_settlement now cmd i st"
      "leave_just_fulfilled_tlcs R i (sc_tlcs cmd) = (kept, rejected)" "kept \<noteq> []"
      "run_settle_tlc_set R now s cmd =
        Ok (try_settle_all s h kept @ rejected, s\<lparr>ps_invoice_status := (ps_invoice_status s)(h \<mapsto> InvReceived)\<rparr>)"
      "verify_mpp_tlcs_have_consistent_total_amount cmd i = Ok ()"
proof (cases "get_invoice s h")
  case None
  then show thesis using rejected assms by (simp add: run_settle_tlc_set_def)
next
  case i: (Some i)
  show thesis
  proof (cases "get_invoice_status s h")
    case None
    then show thesis using rejected assms i by (simp add: run_settle_tlc_set_def)
  next
    case st: (Some st)
    obtain kept rej where leave: "leave_just_fulfilled_tlcs R i (sc_tlcs cmd) = (kept, rej)" by fastforce
    have all: "try_settle_all (s\<lparr>ps_invoice_status := m\<rparr>) h kept = try_settle_all s h kept" for m
      by (simp add: try_settle_all_def)
    note run = run_settle_tlc_set_def [of R now s cmd, folded assms, unfolded Let_def i st leave, simplified]
    show thesis
    proof (cases "\<exists>code. bind_res (verify_invoice_status now cmd i st) (\<lambda>_. verify_mpp_tlcs_have_consistent_total_amount cmd i) = Err code")
      case True
      with run rejected show thesis by auto
    next
      case False
      then have ok: "bind_res (verify_invoice_status now cmd i st) (\<lambda>_. verify_mpp_tlcs_have_consistent_total_amount cmd i) = Ok ()"
        and acc: "accepts_settlement now cmd i st \<or> should_skip_received_hold_set cmd st"
        using verify_invoice_status_cases [of now cmd i st] verify_total_cases [of cmd i] by auto
      show thesis
      proof (cases "should_skip_received_hold_set cmd st \<or> kept = []")
        case True
        then show thesis
        proof
          assume "should_skip_received_hold_set cmd st"
          with run ok show thesis by (intro waiting [of "[]" i]) auto
        next
          assume "kept = []"
          with run ok leave show thesis by (intro waiting [of "if should_skip_received_hold_set cmd st then [] else rej" i]) auto
        qed
      next
        case False
        with acc have "accepts_settlement now cmd i st" by simp
        with run ok False leave mark_received [OF i st] i st show thesis by (intro kept) (auto simp: all)
      qed
    qed
  qed
qed

text \<open>C4. Settling a set of TLCs never panics. What it decides is a list of fulfilments followed by a list of
  failures, about TLCs of the set and each at most once. If anything is fulfilled then the invoice was
  open and unexpired (or received, for a held set that the holder released), the preimage handed out is
  the stored one, the fulfilled TLCs together cover the invoice's amount, only one of them is taken for an invoice without
  multi-part payment, and the invoice is marked as received; nothing else of the store is changed. For a multi-part payment all TLCs of the set declare
  the same total, which is not below the invoice's amount and is itself covered when the invoice has no amount.
\<close>
theorem preimage_never_undersold:
  assumes "h = sc_payment_hash cmd"
  shows "\<exists>fulfilled rejected s'. run_settle_tlc_set R now s cmd = Ok (fulfilled @ rejected, s') \<and>
    list_all is_fail_settlement rejected \<and>
    mset (map settled_tlc (fulfilled @ rejected)) \<subseteq># mset (map ctx_tlc (sc_tlcs cmd)) \<and>
    (s' = s \<or> s' = s\<lparr>ps_invoice_status := (ps_invoice_status s)(h \<mapsto> InvReceived)\<rparr>) \<and>
    (fulfilled \<noteq> [] \<longrightarrow> (\<exists>i st p kept. get_invoice s h = Some i \<and> get_invoice_status s h = Some st \<and> get_preimage s h = Some p \<and>
       accepts_settlement now cmd i st \<and> set kept \<subseteq> set (sc_tlcs cmd) \<and> covers i kept \<and> (allow_mpp i \<longrightarrow> one_total i (sc_tlcs cmd) kept) \<and>
       fulfilled = map (into_remove_tlc_fulfill_settlement p) kept \<and> get_invoice_status s' h = Some InvReceived))"
  using assms
proof (cases rule: run_settle_tlc_set_cases [of h cmd R now s])
  case (rejected code)
  then show ?thesis by (intro exI [of _ "[]"] exI [of _ "reject_tlcs R (sc_tlcs cmd) code"] exI [of _ s]) simp
next
  case (waiting i rejected)
  then show ?thesis using leave_just_fulfilled [of R i "sc_tlcs cmd" "[]" rejected]
    by (intro exI [of _ "[]"] exI [of _ rejected] exI [of _ s]) auto
next
  case (kept i st kept rejected)
  note leave = leave_just_fulfilled [OF kept(4)]
  have total: "allow_mpp i \<longrightarrow> one_total i (sc_tlcs cmd) kept"
    using leave_mpp_total [OF _ kept(5) _ kept(7)] kept(4) by (auto simp: leave_just_fulfilled_tlcs_def)
  have ids: "mset (map settled_tlc (try_settle_all s h kept)) \<subseteq># mset (map ctx_tlc kept)"
    by (auto simp: try_settle_all_def comp_def multiset.map_comp split: option.split)
  have "mset (map settled_tlc (try_settle_all s h kept @ rejected)) \<subseteq># mset (map ctx_tlc (sc_tlcs cmd))"
  proof -
    have "mset (map settled_tlc (try_settle_all s h kept @ rejected)) =
        mset (map settled_tlc (try_settle_all s h kept)) + mset (map settled_tlc rejected)" by simp
    also have "\<dots> \<subseteq># mset (map ctx_tlc kept) + mset (map settled_tlc rejected)"
      by (rule subset_mset.add_right_mono [OF ids])
    also have "\<dots> \<subseteq># mset (map ctx_tlc (sc_tlcs cmd))" using leave by (rule conjunct1)
    finally show ?thesis .
  qed
  moreover have "try_settle_all s h kept = [] \<or>
      (\<exists>p. get_preimage s h = Some p \<and> try_settle_all s h kept = map (into_remove_tlc_fulfill_settlement p) kept)"
    by (simp add: try_settle_all_def split: option.split)
  ultimately show ?thesis using leave kept total
    by (intro exI [of _ "try_settle_all s h kept"] exI [of _ rejected]
        exI [of _ "s\<lparr>ps_invoice_status := (ps_invoice_status s)(h \<mapsto> InvReceived)\<rparr>"])
      (auto simp: get_invoice_status_def)
qed

definition declared_by_all :: "u128 \<Rightarrow> tlc_settlement_context list \<Rightarrow> bool" where
  "declared_by_all total_paid tlcs \<longleftrightarrow> list_all (\<lambda>t. tc_total_amount t = Some total_paid) tlcs"

lemma declared_total_agrees: "declared_by_all a (sc_tlcs cmd) \<Longrightarrow> verify_mpp_tlcs_have_consistent_total_amount cmd i = Ok ()"
  by (auto simp: verify_mpp_tlcs_have_consistent_total_amount_def ensure_def windows_agree_iff declared_by_all_def list_all_iff)

lemma leave_mpp_complete:
  assumes "allow_mpp i" and "iv_amount i = None \<or> iv_amount i = Some a" and "declared_by_all a tlcs" and "tlcs \<noteq> []"
  obtains n where "n \<le> length tlcs" "\<forall>j<n. ctx_sum (take j tlcs) < unat a" "0 < a \<Longrightarrow> 0 < n"
    "ctx_sum tlcs < unat a \<Longrightarrow> leave_just_fulfilled_tlcs R i tlcs = ([], [])"
    "unat a \<le> ctx_sum tlcs \<Longrightarrow> unat a \<le> ctx_sum (take n tlcs) \<and>
       leave_just_fulfilled_tlcs R i tlcs = (take n tlcs, reject_tlcs R (drop n tlcs) CODE_HoldTlcTimeout)"
proof -
  obtain acc n where r: "retain_until a tlcs = (acc, n)" by fastforce
  obtain first rest where tlcs: "tlcs = first # rest" using assms(4) by (cases tlcs) auto
  have total: "total_amount_or_amount first = a"
    using assms(3) tlcs by (simp add: declared_by_all_def total_amount_or_amount_def unwrap_or_def)
  have needed: "unwrap_or (iv_amount i) a = a" and "\<not> a < unwrap_or (iv_amount i) 0"
    using assms(2) by (auto simp: unwrap_or_def)
  then have leave: "leave_just_fulfilled_tlcs R i tlcs =
      (if acc < a then ([], []) else (take n tlcs, reject_tlcs R (drop n tlcs) CODE_HoldTlcTimeout))"
    using assms(1) total r
    by (simp add: leave_just_fulfilled_tlcs_def leave_just_fulfilled_tlcs_for_mpp_invoice_def tlcs)
  have spec: "n \<le> length tlcs" "\<forall>j<n. ctx_sum (take j tlcs) < unat a" "0 < a \<Longrightarrow> 0 < n"
    using retain_until_spec [OF r] assms(4) by blast+
  note enough = retain_until_enough [OF r]
  show thesis
  proof (rule that [OF spec])
    show "leave_just_fulfilled_tlcs R i tlcs = ([], [])" if "ctx_sum tlcs < unat a" using that enough(1) leave by presburger
    assume "unat a \<le> ctx_sum tlcs"
    then have "\<not> acc < a" using enough(1) by (simp add: leD)
    with enough(2) leave show "unat a \<le> ctx_sum (take n tlcs) \<and>
       leave_just_fulfilled_tlcs R i tlcs = (take n tlcs, reject_tlcs R (drop n tlcs) CODE_HoldTlcTimeout)" by presburger
  qed
qed

lemma run_settle_tlc_set_accepted:
  assumes "get_invoice s (sc_payment_hash cmd) = Some i" and "get_invoice_status s (sc_payment_hash cmd) = Some st"
    and "accepts_settlement now cmd i st" and "verify_mpp_tlcs_have_consistent_total_amount cmd i = Ok ()"
    and "leave_just_fulfilled_tlcs R i (sc_tlcs cmd) = (kept, rejected)"
  shows "run_settle_tlc_set R now s cmd =
    (if kept = [] then Ok (rejected, s)
     else Ok (try_settle_all s (sc_payment_hash cmd) kept @ rejected,
       s\<lparr>ps_invoice_status := (ps_invoice_status s)(sc_payment_hash cmd \<mapsto> InvReceived)\<rparr>))"
proof -
  have "verify_invoice_status now cmd i st = Ok ()" and "\<not> should_skip_received_hold_set cmd st"
    using assms(3) by (auto simp: accepts_settlement_def verify_invoice_status_def should_skip_received_hold_set_def)
  with assms mark_received [OF assms(1-3)] show ?thesis
    by (auto simp: run_settle_tlc_set_def Let_def try_settle_all_def)
qed

text \<open>C27. A multi-part payment is settled as soon as, and only if, its parts are complete: for parts that declare the same total
  \<open>a\<close> (the invoice's amount when it has one), if the known parts sum to less than \<open>a\<close> nothing happens and they stay
  held; otherwise, when the preimage is known, the shortest prefix of the set that reaches \<open>a\<close> is
  fulfilled with it and every further part is failed back.
\<close>
theorem mpp_settles_when_complete:
  assumes "get_invoice s (sc_payment_hash cmd) = Some i" and "get_invoice_status s (sc_payment_hash cmd) = Some st"
    and "accepts_settlement now cmd i st" and "allow_mpp i" and "iv_amount i = None \<or> iv_amount i = Some a"
    and "declared_by_all a (sc_tlcs cmd)" and "sc_tlcs cmd \<noteq> []" and "0 < a"
    and "get_preimage s (sc_payment_hash cmd) = Some p"
  shows "if ctx_sum (sc_tlcs cmd) < unat a then run_settle_tlc_set R now s cmd = Ok ([], s)
    else \<exists>n. 0 < n \<and> n \<le> length (sc_tlcs cmd) \<and> unat a \<le> ctx_sum (take n (sc_tlcs cmd)) \<and>
      ctx_sum (take (n - 1) (sc_tlcs cmd)) < unat a \<and>
      run_settle_tlc_set R now s cmd = Ok (map (into_remove_tlc_fulfill_settlement p) (take n (sc_tlcs cmd)) @
        reject_tlcs R (drop n (sc_tlcs cmd)) CODE_HoldTlcTimeout,
        s\<lparr>ps_invoice_status := (ps_invoice_status s)(sc_payment_hash cmd \<mapsto> InvReceived)\<rparr>)"
proof -
  note run = run_settle_tlc_set_accepted [OF assms(1-3) declared_total_agrees [OF assms(6)], of R]
  obtain n where n: "n \<le> length (sc_tlcs cmd)" "\<forall>j<n. ctx_sum (take j (sc_tlcs cmd)) < unat a" "0 < n"
    and few: "ctx_sum (sc_tlcs cmd) < unat a \<Longrightarrow> leave_just_fulfilled_tlcs R i (sc_tlcs cmd) = ([], [])"
    and enough: "unat a \<le> ctx_sum (sc_tlcs cmd) \<Longrightarrow> unat a \<le> ctx_sum (take n (sc_tlcs cmd)) \<and>
       leave_just_fulfilled_tlcs R i (sc_tlcs cmd) = (take n (sc_tlcs cmd), reject_tlcs R (drop n (sc_tlcs cmd)) CODE_HoldTlcTimeout)"
    using leave_mpp_complete [OF assms(4-7), of R] assms(8) by metis
  have "take n (sc_tlcs cmd) \<noteq> []" using n(3) assms(7) by simp
  moreover have "ctx_sum (take (n - 1) (sc_tlcs cmd)) < unat a" using n by simp
  ultimately show ?thesis using few enough run n assms(9) by (auto simp: try_settle_all_def not_less)
qed

definition sample_receipt_env :: receipt_env where
  "sample_receipt_env = \<lparr>re_hashers = sample_hashers, re_err_packet = (\<lambda>code _. to_be_bytes code), re_records_size_ok = (\<lambda>_. True)\<rparr>"

definition sample_invoice :: ckb_invoice where
  "sample_invoice = \<lparr>iv_currency = Fibd, iv_amount = Some 100, iv_data = \<lparr>id_timestamp = 0, id_payment_hash = 8, id_attrs = [Feature [8], PaymentSecret 5]\<rparr>\<rparr>"

definition sample_pay_store :: pay_store where
  "sample_pay_store = \<lparr>ps_invoices = [8 \<mapsto> sample_invoice], ps_invoice_status = [8 \<mapsto> InvOpen], ps_preimages = [8 \<mapsto> 7],
     ps_invoice_preimages = (\<lambda>h. h = 8), ps_holds = [], ps_custom_records = Map.empty, ps_channels = [], ps_watch = empty_store\<rparr>"

definition sample_part :: "u64 \<Rightarrow> u128 \<Rightarrow> tlc_settlement_context" where
  "sample_part i a = \<lparr>tc_channel_id = 3, tc_id = i, tc_amount = a, tc_total_amount = Some 100, tc_shared_secret = 0\<rparr>"

definition sample_set :: settle_tlc_set_command where
  "sample_set = \<lparr>sc_payment_hash = 8, sc_is_hold_tlc_set = False, sc_allow_received_invoice = False,
     sc_tlcs = [sample_part 0 60, sample_part 1 50, sample_part 2 40]\<rparr>"

lemma sample_set_accepted:
  "sc_payment_hash sample_set = 8" "get_invoice sample_pay_store 8 = Some sample_invoice" "get_invoice_status sample_pay_store 8 = Some InvOpen"
  "get_preimage sample_pay_store 8 = Some 7" "allow_mpp sample_invoice" "declared_by_all 100 (sc_tlcs sample_set)"
  "accepts_settlement 0 sample_set sample_invoice InvOpen" "iv_amount sample_invoice = Some 100" "sc_tlcs sample_set \<noteq> []"
proof -
  have "supports_basic_mpp [8]" by code_simp
  then show "allow_mpp sample_invoice" by (simp add: sample_invoice_def allow_mpp_def)
qed (simp_all add: sample_set_def sample_pay_store_def sample_invoice_def sample_part_def get_invoice_def get_invoice_status_def get_preimage_def
  declared_by_all_def accepts_settlement_def is_expired_def expiry_time_def)

theorem mpp_settles_when_complete_witness:
  "\<exists>n. 0 < n \<and> n \<le> 3 \<and> unat (100 :: u128) \<le> ctx_sum (take n (sc_tlcs sample_set)) \<and> ctx_sum (take (n - 1) (sc_tlcs sample_set)) < 100 \<and>
     run_settle_tlc_set sample_receipt_env 0 sample_pay_store sample_set =
       Ok (map (into_remove_tlc_fulfill_settlement 7) (take n (sc_tlcs sample_set)) @
         reject_tlcs sample_receipt_env (drop n (sc_tlcs sample_set)) CODE_HoldTlcTimeout,
         sample_pay_store\<lparr>ps_invoice_status := (ps_invoice_status sample_pay_store)(8 \<mapsto> InvReceived)\<rparr>)"
proof -
  have "length (sc_tlcs sample_set) = 3" "\<not> ctx_sum (sc_tlcs sample_set) < unat (100 :: u128)"
    by (simp_all add: sample_set_def sample_part_def)
  then show ?thesis
    using mpp_settles_when_complete [of sample_pay_store sample_set sample_invoice InvOpen 0 100 7 sample_receipt_env] sample_set_accepted
    by simp
qed

theorem preimage_never_undersold_witness:
  "\<exists>fulfilled rejected s'. run_settle_tlc_set sample_receipt_env 0 sample_pay_store sample_set = Ok (fulfilled @ rejected, s') \<and>
     list_all is_fail_settlement rejected \<and> mset (map settled_tlc (fulfilled @ rejected)) \<subseteq># mset (map ctx_tlc (sc_tlcs sample_set)) \<and>
     (fulfilled \<noteq> [] \<longrightarrow> (\<exists>kept. set kept \<subseteq> set (sc_tlcs sample_set) \<and> 100 \<le> ctx_sum kept \<and> fulfilled = map (into_remove_tlc_fulfill_settlement 7) kept))"
proof -
  note known = sample_set_accepted(1-4)
  obtain fulfilled rejected s' where run: "run_settle_tlc_set sample_receipt_env 0 sample_pay_store sample_set = Ok (fulfilled @ rejected, s')"
      "list_all is_fail_settlement rejected" "mset (map settled_tlc (fulfilled @ rejected)) \<subseteq># mset (map ctx_tlc (sc_tlcs sample_set))"
    and paid: "fulfilled \<noteq> [] \<Longrightarrow> \<exists>i p kept. get_invoice sample_pay_store 8 = Some i \<and> get_preimage sample_pay_store 8 = Some p \<and>
      set kept \<subseteq> set (sc_tlcs sample_set) \<and> covers i kept \<and> fulfilled = map (into_remove_tlc_fulfill_settlement p) kept"
    using preimage_never_undersold [OF known(1) [symmetric], of sample_receipt_env 0 sample_pay_store] by metis
  have "\<exists>kept. set kept \<subseteq> set (sc_tlcs sample_set) \<and> 100 \<le> ctx_sum kept \<and> fulfilled = map (into_remove_tlc_fulfill_settlement 7) kept" if "fulfilled \<noteq> []"
    using paid [OF that] known(2,4) by (auto simp: covers_def sample_invoice_def unwrap_or_def)
  with run show ?thesis by blast
qed

section \<open>What the final hop admits\<close>

lemma channel_get_invoice_status_Open:
  "channel_get_invoice_status now s i = Ok InvOpen \<Longrightarrow>
   get_invoice_status s (id_payment_hash (iv_data i)) = Some InvOpen \<and> \<not> is_expired (ucast now) i"
  by (auto simp: channel_get_invoice_status_def expect_def split: option.splits if_splits)

lemma check_invoice_accepts_Ok:
  assumes "check_invoice_accepts now s (Some i) t = Ok ()"
  shows "get_invoice_status s (id_payment_hash (iv_data i)) = Some InvOpen" and "\<not> is_expired (ucast now) i"
    and "ti_hash_algorithm t = unwrap_or (invoice_hash_algorithm i) CkbHash"
    and "unat now + unat (final_tlc_minimum_expiry_delta_or_default i) \<le> unat (ti_expiry t)"
proof -
  from assms have st: "channel_get_invoice_status now s i = Ok InvOpen"
    and alg: "ti_hash_algorithm t = unwrap_or (invoice_hash_algorithm i) CkbHash"
    and soon: "is_tlc_expire_too_soon (ucast now) i (ti_expiry t) = (Ok False :: bool chan_res)"
    by (auto simp: check_invoice_accepts_def bind_res_eq_Ok ensure_def split: if_splits)
  from channel_get_invoice_status_Open [OF st] alg show
    "get_invoice_status s (id_payment_hash (iv_data i)) = Some InvOpen" "\<not> is_expired (ucast now) i"
    "ti_hash_algorithm t = unwrap_or (invoice_hash_algorithm i) CkbHash" by simp_all
  note u = unat_ucast_u128
  from soon show "unat now + unat (final_tlc_minimum_expiry_delta_or_default i) \<le> unat (ti_expiry t)"
    by (auto simp: is_tlc_expire_too_soon_def bind_res_eq_Ok plus_u_eq_Ok word_less_nat_alt u)
qed

lemma check_mpp_record_Ok:
  assumes "check_mpp_record (Some i) mpp t = Ok t'"
  shows "(\<exists>a secret. t' = t\<lparr>ti_payment_secret := Some secret, ti_total_amount := Some a\<rparr> \<and> iv_amount i \<in> {None, Some a} \<and>
      payment_secret i \<in> {None, Some secret} \<and> mpp = Some \<lparr>mp_payment_secret = secret, mp_total_amount = a\<rparr>) \<or>
    (t' = t \<and> mpp = None \<and> \<not> allow_mpp i \<and> is_invoice_fulfilled i [t])"
proof (cases mpp)
  case None
  with assms show ?thesis by (auto simp: check_mpp_record_def bind_res_eq_Ok ensure_def split: if_splits)
next
  case (Some r)
  with assms have "iv_amount i = None \<or> mp_total_amount r = unwrap_or (iv_amount i) 0"
    "\<not> (case payment_secret i of Some secret \<Rightarrow> secret \<noteq> mp_payment_secret r | None \<Rightarrow> False)"
    "t' = t\<lparr>ti_payment_secret := Some (mp_payment_secret r), ti_total_amount := Some (mp_total_amount r)\<rparr>"
    by (auto simp: check_mpp_record_def bind_res_eq_Ok ensure_def split: if_splits)
  then show ?thesis using Some
    by (intro disjI1 exI [of _ "mp_total_amount r"] exI [of _ "mp_payment_secret r"])
      (auto simp: unwrap_or_def split: option.splits)
qed

lemma accept_preimage_Ok:
  assumes "accept_preimage R s t b p records = (s', Ok ())" and "get_preimage s' (ti_payment_hash t) = Some q"
  shows "hash_with (re_hashers R) (ti_hash_algorithm t) q = ti_payment_hash t"
  using assms by (auto simp: accept_preimage_def get_preimage_def insert_preimage_def split: option.splits if_splits)

lemma is_invoice_fulfilled_single: "is_invoice_fulfilled i [t] \<Longrightarrow> unat (unwrap_or (iv_amount i) 0) \<le> unat (ti_amount t)"
  by (auto simp: is_invoice_fulfilled_def Let_def unwrap_or_def word_le_nat_alt split: if_splits option.splits)

lemma apply_final_hop_OkE:
  assumes "apply_final_hop_tlc_onion_packet R now s c t invoice hop inner = (c', s', Ok ())"
  obtains payload u u' where "final_hop_payload now t hop inner = Ok payload" "check_invoice_accepts now s invoice t = Ok ()"
    "get_mut (ch_tlc_state c) (ti_tlc_id t) = Some u" "check_mpp_record invoice (snd (snd payload)) u = Ok u'"
    "c' = set_tlc_state c (modify_tlc (ch_tlc_state c) (ti_tlc_id t) (\<lambda>_. u'))"
    "accept_preimage R s t (invoice \<noteq> None) (fst payload) (fst (snd payload)) = (s', Ok ())"
proof -
  from assms obtain payload u' where
    r: "bind_res (final_hop_payload now t hop inner) (\<lambda>payload.
           bind_res (check_invoice_accepts now s invoice t) (\<lambda>_.
           bind_res (ok_or (get_mut (ch_tlc_state c) (ti_tlc_id t)) InternalError) (\<lambda>u.
           bind_res (check_mpp_record invoice (snd (snd payload)) u) (\<lambda>u'. Ok (payload, u'))))) = Ok (payload, u')"
    and "c' = set_tlc_state c (modify_tlc (ch_tlc_state c) (ti_tlc_id t) (\<lambda>_. u'))"
    and "accept_preimage R s t (invoice \<noteq> None) (fst payload) (fst (snd payload)) = (s', Ok ())"
    by (auto simp: apply_final_hop_tlc_onion_packet_def Let_def split: res.splits prod.splits)
  moreover from r obtain u where "final_hop_payload now t hop inner = Ok payload" "check_invoice_accepts now s invoice t = Ok ()"
    "get_mut (ch_tlc_state c) (ti_tlc_id t) = Some u" "check_mpp_record invoice (snd (snd payload)) u = Ok u'"
    by (auto simp: bind_res_eq_Ok ok_or_def split: option.splits)
  ultimately show thesis using that by blast
qed

text \<open>C31. A TLC the final hop admits for an invoice matches it: the invoice is open and not expired, the hash algorithm
  is the invoice's, and the TLC expires no sooner than the invoice's final expiry delta from now. The TLC in
  the table records the total the payer declared, which is the invoice's amount when it has one, with the
  invoice's payment secret when it has one; without such a record the invoice takes a single payment and this TLC alone covers it. A
  preimage known for the payment hash after the check hashes to it.
\<close>
theorem admitted_tlc_matches_invoice:
  assumes "wf_tlc_state (ch_tlc_state c)" and "get (ch_tlc_state c) (ti_tlc_id t) = Some u"
    and "apply_final_hop_tlc_onion_packet R now s c t (Some i) hop inner = (c', s', Ok ())"
  shows "get_invoice_status s (id_payment_hash (iv_data i)) = Some InvOpen \<and> \<not> is_expired (ucast now) i \<and>
    ti_hash_algorithm t = unwrap_or (invoice_hash_algorithm i) CkbHash \<and>
    unat now + unat (final_tlc_minimum_expiry_delta_or_default i) \<le> unat (ti_expiry t) \<and>
    (\<exists>u'. get (ch_tlc_state c') = (get (ch_tlc_state c))(ti_tlc_id t \<mapsto> u') \<and>
      ((\<exists>a secret. u' = u\<lparr>ti_payment_secret := Some secret, ti_total_amount := Some a\<rparr> \<and> iv_amount i \<in> {None, Some a} \<and>
          payment_secret i \<in> {None, Some secret}) \<or>
       (u' = u \<and> \<not> allow_mpp i \<and> unat (unwrap_or (iv_amount i) 0) \<le> unat (ti_amount u)))) \<and>
    (\<forall>p. get_preimage s' (ti_payment_hash t) = Some p \<longrightarrow> hash_with (re_hashers R) (ti_hash_algorithm t) p = ti_payment_hash t)"
  using assms(3)
proof (cases rule: apply_final_hop_OkE)
  case (1 payload v u')
  have v: "v = u" using 1(3) assms(2) get_mut_wf [OF assms(1)] by simp
  note mpp = check_mpp_record_Ok [OF 1(4) [unfolded v]]
  have "ti_tlc_id u' = ti_tlc_id t" using mpp get_Some [OF assms(2)] by auto
  then have "get (ch_tlc_state c') = (get (ch_tlc_state c))(ti_tlc_id t \<mapsto> u')"
    unfolding 1(5) set_tlc_state_def using get_modify_tlc [OF assms(1,2), of "\<lambda>_. u'"] by simp
  moreover have "(\<exists>a secret. u' = u\<lparr>ti_payment_secret := Some secret, ti_total_amount := Some a\<rparr> \<and> iv_amount i \<in> {None, Some a} \<and>
          payment_secret i \<in> {None, Some secret}) \<or>
       (u' = u \<and> \<not> allow_mpp i \<and> unat (unwrap_or (iv_amount i) 0) \<le> unat (ti_amount u))"
    using mpp is_invoice_fulfilled_single by blast
  ultimately show ?thesis using check_invoice_accepts_Ok [OF 1(2)] accept_preimage_Ok [OF 1(6)] by blast
qed

lemma mpp_read_write [simp]: "mpp_read (mpp_write d records) = Some d"
  by (simp add: mpp_read_def mpp_write_def mpp_to_vec_def le_bytes_inverse be_bytes_inverse byte_sized_def)

definition sample_hop :: peeled_hop where
  "sample_hop = \<lparr>ph_amount = 5, ph_expiry = 900, ph_payment_preimage = None,
     ph_custom_records = Some (mpp_write \<lparr>mp_payment_secret = 5, mp_total_amount = 20\<rparr> Map.empty)\<rparr>"

definition sample_mpp_invoice :: ckb_invoice where
  "sample_mpp_invoice = \<lparr>iv_currency = Fibd, iv_amount = Some 20, iv_data = \<lparr>id_timestamp = 0, id_payment_hash = 7,
     id_attrs = [FinalHtlcMinimumExpiryDelta 100, Feature [8], PaymentSecret 5]\<rparr>\<rparr>"

lemma sample_hop_admitted:
  "\<exists>c'. apply_final_hop_tlc_onion_packet sample_receipt_env 800 (sample_pay_store\<lparr>ps_invoice_status := [7 \<mapsto> InvOpen]\<rparr>)
     (sample_channel sample_table 10 10) (sample_tlc (Received 0) (Inbound RemoteAnnounced) 5) (Some sample_mpp_invoice) sample_hop None =
   (c', sample_pay_store\<lparr>ps_invoice_status := [7 \<mapsto> InvOpen]\<rparr>, Ok ())"
proof -
  let ?t = "sample_tlc (Received 0) (Inbound RemoteAnnounced) 5"
  let ?s = "sample_pay_store\<lparr>ps_invoice_status := [7 \<mapsto> InvOpen]\<rparr>"
  have payload: "final_hop_payload 800 ?t sample_hop None = Ok (None, ph_custom_records sample_hop, Some \<lparr>mp_payment_secret = 5, mp_total_amount = 20\<rparr>)"
    by (simp add: final_hop_payload_def sample_hop_def sample_tlc_def ensure_def)
  have accepts: "check_invoice_accepts 800 ?s (Some sample_mpp_invoice) ?t = Ok ()"
    by (simp add: check_invoice_accepts_def channel_get_invoice_status_def sample_mpp_invoice_def get_invoice_status_def is_expired_def expiry_time_def
        sample_tlc_def invoice_hash_algorithm_def unwrap_or_def is_tlc_expire_too_soon_def final_tlc_minimum_expiry_delta_or_default_def
        final_tlc_minimum_expiry_delta_def plus_u_def checked_add_def ensure_def expect_def)
  have tlc: "get_mut (ch_tlc_state (sample_channel sample_table 10 10)) (ti_tlc_id ?t) = Some ?t"
    by (simp add: get_mut_def sample_channel_def sample_table_def sample_tlc_def find_tlc_def)
  have mpp: "check_mpp_record (Some sample_mpp_invoice) (Some \<lparr>mp_payment_secret = 5, mp_total_amount = 20\<rparr>) ?t =
      Ok (?t\<lparr>ti_payment_secret := Some 5, ti_total_amount := Some 20\<rparr>)"
    by (simp add: check_mpp_record_def sample_mpp_invoice_def payment_secret_def unwrap_or_def ensure_def)
  have preimage: "accept_preimage sample_receipt_env ?s ?t True None (ph_custom_records sample_hop) = (?s, Ok ())"
    by (simp add: accept_preimage_def sample_pay_store_def sample_tlc_def get_preimage_def get_watch_preimage_def empty_store_def)
  show ?thesis by (simp add: apply_final_hop_tlc_onion_packet_def payload accepts tlc mpp preimage ok_or_def)
qed

theorem admitted_tlc_matches_invoice_witness:
  "\<exists>c' u'. get (ch_tlc_state c') (Received 0) = Some u' \<and> ti_amount u' = 5 \<and>
     apply_final_hop_tlc_onion_packet sample_receipt_env 800 (sample_pay_store\<lparr>ps_invoice_status := [7 \<mapsto> InvOpen]\<rparr>)
     (sample_channel sample_table 10 10) (sample_tlc (Received 0) (Inbound RemoteAnnounced) 5) (Some sample_mpp_invoice) sample_hop None =
   (c', sample_pay_store\<lparr>ps_invoice_status := [7 \<mapsto> InvOpen]\<rparr>, Ok ())"
proof -
  let ?t = "sample_tlc (Received 0) (Inbound RemoteAnnounced) 5"
  obtain c' where c': "apply_final_hop_tlc_onion_packet sample_receipt_env 800 (sample_pay_store\<lparr>ps_invoice_status := [7 \<mapsto> InvOpen]\<rparr>)
     (sample_channel sample_table 10 10) ?t (Some sample_mpp_invoice) sample_hop None =
   (c', sample_pay_store\<lparr>ps_invoice_status := [7 \<mapsto> InvOpen]\<rparr>, Ok ())" using sample_hop_admitted by blast
  have "wf_tlc_state (ch_tlc_state (sample_channel sample_table 10 10))"
    using sample_channel_inv by (simp add: funds_inv_def tlc_inv_def)
  moreover have "get (ch_tlc_state (sample_channel sample_table 10 10)) (ti_tlc_id ?t) = Some ?t"
    by (simp add: get_def sample_channel_def sample_table_def sample_tlc_def find_tlc_def)
  ultimately obtain u' where "get (ch_tlc_state c') = (get (ch_tlc_state (sample_channel sample_table 10 10)))(ti_tlc_id ?t \<mapsto> u')"
    and "ti_amount u' = ti_amount ?t"
    using admitted_tlc_matches_invoice [OF _ _ c'] by fastforce
  then show ?thesis using c' by (intro exI [of _ c'] exI [of _ u']) (simp add: sample_tlc_def)
qed

end
