(* ===== verification/Invoice_Lifecycle.thy ===== *)
theory Invoice_Lifecycle
  imports Payment_Receipt "HOL-Library.Option_ord"
begin

text \<open>
  The life of an invoice over every interleaving of the operations that touch it: the contract of the invoice
  store as a locale, the order of the statuses, the step relation over the store of received payments, and an
  interrupted release of a multi-part payment.
\<close>

section \<open>The store's contract for invoices\<close>

text \<open>What the clients of the invoice store rely on: an update of a known invoice changes its status and
  nothing else about invoices, and an update of an unknown one is refused.\<close>

locale invoice_store =
  fixes invoice :: "'s \<Rightarrow> 'h \<Rightarrow> 'i option"
    and status :: "'s \<Rightarrow> 'h \<Rightarrow> 'st option"
    and update :: "'s \<Rightarrow> 'h \<Rightarrow> 'st \<Rightarrow> ('s, 'e) res"
  assumes update_known: "invoice s h = Some i \<Longrightarrow> \<exists>s'. update s h st = Ok s' \<and> status s' = (status s)(h \<mapsto> st) \<and> invoice s' = invoice s"
    and update_unknown: "invoice s h = None \<Longrightarrow> \<exists>e. update s h st = Err e"
begin

lemma update_Ok: "update s h st = Ok s' \<Longrightarrow> invoice s h \<noteq> None \<and> status s' = (status s)(h \<mapsto> st) \<and> invoice s' = invoice s"
  using update_known [of s h _ st] update_unknown [of s h st] by (cases "invoice s h") auto

lemma update_total: "invoice s h \<noteq> None \<Longrightarrow> \<exists>s'. update s h st = Ok s'"
  using update_known by blast

lemma update_not_Panic: "update s h st \<noteq> Panic"
  using update_known [of s h _ st] update_unknown [of s h st] by (cases "invoice s h") auto

end

interpretation ivs: invoice_store get_invoice get_invoice_status update_invoice_status
  by unfold_locales (auto simp: update_invoice_status_def get_invoice_def get_invoice_status_def fun_eq_iff)

section \<open>Runs that only move forward\<close>

text \<open>A machine whose steps never take an entry's status back: the order on statuses is its lifecycle.\<close>

locale forward_machine =
  fixes step :: "'s \<Rightarrow> 's \<Rightarrow> bool" and good :: "'s \<Rightarrow> bool" and status :: "'s \<Rightarrow> 'k \<Rightarrow> 'st :: order"
  assumes step_good: "good s \<Longrightarrow> step s s' \<Longrightarrow> good s'"
    and step_forward: "good s \<Longrightarrow> step s s' \<Longrightarrow> status s k \<le> status s' k"
begin

lemma run_forward: "step\<^sup>*\<^sup>* s s' \<Longrightarrow> good s \<Longrightarrow> good s' \<and> status s k \<le> status s' k"
  by (induction rule: rtranclp_induct) (auto intro: step_good order_trans step_forward)

lemma run_absorbing: "step\<^sup>*\<^sup>* s s' \<Longrightarrow> good s \<Longrightarrow> (\<And>y. status s k \<le> y \<Longrightarrow> y = status s k) \<Longrightarrow> status s' k = status s k"
  using run_forward by blast

end

text \<open>The lifecycle of an invoice: open, received, cancelled, paid. Expiry is computed when the status is
  read and never stored.\<close>

fun invoice_rank :: "ckb_invoice_status \<Rightarrow> nat" where
  "invoice_rank InvOpen = 0"
| "invoice_rank InvReceived = 1"
| "invoice_rank InvCancelled = 2"
| "invoice_rank InvPaid = 3"
| "invoice_rank InvExpired = 4"

instantiation ckb_invoice_status :: linorder
begin

definition less_eq_ckb_invoice_status :: "ckb_invoice_status \<Rightarrow> ckb_invoice_status \<Rightarrow> bool" where
  "less_eq_ckb_invoice_status x y \<longleftrightarrow> invoice_rank x \<le> invoice_rank y"

definition less_ckb_invoice_status :: "ckb_invoice_status \<Rightarrow> ckb_invoice_status \<Rightarrow> bool" where
  "less_ckb_invoice_status x y \<longleftrightarrow> invoice_rank x < invoice_rank y"

instance
proof
  fix x y :: ckb_invoice_status
  assume "x \<le> y" and "y \<le> x"
  then show "x = y" by (cases x; cases y) (simp_all add: less_eq_ckb_invoice_status_def)
qed (auto simp: less_eq_ckb_invoice_status_def less_ckb_invoice_status_def)

end

lemmas invoice_order = less_eq_ckb_invoice_status_def less_ckb_invoice_status_def

section \<open>Steps on the store of received payments\<close>

inductive receipt_step :: "receipt_env \<Rightarrow> pay_store \<Rightarrow> pay_store \<Rightarrow> bool" for R where
  add: "add_invoice s i p = Ok s' \<Longrightarrow> receipt_step R s s'"
| settle: "settle_invoice (re_hashers R) now s h p = Ok (s', es) \<Longrightarrow> receipt_step R s s'"
| cancel: "cancel_invoice now s h = Ok (s', es) \<Longrightarrow> receipt_step R s s'"
| settle_set: "run_settle_tlc_set R n s cmd = Ok (xs, s') \<Longrightarrow> receipt_step R s s'"
| onchain: "run_settle_onchain_fulfilled_invoice R s h = Ok (b, s') \<Longrightarrow> receipt_step R s s'"
| fulfilled: "record_fulfilled_tlc s c w t = Ok (s', es) \<Longrightarrow> receipt_step R s s'"
| admit: "apply_final_hop_tlc_onion_packet R n s c t invoice hop inner = (c', s', r) \<Longrightarrow> receipt_step R s s'"
| hold: "receipt_step R s (insert_payment_hold_tlc s h ho)"
| timeout: "timeout_hold_tlc R s h channel_id tlc_id = (xs, s') \<Longrightarrow> receipt_step R s s'"
| handoff: "receipt_step R s (complete_hold_handoff s h)"
| removed: "receipt_step R s (remove_tlc_result s h channel_id tlc_id r)"
| channels: "receipt_step R s (s\<lparr>ps_channels := cs\<rparr>)"
| watch: "receipt_step R s (s\<lparr>ps_watch := w\<rparr>)"

definition invoices_stored :: "pay_store \<Rightarrow> bool" where
  "invoices_stored s \<longleftrightarrow> (\<forall>h. (get_invoice_status s h = None) = (get_invoice s h = None) \<and> get_invoice_status s h \<noteq> Some InvExpired)"

lemma invoice_frame:
  assumes "ps_invoices s' = ps_invoices s" and "ps_invoice_status s' = ps_invoice_status s"
  shows "get_invoice s' = get_invoice s" and "get_invoice_status s' = get_invoice_status s"
  using assms by (simp_all add: get_invoice_def get_invoice_status_def fun_eq_iff)

lemma hold_frame:
  "ps_invoices (remove_payment_hold_tlc s h c t) = ps_invoices s" "ps_invoice_status (remove_payment_hold_tlc s h c t) = ps_invoice_status s"
  "ps_invoices (insert_payment_hold_tlc s h ho) = ps_invoices s" "ps_invoice_status (insert_payment_hold_tlc s h ho) = ps_invoice_status s"
  by (simp_all add: remove_payment_hold_tlc_def insert_payment_hold_tlc_def Let_def)

lemma complete_hold_handoff_frame:
  "ps_invoices (complete_hold_handoff s h) = ps_invoices s \<and> ps_invoice_status (complete_hold_handoff s h) = ps_invoice_status s"
proof -
  have "ps_invoices (fold (\<lambda>ho s. if handed_over s h ho then remove_payment_hold_tlc s h (ho_channel_id ho) (ho_tlc_id ho) else s) hs s') = ps_invoices s' \<and>
    ps_invoice_status (fold (\<lambda>ho s. if handed_over s h ho then remove_payment_hold_tlc s h (ho_channel_id ho) (ho_tlc_id ho) else s) hs s') = ps_invoice_status s'"
    for hs s' by (induction hs arbitrary: s') (simp_all add: hold_frame)
  then show ?thesis by (simp add: complete_hold_handoff_def)
qed

lemma update_invoice_status_ps: "update_invoice_status s h st = Ok s' \<Longrightarrow> s' = s\<lparr>ps_invoice_status := (ps_invoice_status s)(h \<mapsto> st)\<rparr>"
  by (simp add: update_invoice_status_def split: if_splits)

definition status_move :: "pay_store \<Rightarrow> hash256 \<Rightarrow> ckb_invoice_status \<Rightarrow> bool" where
  "status_move s h st \<longleftrightarrow> st = InvPaid \<or> (st = InvReceived \<and> get_invoice_status s h \<in> {Some InvOpen, Some InvReceived}) \<or>
     (st = InvCancelled \<and> get_invoice_status s h \<notin> {None, Some InvPaid, Some InvCancelled} \<and>
      (get_invoice_status s h = Some InvReceived \<longrightarrow> get_preimage s h = None))"

text \<open>A step leaves the invoices alone, adds a fresh open one, or moves the status of a known one.\<close>

definition invoice_effect :: "pay_store \<Rightarrow> pay_store \<Rightarrow> bool" where
  "invoice_effect s s' \<longleftrightarrow> (get_invoice s' = get_invoice s \<and> get_invoice_status s' = get_invoice_status s) \<or>
     (\<exists>h i. get_invoice s h = None \<and> get_invoice s' = (get_invoice s)(h \<mapsto> i) \<and> get_invoice_status s' = (get_invoice_status s)(h \<mapsto> InvOpen)) \<or>
     (\<exists>h st. get_invoice s h \<noteq> None \<and> get_invoice s' = get_invoice s \<and> get_invoice_status s' = (get_invoice_status s)(h \<mapsto> st) \<and> status_move s h st)"

lemma effect_same: "ps_invoices s' = ps_invoices s \<Longrightarrow> ps_invoice_status s' = ps_invoice_status s \<Longrightarrow> invoice_effect s s'"
  unfolding invoice_effect_def using invoice_frame [of s' s] by blast

lemma effect_moved: "update_invoice_status s h st = Ok s' \<Longrightarrow> status_move s h st \<Longrightarrow> invoice_effect s s'"
  unfolding invoice_effect_def using ivs.update_Ok by blast

lemma effect_add: "add_invoice s i p = Ok s' \<Longrightarrow> invoice_effect s s'"
  unfolding invoice_effect_def
  by (intro disjI2 disjI1 exI [of _ "id_payment_hash (iv_data i)"] exI [of _ i])
    (auto simp: add_invoice_def insert_invoice_def Let_def get_invoice_def get_invoice_status_def fun_eq_iff split: if_splits option.splits)

lemma effect_cancel: "cancel_invoice now s h = Ok (s', es) \<Longrightarrow> invoice_effect s s'"
  by (rule effect_moved [of s h InvCancelled])
    (auto simp: cancel_invoice_def Let_def bind_res_eq_Ok ok_or_def status_move_def
      split: option.splits res.splits if_splits ckb_invoice_status.splits)

lemma effect_settle_set:
  assumes "run_settle_tlc_set R n s cmd = Ok (xs, s')"
  shows "invoice_effect s s'"
proof -
  have "sc_payment_hash cmd = sc_payment_hash cmd" by (rule HOL.refl)
  then show ?thesis
  proof (cases rule: run_settle_tlc_set_cases [of _ cmd R n s])
    case (kept i st tlcs rejected)
    then have "update_invoice_status s (sc_payment_hash cmd) InvReceived = Ok s'" and "status_move s (sc_payment_hash cmd) InvReceived"
      using assms by (auto simp: update_invoice_status_def status_move_def accepts_settlement_def)
    then show ?thesis by (rule effect_moved)
  qed (use assms in \<open>auto intro: effect_same\<close>)
qed

lemma effect_onchain: "run_settle_onchain_fulfilled_invoice R s h = Ok (b, s') \<Longrightarrow> invoice_effect s s'"
  by (auto simp: run_settle_onchain_fulfilled_invoice_def Let_def status_move_def
      split: option.splits if_splits res.splits intro: effect_same effect_moved)

lemma effect_fulfilled:
  assumes "record_fulfilled_tlc s c w t = Ok (s', es)"
  shows "invoice_effect s s'"
proof -
  from assms obtain s1 where "s1 = s \<or> update_invoice_status s (ti_payment_hash t) InvPaid = Ok s1"
    and "s' = s1 \<or> s' = remove_preimage s1 (ti_payment_hash t)"
    by (auto simp: record_fulfilled_tlc_def Let_def bind_res_eq_Ok split: if_splits res.splits)
  moreover have "status_move s (ti_payment_hash t) InvPaid" by (simp add: status_move_def)
  ultimately have "invoice_effect s s1" and "get_invoice s' = get_invoice s1" and "get_invoice_status s' = get_invoice_status s1"
    by (auto intro: effect_same effect_moved simp: remove_preimage_def get_invoice_def get_invoice_status_def fun_eq_iff)
  then show ?thesis by (simp add: invoice_effect_def)
qed

lemma accept_preimage_frame:
  "accept_preimage R s t b p records = (s', r) \<Longrightarrow> ps_invoices s' = ps_invoices s \<and> ps_invoice_status s' = ps_invoice_status s"
  by (auto simp: accept_preimage_def insert_preimage_def split: option.splits if_splits)

lemma effect_admit: "apply_final_hop_tlc_onion_packet R n s c t invoice hop inner = (c', s', r) \<Longrightarrow> invoice_effect s s'"
  by (auto simp: apply_final_hop_tlc_onion_packet_def Let_def split: res.splits prod.splits dest!: accept_preimage_frame intro: effect_same)

lemma receipt_step_effect: "receipt_step R s s' \<Longrightarrow> invoice_effect s s'"
proof (induction rule: receipt_step.induct)
  case (settle now s h p s' es)
  then show ?case by (auto simp: settle_invoice_def bind_res_eq_Ok insert_preimage_def intro: effect_same)
next
  case (timeout s h channel_id tlc_id xs s')
  then show ?case by (auto simp: timeout_hold_tlc_def hold_frame split: if_splits option.splits intro: effect_same)
next
  case (removed s h channel_id tlc_id r)
  then show ?case by (auto simp: remove_tlc_result_def hold_frame split: option.splits intro: effect_same)
qed (auto simp: hold_frame complete_hold_handoff_frame intro: effect_same effect_add effect_cancel effect_settle_set effect_onchain effect_fulfilled effect_admit)

lemma stored_at: "invoices_stored s \<Longrightarrow> (get_invoice_status s h = None) = (get_invoice s h = None) \<and> get_invoice_status s h \<noteq> Some InvExpired"
  by (simp add: invoices_stored_def)

lemma effect_stored:
  assumes "invoices_stored s" and "invoice_effect s s'"
  shows "invoices_stored s'"
  unfolding invoices_stored_def
proof
  fix h
  show "(get_invoice_status s' h = None) = (get_invoice s' h = None) \<and> get_invoice_status s' h \<noteq> Some InvExpired"
    using stored_at [OF assms(1), of h] assms(2) unfolding invoice_effect_def
    by (elim disjE exE) (auto simp: status_move_def)
qed

lemma effect_forward:
  assumes "invoices_stored s" and "invoice_effect s s'"
  shows "get_invoice_status s h \<le> get_invoice_status s' h"
  using assms(2) unfolding invoice_effect_def
proof (elim disjE exE conjE)
  fix h' st
  assume eq: "get_invoice_status s' = (get_invoice_status s)(h' \<mapsto> st)" and move: "status_move s h' st"
  have "get_invoice_status s h' \<le> Some st"
    using move stored_at [OF assms(1), of h']
    by (cases "get_invoice_status s h'"; cases "the (get_invoice_status s h')") (auto simp: status_move_def invoice_order)
  with eq show ?thesis by simp
next
  fix h' i
  assume "get_invoice s h' = None" and "get_invoice_status s' = (get_invoice_status s)(h' \<mapsto> InvOpen)"
  then show ?thesis using stored_at [OF assms(1), of h'] by simp
qed simp

interpretation rcp: forward_machine "receipt_step R" invoices_stored get_invoice_status for R
  by unfold_locales (blast intro: receipt_step_effect effect_stored effect_forward)+

lemma effect_invoices: "invoice_effect s s' \<Longrightarrow> get_invoice s h = Some i \<Longrightarrow> get_invoice s' h = Some i"
  by (auto simp: invoice_effect_def)

lemma run_invoices: "(receipt_step R)\<^sup>*\<^sup>* s s' \<Longrightarrow> get_invoice s h = Some i \<Longrightarrow> get_invoice s' h = Some i"
  by (induction rule: rtranclp_induct) (auto intro: effect_invoices receipt_step_effect)

text \<open>The preimage a merchant stored with an invoice. Every operation that could drop it leaves it alone while the invoice is open.\<close>

definition preimage_stored :: "pay_store \<Rightarrow> hash256 \<Rightarrow> bool" where
  "preimage_stored s h \<longleftrightarrow> has_invoice_preimage s h \<and> ps_preimages s h \<noteq> None"

lemma preimage_frame:
  "ps_preimages s' = ps_preimages s \<Longrightarrow> ps_invoice_preimages s' = ps_invoice_preimages s \<Longrightarrow> preimage_stored s' h = preimage_stored s h"
  by (simp add: preimage_stored_def has_invoice_preimage_def)

lemma preimage_hold_frame [simp]:
  "preimage_stored (remove_payment_hold_tlc s h' c t) h = preimage_stored s h" "preimage_stored (insert_payment_hold_tlc s h' ho) h = preimage_stored s h"
  by (simp_all add: remove_payment_hold_tlc_def insert_payment_hold_tlc_def Let_def preimage_stored_def has_invoice_preimage_def)

lemma preimage_handoff [simp]: "preimage_stored (complete_hold_handoff s h') h = preimage_stored s h"
proof -
  have "preimage_stored (fold (\<lambda>ho s. if handed_over s h' ho then remove_payment_hold_tlc s h' (ho_channel_id ho) (ho_tlc_id ho) else s) hs s') h = preimage_stored s' h"
    for hs s' by (induction hs arbitrary: s') simp_all
  then show ?thesis by (simp add: complete_hold_handoff_def)
qed

lemma preimage_channels:
  "preimage_stored (s\<lparr>ps_channels := cs\<rparr>) h = preimage_stored s h" "preimage_stored (s\<lparr>ps_watch := w\<rparr>) h = preimage_stored s h"
  by (simp_all add: preimage_stored_def has_invoice_preimage_def)

lemma preimage_inserted: "preimage_stored s h \<Longrightarrow> preimage_stored (insert_preimage s h' p) h"
  by (simp add: preimage_stored_def has_invoice_preimage_def insert_preimage_def)

lemma preimage_updated: "update_invoice_status s h' st = Ok s' \<Longrightarrow> preimage_stored s' h = preimage_stored s h"
  by (auto simp: update_invoice_status_ps preimage_stored_def has_invoice_preimage_def dest!: update_invoice_status_ps)

lemma preimage_admitted: "preimage_stored s h \<Longrightarrow> accept_preimage R s t b p records = (s', r) \<Longrightarrow> preimage_stored s' h"
  by (auto simp: accept_preimage_def preimage_stored_def has_invoice_preimage_def insert_preimage_def split: option.splits if_splits)

lemma preimage_settle_set:
  assumes "run_settle_tlc_set R n s cmd = Ok (xs, s')"
  shows "preimage_stored s' h = preimage_stored s h"
proof -
  have "sc_payment_hash cmd = sc_payment_hash cmd" by (rule HOL.refl)
  then show ?thesis
    by (cases rule: run_settle_tlc_set_cases [of _ cmd R n s]) (use assms in \<open>auto simp: preimage_stored_def has_invoice_preimage_def\<close>)
qed

lemma preimage_fulfilled:
  assumes "record_fulfilled_tlc s c w t = Ok (s', es)" and "preimage_stored s h" and "get_invoice_status s' h = Some InvOpen"
  shows "preimage_stored s' h"
proof -
  from assms(1) obtain s1 where s1: "s1 = s \<or> update_invoice_status s (ti_payment_hash t) InvPaid = Ok s1"
    and s': "s' = s1 \<or> s' = remove_preimage s1 (ti_payment_hash t) \<and>
        \<not> (has_invoice_preimage s1 (ti_payment_hash t) \<and> get_invoice_status s1 (ti_payment_hash t) = Some InvOpen)"
    by (auto simp: record_fulfilled_tlc_def Let_def bind_res_eq_Ok split: if_splits res.splits)
  have kept: "preimage_stored s1 h" using s1 assms(2) preimage_updated by blast
  have "get_invoice_status s1 h = Some InvOpen" using s' assms(3) by (auto simp: remove_preimage_def get_invoice_status_def split: if_splits)
  with kept s' show ?thesis by (auto simp: preimage_stored_def has_invoice_preimage_def remove_preimage_def)
qed

lemma receipt_step_preimage:
  assumes "receipt_step R s s'" and "preimage_stored s h" and "get_invoice s h \<noteq> None" and "get_invoice_status s' h = Some InvOpen"
  shows "preimage_stored s' h"
  using assms
proof (induction rule: receipt_step.induct)
  case (add s i p s')
  then show ?case
    by (auto simp: add_invoice_def insert_invoice_def Let_def preimage_stored_def has_invoice_preimage_def split: if_splits option.splits)
next
  case (settle now s h' p s' es)
  then show ?case by (auto simp: settle_invoice_def bind_res_eq_Ok preimage_inserted)
next
  case (cancel now s h' s' es)
  then have "update_invoice_status s h' InvCancelled = Ok s'"
    by (auto simp: cancel_invoice_def Let_def bind_res_eq_Ok split: option.splits res.splits if_splits ckb_invoice_status.splits)
  with cancel show ?case by (simp add: preimage_updated)
next
  case (settle_set n s cmd xs s')
  then show ?case by (simp add: preimage_settle_set)
next
  case (onchain s h' b s')
  then show ?case
    by (auto simp: run_settle_onchain_fulfilled_invoice_def Let_def preimage_updated split: option.splits if_splits res.splits)
next
  case (fulfilled s c w t s' es)
  then show ?case by (blast intro: preimage_fulfilled)
next
  case (admit n s c t invoice hop inner c' s' r)
  then show ?case
    by (auto simp: apply_final_hop_tlc_onion_packet_def Let_def split: res.splits prod.splits intro: preimage_admitted)
next
  case (timeout s h' channel_id tlc_id xs s')
  then show ?case by (auto simp: timeout_hold_tlc_def split: if_splits option.splits)
next
  case (removed s h' channel_id tlc_id r)
  then show ?case by (auto simp: remove_tlc_result_def split: option.splits)
qed (simp_all add: preimage_channels)

lemma run_preimage:
  assumes "(receipt_step R)\<^sup>*\<^sup>* s s'" and "invoices_stored s" and "get_invoice s h = Some i" and "preimage_stored s h" and "get_invoice_status s' h = Some InvOpen"
  shows "preimage_stored s' h"
  using assms(1,5)
proof (induction rule: rtranclp_induct)
  case (step y z)
  have y: "invoices_stored y" "get_invoice y h = Some i"
    using rcp.run_forward [OF step(1) assms(2)] run_invoices [OF step(1) assms(3)] by blast+
  then obtain st where st: "get_invoice_status y h = Some st" using stored_at [OF y(1), of h] by auto
  have "get_invoice_status y h \<le> get_invoice_status z h" using effect_forward [OF y(1) receipt_step_effect [OF step(2)]] .
  with st step.prems have "st = InvOpen" by (cases st) (simp_all add: invoice_order)
  then show ?case using receipt_step_preimage [OF step(2) _ _ step.prems] step.IH st y(2) by simp
qed (rule assms(4))

text \<open>C18. The lifecycle of an invoice over every sequence of operations on the store (adding, settling and
  cancelling invoices, admitting and settling TLCs, on-chain settlement, held TLCs and their time-outs): a known
  invoice is never replaced, and its stored status only moves forward along open, received, cancelled, paid. A paid invoice stays
  paid, a cancelled one is never received again, and a received one whose preimage is known is not cancelled by any step. The preimage
  that was stored with an invoice is there as long as the invoice is open.
\<close>
theorem invoice_moves_forward:
  assumes "(receipt_step R)\<^sup>*\<^sup>* s s'" and "invoices_stored s" and "get_invoice s h = Some i"
  shows "invoices_stored s' \<and> get_invoice s' h = Some i \<and> get_invoice_status s h \<le> get_invoice_status s' h \<and>
    (get_invoice_status s h = Some InvPaid \<longrightarrow> get_invoice_status s' h = Some InvPaid) \<and>
    (get_invoice_status s h = Some InvCancelled \<longrightarrow> get_invoice_status s' h \<in> {Some InvCancelled, Some InvPaid}) \<and>
    (\<forall>s''. receipt_step R s' s'' \<and> get_invoice_status s' h = Some InvReceived \<and> get_preimage s' h \<noteq> None \<longrightarrow>
       get_invoice_status s'' h \<in> {Some InvReceived, Some InvPaid}) \<and>
    (preimage_stored s h \<and> get_invoice_status s' h = Some InvOpen \<longrightarrow> preimage_stored s' h \<and> get_preimage s' h \<noteq> None)"
proof -
  have good: "invoices_stored s'" and le: "get_invoice_status s h \<le> get_invoice_status s' h"
    using rcp.run_forward [OF assms(1,2)] by blast+
  have inv: "get_invoice s' h = Some i" using run_invoices [OF assms(1,3)] .
  then obtain st where st: "get_invoice_status s' h = Some st" "st \<noteq> InvExpired"
    using stored_at [OF good, of h] by auto
  have released: "get_invoice_status s'' h \<in> {Some InvReceived, Some InvPaid}"
    if "receipt_step R s' s''" "get_invoice_status s' h = Some InvReceived" "get_preimage s' h \<noteq> None" for s''
    using receipt_step_effect [OF that(1)] that(2,3) inv by (auto simp: invoice_effect_def status_move_def)
  have kept: "preimage_stored s' h \<and> get_preimage s' h \<noteq> None" if "preimage_stored s h" "get_invoice_status s' h = Some InvOpen"
    using run_preimage [OF assms that] by (auto simp: preimage_stored_def get_preimage_def)
  show ?thesis using good le inv st released kept
    by (cases st) (auto simp: invoice_order split: if_splits)
qed

theorem invoice_moves_forward_witness:
  "\<exists>s'. (receipt_step sample_receipt_env)\<^sup>*\<^sup>* sample_pay_store s' \<and> get_invoice s' 8 = Some sample_invoice \<and>
     get_invoice_status s' 8 = Some InvCancelled \<and> Some InvOpen \<le> get_invoice_status s' 8"
proof -
  let ?s' = "sample_pay_store\<lparr>ps_invoice_status := (ps_invoice_status sample_pay_store)(8 \<mapsto> InvCancelled)\<rparr>"
  have "cancel_invoice 0 sample_pay_store 8 = Ok (?s', [SettleHoldTlcSet 8])"
    by (simp add: cancel_invoice_def sample_set_accepted ok_or_def is_expired_def expiry_time_def update_invoice_status_def)
  then have run: "(receipt_step sample_receipt_env)\<^sup>*\<^sup>* sample_pay_store ?s'" by (blast intro: receipt_step.cancel)
  have "invoices_stored sample_pay_store"
    by (simp add: invoices_stored_def sample_pay_store_def get_invoice_def get_invoice_status_def)
  from invoice_moves_forward [OF run this sample_set_accepted(2)] show ?thesis
    using run sample_set_accepted(3) by (intro exI [of _ ?s']) (simp add: get_invoice_status_def)
qed

section \<open>An interrupted release\<close>

lemma handoff_preimage: "get_preimage (complete_hold_handoff s h') h = get_preimage s h"
proof -
  have hold_keeps: "get_preimage (remove_payment_hold_tlc s h' c t) h = get_preimage s h" for s c t
    by (simp add: get_preimage_def remove_payment_hold_tlc_def split: option.split)
  have "get_preimage (fold (\<lambda>ho s. if handed_over s h' ho then remove_payment_hold_tlc s h' (ho_channel_id ho) (ho_tlc_id ho) else s) hs s') h = get_preimage s' h"
    for hs s' by (induction hs arbitrary: s') (simp_all add: hold_keeps)
  then show ?thesis by (simp add: complete_hold_handoff_def)
qed

lemma ctx_sum_append: "ctx_sum (ts @ us) = ctx_sum ts + ctx_sum us"
  by (induction ts) simp_all

lemma settle_received_again:
  assumes "get_invoice s h = Some i" and "allow_mpp i" and "iv_amount i = Some a"
    and "cmd = new_received_hold_tlc_set (complete_hold_handoff s h) h" and "declared_by_all a (sc_tlcs cmd)"
  shows "get_invoice_status s h = Some InvReceived \<Longrightarrow> ctx_sum (sc_tlcs cmd) < unat a \<Longrightarrow>
      settle_received_hold_tlc_set R now s h = Ok ([], complete_hold_handoff s h)"
    and "get_invoice_status s h = Some InvPaid \<Longrightarrow>
      settle_received_hold_tlc_set R now s h = Ok (reject_tlcs R (sc_tlcs cmd) CODE_HoldTlcTimeout, complete_hold_handoff s h)"
    and "get_invoice_status s h = Some InvReceived \<Longrightarrow> ctx_sum (sc_tlcs cmd) = unat a \<Longrightarrow> 0 < a \<Longrightarrow> list_all (\<lambda>t. 0 < tc_amount t) (sc_tlcs cmd) \<Longrightarrow>
      get_preimage s h = Some p \<Longrightarrow> settle_received_hold_tlc_set R now s h = Ok (map (into_remove_tlc_fulfill_settlement p) (sc_tlcs cmd), complete_hold_handoff s h)"
proof -
  let ?s = "complete_hold_handoff s h"
  have frame: "get_invoice ?s = get_invoice s" "get_invoice_status ?s = get_invoice_status s"
    using complete_hold_handoff_frame by (auto intro: invoice_frame)
  have cmd: "sc_payment_hash cmd = h" "sc_is_hold_tlc_set cmd" "sc_allow_received_invoice cmd"
    by (simp_all add: assms(4) new_received_hold_tlc_set_def new_hold_tlc_set_with_received_invoice_def)
  have run: "settle_received_hold_tlc_set R now s h = run_settle_tlc_set R now ?s cmd"
    by (simp add: settle_received_hold_tlc_set_def assms(4) Let_def)
  note accepted = run_settle_tlc_set_accepted [of ?s cmd i InvReceived now R, OF _ _ _ declared_total_agrees [OF assms(5)], unfolded frame cmd(1)]
  have accepts: "accepts_settlement now cmd i InvReceived" using cmd by (simp add: accepts_settlement_def)
  show "settle_received_hold_tlc_set R now s h = Ok ([], ?s)" if "get_invoice_status s h = Some InvReceived" "ctx_sum (sc_tlcs cmd) < unat a"
  proof -
    have "leave_just_fulfilled_tlcs R i (sc_tlcs cmd) = ([], [])"
    proof (cases "sc_tlcs cmd = []")
      case False
      then show ?thesis using leave_mpp_complete [OF assms(2) _ assms(5), of R] assms(3) that(2) by blast
    qed (use assms(2) in \<open>simp add: leave_just_fulfilled_tlcs_def leave_just_fulfilled_tlcs_for_mpp_invoice_def\<close>)
    then show ?thesis using accepted [OF assms(1) that(1) accepts] run by simp
  qed
  show "settle_received_hold_tlc_set R now s h = Ok (reject_tlcs R (sc_tlcs cmd) CODE_HoldTlcTimeout, ?s)" if "get_invoice_status s h = Some InvPaid"
    using that assms(1) cmd run by (simp add: run_settle_tlc_set_def frame verify_invoice_status_def)
  show "settle_received_hold_tlc_set R now s h = Ok (map (into_remove_tlc_fulfill_settlement p) (sc_tlcs cmd), ?s)"
    if received: "get_invoice_status s h = Some InvReceived" and total: "ctx_sum (sc_tlcs cmd) = unat a" and pos: "0 < a" "list_all (\<lambda>t. 0 < tc_amount t) (sc_tlcs cmd)"
      and p: "get_preimage s h = Some p"
  proof -
    have some: "sc_tlcs cmd \<noteq> []" using total pos(1) by (auto simp: word_less_nat_alt)
    obtain n where n: "n \<le> length (sc_tlcs cmd)" "unat a \<le> ctx_sum (take n (sc_tlcs cmd))"
      "leave_just_fulfilled_tlcs R i (sc_tlcs cmd) = (take n (sc_tlcs cmd), reject_tlcs R (drop n (sc_tlcs cmd)) CODE_HoldTlcTimeout)"
      using leave_mpp_complete [OF assms(2) disjI2 [OF assms(3)] assms(5) some, of R] total by (metis order_refl)
    have "ctx_sum (take n (sc_tlcs cmd)) + ctx_sum (drop n (sc_tlcs cmd)) = ctx_sum (sc_tlcs cmd)" by (metis append_take_drop_id ctx_sum_append)
    then have "ctx_sum (drop n (sc_tlcs cmd)) = 0" using n(2) total by simp
    moreover have "list_all (\<lambda>t. 0 < tc_amount t) (drop n (sc_tlcs cmd))" using pos(2) by (auto simp: list_all_iff dest: in_set_dropD)
    ultimately have "drop n (sc_tlcs cmd) = []" by (cases "drop n (sc_tlcs cmd)") (auto simp: word_less_nat_alt)
    then have all: "leave_just_fulfilled_tlcs R i (sc_tlcs cmd) = (sc_tlcs cmd, [])" using n by (simp add: reject_tlcs_def)
    have same: "?s\<lparr>ps_invoice_status := (ps_invoice_status ?s)(h \<mapsto> InvReceived)\<rparr> = ?s"
      using received frame(2) by (simp add: get_invoice_status_def fun_upd_idem fun_eq_iff)
    have "get_preimage ?s h = Some p" using p by (simp add: handoff_preimage)
    then show ?thesis using accepted [OF assms(1) received accepts all] some run same by (simp add: try_settle_all_def)
  qed
qed

lemma filter_sum_less:
  assumes "list_all (\<lambda>t. 0 < tc_amount t) ts" and "t \<in> set ts" and "\<not> P t"
  shows "ctx_sum (filter P ts) < ctx_sum ts"
proof -
  have le: "ctx_sum (filter P ts) \<le> ctx_sum ts" for ts by (induction ts) auto
  obtain us vs where ts: "ts = us @ t # vs" using assms(2) by (meson split_list)
  have "0 < unat (tc_amount t)" using assms(1) by (simp add: ts word_less_nat_alt)
  then show ?thesis using assms(3) le [of us] le [of vs] by (simp add: ts ctx_sum_append)
qed

text \<open>C40. A release that is interrupted strands the parts that were not handed over. For a received multi-part payment whose parts add up exactly and whose preimage is
  known, one call releases every part. Suppose the node stops before all of them reached their channels: at any later state of the store in which some of the released parts
  are gone from the held set and no new one has joined it, a further release decides nothing, and no hold times out, as long as the invoice is
  received; and once a settled part has marked it paid, the rest is failed back, so that the payer holds the proof of payment for less than the amount.
\<close>
theorem interrupted_release_strands_parts:
  assumes "get_invoice s h = Some i" and "allow_mpp i" and "iv_amount i = Some a" and "0 < a"
    and "get_invoice_status s h = Some InvReceived" and "get_preimage s h = Some p"
    and "parts = sc_tlcs (new_received_hold_tlc_set (complete_hold_handoff s h) h)"
    and "declared_by_all a parts" and "ctx_sum parts = unat a" and "list_all (\<lambda>t. 0 < tc_amount t) parts"
  shows "settle_received_hold_tlc_set R now s h = Ok (map (into_remove_tlc_fulfill_settlement p) parts, complete_hold_handoff s h) \<and>
    (\<forall>s' P t now'. (receipt_step R)\<^sup>*\<^sup>* (complete_hold_handoff s h) s' \<and>
       sc_tlcs (new_received_hold_tlc_set (complete_hold_handoff s' h) h) = filter P parts \<and> t \<in> set parts \<and> \<not> P t \<longrightarrow>
       (get_invoice_status s' h = Some InvReceived \<longrightarrow> settle_received_hold_tlc_set R now' s' h = Ok ([], complete_hold_handoff s' h) \<and>
          (\<forall>channel_id tlc_id. timeout_hold_tlc R s' h channel_id tlc_id = ([], s'))) \<and>
       (get_invoice_status s' h = Some InvPaid \<longrightarrow>
          settle_received_hold_tlc_set R now' s' h = Ok (reject_tlcs R (filter P parts) CODE_HoldTlcTimeout, complete_hold_handoff s' h)))"
proof -
  note first = settle_received_again(3) [OF assms(1-3) HOL.refl, folded assms(7), OF assms(8,5,9,4,10,6)]
  have later: "(get_invoice_status s' h = Some InvReceived \<longrightarrow> settle_received_hold_tlc_set R now' s' h = Ok ([], complete_hold_handoff s' h) \<and>
          (\<forall>channel_id tlc_id. timeout_hold_tlc R s' h channel_id tlc_id = ([], s'))) \<and>
       (get_invoice_status s' h = Some InvPaid \<longrightarrow>
          settle_received_hold_tlc_set R now' s' h = Ok (reject_tlcs R (filter P parts) CODE_HoldTlcTimeout, complete_hold_handoff s' h))"
    if run: "(receipt_step R)\<^sup>*\<^sup>* (complete_hold_handoff s h) s'" and set: "sc_tlcs (new_received_hold_tlc_set (complete_hold_handoff s' h) h) = filter P parts"
      and gone: "t \<in> set parts" "\<not> P t" for s' P t now'
  proof -
    have "get_invoice (complete_hold_handoff s h) h = Some i" using assms(1) complete_hold_handoff_frame invoice_frame(1) by metis
    then have i: "get_invoice s' h = Some i" by (rule run_invoices [OF run])
    have "declared_by_all a (filter P parts)" using assms(8) by (simp add: declared_by_all_def list_all_iff)
    note again = settle_received_again [OF i assms(2,3) HOL.refl, unfolded set, OF this]
    show ?thesis using again(1,2) filter_sum_less [of parts t P, OF assms(10) gone] assms(9) by (simp add: timeout_hold_tlc_def)
  qed
  show ?thesis using first later by blast
qed

definition interrupted_table :: "remove_tlc_reason option \<Rightarrow> tlc_state" where
  "interrupted_table r = \<lparr>ts_offered = \<lparr>pt_tlcs = [], pt_next_tlc_id = 0\<rparr>,
     ts_received = \<lparr>pt_tlcs = [(sample_tlc (Received 0) (Inbound InCommitted) 60)\<lparr>ti_payment_hash := 8, ti_total_amount := Some 100, ti_removed_reason := r\<rparr>,
         (sample_tlc (Received 1) (Inbound InCommitted) 40)\<lparr>ti_payment_hash := 8, ti_total_amount := Some 100\<rparr>], pt_next_tlc_id = 2\<rparr>,
     ts_waiting_ack = False\<rparr>"

definition interrupted_store :: "remove_tlc_reason option \<Rightarrow> ckb_invoice_status \<Rightarrow> pay_store" where
  "interrupted_store r st = sample_pay_store\<lparr>ps_invoice_status := [8 \<mapsto> st], ps_channels := [(9, sample_channel (interrupted_table r) 10 10)],
     ps_holds := [(8, \<lparr>ho_channel_id = 9, ho_tlc_id = 0, ho_hold_expire_at = 0\<rparr>), (8, \<lparr>ho_channel_id = 9, ho_tlc_id = 1, ho_hold_expire_at = 0\<rparr>)]\<rparr>"

definition interrupted_part :: "u64 \<Rightarrow> u128 \<Rightarrow> tlc_settlement_context" where
  "interrupted_part n a = \<lparr>tc_channel_id = 9, tc_id = n, tc_amount = a, tc_total_amount = Some 100, tc_shared_secret = 0\<rparr>"

lemma interrupted_get:
  "get (interrupted_table r) (Received 0) = Some ((sample_tlc (Received 0) (Inbound InCommitted) 60)\<lparr>ti_payment_hash := 8,
      ti_total_amount := Some 100, ti_removed_reason := r\<rparr>)"
  "get (interrupted_table r) (Received 1) = Some ((sample_tlc (Received 1) (Inbound InCommitted) 40)\<lparr>ti_payment_hash := 8, ti_total_amount := Some 100\<rparr>)"
  "ch_tlc_state (sample_channel (interrupted_table r) 10 10) = interrupted_table r"
  "ch_retryable_tlc_operations (sample_channel (interrupted_table r) 10 10) = []"
  "ch_waiting_forward_tlc_tasks (sample_channel (interrupted_table r) 10 10) = Map.empty"
  by (simp_all add: get_def interrupted_table_def find_tlc_def sample_tlc_def sample_channel_def)

lemma interrupted_handoff:
  "complete_hold_handoff (interrupted_store None st) 8 = interrupted_store None st"
  "complete_hold_handoff (interrupted_store (Some r) st) 8 =
     (interrupted_store (Some r) st)\<lparr>ps_holds := [(8, \<lparr>ho_channel_id = 9, ho_tlc_id = 1, ho_hold_expire_at = 0\<rparr>)]\<rparr>"
  by (simp_all add: complete_hold_handoff_def interrupted_store_def get_payment_hold_tlcs_def handed_over_def get_channel_actor_state_def
      remove_payment_hold_tlc_def interrupted_get) (simp_all add: sample_tlc_def)

lemma interrupted_set:
  "sc_tlcs (new_received_hold_tlc_set (complete_hold_handoff (interrupted_store None st) 8) 8) = [interrupted_part 0 60, interrupted_part 1 40]"
  "sc_tlcs (new_received_hold_tlc_set (complete_hold_handoff (interrupted_store (Some r) st) 8) 8) = [interrupted_part 1 40]"
  unfolding interrupted_handoff
  by (simp_all add: new_received_hold_tlc_set_def new_hold_tlc_set_with_received_invoice_def get_payment_hold_tlcs_def interrupted_store_def
      make_settlement_context_def get_channel_actor_state_def interrupted_get List.map_filter_def can_auto_fulfill_received_tlc_def
      is_waiting_forward_result_for_received_tlc_def)
    (simp_all add: sample_tlc_def is_received_def is_offered_def interrupted_part_def)

lemma interrupted_invoice:
  "get_invoice (interrupted_store r st) 8 = Some sample_invoice" "get_invoice_status (interrupted_store r st) 8 = Some st"
  "get_preimage (interrupted_store r st) 8 = Some 7"
  by (simp_all add: interrupted_store_def get_invoice_def get_invoice_status_def get_preimage_def sample_pay_store_def)

text \<open>Two parts of 60 and 40 are released together; the node stops after the first reached its channel, and the 40 stay locked.\<close>

theorem interrupted_release_strands_parts_witness:
  "settle_received_hold_tlc_set sample_receipt_env 0 (interrupted_store None InvReceived) 8 =
     Ok (map (into_remove_tlc_fulfill_settlement 7) [interrupted_part 0 60, interrupted_part 1 40], interrupted_store None InvReceived) \<and>
   settle_received_hold_tlc_set sample_receipt_env 0 (interrupted_store (Some (RemoveTlcFulfill 7)) InvReceived) 8 =
     Ok ([], complete_hold_handoff (interrupted_store (Some (RemoveTlcFulfill 7)) InvReceived) 8)"
proof -
  let ?s = "interrupted_store None InvReceived" and ?s' = "interrupted_store (Some (RemoveTlcFulfill 7)) InvReceived"
  let ?parts = "[interrupted_part 0 60, interrupted_part 1 40]" and ?P = "\<lambda>t. tc_id t = 1"
  have "?s' = ?s\<lparr>ps_channels := [(9, sample_channel (interrupted_table (Some (RemoveTlcFulfill 7))) 10 10)]\<rparr>" by (simp add: interrupted_store_def)
  then have run: "(receipt_step sample_receipt_env)\<^sup>*\<^sup>* (complete_hold_handoff ?s 8) ?s'"
    by (metis interrupted_handoff(1) receipt_step.channels r_into_rtranclp)
  have set: "sc_tlcs (new_received_hold_tlc_set (complete_hold_handoff ?s' 8) 8) = filter ?P ?parts"
    by (simp add: interrupted_set(2)) (simp add: interrupted_part_def)
  have gone: "interrupted_part 0 60 \<in> set ?parts" "\<not> ?P (interrupted_part 0 60)" by (simp_all add: interrupted_part_def)
  have parts: "declared_by_all 100 ?parts" "ctx_sum ?parts = unat (100 :: u128)" "list_all (\<lambda>t. 0 < tc_amount t) ?parts" "0 < (100 :: u128)"
    by (simp_all add: interrupted_part_def declared_by_all_def)
  note strand = interrupted_release_strands_parts [OF interrupted_invoice(1) sample_set_accepted(5,8) parts(4) interrupted_invoice(2,3)
      interrupted_set(1) [symmetric] parts(1-3), of sample_receipt_env 0]
  have "settle_received_hold_tlc_set sample_receipt_env 0 ?s' 8 = Ok ([], complete_hold_handoff ?s' 8)"
    using conjunct2 [OF strand, rule_format, OF conjI [OF run conjI [OF set conjI [OF gone]]], of 0] interrupted_invoice(2) by blast
  with conjunct1 [OF strand] show ?thesis by (simp add: interrupted_handoff(1))
qed

end
