(* ===== verification/Payment_Data.thy ===== *)
theory Payment_Data
  imports Payment_Receipt Settlement_Scan
begin

text \<open>
  The request of a payment (\<^verbatim>\<open>fiber-lib/src/fiber/payment.rs\<close>, \<^verbatim>\<open>fiber-types/src/payment.rs\<close>): how a
  command and an invoice are combined and validated, and that what the payer
  sends is what the payee's final hop accepts. Reading an invoice from its text, random preimages and the size of encoded records are arguments.
\<close>

section \<open>Requests\<close>

type_synonym custom_records = "u32 \<rightharpoonup> bytes"

record hop_hint =
  hh_pubkey :: pubkey
  hh_channel_outpoint :: out_point
  hh_fee_rate :: u64
  hh_tlc_expiry_delta :: u64

record router_hop =
  rh_target :: pubkey
  rh_channel_outpoint :: out_point
  rh_amount_received :: u128
  rh_incoming_tlc_expiry :: u64

record trampoline_context =
  cx_remaining_trampoline_onion :: bytes
  cx_previous_tlcs :: "prev_tlc_info list"
  cx_hash_algorithm :: hash_algorithm
  cx_max_outgoing_tlc_expiry :: "u64 option"

record send_payment_data =
  sp_target_pubkey :: pubkey
  sp_amount :: u128
  sp_payment_hash :: hash256
  sp_invoice :: "bytes option"
  sp_final_tlc_expiry_delta :: u64
  sp_tlc_expiry_limit :: u64
  sp_timeout :: "u64 option"
  sp_max_fee_amount :: "u128 option"
  sp_max_parts :: "u64 option"
  sp_keysend :: bool
  sp_udt_type_script :: "script option"
  sp_preimage :: "hash256 option"
  sp_custom_records :: "custom_records option"
  sp_allow_self_payment :: bool
  sp_hop_hints :: "hop_hint list"
  sp_router :: "router_hop list"
  sp_allow_mpp :: bool
  sp_dry_run :: bool
  sp_trampoline_hops :: "pubkey list option"
  sp_trampoline_context :: "trampoline_context option"

record send_payment_command =
  pc_target_pubkey :: "pubkey option"
  pc_amount :: "u128 option"
  pc_payment_hash :: "hash256 option"
  pc_invoice :: "bytes option"
  pc_final_tlc_expiry_delta :: "u64 option"
  pc_tlc_expiry_limit :: "u64 option"
  pc_timeout :: "u64 option"
  pc_max_fee_amount :: "u128 option"
  pc_max_fee_rate :: "u64 option"
  pc_max_parts :: "u64 option"
  pc_keysend :: "bool option"
  pc_udt_type_script :: "script option"
  pc_allow_self_payment :: bool
  pc_custom_records :: "custom_records option"
  pc_hop_hints :: "hop_hint list option"
  pc_dry_run :: bool
  pc_trampoline_hops :: "pubkey list option"

datatype payment_data_error =
    InvoiceNotSigned | InvoiceInvalid | CurrencyMismatch | InvoiceIsExpired
  | FieldMismatch string | FieldMissing string | FeeOverflow | FinalDeltaBelowInvoiceMinimum
  | KeysendWithInvoice | KeysendWithHash | KeysendWithoutPreimage | HopHintsUnsupported | MppSecretRequired | CustomRecordKey
  | AmountZero | AmountFeeOverflow | InvalidFinalDelta | ExpiryLimitTooSmall | ExpiryLimitTooLarge
  | TrampolineHopsEmpty | TooManyTrampolineHops | TrampolineMppHops | TrampolineTarget | TrampolineMaxFee | TrampolineDuplicates | TrampolineSelfPayment
  | AmountTooLarge | CustomRecordsTooLarge | InvalidMaxParts | InvoiceWithoutMpp | NoHopRequirements

definition MAX_TRAMPOLINE_HOPS_LIMIT :: u16 where "MAX_TRAMPOLINE_HOPS_LIMIT = 5"
definition DEFAULT_MAX_FEE_RATE :: u64 where "DEFAULT_MAX_FEE_RATE = 5"
definition MAX_FEE_RATE_DENOMINATOR :: u128 where "MAX_FEE_RATE_DENOMINATOR = 1000"
definition USER_CUSTOM_RECORDS_MAX_INDEX :: u32 where "USER_CUSTOM_RECORDS_MAX_INDEX = 65535"
definition DEFAULT_MAX_PARTS :: u64 where "DEFAULT_MAX_PARTS = 12"
definition PAYMENT_MAX_PARTS_LIMIT :: u64 where "PAYMENT_MAX_PARTS_LIMIT = 24"

definition max_parts_of :: "send_payment_data \<Rightarrow> u64" where
  "max_parts_of d = unwrap_or (sp_max_parts d) DEFAULT_MAX_PARTS"

definition data_allow_mpp :: "send_payment_data \<Rightarrow> bool" where
  "data_allow_mpp d \<longleftrightarrow> sp_allow_mpp d \<and> max_parts_of d > 1 \<and> \<not> sp_keysend d"

definition use_trampoline_routing :: "send_payment_data \<Rightarrow> bool" where
  "use_trampoline_routing d \<longleftrightarrow> (case sp_trampoline_hops d of Some hops \<Rightarrow> hops \<noteq> [] | None \<Rightarrow> False)"

section \<open>Validation\<close>

definition validate_trampoline :: "send_payment_data \<Rightarrow> (unit, payment_data_error) res" where
  "validate_trampoline d = (case sp_trampoline_hops d of
      None \<Rightarrow> Ok ()
    | Some hops \<Rightarrow>
        bind_res (ensure (hops \<noteq> []) TrampolineHopsEmpty) (\<lambda>_.
        bind_res (ensure (length hops \<le> unat MAX_TRAMPOLINE_HOPS_LIMIT) TooManyTrampolineHops) (\<lambda>_.
        bind_res (ensure (\<not> (sp_allow_mpp d \<and> max_parts_of d > 1 \<and> length hops > 1)) TrampolineMppHops) (\<lambda>_.
        bind_res (ensure (sp_target_pubkey d \<notin> set hops) TrampolineTarget) (\<lambda>_.
        bind_res (ensure (sp_max_fee_amount d \<noteq> None) TrampolineMaxFee) (\<lambda>_.
        bind_res (ensure (distinct hops) TrampolineDuplicates) (\<lambda>_.
        ensure (\<not> sp_allow_self_payment d) TrampolineSelfPayment)))))))"

definition validate_max_parts :: "send_payment_data \<Rightarrow> (unit, payment_data_error) res" where
  "validate_max_parts d = (case sp_max_parts d of
      None \<Rightarrow> Ok ()
    | Some max_parts \<Rightarrow>
        bind_res (ensure (\<not> (max_parts = 0 \<or> max_parts > PAYMENT_MAX_PARTS_LIMIT)) InvalidMaxParts) (\<lambda>_.
        bind_res (ensure (\<not> (sp_allow_mpp d \<and> max_parts \<le> 1)) InvalidMaxParts) (\<lambda>_.
        ensure (\<not> (\<not> sp_allow_mpp d \<and> max_parts > 1 \<and> sp_trampoline_context d = None)) InvoiceWithoutMpp)))"

definition validate_payment_data :: "receipt_env \<Rightarrow> send_payment_data \<Rightarrow> (unit, payment_data_error) res" where
  "validate_payment_data R d =
     bind_res (ensure (sp_amount d \<noteq> 0) AmountZero) (\<lambda>_.
     bind_res (expect (sp_max_fee_amount d)) (\<lambda>max_fee.
     bind_res (ensure (checked_add (sp_amount d) max_fee \<noteq> None) AmountFeeOverflow) (\<lambda>_.
     bind_res (ensure (MIN_TLC_EXPIRY_DELTA \<le> sp_final_tlc_expiry_delta d \<and>
         sp_final_tlc_expiry_delta d \<le> MAX_PAYMENT_TLC_EXPIRY_LIMIT) InvalidFinalDelta) (\<lambda>_.
     bind_res (ensure (\<not> (sp_tlc_expiry_limit d < sp_final_tlc_expiry_delta d \<or> sp_tlc_expiry_limit d < MIN_TLC_EXPIRY_DELTA)) ExpiryLimitTooSmall) (\<lambda>_.
     bind_res (ensure (\<not> sp_tlc_expiry_limit d > MAX_PAYMENT_TLC_EXPIRY_LIMIT) ExpiryLimitTooLarge) (\<lambda>_.
     bind_res (validate_trampoline d) (\<lambda>_.
     bind_res (ensure (\<not> (sp_udt_type_script d = None \<and> sp_amount d \<ge> 2 ^ 64 - 1)) AmountTooLarge) (\<lambda>_.
     bind_res (ensure (case sp_custom_records d of Some records \<Rightarrow> re_records_size_ok R records | None \<Rightarrow> True) CustomRecordsTooLarge) (\<lambda>_.
     bind_res (validate_max_parts d) (\<lambda>_.
     if sp_keysend d
     then bind_res (ensure (sp_invoice d = None) KeysendWithInvoice) (\<lambda>_. ensure (sp_preimage d \<noteq> None) KeysendWithoutPreimage)
     else Ok ()))))))))))"

definition build_payment_data :: "receipt_env \<Rightarrow> send_payment_data \<Rightarrow> (send_payment_data, payment_data_error) res" where
  "build_payment_data R d = bind_res (validate_payment_data R d) (\<lambda>_. Ok d)"

definition validate_field :: "'a option \<Rightarrow> 'a option \<Rightarrow> string \<Rightarrow> ('a, payment_data_error) res" where
  "validate_field field invoice_field name = (case (field, invoice_field) of
      (Some f, Some i) \<Rightarrow> if f \<noteq> i then Err (FieldMismatch name) else Ok f
    | (Some f, None) \<Rightarrow> Ok f
    | (None, Some i) \<Rightarrow> Ok i
    | (None, None) \<Rightarrow> Err (FieldMissing name))"

section \<open>From a command and an invoice to a request\<close>

definition final_delta_for :: "ckb_invoice option \<Rightarrow> u64 option \<Rightarrow> (u64, payment_data_error) res" where
  "final_delta_for invoice requested = (case invoice of
      Some i \<Rightarrow> (case final_tlc_minimum_expiry_delta i of
          Some delta \<Rightarrow> Ok delta
        | None \<Rightarrow> (let minimum = final_tlc_minimum_expiry_delta_or_default i in
            case requested of
              Some delta \<Rightarrow> if delta < minimum then Err FinalDeltaBelowInvoiceMinimum else Ok delta
            | None \<Rightarrow> Ok minimum))
    | None \<Rightarrow> Ok (unwrap_or requested DEFAULT_FINAL_TLC_EXPIRY_DELTA))"

definition max_fee_for :: "u128 \<Rightarrow> u64 option \<Rightarrow> u128 option \<Rightarrow> (u128, payment_data_error) res" where
  "max_fee_for amount rate requested =
     (case calculate_fee_with_base amount (ucast (unwrap_or rate DEFAULT_MAX_FEE_RATE)) MAX_FEE_RATE_DENOMINATOR of
        Ok by_rate \<Rightarrow> Ok (case requested of Some m \<Rightarrow> min m by_rate | None \<Rightarrow> by_rate)
      | _ \<Rightarrow> Err FeeOverflow)"

definition records_for :: "ckb_invoice option \<Rightarrow> u128 \<Rightarrow> custom_records option \<Rightarrow> custom_records option" where
  "records_for invoice amount records = (case Option.bind invoice payment_secret of
      None \<Rightarrow> records
    | Some secret \<Rightarrow> Some (mpp_write \<lparr>mp_payment_secret = secret, mp_total_amount = amount\<rparr> (unwrap_or records Map.empty)))"

definition hash_and_preimage_for ::
  "receipt_env \<Rightarrow> hash256 \<Rightarrow> ckb_invoice option \<Rightarrow> send_payment_command \<Rightarrow> (hash256 \<times> hash256 option, payment_data_error) res" where
  "hash_and_preimage_for R rnd invoice cmd =
     (if \<not> unwrap_or (pc_keysend cmd) False
      then bind_res (validate_field (pc_payment_hash cmd) (map_option (\<lambda>i. id_payment_hash (iv_data i)) invoice) ''payment_hash'') (\<lambda>h. Ok (h, None))
      else bind_res (ensure (invoice = None) KeysendWithInvoice) (\<lambda>_.
           bind_res (ensure (pc_payment_hash cmd = None) KeysendWithHash) (\<lambda>_.
           Ok (blake2b_256 (re_hashers R) rnd, Some rnd))))"

definition payment_data_of ::
  "send_payment_command \<Rightarrow> ckb_invoice option \<Rightarrow> pubkey \<Rightarrow> u128 \<Rightarrow> u128 \<Rightarrow> script option \<Rightarrow> u64 \<Rightarrow> hash256 \<Rightarrow> hash256 option \<Rightarrow> send_payment_data" where
  "payment_data_of cmd invoice target amount max_fee udt final_delta h preimage =
     \<lparr>sp_target_pubkey = target, sp_amount = amount, sp_payment_hash = h, sp_invoice = pc_invoice cmd,
       sp_final_tlc_expiry_delta = final_delta, sp_tlc_expiry_limit = unwrap_or (pc_tlc_expiry_limit cmd) MAX_PAYMENT_TLC_EXPIRY_LIMIT,
       sp_timeout = pc_timeout cmd, sp_max_fee_amount = Some max_fee, sp_max_parts = pc_max_parts cmd,
       sp_keysend = unwrap_or (pc_keysend cmd) False, sp_udt_type_script = udt, sp_preimage = preimage,
       sp_custom_records = records_for invoice amount (pc_custom_records cmd), sp_allow_self_payment = pc_allow_self_payment cmd,
       sp_hop_hints = unwrap_or (pc_hop_hints cmd) [], sp_router = [],
       sp_allow_mpp = (case invoice of Some i \<Rightarrow> allow_mpp i | None \<Rightarrow> False), sp_dry_run = pc_dry_run cmd,
       sp_trampoline_hops = pc_trampoline_hops cmd, sp_trampoline_context = None\<rparr>"

definition send_payment_data_new ::
  "receipt_env \<Rightarrow> (bytes \<Rightarrow> (ckb_invoice, payment_data_error) res) \<Rightarrow> u128 \<Rightarrow> hash256 \<Rightarrow> send_payment_command \<Rightarrow> currency \<Rightarrow> (send_payment_data, payment_data_error) res" where
  "send_payment_data_new R parse now rnd cmd cur =
     bind_res (case pc_invoice cmd of None \<Rightarrow> Ok None | Some text \<Rightarrow> bind_res (parse text) (\<lambda>i. Ok (Some i))) (\<lambda>invoice.
     bind_res (case invoice of None \<Rightarrow> Ok () | Some i \<Rightarrow>
         bind_res (ensure (iv_currency i = cur) CurrencyMismatch) (\<lambda>_. ensure (\<not> is_expired now i) InvoiceIsExpired)) (\<lambda>_.
     bind_res (validate_field (pc_target_pubkey cmd) (Option.bind invoice payee_pub_key) ''target_pubkey'') (\<lambda>target.
     bind_res (validate_field (pc_amount cmd) (Option.bind invoice iv_amount) ''amount'') (\<lambda>amount.
     bind_res (max_fee_for amount (pc_max_fee_rate cmd) (pc_max_fee_amount cmd)) (\<lambda>max_fee.
     bind_res (case validate_field (pc_udt_type_script cmd) (Option.bind invoice udt_type_script) ''udt_type_script'' of
         Ok script \<Rightarrow> Ok (Some script) | Err (FieldMissing _) \<Rightarrow> Ok None | Err e \<Rightarrow> Err e | Panic \<Rightarrow> Panic) (\<lambda>udt.
     bind_res (final_delta_for invoice (pc_final_tlc_expiry_delta cmd)) (\<lambda>final_delta.
     bind_res (hash_and_preimage_for R rnd invoice cmd) (\<lambda>(h, preimage).
     bind_res (ensure (\<not> (unwrap_or (pc_hop_hints cmd) [] \<noteq> [] \<and> (case invoice of Some i \<Rightarrow> \<not> allow_trampoline_routing i | None \<Rightarrow> False))) HopHintsUnsupported) (\<lambda>_.
     bind_res (ensure (\<not> ((case invoice of Some i \<Rightarrow> allow_mpp i | None \<Rightarrow> False) \<and> Option.bind invoice payment_secret = None)) MppSecretRequired) (\<lambda>_.
     bind_res (ensure (case pc_custom_records cmd of
         Some records \<Rightarrow> \<forall>k \<in> dom records. k \<le> USER_CUSTOM_RECORDS_MAX_INDEX | None \<Rightarrow> True) CustomRecordKey) (\<lambda>_.
     build_payment_data R (payment_data_of cmd invoice target amount max_fee udt final_delta h preimage))))))))))))"

definition router_send_payment_data ::
  "receipt_env \<Rightarrow> (bytes \<Rightarrow> (ckb_invoice, payment_data_error) res) \<Rightarrow> u128 \<Rightarrow> hash256 \<Rightarrow> pubkey \<Rightarrow> currency \<Rightarrow> router_hop list \<Rightarrow> send_payment_command \<Rightarrow>
   (send_payment_data, payment_data_error) res" where
  "router_send_payment_data R parse now rnd source cur router cmd =
     (if router = [] then Err NoHopRequirements
      else let edge = last router;
               cmd' = \<lparr>pc_target_pubkey = Some (rh_target edge), pc_amount = Some (rh_amount_received edge), pc_payment_hash = pc_payment_hash cmd,
                 pc_invoice = pc_invoice cmd, pc_final_tlc_expiry_delta = None, pc_tlc_expiry_limit = None, pc_timeout = None, pc_max_fee_amount = None,
                 pc_max_fee_rate = None, pc_max_parts = None, pc_keysend = pc_keysend cmd, pc_udt_type_script = pc_udt_type_script cmd,
                 pc_allow_self_payment = (rh_target edge = source), pc_custom_records = pc_custom_records cmd, pc_hop_hints = None,
                 pc_dry_run = pc_dry_run cmd, pc_trampoline_hops = None\<rparr>
           in bind_res (send_payment_data_new R parse now rnd cmd' cur) (\<lambda>d. Ok (d\<lparr>sp_router := router\<rparr>)))"

section \<open>What a validated request guarantees\<close>

lemma validate_payment_data_Ok:
  assumes "build_payment_data R d = Ok d'"
  shows "d' = d" and "sp_amount d \<noteq> 0" and "\<exists>m. sp_max_fee_amount d = Some m \<and> unat (sp_amount d) + unat m < 2 ^ 128"
    and "MIN_TLC_EXPIRY_DELTA \<le> sp_final_tlc_expiry_delta d" and "sp_final_tlc_expiry_delta d \<le> sp_tlc_expiry_limit d"
    and "sp_tlc_expiry_limit d \<le> MAX_PAYMENT_TLC_EXPIRY_LIMIT"
    and "case sp_custom_records d of Some records \<Rightarrow> re_records_size_ok R records | None \<Rightarrow> True"
    and "\<And>n. sp_max_parts d = Some n \<Longrightarrow> 0 < n \<and> n \<le> PAYMENT_MAX_PARTS_LIMIT"
  using assms
  by (auto simp: build_payment_data_def validate_payment_data_def validate_max_parts_def bind_res_eq_Ok ensure_def expect_def
      rust_arith word_gt_0 split: if_splits option.splits)

lemma validate_field_Ok: "validate_field f g n = Ok x \<Longrightarrow> (f = Some x \<or> f = None) \<and> (g = Some x \<or> g = None) \<and> (f \<noteq> None \<or> g \<noteq> None)"
  by (auto simp: validate_field_def split: option.splits if_splits)

lemma send_payment_data_new_OkE:
  assumes "send_payment_data_new R parse now rnd cmd cur = Ok d" and "pc_invoice cmd = Some text" and "parse text = Ok i"
  shows "iv_currency i = cur" and "\<not> is_expired now i" and "iv_amount i \<in> {None, Some (sp_amount d)}" and "sp_amount d \<noteq> 0"
    and "sp_payment_hash d = id_payment_hash (iv_data i)" and "sp_allow_mpp d = allow_mpp i"
    and "allow_mpp i \<Longrightarrow> payment_secret i \<noteq> None"
    and "final_tlc_minimum_expiry_delta_or_default i \<le> sp_final_tlc_expiry_delta d"
    and "\<exists>records. (case records of Some m \<Rightarrow> \<forall>k\<in>dom m. k \<le> USER_CUSTOM_RECORDS_MAX_INDEX | None \<Rightarrow> True) \<and>
      sp_custom_records d = records_for (Some i) (sp_amount d) records"
    and "case sp_custom_records d of Some records \<Rightarrow> re_records_size_ok R records | None \<Rightarrow> True"
proof -
  from assms obtain target amount max_fee udt delta h preimage
    where build: "build_payment_data R (payment_data_of cmd (Some i) target amount max_fee udt delta h preimage) = Ok d"
      and inv: "iv_currency i = cur" "\<not> is_expired now i"
      and amount: "validate_field (pc_amount cmd) (iv_amount i) ''amount'' = Ok amount"
      and delta: "final_delta_for (Some i) (pc_final_tlc_expiry_delta cmd) = Ok delta"
      and hash: "hash_and_preimage_for R rnd (Some i) cmd = Ok (h, preimage)"
      and secret: "\<not> (allow_mpp i \<and> payment_secret i = None)"
      and records: "case pc_custom_records cmd of Some m \<Rightarrow> \<forall>k\<in>dom m. k \<le> USER_CUSTOM_RECORDS_MAX_INDEX | None \<Rightarrow> True"
    unfolding send_payment_data_new_def by (auto simp: bind_res_eq_Ok)
  note valid = validate_payment_data_Ok(1,2,7) [OF build]
  have d: "d = payment_data_of cmd (Some i) target amount max_fee udt delta h preimage" by (rule valid(1))
  show "iv_currency i = cur" "\<not> is_expired now i" by (rule inv)+
  show "iv_amount i \<in> {None, Some (sp_amount d)}" "sp_amount d \<noteq> 0" "sp_allow_mpp d = allow_mpp i"
    and "case sp_custom_records d of Some records \<Rightarrow> re_records_size_ok R records | None \<Rightarrow> True"
    using validate_field_Ok [OF amount] valid(2,3) by (simp_all add: d payment_data_of_def) blast
  show "payment_secret i \<noteq> None" if "allow_mpp i" using that secret by simp
  show "sp_payment_hash d = id_payment_hash (iv_data i)"
    using hash by (auto simp: d payment_data_of_def hash_and_preimage_for_def bind_res_eq_Ok ensure_def dest!: validate_field_Ok split: if_splits)
  show "final_tlc_minimum_expiry_delta_or_default i \<le> sp_final_tlc_expiry_delta d"
    using delta by (auto simp: d payment_data_of_def final_delta_for_def final_tlc_minimum_expiry_delta_or_default_def Let_def split: if_splits option.splits)
  show "\<exists>records. (case records of Some m \<Rightarrow> \<forall>k\<in>dom m. k \<le> USER_CUSTOM_RECORDS_MAX_INDEX | None \<Rightarrow> True) \<and>
      sp_custom_records d = records_for (Some i) (sp_amount d) records"
    using records by (intro exI [of _ "pc_custom_records cmd"]) (simp add: d payment_data_of_def)
qed

lemma max_fee_for_le: "max_fee_for amount rate (Some m) = Ok fee \<Longrightarrow> fee \<le> m"
  by (auto simp: max_fee_for_def split: res.splits)

lemma send_payment_data_new_limits:
  assumes "send_payment_data_new R parse now rnd cmd cur = Ok d" and "pc_max_fee_amount cmd = Some m"
  shows "sp_max_fee_amount d \<noteq> None" and "\<And>fee. sp_max_fee_amount d = Some fee \<Longrightarrow> fee \<le> m"
    and "sp_tlc_expiry_limit d = unwrap_or (pc_tlc_expiry_limit cmd) MAX_PAYMENT_TLC_EXPIRY_LIMIT" and "sp_trampoline_hops d = pc_trampoline_hops cmd"
proof -
  from assms obtain invoice target amount max_fee udt delta h preimage
    where build: "build_payment_data R (payment_data_of cmd invoice target amount max_fee udt delta h preimage) = Ok d"
      and fee: "max_fee_for amount (pc_max_fee_rate cmd) (Some m) = Ok max_fee"
    unfolding send_payment_data_new_def by (auto simp: bind_res_eq_Ok)
  have d: "d = payment_data_of cmd invoice target amount max_fee udt delta h preimage" by (rule validate_payment_data_Ok(1) [OF build])
  then show "sp_max_fee_amount d \<noteq> None" "sp_tlc_expiry_limit d = unwrap_or (pc_tlc_expiry_limit cmd) MAX_PAYMENT_TLC_EXPIRY_LIMIT"
    "sp_trampoline_hops d = pc_trampoline_hops cmd" "\<And>fee. sp_max_fee_amount d = Some fee \<Longrightarrow> fee \<le> m"
    using max_fee_for_le [OF fee] by (simp_all add: payment_data_of_def)
qed

section \<open>What the payer sends is what the payee admits\<close>

lemma user_records_have_no_mpp:
  assumes "\<forall>k\<in>dom m. k \<le> USER_CUSTOM_RECORDS_MAX_INDEX"
  shows "mpp_read m = None"
proof -
  have "\<not> CUSTOM_RECORD_KEY \<le> USER_CUSTOM_RECORDS_MAX_INDEX"
    by (simp add: CUSTOM_RECORD_KEY_def USER_CUSTOM_RECORDS_MAX_INDEX_def)
  with assms have "m CUSTOM_RECORD_KEY = None" by blast
  then show ?thesis by (simp add: mpp_read_def)
qed

lemma request_mpp_record:
  assumes "send_payment_data_new R parse now rnd cmd cur = Ok d" and "pc_invoice cmd = Some text" and "parse text = Ok i"
  shows "Option.bind (sp_custom_records d) mpp_read =
    map_option (\<lambda>secret. \<lparr>mp_payment_secret = secret, mp_total_amount = sp_amount d\<rparr>) (payment_secret i)"
proof -
  obtain records where user: "case records of Some m \<Rightarrow> \<forall>k\<in>dom m. k \<le> USER_CUSTOM_RECORDS_MAX_INDEX | None \<Rightarrow> True"
    and eq: "sp_custom_records d = records_for (Some i) (sp_amount d) records"
    using send_payment_data_new_OkE(9) [OF assms] by blast
  show ?thesis
  proof (cases "payment_secret i")
    case None
    with eq user show ?thesis by (cases records) (simp_all add: records_for_def user_records_have_no_mpp)
  next
    case (Some secret)
    with eq show ?thesis by (simp add: records_for_def)
  qed
qed

lemma final_hop_direct:
  assumes "ph_amount hop = ti_amount t" and "ph_expiry hop \<le> ti_expiry t"
  shows "final_hop_payload now t hop None = Ok (ph_payment_preimage hop, ph_custom_records hop, Option.bind (ph_custom_records hop) mpp_read)"
  using assms by (simp add: final_hop_payload_def)

lemma invoice_accepts_in_time:
  assumes "get_invoice_status s (id_payment_hash (iv_data i)) = Some InvOpen" and "\<not> is_expired (ucast now) i"
    and "ti_hash_algorithm t = unwrap_or (invoice_hash_algorithm i) CkbHash"
    and "unat now + unat (final_tlc_minimum_expiry_delta_or_default i) \<le> unat (ti_expiry t)"
  shows "check_invoice_accepts now s (Some i) t = Ok ()"
proof -
  note u = unat_ucast_u128
  have "is_tlc_expire_too_soon (ucast now) i (ti_expiry t) = (Ok False :: bool chan_res)"
    using assms(4) unat_bound [of "ti_expiry t"] u [of "ti_expiry t"]
    by (auto simp: is_tlc_expire_too_soon_def bind_res_eq_Ok plus_u_eq_Ok word_less_nat_alt u
        intro!: exI [of _ "ucast now + ucast (final_tlc_minimum_expiry_delta_or_default i)"])
      (simp_all add: unat_word_ariths u)
  then show ?thesis using assms(1-3)
    by (simp add: check_invoice_accepts_def channel_get_invoice_status_def expect_def)
qed

lemma mpp_record_accepted:
  assumes "iv_amount i \<in> {None, Some a}" and "payment_secret i = None \<Longrightarrow> \<not> allow_mpp i \<and> ti_amount t = a \<and> ti_total_amount t = None"
  shows "check_mpp_record (Some i) (map_option (\<lambda>secret. \<lparr>mp_payment_secret = secret, mp_total_amount = a\<rparr>) (payment_secret i)) t =
    Ok (case payment_secret i of None \<Rightarrow> t | Some secret \<Rightarrow> t\<lparr>ti_payment_secret := Some secret, ti_total_amount := Some a\<rparr>)"
  using assms
  by (cases "payment_secret i") (auto simp: check_mpp_record_def unwrap_or_def is_invoice_fulfilled_def Let_def)

text \<open>C22. Payer and payee agree. When the request built from a command and an invoice is paid by a TLC that carries the
  request's payment hash and records, in the amount the onion names, arriving while the invoice is open, with the request's final expiry delta
  still to go, then the payee's final hop admits it: the checks of the amount, the expiry, the hash algorithm, the payment
  secret and the declared total all pass, for a part of any size when the invoice has a payment secret and for the whole amount otherwise.
\<close>
theorem honest_payment_admitted:
  assumes "send_payment_data_new R parse now rnd cmd cur = Ok d" and "pc_invoice cmd = Some text" and "parse text = Ok i"
    and "wf_tlc_state (ch_tlc_state c)" and "get (ch_tlc_state c) (ti_tlc_id t) = Some t"
    and "ti_payment_hash t = sp_payment_hash d" and "ti_hash_algorithm t = unwrap_or (invoice_hash_algorithm i) CkbHash"
    and "ph_amount hop = ti_amount t" and "ph_expiry hop \<le> ti_expiry t" and "ph_payment_preimage hop = None" and "ph_custom_records hop = sp_custom_records d"
    and "payment_secret i = None \<Longrightarrow> ti_amount t = sp_amount d \<and> ti_total_amount t = None"
    and "get_invoice_status s (sp_payment_hash d) = Some InvOpen" and "\<not> is_expired (ucast n) i"
    and "unat n + unat (sp_final_tlc_expiry_delta d) \<le> unat (ti_expiry t)"
    and "\<And>p. get_preimage s (sp_payment_hash d) = Some p \<Longrightarrow> hash_with (re_hashers R) (ti_hash_algorithm t) p = sp_payment_hash d"
  shows "\<exists>c' s'. apply_final_hop_tlc_onion_packet R n s c t (Some i) hop None = (c', s', Ok ())"
proof -
  note req = send_payment_data_new_OkE [OF assms(1-3)]
  have "unat (final_tlc_minimum_expiry_delta_or_default i) \<le> unat (sp_final_tlc_expiry_delta d)"
    using req(8) by (simp add: word_le_nat_alt)
  then have accepts: "check_invoice_accepts n s (Some i) t = Ok ()"
    using invoice_accepts_in_time [of s i n t] assms(7,13,14,15) req(5) by simp
  obtain u where mpp: "check_mpp_record (Some i) (Option.bind (ph_custom_records hop) mpp_read) t = Ok u"
    using mpp_record_accepted [OF req(3), of t] request_mpp_record [OF assms(1-3)] assms(11,12) req(7) by (cases "payment_secret i") auto
  have "get_mut (ch_tlc_state c) (ti_tlc_id t) = Some t" using assms(5) get_mut_wf [OF assms(4)] by simp
  moreover obtain s' where "accept_preimage R s t True None (ph_custom_records hop) = (s', Ok ())"
    using assms(6,11,16) req(10)
    by (cases "get_preimage s (sp_payment_hash d)"; cases "sp_custom_records d") (auto simp: accept_preimage_def)
  ultimately show ?thesis
    using accepts mpp final_hop_direct [OF assms(8,9), of n] assms(10)
    by (simp add: apply_final_hop_tlc_onion_packet_def ok_or_def)
qed


definition shop_invoice :: ckb_invoice where
  "shop_invoice = \<lparr>iv_currency = Fibd, iv_amount = Some 20, iv_data = \<lparr>id_timestamp = 0, id_payment_hash = 7,
     id_attrs = [FinalHtlcMinimumExpiryDelta 100000000, Feature [8], PaymentSecret 5]\<rparr>\<rparr>"

definition shop_command :: send_payment_command where
  "shop_command = \<lparr>pc_target_pubkey = Some 3, pc_amount = None, pc_payment_hash = None, pc_invoice = Some [], pc_final_tlc_expiry_delta = None,
     pc_tlc_expiry_limit = None, pc_timeout = None, pc_max_fee_amount = None, pc_max_fee_rate = None, pc_max_parts = None, pc_keysend = None,
     pc_udt_type_script = None, pc_allow_self_payment = False, pc_custom_records = None, pc_hop_hints = None, pc_dry_run = False,
     pc_trampoline_hops = None\<rparr>"

definition shop_tlc :: tlc_info where
  "shop_tlc = (sample_tlc (Received 0) (Inbound RemoteAnnounced) 5)\<lparr>ti_expiry := 100001000\<rparr>"

definition shop_table :: tlc_state where
  "shop_table = sample_table\<lparr>ts_received := \<lparr>pt_tlcs = [shop_tlc], pt_next_tlc_id = 1\<rparr>\<rparr>"

lemma shop_request:
  "\<exists>d. send_payment_data_new sample_receipt_env (\<lambda>_. Ok shop_invoice) 0 0 shop_command Fibd = Ok d \<and> sp_payment_hash d = 7 \<and>
     sp_final_tlc_expiry_delta d = 100000000"
proof -
  have "supports_basic_mpp [8]" by code_simp
  then have "allow_mpp shop_invoice" by (simp add: allow_mpp_def shop_invoice_def)
  moreover have "max_fee_for 20 None None = Ok 1"
    by (simp add: max_fee_for_def calculate_fee_with_base_def unwrap_or_def DEFAULT_MAX_FEE_RATE_def MAX_FEE_RATE_DENOMINATOR_def
        checked_mul_def checked_add_def ok_or_def Let_def)
  ultimately show ?thesis
    by (simp add: send_payment_data_new_def shop_command_def)
      (simp add: shop_invoice_def is_expired_def expiry_time_def payee_pub_key_def validate_field_def udt_type_script_def final_delta_for_def
        final_tlc_minimum_expiry_delta_def hash_and_preimage_for_def unwrap_or_def payment_secret_def build_payment_data_def validate_payment_data_def
        payment_data_of_def expect_def checked_add_def MIN_TLC_EXPIRY_DELTA_def MAX_PAYMENT_TLC_EXPIRY_LIMIT_def validate_trampoline_def
        validate_max_parts_def records_for_def sample_receipt_env_def DEFAULT_COMMITMENT_DELAY_EPOCHS_def MILLI_SECONDS_PER_EPOCH_def)
qed

theorem honest_payment_admitted_witness:
  "\<exists>hop c' s'. apply_final_hop_tlc_onion_packet sample_receipt_env 1000 (sample_pay_store\<lparr>ps_invoice_status := [7 \<mapsto> InvOpen]\<rparr>)
     (sample_channel shop_table 10 10) shop_tlc (Some shop_invoice) hop None = (c', s', Ok ())"
proof -
  obtain d where d: "send_payment_data_new sample_receipt_env (\<lambda>_. Ok shop_invoice) 0 0 shop_command Fibd = Ok d"
    and hash: "sp_payment_hash d = 7" and delta: "sp_final_tlc_expiry_delta d = 100000000" using shop_request by blast
  let ?hop = "\<lparr>ph_amount = 5, ph_expiry = 0, ph_payment_preimage = None, ph_custom_records = sp_custom_records d\<rparr>"
  have "wf_tlc_state (ch_tlc_state (sample_channel shop_table 10 10))"
    by (simp add: sample_channel_def shop_table_def sample_table_def shop_tlc_def sample_tlc_def wf_tlc_state_def wf_pending_def wf_received_def)
  moreover have "get (ch_tlc_state (sample_channel shop_table 10 10)) (ti_tlc_id shop_tlc) = Some shop_tlc"
    by (simp add: get_def sample_channel_def shop_table_def sample_table_def shop_tlc_def sample_tlc_def find_tlc_def)
  ultimately have "\<exists>c' s'. apply_final_hop_tlc_onion_packet sample_receipt_env 1000 (sample_pay_store\<lparr>ps_invoice_status := [7 \<mapsto> InvOpen]\<rparr>)
     (sample_channel shop_table 10 10) shop_tlc (Some shop_invoice) ?hop None = (c', s', Ok ())"
    by (intro honest_payment_admitted [OF d, of "[]"])
      (simp_all add: shop_command_def shop_tlc_def sample_tlc_def hash delta shop_invoice_def invoice_hash_algorithm_def unwrap_or_def payment_secret_def
        get_invoice_status_def is_expired_def expiry_time_def sample_pay_store_def get_preimage_def get_watch_preimage_def empty_store_def)
  then show ?thesis by blast
qed

end
