(* ===== verification/Payment_Session.thy ===== *)
theory Payment_Session
  imports Payment_Data
begin

text \<open>
  Payment sessions (\<^verbatim>\<open>fiber-types/src/payment.rs\<close>) and their rows in the store (\<^verbatim>\<open>fiber-lib/src/store/store_impl/mod.rs\<close>):
  the route of an attempt, the status of attempts and sessions, the amounts still to be sent, and the construction of new attempts
  (\<^verbatim>\<open>fiber-lib/src/fiber/payment.rs\<close>). Sums panic on overflow, as the release profile checks arithmetic. The answers of the
  route search (\<^verbatim>\<open>graph.rs\<close>), the clock and the texts of errors are arguments.
\<close>

section \<open>Results that keep the state\<close>

text \<open>A handler that fails has still changed what it had changed: the state is returned beside the outcome.\<close>

fun bind_st :: "'s \<times> ('a, 'e) res \<Rightarrow> ('s \<Rightarrow> 'a \<Rightarrow> 's \<times> ('b, 'e) res) \<Rightarrow> 's \<times> ('b, 'e) res" where
  "bind_st (s, Ok x) f = f s x"
| "bind_st (s, Err e) f = (s, Err e)"
| "bind_st (s, Panic) f = (s, Panic)"

lemma bind_st_eq_Ok [simp]: "bind_st m f = (s, Ok y) \<longleftrightarrow> (\<exists>s' x. m = (s', Ok x) \<and> f s' x = (s, Ok y))"
  by (cases m; cases "snd m") auto

section \<open>Routes and attempts\<close>

datatype payment_error = SendPaymentError | FirstHopError bool | BuildPaymentRouteError | PayInvalidParameter

datatype payment_status = PayCreated | PayInflight | PaySuccess | PayFailed

definition payment_final :: "payment_status \<Rightarrow> bool" where
  "payment_final st \<longleftrightarrow> st = PaySuccess \<or> st = PayFailed"

datatype attempt_status = AttCreated | AttInflight | AttRetrying | AttSuccess | AttFailed

definition TRAMPOLINE_RECORD_KEY :: u32 where "TRAMPOLINE_RECORD_KEY = USER_CUSTOM_RECORDS_MAX_INDEX + 2"

record payment_hop_data =
  pd_amount :: u128
  pd_expiry :: u64
  pd_payment_preimage :: "hash256 option"
  pd_hash_algorithm :: hash_algorithm
  pd_funding_tx_hash :: hash256
  pd_next_hop :: "pubkey option"
  pd_custom_records :: "custom_records option"

definition set_trampoline_onion :: "bytes \<Rightarrow> payment_hop_data \<Rightarrow> payment_hop_data" where
  "set_trampoline_onion data hop = hop\<lparr>pd_custom_records := Some ((unwrap_or (pd_custom_records hop) Map.empty)(TRAMPOLINE_RECORD_KEY \<mapsto> data))\<rparr>"

record session_route_node =
  rn_pubkey :: pubkey
  rn_amount :: u128
  rn_channel_outpoint :: out_point

type_synonym session_route = "session_route_node list"

definition session_route_new :: "pubkey \<Rightarrow> pubkey \<Rightarrow> payment_hop_data list \<Rightarrow> session_route" where
  "session_route_new source target payment_hops =
     map (\<lambda>(pubkey, hop). \<lparr>rn_pubkey = pubkey, rn_amount = pd_amount hop, rn_channel_outpoint = (pd_funding_tx_hash hop, 0)\<rparr>)
       (zip (source # map (\<lambda>hop. unwrap_or (pd_next_hop hop) target) payment_hops) payment_hops)"

definition receiver_amount :: "session_route \<Rightarrow> u128" where
  "receiver_amount nodes = (if nodes = [] then 0 else rn_amount (last nodes))"

definition first_amount :: "session_route \<Rightarrow> u128" where
  "first_amount nodes = (case nodes of [] \<Rightarrow> 0 | n # _ \<Rightarrow> rn_amount n)"

definition route_fee :: "session_route \<Rightarrow> (u128, payment_error) res" where
  "route_fee nodes = minus_u (first_amount nodes) (receiver_amount nodes)"

record attempt =
  at_id :: u64
  at_try_limit :: u32
  at_tried_times :: u32
  at_hash :: hash256
  at_status :: attempt_status
  at_payment_hash :: hash256
  at_route :: session_route
  at_route_hops :: "payment_hop_data list"
  at_session_key :: "256 word"
  at_preimage :: "hash256 option"
  at_created_at :: u64
  at_last_updated_at :: u64
  at_last_error :: "string option"

definition attempt_set_inflight :: "attempt \<Rightarrow> attempt" where
  "attempt_set_inflight a = a\<lparr>at_status := AttInflight, at_last_error := None\<rparr>"

definition attempt_set_success :: "attempt \<Rightarrow> attempt" where
  "attempt_set_success a = a\<lparr>at_status := AttSuccess, at_last_error := None\<rparr>"

definition attempt_set_failed :: "u64 \<Rightarrow> string \<Rightarrow> bool \<Rightarrow> attempt \<Rightarrow> (attempt, payment_error) res" where
  "attempt_set_failed now error retryable a =
     (let a = a\<lparr>at_last_error := Some error, at_last_updated_at := now\<rparr> in
      if \<not> retryable \<or> at_tried_times a > at_try_limit a then Ok (a\<lparr>at_status := AttFailed\<rparr>)
      else bind_res (plus_u (at_tried_times a) 1) (\<lambda>n. Ok (a\<lparr>at_status := AttRetrying, at_tried_times := n\<rparr>)))"

definition update_route :: "payment_hop_data list \<Rightarrow> attempt \<Rightarrow> (attempt, payment_error) res" where
  "update_route hops a =
     (if at_route a = [] then Panic
      else Ok (a\<lparr>at_route_hops := hops, at_route := session_route_new (rn_pubkey (hd (at_route a))) (rn_pubkey (last (at_route a))) hops\<rparr>))"

definition is_active :: "attempt \<Rightarrow> bool" where "is_active a \<longleftrightarrow> at_status a \<noteq> AttFailed"

definition first_hop_channel_outpoint :: "attempt \<Rightarrow> out_point option" where
  "first_hop_channel_outpoint a = (case at_route a of [] \<Rightarrow> None | n # _ \<Rightarrow> Some (rn_channel_outpoint n))"

section \<open>Sessions\<close>

record payment_session =
  se_request :: send_payment_data
  se_last_error :: "string option"
  se_last_error_code :: "u16 option"
  se_try_limit :: u32
  se_status :: payment_status
  se_created_at :: u64
  se_last_updated_at :: u64
  se_cached_attempts :: "attempt list"

definition DEFAULT_PAYMENT_MPP_ATTEMPT_TRY_LIMIT :: u32 where "DEFAULT_PAYMENT_MPP_ATTEMPT_TRY_LIMIT = 3"
definition DEFAULT_PAYMENT_TRY_LIMIT :: u32 where "DEFAULT_PAYMENT_TRY_LIMIT = 5"

definition sum_words :: "'w::len word list \<Rightarrow> ('w word, payment_error) res" where
  "sum_words xs = try_fold plus_u 0 xs"

definition active_attempts :: "payment_session \<Rightarrow> attempt list" where
  "active_attempts s = filter is_active (se_cached_attempts s)"

definition retry_times :: "payment_session \<Rightarrow> (u32, payment_error) res" where
  "retry_times s = sum_words (map at_tried_times (se_cached_attempts s))"

definition session_max_parts :: "payment_session \<Rightarrow> nat" where
  "session_max_parts s = (if data_allow_mpp (se_request s) \<and> \<not> use_trampoline_routing (se_request s) then unat (max_parts_of (se_request s)) else 1)"

definition fee_paid :: "payment_session \<Rightarrow> (u128, payment_error) res" where
  "fee_paid s =
     (if use_trampoline_routing (se_request s)
      then bind_res (sum_words (map (\<lambda>a. first_amount (at_route a)) (active_attempts s))) (\<lambda>sent. Ok (saturating_sub sent (sp_amount (se_request s))))
      else bind_res (traverse_res (\<lambda>a. route_fee (at_route a)) (active_attempts s)) sum_words)"

definition remain_fee_amount :: "payment_session \<Rightarrow> (u128 option, payment_error) res" where
  "remain_fee_amount s = (case sp_max_fee_amount (se_request s) of
      None \<Rightarrow> Ok None | Some max_fee \<Rightarrow> bind_res (fee_paid s) (\<lambda>fee. Ok (Some (saturating_sub max_fee fee))))"

definition remain_amount :: "payment_session \<Rightarrow> (u128, payment_error) res" where
  "remain_amount s = bind_res (sum_words (map (\<lambda>a. receiver_amount (at_route a)) (active_attempts s))) (\<lambda>sent.
     Ok (saturating_sub (sp_amount (se_request s)) sent))"

definition retry_amount :: "payment_session \<Rightarrow> attempt \<Rightarrow> (u128 option, payment_error) res" where
  "retry_amount s a =
     (if use_trampoline_routing (se_request s) then Ok (Some (sp_amount (se_request s)))
      else bind_res (remain_amount s) (\<lambda>remain. Ok (checked_add remain (receiver_amount (at_route a)))))"

definition new_attempt :: "u64 \<Rightarrow> payment_session \<Rightarrow> u64 \<Rightarrow> pubkey \<Rightarrow> pubkey \<Rightarrow> payment_hop_data list \<Rightarrow> attempt" where
  "new_attempt now s attempt_id source target route_hops =
     \<lparr>at_id = attempt_id, at_try_limit = (if data_allow_mpp (se_request s) then DEFAULT_PAYMENT_MPP_ATTEMPT_TRY_LIMIT else se_try_limit s),
      at_tried_times = 1, at_hash = sp_payment_hash (se_request s), at_status = AttCreated, at_payment_hash = sp_payment_hash (se_request s),
      at_route = session_route_new source target route_hops, at_route_hops = route_hops, at_session_key = 0, at_preimage = None,
      at_created_at = now, at_last_updated_at = now, at_last_error = None\<rparr>"

definition append_attempt :: "attempt \<Rightarrow> payment_session \<Rightarrow> payment_session" where
  "append_attempt a s = s\<lparr>se_cached_attempts := se_cached_attempts s @ [a]\<rparr>"

definition allow_more_attempts :: "payment_session \<Rightarrow> (bool, payment_error) res" where
  "allow_more_attempts s =
     (if payment_final (se_status s) then Ok False
      else bind_res (remain_amount s) (\<lambda>remain.
        if remain = 0 then Ok False
        else bind_res (retry_times s) (\<lambda>tries. Ok (\<not> tries \<ge> se_try_limit s \<and> length (active_attempts s) < session_max_parts s))))"

definition success_amount :: "payment_session \<Rightarrow> (u128, payment_error) res" where
  "success_amount s = sum_words (map (\<lambda>a. receiver_amount (at_route a)) (filter (\<lambda>a. at_status a = AttSuccess) (se_cached_attempts s)))"

definition calc_payment_status :: "payment_session \<Rightarrow> (payment_status, payment_error) res" where
  "calc_payment_status s =
     (if se_cached_attempts s = [] \<or> payment_final (se_status s) then Ok (se_status s)
      else if list_ex (\<lambda>a. at_status a = AttInflight) (se_cached_attempts s) then Ok PayInflight
      else bind_res (if list_all (\<lambda>a. at_status a = AttFailed) (se_cached_attempts s)
             then bind_res (allow_more_attempts s) (\<lambda>more. Ok (\<not> more)) else Ok False) (\<lambda>failed.
        if failed then Ok PayFailed
        else bind_res (success_amount s) (\<lambda>sent. Ok (if sent \<ge> sp_amount (se_request s) then PaySuccess else PayCreated))))"

definition update_with_attempt :: "attempt \<Rightarrow> payment_session \<Rightarrow> (payment_session, payment_error) res" where
  "update_with_attempt a s =
     (let s = s\<lparr>se_cached_attempts := update_first (\<lambda>b. at_id b = at_id a) (\<lambda>_. a) (se_cached_attempts s)\<rparr>
      in bind_res (calc_payment_status s) (\<lambda>st. Ok (s\<lparr>se_status := st\<rparr>)))"

definition session_set_success :: "u64 \<Rightarrow> payment_session \<Rightarrow> payment_session" where
  "session_set_success now s = s\<lparr>se_status := PaySuccess, se_last_updated_at := now, se_last_error := None, se_last_error_code := None\<rparr>"

definition session_set_failed :: "u64 \<Rightarrow> string \<Rightarrow> payment_session \<Rightarrow> payment_session" where
  "session_set_failed now error s = s\<lparr>se_status := PayFailed, se_last_updated_at := now, se_last_error := Some error\<rparr>"

section \<open>Rows in the store\<close>

text \<open>Attempts are kept in the order of their database keys; a session's row does not keep its attempts.\<close>

record send_store =
  st_sessions :: "hash256 \<rightharpoonup> payment_session"
  st_attempts :: "attempt list"
  st_attempt_index :: "(out_point \<times> hash256 \<times> u64) set"
  st_channels_by_outpoint :: "out_point \<rightharpoonup> channel"

definition get_attempts :: "send_store \<Rightarrow> hash256 \<Rightarrow> attempt list" where
  "get_attempts st h = filter (\<lambda>a. at_payment_hash a = h) (st_attempts st)"

definition get_attempt :: "send_store \<Rightarrow> hash256 \<Rightarrow> u64 \<Rightarrow> attempt option" where
  "get_attempt st h i = List.find (\<lambda>a. at_payment_hash a = h \<and> at_id a = i) (st_attempts st)"

definition attempt_key :: "attempt \<Rightarrow> hash256 \<times> u64" where
  "attempt_key a = (at_payment_hash a, from_be_bytes (to_le_bytes (at_id a)))"

definition index_of :: "attempt \<Rightarrow> (out_point \<times> hash256 \<times> u64) set" where
  "index_of a = (case first_hop_channel_outpoint a of None \<Rightarrow> {} | Some out_pt \<Rightarrow> {(out_pt, at_payment_hash a, at_id a)})"

definition insert_attempt :: "attempt \<Rightarrow> send_store \<Rightarrow> (send_store, payment_error) res" where
  "insert_attempt a st =
     bind_res (rust_assert (at_id a \<noteq> 0)) (\<lambda>_.
     Ok (case get_attempt st (at_payment_hash a) (at_id a) of
           None \<Rightarrow> st\<lparr>st_attempts := insort_key attempt_key a (st_attempts st), st_attempt_index := st_attempt_index st \<union> index_of a\<rparr>
         | Some _ \<Rightarrow> st\<lparr>st_attempts := map (\<lambda>b. if at_payment_hash b = at_payment_hash a \<and> at_id b = at_id a then a else b) (st_attempts st)\<rparr>))"

definition delete_unsettled_attempts :: "hash256 \<Rightarrow> send_store \<Rightarrow> send_store" where
  "delete_unsettled_attempts h st =
     (let gone = filter (\<lambda>a. at_status a \<noteq> AttSuccess) (get_attempts st h)
      in st\<lparr>st_attempts := filter (\<lambda>a. at_payment_hash a \<noteq> h \<or> at_status a = AttSuccess) (st_attempts st),
            st_attempt_index := st_attempt_index st - (\<Union>a\<in>set gone. index_of a)\<rparr>)"

definition clear_attempts_channel_index :: "hash256 \<Rightarrow> send_store \<Rightarrow> send_store" where
  "clear_attempts_channel_index h st = st\<lparr>st_attempt_index := st_attempt_index st - (\<Union>a\<in>set (get_attempts st h). index_of a)\<rparr>"

definition insert_payment_session :: "payment_session \<Rightarrow> send_store \<Rightarrow> send_store" where
  "insert_payment_session s st = st\<lparr>st_sessions := (st_sessions st)(sp_payment_hash (se_request s) \<mapsto> s\<lparr>se_cached_attempts := []\<rparr>)\<rparr>"

definition flush_attempts :: "send_store \<Rightarrow> payment_session \<Rightarrow> (payment_session, payment_error) res" where
  "flush_attempts st s =
     (let s = s\<lparr>se_cached_attempts := get_attempts st (sp_payment_hash (se_request s))\<rparr>
      in bind_res (calc_payment_status s) (\<lambda>status. Ok (s\<lparr>se_status := status\<rparr>)))"

definition new_session :: "u64 \<Rightarrow> send_store \<Rightarrow> send_payment_data \<Rightarrow> u32 \<Rightarrow> (payment_session, payment_error) res" where
  "new_session now st request try_limit =
     flush_attempts st \<lparr>se_request = request, se_last_error = None, se_last_error_code = None, se_try_limit = try_limit, se_status = PayCreated,
       se_created_at = now, se_last_updated_at = now, se_cached_attempts = []\<rparr>"

definition get_payment_session :: "send_store \<Rightarrow> hash256 \<Rightarrow> (payment_session option, payment_error) res" where
  "get_payment_session st h = (case st_sessions st h of
      None \<Rightarrow> Ok None | Some s \<Rightarrow> bind_res (flush_attempts st s) (\<lambda>s. Ok (Some s)))"

definition get_persisted_payment_status :: "send_store \<Rightarrow> hash256 \<Rightarrow> payment_status option" where
  "get_persisted_payment_status st h = map_option se_status (st_sessions st h)"

section \<open>Building the attempts of a session\<close>

definition CODE_TemporaryNodeFailure :: u16 where "CODE_TemporaryNodeFailure = NODE OR 2"
definition CODE_FeeInsufficient :: u16 where "CODE_FeeInsufficient = UPDATE OR 12"
definition CODE_IncorrectTlcExpiry :: u16 where "CODE_IncorrectTlcExpiry = UPDATE OR 13"

text \<open>What the graph answers: the route for the n-th part of a session, the largest single path, and
  the fee rate this node announces on a channel.\<close>

record route_env =
  ro_now :: u64
  ro_source :: pubkey
  ro_route :: "nat \<Rightarrow> u128 \<Rightarrow> u128 option \<Rightarrow> u128 option \<Rightarrow> (payment_hop_data list, payment_error) res"
  ro_path_max :: "(u128, payment_error) res"
  ro_fee_rate :: "hash256 \<Rightarrow> u64 option"

definition check_trampoline_outgoing_tlc_expiry ::
  "payment_session \<Rightarrow> payment_hop_data list \<Rightarrow> payment_session \<times> (unit, payment_error) res" where
  "check_trampoline_outgoing_tlc_expiry s hops =
     (case Option.bind (sp_trampoline_context (se_request s)) cx_max_outgoing_tlc_expiry of
        None \<Rightarrow> (s, Ok ())
      | Some max_expiry \<Rightarrow>
          if hops = [] \<or> pd_expiry (hd hops) > max_expiry
          then (s\<lparr>se_last_error_code := Some CODE_IncorrectTlcExpiry\<rparr>, Err SendPaymentError) else (s, Ok ()))"

definition apply_trampoline_forwarding_fee ::
  "route_env \<Rightarrow> payment_session \<Rightarrow> payment_hop_data list \<Rightarrow> u128 option \<Rightarrow> payment_session \<times> (u128 option, payment_error) res" where
  "apply_trampoline_forwarding_fee E s hops max_fee =
     (if sp_trampoline_context (se_request s) = None then (s, Ok max_fee)
      else if hops = [] then (s, Err SendPaymentError)
      else case ro_fee_rate E (pd_funding_tx_hash (hd hops)) of
          None \<Rightarrow> (s, Err SendPaymentError)
        | Some fee_rate \<Rightarrow> (case calculate_tlc_forward_fee (pd_amount (hd hops)) (ucast fee_rate) of
              Ok local_fee \<Rightarrow> (case max_fee of
                  None \<Rightarrow> (s, Err SendPaymentError)
                | Some cur \<Rightarrow>
                    if cur < local_fee then (s\<lparr>se_last_error_code := Some CODE_FeeInsufficient\<rparr>, Err SendPaymentError)
                    else (s, bind_res (ok_or (checked_sub cur local_fee) SendPaymentError) (\<lambda>f. Ok (Some f))))
            | Err _ \<Rightarrow> (s, Err SendPaymentError)
            | Panic \<Rightarrow> (s, Panic)))"

record build_state =
  bs_attempt_id :: u64
  bs_remain :: u128
  bs_target :: u128
  bs_max_fee :: "u128 option"
  bs_result :: "attempt list"

definition next_attempt_id :: "payment_session \<Rightarrow> build_state \<Rightarrow> (u64 \<times> u64, payment_error) res" where
  "next_attempt_id s b =
     (if sp_dry_run (se_request s) then Ok (bs_attempt_id b, 0)
      else bind_res (ok_or (checked_add (bs_attempt_id b) 1) SendPaymentError) (\<lambda>i. Ok (i, i)))"

definition slots_left :: "payment_session \<Rightarrow> nat \<Rightarrow> (nat, payment_error) res" where
  "slots_left s n = (if n \<le> session_max_parts s then Ok (session_max_parts s - n) else Err SendPaymentError)"

definition fee_left :: "u128 option \<Rightarrow> session_route \<Rightarrow> (u128 option, payment_error) res" where
  "fee_left max_fee route = (case max_fee of None \<Rightarrow> Ok None
     | Some fee \<Rightarrow> bind_res (route_fee route) (\<lambda>f. bind_res (ok_or (checked_sub fee f) SendPaymentError) (\<lambda>left. Ok (Some left))))"

text \<open>What is left of one iteration once the route is found: the new attempt and the remaining
  amounts; the flag tells that the loop stops.\<close>

definition push_route ::
  "route_env \<Rightarrow> u128 option \<Rightarrow> payment_session \<Rightarrow> build_state \<Rightarrow> payment_hop_data list \<Rightarrow> (build_state \<times> bool, payment_error) res" where
  "push_route E single_path_max s b hops =
     bind_res (next_attempt_id s b) (\<lambda>(attempt_id, new_id).
     let a = new_attempt (ro_now E) s new_id (ro_source E) (sp_target_pubkey (se_request s)) hops;
         current = receiver_amount (at_route a) in
     bind_res (ok_or (checked_sub (bs_remain b) (if use_trampoline_routing (se_request s) then bs_target b else current)) SendPaymentError) (\<lambda>remain.
     bind_res (fee_left (bs_max_fee b) (at_route a)) (\<lambda>max_fee.
     let result = bs_result b @ [a] in
     bind_res (slots_left s (length result)) (\<lambda>slots.
     bind_res (ok_or (checked_mul current (of_nat slots)) SendPaymentError) (\<lambda>max_remaining.
     Ok (\<lparr>bs_attempt_id = attempt_id, bs_remain = remain,
          bs_target = (case single_path_max of Some single \<Rightarrow> min single remain | None \<Rightarrow> remain), bs_max_fee = max_fee, bs_result = result\<rparr>,
         remain > 0 \<and> remain > max_remaining))))))"

definition embed_trampoline_onion :: "payment_session \<Rightarrow> payment_hop_data list \<Rightarrow> payment_hop_data list" where
  "embed_trampoline_onion s hops = (case sp_trampoline_context (se_request s) of
      None \<Rightarrow> hops | Some cx \<Rightarrow> butlast hops @ [set_trampoline_onion (cx_remaining_trampoline_onion cx) (last hops)])"

definition build_one ::
  "route_env \<Rightarrow> u128 option \<Rightarrow> payment_session \<Rightarrow> build_state \<Rightarrow> payment_session \<times> (build_state \<times> bool, payment_error) res" where
  "build_one E single_path_max s b =
     (case ro_route E (length (bs_result b)) (bs_target b) (Some 1) (bs_max_fee b) of
        Err _ \<Rightarrow> (if sp_trampoline_context (se_request s) \<noteq> None
                  then s\<lparr>se_last_error_code := Some (unwrap_or (se_last_error_code s) CODE_TemporaryNodeFailure)\<rparr> else s, Err SendPaymentError)
      | Panic \<Rightarrow> (s, Panic)
      | Ok hops \<Rightarrow>
          bind_st (s, rust_assert (\<not> (hops = [] \<or> pd_funding_tx_hash (hd hops) = 0))) (\<lambda>s _.
          bind_st (apply_trampoline_forwarding_fee E s (embed_trampoline_onion s hops) (bs_max_fee b)) (\<lambda>s max_fee.
          bind_st (check_trampoline_outgoing_tlc_expiry s (embed_trampoline_onion s hops)) (\<lambda>s _.
          (s, push_route E single_path_max s (b\<lparr>bs_max_fee := max_fee\<rparr>) (embed_trampoline_onion s hops))))))"

fun build_loop ::
  "nat \<Rightarrow> route_env \<Rightarrow> u128 option \<Rightarrow> payment_session \<Rightarrow> build_state \<Rightarrow> payment_session \<times> (build_state, payment_error) res" where
  "build_loop 0 E single_path_max s b = (s, Ok b)"
| "build_loop (Suc k) E single_path_max s b =
     (if bs_remain b = 0 then (s, Ok b)
      else bind_st (build_one E single_path_max s b) (\<lambda>s (b, stop). if stop then (s, Ok b) else build_loop k E single_path_max s b))"

definition single_path_max_for :: "route_env \<Rightarrow> payment_session \<Rightarrow> u128 \<Rightarrow> (u128 option, payment_error) res" where
  "single_path_max_for E s remain =
     (if session_max_parts s > 1 \<and> \<not> ro_source E = sp_target_pubkey (se_request s)
      then bind_res (ro_path_max E) (\<lambda>path_max.
           bind_res (ok_or (checked_mul path_max (of_nat (session_max_parts s))) SendPaymentError) (\<lambda>capacity.
           if capacity < remain then Err SendPaymentError else Ok (Some path_max)))
      else Ok None)"

definition build_start :: "route_env \<Rightarrow> payment_session \<Rightarrow> (u128 option \<times> build_state, payment_error) res" where
  "build_start E s =
     bind_res (remain_amount s) (\<lambda>remain.
     bind_res (remain_fee_amount s) (\<lambda>max_fee.
     bind_res (ensure (remain \<noteq> 0) SendPaymentError) (\<lambda>_.
     bind_res (single_path_max_for E s remain) (\<lambda>single.
     bind_res (ensure (length (active_attempts s) \<le> session_max_parts s) SendPaymentError) (\<lambda>_.
     Ok (single, \<lparr>bs_attempt_id = Max (insert 0 (set (map at_id (se_cached_attempts s)))), bs_remain = remain,
       bs_target = remain, bs_max_fee = max_fee, bs_result = []\<rparr>))))))"

definition build_payment_routes :: "route_env \<Rightarrow> payment_session \<Rightarrow> payment_session \<times> (attempt list, payment_error) res" where
  "build_payment_routes E s =
     bind_st (s, build_start E s) (\<lambda>s (single, b).
     bind_st (build_loop (session_max_parts s - length (active_attempts s)) E single s b) (\<lambda>s b.
     bind_st (s, ensure (\<not> bs_remain b > 0) SendPaymentError) (\<lambda>s _.
     (fold append_attempt (bs_result b) s, Ok (bs_result b)))))"

section \<open>What the new attempts add up to\<close>

definition delivered :: "attempt list \<Rightarrow> nat" where
  "delivered as = (\<Sum>a\<leftarrow>as. unat (receiver_amount (at_route a)))"

definition fees_of :: "attempt list \<Rightarrow> nat" where
  "fees_of as = (\<Sum>a\<leftarrow>as. unat (first_amount (at_route a)) - unat (receiver_amount (at_route a)))"

lemma delivered_simps [simp]: "delivered [] = 0" "delivered (a # as) = unat (receiver_amount (at_route a)) + delivered as"
  "delivered (as @ bs) = delivered as + delivered bs"
  by (simp_all add: delivered_def)

lemma fees_of_simps [simp]: "fees_of [] = 0" "fees_of (a # as) = unat (first_amount (at_route a)) - unat (receiver_amount (at_route a)) + fees_of as"
  "fees_of (as @ bs) = fees_of as + fees_of bs"
  by (simp_all add: fees_of_def)

lemma try_fold_plus_Ok: "try_fold plus_u z xs = (Ok r :: ('w::len word, 'e) res) \<longleftrightarrow> unat r = unat z + (\<Sum>x\<leftarrow>xs. unat x)"
proof (induction xs arbitrary: z)
  case (Cons x xs)
  show ?case
  proof
    assume "try_fold plus_u z (x # xs) = (Ok r :: ('w word, 'e) res)"
    then show "unat r = unat z + (\<Sum>x\<leftarrow>x # xs. unat x)" using Cons.IH by (auto simp: rust_arith)
  next
    assume r: "unat r = unat z + (\<Sum>x\<leftarrow>x # xs. unat x)"
    then have "unat z + unat x < 2 ^ LENGTH('w)" using unat_bound [of r] by simp
    with r Cons.IH [of "z + x"] show "try_fold plus_u z (x # xs) = (Ok r :: ('w word, 'e) res)"
      by (auto simp: rust_arith intro!: exI [of _ "z + x"])
  qed
qed (auto simp: word_unat_eq_iff)

lemma sum_words_Ok [rust_arith]: "sum_words xs = Ok r \<longleftrightarrow> unat r = (\<Sum>x\<leftarrow>xs. unat x)"
  by (simp add: sum_words_def try_fold_plus_Ok)

lemma remain_amount_Ok: "remain_amount s = Ok r \<Longrightarrow> unat r = unat (sp_amount (se_request s)) - delivered (active_attempts s)"
  by (auto simp: remain_amount_def rust_arith delivered_def comp_def)

lemma traverse_fee_Ok: "traverse_res (\<lambda>a. route_fee (at_route a)) as = Ok fs \<Longrightarrow> (\<Sum>f\<leftarrow>fs. unat f) = fees_of as"
  by (induction as arbitrary: fs) (auto simp: route_fee_def rust_arith)

lemma remain_fee_Ok:
  assumes "remain_fee_amount s = Ok (Some f)" and "\<not> use_trampoline_routing (se_request s)"
  shows "\<exists>m. sp_max_fee_amount (se_request s) = Some m \<and> unat f = unat m - fees_of (active_attempts s)"
  using assms by (auto simp: remain_fee_amount_def fee_paid_def rust_arith dest!: traverse_fee_Ok split: option.splits)

section \<open>One part\<close>

definition fresh_attempt :: "payment_session \<Rightarrow> attempt \<Rightarrow> bool" where
  "fresh_attempt s a \<longleftrightarrow> at_status a = AttCreated \<and> at_tried_times a = 1 \<and> at_payment_hash a = sp_payment_hash (se_request s)"

definition budget_left :: "u128 option \<Rightarrow> nat \<Rightarrow> u128 option \<Rightarrow> bool" where
  "budget_left before fee after \<longleftrightarrow> (case before of None \<Rightarrow> after = None | Some m \<Rightarrow> \<exists>m'. after = Some m' \<and> unat m' + fee \<le> unat m)"

lemma budget_left_trans: "budget_left x f y \<Longrightarrow> budget_left y g z \<Longrightarrow> budget_left x (f + g) z"
  by (auto simp: budget_left_def split: option.splits)

definition parts_added :: "payment_session \<Rightarrow> build_state \<Rightarrow> attempt list \<Rightarrow> build_state \<Rightarrow> bool" where
  "parts_added s b new b' \<longleftrightarrow> bs_result b' = bs_result b @ new \<and> list_all (fresh_attempt s) new \<and>
     unat (bs_remain b) = unat (bs_remain b') + delivered new \<and> budget_left (bs_max_fee b) (fees_of new) (bs_max_fee b') \<and>
     (\<not> sp_dry_run (se_request s) \<longrightarrow> unat (bs_attempt_id b') = unat (bs_attempt_id b) + length new \<and>
        map (\<lambda>a. unat (at_id a)) new = [unat (bs_attempt_id b) + 1..<unat (bs_attempt_id b) + 1 + length new])"

lemma parts_added_refl: "parts_added s b [] b"
  by (auto simp: parts_added_def budget_left_def split: option.splits)

lemma parts_added_trans: "parts_added s b xs b' \<Longrightarrow> parts_added s b' ys b'' \<Longrightarrow> parts_added s b (xs @ ys) b''"
proof -
  assume l: "parts_added s b xs b'" and r: "parts_added s b' ys b''"
  have "[i + 1..<i + 1 + (m + n)] = [i + 1..<i + 1 + m] @ [i + m + 1..<i + m + 1 + n]" for i m n :: nat
    using upt_add_eq_append [of "i + 1" "i + 1 + m" n] by (simp add: ac_simps)
  with l r show ?thesis by (auto simp: parts_added_def intro: budget_left_trans)
qed

lemma push_route_Ok:
  assumes "push_route E single s b hops = Ok (b', stop)" and "\<not> use_trampoline_routing (se_request s)"
  shows "\<exists>a. parts_added s b [a] b'"
proof -
  from assms obtain new_id where ids: "next_attempt_id s b = Ok (bs_attempt_id b', new_id)"
    and remain: "checked_sub (bs_remain b) (receiver_amount (at_route (new_attempt (ro_now E) s new_id (ro_source E) (sp_target_pubkey (se_request s)) hops))) = Some (bs_remain b')"
    and fee: "fee_left (bs_max_fee b) (at_route (new_attempt (ro_now E) s new_id (ro_source E) (sp_target_pubkey (se_request s)) hops)) = Ok (bs_max_fee b')"
    and res: "bs_result b' = bs_result b @ [new_attempt (ro_now E) s new_id (ro_source E) (sp_target_pubkey (se_request s)) hops]"
    by (auto simp: push_route_def Let_def)
  let ?a = "new_attempt (ro_now E) s new_id (ro_source E) (sp_target_pubkey (se_request s)) hops"
  have "budget_left (bs_max_fee b) (fees_of [?a]) (bs_max_fee b')"
    using fee by (cases "bs_max_fee b"; cases "bs_max_fee b'") (auto simp: budget_left_def fee_left_def route_fee_def rust_arith)
  moreover have "\<not> sp_dry_run (se_request s) \<Longrightarrow> unat (bs_attempt_id b') = unat (bs_attempt_id b) + 1 \<and> at_id ?a = bs_attempt_id b'"
    using ids by (auto simp: next_attempt_id_def rust_arith new_attempt_def split: if_splits)
  moreover have "fresh_attempt s ?a" by (simp add: fresh_attempt_def new_attempt_def)
  ultimately show ?thesis using remain res by (intro exI [of _ ?a]) (simp add: parts_added_def rust_arith)
qed

lemma forwarding_fee_Ok:
  assumes "apply_trampoline_forwarding_fee E s hops fee = (s', Ok fee')"
  shows "s' = s \<and> budget_left fee 0 fee'"
  using assms
  by (auto simp: apply_trampoline_forwarding_fee_def budget_left_def rust_arith split: if_splits option.splits res.splits)

lemma outgoing_expiry_Ok: "check_trampoline_outgoing_tlc_expiry s hops = (s', Ok ()) \<Longrightarrow> s' = s"
  by (auto simp: check_trampoline_outgoing_tlc_expiry_def split: option.splits if_splits)

lemma build_one_Ok:
  assumes "build_one E single s b = (s', Ok (b', stop))" and "\<not> use_trampoline_routing (se_request s)"
  shows "s' = s \<and> (\<exists>a. parts_added s b [a] b')"
proof -
  from assms(1) obtain hops s1 max_fee where
    fee: "apply_trampoline_forwarding_fee E s (embed_trampoline_onion s hops) (bs_max_fee b) = (s1, Ok max_fee)"
    and expiry: "check_trampoline_outgoing_tlc_expiry s1 (embed_trampoline_onion s1 hops) = (s', Ok ())"
    and push: "push_route E single s' (b\<lparr>bs_max_fee := max_fee\<rparr>) (embed_trampoline_onion s' hops) = Ok (b', stop)"
    by (auto simp: build_one_def split: res.splits)
  have s': "s' = s" using forwarding_fee_Ok [OF fee] outgoing_expiry_Ok [OF expiry] by simp
  obtain a where "parts_added s (b\<lparr>bs_max_fee := max_fee\<rparr>) [a] b'" using push_route_Ok [OF push [unfolded s'] assms(2)] by blast
  moreover have "budget_left (bs_max_fee b) (0 + fees_of [a]) (bs_max_fee b')" if "budget_left max_fee (fees_of [a]) (bs_max_fee b')"
    using forwarding_fee_Ok [OF fee] that by (blast intro: budget_left_trans)
  ultimately show ?thesis using s' by (auto simp: parts_added_def)
qed

lemma build_loop_Ok:
  assumes "build_loop k E single s b = (s', Ok b')" and "\<not> use_trampoline_routing (se_request s)"
  shows "s' = s \<and> (\<exists>new. length new \<le> k \<and> parts_added s b new b')"
  using assms
proof (induction k arbitrary: s b)
  case (Suc k)
  show ?case
  proof (cases "bs_remain b = 0")
    case False
    with Suc.prems(1) obtain s1 b1 stop where one: "build_one E single s b = (s1, Ok (b1, stop))"
      and rest: "(if stop then (s1, Ok b1) else build_loop k E single s1 b1) = (s', Ok b')" by auto
    have s1: "s1 = s" using build_one_Ok [OF one Suc.prems(2)] by blast
    obtain a where a: "parts_added s b [a] b1" using build_one_Ok [OF one Suc.prems(2)] by blast
    show ?thesis
    proof (cases stop)
      case True
      with rest a s1 show ?thesis by (intro conjI exI [of _ "[a]"]) auto
    next
      case False
      with rest s1 Suc.IH [OF _ Suc.prems(2), of b1] obtain new where "s' = s" "length new \<le> k" "parts_added s b1 new b'" by auto
      then show ?thesis using parts_added_trans [OF a] by (intro conjI exI [of _ "a # new"]) auto
    qed
  qed (use Suc.prems in \<open>auto intro!: exI [of _ "[]"] parts_added_refl\<close>)
qed (auto intro!: exI [of _ "[]"] parts_added_refl)

lemma fold_append_attempt: "fold append_attempt new s = s\<lparr>se_cached_attempts := se_cached_attempts s @ new\<rparr>"
  by (induction new arbitrary: s) (simp_all add: append_attempt_def)

lemma build_start_Ok:
  assumes "build_start E s = Ok (single, b)" and "\<not> use_trampoline_routing (se_request s)"
  shows "bs_result b = []" and "unat (bs_remain b) = unat (sp_amount (se_request s)) - delivered (active_attempts s)" and "bs_remain b \<noteq> 0"
    and "length (active_attempts s) \<le> session_max_parts s"
    and "bs_attempt_id b = Max (insert 0 (set (map at_id (se_cached_attempts s))))"
    and "\<And>m. sp_max_fee_amount (se_request s) = Some m \<Longrightarrow> \<exists>f. bs_max_fee b = Some f \<and> unat f = unat m - fees_of (active_attempts s)"
proof -
  from assms(1) obtain remain max_fee where r: "remain_amount s = Ok remain"
    and f: "remain_fee_amount s = Ok max_fee"
    and "remain \<noteq> 0" "length (active_attempts s) \<le> session_max_parts s"
    and b: "b = \<lparr>bs_attempt_id = Max (insert 0 (set (map at_id (se_cached_attempts s)))), bs_remain = remain,
       bs_target = remain, bs_max_fee = max_fee, bs_result = []\<rparr>"
    by (auto simp: build_start_def)
  then show "bs_result b = []" and "unat (bs_remain b) = unat (sp_amount (se_request s)) - delivered (active_attempts s)" and "bs_remain b \<noteq> 0"
    and "length (active_attempts s) \<le> session_max_parts s" and "bs_attempt_id b = Max (insert 0 (set (map at_id (se_cached_attempts s))))"
    using remain_amount_Ok [OF r] by simp_all
  fix m assume m: "sp_max_fee_amount (se_request s) = Some m"
  with f obtain g where g: "max_fee = Some g" by (auto simp: remain_fee_amount_def)
  with remain_fee_Ok [OF _ assms(2), of g] f m b show "\<exists>f. bs_max_fee b = Some f \<and> unat f = unat m - fees_of (active_attempts s)" by auto
qed

lemma fresh_active: "list_all (fresh_attempt s) new \<Longrightarrow> filter is_active new = new"
  by (induction new) (auto simp: fresh_attempt_def is_active_def)

lemma built_parts:
  assumes "build_payment_routes E s = (s', Ok new)" and "\<not> use_trampoline_routing (se_request s)"
  shows "s' = s\<lparr>se_cached_attempts := se_cached_attempts s @ new\<rparr>" and "list_all (fresh_attempt s) new"
    and "active_attempts s' = active_attempts s @ new" and "delivered (active_attempts s') = unat (sp_amount (se_request s))"
    and "length (active_attempts s') \<le> session_max_parts s"
    and "\<And>m. sp_max_fee_amount (se_request s) = Some m \<Longrightarrow> fees_of new \<le> unat m - fees_of (active_attempts s)"
    and "\<not> sp_dry_run (se_request s) \<Longrightarrow> \<exists>n. (\<forall>c\<in>set (se_cached_attempts s). unat (at_id c) \<le> n) \<and> map (unat \<circ> at_id) new = [n + 1..<n + 1 + length new]"
proof -
  from assms(1) obtain single b s1 b' where start: "build_start E s = Ok (single, b)"
    and loop: "build_loop (session_max_parts s - length (active_attempts s)) E single s b = (s1, Ok b')"
    and covered: "bs_remain b' = 0" and s': "s' = fold append_attempt new s1" and new: "new = bs_result b'"
    by (auto simp: build_payment_routes_def word_gt_0)
  note start = build_start_Ok [OF start assms(2)]
  obtain added where added: "length added \<le> session_max_parts s - length (active_attempts s)" "parts_added s b added b'" and s1: "s1 = s"
    using build_loop_Ok [OF loop assms(2)] by blast
  have eq: "added = new" using added(2) new start(1) by (simp add: parts_added_def)
  have parts: "list_all (fresh_attempt s) new" "unat (bs_remain b) = delivered new" "budget_left (bs_max_fee b) (fees_of new) (bs_max_fee b')"
    "\<not> sp_dry_run (se_request s) \<Longrightarrow> map (\<lambda>a. unat (at_id a)) new = [unat (bs_attempt_id b) + 1..<unat (bs_attempt_id b) + 1 + length new]"
    using added(2) covered unfolding eq parts_added_def by simp_all
  show ext: "s' = s\<lparr>se_cached_attempts := se_cached_attempts s @ new\<rparr>" by (simp add: s' s1 fold_append_attempt)
  show "list_all (fresh_attempt s) new" by (rule parts(1))
  show active: "active_attempts s' = active_attempts s @ new" by (simp add: ext active_attempts_def fresh_active [OF parts(1)])
  have "0 < unat (bs_remain b)" using start(3) by (simp add: unat_gt_0)
  then show "delivered (active_attempts s') = unat (sp_amount (se_request s))" using start(2) parts(2) active by simp
  show "length (active_attempts s') \<le> session_max_parts s" using active added(1) start(4) by (simp add: eq)
  show "fees_of new \<le> unat m - fees_of (active_attempts s)" if "sp_max_fee_amount (se_request s) = Some m" for m
    using start(6) [OF that] parts(3) by (auto simp: budget_left_def)
  show "\<exists>n. (\<forall>c\<in>set (se_cached_attempts s). unat (at_id c) \<le> n) \<and> map (unat \<circ> at_id) new = [n + 1..<n + 1 + length new]"
    if "\<not> sp_dry_run (se_request s)"
    using parts(4) [OF that] by (intro exI [of _ "unat (bs_attempt_id b)"]) (simp add: comp_def start(5) flip: word_le_nat_alt)
qed

text \<open>C16. The attempts a session builds for a payment without trampoline hops are exactly what is missing (with trampoline hops the single
  route carries their fees too). Whatever routes the search returns, when
  building succeeds the active attempts then deliver the requested amount to the unit, their number
  stays within the parts allowed, the new fees stay within what is left of the fee limit, and every new
  attempt is unsent, has its own identifier, and reuses none of an earlier attempt.
\<close>
theorem parts_cover_exactly:
  assumes "build_payment_routes E s = (s', Ok new)" and "\<not> use_trampoline_routing (se_request s)"
  shows "s' = s\<lparr>se_cached_attempts := se_cached_attempts s @ new\<rparr> \<and> list_all (fresh_attempt s) new \<and>
    delivered (active_attempts s') = unat (sp_amount (se_request s)) \<and> length (active_attempts s') \<le> session_max_parts s \<and>
    (\<forall>m. sp_max_fee_amount (se_request s) = Some m \<longrightarrow> fees_of new \<le> unat m - fees_of (active_attempts s)) \<and>
    (\<not> sp_dry_run (se_request s) \<longrightarrow> distinct (map at_id new) \<and> (\<forall>a\<in>set new. \<forall>c\<in>set (se_cached_attempts s). at_id c < at_id a))"
proof -
  note built = built_parts [OF assms]
  have ids: "distinct (map at_id new) \<and> (\<forall>a\<in>set new. \<forall>c\<in>set (se_cached_attempts s). at_id c < at_id a)" if live: "\<not> sp_dry_run (se_request s)"
  proof -
    obtain n where n: "\<And>c. c \<in> set (se_cached_attempts s) \<Longrightarrow> unat (at_id c) \<le> n" and up: "map (unat \<circ> at_id) new = [n + 1..<n + 1 + length new]"
      using built(7) [OF live] by blast
    have "distinct (map unat (map at_id new))" using up by simp
    then have "distinct (map at_id new)" by (simp only: distinct_map)
    moreover have "n < unat (at_id a)" if "a \<in> set new" for a
    proof -
      have "unat (at_id a) \<in> set (map (unat \<circ> at_id) new)" using that by simp
      then show ?thesis unfolding up by auto
    qed
    ultimately show ?thesis using n by (auto simp: word_less_nat_alt intro: le_less_trans)
  qed
  then show ?thesis using built(1,2,4,5,6) by blast
qed

definition sample_request :: send_payment_data where
  "sample_request = \<lparr>sp_target_pubkey = 3, sp_amount = 20, sp_payment_hash = 7, sp_invoice = None, sp_final_tlc_expiry_delta = 0, sp_tlc_expiry_limit = 0,
     sp_timeout = None, sp_max_fee_amount = Some 5, sp_max_parts = Some 4, sp_keysend = False, sp_udt_type_script = None, sp_preimage = None,
     sp_custom_records = None, sp_allow_self_payment = False, sp_hop_hints = [], sp_router = [], sp_allow_mpp = True, sp_dry_run = False,
     sp_trampoline_hops = None, sp_trampoline_context = None\<rparr>"

definition sample_session :: payment_session where
  "sample_session = \<lparr>se_request = sample_request, se_last_error = None, se_last_error_code = None, se_try_limit = 12, se_status = PayCreated,
     se_created_at = 0, se_last_updated_at = 0, se_cached_attempts = []\<rparr>"

definition sample_route_hop :: "u128 \<Rightarrow> pubkey option \<Rightarrow> payment_hop_data" where
  "sample_route_hop amount peer = \<lparr>pd_amount = amount, pd_expiry = 0, pd_payment_preimage = None, pd_hash_algorithm = CkbHash, pd_funding_tx_hash = 1,
     pd_next_hop = peer, pd_custom_records = None\<rparr>"

definition sample_route_env :: route_env where
  "sample_route_env = \<lparr>ro_now = 100, ro_source = 9,
     ro_route = (\<lambda>n amount _ _. Ok [sample_route_hop (min 12 amount + 1) (Some 8), sample_route_hop (min 12 amount) None]),
     ro_path_max = Ok 12, ro_fee_rate = (\<lambda>_. None)\<rparr>"

lemma sample_fields [simp]:
  "se_request sample_session = sample_request" "se_cached_attempts sample_session = []" "sp_amount sample_request = 20" "sp_max_fee_amount sample_request = Some 5"
  "sp_dry_run sample_request = False" "sp_trampoline_context sample_request = None" "sp_target_pubkey sample_request = 3" "sp_payment_hash sample_request = 7"
  "session_max_parts sample_session = 4" "active_attempts sample_session = []" "use_trampoline_routing sample_request = False"
  "ro_source sample_route_env = 9" "ro_path_max sample_route_env = Ok 12"
  "ro_route sample_route_env n amount x y = Ok [sample_route_hop (min 12 amount + 1) (Some 8), sample_route_hop (min 12 amount) None]"
  by (simp_all add: session_max_parts_def sample_session_def sample_request_def data_allow_mpp_def use_trampoline_routing_def max_parts_of_def unwrap_or_def
      active_attempts_def sample_route_env_def)

lemma sample_start: "build_start sample_route_env sample_session = Ok (Some 12, \<lparr>bs_attempt_id = 0, bs_remain = 20, bs_target = 20, bs_max_fee = Some 5, bs_result = []\<rparr>)"
  by (simp add: build_start_def remain_amount_def remain_fee_amount_def fee_paid_def single_path_max_for_def sum_words_def checked_mul_def
      ok_or_def saturating_sub_def)

lemma sample_route:
  "session_route_new 9 3 [sample_route_hop x (Some 8), sample_route_hop y None] =
     [\<lparr>rn_pubkey = 9, rn_amount = x, rn_channel_outpoint = (1, 0)\<rparr>, \<lparr>rn_pubkey = 8, rn_amount = y, rn_channel_outpoint = (1, 0)\<rparr>]"
  by (simp add: session_route_new_def sample_route_hop_def unwrap_or_def)

lemma sample_first_attempt [simp]: "at_route (new_attempt now s i source target hops) = session_route_new source target hops" "pd_funding_tx_hash (sample_route_hop x y) = 1"
  by (simp_all add: new_attempt_def sample_route_hop_def)

lemma sample_first_part:
  "\<exists>a b. build_one sample_route_env (Some 12) sample_session \<lparr>bs_attempt_id = 0, bs_remain = 20, bs_target = 20, bs_max_fee = Some 5, bs_result = []\<rparr> = (sample_session, Ok (b, False)) \<and>
     bs_attempt_id b = 1 \<and> bs_remain b = 8 \<and> bs_target b = 8 \<and> bs_max_fee b = Some 4 \<and> bs_result b = [a]"
  by (simp add: build_one_def apply_trampoline_forwarding_fee_def check_trampoline_outgoing_tlc_expiry_def embed_trampoline_onion_def push_route_def next_attempt_id_def
      checked_add_def checked_sub_def checked_mul_def ok_or_def sample_route Let_def expect_def receiver_amount_def fee_left_def route_fee_def first_amount_def
      minus_u_def slots_left_def min_def)

lemma sample_second_part:
  assumes "bs_attempt_id b = 1" "bs_remain b = 8" "bs_target b = 8" "bs_max_fee b = Some 4" "bs_result b = [a]"
  shows "\<exists>b'. build_one sample_route_env (Some 12) sample_session b = (sample_session, Ok (b', False)) \<and> bs_remain b' = 0"
  using assms
  by (simp add: build_one_def apply_trampoline_forwarding_fee_def check_trampoline_outgoing_tlc_expiry_def embed_trampoline_onion_def push_route_def next_attempt_id_def
      checked_add_def checked_sub_def checked_mul_def ok_or_def sample_route Let_def expect_def receiver_amount_def fee_left_def route_fee_def first_amount_def
      minus_u_def slots_left_def min_def)

lemma sample_build: "\<exists>s new. build_payment_routes sample_route_env sample_session = (s, Ok new)"
proof -
  let ?b = "\<lparr>bs_attempt_id = 0, bs_remain = 20, bs_target = 20, bs_max_fee = Some 5, bs_result = []\<rparr>"
  obtain b a where one: "build_one sample_route_env (Some 12) sample_session ?b = (sample_session, Ok (b, False))"
    and b: "bs_attempt_id b = 1" "bs_remain b = 8" "bs_target b = 8" "bs_max_fee b = Some 4" "bs_result b = [a]"
    using sample_first_part by blast
  obtain b' where two: "build_one sample_route_env (Some 12) sample_session b = (sample_session, Ok (b', False))" and "bs_remain b' = 0"
    using sample_second_part [OF b] by blast
  then show ?thesis using one b by (simp add: build_payment_routes_def sample_start numeral_eq_Suc)
qed

theorem parts_cover_exactly_witness:
  "\<exists>s new. build_payment_routes sample_route_env sample_session = (s, Ok new) \<and> delivered (active_attempts s) = 20"
  using sample_build parts_cover_exactly [of sample_route_env sample_session] by fastforce

end
