(* ===== verification/Payment_Actor.thy ===== *)
theory Payment_Actor
  imports Payment_Session
begin

text \<open>
  The payment actor (\<^verbatim>\<open>fiber-lib/src/fiber/payment.rs\<close>): sending the attempts of a session, retrying them, and the
  events that settle them. The network's answers, onion packets (\<^verbatim>\<open>fiber-sphinx\<close>) and the verdict of the payment
  history whether an error is worth another try are arguments; messages the actor sends are effects.
\<close>

section \<open>State\<close>

record tlc_err =
  te_code :: u16
  te_channel_outpoint :: "out_point option"
  te_node_id :: "pubkey option"

definition CODE_PermanentChannelFailure :: u16 where "CODE_PermanentChannelFailure = PERM OR 8"
definition CODE_PermanentNodeFailure :: u16 where "CODE_PermanentNodeFailure = PERM OR NODE OR 2"
definition CODE_ChannelDisabled :: u16 where "CODE_ChannelDisabled = UPDATE OR 20"
definition CODE_UnknownNextPeer :: u16 where "CODE_UnknownNextPeer = PERM OR 10"
definition CODE_InvalidOnionError :: u16 where "CODE_InvalidOnionError = BADONION OR PERM OR 25"

record pay_env = route_env +
  pe_onion_key :: "attempt \<Rightarrow> (256 word) option"
  pe_send :: "attempt \<Rightarrow> (unit, tlc_err) res"
  pe_worth_retry :: "attempt \<Rightarrow> u16 \<Rightarrow> bool"
  pe_decode :: "attempt \<Rightarrow> bytes \<Rightarrow> (u16 \<times> nat) option"
  pe_onion_matches :: "attempt \<Rightarrow> bytes \<Rightarrow> (bool, unit) res"
  pe_text :: string

datatype pay_effect =
    RetrySendPayment u64 "u64 option"
  | MarkChannelFailed out_point
  | MarkNodeFailed pubkey
  | StopActor

record pay_actor =
  pa_payment_hash :: hash256
  pa_store :: send_store
  pa_last_error_packet :: "bytes option"
  pa_retry_send_payment_count :: u64
  pa_processed_onchain_removals :: "(hash256 \<times> tlc_id) set"
  pa_processed_closed_adds :: "(hash256 \<times> u64) set"
  pa_attempts_with_retry_work :: "u64 set"
  pa_effects :: "pay_effect list"

definition emit_pay :: "pay_effect \<Rightarrow> pay_actor \<Rightarrow> pay_actor" where
  "emit_pay e p = p\<lparr>pa_effects := pa_effects p @ [e]\<rparr>"

definition store_session :: "payment_session \<Rightarrow> pay_actor \<Rightarrow> pay_actor" where
  "store_session s p = p\<lparr>pa_store := insert_payment_session s (pa_store p)\<rparr>"

definition clear_index :: "hash256 \<Rightarrow> pay_actor \<Rightarrow> pay_actor" where
  "clear_index h p = p\<lparr>pa_store := clear_attempts_channel_index h (pa_store p)\<rparr>"

definition store_attempt :: "attempt \<Rightarrow> pay_actor \<Rightarrow> (pay_actor, payment_error) res" where
  "store_attempt a p = bind_res (insert_attempt a (pa_store p)) (\<lambda>st. Ok (p\<lparr>pa_store := st\<rparr>))"

definition check_payment_final :: "pay_actor \<Rightarrow> (pay_actor, payment_error) res" where
  "check_payment_final p = bind_res (get_payment_session (pa_store p) (pa_payment_hash p)) (\<lambda>s.
     Ok (case s of Some s \<Rightarrow> if payment_final (se_status s) then emit_pay StopActor p else p | None \<Rightarrow> emit_pay StopActor p))"

definition update_graph_with_tlc_fail :: "tlc_err \<Rightarrow> pay_actor \<Rightarrow> (pay_actor, payment_error) res" where
  "update_graph_with_tlc_fail err p =
     (if te_code err \<in> {CODE_PermanentChannelFailure, CODE_ChannelDisabled, CODE_UnknownNextPeer}
      then bind_res (expect (te_channel_outpoint err)) (\<lambda>c. Ok (emit_pay (MarkChannelFailed c) p))
      else if te_code err = CODE_PermanentNodeFailure
      then bind_res (expect (te_node_id err)) (\<lambda>n. Ok (emit_pay (MarkNodeFailed n) p))
      else Ok p)"

definition record_attempt_fail :: "pay_env \<Rightarrow> pay_actor \<Rightarrow> attempt \<Rightarrow> u16 \<Rightarrow> bool" where
  "record_attempt_fail E p a code \<longleftrightarrow> pe_worth_retry E a code \<and>
     \<not> (case st_sessions (pa_store p) (at_payment_hash a) of Some s \<Rightarrow> sp_router (se_request s) \<noteq> [] | None \<Rightarrow> False)"

section \<open>Failing an attempt or a payment\<close>

type_synonym pay_ctx = "pay_actor \<times> payment_session"
type_synonym attempt_ctx = "pay_actor \<times> payment_session \<times> attempt"

definition set_payment_fail_with_error :: "pay_env \<Rightarrow> string \<Rightarrow> u16 option \<Rightarrow> pay_ctx \<Rightarrow> pay_ctx" where
  "set_payment_fail_with_error E error code = (\<lambda>(p, s).
     let s = session_set_failed (ro_now E) error s;
         s = (if code \<noteq> None then s\<lparr>se_last_error_code := code\<rparr> else s)
     in (if \<not> sp_dry_run (se_request s) then clear_index (sp_payment_hash (se_request s)) (store_session s p) else p, s))"

definition set_attempt_fail_with_error :: "pay_env \<Rightarrow> u16 option \<Rightarrow> string \<Rightarrow> bool \<Rightarrow> attempt_ctx \<Rightarrow> attempt_ctx \<times> (unit, payment_error) res" where
  "set_attempt_fail_with_error E code error retryable = (\<lambda>(p, s, a).
     let (p, s) = (if \<not> retryable \<and> \<not> list_ex (\<lambda>b. at_id b \<noteq> at_id a) (active_attempts s)
                   then set_payment_fail_with_error E error code (p, s) else (p, s))
     in case bind_res (attempt_set_failed (ro_now E) error retryable a) (\<lambda>a.
               bind_res (if sp_dry_run (se_request s) then Ok p else store_attempt a p) (\<lambda>p. Ok (p, a))) of
          Ok (p, a) \<Rightarrow> ((p, s, a), Ok ()) | Err e \<Rightarrow> ((p, s, a), Err e) | Panic \<Rightarrow> ((p, s, a), Panic))"

definition register_payment_retry :: "u64 option \<Rightarrow> pay_actor \<Rightarrow> pay_actor" where
  "register_payment_retry attempt_id p = (case checked_add (pa_retry_send_payment_count p) 1 of
      None \<Rightarrow> p
    | Some n \<Rightarrow> let p = p\<lparr>pa_retry_send_payment_count := n\<rparr> in
        (case checked_mul n 20 of
           None \<Rightarrow> p
         | Some delay \<Rightarrow> emit_pay (RetrySendPayment delay attempt_id)
             (case attempt_id of Some i \<Rightarrow> p\<lparr>pa_attempts_with_retry_work := insert i (pa_attempts_with_retry_work p)\<rparr> | None \<Rightarrow> p)))"

section \<open>Sending\<close>

definition owns_payment_attempt :: "channel \<Rightarrow> hash256 \<Rightarrow> u64 \<Rightarrow> bool" where
  "owns_payment_attempt c h i \<longleftrightarrow>
     list_ex (\<lambda>t. \<not> contains (ti_applied_flags t) REMOVE \<and> ti_payment_hash t = h \<and> ti_attempt_id t = Some i) (all_tlcs (ch_tlc_state c)) \<or>
     list_ex (\<lambda>op. case op of RetryAddTlc cmd \<Rightarrow> ac_payment_hash cmd = h \<and> ac_attempt_id cmd = Some i | _ \<Rightarrow> False) (ch_retryable_tlc_operations c)"

definition channel_owns_attempt :: "send_store \<Rightarrow> attempt \<Rightarrow> bool" where
  "channel_owns_attempt st a = (case Option.bind (first_hop_channel_outpoint a) (st_channels_by_outpoint st) of
      None \<Rightarrow> False
    | Some c \<Rightarrow>
        (if at_status a = AttRetrying \<and> is_closed (ch_state c)
         then list_ex (\<lambda>t. \<not> contains (ti_applied_flags t) REMOVE \<and> ti_payment_hash t = at_payment_hash a \<and> ti_attempt_id t = Some (at_id a)) (all_tlcs (ch_tlc_state c))
         else owns_payment_attempt c (at_payment_hash a) (at_id a)) \<or>
        (case ch_session_v2 c of None \<Rightarrow> False
         | Some v \<Rightarrow> list_ex (\<lambda>(t, execution). ti_payment_hash t = at_payment_hash a \<and> ti_attempt_id t = Some (at_id a) \<and>
             (at_status a = AttCreated \<or> (case execution of None \<Rightarrow> True | Some n \<Rightarrow> n = at_tried_times a))) (sv_remove_effects v)))"

definition send_payment_onion_packet :: "pay_env \<Rightarrow> attempt_ctx \<Rightarrow> attempt_ctx \<times> (unit, payment_error) res" where
  "send_payment_onion_packet E = (\<lambda>(p, s, a).
     let (s, r) = check_trampoline_outgoing_tlc_expiry s (at_route_hops a) in
     bind_st ((p, s, a), bind_res r (\<lambda>_. rust_assert (at_route_hops a \<noteq> [] \<and> pd_funding_tx_hash (hd (at_route_hops a)) \<noteq> 0))) (\<lambda>(p, s, a) _.
     case pe_onion_key E a of
       None \<Rightarrow> bind_st (set_attempt_fail_with_error E None (pe_text E) False (p, s, a)) (\<lambda>x _. (x, Err (FirstHopError False)))
     | Some key \<Rightarrow>
         let a = a\<lparr>at_session_key := key\<rparr> in
         (case (if sp_dry_run (se_request s) then Ok p else store_attempt a p) of
            Err e \<Rightarrow> ((p, s, a), Err e) | Panic \<Rightarrow> ((p, s, a), Panic)
          | Ok p \<Rightarrow> (case pe_send E a of
                Ok _ \<Rightarrow> ((p, s, a), Ok ())
              | Panic \<Rightarrow> ((p, s, a), Panic)
              | Err err \<Rightarrow> (case update_graph_with_tlc_fail err p of
                    Err e \<Rightarrow> ((p, s, a), Err e) | Panic \<Rightarrow> ((p, s, a), Panic)
                  | Ok p \<Rightarrow> let retry = record_attempt_fail E p a (te_code err) in
                      bind_st (set_attempt_fail_with_error E (Some (te_code err)) (pe_text E) retry (p, s, a)) (\<lambda>x _. (x, Err (FirstHopError retry))))))))"

definition send_attempt :: "pay_env \<Rightarrow> attempt_ctx \<Rightarrow> attempt_ctx \<times> (unit, payment_error) res" where
  "send_attempt E x = (case send_payment_onion_packet E x of
      (x, Ok _) \<Rightarrow> (x, Ok ())
    | (x, Panic) \<Rightarrow> (x, Panic)
    | ((p, s, a), Err e) \<Rightarrow>
        if e = FirstHopError True then ((register_payment_retry (Some (at_id a)) p, s, a), Ok ())
        else bind_st (set_attempt_fail_with_error E None (pe_text E) False (p, s, a)) (\<lambda>x _. (x, Err e)))"

definition retry_route :: "pay_env \<Rightarrow> attempt_ctx \<Rightarrow> (payment_hop_data list, payment_error) res" where
  "retry_route E = (\<lambda>(p, s, a).
     bind_res (retry_amount s a) (\<lambda>amount.
     bind_res (ok_or amount SendPaymentError) (\<lambda>amount.
     bind_res (remain_fee_amount s) (\<lambda>max_fee.
     map_err (\<lambda>_. BuildPaymentRouteError) (ro_route E 0 amount None max_fee)))))"

definition reroute_attempt :: "pay_env \<Rightarrow> attempt_ctx \<Rightarrow> attempt_ctx \<times> (unit, payment_error) res" where
  "reroute_attempt E = (\<lambda>(p, s, a).
     bind_st ((p, s, a), retry_route E (p, s, a)) (\<lambda>(p, s, a) hops.
     let (s, r) = check_trampoline_outgoing_tlc_expiry s hops in
     bind_st ((p, s, a), bind_res r (\<lambda>_. update_route hops a)) (\<lambda>(p, s, _) a. ((p, s, a), Ok ()))))"

definition resend_payment_attempt :: "pay_env \<Rightarrow> attempt_ctx \<Rightarrow> attempt_ctx \<times> (unit, payment_error) res" where
  "resend_payment_attempt E x =
     bind_st (x, rust_assert (at_status (snd (snd x)) = AttRetrying)) (\<lambda>x _.
     bind_st (if unwrap_or (at_last_error (snd (snd x))) [] \<noteq> [] then reroute_attempt E x else (x, Ok ())) (\<lambda>x _.
     send_attempt E x))"

section \<open>Resuming a session\<close>

definition payment_need_more_retry :: "pay_env \<Rightarrow> pay_ctx \<Rightarrow> pay_ctx \<times> (bool, payment_error) res" where
  "payment_need_more_retry E = (\<lambda>(p, s). case flush_attempts (pa_store p) s of
      Err e \<Rightarrow> ((p, s), Err e) | Panic \<Rightarrow> ((p, s), Panic)
    | Ok s \<Rightarrow> bind_st ((p, s), bind_res (allow_more_attempts s) (\<lambda>more. bind_res (remain_amount s) (\<lambda>remain. Ok (more, remain)))) (\<lambda>(p, s) (more, remain).
        if \<not> more \<and> remain > 0 then (set_payment_fail_with_error E ''Can not send payment with limited attempts'' None (p, s), Err SendPaymentError)
        else ((p, s), Ok more)))"

definition retry_payment_attempt :: "pay_env \<Rightarrow> u64 option \<Rightarrow> pay_ctx \<Rightarrow> pay_ctx \<times> (unit, payment_error) res" where
  "retry_payment_attempt E attempt_id = (\<lambda>(p, s). case attempt_id of
      None \<Rightarrow> ((p, s), Ok ())
    | Some i \<Rightarrow> let p = p\<lparr>pa_attempts_with_retry_work := insert i (pa_attempts_with_retry_work p)\<rparr> in
       (case get_attempt (pa_store p) (sp_payment_hash (se_request s)) i of
          None \<Rightarrow> ((p, s), Err PayInvalidParameter)
        | Some a \<Rightarrow>
            if at_status a = AttRetrying then
              if channel_owns_attempt (pa_store p) a then ((p, s), Ok ())
              else (case resend_payment_attempt E (p, s, a) of
                  ((p, s, a), Ok _) \<Rightarrow> ((p, s), Ok ())
                | ((p, s, a), Panic) \<Rightarrow> ((p, s), Panic)
                | ((p, s, a), Err e) \<Rightarrow>
                    if data_allow_mpp (se_request s)
                    then (case bind_res (attempt_set_failed (ro_now E) (pe_text E) False a) (\<lambda>a. store_attempt a p) of
                        Ok p \<Rightarrow> ((p, s), Ok ()) | Err e \<Rightarrow> ((p, s), Err e) | Panic \<Rightarrow> ((p, s), Panic))
                    else bind_st (case set_attempt_fail_with_error E None (pe_text E) False (p, s, a) of ((p, s, a), r) \<Rightarrow> ((p, s), r)) (\<lambda>x _. (x, Err e)))
            else if at_status a = AttCreated \<and> \<not> channel_owns_attempt (pa_store p) a
            then (case send_attempt E (p, s, a) of ((p, s, a), r) \<Rightarrow> ((p, s), r))
            else ((p, s), Ok ())))"

fun send_all :: "pay_env \<Rightarrow> attempt list \<Rightarrow> pay_ctx \<Rightarrow> pay_ctx \<times> (unit, payment_error) res" where
  "send_all E [] x = (x, Ok ())"
| "send_all E (a # as) (p, s) = bind_st (case send_attempt E (p, s, a) of ((p, s, a), r) \<Rightarrow> ((p, s), r)) (\<lambda>x _. send_all E as x)"

definition send_new_attempts :: "pay_env \<Rightarrow> pay_ctx \<Rightarrow> pay_ctx \<times> (unit, payment_error) res" where
  "send_new_attempts E = (\<lambda>(p, s). case build_payment_routes (route_env.truncate E) s of
      (s, Panic) \<Rightarrow> ((p, s), Panic)
    | (s, Err e) \<Rightarrow> (set_payment_fail_with_error E (pe_text E) None (p, s), Err e)
    | (s, Ok attempts) \<Rightarrow>
        bind_st (send_all E attempts (p, s)) (\<lambda>x _.
        case payment_need_more_retry E x of
          ((p, s), Ok True) \<Rightarrow> ((register_payment_retry None p, s), Ok ())
        | (x, Panic) \<Rightarrow> (x, Panic)
        | (x, _) \<Rightarrow> (x, Ok ())))"

definition resume_active_session :: "pay_env \<Rightarrow> u64 option \<Rightarrow> pay_ctx \<Rightarrow> pay_ctx \<times> (unit, payment_error) res" where
  "resume_active_session E attempt_id x =
     bind_st (retry_payment_attempt E attempt_id x) (\<lambda>x _.
     bind_st (payment_need_more_retry E x) (\<lambda>x more. if \<not> more then (x, Ok ()) else send_new_attempts E x))"

definition resume_payment_session :: "pay_env \<Rightarrow> u64 option \<Rightarrow> pay_actor \<Rightarrow> pay_actor \<times> (unit, payment_error) res" where
  "resume_payment_session E attempt_id p =
     bind_st (p, get_payment_session (pa_store p) (pa_payment_hash p)) (\<lambda>p session. case session of
        None \<Rightarrow> (p, Err PayInvalidParameter)
      | Some s \<Rightarrow>
          if payment_final (se_status s) then (p, Ok ())
          else (case resume_active_session E attempt_id (p, s) of ((p, s), r) \<Rightarrow> (p, r)))"

definition send_payment_with_payment_data :: "pay_env \<Rightarrow> send_payment_data \<Rightarrow> pay_actor \<Rightarrow> pay_actor \<times> (payment_session, payment_error) res" where
  "send_payment_with_payment_data E d p =
     bind_st (p, get_payment_session (pa_store p) (sp_payment_hash d)) (\<lambda>p session.
     bind_st (case session of
          None \<Rightarrow> (p, Ok ())
        | Some s \<Rightarrow>
            if se_status s \<noteq> PayFailed then (p, Err PayInvalidParameter)
            else if list_ex (\<lambda>a. at_status a = AttInflight) (se_cached_attempts s) then (p, Err PayInvalidParameter)
            else (if sp_dry_run d then p else p\<lparr>pa_store := delete_unsettled_attempts (sp_payment_hash d) (pa_store p)\<rparr>, Ok ())) (\<lambda>p _.
     if sp_dry_run d
     then bind_st (p, new_session (ro_now E) (pa_store p) d 0) (\<lambda>p s.
          (case build_payment_routes (route_env.truncate E) s of (s, r) \<Rightarrow> (p, bind_res r (\<lambda>_. Ok s))))
     else bind_st (p, if data_allow_mpp d then ok_or (checked_mul (ucast (max_parts_of d)) DEFAULT_PAYMENT_MPP_ATTEMPT_TRY_LIMIT) PayInvalidParameter
                      else Ok DEFAULT_PAYMENT_TRY_LIMIT) (\<lambda>p try_limit.
          bind_st (p, new_session (ro_now E) (pa_store p) d try_limit) (\<lambda>p s.
          bind_st (p, rust_assert (list_all (\<lambda>a. at_status a = AttSuccess) (se_cached_attempts s))) (\<lambda>p _.
          bind_st (resume_payment_session E None (store_session s p)) (\<lambda>p _.
          (p, flush_attempts (pa_store p) s)))))))"

section \<open>Events\<close>

datatype add_tlc_result = AddOk | AddWaitingTlcAck | AddErr tlc_err

definition handle_add_tlc_result_event :: "pay_env \<Rightarrow> u64 option \<Rightarrow> add_tlc_result \<Rightarrow> pay_actor \<Rightarrow> (pay_actor, payment_error) res" where
  "handle_add_tlc_result_event E attempt_id result p =
     bind_res (get_payment_session (pa_store p) (pa_payment_hash p)) (\<lambda>session.
     case (session, Option.bind attempt_id (get_attempt (pa_store p) (pa_payment_hash p))) of
       (Some s, Some a) \<Rightarrow> (case result of
           AddOk \<Rightarrow> store_attempt (attempt_set_inflight a) p
         | AddWaitingTlcAck \<Rightarrow> Ok p
         | AddErr err \<Rightarrow>
             bind_res (update_graph_with_tlc_fail err p) (\<lambda>p.
             (case set_attempt_fail_with_error E (Some (te_code err)) (pe_text E) (record_attempt_fail E p a (te_code err)) (p, s, a) of
                ((p, s, a), r) \<Rightarrow> bind_res r (\<lambda>_. Ok (if at_status a = AttRetrying then register_payment_retry (Some (at_id a)) p else p)))))
     | _ \<Rightarrow> Ok p)"

record payment_tlc_remove_context =
  rx_channel_id :: hash256
  rx_tlc_id :: tlc_id
  rx_channel_outpoint :: out_point
  rx_tried_times :: u32

definition save_session :: "payment_session \<Rightarrow> pay_actor \<Rightarrow> pay_actor" where
  "save_session s p = (if sp_dry_run (se_request s) then p
     else let p = store_session s p in if payment_final (se_status s) then clear_index (sp_payment_hash (se_request s)) p else p)"

definition attempt_succeeded :: "hash256 \<Rightarrow> attempt_ctx \<Rightarrow> (attempt_ctx, payment_error) res" where
  "attempt_succeeded preimage = (\<lambda>(p, s, a).
     bind_res (rust_assert (at_route a \<noteq> [])) (\<lambda>_.
     let a = (attempt_set_success a)\<lparr>at_preimage := Some preimage\<rparr> in
     bind_res (store_attempt a p) (\<lambda>p. Ok (p, s, a))))"

definition settle_removed :: "pay_env \<Rightarrow> remove_tlc_reason \<Rightarrow> tlc_err option \<Rightarrow> attempt_ctx \<Rightarrow> (attempt_ctx, payment_error) res" where
  "settle_removed E reason local_error = (\<lambda>(p, s, a). case reason of
      RemoveTlcFulfill preimage \<Rightarrow>
        bind_res (attempt_succeeded preimage (p, s, a)) (\<lambda>(p, s, a).
        bind_res (update_with_attempt a s) (\<lambda>s. Ok (save_session s p, s, a)))
    | RemoveTlcFail packet \<Rightarrow>
        let code = (case local_error of Some e \<Rightarrow> te_code e
              | None \<Rightarrow> (case pe_decode E a packet of
                  Some (code, hop) \<Rightarrow> if hop + 1 < length (at_route a) then code else CODE_InvalidOnionError | None \<Rightarrow> CODE_InvalidOnionError));
            retry = record_attempt_fail E p a code;
            p = p\<lparr>pa_last_error_packet := Some packet\<rparr>
        in (case set_attempt_fail_with_error E (Some code) (pe_text E) retry (p, s, a) of (x, r) \<Rightarrow> bind_res r (\<lambda>_. Ok x)))"

definition finish_completion ::
  "pay_env \<Rightarrow> tlc_err option \<Rightarrow> payment_tlc_remove_context \<Rightarrow> u64 option \<Rightarrow> bool \<Rightarrow> attempt_ctx \<Rightarrow> pay_actor \<times> bool" where
  "finish_completion E local_error completion attempt_id retry = (\<lambda>(p, s, _).
     let p = (case Option.bind attempt_id (get_attempt (pa_store p) (pa_payment_hash p)) of
           Some a \<Rightarrow> if at_status a = AttFailed \<and> \<not> payment_final (se_status s) \<and> \<not> list_ex (\<lambda>b. at_id b \<noteq> at_id a) (active_attempts s)
             then fst (set_payment_fail_with_error E (unwrap_or (at_last_error a) []) (map_option te_code local_error) (p, s)) else p
         | None \<Rightarrow> p);
         key = (rx_channel_id completion, rx_tlc_id completion)
     in (p\<lparr>pa_processed_onchain_removals := insert key (pa_processed_onchain_removals p)\<rparr>, retry \<and> key \<notin> pa_processed_onchain_removals p))"

definition handle_remove_tlc_event ::
  "pay_env \<Rightarrow> u64 option \<Rightarrow> remove_tlc_reason \<Rightarrow> tlc_err option \<Rightarrow> payment_tlc_remove_context option \<Rightarrow> pay_actor \<Rightarrow> (pay_actor \<times> bool, payment_error) res" where
  "handle_remove_tlc_event E attempt_id reason local_error completion p =
     bind_res (get_payment_session (pa_store p) (pa_payment_hash p)) (\<lambda>session.
     case (session, Option.bind attempt_id (get_attempt (pa_store p) (pa_payment_hash p))) of
       (Some s, Some a) \<Rightarrow>
         (case completion of
            None \<Rightarrow> bind_res (settle_removed E reason local_error (p, s, a)) (\<lambda>(p, s, a'). Ok (p, (case reason of RemoveTlcFail _ \<Rightarrow> at_status a' = AttRetrying | _ \<Rightarrow> False)))
          | Some c \<Rightarrow>
              if first_hop_channel_outpoint a \<noteq> Some (rx_channel_outpoint c) then Ok (p, False)
              else if at_status a = AttSuccess then bind_res (update_with_attempt a s) (\<lambda>s. Ok (save_session s p, False))
              else if \<not> (at_tried_times a = rx_tried_times c \<or> (at_status a = AttRetrying \<and> at_tried_times a = saturating_add (rx_tried_times c) 1)) then Ok (p, False)
              else if at_status a = AttFailed \<or> at_status a = AttRetrying
              then Ok (finish_completion E local_error c attempt_id (at_status a = AttRetrying) (p, s, a))
              else bind_res (settle_removed E reason local_error (p, s, a)) (\<lambda>(p, s, a').
                   Ok (finish_completion E local_error c attempt_id (case reason of RemoveTlcFail _ \<Rightarrow> at_status a' = AttRetrying | _ \<Rightarrow> False) (p, s, a'))))
     | _ \<Rightarrow> Err PayInvalidParameter)"

definition handle_reconcile_onchain_fulfill :: "pay_env \<Rightarrow> u64 \<Rightarrow> hash256 \<Rightarrow> pay_actor \<Rightarrow> (pay_actor, payment_error) res" where
  "handle_reconcile_onchain_fulfill E attempt_id preimage p =
     (let persisted = get_persisted_payment_status (pa_store p) (pa_payment_hash p) in
      bind_res (get_payment_session (pa_store p) (pa_payment_hash p)) (\<lambda>session.
      case (session, get_attempt (pa_store p) (pa_payment_hash p) attempt_id) of
        (Some s, Some a) \<Rightarrow>
          bind_res (ensure (at_preimage a = None \<or> at_preimage a = Some preimage) PayInvalidParameter) (\<lambda>_.
          let changed = (at_status a \<noteq> AttSuccess \<or> at_preimage a = None) in
          bind_res (if changed then attempt_succeeded preimage (p, s, a) else Ok (p, s, a)) (\<lambda>(p, s, a).
          let previous = se_status s in
          bind_res (update_with_attempt a s) (\<lambda>s.
          bind_res (success_amount s) (\<lambda>sent.
          let s = (if sent \<ge> sp_amount (se_request s) \<and> se_status s \<noteq> PaySuccess then session_set_success (ro_now E) s else s) in
          Ok (if changed \<or> se_status s \<noteq> previous \<or> persisted \<noteq> Some (se_status s) then save_session s p else p)))))
      | _ \<Rightarrow> Err PayInvalidParameter))"

definition closed_add_target :: "add_tlc_command \<Rightarrow> pay_actor \<Rightarrow> (u64 \<times> payment_session \<times> attempt, payment_error) res" where
  "closed_add_target cmd p =
     bind_res (ok_or (ac_attempt_id cmd) PayInvalidParameter) (\<lambda>i.
     bind_res (ensure (ac_payment_hash cmd = pa_payment_hash p) PayInvalidParameter) (\<lambda>_.
     bind_res (get_payment_session (pa_store p) (pa_payment_hash p)) (\<lambda>session.
     case (session, get_attempt (pa_store p) (pa_payment_hash p) i) of
       (Some s, Some a) \<Rightarrow> Ok (i, s, a) | _ \<Rightarrow> Err PayInvalidParameter)))"

definition closed_add_stale :: "pay_env \<Rightarrow> add_tlc_command \<Rightarrow> attempt \<Rightarrow> (bool, payment_error) res" where
  "closed_add_stale E cmd a =
     bind_res (ok_or (ac_onion_packet cmd) PayInvalidParameter) (\<lambda>packet.
     map_err (\<lambda>_. PayInvalidParameter) (bind_res (pe_onion_matches E a packet) (\<lambda>same. Ok (\<not> same))))"

definition closed_add_report :: "pay_env \<Rightarrow> pubkey \<Rightarrow> out_point \<Rightarrow> u64 \<Rightarrow> attempt \<Rightarrow> pay_actor \<Rightarrow> (pay_actor, payment_error) res" where
  "closed_add_report E local_node channel_outpoint i a p =
     (let err = \<lparr>te_code = CODE_PermanentChannelFailure, te_channel_outpoint = Some channel_outpoint, te_node_id = Some local_node\<rparr>
      in if at_status a = AttCreated then handle_add_tlc_result_event E (Some i) (AddErr err) p
         else bind_res (update_graph_with_tlc_fail err p) (\<lambda>p. Ok (register_payment_retry (Some i) p)))"

definition closed_add_settle :: "u64 \<Rightarrow> pay_actor \<Rightarrow> pay_actor \<times> (unit, payment_error) res" where
  "closed_add_settle i p =
     bind_st (p, get_payment_session (pa_store p) (pa_payment_hash p)) (\<lambda>p session.
     case (session, get_attempt (pa_store p) (pa_payment_hash p) i) of
       (Some s, Some a) \<Rightarrow>
         if at_status a = AttCreated \<and> \<not> payment_final (se_status s) then (p, Err PayInvalidParameter) else (save_session s p, Ok ())
     | _ \<Rightarrow> (p, Err PayInvalidParameter))"

definition complete_closed_local_add ::
  "pay_env \<Rightarrow> pubkey \<Rightarrow> hash256 \<Rightarrow> out_point \<Rightarrow> add_tlc_command \<Rightarrow> pay_actor \<Rightarrow> pay_actor \<times> (unit, payment_error) res" where
  "complete_closed_local_add E local_node channel_id channel_outpoint cmd p =
     bind_st (p, closed_add_target cmd p) (\<lambda>p (i, s, a).
     if first_hop_channel_outpoint a \<noteq> Some channel_outpoint then (p, Ok ())
     else let pending = (\<not> payment_final (se_status s) \<and> at_status a \<in> {AttCreated, AttRetrying}) in
       bind_st (p, if pending then closed_add_stale E cmd a else Ok False) (\<lambda>p stale.
       if stale then (p, Ok ())
       else bind_st (if pending \<and> (channel_id, i) \<notin> pa_processed_closed_adds p
            then let p = p\<lparr>pa_processed_closed_adds := insert (channel_id, i) (pa_processed_closed_adds p)\<rparr>
                 in (case closed_add_report E local_node channel_outpoint i a p of
                       Ok p \<Rightarrow> (p, Ok ()) | Err e \<Rightarrow> (p, Err e) | Panic \<Rightarrow> (p, Panic))
            else (p, Ok ())) (\<lambda>p _. closed_add_settle i p)))"

end
