(* ===== verification/Payment_Replay.thy ===== *)
theory Payment_Replay
  imports Payment_Actor
begin

text \<open>
  The events that settle the attempts of a payment reach its actor from channels, from the on-chain reconciliation and again after
  a restart. This theory shows that a repeated event changes nothing.
\<close>

section \<open>The store keeps one row per attempt\<close>

definition row_key :: "attempt \<Rightarrow> hash256 \<times> u64" where
  "row_key a = (at_payment_hash a, at_id a)"

definition store_ok :: "send_store \<Rightarrow> bool" where
  "store_ok st \<longleftrightarrow> distinct (map row_key (st_attempts st)) \<and>
     (\<forall>h s. st_sessions st h = Some s \<longrightarrow> sp_payment_hash (se_request s) = h \<and> se_cached_attempts s = [] \<and> \<not> sp_dry_run (se_request s))"

lemma get_attempt_key: "get_attempt st h i = List.find (\<lambda>a. row_key a = (h, i)) (st_attempts st)"
  by (simp add: get_attempt_def row_key_def)

lemma find_map_of: "List.find (\<lambda>a. row_key a = k) as = map_of (map (\<lambda>a. (row_key a, a)) as) k"
  by (induction as) auto

lemma get_attempt_Some: "get_attempt st h i = Some a \<Longrightarrow> a \<in> set (st_attempts st) \<and> row_key a = (h, i)"
  by (auto simp: get_attempt_key dest!: find_eq_Some_set)

lemma replace_row:
  assumes "distinct (map row_key as)" and "List.find (\<lambda>b. row_key b = row_key a) as = Some b"
  shows "update_first (\<lambda>b. row_key b = row_key a) (\<lambda>_. a) as = map (\<lambda>b. if row_key b = row_key a then a else b) as"
  using assms
proof (induction as)
  case (Cons c cs)
  have "map (\<lambda>b. if row_key b = row_key a then a else b) cs = cs" if "row_key c = row_key a"
    using that Cons.prems(1) by (intro map_idI) (auto simp: image_iff)
  with Cons show ?case by auto
qed simp

lemma insert_attempt_known:
  assumes "get_attempt st (at_payment_hash a) (at_id a) = Some b" and "at_id a \<noteq> 0"
  shows "insert_attempt a st = Ok (st\<lparr>st_attempts := map (\<lambda>b. if row_key b = row_key a then a else b) (st_attempts st)\<rparr>)"
  using assms by (simp add: insert_attempt_def row_key_def)

lemma rows_replaced:
  shows "map row_key (map (\<lambda>c. if row_key c = row_key a then a else c) as) = map row_key as"
    and "List.find (\<lambda>c. row_key c = k) (map (\<lambda>c. if row_key c = row_key a then a else c) as) =
      (if k = row_key a then map_option (\<lambda>_. a) (List.find (\<lambda>c. row_key c = k) as) else List.find (\<lambda>c. row_key c = k) as)"
  by (induction as) auto

lemma store_attempt_known:
  assumes "store_ok (pa_store p)" and "get_attempt (pa_store p) h i = Some b" and "row_key a = (h, i)"
    and "store_attempt a p = Ok p'"
  shows "store_ok (pa_store p')" and "get_attempt (pa_store p') h i = Some a" and "st_sessions (pa_store p') = st_sessions (pa_store p)"
    and "get_attempts (pa_store p') h = update_first (\<lambda>b. at_id b = i) (\<lambda>_. a) (get_attempts (pa_store p) h)"
    and "p' = p\<lparr>pa_store := pa_store p'\<rparr>"
proof -
  have b: "row_key b = row_key a" using get_attempt_Some [OF assms(2)] assms(3) by simp
  have "at_id a \<noteq> 0" using assms(4) by (auto simp: store_attempt_def insert_attempt_def)
  moreover have "get_attempt (pa_store p) (at_payment_hash a) (at_id a) = Some b" using assms(2,3) by (simp add: row_key_def)
  ultimately have p': "p' = p\<lparr>pa_store := (pa_store p)\<lparr>st_attempts := map (\<lambda>b. if row_key b = row_key a then a else b) (st_attempts (pa_store p))\<rparr>\<rparr>"
    using assms(4) by (simp add: store_attempt_def insert_attempt_known)
  show "store_ok (pa_store p')" using assms(1) by (simp add: store_ok_def p' rows_replaced(1) del: map_map)
  show "get_attempt (pa_store p') h i = Some a"
    using assms(2,3) rows_replaced(2) [of "(h, i)" a] by (simp add: p' get_attempt_key)
  show "st_sessions (pa_store p') = st_sessions (pa_store p)" "p' = p\<lparr>pa_store := pa_store p'\<rparr>" by (simp_all add: p')
  have "get_attempts (pa_store p') h = map (\<lambda>b. if row_key b = row_key a then a else b) (get_attempts (pa_store p) h)"
  proof -
    have "filter (\<lambda>b. at_payment_hash b = h) (map (\<lambda>b. if row_key b = row_key a then a else b) as) =
        map (\<lambda>b. if row_key b = row_key a then a else b) (filter (\<lambda>b. at_payment_hash b = h) as)" for as
      using assms(3) by (induction as) (auto simp: row_key_def)
    then show ?thesis by (simp add: get_attempts_def p')
  qed
  also have "\<dots> = update_first (\<lambda>b. row_key b = row_key a) (\<lambda>_. a) (get_attempts (pa_store p) h)"
  proof (rule replace_row [symmetric])
    show "distinct (map row_key (get_attempts (pa_store p) h))"
      using assms(1) by (simp add: store_ok_def get_attempts_def distinct_map_filter)
    have "List.find (\<lambda>c. row_key c = (h, i)) (filter (\<lambda>a. at_payment_hash a = h) as) = List.find (\<lambda>c. row_key c = (h, i)) as" for as
      by (induction as) (auto simp: row_key_def)
    then show "List.find (\<lambda>c. row_key c = row_key a) (get_attempts (pa_store p) h) = Some b"
      using assms(2,3) by (simp add: get_attempt_key get_attempts_def)
  qed
  also have "\<dots> = update_first (\<lambda>b. at_id b = i) (\<lambda>_. a) (get_attempts (pa_store p) h)"
  proof -
    have "update_first (\<lambda>b. row_key b = row_key a) (\<lambda>_. a) (filter (\<lambda>a. at_payment_hash a = h) as) =
        update_first (\<lambda>b. at_id b = i) (\<lambda>_. a) (filter (\<lambda>a. at_payment_hash a = h) as)" for as
      using assms(3) by (induction as) (auto simp: row_key_def)
    then show ?thesis by (simp add: get_attempts_def)
  qed
  finally show "get_attempts (pa_store p') h = update_first (\<lambda>b. at_id b = i) (\<lambda>_. a) (get_attempts (pa_store p) h)" .
qed


lemma store_session_ok:
  assumes "store_ok (pa_store p)" and "\<not> sp_dry_run (se_request s)"
  shows "store_ok (pa_store (save_session s p))"
  using assms by (auto simp: store_ok_def save_session_def store_session_def insert_payment_session_def clear_index_def clear_attempts_channel_index_def Let_def)

section \<open>Statuses are stable\<close>

lemma remain_amount_status [simp]: "remain_amount (s\<lparr>se_status := st\<rparr>) = remain_amount s"
  by (simp add: remain_amount_def active_attempts_def)

lemma retry_times_status [simp]: "retry_times (s\<lparr>se_status := st\<rparr>) = retry_times s"
  by (simp add: retry_times_def)

lemma parts_status [simp]: "active_attempts (s\<lparr>se_status := st\<rparr>) = active_attempts s" "session_max_parts (s\<lparr>se_status := st\<rparr>) = session_max_parts s"
  "success_amount (s\<lparr>se_status := st\<rparr>) = success_amount s"
  by (simp_all add: active_attempts_def session_max_parts_def success_amount_def)

lemma allow_more_status: "\<not> payment_final st \<Longrightarrow> \<not> payment_final (se_status s) \<Longrightarrow> allow_more_attempts (s\<lparr>se_status := st\<rparr>) = allow_more_attempts s"
  by (simp add: allow_more_attempts_def cong: if_cong)

lemma calc_status_same:
  assumes "payment_final st = payment_final (se_status s)" and "\<not> payment_final st"
  shows "calc_payment_status (s\<lparr>se_status := st\<rparr>) = (if se_cached_attempts s = [] then Ok st else calc_payment_status s)"
  using assms by (simp add: calc_payment_status_def allow_more_status cong: if_cong)

lemma calc_status_final: "payment_final st \<Longrightarrow> calc_payment_status (s\<lparr>se_status := st\<rparr>) = Ok st"
  by (simp add: calc_payment_status_def)

text \<open>Recomputing the status of a session from the same attempts changes nothing.\<close>

lemma calc_status_idem:
  assumes "calc_payment_status s = Ok st"
  shows "calc_payment_status (s\<lparr>se_status := st\<rparr>) = Ok st"
proof (cases "payment_final st")
  case False
  then have "\<not> payment_final (se_status s)" using assms by (auto simp: calc_payment_status_def split: if_splits)
  with False assms show ?thesis using calc_status_same [of st s] by simp
qed (rule calc_status_final)

lemma calc_status_Success:
  "calc_payment_status s = Ok PaySuccess \<Longrightarrow> se_status s \<noteq> PaySuccess \<Longrightarrow> \<exists>sent. success_amount s = Ok sent \<and> sp_amount (se_request s) \<le> sent"
  by (auto simp: calc_payment_status_def split: if_splits)

section \<open>Sessions at rest\<close>

definition session_at_rest :: "send_store \<Rightarrow> hash256 \<Rightarrow> payment_session \<Rightarrow> bool" where
  "session_at_rest st h s \<longleftrightarrow> st_sessions st h = Some (s\<lparr>se_cached_attempts := []\<rparr>) \<and> se_cached_attempts s = get_attempts st h \<and>
     calc_payment_status s = Ok (se_status s) \<and> sp_payment_hash (se_request s) = h \<and> \<not> sp_dry_run (se_request s)"

lemma load_at_rest:
  assumes "session_at_rest st h s"
  shows "get_payment_session st h = Ok (Some s)"
proof -
  have "get_attempts st h = se_cached_attempts s" using assms by (simp add: session_at_rest_def)
  with assms show ?thesis by (simp add: session_at_rest_def get_payment_session_def flush_attempts_def Let_def)
qed

lemma load_session:
  assumes "store_ok st" and "get_payment_session st h = Ok (Some s)"
  shows "se_cached_attempts s = get_attempts st h" and "calc_payment_status s = Ok (se_status s)"
    and "sp_payment_hash (se_request s) = h" and "\<not> sp_dry_run (se_request s)"
proof -
  from assms(2) obtain s0 status where s0: "st_sessions st h = Some s0"
    and status: "calc_payment_status (s0\<lparr>se_cached_attempts := get_attempts st (sp_payment_hash (se_request s0))\<rparr>) = Ok status"
    and s: "s = s0\<lparr>se_cached_attempts := get_attempts st (sp_payment_hash (se_request s0)), se_status := status\<rparr>"
    by (auto simp: get_payment_session_def flush_attempts_def Let_def split: option.splits)
  have "sp_payment_hash (se_request s0) = h" "\<not> sp_dry_run (se_request s0)" using assms(1) s0 by (auto simp: store_ok_def)
  then show "se_cached_attempts s = get_attempts st h" "sp_payment_hash (se_request s) = h" "\<not> sp_dry_run (se_request s)" by (simp_all add: s)
  show "calc_payment_status s = Ok (se_status s)" using calc_status_idem [OF status] by (simp add: s)
qed

lemma save_session_at_rest:
  assumes "se_cached_attempts s = get_attempts (pa_store p) h" and "calc_payment_status s = Ok (se_status s)"
    and "sp_payment_hash (se_request s) = h" and "\<not> sp_dry_run (se_request s)"
  shows "session_at_rest (pa_store (save_session s p)) h s"
  using assms
  by (simp add: session_at_rest_def save_session_def Let_def store_session_def insert_payment_session_def clear_index_def
      clear_attempts_channel_index_def get_attempts_def)

lemma save_session_frame:
  "st_attempts (pa_store (save_session s p)) = st_attempts (pa_store p)" "pa_payment_hash (save_session s p) = pa_payment_hash p"
  "get_attempt (pa_store (save_session s p)) h i = get_attempt (pa_store p) h i" "get_attempts (pa_store (save_session s p)) h = get_attempts (pa_store p) h"
  "pa_processed_onchain_removals (save_session s p) = pa_processed_onchain_removals p"
  by (simp_all add: save_session_def Let_def store_session_def insert_payment_session_def clear_index_def
      clear_attempts_channel_index_def get_attempts_def get_attempt_def)

lemma update_first_fix: "List.find P xs = Some a \<Longrightarrow> update_first P (\<lambda>_. a) xs = xs"
  by (induction xs) (auto split: if_splits)

lemma find_in_session:
  "get_attempt st h i = Some a \<Longrightarrow> List.find (\<lambda>b. at_id b = i) (get_attempts st h) = Some a"
proof -
  have "List.find (\<lambda>b. at_id b = i) (filter (\<lambda>b. at_payment_hash b = h) as) = List.find (\<lambda>b. at_payment_hash b = h \<and> at_id b = i) as" for as :: "attempt list"
    by (induction as) auto
  then show "get_attempt st h i = Some a \<Longrightarrow> ?thesis" by (simp add: get_attempt_def get_attempts_def)
qed

lemma update_at_rest:
  assumes "se_cached_attempts s = get_attempts st h" and "calc_payment_status s = Ok (se_status s)" and "get_attempt st h i = Some a"
  shows "update_with_attempt a s = Ok s"
proof -
  have "at_id a = i" using get_attempt_Some [OF assms(3)] by (simp add: row_key_def)
  then have "update_first (\<lambda>b. at_id b = at_id a) (\<lambda>_. a) (se_cached_attempts s) = se_cached_attempts s"
    using find_in_session [OF assms(3)] assms(1) by (simp add: update_first_fix)
  then show ?thesis using assms(2) by (simp add: update_with_attempt_def)
qed

section \<open>A successful attempt\<close>

lemma attempt_succeeded_Ok:
  assumes "store_ok (pa_store p)" and "get_attempt (pa_store p) h i = Some a" and "attempt_succeeded preimage (p, s, a) = Ok (p', s', a')"
  shows "s' = s" and "a' = (attempt_set_success a)\<lparr>at_preimage := Some preimage\<rparr>" and "store_attempt a' p = Ok p'" and "row_key a' = (h, i)"
  using assms get_attempt_Some [OF assms(2)]
  by (auto simp: attempt_succeeded_def Let_def attempt_set_success_def row_key_def)

text \<open>After the attempt's row is written, the session with that attempt is the one the store would load.\<close>

lemma session_after_write:
  assumes "store_ok (pa_store p)" and "get_payment_session (pa_store p) h = Ok (Some s)" and "get_attempt (pa_store p) h i = Some b"
    and "row_key a = (h, i)" and "store_attempt a p = Ok p'" and "update_with_attempt a s = Ok s'"
  shows "se_cached_attempts s' = get_attempts (pa_store p') h" and "calc_payment_status s' = Ok (se_status s')"
    and "sp_payment_hash (se_request s') = h" and "\<not> sp_dry_run (se_request s')" and "se_request s' = se_request s"
    and "se_status s' = PaySuccess \<Longrightarrow> se_status s \<noteq> PaySuccess \<Longrightarrow> \<exists>sent. success_amount s' = Ok sent \<and> sp_amount (se_request s') \<le> sent"
proof -
  note load = load_session [OF assms(1,2)]
  have id: "at_id a = i" using assms(4) by (simp add: row_key_def)
  from assms(6) obtain st where calc: "calc_payment_status (s\<lparr>se_cached_attempts := update_first (\<lambda>b. at_id b = i) (\<lambda>_. a) (se_cached_attempts s)\<rparr>) = Ok st"
    and s': "s' = s\<lparr>se_cached_attempts := update_first (\<lambda>b. at_id b = i) (\<lambda>_. a) (se_cached_attempts s), se_status := st\<rparr>"
    by (auto simp: update_with_attempt_def Let_def id)
  show "se_cached_attempts s' = get_attempts (pa_store p') h"
    using store_attempt_known(4) [OF assms(1,3,4,5)] load(1) by (simp add: s')
  show "calc_payment_status s' = Ok (se_status s')" using calc_status_idem [OF calc] by (simp add: s')
  show "sp_payment_hash (se_request s') = h" "\<not> sp_dry_run (se_request s')" "se_request s' = se_request s" using load by (simp_all add: s')
  assume "se_status s' = PaySuccess" "se_status s \<noteq> PaySuccess"
  then show "\<exists>sent. success_amount s' = Ok sent \<and> sp_amount (se_request s') \<le> sent"
    using calc calc_status_Success [of "s\<lparr>se_cached_attempts := update_first (\<lambda>b. at_id b = i) (\<lambda>_. a) (se_cached_attempts s)\<rparr>"] by (simp add: s')
qed

section \<open>On-chain fulfilment\<close>

lemma reconcile_OkE:
  assumes "store_ok (pa_store p)" and "handle_reconcile_onchain_fulfill E i preimage p = Ok p'"
  obtains s a p1 a1 s1 sent s2 where
    "get_payment_session (pa_store p) (pa_payment_hash p) = Ok (Some s)" "get_attempt (pa_store p) (pa_payment_hash p) i = Some a"
    "at_status a1 = AttSuccess" "at_preimage a1 = Some preimage" "row_key a1 = (pa_payment_hash p, i)"
    "(p1 = p \<and> a1 = a \<and> at_status a = AttSuccess) \<or> store_attempt a1 p = Ok p1"
    "update_with_attempt a1 s = Ok s1" "success_amount s1 = Ok sent"
    "s2 = (if sent \<ge> sp_amount (se_request s1) \<and> se_status s1 \<noteq> PaySuccess then session_set_success (ro_now E) s1 else s1)"
    "p' = save_session s2 p1 \<or> p' = p \<and> p1 = p \<and> a1 = a \<and> se_status s2 = se_status s \<and> get_persisted_payment_status (pa_store p) (pa_payment_hash p) = Some (se_status s2)"
proof -
  from assms(2) obtain s a where s: "get_payment_session (pa_store p) (pa_payment_hash p) = Ok (Some s)"
    and a: "get_attempt (pa_store p) (pa_payment_hash p) i = Some a"
    by (auto simp: handle_reconcile_onchain_fulfill_def Let_def split: option.splits)
  define changed where "changed = (at_status a \<noteq> AttSuccess \<or> at_preimage a = None)"
  from assms(2) s a obtain p1 s' a1 s1 sent where pre: "at_preimage a = None \<or> at_preimage a = Some preimage"
    and wrote: "(if changed then attempt_succeeded preimage (p, s, a) else Ok (p, s, a)) = Ok (p1, s', a1)"
    and s1: "update_with_attempt a1 s' = Ok s1" and sent: "success_amount s1 = Ok sent"
    and p': "p' = (let s = (if sent \<ge> sp_amount (se_request s1) \<and> se_status s1 \<noteq> PaySuccess then session_set_success (ro_now E) s1 else s1) in
       if changed \<or> se_status s \<noteq> se_status s' \<or> get_persisted_payment_status (pa_store p) (pa_payment_hash p) \<noteq> Some (se_status s) then save_session s p1 else p1)"
    by (auto simp: handle_reconcile_onchain_fulfill_def Let_def changed_def split: prod.splits)
  have key: "row_key a = (pa_payment_hash p, i)" using get_attempt_Some [OF a] by simp
  have w: "s' = s \<and> at_status a1 = AttSuccess \<and> at_preimage a1 = Some preimage \<and> row_key a1 = (pa_payment_hash p, i) \<and>
      ((p1 = p \<and> a1 = a \<and> at_status a = AttSuccess \<and> \<not> changed) \<or> (store_attempt a1 p = Ok p1 \<and> changed))"
  proof (cases changed)
    case True
    with wrote attempt_succeeded_Ok [OF assms(1) a, of preimage s p1 s' a1] show ?thesis by (simp add: attempt_set_success_def)
  next
    case False
    with wrote pre key show ?thesis by (auto simp: changed_def)
  qed
  show thesis
    by (rule that [OF s a _ _ _ _ s1 [unfolded w [THEN conjunct1]] sent HOL.refl]) (use w p' in \<open>auto simp: Let_def split: if_splits\<close>)
qed

definition promote :: "u64 \<Rightarrow> u128 \<Rightarrow> payment_session \<Rightarrow> payment_session" where
  "promote now sent s = (if sent \<ge> sp_amount (se_request s) \<and> se_status s \<noteq> PaySuccess then session_set_success now s else s)"

lemma promote_fields:
  "se_cached_attempts (promote now sent s) = se_cached_attempts s" "se_request (promote now sent s) = se_request s"
  "success_amount (promote now sent s) = success_amount s" "sp_amount (se_request s) \<le> sent \<Longrightarrow> se_status (promote now sent s) = PaySuccess"
  by (simp_all add: promote_def session_set_success_def success_amount_def)

lemma promote_status: "calc_payment_status s = Ok (se_status s) \<Longrightarrow> calc_payment_status (promote now sent s) = Ok (se_status (promote now sent s))"
  by (simp add: promote_def session_set_success_def calc_payment_status_def [of "_\<lparr>se_status := PaySuccess, se_last_updated_at := now, se_last_error := None, se_last_error_code := None\<rparr>"] payment_final_def)

lemma reconcile_result:
  assumes "store_ok (pa_store p)" and "handle_reconcile_onchain_fulfill E i preimage p = Ok p'"
  obtains a s sent where "store_ok (pa_store p')" "pa_payment_hash p' = pa_payment_hash p"
    "get_attempt (pa_store p') (pa_payment_hash p) i = Some a" "at_status a = AttSuccess" "at_preimage a = Some preimage"
    "get_payment_session (pa_store p') (pa_payment_hash p) = Ok (Some s)"
    "get_persisted_payment_status (pa_store p') (pa_payment_hash p) = Some (se_status s)"
    "success_amount s = Ok sent" "sp_amount (se_request s) \<le> sent \<Longrightarrow> se_status s = PaySuccess"
proof -
  let ?h = "pa_payment_hash p"
  obtain s a p1 a1 s1 sent s2 where s: "get_payment_session (pa_store p) ?h = Ok (Some s)" and a: "get_attempt (pa_store p) ?h i = Some a"
    and a1: "at_status a1 = AttSuccess" "at_preimage a1 = Some preimage" "row_key a1 = (?h, i)"
    and wrote: "(p1 = p \<and> a1 = a \<and> at_status a = AttSuccess) \<or> store_attempt a1 p = Ok p1"
    and s1: "update_with_attempt a1 s = Ok s1" and sent: "success_amount s1 = Ok sent"
    and s2: "s2 = (if sent \<ge> sp_amount (se_request s1) \<and> se_status s1 \<noteq> PaySuccess then session_set_success (ro_now E) s1 else s1)"
    and p': "p' = save_session s2 p1 \<or> p' = p \<and> p1 = p \<and> a1 = a \<and> se_status s2 = se_status s \<and> get_persisted_payment_status (pa_store p) ?h = Some (se_status s2)"
    by (rule reconcile_OkE [OF assms])
  note load = load_session [OF assms(1) s]
  have row: "store_ok (pa_store p1) \<and> get_attempt (pa_store p1) ?h i = Some a1 \<and> pa_payment_hash p1 = ?h \<and>
      se_cached_attempts s1 = get_attempts (pa_store p1) ?h \<and> calc_payment_status s1 = Ok (se_status s1) \<and> se_request s1 = se_request s"
    using wrote
  proof
    assume same: "p1 = p \<and> a1 = a \<and> at_status a = AttSuccess"
    then have "s1 = s" using s1 update_at_rest [OF load(1,2) a] by simp
    with same a assms(1) load show ?thesis by simp
  next
    assume w: "store_attempt a1 p = Ok p1"
    have "pa_payment_hash p1 = ?h" using w by (auto simp: store_attempt_def)
    with store_attempt_known(1,2) [OF assms(1) a a1(3) w] session_after_write(1,2,5) [OF assms(1) s a a1(3) w s1] show ?thesis by simp
  qed
  have rest: "se_cached_attempts s2 = get_attempts (pa_store p1) ?h" "calc_payment_status s2 = Ok (se_status s2)"
    "sp_payment_hash (se_request s2) = ?h" "\<not> sp_dry_run (se_request s2)" "success_amount s2 = Ok sent"
    "sp_amount (se_request s2) \<le> sent \<Longrightarrow> se_status s2 = PaySuccess"
    using row load(3,4) sent s2 [folded promote_def] by (simp_all add: promote_fields promote_status)
  have at: "store_ok (pa_store p')" "get_attempt (pa_store p') ?h i = Some a1" "pa_payment_hash p' = ?h"
    "get_payment_session (pa_store p') ?h = Ok (Some s2)" "get_persisted_payment_status (pa_store p') ?h = Some (se_status s2)"
  proof -
    show "store_ok (pa_store p')" "get_attempt (pa_store p') ?h i = Some a1" "pa_payment_hash p' = ?h"
      using p' row store_session_ok [of p1 s2] rest(4) assms(1) by (auto simp: save_session_frame)
    show "get_payment_session (pa_store p') ?h = Ok (Some s2)" "get_persisted_payment_status (pa_store p') ?h = Some (se_status s2)"
      using p'
    proof (atomize (full), elim disjE)
      assume "p' = save_session s2 p1"
      with save_session_at_rest [OF rest(1-4)] show "get_payment_session (pa_store p') ?h = Ok (Some s2) \<and> get_persisted_payment_status (pa_store p') ?h = Some (se_status s2)"
        by (auto intro: load_at_rest simp: session_at_rest_def get_persisted_payment_status_def)
    next
      assume same: "p' = p \<and> p1 = p \<and> a1 = a \<and> se_status s2 = se_status s \<and> get_persisted_payment_status (pa_store p) ?h = Some (se_status s2)"
      then have "s1 = s" using s1 update_at_rest [OF load(1,2) a] by simp
      then have "s2 = s" using same by (auto simp: s2 session_set_success_def split: if_splits)
      with same s show "get_payment_session (pa_store p') ?h = Ok (Some s2) \<and> get_persisted_payment_status (pa_store p') ?h = Some (se_status s2)" by simp
    qed
  qed
  show thesis by (rule that [OF at(1,3,2) a1(1,2) at(4,5) rest(5,6)])
qed

text \<open>C26. The on-chain proof of a fulfilled attempt may be delivered any number of times. After one delivery the attempt is
  successful with that preimage, the session is recorded as successful if its successful parts cover the amount, and every further
  delivery leaves the actor and the store exactly as they are.
\<close>
theorem onchain_fulfill_idempotent:
  assumes "store_ok (pa_store p)" and "handle_reconcile_onchain_fulfill E i preimage p = Ok p'"
  shows "handle_reconcile_onchain_fulfill E' i preimage p' = Ok p' \<and> store_ok (pa_store p') \<and>
    (\<exists>a s sent. get_attempt (pa_store p') (pa_payment_hash p) i = Some a \<and> at_status a = AttSuccess \<and> at_preimage a = Some preimage \<and>
       get_payment_session (pa_store p') (pa_payment_hash p) = Ok (Some s) \<and> success_amount s = Ok sent \<and>
       (sp_amount (se_request s) \<le> sent \<longrightarrow> get_persisted_payment_status (pa_store p') (pa_payment_hash p) = Some PaySuccess))"
proof -
  obtain a s sent where r: "store_ok (pa_store p')" "pa_payment_hash p' = pa_payment_hash p"
    "get_attempt (pa_store p') (pa_payment_hash p) i = Some a" "at_status a = AttSuccess" "at_preimage a = Some preimage"
    "get_payment_session (pa_store p') (pa_payment_hash p) = Ok (Some s)"
    "get_persisted_payment_status (pa_store p') (pa_payment_hash p) = Some (se_status s)"
    "success_amount s = Ok sent" "sp_amount (se_request s) \<le> sent \<Longrightarrow> se_status s = PaySuccess"
    by (rule reconcile_result [OF assms]) blast
  have "update_with_attempt a s = Ok s" using update_at_rest [OF load_session(1,2) [OF r(1,6)] r(3)] .
  then have "handle_reconcile_onchain_fulfill E' i preimage p' = Ok p'"
    using r by (auto simp: handle_reconcile_onchain_fulfill_def Let_def)
  with r show ?thesis by auto
qed

section \<open>Replayed removals\<close>

definition tries_of :: "attempt list \<Rightarrow> nat" where
  "tries_of as = (\<Sum>a\<leftarrow>as. unat (at_tried_times a))"

text \<open>The sums a session computes fit their types, with room for one more try.\<close>

definition sums_fit :: "attempt list \<Rightarrow> bool" where
  "sums_fit as \<longleftrightarrow> delivered as < 2 ^ 128 \<and> tries_of as + 1 < 2 ^ 32"

lemma sum_words_total: "(\<Sum>x\<leftarrow>xs. unat (x :: 'w::len word)) < 2 ^ LENGTH('w) \<Longrightarrow> \<exists>r. sum_words xs = Ok r \<and> unat r = (\<Sum>x\<leftarrow>xs. unat x)"
  by (rule exI [of _ "of_nat (\<Sum>x\<leftarrow>xs. unat x)"]) (simp add: sum_words_Ok unsigned_of_nat take_bit_nat_eq_self)

lemma delivered_filter: "delivered (filter P as) \<le> delivered as"
  unfolding delivered_def by (rule sum_list_filter_le_nat)

lemma session_sums_total:
  assumes "delivered (se_cached_attempts s) < 2 ^ 128" and "tries_of (se_cached_attempts s) < 2 ^ 32"
  shows "\<exists>r. remain_amount s = Ok r" and "\<exists>r. retry_times s = Ok r" and "\<exists>r. success_amount s = Ok r \<and> unat r = delivered (filter (\<lambda>a. at_status a = AttSuccess) (se_cached_attempts s))"
proof -
  have fit: "\<exists>r. sum_words (map (\<lambda>a. receiver_amount (at_route a)) (filter P (se_cached_attempts s))) = Ok r \<and> unat r = delivered (filter P (se_cached_attempts s))" for P
    using sum_words_total [of "map (\<lambda>a. receiver_amount (at_route a)) (filter P (se_cached_attempts s))"] delivered_filter [of P "se_cached_attempts s"] assms(1)
    by (simp add: delivered_def comp_def)
  show "\<exists>r. remain_amount s = Ok r" using fit [of is_active] by (auto simp: remain_amount_def active_attempts_def)
  show "\<exists>r. success_amount s = Ok r \<and> unat r = delivered (filter (\<lambda>a. at_status a = AttSuccess) (se_cached_attempts s))"
    using fit [of "\<lambda>a. at_status a = AttSuccess"] by (auto simp: success_amount_def)
  show "\<exists>r. retry_times s = Ok r"
    using sum_words_total [of "map at_tried_times (se_cached_attempts s)"] assms(2) by (auto simp: retry_times_def tries_of_def comp_def)
qed

lemma calc_status_total:
  assumes "delivered (se_cached_attempts s) < 2 ^ 128" and "tries_of (se_cached_attempts s) < 2 ^ 32"
  shows "\<exists>st. calc_payment_status s = Ok st"
proof -
  from session_sums_total [OF assms] obtain r n sent where sums: "remain_amount s = Ok r" "retry_times s = Ok n" "success_amount s = Ok sent" by blast
  then have "allow_more_attempts s = Ok (\<not> payment_final (se_status s) \<and> r \<noteq> 0 \<and> \<not> n \<ge> se_try_limit s \<and> length (active_attempts s) < session_max_parts s)"
    by (simp add: allow_more_attempts_def)
  then obtain more where "allow_more_attempts s = Ok more" by blast
  then have "(if list_all (\<lambda>a. at_status a = AttFailed) (se_cached_attempts s) then bind_res (allow_more_attempts s) (\<lambda>more. Ok (\<not> more)) else Ok False) =
      (Ok (list_all (\<lambda>a. at_status a = AttFailed) (se_cached_attempts s) \<and> \<not> more) :: (bool, payment_error) res)" by simp
  then show ?thesis unfolding calc_payment_status_def using sums by simp
qed

text \<open>Without attempts in flight, a session whose successful parts cover the amount is final.\<close>

lemma covered_final:
  assumes "calc_payment_status s = Ok st" and "se_cached_attempts s \<noteq> []" and "\<not> list_ex (\<lambda>a. at_status a = AttInflight) (se_cached_attempts s)"
    and "success_amount s = Ok sent" and "sp_amount (se_request s) \<le> sent"
  shows "payment_final st"
  using assms by (auto simp: calc_payment_status_def payment_final_def split: if_splits)

lemma calc_final_cases:
  assumes "calc_payment_status s = Ok st" and "payment_final st" and "\<not> payment_final (se_status s)" and "a \<in> set (se_cached_attempts s)" and "at_status a \<noteq> AttFailed"
  shows "\<not> list_ex (\<lambda>a. at_status a = AttInflight) (se_cached_attempts s) \<and> (\<exists>sent. success_amount s = Ok sent \<and> sp_amount (se_request s) \<le> sent)"
  using assms by (auto simp: calc_payment_status_def payment_final_def list_all_iff split: if_splits)

definition others_active :: "payment_session \<Rightarrow> u64 \<Rightarrow> bool" where
  "others_active s i \<longleftrightarrow> list_ex (\<lambda>b. at_id b \<noteq> i) (active_attempts s)"

lemma save_session_idem: "save_session s (save_session s p) = save_session s p"
  by (auto simp: save_session_def store_session_def clear_index_def insert_payment_session_def clear_attempts_channel_index_def get_attempts_def Let_def)

lemma save_at_rest:
  assumes "session_at_rest (pa_store p) h s" and "payment_final (se_status s) \<Longrightarrow> clear_index h p = p"
  shows "save_session s p = p"
proof -
  have "insert_payment_session s (pa_store p) = pa_store p"
    using assms(1) by (simp add: session_at_rest_def insert_payment_session_def fun_upd_idem)
  then show ?thesis using assms by (simp add: save_session_def store_session_def session_at_rest_def)
qed

lemma update_active:
  "list_ex (\<lambda>b. at_id b \<noteq> i) (filter is_active (update_first (\<lambda>b. at_id b = i) (\<lambda>_. a) as)) \<longleftrightarrow> list_ex (\<lambda>b. at_id b \<noteq> i) (filter is_active as)"
  if "at_id a = i"
  using that by (induction as) auto

lemma update_success:
  assumes "List.find (\<lambda>b. at_id b = i) as = Some b" and "at_status b \<noteq> AttSuccess" and "at_status a \<noteq> AttSuccess"
  shows "filter (\<lambda>a. at_status a = AttSuccess) (update_first (\<lambda>b. at_id b = i) (\<lambda>_. a) as) = filter (\<lambda>a. at_status a = AttSuccess) as"
  using assms by (induction as) (auto split: if_splits)

lemma update_sums:
  assumes "List.find (\<lambda>b. at_id b = i) as = Some b" and "at_route a = at_route b" and "unat (at_tried_times a) \<le> unat (at_tried_times b) + 1"
  shows "delivered (update_first (\<lambda>b. at_id b = i) (\<lambda>_. a) as) = delivered as" and "tries_of (update_first (\<lambda>b. at_id b = i) (\<lambda>_. a) as) \<le> tries_of as + 1"
  using assms by (induction as) (auto simp: tries_of_def split: if_splits)

lemma update_no_inflight:
  "\<not> list_ex (\<lambda>a. at_status a = AttInflight) as \<Longrightarrow> at_status a \<noteq> AttInflight \<Longrightarrow>
   \<not> list_ex (\<lambda>a. at_status a = AttInflight) (update_first P (\<lambda>_. a) as)"
  by (induction as) auto

lemma update_first_Nil: "update_first P f as = [] \<longleftrightarrow> as = []"
  by (cases as) auto

lemma attempt_set_failed_Ok:
  assumes "attempt_set_failed now error retryable a = Ok a'"
  shows "at_status a' \<in> {AttFailed, AttRetrying}" and "row_key a' = row_key a" and "at_route a' = at_route a" and "at_id a' = at_id a"
    and "at_status a' = AttFailed \<Longrightarrow> at_tried_times a' = at_tried_times a"
    and "at_status a' = AttRetrying \<Longrightarrow> unat (at_tried_times a') = unat (at_tried_times a) + 1"
    and "\<not> retryable \<Longrightarrow> at_status a' = AttFailed"
  using assms by (auto simp: attempt_set_failed_def Let_def row_key_def rust_arith split: if_splits)

text \<open>The store after a failed attempt is written: its session loads, and what kept the payment alive still does.\<close>

lemma reload_after_fail:
  assumes "store_ok (pa_store p)" and "get_payment_session (pa_store p) h = Ok (Some s)" and "get_attempt (pa_store p) h i = Some b"
    and "row_key a = (h, i)" and "store_attempt a p = Ok p'" and "sums_fit (get_attempts (pa_store p) h)"
    and "at_status b \<in> {AttCreated, AttInflight}" and "at_status a \<in> {AttFailed, AttRetrying}" and "at_route a = at_route b"
    and "unat (at_tried_times a) \<le> unat (at_tried_times b) + 1"
  obtains s' where "get_payment_session (pa_store p') h = Ok (Some s')" "others_active s' i = others_active s i"
    "payment_final (se_status s) \<Longrightarrow> payment_final (se_status s')"
proof -
  note load = load_session [OF assms(1,2)]
  note row = store_attempt_known [OF assms(1,3,4,5)]
  obtain s0 st0 where s0: "st_sessions (pa_store p) h = Some s0"
    and calc0: "calc_payment_status (s0\<lparr>se_cached_attempts := get_attempts (pa_store p) h\<rparr>) = Ok st0"
    and s: "s = s0\<lparr>se_cached_attempts := get_attempts (pa_store p) h, se_status := st0\<rparr>"
    using assms(1,2) by (auto simp: get_payment_session_def flush_attempts_def Let_def store_ok_def split: option.splits)
  have h0: "sp_payment_hash (se_request s0) = h" using load(3) by (simp add: s)
  let ?new = "update_first (\<lambda>b. at_id b = i) (\<lambda>_. a) (get_attempts (pa_store p) h)"
  note find = find_in_session [OF assms(3)]
  have "delivered ?new < 2 ^ 128" "tries_of ?new < 2 ^ 32"
    using update_sums [OF find assms(9,10)] assms(6) by (simp_all add: sums_fit_def)
  then obtain st1 where calc1: "calc_payment_status (s0\<lparr>se_cached_attempts := ?new\<rparr>) = Ok st1"
    using calc_status_total [of "s0\<lparr>se_cached_attempts := ?new\<rparr>"] by auto
  let ?s' = "s0\<lparr>se_cached_attempts := ?new, se_status := st1\<rparr>"
  have "get_payment_session (pa_store p') h = Ok (Some ?s')"
    using row(3,4) s0 calc1 h0 by (simp add: get_payment_session_def flush_attempts_def)
  moreover have "others_active ?s' i = others_active s i"
    using update_active [of a i] assms(4) by (simp add: others_active_def active_attempts_def s row_key_def)
  moreover have "payment_final st1" if fin: "payment_final st0"
  proof (cases "payment_final (se_status s0)")
    case True
    then show ?thesis using calc1 by (simp add: calc_payment_status_def)
  next
    case False
    have "b \<in> set (get_attempts (pa_store p) h)" using find find_eq_Some_set by fastforce
    then have idle: "\<not> list_ex (\<lambda>a. at_status a = AttInflight) (get_attempts (pa_store p) h)"
      and "\<exists>sent. success_amount (s0\<lparr>se_cached_attempts := get_attempts (pa_store p) h\<rparr>) = Ok sent \<and> sp_amount (se_request s0) \<le> sent"
      using calc_final_cases [OF calc0 fin, of b] False assms(7) by auto
    then obtain sent where sent: "success_amount (s0\<lparr>se_cached_attempts := ?new\<rparr>) = Ok sent" "sp_amount (se_request s0) \<le> sent"
      using update_success [OF find, of a] assms(7,8) by (auto simp: success_amount_def)
    have "?new \<noteq> []" using find by (auto simp: update_first_Nil)
    with covered_final [OF calc1, of sent] update_no_inflight [OF idle, of a "\<lambda>b. at_id b = i"] sent assms(8) show ?thesis by auto
  qed
  ultimately show thesis using that [of ?s'] by (simp add: s)
qed

definition removal_key :: "payment_tlc_remove_context \<Rightarrow> hash256 \<times> tlc_id" where
  "removal_key c = (rx_channel_id c, rx_tlc_id c)"

lemma finish_stable:
  assumes "get_attempt (pa_store p) (pa_payment_hash p) i = Some a" and "removal_key c \<in> pa_processed_onchain_removals p"
    and "at_status a = AttFailed \<Longrightarrow> payment_final (se_status s) \<or> others_active s (at_id a)"
  shows "finish_completion E le c (Some i) retry (p, s, x) = (p, False)"
  using assms by (auto simp: finish_completion_def Let_def removal_key_def others_active_def insert_absorb)

lemma payment_failed_stored:
  assumes "set_payment_fail_with_error E error code (p, s) = (p', s')" and "\<not> sp_dry_run (se_request s)" and "sp_payment_hash (se_request s) = h"
  shows "\<exists>s''. get_payment_session (pa_store p') h = Ok (Some s'') \<and> payment_final (se_status s'')" and "payment_final (se_status s')"
    and "p' = p\<lparr>pa_store := pa_store p'\<rparr>" and "st_attempts (pa_store p') = st_attempts (pa_store p)" and "store_ok (pa_store p) \<Longrightarrow> store_ok (pa_store p')"
    and "active_attempts s' = active_attempts s" and "se_request s' = se_request s"
  using assms
  by (auto simp: set_payment_fail_with_error_def Let_def session_set_failed_def store_session_def clear_index_def insert_payment_session_def
      clear_attempts_channel_index_def get_payment_session_def flush_attempts_def calc_payment_status_def payment_final_def active_attempts_def store_ok_def
      split: if_splits)

lemma finish_result:
  assumes "finish_completion E le c (Some i) retry (p, s, x) = (p', r)" and "get_attempt (pa_store p) (pa_payment_hash p) i = Some a"
    and "\<not> sp_dry_run (se_request s)" and "sp_payment_hash (se_request s) = pa_payment_hash p" and "at_id a = i"
    and "get_payment_session (pa_store p) (pa_payment_hash p) = Ok (Some s1)" and "\<not> payment_final (se_status s) \<Longrightarrow> others_active s i \<Longrightarrow> others_active s1 i"
    and "payment_final (se_status s) \<Longrightarrow> payment_final (se_status s1)"
  shows "get_attempt (pa_store p') (pa_payment_hash p') i = Some a \<and> pa_payment_hash p' = pa_payment_hash p \<and> removal_key c \<in> pa_processed_onchain_removals p' \<and>
    (\<exists>s''. get_payment_session (pa_store p') (pa_payment_hash p') = Ok (Some s'') \<and> (at_status a = AttFailed \<longrightarrow> payment_final (se_status s'') \<or> others_active s'' i))"
proof (cases "at_status a = AttFailed \<and> \<not> payment_final (se_status s) \<and> \<not> others_active s i")
  case True
  obtain p1 s2 where fail: "set_payment_fail_with_error E (unwrap_or (at_last_error a) []) (map_option te_code le) (p, s) = (p1, s2)" by fastforce
  note f = payment_failed_stored [OF fail assms(3,4)]
  have "p' = p1\<lparr>pa_processed_onchain_removals := insert (removal_key c) (pa_processed_onchain_removals p1)\<rparr>"
    using assms(1,2,5) True fail by (simp add: finish_completion_def Let_def others_active_def removal_key_def)
  moreover have "pa_payment_hash p1 = pa_payment_hash p" using f(3) by (metis pay_actor.select_convs(1) pay_actor.surjective pay_actor.update_convs(2))
  ultimately show ?thesis using f(1,4) assms(2) by (auto simp: get_attempt_def)
next
  case False
  then have "p' = p\<lparr>pa_processed_onchain_removals := insert (removal_key c) (pa_processed_onchain_removals p)\<rparr>"
    using assms(1,2,5) by (auto simp: finish_completion_def Let_def others_active_def removal_key_def split: if_splits)
  then show ?thesis using False assms by auto
qed

lemma set_attempt_fail_Ok:
  assumes "set_attempt_fail_with_error E code error retryable (p, s, a) = ((p', s', a'), Ok ())" and "\<not> sp_dry_run (se_request s)"
  obtains p1 where "attempt_set_failed (ro_now E) error retryable a = Ok a'" "store_attempt a' p1 = Ok p'"
    "(p1 = p \<and> s' = s) \<or> set_payment_fail_with_error E error code (p, s) = (p1, s')"
proof -
  obtain p1 s1 where fail: "(if \<not> retryable \<and> \<not> list_ex (\<lambda>b. at_id b \<noteq> at_id a) (active_attempts s)
      then set_payment_fail_with_error E error code (p, s) else (p, s)) = (p1, s1)" by fastforce
  have "sp_dry_run (se_request s1) = sp_dry_run (se_request s)"
    using fail by (auto simp: set_payment_fail_with_error_def session_set_failed_def Let_def split: if_splits)
  with assms fail have "attempt_set_failed (ro_now E) error retryable a = Ok a'" "store_attempt a' p1 = Ok p'" "s' = s1"
    by (auto simp: set_attempt_fail_with_error_def Let_def split: res.splits prod.splits)
  with fail show thesis by (intro that) (auto split: if_splits)
qed

lemma get_attempt_last_error_packet [simp]: "pa_store (p\<lparr>pa_last_error_packet := x\<rparr>) = pa_store p" "pa_payment_hash (p\<lparr>pa_last_error_packet := x\<rparr>) = pa_payment_hash p"
  by simp_all

text \<open>A failed attempt, once stored: the row, and a session that loads and is at least as final as the one in hand.\<close>

lemma failed_attempt_stored:
  assumes "store_ok (pa_store p)" and "get_payment_session (pa_store p) h = Ok (Some s)" and "get_attempt (pa_store p) h i = Some a"
    and "at_status a \<in> {AttCreated, AttInflight}" and "sums_fit (get_attempts (pa_store p) h)" and "pa_payment_hash p = h"
    and "set_attempt_fail_with_error E code error retryable (p, s, a) = ((p', s', a'), Ok ())"
  obtains s1 where "get_attempt (pa_store p') h i = Some a'" "get_payment_session (pa_store p') h = Ok (Some s1)" "pa_payment_hash p' = h"
    "\<not> payment_final (se_status s') \<Longrightarrow> others_active s' i \<Longrightarrow> others_active s1 i" "payment_final (se_status s') \<Longrightarrow> payment_final (se_status s1)"
    "se_request s' = se_request s" "attempt_set_failed (ro_now E) error retryable a = Ok a'"
proof -
  note load = load_session [OF assms(1,2)]
  obtain p1 where a': "attempt_set_failed (ro_now E) error retryable a = Ok a'" and store: "store_attempt a' p1 = Ok p'"
    and cases: "(p1 = p \<and> s' = s) \<or> set_payment_fail_with_error E error code (p, s) = (p1, s')"
    by (rule set_attempt_fail_Ok [OF assms(7) load(4)])
  note f = attempt_set_failed_Ok [OF a']
  have key: "row_key a' = (h, i)" using f(2) get_attempt_Some [OF assms(3)] by simp
  have hash: "pa_payment_hash p' = pa_payment_hash p1" using store by (auto simp: store_attempt_def)
  show thesis using cases
  proof
    assume same: "p1 = p \<and> s' = s"
    have tries: "unat (at_tried_times a') \<le> unat (at_tried_times a) + 1" using f(1,5,6) by auto
    from same store have store': "store_attempt a' p = Ok p'" by simp
    obtain s1 where "get_payment_session (pa_store p') h = Ok (Some s1)" "others_active s1 i = others_active s i"
      "payment_final (se_status s) \<Longrightarrow> payment_final (se_status s1)"
      by (rule reload_after_fail [OF assms(1,2,3) key store' assms(5,4) f(1,3) tries]) blast
    with store_attempt_known(2) [OF assms(1,3) key store'] hash same assms(6) a' show thesis by (intro that [of s1]) auto
  next
    assume fail: "set_payment_fail_with_error E error code (p, s) = (p1, s')"
    note g = payment_failed_stored [OF fail load(4,3)]
    have row: "get_attempt (pa_store p1) h i = Some a" using assms(3) g(4) by (simp add: get_attempt_def)
    note w = store_attempt_known [OF g(5) [OF assms(1)] row key store]
    obtain s0 where "st_sessions (pa_store p') h = Some s0" "payment_final (se_status s0)"
      using fail load(3,4) w(3) by (auto simp: set_payment_fail_with_error_def Let_def session_set_failed_def store_session_def clear_index_def
          insert_payment_session_def clear_attempts_channel_index_def payment_final_def split: if_splits)
    then obtain s1 where "get_payment_session (pa_store p') h = Ok (Some s1)" "payment_final (se_status s1)"
      by (auto simp: get_payment_session_def flush_attempts_def calc_payment_status_def Let_def)
    moreover have "pa_payment_hash p' = h" using fail hash assms(6)
      by (auto simp: set_payment_fail_with_error_def Let_def store_session_def clear_index_def split: if_splits)
    ultimately show thesis using w(2) g(2,7) a' by (intro that [of s1]) auto
  qed
qed

text \<open>The attempt after the first delivery is recognised as processed by the second.\<close>

lemma replay_recognised:
  assumes "get_attempt (pa_store p) (pa_payment_hash p) i = Some a" and "get_payment_session (pa_store p) (pa_payment_hash p) = Ok (Some s)"
    and "removal_key c \<in> pa_processed_onchain_removals p" and "at_status a = AttFailed \<Longrightarrow> payment_final (se_status s) \<or> others_active s i"
    and "first_hop_channel_outpoint a = Some (rx_channel_outpoint c)" and "at_status a \<in> {AttFailed, AttRetrying}"
    and "at_tried_times a = rx_tried_times c \<or> (at_status a = AttRetrying \<and> at_tried_times a = saturating_add (rx_tried_times c) 1)"
  shows "handle_remove_tlc_event E (Some i) reason le (Some c) p = Ok (p, False)"
proof -
  have "at_id a = i" using get_attempt_Some [OF assms(1)] by (simp add: row_key_def)
  then have "finish_completion E le c (Some i) retry (p, s, x) = (p, False)" for retry x
    using finish_stable [OF assms(1,3)] assms(4) by blast
  with assms show ?thesis by (auto simp: handle_remove_tlc_event_def)
qed

lemma save_session_processed: "save_session s (p\<lparr>pa_processed_onchain_removals := x\<rparr>) = (save_session s p)\<lparr>pa_processed_onchain_removals := x\<rparr>"
  by (simp add: save_session_def store_session_def clear_index_def Let_def)

text \<open>A removal of an attempt that already succeeded writes the session as it is stored.\<close>

lemma replay_success:
  assumes "session_at_rest (pa_store p) (pa_payment_hash p) s" and "get_attempt (pa_store p) (pa_payment_hash p) i = Some a"
    and "at_status a = AttSuccess" and "first_hop_channel_outpoint a = Some (rx_channel_outpoint c)" and "save_session s p = p"
  shows "handle_remove_tlc_event E (Some i) reason le (Some c) p = Ok (p, False)"
proof -
  have "update_with_attempt a s = Ok s"
    using assms(1,2) by (intro update_at_rest [of _ _ "pa_payment_hash p" i]) (simp_all add: session_at_rest_def)
  with load_at_rest [OF assms(1)] assms(2-5) show ?thesis by (simp add: handle_remove_tlc_event_def)
qed

lemma replay_after_success:
  assumes "store_ok (pa_store p)" and "get_payment_session (pa_store p) (pa_payment_hash p) = Ok (Some s)"
    and "get_attempt (pa_store p) (pa_payment_hash p) i = Some a" and "at_status a = AttSuccess" 
    and "first_hop_channel_outpoint a = Some (rx_channel_outpoint c)" and "update_with_attempt a s = Ok s'"
  shows "handle_remove_tlc_event E (Some i) reason le (Some c) (save_session s' p) = Ok (save_session s' p, False)"
proof -
  note load = load_session [OF assms(1,2)]
  have "s' = s" using assms(6) update_at_rest [OF load(1,2) assms(3)] by simp
  with load assms(3-5) show ?thesis
    by (intro replay_success [of _ s]) (simp_all add: save_session_frame save_session_at_rest save_session_idem)
qed

lemma replay_after_fulfil:
  assumes "store_ok (pa_store p)" and "get_payment_session (pa_store p) (pa_payment_hash p) = Ok (Some s)"
    and "get_attempt (pa_store p) (pa_payment_hash p) i = Some a" and "first_hop_channel_outpoint a = Some (rx_channel_outpoint c)"
    and "settle_removed E (RemoveTlcFulfill preimage) le (p, s, a) = Ok (p1, s1, a1)"
    and "finish_completion E le c (Some i) False (p1, s1, a1) = (p', r)"
  shows "handle_remove_tlc_event E' (Some i) reason le' (Some c) p' = Ok (p', False)"
proof -
  from assms(5) obtain p0 where a0: "attempt_succeeded preimage (p, s, a) = Ok (p0, s, a1)" and s1: "update_with_attempt a1 s = Ok s1"
    and p1: "p1 = save_session s1 p0"
    by (auto simp: settle_removed_def dest: attempt_succeeded_Ok(1) [OF assms(1,3)])
  note w = attempt_succeeded_Ok [OF assms(1,3) a0]
  note row = store_attempt_known [OF assms(1,3) w(4) w(3)]
  note new = session_after_write [OF assms(1,2,3) w(4) w(3) s1]
  have hash: "pa_payment_hash p0 = pa_payment_hash p" using w(3) by (auto simp: store_attempt_def)
  have a1: "at_status a1 = AttSuccess" "first_hop_channel_outpoint a1 = Some (rx_channel_outpoint c)"
    using w(2) assms(4) by (simp_all add: attempt_set_success_def first_hop_channel_outpoint_def)
  have p': "p' = p1\<lparr>pa_processed_onchain_removals := insert (removal_key c) (pa_processed_onchain_removals p1)\<rparr>"
    using assms(6) row(2) a1(1) hash by (auto simp: finish_completion_def Let_def removal_key_def p1 save_session_frame)
  show ?thesis
    using save_session_at_rest [OF new(1-4)] row(2) a1 hash
    by (intro replay_success [of p' s1]) (simp_all add: p' p1 save_session_frame save_session_processed save_session_idem)
qed

lemma replay_after_fail:
  assumes "store_ok (pa_store p)" and "get_payment_session (pa_store p) (pa_payment_hash p) = Ok (Some s)"
    and "get_attempt (pa_store p) (pa_payment_hash p) i = Some a" and "first_hop_channel_outpoint a = Some (rx_channel_outpoint c)"
    and "at_status a \<in> {AttCreated, AttInflight}" and "sums_fit (get_attempts (pa_store p) (pa_payment_hash p))" and "at_tried_times a = rx_tried_times c"
    and "settle_removed E (RemoveTlcFail packet) le (p, s, a) = Ok (p1, s1, a1)"
    and "finish_completion E le c (Some i) retry (p1, s1, a1) = (p', r)"
  shows "handle_remove_tlc_event E' (Some i) reason le' (Some c) p' = Ok (p', False)"
proof -
  let ?p = "p\<lparr>pa_last_error_packet := Some packet\<rparr>"
  from assms(8) obtain code retry' where fail: "set_attempt_fail_with_error E (Some code) (pe_text E) retry' (?p, s, a) = ((p1, s1, a1), Ok ())"
    by (auto simp: settle_removed_def Let_def split: prod.splits)
  have prems: "store_ok (pa_store ?p)" "get_payment_session (pa_store ?p) (pa_payment_hash p) = Ok (Some s)" "get_attempt (pa_store ?p) (pa_payment_hash p) i = Some a"
    "sums_fit (get_attempts (pa_store ?p) (pa_payment_hash p))" "pa_payment_hash ?p = pa_payment_hash p"
    using assms by simp_all
  obtain s2 where r: "get_attempt (pa_store p1) (pa_payment_hash p) i = Some a1" "get_payment_session (pa_store p1) (pa_payment_hash p) = Ok (Some s2)"
    "pa_payment_hash p1 = pa_payment_hash p"
    "\<not> payment_final (se_status s1) \<Longrightarrow> others_active s1 i \<Longrightarrow> others_active s2 i" "payment_final (se_status s1) \<Longrightarrow> payment_final (se_status s2)"
    "se_request s1 = se_request s" "attempt_set_failed (ro_now E) (pe_text E) retry' a = Ok a1"
    by (rule failed_attempt_stored [OF prems(1-3) assms(5) prems(4,5) fail]) blast
  note load = load_session [OF assms(1,2)]
  note f = attempt_set_failed_Ok [OF r(7)]
  have id: "at_id a1 = i" using get_attempt_Some [OF r(1)] by (simp add: row_key_def)
  note fin = finish_result [OF assms(9) r(1) [folded r(3)] _ _ id r(2) [folded r(3)] r(4,5)]
  have "pa_payment_hash p' = pa_payment_hash p" using fin r(3,6) load(3,4) by simp
  from fin r(3,6) load(3,4) obtain s3 where now: "get_attempt (pa_store p') (pa_payment_hash p') i = Some a1" "removal_key c \<in> pa_processed_onchain_removals p'"
    "get_payment_session (pa_store p') (pa_payment_hash p') = Ok (Some s3)" "at_status a1 = AttFailed \<Longrightarrow> payment_final (se_status s3) \<or> others_active s3 i" by auto
  have tries: "at_tried_times a1 = rx_tried_times c \<or> (at_status a1 = AttRetrying \<and> at_tried_times a1 = saturating_add (rx_tried_times c) 1)"
  proof (cases "at_status a1 = AttFailed")
    case False
    then have "unat (at_tried_times a1) = unat (rx_tried_times c) + 1" using f(1,6) assms(7) by simp
    moreover from this have "unat (rx_tried_times c) + 1 < 2 ^ 32" using unsigned_less [of "at_tried_times a1", where 'a = nat] by simp
    ultimately have "at_tried_times a1 = saturating_add (rx_tried_times c) 1"
      by (simp add: word_unat_eq_iff saturating_add_def rust_arith)
    with False f(1) show ?thesis by simp
  qed (use f(5) assms(7) in simp)
  have hop: "first_hop_channel_outpoint a1 = Some (rx_channel_outpoint c)" using f(3) assms(4) by (simp add: first_hop_channel_outpoint_def)
  show ?thesis by (rule replay_recognised [OF now(1,3,2,4) hop f(1) tries])
qed

text \<open>C10. A channel repeats the report that a TLC of this payment was removed until it knows the payment actor has it: after a crash, and
  from the on-chain reconciliation. Whatever the first delivery did (recorded a success, failed the attempt or put it up for another
  try, failed the whole payment, or ignored a report of another execution), delivering the same report again changes neither the
  store nor the actor and starts no second retry.
\<close>
theorem removal_replay_harmless:
  assumes "store_ok (pa_store p)" and "sums_fit (get_attempts (pa_store p) (pa_payment_hash p))"
    and "handle_remove_tlc_event E attempt_id reason le (Some c) p = Ok (p', r)"
  shows "handle_remove_tlc_event E' attempt_id reason le (Some c) p' = Ok (p', False)"
proof -
  from assms(3) obtain s i a where s: "get_payment_session (pa_store p) (pa_payment_hash p) = Ok (Some s)" and i: "attempt_id = Some i"
    and a: "get_attempt (pa_store p) (pa_payment_hash p) i = Some a"
    by (cases attempt_id) (auto simp: handle_remove_tlc_event_def split: option.splits)
  note load = load_session [OF assms(1) s]
  have id: "at_id a = i" using get_attempt_Some [OF a] by (simp add: row_key_def)
  note run = assms(3) [unfolded handle_remove_tlc_event_def i] s a
  let ?ours = "at_tried_times a = rx_tried_times c \<or> (at_status a = AttRetrying \<and> at_tried_times a = saturating_add (rx_tried_times c) 1)"
  consider "first_hop_channel_outpoint a \<noteq> Some (rx_channel_outpoint c)" | "first_hop_channel_outpoint a = Some (rx_channel_outpoint c)" "at_status a = AttSuccess"
    | "first_hop_channel_outpoint a = Some (rx_channel_outpoint c)" "at_status a \<noteq> AttSuccess" "\<not> ?ours"
    | "first_hop_channel_outpoint a = Some (rx_channel_outpoint c)" "?ours" "at_status a \<in> {AttFailed, AttRetrying}"
    | "first_hop_channel_outpoint a = Some (rx_channel_outpoint c)" "?ours" "at_status a \<in> {AttCreated, AttInflight}"
    using attempt_status.exhaust by blast
  then show ?thesis
  proof cases
    case 1
    with run have "p' = p" by simp
    with 1 s a show ?thesis by (simp add: handle_remove_tlc_event_def i)
  next
    case 2
    with run obtain s' where "update_with_attempt a s = Ok s'" "p' = save_session s' p" by auto
    with replay_after_success [OF assms(1) s a 2(2,1)] show ?thesis by (simp add: i)
  next
    case 3
    with run have "p' = p" by simp
    with 3 s a show ?thesis by (auto simp: handle_remove_tlc_event_def i)
  next
    case 4
    with run have fin: "finish_completion E le c (Some i) (at_status a = AttRetrying) (p, s, a) = (p', r)" by auto
    from finish_result [OF fin a load(4,3) id s] obtain s' where "get_attempt (pa_store p') (pa_payment_hash p') i = Some a"
      "removal_key c \<in> pa_processed_onchain_removals p'" "get_payment_session (pa_store p') (pa_payment_hash p') = Ok (Some s')"
      "at_status a = AttFailed \<Longrightarrow> payment_final (se_status s') \<or> others_active s' i" by auto
    with 4 show ?thesis unfolding i by (intro replay_recognised) auto
  next
    case 5
    then have tries: "at_tried_times a = rx_tried_times c" and "at_status a \<noteq> AttSuccess" by auto
    with run 5 obtain p1 s1 a1 where settle: "settle_removed E reason le (p, s, a) = Ok (p1, s1, a1)"
      and fin: "finish_completion E le c (Some i) (case reason of RemoveTlcFail _ \<Rightarrow> at_status a1 = AttRetrying | _ \<Rightarrow> False) (p1, s1, a1) = (p', r)" by auto
    show ?thesis
    proof (cases reason)
      case (RemoveTlcFulfill x)
      with replay_after_fulfil [OF assms(1) s a 5(1)] settle fin show ?thesis by (simp add: i)
    next
      case (RemoveTlcFail x)
      with replay_after_fail [OF assms(1) s a 5(1,3) assms(2) tries] settle fin show ?thesis by (simp add: i)
    qed
  qed
qed

definition sample_attempt :: attempt where
  "sample_attempt = attempt_set_inflight (new_attempt 0 sample_session 1 9 3 [sample_route_hop 21 (Some 8), sample_route_hop 20 None])"

definition sample_pay_env :: pay_env where
  "sample_pay_env = route_env.extend sample_route_env \<lparr>pe_onion_key = (\<lambda>_. Some 1), pe_send = (\<lambda>_. Ok ()), pe_worth_retry = (\<lambda>_ _. False),
     pe_decode = (\<lambda>_ _. None), pe_onion_matches = (\<lambda>_ _. Ok True), pe_text = ''failed''\<rparr>"

definition sample_actor :: pay_actor where
  "sample_actor = \<lparr>pa_payment_hash = 7, pa_store = \<lparr>st_sessions = [7 \<mapsto> sample_session], st_attempts = [sample_attempt], st_attempt_index = {},
     st_channels_by_outpoint = Map.empty\<rparr>, pa_last_error_packet = None, pa_retry_send_payment_count = 0, pa_processed_onchain_removals = {},
     pa_processed_closed_adds = {}, pa_attempts_with_retry_work = {}, pa_effects = []\<rparr>"

lemma sample_attempt_fields [simp]:
  "at_id sample_attempt = 1" "at_payment_hash sample_attempt = 7" "at_status sample_attempt = AttInflight" "at_preimage sample_attempt = None" "at_tried_times sample_attempt = 1"
  "at_route sample_attempt = [\<lparr>rn_pubkey = 9, rn_amount = 21, rn_channel_outpoint = (1, 0)\<rparr>, \<lparr>rn_pubkey = 8, rn_amount = 20, rn_channel_outpoint = (1, 0)\<rparr>]"
  by (simp_all add: sample_attempt_def attempt_set_inflight_def new_attempt_def sample_route)

lemma sample_actor_fields [simp]:
  "pa_payment_hash sample_actor = 7" "st_sessions (pa_store sample_actor) = [7 \<mapsto> sample_session]" "st_attempts (pa_store sample_actor) = [sample_attempt]"
  "pa_processed_onchain_removals sample_actor = {}" "se_status sample_session = PayCreated"
  by (simp_all add: sample_actor_def sample_session_def)

lemma sample_store_ok: "store_ok (pa_store sample_actor)" "sums_fit (get_attempts (pa_store sample_actor) (pa_payment_hash sample_actor))"
  by (simp_all add: store_ok_def get_attempts_def sums_fit_def delivered_def tries_of_def receiver_amount_def)

lemma sample_load:
  "get_payment_session (pa_store sample_actor) 7 = Ok (Some (sample_session\<lparr>se_cached_attempts := [sample_attempt], se_status := PayInflight\<rparr>))"
  "get_attempt (pa_store sample_actor) 7 1 = Some sample_attempt"
  by (simp_all add: get_payment_session_def flush_attempts_def get_attempts_def get_attempt_def calc_payment_status_def payment_final_def)

lemma sample_fulfilled: "\<exists>p'. handle_reconcile_onchain_fulfill sample_pay_env 1 42 sample_actor = Ok p'"
  by (simp add: handle_reconcile_onchain_fulfill_def sample_load attempt_succeeded_def store_attempt_def insert_attempt_def attempt_set_success_def
      Let_def update_with_attempt_def calc_payment_status_def payment_final_def success_amount_def sum_words_def receiver_amount_def plus_u_def checked_add_def expect_def)

theorem onchain_fulfill_idempotent_witness:
  "\<exists>p a. handle_reconcile_onchain_fulfill sample_pay_env 1 42 sample_actor = Ok p \<and> handle_reconcile_onchain_fulfill sample_pay_env 1 42 p = Ok p \<and>
     get_attempt (pa_store p) 7 1 = Some a \<and> at_preimage a = Some 42"
proof -
  obtain p where p: "handle_reconcile_onchain_fulfill sample_pay_env 1 42 sample_actor = Ok p" using sample_fulfilled by blast
  with onchain_fulfill_idempotent [OF sample_store_ok(1) p, of sample_pay_env] show ?thesis by auto
qed

definition sample_removal :: payment_tlc_remove_context where
  "sample_removal = \<lparr>rx_channel_id = 5, rx_tlc_id = Offered 0, rx_channel_outpoint = (1, 0), rx_tried_times = 1\<rparr>"

lemma sample_removed: "\<exists>r. handle_remove_tlc_event sample_pay_env (Some 1) (RemoveTlcFail []) None (Some sample_removal) sample_actor = Ok r"
  by (simp add: handle_remove_tlc_event_def sample_load first_hop_channel_outpoint_def sample_removal_def settle_removed_def Let_def
      set_attempt_fail_with_error_def record_attempt_fail_def sample_pay_env_def route_env.defs active_attempts_def is_active_def
      attempt_set_failed_def store_attempt_def insert_attempt_def set_payment_fail_with_error_def session_set_failed_def)

theorem removal_replay_harmless_witness:
  "\<exists>p r. handle_remove_tlc_event sample_pay_env (Some 1) (RemoveTlcFail []) None (Some sample_removal) sample_actor = Ok (p, r) \<and>
     handle_remove_tlc_event sample_pay_env (Some 1) (RemoveTlcFail []) None (Some sample_removal) p = Ok (p, False)"
proof -
  obtain p r where "handle_remove_tlc_event sample_pay_env (Some 1) (RemoveTlcFail []) None (Some sample_removal) sample_actor = Ok (p, r)"
    using sample_removed by auto
  with removal_replay_harmless [OF sample_store_ok this] show ?thesis by blast
qed

end
