(* ===== verification/Payment_Bounds.thy ===== *)
theory Payment_Bounds
  imports Payment_Replay
begin

text \<open>
  How often a payment tries: an invariant of all handlers of the payment actor bounds the number of attempts of a session, and compares
  the counter of every attempt with the rows a step started from, which bounds how often an attempt is put back along a run.
\<close>

section \<open>How often a payment tries\<close>

definition attempt_limit :: "send_payment_data \<Rightarrow> u32 \<Rightarrow> u32" where
  "attempt_limit R T = (if data_allow_mpp R then DEFAULT_PAYMENT_MPP_ATTEMPT_TRY_LIMIT else T)"

text \<open>An attempt was put back for another try when its row is retrying and was not, or was failed again since.\<close>

definition retried :: "attempt option \<Rightarrow> attempt \<Rightarrow> bool" where
  "retried before a \<longleftrightarrow> at_status a = AttRetrying \<and>
     (case before of None \<Rightarrow> True | Some b \<Rightarrow> at_status b \<noteq> AttRetrying \<or> at_last_updated_at b \<noteq> at_last_updated_at a)"

definition tries_of :: "attempt option \<Rightarrow> nat" where
  "tries_of before = (case before of None \<Rightarrow> 1 | Some b \<Rightarrow> unat (at_tried_times b))"

text \<open>The counter of a row, compared with the rows a step started from: it never falls, and grows when the attempt was put back.\<close>

definition counted_since :: "(u64 \<Rightarrow> attempt option) \<Rightarrow> attempt \<Rightarrow> bool" where
  "counted_since G a \<longleftrightarrow> tries_of (G (at_id a)) + (if retried (G (at_id a)) a then 1 else 0) \<le> unat (at_tried_times a)"

definition tries_bounded :: "send_payment_data \<Rightarrow> u32 \<Rightarrow> (u64 \<Rightarrow> attempt option) \<Rightarrow> attempt \<Rightarrow> bool" where
  "tries_bounded R T G a \<longleftrightarrow> at_payment_hash a = sp_payment_hash R \<and> at_try_limit a = attempt_limit R T \<and>
     1 \<le> unat (at_tried_times a) \<and> unat (at_tried_times a) \<le> unat (attempt_limit R T) + 1 \<and> counted_since G a"

definition session_of :: "send_payment_data \<Rightarrow> u32 \<Rightarrow> payment_session \<Rightarrow> bool" where
  "session_of R T s \<longleftrightarrow> se_request s = R \<and> se_try_limit s = T"

definition keys_of :: "pay_actor \<Rightarrow> (hash256 \<times> u64) set" where
  "keys_of p = row_key ` set (st_attempts (pa_store p))"

text \<open>What every operation of the actor keeps: the payment's request and limit, the bound on the tries of every row, and that no
  row appears but those of the given keys, and none of the rows the step started from disappears.\<close>

definition pay_kept :: "send_payment_data \<Rightarrow> u32 \<Rightarrow> (u64 \<Rightarrow> attempt option) \<Rightarrow> (hash256 \<times> u64) set \<Rightarrow> pay_actor \<Rightarrow> bool" where
  "pay_kept R T G K p \<longleftrightarrow> store_ok (pa_store p) \<and> pa_payment_hash p = sp_payment_hash R \<and> \<not> sp_dry_run R \<and>
     (\<forall>s. st_sessions (pa_store p) (sp_payment_hash R) = Some s \<longrightarrow> session_of R T s) \<and>
     (\<forall>a\<in>set (st_attempts (pa_store p)). at_payment_hash a = sp_payment_hash R \<longrightarrow> tries_bounded R T G a) \<and> keys_of p \<subseteq> K \<and>
     (\<forall>i. G i \<noteq> None \<longrightarrow> (sp_payment_hash R, i) \<in> keys_of p)"

definition ctx_kept :: "send_payment_data \<Rightarrow> u32 \<Rightarrow> (u64 \<Rightarrow> attempt option) \<Rightarrow> (hash256 \<times> u64) set \<Rightarrow> pay_ctx \<Rightarrow> bool" where
  "ctx_kept R T G K x \<longleftrightarrow> pay_kept R T G K (fst x) \<and> session_of R T (snd x)"

definition attempt_kept :: "send_payment_data \<Rightarrow> u32 \<Rightarrow> (u64 \<Rightarrow> attempt option) \<Rightarrow> (hash256 \<times> u64) set \<Rightarrow> attempt_ctx \<Rightarrow> bool" where
  "attempt_kept R T G K x \<longleftrightarrow> ctx_kept R T G K (fst x, fst (snd x)) \<and> tries_bounded R T G (snd (snd x)) \<and> row_key (snd (snd x)) \<in> K"

lemma bind_st_keeps:
  assumes "P (fst m)" and "\<And>s x. P s \<Longrightarrow> m = (s, Ok x) \<Longrightarrow> P (fst (f s x))"
  shows "P (fst (bind_st m f))"
  using assms by (cases m; cases "snd m") auto

lemma keep_effects [simp]:
  "pay_kept R T G K (emit_pay e p) = pay_kept R T G K p" "pay_kept R T G K (register_payment_retry i p) = pay_kept R T G K p"
  "pay_kept R T G K (p\<lparr>pa_last_error_packet := x\<rparr>) = pay_kept R T G K p"
  "pay_kept R T G K (p\<lparr>pa_attempts_with_retry_work := x3\<rparr>) = pay_kept R T G K p"
  "pay_kept R T G K (p\<lparr>pa_processed_onchain_removals := x1\<rparr>) = pay_kept R T G K p" "pay_kept R T G K (p\<lparr>pa_processed_closed_adds := x2\<rparr>) = pay_kept R T G K p"
  by (simp_all add: pay_kept_def keys_of_def emit_pay_def register_payment_retry_def Let_def split: option.split)

lemma keep_graph: "update_graph_with_tlc_fail err p = Ok p' \<Longrightarrow> pay_kept R T G K p' = pay_kept R T G K p"
  by (auto simp: update_graph_with_tlc_fail_def split: if_splits)

lemma insort_store:
  "row_key a \<notin> row_key ` set as \<Longrightarrow> distinct (map row_key as) \<Longrightarrow> distinct (map row_key (insort_key attempt_key a as))"
  by (induction as) (auto simp: set_insort_key)

lemma keep_row:
  assumes "pay_kept R T G K p" and "tries_bounded R T G a" and "row_key a \<in> K" and "store_attempt a p = Ok p'"
  shows "pay_kept R T G K p'"
proof (cases "get_attempt (pa_store p) (at_payment_hash a) (at_id a)")
  case None
  then have "row_key a \<notin> row_key ` set (st_attempts (pa_store p))"
    by (auto simp: get_attempt_def find_None_iff row_key_def)
  then have "distinct (map row_key (insort_key attempt_key a (st_attempts (pa_store p))))"
    using assms(1) insort_store by (auto simp: pay_kept_def store_ok_def)
  then show ?thesis using assms None
    by (auto simp: store_attempt_def insert_attempt_def pay_kept_def store_ok_def keys_of_def set_insort_key image_subset_iff)
next
  case (Some b)
  have "row_key a = (at_payment_hash a, at_id a)" by (simp add: row_key_def)
  note known = store_attempt_known [OF _ Some this assms(4)]
  have ok: "store_ok (pa_store p)" using assms(1) by (simp add: pay_kept_def)
  have "at_id a \<noteq> 0" using assms(4) by (auto simp: store_attempt_def insert_attempt_def)
  then have "st_attempts (pa_store p') = map (\<lambda>b. if row_key b = row_key a then a else b) (st_attempts (pa_store p))"
    using assms(4) Some by (auto simp: store_attempt_def insert_attempt_known)
  moreover have "pa_payment_hash p' = pa_payment_hash p" using assms(4) by (auto simp: store_attempt_def)
  moreover have "row_key ` set (map (\<lambda>b. if row_key b = row_key a then a else b) as) = row_key ` set as" for as
    by (simp only: set_map image_image) (rule image_cong, simp_all)
  ultimately have "keys_of p' = keys_of p" and rows: "st_attempts (pa_store p') = map (\<lambda>b. if row_key b = row_key a then a else b) (st_attempts (pa_store p))"
    "pa_payment_hash p' = pa_payment_hash p" by (simp_all add: keys_of_def)
  then show ?thesis using assms known(1,3) [OF ok] by (auto simp: pay_kept_def)
qed

lemma keep_session:
  assumes "pay_kept R T G K p" and "session_of R T s"
  shows "pay_kept R T G K (store_session s p)" and "pay_kept R T G K (save_session s p)"
  using assms by (auto simp: pay_kept_def keys_of_def store_ok_def save_session_def store_session_def insert_payment_session_def session_of_def
      clear_index_def clear_attempts_channel_index_def Let_def)

lemma keep_index [simp]: "pay_kept R T G K (clear_index h p) = pay_kept R T G K p"
  by (simp add: pay_kept_def keys_of_def store_ok_def clear_index_def clear_attempts_channel_index_def)

lemma keep_payment_fail: "ctx_kept R T G K x \<Longrightarrow> ctx_kept R T G K (set_payment_fail_with_error E error code x)"
  by (cases x) (auto simp: ctx_kept_def set_payment_fail_with_error_def session_set_failed_def session_of_def Let_def intro!: keep_session(1))

lemma counted_same:
  "counted_since G a \<Longrightarrow> at_id a' = at_id a \<Longrightarrow> at_tried_times a' = at_tried_times a \<Longrightarrow> at_status a' = at_status a \<or> at_status a' \<noteq> AttRetrying \<Longrightarrow>
   at_last_updated_at a' = at_last_updated_at a \<or> at_status a' \<noteq> AttRetrying \<Longrightarrow> counted_since G a'"
  by (auto simp: counted_since_def retried_def split: if_splits option.splits)

lemma counted_more:
  "counted_since G a \<Longrightarrow> at_id a' = at_id a \<Longrightarrow> unat (at_tried_times a) < unat (at_tried_times a') \<Longrightarrow> counted_since G a'"
  by (auto simp: counted_since_def split: if_splits)

lemma keep_attempt_failed:
  "attempt_set_failed now error retryable a = Ok a' \<Longrightarrow> tries_bounded R T G a \<Longrightarrow> tries_bounded R T G a' \<and> row_key a' = row_key a"
  by (auto simp: attempt_set_failed_def tries_bounded_def Let_def row_key_def rust_arith word_less_nat_alt split: if_splits intro: counted_same counted_more)

lemma keep_failed_row:
  assumes "pay_kept R T G K p" and "tries_bounded R T G a" and "row_key a \<in> K" and "attempt_set_failed now error retryable a = Ok b" and "store_attempt b p = Ok p'"
  shows "pay_kept R T G K p'"
  using keep_row [OF assms(1) _ _ assms(5)] keep_attempt_failed [OF assms(4,2)] assms(3) by simp

lemma keep_attempt_fail:
  assumes "attempt_kept R T G K x"
  shows "attempt_kept R T G K (fst (set_attempt_fail_with_error E code error retryable x))"
proof -
  obtain p s a where x: "x = (p, s, a)" by (cases x)
  obtain p1 s1 where fail: "(if \<not> retryable \<and> \<not> list_ex (\<lambda>b. at_id b \<noteq> at_id a) (active_attempts s)
      then set_payment_fail_with_error E error code (p, s) else (p, s)) = (p1, s1)" by fastforce
  have ctx: "ctx_kept R T G K (p, s)" using assms by (simp add: x attempt_kept_def)
  then have "ctx_kept R T G K (p1, s1)" using fail keep_payment_fail [OF ctx, of E error code] by (auto split: if_splits)
  with assms show ?thesis unfolding x
    by (auto simp: set_attempt_fail_with_error_def Let_def fail attempt_kept_def ctx_kept_def keep_attempt_failed intro: keep_failed_row split: res.split)
qed

lemma keep_trampoline_check: "session_of R T s \<Longrightarrow> session_of R T (fst (check_trampoline_outgoing_tlc_expiry s hops))"
  by (simp add: check_trampoline_outgoing_tlc_expiry_def session_of_def split: option.split)

lemma keep_onion:
  assumes "attempt_kept R T G K x"
  shows "attempt_kept R T G K (fst (send_payment_onion_packet E x))"
proof -
  obtain p s a where x: "x = (p, s, a)" by (cases x)
  obtain s1 r where check: "check_trampoline_outgoing_tlc_expiry s (at_route_hops a) = (s1, r)" by fastforce
  have kept: "attempt_kept R T G K (p, s1, a)"
    using assms keep_trampoline_check [of R T s "at_route_hops a"] check by (simp add: x attempt_kept_def ctx_kept_def)
  then have p: "pay_kept R T G K p" and s1: "session_of R T s1" by (simp_all add: attempt_kept_def ctx_kept_def)
  have a: "tries_bounded R T G (a\<lparr>at_session_key := key\<rparr>)" "row_key (a\<lparr>at_session_key := key\<rparr>) \<in> K" for key
    using kept by (auto simp: attempt_kept_def tries_bounded_def row_key_def intro: counted_same)
  have same: "attempt_kept R T G K (p', s1, a\<lparr>at_session_key := key\<rparr>)" if "pay_kept R T G K p'" for p' key
    using that s1 a by (simp add: attempt_kept_def ctx_kept_def)
  have fails: "attempt_kept R T G K (fst (bind_st (set_attempt_fail_with_error E c e retry y) (\<lambda>x _. (x, r))))" if "attempt_kept R T G K y" for c e retry y and r :: "(unit, payment_error) res"
    using keep_attempt_fail [OF that] by (simp add: bind_st_keeps [of "attempt_kept R T G K"])
  show ?thesis unfolding x send_payment_onion_packet_def prod.case check Let_def
    by (rule bind_st_keeps [of "attempt_kept R T G K"])
      (use kept p in \<open>auto simp: keep_graph intro!: fails same intro: keep_row [OF p a] split: option.split res.split\<close>)
qed

lemma keep_send_attempt:
  assumes "attempt_kept R T G K x"
  shows "attempt_kept R T G K (fst (send_attempt E x))"
proof -
  obtain p s a r where sent: "send_payment_onion_packet E x = ((p, s, a), r)" by (metis prod.collapse)
  then have kept: "attempt_kept R T G K (p, s, a)" using keep_onion [OF assms, of E] by simp
  have fails: "attempt_kept R T G K (fst (bind_st (set_attempt_fail_with_error E None (pe_text E) False (p, s, a)) (\<lambda>x _. (x, r))))" for r :: "(unit, payment_error) res"
    using keep_attempt_fail [OF kept] by (simp add: bind_st_keeps [of "attempt_kept R T G K"])
  show ?thesis using kept fails by (cases r) (auto simp: send_attempt_def sent attempt_kept_def ctx_kept_def)
qed

lemma keep_reroute:
  assumes "attempt_kept R T G K x"
  shows "attempt_kept R T G K (fst (reroute_attempt E x))"
proof -
  obtain p s a where x: "x = (p, s, a)" by (cases x)
  have "attempt_kept R T G K (fst (let (s, r) = check_trampoline_outgoing_tlc_expiry s hops in
      bind_st ((p, s, a), bind_res r (\<lambda>_. update_route hops a)) (\<lambda>(p, s, _) a. ((p, s, a), Ok ()))))" for hops
  proof -
    obtain s1 r where check: "check_trampoline_outgoing_tlc_expiry s hops = (s1, r)" by fastforce
    have kept1: "attempt_kept R T G K (p, s1, a)"
      using assms keep_trampoline_check [of R T s hops] check by (simp add: x attempt_kept_def ctx_kept_def)
    have row: "attempt_kept R T G K (p, s1, a')" if "update_route hops a = Ok a'" for a'
      using kept1 that by (auto simp: update_route_def attempt_kept_def tries_bounded_def row_key_def split: if_splits intro: counted_same)
    show ?thesis unfolding check Let_def prod.case
      by (cases "bind_res r (\<lambda>_. update_route hops a)") (auto simp: kept1 row)
  qed
  then show ?thesis using assms unfolding x reroute_attempt_def prod.case
    by (cases "retry_route E (p, s, a)") simp_all
qed

lemma keep_resend: "attempt_kept R T G K x \<Longrightarrow> attempt_kept R T G K (fst (resend_payment_attempt E x))"
  unfolding resend_payment_attempt_def
  by (intro bind_st_keeps [where P = "attempt_kept R T G K"]) (auto intro: keep_reroute keep_send_attempt)

section \<open>The handlers keep it\<close>

lemma drop_attempt: "attempt_kept R T G K (p, s, a) \<Longrightarrow> ctx_kept R T G K (p, s)"
  by (simp add: attempt_kept_def)

lemma known_attempt:
  assumes "ctx_kept R T G K (p, s)" and "get_attempt (pa_store p) (sp_payment_hash R) i = Some a"
  shows "attempt_kept R T G K (p, s, a)"
proof -
  have "a \<in> set (st_attempts (pa_store p))" "row_key a = (sp_payment_hash R, i)" using get_attempt_Some [OF assms(2)] by simp_all
  then show ?thesis using assms(1) by (auto simp: attempt_kept_def ctx_kept_def pay_kept_def keys_of_def row_key_def)
qed

lemma keep_retry:
  assumes "ctx_kept R T G K x"
  shows "ctx_kept R T G K (fst (retry_payment_attempt E i x))"
proof -
  obtain p s where x: "x = (p, s)" by (cases x)
  show ?thesis
  proof (cases i)
    case None
    with assms show ?thesis by (simp add: x retry_payment_attempt_def)
  next
    case (Some j)
    let ?p = "p\<lparr>pa_attempts_with_retry_work := insert j (pa_attempts_with_retry_work p)\<rparr>"
    have ctx: "ctx_kept R T G K (?p, s)" and s: "se_request s = R" using assms by (simp_all add: x ctx_kept_def session_of_def)
    show ?thesis
    proof (cases "get_attempt (pa_store p) (sp_payment_hash R) j")
      case None
      with ctx s Some show ?thesis by (simp add: x retry_payment_attempt_def Let_def)
    next
      case (Some a)
      then have a: "attempt_kept R T G K (?p, s, a)" using known_attempt [OF ctx] by simp
      obtain p1 s1 a1 r1 where resend: "resend_payment_attempt E (?p, s, a) = ((p1, s1, a1), r1)" by (metis prod.collapse)
      have a1: "attempt_kept R T G K (p1, s1, a1)" using keep_resend [OF a, of E] resend by simp
      obtain p2 s2 a2 r2 where fail: "set_attempt_fail_with_error E None (pe_text E) False (p1, s1, a1) = ((p2, s2, a2), r2)" by (metis prod.collapse)
      have c2: "ctx_kept R T G K (p2, s2)" using keep_attempt_fail [OF a1, of E None "pe_text E" False] fail by (simp add: drop_attempt)
      obtain p3 s3 a3 r3 where send: "send_attempt E (?p, s, a) = ((p3, s3, a3), r3)" by (metis prod.collapse)
      have c3: "ctx_kept R T G K (p3, s3)" using keep_send_attempt [OF a, of E] send by (simp add: drop_attempt)
      have c1: "ctx_kept R T G K (p1, s1)" using a1 by (rule drop_attempt)
      have row: "ctx_kept R T G K (p', s1)" if "attempt_set_failed (ro_now E) (pe_text E) False a1 = Ok b" "store_attempt b p1 = Ok p'" for b p'
        using a1 keep_failed_row [OF _ _ _ that] by (auto simp: attempt_kept_def ctx_kept_def)
      show ?thesis using Some \<open>i = Some j\<close> s ctx c1 c2 c3 row
        by (cases r2) (auto simp: x retry_payment_attempt_def Let_def resend fail send split: res.split)
    qed
  qed
qed

lemma flush_keeps: "flush_attempts st s = Ok s' \<Longrightarrow> session_of R T s' = session_of R T s \<and> se_cached_attempts s' = get_attempts st (sp_payment_hash (se_request s))"
  by (auto simp: flush_attempts_def Let_def session_of_def)

lemma keep_load:
  assumes "pay_kept R T G K p" and "get_payment_session (pa_store p) (pa_payment_hash p) = Ok (Some s)"
  shows "ctx_kept R T G K (p, s)"
proof -
  obtain s0 where "st_sessions (pa_store p) (pa_payment_hash p) = Some s0" "flush_attempts (pa_store p) s0 = Ok s"
    using assms(2) by (auto simp: get_payment_session_def split: option.splits)
  with assms(1) flush_keeps [of "pa_store p" s0 s R T] show ?thesis by (auto simp: ctx_kept_def pay_kept_def)
qed

lemma keep_succeeded:
  assumes "attempt_kept R T G K (p, s, a)" and "attempt_succeeded preimage (p, s, a) = Ok (p', s', a')"
  shows "attempt_kept R T G K (p', s', a')"
proof -
  let ?a = "(attempt_set_success a)\<lparr>at_preimage := Some preimage\<rparr>"
  have eq: "s' = s" "a' = ?a" "store_attempt ?a p = Ok p'" using assms(2) by (auto simp: attempt_succeeded_def Let_def)
  have "tries_bounded R T G ?a" "row_key ?a = row_key a"
    using assms(1) by (auto simp: attempt_kept_def tries_bounded_def attempt_set_success_def row_key_def intro: counted_same)
  with assms(1) eq keep_row [OF _ _ _ eq(3)] show ?thesis by (simp add: attempt_kept_def ctx_kept_def)
qed

lemma keep_update: "update_with_attempt a s = Ok s' \<Longrightarrow> session_of R T s' = session_of R T s"
  by (auto simp: update_with_attempt_def Let_def session_of_def)

lemma keep_settle:
  assumes "attempt_kept R T G K (p, s, a)" and "settle_removed E reason le (p, s, a) = Ok (p', s', a')"
  shows "attempt_kept R T G K (p', s', a')"
proof (cases reason)
  case (RemoveTlcFulfill preimage)
  with assms(2) obtain p0 s0 where first: "attempt_succeeded preimage (p, s, a) = Ok (p0, s0, a')" and s': "update_with_attempt a' s0 = Ok s'"
    and p': "p' = save_session s' p0" by (auto simp: settle_removed_def)
  have "attempt_kept R T G K (p0, s0, a')" by (rule keep_succeeded [OF assms(1) first])
  then show ?thesis using keep_update [OF s', of R T] keep_session(2) [of R T G K p0 s'] by (simp add: attempt_kept_def ctx_kept_def p')
next
  case (RemoveTlcFail packet)
  with assms(2) obtain code retry where "set_attempt_fail_with_error E (Some code) (pe_text E) retry (p\<lparr>pa_last_error_packet := Some packet\<rparr>, s, a) = ((p', s', a'), Ok ())"
    by (auto simp: settle_removed_def Let_def split: prod.splits)
  then show ?thesis using assms(1) keep_attempt_fail [of R T G K "(p\<lparr>pa_last_error_packet := Some packet\<rparr>, s, a)" E "Some code" "pe_text E" retry]
    by (simp add: attempt_kept_def ctx_kept_def)
qed

lemma keep_finish:
  assumes "ctx_kept R T G K (p, s)"
  shows "pay_kept R T G K (fst (finish_completion E le c i retry (p, s, a)))"
  using assms keep_payment_fail [OF assms] by (auto simp: finish_completion_def Let_def ctx_kept_def split: option.split)

lemma keep_remove:
  assumes "pay_kept R T G K p" and "handle_remove_tlc_event E i reason le completion p = Ok (p', r)"
  shows "pay_kept R T G K p'"
proof -
  obtain s j a where s: "get_payment_session (pa_store p) (pa_payment_hash p) = Ok (Some s)" and i: "i = Some j"
    and a: "get_attempt (pa_store p) (pa_payment_hash p) j = Some a"
    using assms(2) by (cases i) (auto simp: handle_remove_tlc_event_def split: option.splits)
  have hash: "pa_payment_hash p = sp_payment_hash R" using assms(1) by (simp add: pay_kept_def)
  note ctx = keep_load [OF assms(1) s]
  have att: "attempt_kept R T G K (p, s, a)" using known_attempt [OF ctx, of j a] a hash by simp
  have settle: "pay_kept R T G K p1 \<and> session_of R T s1" if "settle_removed E reason le (p, s, a) = Ok (p1, s1, a1)" for p1 s1 a1
    using keep_settle [OF att that] by (simp add: attempt_kept_def ctx_kept_def)
  have finish: "pay_kept R T G K p2" if "finish_completion E le c i retry (p1, s1, a1) = (p2, r)" "pay_kept R T G K p1 \<and> session_of R T s1" for c retry p1 s1 a1 p2 r
    using keep_finish [of R T G K p1 s1 E le c i retry a1] that by (simp add: ctx_kept_def)
  have here: "pay_kept R T G K p \<and> session_of R T s" using ctx by (simp add: ctx_kept_def)
  have saved: "pay_kept R T G K (save_session s1 p)" if "update_with_attempt a s = Ok s1" for s1
    using keep_session(2) [of R T G K p s1] keep_update [OF that, of R T] here by simp
  show ?thesis
  proof (cases completion)
    case None
    with assms(2) s a settle show ?thesis by (auto simp: handle_remove_tlc_event_def i)
  next
    case (Some c)
    with assms(2) s a have "p' = p \<or> (\<exists>s1. update_with_attempt a s = Ok s1 \<and> p' = save_session s1 p) \<or> (\<exists>retry r. finish_completion E le c i retry (p, s, a) = (p', r)) \<or>
      (\<exists>p1 s1 a1 retry r. settle_removed E reason le (p, s, a) = Ok (p1, s1, a1) \<and> finish_completion E le c i retry (p1, s1, a1) = (p', r))"
      by (auto simp: handle_remove_tlc_event_def i split: if_splits)
    then show ?thesis using here saved settle finish by blast
  qed
qed

lemma keep_add_result:
  assumes "pay_kept R T G K p" and "handle_add_tlc_result_event E i result p = Ok p'"
  shows "pay_kept R T G K p'"
proof (cases "\<exists>s j a. get_payment_session (pa_store p) (pa_payment_hash p) = Ok (Some s) \<and> i = Some j \<and> get_attempt (pa_store p) (pa_payment_hash p) j = Some a")
  case True
  then obtain s j a where s: "get_payment_session (pa_store p) (pa_payment_hash p) = Ok (Some s)" and i: "i = Some j"
    and a: "get_attempt (pa_store p) (pa_payment_hash p) j = Some a" by blast
  have hash: "pa_payment_hash p = sp_payment_hash R" using assms(1) by (simp add: pay_kept_def)
  note ctx = keep_load [OF assms(1) s]
  have att: "attempt_kept R T G K (p, s, a)" using known_attempt [OF ctx, of j a] a hash by simp
  show ?thesis
  proof (cases result)
    case AddOk
    have "tries_bounded R T G (attempt_set_inflight a)" "row_key (attempt_set_inflight a) \<in> K"
      using att by (auto simp: attempt_kept_def tries_bounded_def attempt_set_inflight_def row_key_def intro: counted_same)
    with AddOk assms s a show ?thesis by (auto simp: handle_add_tlc_result_event_def i intro: keep_row)
  next
    case AddWaitingTlcAck
    with assms s a show ?thesis by (auto simp: handle_add_tlc_result_event_def i)
  next
    case (AddErr err)
    with assms(2) s a obtain p1 where graph: "update_graph_with_tlc_fail err p = Ok p1"
      and rest: "(case set_attempt_fail_with_error E (Some (te_code err)) (pe_text E) (record_attempt_fail E p1 a (te_code err)) (p1, s, a) of
        ((p, s, a), r) \<Rightarrow> bind_res r (\<lambda>_. Ok (if at_status a = AttRetrying then register_payment_retry (Some (at_id a)) p else p))) = Ok p'"
      by (auto simp: handle_add_tlc_result_event_def i)
    obtain p2 s2 a2 r2 where fail: "set_attempt_fail_with_error E (Some (te_code err)) (pe_text E) (record_attempt_fail E p1 a (te_code err)) (p1, s, a) = ((p2, s2, a2), r2)"
      by (metis prod.collapse)
    with rest have p': "p' = (if at_status a2 = AttRetrying then register_payment_retry (Some (at_id a2)) p2 else p2)" by auto
    have "attempt_kept R T G K (p1, s, a)" using att keep_graph [OF graph] by (simp add: attempt_kept_def ctx_kept_def)
    from keep_attempt_fail [OF this, of E "Some (te_code err)" "pe_text E" "record_attempt_fail E p1 a (te_code err)"] fail p'
    show ?thesis by (auto simp: attempt_kept_def ctx_kept_def)
  qed
next
  case False
  with assms show ?thesis by (cases i) (auto simp: handle_add_tlc_result_event_def split: option.splits)
qed

lemma keep_reconcile:
  assumes "pay_kept R T G K p" and "handle_reconcile_onchain_fulfill E i preimage p = Ok p'"
  shows "pay_kept R T G K p'"
proof -
  obtain s a where s: "get_payment_session (pa_store p) (pa_payment_hash p) = Ok (Some s)" and a: "get_attempt (pa_store p) (pa_payment_hash p) i = Some a"
    using assms(2) by (auto simp: handle_reconcile_onchain_fulfill_def Let_def split: option.splits)
  have hash: "pa_payment_hash p = sp_payment_hash R" using assms(1) by (simp add: pay_kept_def)
  note ctx = keep_load [OF assms(1) s]
  have att: "attempt_kept R T G K (p, s, a)" using known_attempt [OF ctx, of i a] a hash by simp
  from assms(2) s a obtain p1 s1 a1 s2 sent where wrote: "(if at_status a \<noteq> AttSuccess \<or> at_preimage a = None then attempt_succeeded preimage (p, s, a) else Ok (p, s, a)) = Ok (p1, s1, a1)"
    and s2: "update_with_attempt a1 s1 = Ok s2" and "success_amount s2 = Ok sent"
    and p': "p' = (if (at_status a \<noteq> AttSuccess \<or> at_preimage a = None) \<or> se_status (promote (ro_now E) sent s2) \<noteq> se_status s1 \<or>
        get_persisted_payment_status (pa_store p) (pa_payment_hash p) \<noteq> Some (se_status (promote (ro_now E) sent s2)) then save_session (promote (ro_now E) sent s2) p1 else p1)"
    by (auto simp: handle_reconcile_onchain_fulfill_def Let_def promote_def)
  have "attempt_kept R T G K (p1, s1, a1)" using wrote att keep_succeeded [OF att] by (auto split: if_splits)
  then have p1: "pay_kept R T G K p1" and s1: "session_of R T s1" by (simp_all add: attempt_kept_def ctx_kept_def)
  have "session_of R T (promote (ro_now E) sent s2)" using keep_update [OF s2, of R T] s1 by (simp add: promote_def session_of_def session_set_success_def)
  then show ?thesis using p' p1 keep_session(2) [OF p1] by simp
qed

lemma keep_closed_settle:
  assumes "pay_kept R T G K p"
  shows "pay_kept R T G K (fst (closed_add_settle i p))"
proof -
  have "pay_kept R T G K (save_session s p)" if "get_payment_session (pa_store p) (pa_payment_hash p) = Ok (Some s)" for s
    using keep_session(2) keep_load [OF assms that] by (simp add: ctx_kept_def)
  with assms show ?thesis
    by (cases "get_payment_session (pa_store p) (pa_payment_hash p)") (auto simp: closed_add_settle_def split: option.split)
qed

lemma keep_closed_report:
  assumes "pay_kept R T G K p" and "closed_add_report E n out_pt i a p = Ok p'"
  shows "pay_kept R T G K p'"
  using assms(2) keep_add_result [OF assms(1)] keep_graph assms(1) by (auto simp: closed_add_report_def Let_def split: if_splits)

lemma keep_closed_add:
  assumes "pay_kept R T G K p"
  shows "pay_kept R T G K (fst (complete_closed_local_add E n cid out_pt cmd p))"
proof -
  have report: "pay_kept R T G K p'" if "closed_add_report E n out_pt i a (p\<lparr>pa_processed_closed_adds := x\<rparr>) = Ok p'" for i a x p'
    using keep_closed_report [OF _ that] assms by simp
  show ?thesis unfolding complete_closed_local_add_def Let_def
  by (rule bind_st_keeps [where P = "pay_kept R T G K"])
    (auto simp: assms intro!: bind_st_keeps [where P = "pay_kept R T G K"] keep_closed_settle split: res.split, (erule report)+)
qed

section \<open>New attempts\<close>

lemma keep_new_attempt:
  "session_of R T s \<Longrightarrow> G i = None \<Longrightarrow> tries_bounded R T G (new_attempt now s i source target hops)"
  by (simp add: session_of_def tries_bounded_def new_attempt_def attempt_limit_def counted_since_def retried_def tries_of_def)

text \<open>The next identifiers are not those of a row the step started from.\<close>

definition unused_ids :: "send_payment_data \<Rightarrow> (u64 \<Rightarrow> attempt option) \<Rightarrow> build_state \<Rightarrow> bool" where
  "unused_ids R G b \<longleftrightarrow> \<not> sp_dry_run R \<and> (\<forall>i. bs_attempt_id b < i \<longrightarrow> G i = None)"

definition added_to :: "send_payment_data \<Rightarrow> u32 \<Rightarrow> (u64 \<Rightarrow> attempt option) \<Rightarrow> nat \<Rightarrow> build_state \<Rightarrow> build_state \<Rightarrow> bool" where
  "added_to R T G k b b' \<longleftrightarrow> (\<exists>added. bs_result b' = bs_result b @ added \<and> length added \<le> k \<and> list_all (tries_bounded R T G) added) \<and>
     bs_attempt_id b \<le> bs_attempt_id b'"

lemma keep_forwarding_fee: "session_of R T s \<Longrightarrow> session_of R T (fst (apply_trampoline_forwarding_fee E s hops max_fee))"
  by (auto simp: apply_trampoline_forwarding_fee_def session_of_def split: option.split res.split)

lemma push_route_adds:
  assumes "push_route E single s b hops = Ok (b', stop)" and "session_of R T s" and "unused_ids R G b"
  shows "added_to R T G 1 b b'"
proof -
  obtain nid where ids: "next_attempt_id s b = Ok (bs_attempt_id b', nid)"
    and res: "bs_result b' = bs_result b @ [new_attempt (ro_now E) s nid (ro_source E) (sp_target_pubkey (se_request s)) hops]"
    using assms(1) by (auto simp: push_route_def Let_def)
  have live: "\<not> sp_dry_run (se_request s)" using assms(2,3) by (simp add: session_of_def unused_ids_def)
  with ids have "bs_attempt_id b < bs_attempt_id b'" "nid = bs_attempt_id b'"
    by (auto simp: next_attempt_id_def rust_arith word_less_nat_alt)
  then show ?thesis using res keep_new_attempt [OF assms(2), of G nid] assms(3) by (simp add: added_to_def unused_ids_def)
qed

lemma unused_later: "unused_ids R G b \<Longrightarrow> added_to R T G k b b' \<Longrightarrow> unused_ids R G b'"
  by (auto simp: unused_ids_def added_to_def)

lemma build_one_adds:
  assumes "session_of R T s" and "build_one E single s b = (s', r)" and "unused_ids R G b"
  shows "session_of R T s'" and "r = Ok (b', stop) \<Longrightarrow> added_to R T G 1 b b'"
proof -
  have "session_of R T s' \<and> (\<forall>b' stop. r = Ok (b', stop) \<longrightarrow> added_to R T G 1 b b')"
  proof (cases "ro_route E (length (bs_result b)) (bs_target b) (Some 1) (bs_max_fee b)")
    case (Ok hops)
    let ?hops = "embed_trampoline_onion s hops"
    obtain s1 r1 where fee: "apply_trampoline_forwarding_fee E s ?hops (bs_max_fee b) = (s1, r1)" by fastforce
    have s1: "session_of R T s1" using keep_forwarding_fee [OF assms(1), of E ?hops "bs_max_fee b"] fee by simp
    obtain s2 r2 where check: "check_trampoline_outgoing_tlc_expiry s1 (embed_trampoline_onion s1 hops) = (s2, r2)" by fastforce
    have s2: "session_of R T s2" using keep_trampoline_check [OF s1, of "embed_trampoline_onion s1 hops"] check by simp
    have added: "added_to R T G 1 b b'" if "push_route E single s2 (b\<lparr>bs_max_fee := f\<rparr>) (embed_trampoline_onion s2 hops) = Ok (b', stop)" for f b' stop
      using push_route_adds [OF that s2, of G] assms(3) by (simp add: added_to_def unused_ids_def)
    show ?thesis
    proof (cases "\<not> (hops = [] \<or> pd_funding_tx_hash (hd hops) = 0)")
      case True
      then show ?thesis using assms(2) Ok fee check s1 s2 added assms(1)
        by (cases r1; cases r2) (auto simp: build_one_def)
    next
      case False
      then show ?thesis using assms(1,2) Ok by (auto simp: build_one_def)
    qed
  qed (use assms(1,2) in \<open>auto simp: build_one_def session_of_def split: if_splits\<close>)
  then show "session_of R T s'" and "r = Ok (b', stop) \<Longrightarrow> added_to R T G 1 b b'" by blast+
qed

lemma added_step: "added_to R T G 1 b b1 \<Longrightarrow> added_to R T G k b1 b2 \<Longrightarrow> added_to R T G (Suc k) b b2"
  unfolding added_to_def by (elim exE conjE) (rule conjI, rule_tac x = "added @ addeda" in exI, simp_all)

lemma build_loop_adds:
  assumes "session_of R T s" and "build_loop k E single s b = (s', r)" and "unused_ids R G b"
  shows "session_of R T s' \<and> (\<forall>b'. r = Ok b' \<longrightarrow> added_to R T G k b b')"
  using assms
proof (induction k arbitrary: s b)
  case 0
  then show ?case by (auto simp: added_to_def)
next
  case (Suc k)
  obtain s1 r1 where one: "build_one E single s b = (s1, r1)" by fastforce
  note s1 = build_one_adds(1) [OF Suc.prems(1) one Suc.prems(3)]
  show ?case
  proof (cases "bs_remain b = 0")
    case True
    with Suc.prems show ?thesis by (auto simp: added_to_def)
  next
    case False
    show ?thesis
    proof (cases r1)
      case (Ok x)
      obtain b1 stop where x: "x = (b1, stop)" by (cases x)
      note one' = build_one_adds(2) [OF Suc.prems(1) one Suc.prems(3), of b1 stop]
      show ?thesis
      proof (cases stop)
        case True
        then show ?thesis using Suc.prems False one Ok x s1 one' by (auto simp: added_to_def)
      next
        case stop: False
        then have "build_loop k E single s1 b1 = (s', r)" using Suc.prems(2) False one Ok x by simp
        from Suc.IH [OF s1 this] unused_later [OF Suc.prems(3)] added_step one' Ok x show ?thesis by blast
      qed
    qed (use Suc.prems False one s1 in auto)
  qed
qed

lemma build_routes_adds:
  assumes "session_of R T s" and "build_payment_routes E s = (s', r)" and "\<not> sp_dry_run R" and "\<And>i. G i \<noteq> None \<Longrightarrow> i \<in> at_id ` set (se_cached_attempts s)"
  shows "session_of R T s' \<and> (\<forall>new. r = Ok new \<longrightarrow> length new \<le> session_max_parts s \<and> list_all (tries_bounded R T G) new)"
proof (cases "build_start E s")
  case (Ok x)
  obtain single b where x: "x = (single, b)" by (cases x)
  have b: "bs_result b = []" "bs_attempt_id b = Max (insert 0 (set (map at_id (se_cached_attempts s))))" using Ok x by (auto simp: build_start_def)
  have "i \<le> bs_attempt_id b" if "G i \<noteq> None" for i using assms(4) [OF that] by (simp add: b(2))
  then have unused: "unused_ids R G b" using assms(3) by (force simp: unused_ids_def)
  obtain s1 r1 where loop: "build_loop (session_max_parts s - length (active_attempts s)) E single s b = (s1, r1)" by fastforce
  note added = build_loop_adds [OF assms(1) loop unused]
  have app: "session_of R T (fold append_attempt as s1) = session_of R T s1" for as
    by (induction as arbitrary: s1) (simp_all add: append_attempt_def session_of_def)
  show ?thesis using assms(1,2) Ok x loop added app b(1)
    by (cases r1) (auto simp: build_payment_routes_def added_to_def ensure_def split: if_splits)
qed (use assms(1,2) in \<open>auto simp: build_payment_routes_def\<close>)

section \<open>The bound\<close>

definition request_parts :: "send_payment_data \<Rightarrow> nat" where
  "request_parts R = (if data_allow_mpp R \<and> \<not> use_trampoline_routing R then unat (max_parts_of R) else 1)"

definition payment_rows :: "pay_actor \<Rightarrow> nat" where
  "payment_rows p = length (get_attempts (pa_store p) (pa_payment_hash p))"

definition own_keys :: "send_payment_data \<Rightarrow> (hash256 \<times> u64) set \<Rightarrow> (hash256 \<times> u64) set" where
  "own_keys R K = {k \<in> K. fst k = sp_payment_hash R}"

definition room :: "send_payment_data \<Rightarrow> u32 \<Rightarrow> (hash256 \<times> u64) set \<Rightarrow> bool" where
  "room R T K \<longleftrightarrow> finite K \<and> card (own_keys R K) + 1 \<le> unat T + request_parts R"

definition ctx_bounded :: "send_payment_data \<Rightarrow> u32 \<Rightarrow> (u64 \<Rightarrow> attempt option) \<Rightarrow> pay_ctx \<Rightarrow> bool" where
  "ctx_bounded R T G x \<longleftrightarrow> (\<exists>K. room R T K \<and> ctx_kept R T G K x)"

lemma payment_rows_card:
  assumes "pay_kept R T G K p"
  shows "payment_rows p = card (own_keys R (keys_of p))"
proof -
  have hash: "pa_payment_hash p = sp_payment_hash R" and "distinct (map row_key (st_attempts (pa_store p)))"
    using assms by (simp_all add: pay_kept_def store_ok_def)
  then have "distinct (map row_key (get_attempts (pa_store p) (pa_payment_hash p)))" by (simp add: get_attempts_def distinct_map_filter)
  then have "payment_rows p = card (row_key ` set (get_attempts (pa_store p) (pa_payment_hash p)))"
    by (metis distinct_card image_set length_map payment_rows_def)
  also have "row_key ` set (get_attempts (pa_store p) (pa_payment_hash p)) = own_keys R (keys_of p)"
    using hash by (auto simp: own_keys_def keys_of_def get_attempts_def row_key_def image_iff intro!: bexI)
  finally show ?thesis .
qed

lemma keys_kept: "pay_kept R T G K p \<Longrightarrow> pay_kept R T G (keys_of p) p"
  by (simp add: pay_kept_def)

lemma payment_rows_room:
  assumes "pay_kept R T G K p" and "room R T K"
  shows "payment_rows p + 1 \<le> unat T + request_parts R"
proof -
  have "own_keys R (keys_of p) \<subseteq> own_keys R K" using assms(1) by (auto simp: own_keys_def pay_kept_def)
  then have "card (own_keys R (keys_of p)) \<le> card (own_keys R K)" using assms(2) by (intro card_mono) (auto simp: room_def own_keys_def)
  with payment_rows_card [OF assms(1)] assms(2) show ?thesis by (simp add: room_def)
qed

lemma keep_need_more:
  assumes "ctx_kept R T G K x"
  shows "ctx_kept R T G K (fst (payment_need_more_retry E x))"
proof -
  obtain p s where x: "x = (p, s)" by (cases x)
  show ?thesis
  proof (cases "flush_attempts (pa_store p) s")
    case (Ok s')
    then have s': "ctx_kept R T G K (p, s')" using assms flush_keeps [OF Ok, of R T] by (simp add: x ctx_kept_def)
    show ?thesis using s' keep_payment_fail [OF s']
      by (cases "bind_res (allow_more_attempts s') (\<lambda>more. bind_res (remain_amount s') (\<lambda>remain. Ok (more, remain)))")
        (auto simp: x payment_need_more_retry_def Ok)
  qed (use assms in \<open>simp_all add: x payment_need_more_retry_def\<close>)
qed

lemma length_le_sum: "(\<And>a. a \<in> set as \<Longrightarrow> (1::nat) \<le> f a) \<Longrightarrow> length as \<le> (\<Sum>a\<leftarrow>as. f a)"
proof (induction as)
  case (Cons a as)
  then have "1 \<le> f a" "length as \<le> (\<Sum>a\<leftarrow>as. f a)" by auto
  then show ?case by simp
qed simp

lemma need_more_rows:
  assumes "ctx_kept R T G K x" and "payment_need_more_retry E x = ((p, s), Ok True)"
  shows "payment_rows p < unat T" and "se_cached_attempts s = get_attempts (pa_store p) (pa_payment_hash p)"
proof -
  obtain p0 s0 where x: "x = (p0, s0)" by (cases x)
  from assms(2) obtain s' where flush: "flush_attempts (pa_store p0) s0 = Ok s'" and more: "allow_more_attempts s' = Ok True" and eq: "p = p0" "s = s'"
    by (auto simp: x payment_need_more_retry_def split: res.splits if_splits)
  from more obtain tries where tries: "retry_times s' = Ok tries" "tries < se_try_limit s'"
    by (auto simp: allow_more_attempts_def not_le split: if_splits)
  have s0: "session_of R T s0" "pay_kept R T G K p" using assms(1) by (simp_all add: x eq ctx_kept_def)
  have T: "se_try_limit s' = T" and cached: "se_cached_attempts s' = get_attempts (pa_store p) (pa_payment_hash p)"
    using flush_keeps [OF flush, of R T] s0 by (simp_all add: session_of_def pay_kept_def eq)
  have "1 \<le> unat (at_tried_times a)" if "a \<in> set (get_attempts (pa_store p) (pa_payment_hash p))" for a
    using s0(2) that by (auto simp: pay_kept_def get_attempts_def tries_bounded_def)
  then have "payment_rows p \<le> (\<Sum>a\<leftarrow>get_attempts (pa_store p) (pa_payment_hash p). unat (at_tried_times a))"
    unfolding payment_rows_def by (rule length_le_sum)
  also have "\<dots> = unat tries" using tries(1) by (simp add: retry_times_def sum_words_Ok cached comp_def)
  finally show "payment_rows p < unat T" using tries(2) T by (simp add: word_less_nat_alt)
  show "se_cached_attempts s = get_attempts (pa_store p) (pa_payment_hash p)" by (simp add: cached eq(2))
qed

lemma keep_send_all:
  assumes "ctx_kept R T G K x" and "list_all (tries_bounded R T G) as" and "row_key ` set as \<subseteq> K"
  shows "ctx_kept R T G K (fst (send_all E as x))"
  using assms
proof (induction as arbitrary: x)
  case Nil
  then show ?case by simp
next
  case (Cons a as)
  obtain p s where x: "x = (p, s)" by (cases x)
  obtain p1 s1 a1 r where send: "send_attempt E (p, s, a) = ((p1, s1, a1), r)" by (metis prod.collapse)
  have "attempt_kept R T G K (p, s, a)" using Cons.prems by (simp add: x attempt_kept_def)
  from keep_send_attempt [OF this, of E] send have "ctx_kept R T G K (p1, s1)" by (simp add: drop_attempt)
  with Cons.IH [of "(p1, s1)"] Cons.prems show ?case by (cases r) (simp_all add: x send)
qed

lemma keep_send_new:
  assumes "ctx_kept R T G K (p, s)" and "payment_rows p < unat T" and "finite K" and "se_cached_attempts s = get_attempts (pa_store p) (pa_payment_hash p)"
  shows "ctx_bounded R T G (fst (send_new_attempts E (p, s)))"
proof -
  have keys: "finite (keys_of p)" by (simp add: keys_of_def)
  have ctx: "ctx_kept R T G (keys_of p) (p, s)" using assms(1) keys_kept by (auto simp: ctx_kept_def)
  have s: "session_of R T s" and p: "pay_kept R T G K p" using assms(1) by (simp_all add: ctx_kept_def)
  have rows: "card (own_keys R (keys_of p)) < unat T" using payment_rows_card [OF p] assms(2) by simp
  obtain s1 r where build: "build_payment_routes (route_env.truncate E) s = (s1, r)" by fastforce
  have "i \<in> at_id ` set (se_cached_attempts s)" if "G i \<noteq> None" for i
  proof -
    have "(sp_payment_hash R, i) \<in> keys_of p" "pa_payment_hash p = sp_payment_hash R" using p that by (auto simp: pay_kept_def)
    then show ?thesis by (auto simp: keys_of_def row_key_def assms(4) get_attempts_def)
  qed
  then have gone: "i \<in> at_id ` set (se_cached_attempts s)" if "G i \<noteq> None" for i using that by blast
  have live: "\<not> sp_dry_run R" using p by (simp add: pay_kept_def)
  have added: "session_of R T s1 \<and> (\<forall>new. r = Ok new \<longrightarrow> length new \<le> session_max_parts s \<and> list_all (tries_bounded R T G) new)"
    by (rule build_routes_adds [OF s build live gone])
  have ctx1: "ctx_kept R T G (keys_of p) (p, s1)" using ctx added by (simp add: ctx_kept_def)
  have parts: "session_max_parts s = request_parts R" using s by (simp add: session_of_def session_max_parts_def request_parts_def)
  have room0: "room R T (keys_of p)" using rows keys by (auto simp: room_def request_parts_def data_allow_mpp_def word_less_nat_alt)
  show ?thesis
  proof (cases r)
    case (Ok new)
    define K' where "K' = keys_of p \<union> row_key ` set new"
    have new: "list_all (tries_bounded R T G) new" "length new \<le> request_parts R" using added Ok parts by simp_all
    have "card (own_keys R K') \<le> card (own_keys R (keys_of p) \<union> row_key ` set new)"
      by (rule card_mono) (auto simp: K'_def own_keys_def keys)
    also have "\<dots> \<le> card (own_keys R (keys_of p)) + length new"
      using card_Un_le [of "own_keys R (keys_of p)" "row_key ` set new"] card_image_le [of "set new" row_key] card_length [of new] by simp
    finally have room: "room R T K'" using rows new(2) keys by (simp add: room_def K'_def)
    have ctx2: "ctx_kept R T G K' (p, s1)" using ctx1 by (auto simp: ctx_kept_def pay_kept_def K'_def)
    have sent: "ctx_kept R T G K' (fst (send_all E new (p, s1)))" by (rule keep_send_all [OF ctx2 new(1)]) (simp add: K'_def)
    have tail: "ctx_kept R T G K' (fst (case payment_need_more_retry E x of
          ((p, s), Ok True) \<Rightarrow> ((register_payment_retry None p, s), Ok ())
        | (x, Panic) \<Rightarrow> (x, Panic)
        | (x, _) \<Rightarrow> (x, Ok () :: (unit, payment_error) res)))" if "ctx_kept R T G K' x" for x
      using keep_need_more [OF that, of E] by (auto simp: ctx_kept_def split: prod.split res.split bool.split)
    have "ctx_kept R T G K' (fst (send_new_attempts E (p, s)))"
      unfolding send_new_attempts_def prod.case build Ok res.case
      by (rule bind_st_keeps [where P = "ctx_kept R T G K'"]) (auto intro: sent tail)
    with room show ?thesis by (auto simp: ctx_bounded_def)
  qed (use ctx1 room0 keep_payment_fail [OF ctx1] in \<open>auto simp: send_new_attempts_def build ctx_bounded_def\<close>)
qed

lemma resume_bounded:
  assumes "pay_kept R T G K p" and "room R T K"
  shows "\<exists>K'. room R T K' \<and> pay_kept R T G K' (fst (resume_payment_session E i p))"
proof (cases "get_payment_session (pa_store p) (pa_payment_hash p)")
  case (Ok session)
  show ?thesis
  proof (cases session)
    case (Some s)
    have ctx: "ctx_kept R T G K (p, s)" using keep_load [OF assms(1)] Ok Some by simp
    have fin: "finite K" using assms(2) by (simp add: room_def)
    obtain x1 r1 where retry: "retry_payment_attempt E i (p, s) = (x1, r1)" by fastforce
    have x1: "ctx_kept R T G K x1" using keep_retry [OF ctx, of E i] retry by simp
    obtain p2 s2 r2 where need: "payment_need_more_retry E x1 = ((p2, s2), r2)" by (metis prod.collapse)
    have x2: "ctx_kept R T G K (p2, s2)" using keep_need_more [OF x1, of E] need by simp
    have "ctx_bounded R T G x1" "ctx_bounded R T G (p2, s2)" using x1 x2 assms(2) by (auto simp: ctx_bounded_def)
    moreover have "ctx_bounded R T G (fst (send_new_attempts E (p2, s2)))" if "r2 = Ok True"
      using keep_send_new [OF x2 need_more_rows(1) [OF x1 need [unfolded that]] fin need_more_rows(2) [OF x1 need [unfolded that]]] .
    ultimately have "ctx_bounded R T G (fst (resume_active_session E i (p, s)))"
      by (cases r1; cases r2) (auto simp: resume_active_session_def retry need)
    then show ?thesis using Ok Some assms
      by (auto simp: resume_payment_session_def ctx_bounded_def ctx_kept_def split: prod.split)
  qed (use Ok assms in \<open>auto simp: resume_payment_session_def\<close>)
qed (use assms in \<open>auto simp: resume_payment_session_def\<close>)

text \<open>The events a payment actor handles once its session is stored.\<close>

inductive pay_step :: "pay_actor \<Rightarrow> pay_actor \<Rightarrow> bool" where
  resume: "resume_payment_session E i p = (p', r) \<Longrightarrow> pay_step p p'"
| add_result: "handle_add_tlc_result_event E i result p = Ok p' \<Longrightarrow> pay_step p p'"
| remove: "handle_remove_tlc_event E i reason le completion p = Ok (p', r) \<Longrightarrow> pay_step p p'"
| reconcile: "handle_reconcile_onchain_fulfill E i preimage p = Ok p' \<Longrightarrow> pay_step p p'"
| closed_add: "complete_closed_local_add E n cid out_pt cmd p = (p', r) \<Longrightarrow> pay_step p p'"

lemma pay_step_bounded:
  assumes "pay_step p p'" and "\<exists>K. room R T K \<and> pay_kept R T G K p"
  shows "\<exists>K. room R T K \<and> pay_kept R T G K p'"
  using assms
proof cases
  case (resume E i r)
  with assms(2) resume_bounded [of R T G _ p E i] show ?thesis by auto
next
  case (closed_add E n cid out_pt cmd r)
  with assms(2) keep_closed_add [of R T G _ p E n cid out_pt cmd] show ?thesis by fastforce
next
  case (add_result E i result)
  with assms(2) show ?thesis by (blast intro: keep_add_result)
next
  case (remove E i reason le completion r)
  with assms(2) show ?thesis by (blast intro: keep_remove)
next
  case (reconcile E i preimage)
  with assms(2) show ?thesis by (blast intro: keep_reconcile)
qed

section \<open>Counting the tries of a run\<close>

definition own_row :: "pay_actor \<Rightarrow> u64 \<Rightarrow> attempt option" where
  "own_row p i = get_attempt (pa_store p) (pa_payment_hash p) i"

definition another_try :: "u64 \<Rightarrow> pay_actor \<Rightarrow> pay_actor \<Rightarrow> bool" where
  "another_try i p p' = (case own_row p' i of None \<Rightarrow> False | Some a \<Rightarrow> retried (own_row p i) a)"

text \<open>How often an attempt is put back for another try along a sequence of states.\<close>

fun tries_in :: "u64 \<Rightarrow> pay_actor list \<Rightarrow> nat" where
  "tries_in i (p # p' # ps) = (if another_try i p p' then 1 else 0) + tries_in i (p' # ps)"
| "tries_in i _ = 0"

definition pay_bounded :: "send_payment_data \<Rightarrow> u32 \<Rightarrow> pay_actor \<Rightarrow> bool" where
  "pay_bounded R T p \<longleftrightarrow> (\<exists>K. room R T K \<and> pay_kept R T (own_row p) K p)"

lemma own_row_Some: "own_row p i = Some a \<Longrightarrow> a \<in> set (st_attempts (pa_store p)) \<and> at_payment_hash a = pa_payment_hash p \<and> at_id a = i"
  unfolding own_row_def by (drule get_attempt_Some) (simp add: row_key_def)

lemma own_row_tries: "pay_kept R T G K p \<Longrightarrow> own_row p i = Some a \<Longrightarrow> tries_bounded R T G a"
  using own_row_Some by (auto simp: pay_kept_def)

lemma own_row_unique:
  assumes "pay_kept R T G K p" and "a \<in> set (st_attempts (pa_store p))" and "at_payment_hash a = sp_payment_hash R"
  shows "own_row p (at_id a) = Some a"
proof -
  have dist: "distinct (map row_key (st_attempts (pa_store p)))" and hash: "pa_payment_hash p = sp_payment_hash R"
    using assms(1) by (simp_all add: pay_kept_def store_ok_def)
  obtain b where b: "own_row p (at_id a) = Some b" using assms(2,3) hash
    by (cases "own_row p (at_id a)") (auto simp: own_row_def get_attempt_def find_None_iff)
  then have "row_key b = row_key a" using own_row_Some [OF b] assms(3) hash by (simp add: row_key_def)
  then show ?thesis using b own_row_Some [OF b] assms(2) dist by (metis distinct_map inj_onD)
qed

lemma rebase: "pay_kept R T G K p \<Longrightarrow> pay_kept R T (own_row p) K p"
proof -
  assume kept: "pay_kept R T G K p"
  have "tries_bounded R T (own_row p) a" if "a \<in> set (st_attempts (pa_store p))" "at_payment_hash a = sp_payment_hash R" for a
    using kept that own_row_unique [OF kept that] by (auto simp: pay_kept_def tries_bounded_def counted_since_def retried_def tries_of_def)
  moreover have "(sp_payment_hash R, i) \<in> keys_of p" if "own_row p i \<noteq> None" for i
  proof -
    from that obtain a where "own_row p i = Some a" by (cases "own_row p i") simp_all
    then have "a \<in> set (st_attempts (pa_store p))" "row_key a = (sp_payment_hash R, i)"
      using kept own_row_Some [of p i a] by (simp_all add: pay_kept_def row_key_def)
    then show ?thesis unfolding keys_of_def by (metis imageI)
  qed
  ultimately show ?thesis using kept by (simp add: pay_kept_def)
qed

lemma step_counts:
  assumes "pay_step p p'" and "pay_bounded R T p"
  shows "pay_bounded R T p'" and "tries_of (own_row p i) + (if another_try i p p' then 1 else 0) \<le> tries_of (own_row p' i)"
proof -
  from assms(2) have "\<exists>K. room R T K \<and> pay_kept R T (own_row p) K p" by (simp add: pay_bounded_def)
  from pay_step_bounded [OF assms(1) this] obtain K where K: "room R T K" "pay_kept R T (own_row p) K p'" by blast
  then show "pay_bounded R T p'" using rebase by (auto simp: pay_bounded_def)
  show "tries_of (own_row p i) + (if another_try i p p' then 1 else 0) \<le> tries_of (own_row p' i)"
  proof (cases "own_row p' i")
    case None
    have "own_row p i = None"
    proof (rule ccontr)
      assume "own_row p i \<noteq> None"
      then have "(sp_payment_hash R, i) \<in> keys_of p'" "pa_payment_hash p' = sp_payment_hash R" using K(2) by (auto simp: pay_kept_def)
      then show False using None by (auto simp: own_row_def get_attempt_def find_None_iff keys_of_def row_key_def)
    qed
    with None show ?thesis by (simp add: another_try_def)
  next
    case (Some a)
    then show ?thesis using own_row_tries [OF K(2) Some] own_row_Some [OF Some]
      by (simp add: another_try_def tries_bounded_def counted_since_def tries_of_def)
  qed
qed

lemma run_counts:
  assumes "successively pay_step (p # ps)" and "pay_bounded R T p"
  shows "pay_bounded R T (last (p # ps)) \<and> tries_in i (p # ps) + tries_of (own_row p i) \<le> tries_of (own_row (last (p # ps)) i)"
  using assms
proof (induction ps arbitrary: p)
  case (Cons p' ps)
  have one: "pay_step p p'" and rest: "successively pay_step (p' # ps)" using Cons.prems(1) by simp_all
  note step = step_counts(1) [OF one Cons.prems(2)] step_counts(2) [OF one Cons.prems(2), of i]
  have "pay_bounded R T (last (p' # ps)) \<and> tries_in i (p' # ps) + tries_of (own_row p' i) \<le> tries_of (own_row (last (p' # ps)) i)"
    by (rule Cons.IH [OF rest step(1)])
  then show ?case using step(2) by simp
qed simp

lemma tries_of_limit: "pay_bounded R T p \<Longrightarrow> tries_of (own_row p i) \<le> unat (attempt_limit R T) + 1"
  by (cases "own_row p i") (auto simp: pay_bounded_def tries_of_def tries_bounded_def dest: own_row_tries)

lemma start_bounded:
  assumes "store_ok (pa_store p)" and "st_sessions (pa_store p) (pa_payment_hash p) = Some s" and "get_attempts (pa_store p) (pa_payment_hash p) = []"
  shows "pay_bounded (se_request s) (se_try_limit s) p" and "own_row p i = None" and "sp_payment_hash (se_request s) = pa_payment_hash p"
proof -
  let ?R = "se_request s" and ?T = "se_try_limit s"
  show hash: "sp_payment_hash ?R = pa_payment_hash p" using assms(1,2) by (auto simp: store_ok_def)
  have live: "\<not> sp_dry_run ?R" using assms(1,2) by (auto simp: store_ok_def)
  have none: "at_payment_hash a \<noteq> pa_payment_hash p" if "a \<in> set (st_attempts (pa_store p))" for a
    using assms(3) that by (auto simp: get_attempts_def filter_empty_conv)
  then show rows: "own_row p i = None" for i by (auto simp: own_row_def get_attempt_def find_None_iff)
  have "own_keys ?R (keys_of p) = {}" using none by (auto simp: own_keys_def keys_of_def row_key_def hash)
  moreover have "1 \<le> request_parts ?R" by (auto simp: request_parts_def data_allow_mpp_def word_less_nat_alt)
  ultimately have "room ?R ?T (keys_of p)" by (simp add: room_def keys_of_def)
  moreover have "pay_kept ?R ?T (own_row p) (keys_of p) p" using assms(1,2) none hash live rows by (auto simp: pay_kept_def session_of_def)
  ultimately show "pay_bounded ?R ?T p" by (auto simp: pay_bounded_def)
qed

text \<open>C17. A payment gives up. However the network answers and in whatever order events arrive, along every run of a payment that starts with no attempts,
  each attempt is put back for another try at most as often as its limit says (the session's try limit, or the limit of a part when several parts
  are allowed), and the payment never has as many attempts as its try limit plus the parts it may use. The counter of every stored attempt stays
  within its limit plus one.
\<close>
theorem payment_gives_up:
  assumes "successively pay_step (p # ps)" and "store_ok (pa_store p)" and "st_sessions (pa_store p) (pa_payment_hash p) = Some s"
    and "get_attempts (pa_store p) (pa_payment_hash p) = []" and "p' = last (p # ps)"
  shows "tries_in i (p # ps) \<le> unat (if data_allow_mpp (se_request s) then DEFAULT_PAYMENT_MPP_ATTEMPT_TRY_LIMIT else se_try_limit s) \<and>
    length (get_attempts (pa_store p') (pa_payment_hash p)) < unat (se_try_limit s) + session_max_parts s \<and>
    (\<forall>a\<in>set (get_attempts (pa_store p') (pa_payment_hash p)). unat (at_tried_times a) \<le> unat (at_try_limit a) + 1 \<and>
       at_try_limit a = (if data_allow_mpp (se_request s) then DEFAULT_PAYMENT_MPP_ATTEMPT_TRY_LIMIT else se_try_limit s))"
proof -
  let ?R = "se_request s" and ?T = "se_try_limit s"
  note start = start_bounded [OF assms(2-4)]
  note run = run_counts [OF assms(1) start(1), folded assms(5)]
  then obtain K where K: "room ?R ?T K" "pay_kept ?R ?T (own_row p') K p'" by (auto simp: pay_bounded_def)
  have tries: "tries_in i (p # ps) + 1 \<le> unat (attempt_limit ?R ?T) + 1"
    using run [of i] tries_of_limit [of ?R ?T p' i] start(2) [of i] by (simp add: tries_of_def)
  have hash': "pa_payment_hash p' = pa_payment_hash p" using K(2) start(3) by (simp add: pay_kept_def)
  have parts: "session_max_parts s = request_parts ?R" by (simp add: session_max_parts_def request_parts_def)
  have "tries_bounded ?R ?T (own_row p') a" if "a \<in> set (get_attempts (pa_store p') (pa_payment_hash p))" for a
    using K(2) that start(3) by (auto simp: pay_kept_def get_attempts_def)
  then show ?thesis using tries payment_rows_room [OF K(2,1)] hash' parts
    by (auto simp: payment_rows_def tries_bounded_def attempt_limit_def)
qed

definition fresh_actor :: pay_actor where
  "fresh_actor = sample_actor\<lparr>pa_store := (pa_store sample_actor)\<lparr>st_attempts := []\<rparr>\<rparr>"

theorem payment_gives_up_witness:
  "length (get_attempts (pa_store (fst (resume_payment_session sample_pay_env None fresh_actor))) 7) < 16 \<and>
   tries_in 1 [fresh_actor, fst (resume_payment_session sample_pay_env None fresh_actor)] \<le> 3"
proof -
  let ?p' = "fst (resume_payment_session sample_pay_env None fresh_actor)"
  have "pay_step fresh_actor ?p'" by (rule pay_step.resume, rule prod.collapse [symmetric])
  then have run: "successively pay_step [fresh_actor, ?p']" by simp
  have start: "store_ok (pa_store fresh_actor)" "st_sessions (pa_store fresh_actor) (pa_payment_hash fresh_actor) = Some sample_session"
    "get_attempts (pa_store fresh_actor) (pa_payment_hash fresh_actor) = []"
    by (simp_all add: fresh_actor_def store_ok_def get_attempts_def)
  note up = payment_gives_up [OF run start HOL.refl, of 1]
  have hash: "pa_payment_hash fresh_actor = 7" by (simp add: fresh_actor_def)
  have "session_max_parts sample_session = 4" by simp
  then have "unat (se_try_limit sample_session) + session_max_parts sample_session = 16" by (simp add: sample_session_def)
  moreover have "data_allow_mpp (se_request sample_session)" by (simp add: sample_session_def sample_request_def data_allow_mpp_def max_parts_of_def unwrap_or_def)
  ultimately show ?thesis using up by (simp only: hash if_True DEFAULT_PAYMENT_MPP_ATTEMPT_TRY_LIMIT_def last.simps) simp
qed

section \<open>Sending a failed payment again\<close>

text \<open>
  A failed session may be sent again as soon as none of its attempts is in flight. An attempt that was created and whose TLC still waits in a
  channel's queue counts as finished by that test: its row is deleted, the new session starts with the full amount missing and numbers
  its attempts from one again, while the channel still owns the forgotten attempt and will offer its TLC.
\<close>
lemma resend_forgets_queued_part:
  assumes "store_ok (pa_store p)" and "sp_payment_hash d = pa_payment_hash p" and "\<not> sp_dry_run d" and "\<not> data_allow_mpp d"
    and "get_payment_session (pa_store p) (pa_payment_hash p) = Ok (Some s)" and "se_status s = PayFailed"
    and "get_attempts (pa_store p) (pa_payment_hash p) = [a]" and "at_status a = AttCreated" and "channel_owns_attempt (pa_store p) a"
  obtains p' s' where "send_payment_with_payment_data E d p = bind_st (resume_payment_session E None p') (\<lambda>p _. (p, flush_attempts (pa_store p) s'))"
    "get_payment_session (pa_store p') (pa_payment_hash p) = Ok (Some s')" "se_cached_attempts s' = []" "remain_amount s' = Ok (sp_amount d)"
    "channel_owns_attempt (pa_store p') a"
proof -
  let ?h = "pa_payment_hash p"
  have cached: "se_cached_attempts s = [a]" using load_session(1) [OF assms(1,5)] assms(7) by simp
  define q where "q = p\<lparr>pa_store := delete_unsettled_attempts ?h (pa_store p)\<rparr>"
  have none: "get_attempts (pa_store q) ?h = []"
  proof -
    have "get_attempts (pa_store q) ?h = filter (\<lambda>a. at_status a = AttSuccess) (get_attempts (pa_store p) ?h)"
      by (auto simp: get_attempts_def q_def delete_unsettled_attempts_def Let_def intro!: filter_cong)
    with assms(7,8) show ?thesis by simp
  qed
  define s' where "s' = \<lparr>se_request = d, se_last_error = None, se_last_error_code = None, se_try_limit = DEFAULT_PAYMENT_TRY_LIMIT, se_status = PayCreated,
       se_created_at = ro_now E, se_last_updated_at = ro_now E, se_cached_attempts = []\<rparr>"
  have new: "new_session (ro_now E) (pa_store q) d DEFAULT_PAYMENT_TRY_LIMIT = Ok s'"
    using none by (simp add: new_session_def flush_attempts_def Let_def calc_payment_status_def s'_def assms(2))
  show thesis
  proof (rule that [of "store_session s' q" s'])
    show "send_payment_with_payment_data E d p = bind_st (resume_payment_session E None (store_session s' q)) (\<lambda>p _. (p, flush_attempts (pa_store p) s'))"
      using assms(2-6,8) cached new by (simp add: send_payment_with_payment_data_def q_def) (simp add: s'_def)
    show "get_payment_session (pa_store (store_session s' q)) ?h = Ok (Some s')"
      using none assms(2) by (simp add: get_payment_session_def store_session_def insert_payment_session_def s'_def flush_attempts_def Let_def
          calc_payment_status_def get_attempts_def)
    show "channel_owns_attempt (pa_store (store_session s' q)) a"
      using assms(9) by (simp add: channel_owns_attempt_def store_session_def insert_payment_session_def q_def delete_unsettled_attempts_def Let_def cong: option.case_cong)
  qed (simp_all add: s'_def remain_amount_def active_attempts_def sum_words_def saturating_sub_def)
qed

end
