(* ===== verification/Cch_Order.thy ===== *)
theory Cch_Order
  imports Payment_Session
begin

text \<open>
  Orders of the cross-chain hub (\<^verbatim>\<open>fiber-types/src/cch.rs\<close>, \<^verbatim>\<open>fiber-lib/src/cch/order\<close>, \<^verbatim>\<open>cch/actions\<close>, \<^verbatim>\<open>cch/scheduler.rs\<close>):
  an order couples an incoming payment on one network to an outgoing payment of the same hash on the other. Lightning
  invoices (\<^verbatim>\<open>lightning-invoice\<close>) enter as what their accessors return; parsing, clocks and the answers of LND are arguments.
\<close>

section \<open>Orders\<close>

datatype ln_currency = LnBitcoin | LnBitcoinTestnet | LnRegtest | LnSimnet | LnSignet

record bolt11 =
  bt_payment_hash :: hash256
  bt_currency :: ln_currency
  bt_amount_msat :: "u64 option"
  bt_min_final_cltv :: u64
  bt_created_at :: u64
  bt_expires_at :: "u64 option"

datatype cch_order_status = CchPending | CchIncomingAccepted | CchOutgoingInFlight | CchOutgoingSuccess | CchSuccess | CchFailed

fun status_of_invoice :: "ckb_invoice_status \<Rightarrow> cch_order_status" where
  "status_of_invoice InvOpen = CchPending"
| "status_of_invoice InvCancelled = CchFailed"
| "status_of_invoice InvExpired = CchFailed"
| "status_of_invoice InvReceived = CchIncomingAccepted"
| "status_of_invoice InvPaid = CchSuccess"

fun status_of_payment :: "payment_status \<Rightarrow> cch_order_status" where
  "status_of_payment PayCreated = CchIncomingAccepted"
| "status_of_payment PayInflight = CchOutgoingInFlight"
| "status_of_payment PaySuccess = CchOutgoingSuccess"
| "status_of_payment PayFailed = CchFailed"

datatype cch_invoice = CchFiber ckb_invoice | CchLightning bolt11

record cch_order =
  co_created_at :: u64
  co_expiry_delta_seconds :: u64
  co_wrapped_btc_type_script :: script
  co_outgoing_pay_req :: bytes
  co_incoming_invoice :: cch_invoice
  co_payment_hash :: hash256
  co_payment_preimage :: "hash256 option"
  co_amount_sats :: u128
  co_fee_sats :: u128
  co_status :: cch_order_status
  co_failure_reason :: "string option"

definition div_ceil :: "'w::len word \<Rightarrow> 'w word \<Rightarrow> 'w word" where
  "div_ceil a b = (if a mod b > 0 then a div b + 1 else a div b)"

definition required_incoming_amount_sats :: "cch_order \<Rightarrow> u128" where
  "required_incoming_amount_sats order =
     unwrap_or (case co_incoming_invoice order of
         CchFiber invoice \<Rightarrow> iv_amount invoice
       | CchLightning invoice \<Rightarrow> map_option (\<lambda>msat. div_ceil (ucast msat) 1000) (bt_amount_msat invoice)) (co_amount_sats order)"

definition normalize_amount_sats :: "cch_order \<Rightarrow> cch_order" where
  "normalize_amount_sats order = order\<lparr>co_amount_sats := required_incoming_amount_sats order\<rparr>"

definition order_final :: "cch_order \<Rightarrow> bool" where
  "order_final order \<longleftrightarrow> co_status order = CchSuccess \<or> co_status order = CchFailed"

definition update_if_expired_with_reason :: "u64 \<Rightarrow> string \<Rightarrow> cch_order \<Rightarrow> cch_order \<times> bool" where
  "update_if_expired_with_reason current_time reason order =
     (if co_status order \<noteq> CchPending then (order, False)
      else case checked_add (co_created_at order) (co_expiry_delta_seconds order) of
          None \<Rightarrow> (order\<lparr>co_status := CchFailed, co_failure_reason := Some ''Order expiry time overflows''\<rparr>, True)
        | Some deadline \<Rightarrow>
            if deadline \<le> current_time then (order\<lparr>co_status := CchFailed, co_failure_reason := Some reason\<rparr>, True) else (order, False))"

definition update_if_expired :: "u64 \<Rightarrow> cch_order \<Rightarrow> cch_order \<times> bool" where
  "update_if_expired current_time order = update_if_expired_with_reason current_time ''Order expired on startup'' order"

section \<open>The state machine\<close>

datatype cch_error =
    InvalidTransition cch_order_status cch_order_status
  | SettledPaymentMissingPreimage
  | PreimageHashMismatch
  | StoreDuplicated hash256
  | StoreNotFound hash256
  | CchConfigError
  | OutgoingInvoiceExpiryTooShort
  | BTCInvoiceParseError
  | BTCInvoiceCreationTimeInFuture
  | BTCInvoiceExpired
  | BTCInvoiceMissingAmount
  | BTCInvoiceFinalTlcExpiryDeltaTooLarge
  | BTCInvoiceNetworkMismatch
  | CKBInvoiceError
  | CKBInvoiceCreationTimeInFuture
  | CKBInvoiceMissingAmount
  | CKBInvoiceFinalTlcExpiryDeltaTooLarge
  | CKBInvoiceIncompatibleHashAlgorithm
  | CKBInvoiceNetworkMismatch
  | SendBTCOrderAmountTooLarge
  | ReceiveBTCOrderAmountTooLarge
  | WrappedBTCTypescriptMismatch
  | ConflictingReceiveBTCRequest hash256
  | ConflictingSendBTCRequest hash256
  | ReceiveBTCOrderCreationInProgress hash256
  | SendBTCOrderCreationInProgress hash256
  | ReceiveBTCOrderCreationExpired hash256
  | SendBTCOrderCreationExpired hash256
  | LndInvoiceMismatch hash256
  | LndPaymentTrackerError
  | LndPaymentAlreadyTracked hash256
  | LndPaymentTrackerCapacityExceeded
  | LndInvoiceTrackerError
  | LndInvoiceAlreadyTracked hash256
  | LndInvoiceTrackerCapacityExceeded
  | LndChannelError
  | LndRpcError
  | FiberNodeError
  | FiberInvoiceMismatch hash256
  | StartupRecoveryInProgress

datatype cch_event =
    InvoiceChanged ckb_invoice_status "string option"
  | PaymentChanged payment_status "hash256 option" "string option"

definition allow_transition :: "cch_order_status \<Rightarrow> cch_order_status \<Rightarrow> bool" where
  "allow_transition fr to =
     (if fr = CchPending \<and> to = CchIncomingAccepted then True
      else if fr = CchIncomingAccepted \<and> to \<in> {CchOutgoingInFlight, CchOutgoingSuccess} then True
      else if fr = CchOutgoingInFlight \<and> to = CchOutgoingSuccess then True
      else if fr = CchOutgoingSuccess \<and> to = CchSuccess then True
      else if to = CchFailed \<and> fr \<notin> {CchSuccess, CchOutgoingSuccess} then True
      else fr = to)"

definition try_transite_to :: "cch_order_status \<Rightarrow> string \<Rightarrow> cch_order \<Rightarrow> (cch_order \<times> cch_order_status option, cch_error) res" where
  "try_transite_to to reason order =
     (if \<not> allow_transition (co_status order) to then Err (InvalidTransition (co_status order) to)
      else if co_status order \<noteq> to
      then Ok (if to = CchFailed then order\<lparr>co_status := to, co_failure_reason := Some reason\<rparr> else order\<lparr>co_status := to\<rparr>, Some to)
      else Ok (order, None))"

fun invoice_status_text :: "ckb_invoice_status \<Rightarrow> string" where
  "invoice_status_text InvOpen = ''Open''"
| "invoice_status_text InvCancelled = ''Cancelled''"
| "invoice_status_text InvExpired = ''Expired''"
| "invoice_status_text InvReceived = ''Received''"
| "invoice_status_text InvPaid = ''Paid''"

fun apply_event :: "hashers \<Rightarrow> cch_event \<Rightarrow> cch_order \<Rightarrow> (cch_order \<times> cch_order_status option, cch_error) res" where
  "apply_event H (InvoiceChanged status reason) order =
     (let to = status_of_invoice status in
      if to = CchFailed \<and> co_status order \<in> {CchOutgoingInFlight, CchOutgoingSuccess} then Ok (order, None)
      else try_transite_to to (unwrap_or reason (''incoming invoice failed: '' @ invoice_status_text status)) order)"
| "apply_event H (PaymentChanged status preimage reason) order =
     (let to = status_of_payment status in
      if co_status order = CchPending then Err (InvalidTransition (co_status order) to)
      else if status = PayCreated \<and> co_status order \<in> {CchOutgoingInFlight, CchOutgoingSuccess} then Ok (order, None)
      else if status = PaySuccess \<and> preimage = None then Err SettledPaymentMissingPreimage
      else if (case preimage of Some p \<Rightarrow> hash_with H Sha256 p \<noteq> co_payment_hash order | None \<Rightarrow> False) then Err PreimageHashMismatch
      else bind_res (try_transite_to to (unwrap_or reason ''outgoing payment failed: Failed'') order) (\<lambda>(order, new_status).
        Ok (if new_status \<noteq> None \<and> co_payment_preimage order = None then order\<lparr>co_payment_preimage := preimage\<rparr> else order, new_status)))"

section \<open>Actions\<close>

datatype cch_action = TrackIncomingInvoice | SendOutgoingPayment | TrackOutgoingPayment | SettleIncomingInvoice | CancelIncomingInvoice

definition should_cancel_incoming_invoice :: "cch_order \<Rightarrow> bool" where
  "should_cancel_incoming_invoice order \<longleftrightarrow> co_status order = CchFailed \<and> co_payment_preimage order = None"

definition on_entering :: "cch_order \<Rightarrow> cch_action list" where
  "on_entering order = (case co_status order of
      CchPending \<Rightarrow> [TrackIncomingInvoice]
    | CchIncomingAccepted \<Rightarrow> [SendOutgoingPayment, TrackOutgoingPayment]
    | CchOutgoingInFlight \<Rightarrow> [TrackOutgoingPayment]
    | CchOutgoingSuccess \<Rightarrow> [SettleIncomingInvoice]
    | CchSuccess \<Rightarrow> []
    | CchFailed \<Rightarrow> if should_cancel_incoming_invoice order then [CancelIncomingInvoice] else [])"

definition on_starting :: "cch_order \<Rightarrow> cch_action list" where
  "on_starting order =
     on_entering order @ (if co_status order \<in> {CchIncomingAccepted, CchOutgoingInFlight, CchOutgoingSuccess} then [TrackIncomingInvoice] else [])"

definition action_can_still_run :: "cch_order \<Rightarrow> cch_action \<Rightarrow> bool" where
  "action_can_still_run order action = (if action = CancelIncomingInvoice then should_cancel_incoming_invoice order else \<not> order_final order)"

section \<open>Fee and time budgets of the outgoing payment\<close>

definition outgoing_fee_budget_from_fee_sats :: "u128 \<Rightarrow> u64 \<Rightarrow> u128" where
  "outgoing_fee_budget_from_fee_sats fee_sats percentage = saturating_mul fee_sats (ucast percentage) div 100"

definition outgoing_max_fee_rate :: "u128 \<Rightarrow> u128 \<Rightarrow> u64" where
  "outgoing_max_fee_rate amount max_fee_amount =
     (if amount = 0 then 0
      else let rate = div_ceil (saturating_mul max_fee_amount MAX_FEE_RATE_DENOMINATOR) amount
           in if unat rate < 2 ^ 64 then ucast rate else - 1)"

record cch_env =
  ce_hashers :: hashers
  ce_parse_btc :: "bytes \<Rightarrow> bolt11 option"
  ce_parse_ckb :: "bytes \<Rightarrow> ckb_invoice option"

definition outgoing_fiber_principal_sats :: "cch_env \<Rightarrow> cch_order \<Rightarrow> u128 option" where
  "outgoing_fiber_principal_sats E order = Option.bind (ce_parse_ckb E (co_outgoing_pay_req order)) iv_amount"

definition incoming_expiry_seconds :: "cch_order \<Rightarrow> u64" where
  "incoming_expiry_seconds order = (case co_incoming_invoice order of
      CchFiber iv \<Rightarrow> final_tlc_minimum_expiry_delta_or_default iv div 1000
    | CchLightning iv \<Rightarrow> saturating_mul (bt_min_final_cltv iv) 600)"

definition compute_max_outgoing_expiry_seconds :: "u64 \<Rightarrow> cch_order \<Rightarrow> u64 option" where
  "compute_max_outgoing_expiry_seconds now_ms order =
     (let elapsed = saturating_sub (now_ms div 1000) (co_created_at order)
      in map_option (\<lambda>remaining. remaining div 2) (checked_sub (incoming_expiry_seconds order) elapsed))"

definition outgoing_min_seconds :: "cch_env \<Rightarrow> cch_order \<Rightarrow> u64" where
  "outgoing_min_seconds E order = (case co_incoming_invoice order of
      CchFiber _ \<Rightarrow> unwrap_or (Option.bind (ce_parse_btc E (co_outgoing_pay_req order)) (\<lambda>iv. checked_mul (bt_min_final_cltv iv) 600)) 0
    | CchLightning _ \<Rightarrow> unwrap_or (map_option (\<lambda>iv. final_tlc_minimum_expiry_delta_or_default iv div 1000) (ce_parse_ckb E (co_outgoing_pay_req order))) 0)"

definition check_expiry_or_fail :: "cch_env \<Rightarrow> cch_order \<Rightarrow> u64 option \<Rightarrow> u64 option" where
  "check_expiry_or_fail E order max_outgoing = (case max_outgoing of
      Some s \<Rightarrow> if s > 0 \<and> \<not> s < outgoing_min_seconds E order then Some s else None
    | None \<Rightarrow> None)"

text \<open>What the dispatcher decides: nothing, an event that fails the order, or a payment with its limits. A limit of LND is an
  \<open>i32\<close> or \<open>i64\<close>.\<close>

datatype outgoing_payment =
    NoOutgoing
  | FailOrder
  | PayFiber bytes u64 u128 u64
  | PayLightning bytes "32 word" "64 word"

definition dispatch_send_outgoing :: "cch_env \<Rightarrow> u64 \<Rightarrow> u64 \<Rightarrow> cch_order \<Rightarrow> outgoing_payment" where
  "dispatch_send_outgoing E now_ms percentage order =
     (if co_status order \<noteq> CchIncomingAccepted then NoOutgoing
      else case check_expiry_or_fail E order (compute_max_outgoing_expiry_seconds now_ms order) of
          None \<Rightarrow> FailOrder
        | Some max_outgoing \<Rightarrow>
            let budget = outgoing_fee_budget_from_fee_sats (co_fee_sats order) percentage in
            (case co_incoming_invoice order of
               CchLightning _ \<Rightarrow> (case outgoing_fiber_principal_sats E order of
                   None \<Rightarrow> FailOrder
                 | Some amount \<Rightarrow> PayFiber (co_outgoing_pay_req order) (min (saturating_mul max_outgoing 1000) MAX_PAYMENT_TLC_EXPIRY_LIMIT)
                     budget (outgoing_max_fee_rate amount budget))
             | CchFiber _ \<Rightarrow> PayLightning (co_outgoing_pay_req order) (ucast (max_outgoing div 600))
                 (if unat budget < 2 ^ 63 then ucast budget else 2 ^ 63 - 1)))"

datatype invoice_request = NoInvoiceRequest | SettleInvoice hash256 | CancelInvoice

definition dispatch_settle :: "cch_order \<Rightarrow> invoice_request" where
  "dispatch_settle order = (if co_status order \<noteq> CchOutgoingSuccess then NoInvoiceRequest
     else case co_payment_preimage order of None \<Rightarrow> NoInvoiceRequest | Some preimage \<Rightarrow> SettleInvoice preimage)"

definition dispatch_cancel :: "cch_order \<Rightarrow> invoice_request" where
  "dispatch_cancel order = (if should_cancel_incoming_invoice order then CancelInvoice else NoInvoiceRequest)"

definition dispatch_track_incoming :: "cch_order \<Rightarrow> bool" where
  "dispatch_track_incoming order \<longleftrightarrow> \<not> order_final order \<and> (case co_incoming_invoice order of CchFiber _ \<Rightarrow> False | CchLightning _ \<Rightarrow> True)"

definition dispatch_track_outgoing :: "cch_order \<Rightarrow> bool" where
  "dispatch_track_outgoing order \<longleftrightarrow> co_status order \<in> {CchIncomingAccepted, CchOutgoingInFlight}"

end
