(* ===== verification/Cch_Actor.thy ===== *)
theory Cch_Actor
  imports Cch_Order
begin

text \<open>
  The hub's actor (\<^verbatim>\<open>fiber-lib/src/cch/actor.rs\<close>) and its rows in the store (\<^verbatim>\<open>store/store_impl/mod.rs\<close>): tracking events, expiry,
  recovery after a restart, and the creation of orders. Messages to other actors are effects.
\<close>

section \<open>State\<close>

record cch_config =
  cf_order_expiry_delta_seconds :: u64
  cf_base_fee_sats :: u64
  cf_fee_rate_per_million_sats :: u64
  cf_max_outgoing_fee_percentage :: u64
  cf_btc_final_tlc_expiry_delta_blocks :: u64
  cf_ckb_final_tlc_expiry_delta_seconds :: u64
  cf_min_outgoing_invoice_expiry_delta_seconds :: u64

definition validate_config :: "cch_config \<Rightarrow> bool" where
  "validate_config cf \<longleftrightarrow> 1 \<le> cf_max_outgoing_fee_percentage cf \<and> cf_max_outgoing_fee_percentage cf \<le> 100"

record receive_creation =
  rc_created_at :: u64
  rc_order_expiry_delta_seconds :: u64
  rc_fiber_pay_req :: bytes
  rc_payment_hash :: hash256
  rc_amount_sats :: u128
  rc_fee_sats :: u128
  rc_wrapped_btc_type_script :: script
  rc_btc_final_tlc_expiry_delta_blocks :: u64
  rc_max_outgoing_fee_percentage :: u64

record send_creation =
  sb_created_at :: u64
  sb_order_expiry_delta_seconds :: u64
  sb_btc_pay_req :: bytes
  sb_payment_hash :: hash256
  sb_incoming_invoice :: ckb_invoice
  sb_fee_sats :: u128
  sb_wrapped_btc_type_script :: script

datatype cch_effect =
    CchExecuteAction hash256 cch_action u32
  | CchActionRetry u64 hash256 cch_action u32
  | CchScheduleExpiry hash256 u64 u64
  | CchSchedulePrune hash256 u64 u64
  | CchStopTrackingPayment hash256
  | CchStopTracking hash256
  | CchRestorePaymentTracking hash256
  | CchResumeReceive u64 hash256 u32
  | CchResumeSend u64 hash256 u32
  | CchExpireOrder hash256

record cch_state =
  cs_config :: cch_config
  cs_currency :: currency
  cs_orders :: "hash256 \<rightharpoonup> cch_order"
  cs_receive_creations :: "hash256 \<rightharpoonup> receive_creation"
  cs_send_creations :: "hash256 \<rightharpoonup> send_creation"
  cs_pending_receive_retries :: "hash256 set"
  cs_pending_send_retries :: "hash256 set"
  cs_active_send_workers :: "hash256 set"
  cs_active_send_requests :: "hash256 \<rightharpoonup> bytes"
  cs_deferred_statuses :: "hash256 \<rightharpoonup> (ckb_invoice_status \<times> string option)"
  cs_startup_recovery_in_progress :: bool
  cs_outbox :: "cch_effect list"

definition emit_cch :: "cch_effect \<Rightarrow> cch_state \<Rightarrow> cch_state" where
  "emit_cch e c = c\<lparr>cs_outbox := cs_outbox c @ [e]\<rparr>"

definition append_actions :: "hash256 \<Rightarrow> cch_action list \<Rightarrow> cch_state \<Rightarrow> cch_state" where
  "append_actions h actions c = c\<lparr>cs_outbox := cs_outbox c @ map (\<lambda>a. CchExecuteAction h a 0) actions\<rparr>"

section \<open>Rows\<close>

definition update_cch_order :: "cch_order \<Rightarrow> cch_state \<Rightarrow> cch_state" where
  "update_cch_order order c = c\<lparr>cs_orders := (cs_orders c)(co_payment_hash order \<mapsto> order)\<rparr>"

definition insert_receive_creation :: "receive_creation \<Rightarrow> cch_state \<Rightarrow> (cch_state, cch_error) res" where
  "insert_receive_creation rc c =
     (if cs_receive_creations c (rc_payment_hash rc) \<noteq> None then Err (StoreDuplicated (rc_payment_hash rc))
      else Ok (c\<lparr>cs_receive_creations := (cs_receive_creations c)(rc_payment_hash rc \<mapsto> rc)\<rparr>))"

definition insert_send_creation :: "send_creation \<Rightarrow> cch_state \<Rightarrow> (cch_state, cch_error) res" where
  "insert_send_creation sc c =
     (if cs_send_creations c (sb_payment_hash sc) \<noteq> None then Err (StoreDuplicated (sb_payment_hash sc))
      else Ok (c\<lparr>cs_send_creations := (cs_send_creations c)(sb_payment_hash sc \<mapsto> sc)\<rparr>))"

definition delete_receive_creation :: "hash256 \<Rightarrow> cch_state \<Rightarrow> cch_state" where
  "delete_receive_creation h c = c\<lparr>cs_receive_creations := (cs_receive_creations c)(h := None)\<rparr>"

definition delete_send_creation :: "hash256 \<Rightarrow> cch_state \<Rightarrow> cch_state" where
  "delete_send_creation h c = c\<lparr>cs_send_creations := (cs_send_creations c)(h := None)\<rparr>"

definition store_complete_receive :: "cch_order \<Rightarrow> cch_state \<Rightarrow> (cch_state, cch_error) res" where
  "store_complete_receive order c =
     (if cs_orders c (co_payment_hash order) \<noteq> None then Err (StoreDuplicated (co_payment_hash order))
      else Ok (delete_receive_creation (co_payment_hash order) (update_cch_order order c)))"

definition store_complete_send :: "cch_order \<Rightarrow> cch_state \<Rightarrow> (cch_state, cch_error) res" where
  "store_complete_send order c =
     (if cs_orders c (co_payment_hash order) \<noteq> None then Err (StoreDuplicated (co_payment_hash order))
      else Ok (delete_send_creation (co_payment_hash order) (update_cch_order order c)))"

definition get_order_or_none :: "cch_state \<Rightarrow> hash256 \<Rightarrow> cch_order option" where
  "get_order_or_none c h = map_option normalize_amount_sats (cs_orders c h)"

definition get_active_order_or_none :: "cch_state \<Rightarrow> hash256 \<Rightarrow> cch_order option" where
  "get_active_order_or_none c h = (case get_order_or_none c h of Some order \<Rightarrow> if order_final order then None else Some order | None \<Rightarrow> None)"

definition get_order_for_action_or_none :: "cch_state \<Rightarrow> hash256 \<Rightarrow> cch_action \<Rightarrow> cch_order option" where
  "get_order_for_action_or_none c h action = (case get_order_or_none c h of Some order \<Rightarrow> if action_can_still_run order action then Some order else None | None \<Rightarrow> None)"

section \<open>Jobs, expiry and recovery\<close>

definition schedule_job_for_non_final_order :: "cch_order \<Rightarrow> cch_state \<Rightarrow> cch_state" where
  "schedule_job_for_non_final_order order = emit_cch (CchScheduleExpiry (co_payment_hash order) (co_created_at order) (co_expiry_delta_seconds order))"

definition schedule_job_for_final_order :: "cch_order \<Rightarrow> cch_state \<Rightarrow> cch_state" where
  "schedule_job_for_final_order order = emit_cch (CchSchedulePrune (co_payment_hash order) (co_created_at order) (co_expiry_delta_seconds order))"

definition schedule_job_on_entering :: "cch_order \<Rightarrow> cch_state \<Rightarrow> cch_state" where
  "schedule_job_on_entering order c =
     (if order_final order then schedule_job_for_final_order order (emit_cch (CchStopTrackingPayment (co_payment_hash order)) c)
      else schedule_job_for_non_final_order order c)"

definition expire_order :: "hash256 \<Rightarrow> string \<Rightarrow> cch_state \<Rightarrow> cch_state \<times> cch_action list" where
  "expire_order h reason c = (case get_active_order_or_none c h of
      None \<Rightarrow> (c, [])
    | Some order \<Rightarrow>
        if co_status order \<noteq> CchPending then (c, [])
        else let order = order\<lparr>co_status := CchFailed, co_failure_reason := Some reason\<rparr>
             in (schedule_job_for_final_order order (emit_cch (CchStopTrackingPayment h) (update_cch_order order c)), on_entering order))"

definition handle_expire_order :: "hash256 \<Rightarrow> cch_state \<Rightarrow> cch_state" where
  "handle_expire_order h c = (case expire_order h ''Order expired'' c of (c, actions) \<Rightarrow> append_actions h actions c)"

definition recover_persisted_order :: "u64 \<Rightarrow> cch_order \<Rightarrow> cch_state \<Rightarrow> cch_state" where
  "recover_persisted_order now_ms order c =
     (if order_final order then schedule_job_for_final_order order (append_actions (co_payment_hash order) (on_starting order) c)
      else case update_if_expired (now_ms div 1000) order of
          (order, True) \<Rightarrow>
            schedule_job_for_final_order order (append_actions (co_payment_hash order) (on_entering order) (update_cch_order order c))
        | (order, False) \<Rightarrow>
            let c = (case co_incoming_invoice order of CchFiber _ \<Rightarrow> emit_cch (CchRestorePaymentTracking (co_payment_hash order)) c | CchLightning _ \<Rightarrow> c)
            in append_actions (co_payment_hash order) (on_starting order) (schedule_job_for_non_final_order order c))"

text \<open>One turn of the start-up recovery; the keys of the snapshot are popped from the back.\<close>

fun continue_startup_recovery ::
  "u64 \<Rightarrow> hash256 list \<times> hash256 list \<times> hash256 list \<Rightarrow> cch_state \<Rightarrow> (hash256 list \<times> hash256 list \<times> hash256 list) option \<times> cch_state" where
  "continue_startup_recovery now_ms (order_keys, receive_keys, send_keys) c =
     (if order_keys \<noteq> [] then
        (Some (butlast order_keys, receive_keys, send_keys),
         case get_order_or_none c (last order_keys) of Some order \<Rightarrow> recover_persisted_order now_ms order c | None \<Rightarrow> c)
      else if receive_keys \<noteq> [] then
        (Some ([], butlast receive_keys, send_keys),
         let h = last receive_keys in
         if h \<in> cs_pending_receive_retries c then c
         else emit_cch (CchResumeReceive 0 h 0) (c\<lparr>cs_pending_receive_retries := insert h (cs_pending_receive_retries c)\<rparr>))
      else if send_keys \<noteq> [] then
        (Some ([], [], butlast send_keys),
         let h = last send_keys in
         if h \<in> cs_pending_send_retries c then c
         else emit_cch (CchResumeSend 0 h 0) (c\<lparr>cs_pending_send_retries := insert h (cs_pending_send_retries c)\<rparr>))
      else (None, c\<lparr>cs_startup_recovery_in_progress := False\<rparr>))"

section \<open>Tracking events\<close>

definition apply_tracking_event_to_order ::
  "hashers \<Rightarrow> u64 \<Rightarrow> cch_order \<Rightarrow> cch_event \<Rightarrow> cch_state \<Rightarrow> (cch_state \<times> cch_order option, cch_error) res" where
  "apply_tracking_event_to_order H now_ms order event c =
     (case (if co_status order = CchPending \<and> (case event of InvoiceChanged InvReceived _ \<Rightarrow> True | _ \<Rightarrow> False)
            then update_if_expired_with_reason (now_ms div 1000) ''Order expired'' order else (order, False)) of
        (order, True) \<Rightarrow> Ok (update_cch_order order c, Some order)
      | (order, False) \<Rightarrow> bind_res (apply_event H event order) (\<lambda>(order, new_status).
          Ok (if new_status \<noteq> None then (update_cch_order order c, Some order) else (c, None))))"

fun invoice_status_rank :: "ckb_invoice_status \<Rightarrow> nat" where
  "invoice_status_rank InvOpen = 0"
| "invoice_status_rank InvReceived = 1"
| "invoice_status_rank InvCancelled = 2"
| "invoice_status_rank InvExpired = 2"
| "invoice_status_rank InvPaid = 3"

definition merge_deferred :: "ckb_invoice_status \<times> string option \<Rightarrow> ckb_invoice_status \<times> string option \<Rightarrow> ckb_invoice_status \<times> string option" where
  "merge_deferred old newer = (if invoice_status_rank (fst newer) \<ge> invoice_status_rank (fst old) then newer else old)"

fun deferred_advances :: "cch_order_status \<Rightarrow> ckb_invoice_status \<Rightarrow> bool" where
  "deferred_advances st InvOpen = False"
| "deferred_advances st InvReceived = (st = CchPending)"
| "deferred_advances st InvCancelled = (st = CchPending \<or> st = CchIncomingAccepted)"
| "deferred_advances st InvExpired = (st = CchPending \<or> st = CchIncomingAccepted)"
| "deferred_advances st InvPaid = (st = CchOutgoingSuccess)"

definition reconcile_deferred :: "hashers \<Rightarrow> u64 \<Rightarrow> hash256 \<Rightarrow> cch_state \<Rightarrow> cch_state \<times> (cch_order \<times> bool, cch_error) res" where
  "reconcile_deferred H now_ms h c = (case get_order_or_none c h of
      None \<Rightarrow> (c, Err (StoreNotFound h))
    | Some order \<Rightarrow> (case cs_deferred_statuses c h of
          None \<Rightarrow> (c, Ok (order, False))
        | Some (status, reason) \<Rightarrow>
            let c = c\<lparr>cs_deferred_statuses := (cs_deferred_statuses c)(h := None)\<rparr> in
            if \<not> deferred_advances (co_status order) status then (c, Ok (order, False))
            else (case apply_tracking_event_to_order H now_ms order (InvoiceChanged status reason) c of
                Ok (c, Some order) \<Rightarrow> (c, Ok (order, True))
              | Ok (c, None) \<Rightarrow> (c, Ok (order, False))
              | Err e \<Rightarrow> (c, Err e)
              | Panic \<Rightarrow> (c, Panic))))"

definition handle_tracking_event :: "hashers \<Rightarrow> u64 \<Rightarrow> hash256 \<Rightarrow> cch_event \<Rightarrow> cch_state \<Rightarrow> (cch_state \<times> cch_action list, cch_error) res" where
  "handle_tracking_event H now_ms h event c =
     (case (event, h \<in> cs_active_send_workers c \<or> h \<in> cs_pending_send_retries c) of
        (InvoiceChanged status reason, True) \<Rightarrow>
          Ok (c\<lparr>cs_deferred_statuses := (cs_deferred_statuses c)(h \<mapsto> (case cs_deferred_statuses c h of
                None \<Rightarrow> (status, reason) | Some old \<Rightarrow> merge_deferred old (status, reason)))\<rparr>, [])
      | _ \<Rightarrow> (case get_active_order_or_none c h of
            None \<Rightarrow> Ok (c, [])
          | Some order \<Rightarrow> bind_res (apply_tracking_event_to_order H now_ms order event c) (\<lambda>(c, updated).
              Ok (case updated of Some order \<Rightarrow> (schedule_job_on_entering order c, on_entering order) | None \<Rightarrow> (c, [])))))"

definition handle_tracking_message :: "hashers \<Rightarrow> u64 \<Rightarrow> hash256 \<Rightarrow> cch_event \<Rightarrow> cch_state \<Rightarrow> cch_state" where
  "handle_tracking_message H now_ms h event c = (case handle_tracking_event H now_ms h event c of
      Ok (c', actions) \<Rightarrow> append_actions h actions c' | _ \<Rightarrow> c)"

text \<open>What the Fiber node's store changes mean for the hub.\<close>

datatype store_change =
    PutPreimage hash256 hash256
  | PutCkbInvoiceStatus hash256 ckb_invoice_status
  | PutPaymentSession hash256 payment_session "hash256 option"
  | PutAttempt hash256 attempt_status

fun map_store_change_to_events :: "store_change \<Rightarrow> (hash256 \<times> cch_event) list" where
  "map_store_change_to_events (PutCkbInvoiceStatus h status) = [(h, InvoiceChanged status None)]"
| "map_store_change_to_events (PutPaymentSession h session preimage) = [(h, PaymentChanged (se_status session) preimage None)]"
| "map_store_change_to_events (PutAttempt h status) = (if status = AttInflight then [(h, PaymentChanged PayInflight None None)] else [])"
| "map_store_change_to_events (PutPreimage h preimage) = []"

definition handle_store_change :: "hashers \<Rightarrow> u64 \<Rightarrow> store_change \<Rightarrow> cch_state \<Rightarrow> cch_state" where
  "handle_store_change H now_ms change c = fold (\<lambda>(h, event). handle_tracking_message H now_ms h event) (map_store_change_to_events change) c"

definition session_preimage :: "payment_session \<Rightarrow> hash256 option" where
  "session_preimage s = (if se_status s = PaySuccess then (case filter (\<lambda>a. at_preimage a \<noteq> None) (se_cached_attempts s) of [] \<Rightarrow> None | a # _ \<Rightarrow> at_preimage a) else None)"

definition response_preimage :: "payment_session \<Rightarrow> hash256 option" where
  "response_preimage s = (case filter (\<lambda>a. at_status a = AttSuccess \<and> at_preimage a \<noteq> None) (se_cached_attempts s) of [] \<Rightarrow> None | a # _ \<Rightarrow> at_preimage a)"

section \<open>Retries\<close>

definition ACTION_RETRY_BASE_MILLIS :: u64 where "ACTION_RETRY_BASE_MILLIS = 1000"
definition ACTION_RETRY_MAX_MILLIS :: u64 where "ACTION_RETRY_MAX_MILLIS = 600000"

definition calculate_retry_delay :: "u32 \<Rightarrow> u64" where
  "calculate_retry_delay retry_count = min (saturating_mul ACTION_RETRY_BASE_MILLIS (push_bit (min (unat retry_count) 9) 1)) ACTION_RETRY_MAX_MILLIS"

definition schedule_action_retry :: "hash256 \<Rightarrow> cch_action \<Rightarrow> u32 \<Rightarrow> cch_state \<Rightarrow> cch_state" where
  "schedule_action_retry h action retry_count =
     emit_cch (CchActionRetry (calculate_retry_delay retry_count) h action (saturating_add retry_count 1))"

definition handle_action_retry :: "hash256 \<Rightarrow> cch_action \<Rightarrow> u32 \<Rightarrow> cch_state \<Rightarrow> cch_state" where
  "handle_action_retry h action retry_count c =
     (if get_order_for_action_or_none c h action = None then c else schedule_action_retry h action retry_count c)"

datatype fiber_reply = CchTracking cch_event | CchRetryAction cch_action u32

definition map_get_payment_result :: "(payment_status \<times> hash256 option \<times> string option, unit) res \<Rightarrow> u32 \<Rightarrow> fiber_reply" where
  "map_get_payment_result result retry_count = (case result of
      Ok (status, preimage, reason) \<Rightarrow> if status = PaySuccess \<and> preimage = None then CchRetryAction TrackOutgoingPayment retry_count
        else CchTracking (PaymentChanged status preimage reason)
    | _ \<Rightarrow> CchRetryAction TrackOutgoingPayment retry_count)"

text \<open>The command with which the hub asks the Fiber node to pay an invoice; everything else keeps its default.\<close>

definition fiber_send_command :: "bytes \<Rightarrow> u64 \<Rightarrow> u128 \<Rightarrow> u64 \<Rightarrow> send_payment_command" where
  "fiber_send_command pay_req tlc_expiry_limit max_fee_amount max_fee_rate =
     \<lparr>pc_target_pubkey = None, pc_amount = None, pc_payment_hash = None, pc_invoice = Some pay_req, pc_final_tlc_expiry_delta = None,
      pc_tlc_expiry_limit = Some tlc_expiry_limit, pc_timeout = None, pc_max_fee_amount = Some max_fee_amount, pc_max_fee_rate = Some max_fee_rate,
      pc_max_parts = None, pc_keysend = None, pc_udt_type_script = None, pc_allow_self_payment = False, pc_custom_records = None,
      pc_hop_hints = None, pc_dry_run = False, pc_trampoline_hops = None\<rparr>"

section \<open>Creating orders\<close>

text \<open>
  What the outside answers while an order is created: the Fiber node and LND may be asked twice, so their answers carry the number
  of the call; the clock is read several times. Signing an invoice does not change the fields the hub reads.
\<close>

datatype reservation = Reserved | AlreadyTracked | CapacityExceeded | TrackerGone

datatype lnd_invoice_state = LndOpen | LndSettled | LndCanceled | LndAccepted

record lnd_invoice =
  li_r_hash :: hash256
  li_value_msat :: "64 word"
  li_cltv_expiry :: u64
  li_state :: lnd_invoice_state
  li_payment_request :: bytes

record create_env = cch_env +
  cv_now_ms :: "nat \<Rightarrow> u64"
  cv_wrapped_btc_type_script :: "(script, cch_error) res"
  cv_payee :: "pubkey option"
  cv_margin_seconds :: u64
  cv_reserve :: reservation
  cv_get_fiber_invoice :: "nat \<Rightarrow> ((ckb_invoice \<times> ckb_invoice_status) option, cch_error) res"
  cv_add_fiber_invoice :: "ckb_invoice \<Rightarrow> u64 \<Rightarrow> u64 \<Rightarrow> (ckb_invoice, cch_error) res"
  cv_preflight :: "bytes \<Rightarrow> u64 \<Rightarrow> u128 \<Rightarrow> u64 \<Rightarrow> (unit, cch_error) res"
  cv_lookup_lnd_invoice :: "nat \<Rightarrow> (lnd_invoice option, cch_error) res"
  cv_add_hold_invoice :: "hash256 \<Rightarrow> 64 word \<Rightarrow> u64 \<Rightarrow> u64 \<Rightarrow> (bytes, cch_error) res"

definition now_secs :: "create_env \<Rightarrow> nat \<Rightarrow> u64" where
  "now_secs E n = cv_now_ms E n div 1000"

fun expected_ln_currency :: "currency \<Rightarrow> ln_currency" where
  "expected_ln_currency Fibb = LnBitcoin"
| "expected_ln_currency Fibt = LnBitcoinTestnet"
| "expected_ln_currency Fibd = LnRegtest"

definition reserve_lnd_payment_tracking :: "create_env \<Rightarrow> hash256 \<Rightarrow> (unit, cch_error) res" where
  "reserve_lnd_payment_tracking E h = (case cv_reserve E of
      Reserved \<Rightarrow> Ok () | AlreadyTracked \<Rightarrow> Err (LndPaymentAlreadyTracked h)
    | CapacityExceeded \<Rightarrow> Err LndPaymentTrackerCapacityExceeded | TrackerGone \<Rightarrow> Err LndPaymentTrackerError)"

definition reserve_lnd_invoice_tracking :: "create_env \<Rightarrow> hash256 \<Rightarrow> (unit, cch_error) res" where
  "reserve_lnd_invoice_tracking E h = (case cv_reserve E of
      Reserved \<Rightarrow> Ok () | AlreadyTracked \<Rightarrow> Err (LndInvoiceAlreadyTracked h)
    | CapacityExceeded \<Rightarrow> Err LndInvoiceTrackerCapacityExceeded | TrackerGone \<Rightarrow> Err LndInvoiceTrackerError)"

subsection \<open>Selling Bitcoin payments: the incoming invoice is on Fiber\<close>

definition parse_btc :: "create_env \<Rightarrow> bytes \<Rightarrow> (bolt11, cch_error) res" where
  "parse_btc E req = ok_or (ce_parse_btc E req) BTCInvoiceParseError"

definition ensure_send_matches_order :: "bytes \<Rightarrow> cch_order \<Rightarrow> (unit, cch_error) res" where
  "ensure_send_matches_order req order =
     ensure (co_outgoing_pay_req order = req \<and> (case co_incoming_invoice order of CchFiber _ \<Rightarrow> True | _ \<Rightarrow> False))
       (ConflictingSendBTCRequest (co_payment_hash order))"

definition ensure_send_matches_creation :: "bytes \<Rightarrow> send_creation \<Rightarrow> (unit, cch_error) res" where
  "ensure_send_matches_creation req sc = ensure (sb_btc_pay_req sc = req) (ConflictingSendBTCRequest (sb_payment_hash sc))"

definition send_btc_creation_deadline :: "create_env \<Rightarrow> send_creation \<Rightarrow> (u64, cch_error) res" where
  "send_btc_creation_deadline E sc =
     bind_res (parse_btc E (sb_btc_pay_req sc)) (\<lambda>invoice.
     bind_res (ok_or (bt_expires_at invoice) (SendBTCOrderCreationExpired (sb_payment_hash sc))) (\<lambda>btc_deadline.
     bind_res (ok_or (checked_add (sb_created_at sc) (sb_order_expiry_delta_seconds sc)) (SendBTCOrderCreationExpired (sb_payment_hash sc))) (\<lambda>order_deadline.
     Ok (min btc_deadline order_deadline))))"

definition fiber_invoice_expiry_millis :: "ckb_invoice \<Rightarrow> u128 option" where
  "fiber_invoice_expiry_millis iv = Option.bind (expiry_time iv) (\<lambda>d. checked_add (id_timestamp (iv_data iv)) (as_millis d))"

definition ensure_send_btc_fiber_invoice_matches :: "create_env \<Rightarrow> send_creation \<Rightarrow> ckb_invoice \<Rightarrow> (unit, cch_error) res" where
  "ensure_send_btc_fiber_invoice_matches E sc iv =
     bind_res (send_btc_creation_deadline E sc) (\<lambda>deadline.
     bind_res (ok_or (checked_mul deadline 1000) (SendBTCOrderCreationExpired (sb_payment_hash sc))) (\<lambda>deadline_millis.
     let template = sb_incoming_invoice sc in
     ensure (id_payment_hash (iv_data iv) = sb_payment_hash sc \<and> iv_currency iv = iv_currency template \<and> iv_amount iv = iv_amount template \<and>
       unwrap_or (invoice_hash_algorithm iv) CkbHash = unwrap_or (invoice_hash_algorithm template) CkbHash \<and>
       final_tlc_minimum_expiry_delta_or_default iv = final_tlc_minimum_expiry_delta_or_default template \<and>
       udt_type_script iv = udt_type_script template \<and>
       (case fiber_invoice_expiry_millis iv of Some e \<Rightarrow> e \<le> ucast deadline_millis | None \<Rightarrow> False))
       (FiberInvoiceMismatch (sb_payment_hash sc))))"

definition build_send_btc_fiber_invoice_until ::
  "create_env \<Rightarrow> cch_config \<Rightarrow> u128 \<Rightarrow> invoice_builder \<Rightarrow> hash256 \<Rightarrow> u64 \<Rightarrow> (ckb_invoice, cch_error) res" where
  "build_send_btc_fiber_invoice_until E cf now ib h deadline =
     (let ib = (case cv_payee E of Some k \<Rightarrow> add_attr ib (PayeePublicKey k) | None \<Rightarrow> ib) in
      bind_res (map_err (\<lambda>_. CKBInvoiceError) (build_invoice (ce_hashers E) now ib)) (\<lambda>iv.
      bind_res (ok_or (checked_mul (ucast deadline :: u128) 1000) (SendBTCOrderCreationExpired h)) (\<lambda>deadline_millis.
      bind_res (ok_or (Option.bind (checked_sub deadline_millis (id_timestamp (iv_data iv))) (\<lambda>left.
          if unat (left div 1000) < 2 ^ 64 then Some (ucast (left div 1000) :: u64) else None)) (SendBTCOrderCreationExpired h)) (\<lambda>remaining.
      bind_res (ok_or (checked_add (cf_min_outgoing_invoice_expiry_delta_seconds cf) (cv_margin_seconds E)) (SendBTCOrderCreationExpired h)) (\<lambda>required.
      bind_res (ensure (\<not> remaining < required) (SendBTCOrderCreationExpired h)) (\<lambda>_.
      Ok (iv\<lparr>iv_data := (iv_data iv)\<lparr>id_attrs := id_attrs (iv_data iv) @ [ExpiryTime \<lparr>du_secs = remaining, du_nanos = 0\<rparr>]\<rparr>\<rparr>)))))))"

definition refresh_send_btc_fiber_invoice :: "create_env \<Rightarrow> cch_config \<Rightarrow> u128 \<Rightarrow> send_creation \<Rightarrow> (ckb_invoice, cch_error) res" where
  "refresh_send_btc_fiber_invoice E cf now sc =
     (let template = sb_incoming_invoice sc;
          ib = (invoice_builder_new (iv_currency template))\<lparr>ib_amount := iv_amount template, ib_payment_hash := Some (sb_payment_hash sc)\<rparr>;
          ib = add_attr ib (HashAlgorithm (unwrap_or (invoice_hash_algorithm template) CkbHash));
          ib = add_attr ib (FinalHtlcMinimumExpiryDelta (final_tlc_minimum_expiry_delta_or_default template));
          ib = (case udt_type_script template of Some s \<Rightarrow> add_attr ib (UdtScript s) | None \<Rightarrow> ib)
      in bind_res (send_btc_creation_deadline E sc) (\<lambda>deadline.
         build_send_btc_fiber_invoice_until E cf now ib (sb_payment_hash sc) deadline))"

definition send_incoming_invoice :: "create_env \<Rightarrow> cch_config \<Rightarrow> u128 \<Rightarrow> send_creation \<Rightarrow> (ckb_invoice \<times> ckb_invoice_status, cch_error) res" where
  "send_incoming_invoice E cf now sc =
     bind_res (cv_get_fiber_invoice E 0) (\<lambda>known. case known of
        Some info \<Rightarrow> Ok info
      | None \<Rightarrow>
          bind_res (refresh_send_btc_fiber_invoice E cf now sc) (\<lambda>invoice.
          bind_res (send_btc_creation_deadline E sc) (\<lambda>deadline.
          case cv_add_fiber_invoice E invoice deadline (cf_min_outgoing_invoice_expiry_delta_seconds cf) of
            Ok iv \<Rightarrow> Ok (iv, InvOpen)
          | Panic \<Rightarrow> Panic
          | Err e \<Rightarrow> bind_res (cv_get_fiber_invoice E 1) (\<lambda>again. case again of Some info \<Rightarrow> Ok info | None \<Rightarrow> Err e))))"

definition send_order_status :: "hash256 \<Rightarrow> ckb_invoice_status \<Rightarrow> (cch_order_status \<times> string option, cch_error) res" where
  "send_order_status h status = (case status of
      InvOpen \<Rightarrow> Ok (CchPending, None)
    | InvReceived \<Rightarrow> Ok (CchIncomingAccepted, None)
    | InvCancelled \<Rightarrow> Ok (CchFailed, Some ''Fiber invoice was cancelled before order recovery'')
    | InvExpired \<Rightarrow> Ok (CchFailed, Some ''Fiber invoice expired before order recovery'')
    | InvPaid \<Rightarrow> Err (FiberInvoiceMismatch h))"

definition send_order :: "send_creation \<Rightarrow> ckb_invoice \<Rightarrow> u128 \<Rightarrow> cch_order_status \<Rightarrow> string option \<Rightarrow> cch_order" where
  "send_order sc iv amount status reason =
     \<lparr>co_created_at = sb_created_at sc, co_expiry_delta_seconds = sb_order_expiry_delta_seconds sc,
      co_wrapped_btc_type_script = sb_wrapped_btc_type_script sc, co_outgoing_pay_req = sb_btc_pay_req sc, co_incoming_invoice = CchFiber iv,
      co_payment_hash = sb_payment_hash sc, co_payment_preimage = None, co_amount_sats = amount, co_fee_sats = sb_fee_sats sc,
      co_status = status, co_failure_reason = reason\<rparr>"

definition commit_send_order :: "send_creation \<Rightarrow> cch_order \<Rightarrow> cch_state \<Rightarrow> (cch_state \<times> cch_order, cch_error) res" where
  "commit_send_order sc order c = (case store_complete_send order c of
      Ok c \<Rightarrow> Ok (c, order)
    | Panic \<Rightarrow> Panic
    | Err e \<Rightarrow> (case cs_orders c (sb_payment_hash sc) of
          None \<Rightarrow> Err (StoreNotFound (sb_payment_hash sc))
        | Some existing \<Rightarrow> bind_res (ensure_send_matches_order (sb_btc_pay_req sc) existing) (\<lambda>_.
            Ok (delete_send_creation (sb_payment_hash sc) c, existing))))"

definition complete_send_btc_order_creation :: "create_env \<Rightarrow> u128 \<Rightarrow> send_creation \<Rightarrow> cch_state \<Rightarrow> (cch_state \<times> cch_order, cch_error) res" where
  "complete_send_btc_order_creation E now sc c =
     bind_res (send_incoming_invoice E (cs_config c) now sc) (\<lambda>(iv, status).
     bind_res (ensure_send_btc_fiber_invoice_matches E sc iv) (\<lambda>_.
     bind_res (send_order_status (sb_payment_hash sc) status) (\<lambda>(status, reason).
     bind_res (ok_or (iv_amount iv) SendBTCOrderAmountTooLarge) (\<lambda>amount.
     commit_send_order sc (send_order sc iv amount status reason) c))))"

text \<open>The actor's state is kept when the creation fails, but for the tracker that is released.\<close>

definition complete_send_with_tracking ::
  "create_env \<Rightarrow> u128 \<Rightarrow> send_creation \<Rightarrow> cch_state \<Rightarrow> cch_state \<times> (cch_order, cch_error) res" where
  "complete_send_with_tracking E now sc c = (case reserve_lnd_payment_tracking E (sb_payment_hash sc) of
      Err e \<Rightarrow> (c, Err e)
    | Panic \<Rightarrow> (c, Panic)
    | Ok _ \<Rightarrow> (case complete_send_btc_order_creation E now sc c of
          Ok (c, order) \<Rightarrow> (c, Ok order)
        | Err e \<Rightarrow> (emit_cch (CchStopTrackingPayment (sb_payment_hash sc)) c, Err e)
        | Panic \<Rightarrow> (c, Panic)))"

definition send_fee_sats :: "cch_config \<Rightarrow> u128 \<Rightarrow> (u128, cch_error) res" where
  "send_fee_sats cf amount_msat =
     ok_or (Option.bind (checked_mul amount_msat (ucast (cf_fee_rate_per_million_sats cf))) (\<lambda>v.
            checked_add (v div 1000000000) (ucast (cf_base_fee_sats cf)))) SendBTCOrderAmountTooLarge"

text \<open>The checks of a request before anything is written, and the intent they lead to.\<close>

definition check_btc_expiry_delta :: "cch_config \<Rightarrow> bolt11 \<Rightarrow> (unit, cch_error) res" where
  "check_btc_expiry_delta cf invoice =
     bind_res (ok_or (checked_mul (bt_min_final_cltv invoice) 600) BTCInvoiceFinalTlcExpiryDeltaTooLarge) (\<lambda>btc_final_cltv_seconds.
     ensure (\<not> btc_final_cltv_seconds \<ge> cf_ckb_final_tlc_expiry_delta_seconds cf div 2) BTCInvoiceFinalTlcExpiryDeltaTooLarge)"

definition send_invoice_lifetime :: "cch_config \<Rightarrow> u64 \<Rightarrow> bolt11 \<Rightarrow> (u64, cch_error) res" where
  "send_invoice_lifetime cf created_at invoice =
     bind_res (ok_or (Option.bind (bt_expires_at invoice) (\<lambda>e. checked_sub e created_at)) BTCInvoiceExpired) (\<lambda>outgoing.
     let incoming = min outgoing (cf_order_expiry_delta_seconds cf) in
     bind_res (ensure (\<not> incoming < cf_min_outgoing_invoice_expiry_delta_seconds cf) OutgoingInvoiceExpiryTooShort) (\<lambda>_. Ok incoming))"

definition prepare_send_btc :: "create_env \<Rightarrow> cch_config \<Rightarrow> currency \<Rightarrow> bytes \<Rightarrow> bolt11 \<Rightarrow> (send_creation, cch_error) res" where
  "prepare_send_btc E cf currency req invoice =
     (let h = bt_payment_hash invoice; created_at = now_secs E 0 in
      bind_res (ensure (bt_currency invoice = expected_ln_currency currency) BTCInvoiceNetworkMismatch) (\<lambda>_.
      bind_res (ensure (\<not> bt_created_at invoice > created_at) BTCInvoiceCreationTimeInFuture) (\<lambda>_.
      bind_res (check_btc_expiry_delta cf invoice) (\<lambda>_.
      bind_res (send_invoice_lifetime cf created_at invoice) (\<lambda>lifetime.
      bind_res (ok_or (bt_amount_msat invoice) BTCInvoiceMissingAmount) (\<lambda>msat.
      let amount_msat = ucast msat :: u128 in
      bind_res (send_fee_sats cf amount_msat) (\<lambda>fee_sats.
      bind_res (cv_wrapped_btc_type_script E) (\<lambda>script.
      bind_res (ok_or (checked_add (div_ceil amount_msat 1000) fee_sats) SendBTCOrderAmountTooLarge) (\<lambda>invoice_amount.
      bind_res (ok_or (checked_add created_at lifetime) (SendBTCOrderCreationExpired h)) (\<lambda>deadline.
      bind_res (ok_or (checked_mul (cf_ckb_final_tlc_expiry_delta_seconds cf) 1000) CchConfigError) (\<lambda>delta_ms.
      let ib = (invoice_builder_new currency)\<lparr>ib_amount := Some invoice_amount, ib_payment_hash := Some h\<rparr>;
          ib = add_attr ib (HashAlgorithm Sha256);
          ib = add_attr ib (FinalHtlcMinimumExpiryDelta delta_ms);
          ib = add_attr ib (UdtScript script) in
      bind_res (build_send_btc_fiber_invoice_until E cf (ucast (cv_now_ms E 1)) ib h deadline) (\<lambda>iv.
      Ok \<lparr>sb_created_at = created_at, sb_order_expiry_delta_seconds = cf_order_expiry_delta_seconds cf, sb_btc_pay_req = req, sb_payment_hash = h,
          sb_incoming_invoice = iv, sb_fee_sats = fee_sats, sb_wrapped_btc_type_script = script\<rparr>))))))))))))"

definition send_btc :: "create_env \<Rightarrow> currency \<Rightarrow> bytes \<Rightarrow> cch_state \<Rightarrow> cch_state \<times> (cch_order \<times> bool, cch_error) res" where
  "send_btc E currency req c =
     bind_st (c, bind_res (ensure (currency = cs_currency c) CKBInvoiceNetworkMismatch) (\<lambda>_. parse_btc E req)) (\<lambda>c invoice.
     let h = bt_payment_hash invoice in
     (case get_order_or_none c h of
        Some order \<Rightarrow> (c, bind_res (ensure_send_matches_order req order) (\<lambda>_. Ok (order, False)))
      | None \<Rightarrow> (case cs_send_creations c h of
          Some sc \<Rightarrow>
            bind_st (c, ensure_send_matches_creation req sc) (\<lambda>c _.
            bind_st (complete_send_with_tracking E (ucast (cv_now_ms E 1)) sc c) (\<lambda>c order. (c, Ok (order, True))))
        | None \<Rightarrow>
            bind_st (c, bind_res (prepare_send_btc E (cs_config c) (cs_currency c) req invoice) (\<lambda>sc.
                        bind_res (reserve_lnd_payment_tracking E h) (\<lambda>_. Ok sc))) (\<lambda>c sc.
            (case insert_send_creation sc c of
               Err e \<Rightarrow> (emit_cch (CchStopTrackingPayment h) c, Err e)
             | Panic \<Rightarrow> (c, Panic)
             | Ok c \<Rightarrow> (case complete_send_btc_order_creation E (ucast (cv_now_ms E 2)) sc c of
                   Ok (c, order) \<Rightarrow> (c, Ok (order, True))
                 | Err e \<Rightarrow> (emit_cch (CchStopTrackingPayment h) c, Err e)
                 | Panic \<Rightarrow> (c, Panic)))))))"

definition resume_send_btc :: "create_env \<Rightarrow> hash256 \<Rightarrow> cch_state \<Rightarrow> cch_state \<times> (cch_order option, cch_error) res" where
  "resume_send_btc E h c =
     (if get_order_or_none c h \<noteq> None then (delete_send_creation h c, Ok None)
      else case cs_send_creations c h of
          None \<Rightarrow> (c, Ok None)
        | Some sc \<Rightarrow> bind_st (complete_send_with_tracking E (ucast (cv_now_ms E 1)) sc c) (\<lambda>c order. (c, Ok (Some order))))"

subsection \<open>Buying Bitcoin payments: the incoming invoice is on Lightning\<close>

definition parse_ckb :: "create_env \<Rightarrow> bytes \<Rightarrow> (ckb_invoice, cch_error) res" where
  "parse_ckb E req = ok_or (ce_parse_ckb E req) CKBInvoiceError"

definition receive_btc_total_msat :: "u128 \<Rightarrow> u128 \<Rightarrow> (u64, cch_error) res" where
  "receive_btc_total_msat amount_sats fee_sats =
     bind_res (ok_or (Option.bind (checked_add amount_sats fee_sats) (\<lambda>sats. checked_mul sats 1000)) ReceiveBTCOrderAmountTooLarge) (\<lambda>msat.
     if unat msat < 2 ^ 63 then Ok (ucast msat) else Err ReceiveBTCOrderAmountTooLarge)"

definition receive_creation_deadline :: "receive_creation \<Rightarrow> u64 option" where
  "receive_creation_deadline rc = checked_add (rc_created_at rc) (rc_order_expiry_delta_seconds rc)"

definition receive_creation_expired :: "receive_creation \<Rightarrow> u64 \<Rightarrow> bool" where
  "receive_creation_expired rc current_time = (case receive_creation_deadline rc of Some e \<Rightarrow> e \<le> current_time | None \<Rightarrow> True)"

definition receive_remaining_expiry_seconds :: "receive_creation \<Rightarrow> u64 \<Rightarrow> (u64, cch_error) res" where
  "receive_remaining_expiry_seconds rc current_time =
     bind_res (ok_or (receive_creation_deadline rc) (ReceiveBTCOrderCreationExpired (rc_payment_hash rc))) (\<lambda>e.
     if e \<le> current_time then Err (ReceiveBTCOrderCreationExpired (rc_payment_hash rc)) else Ok (e - current_time))"

definition remaining_outgoing_invoice_expiry_seconds :: "cch_config \<Rightarrow> ckb_invoice \<Rightarrow> u64 \<Rightarrow> (u64, cch_error) res" where
  "remaining_outgoing_invoice_expiry_seconds cf iv current_time =
     bind_res (case expiry_time iv of
         Some d \<Rightarrow> ok_or (Option.bind (checked_add (id_timestamp (iv_data iv)) (as_millis d)) (\<lambda>e.
             checked_sub (if unat (e div 1000) < 2 ^ 64 then ucast (e div 1000) else - 1) current_time)) OutgoingInvoiceExpiryTooShort
       | None \<Rightarrow> ok_or (checked_mul (cf_min_outgoing_invoice_expiry_delta_seconds cf) 2) OutgoingInvoiceExpiryTooShort) (\<lambda>remaining.
     bind_res (ensure (\<not> remaining < cf_min_outgoing_invoice_expiry_delta_seconds cf) OutgoingInvoiceExpiryTooShort) (\<lambda>_. Ok remaining))"

definition ensure_receive_matches_order :: "bytes \<Rightarrow> cch_order \<Rightarrow> (unit, cch_error) res" where
  "ensure_receive_matches_order req order =
     ensure (co_outgoing_pay_req order = req \<and> (case co_incoming_invoice order of CchLightning _ \<Rightarrow> True | _ \<Rightarrow> False))
       (ConflictingReceiveBTCRequest (co_payment_hash order))"

definition ensure_receive_matches_creation :: "bytes \<Rightarrow> receive_creation \<Rightarrow> (unit, cch_error) res" where
  "ensure_receive_matches_creation req rc = ensure (rc_fiber_pay_req rc = req) (ConflictingReceiveBTCRequest (rc_payment_hash rc))"

definition validate_lnd_payment_request :: "create_env \<Rightarrow> receive_creation \<Rightarrow> bytes \<Rightarrow> (bolt11, cch_error) res" where
  "validate_lnd_payment_request E rc req =
     bind_res (parse_btc E req) (\<lambda>invoice.
     bind_res (receive_btc_total_msat (rc_amount_sats rc) (rc_fee_sats rc)) (\<lambda>total_msat.
     bind_res (ensure (bt_payment_hash invoice = rc_payment_hash rc) (LndInvoiceMismatch (rc_payment_hash rc))) (\<lambda>_.
     bind_res (ensure (bt_amount_msat invoice = Some total_msat) (LndInvoiceMismatch (rc_payment_hash rc))) (\<lambda>_.
     bind_res (ensure (bt_min_final_cltv invoice = rc_btc_final_tlc_expiry_delta_blocks rc) (LndInvoiceMismatch (rc_payment_hash rc))) (\<lambda>_.
     bind_res (parse_ckb E (rc_fiber_pay_req rc)) (\<lambda>fiber.
     bind_res (ensure (bt_currency invoice = expected_ln_currency (iv_currency fiber)) (LndInvoiceMismatch (rc_payment_hash rc))) (\<lambda>_.
     Ok invoice)))))))"

definition validate_recovered_lnd_invoice :: "create_env \<Rightarrow> receive_creation \<Rightarrow> lnd_invoice \<Rightarrow> (bolt11, cch_error) res" where
  "validate_recovered_lnd_invoice E rc li =
     bind_res (receive_btc_total_msat (rc_amount_sats rc) (rc_fee_sats rc)) (\<lambda>total_msat.
     bind_res (ensure (li_r_hash li = rc_payment_hash rc) (LndInvoiceMismatch (rc_payment_hash rc))) (\<lambda>_.
     bind_res (ensure (li_value_msat li = total_msat) (LndInvoiceMismatch (rc_payment_hash rc))) (\<lambda>_.
     bind_res (ensure (li_cltv_expiry li = rc_btc_final_tlc_expiry_delta_blocks rc) (LndInvoiceMismatch (rc_payment_hash rc))) (\<lambda>_.
     bind_res (ensure (li_state li \<noteq> LndCanceled \<and> li_state li \<noteq> LndSettled) (LndInvoiceMismatch (rc_payment_hash rc))) (\<lambda>_.
     validate_lnd_payment_request E rc (li_payment_request li))))))"

definition create_or_recover_lnd_invoice :: "create_env \<Rightarrow> cch_config \<Rightarrow> receive_creation \<Rightarrow> (bolt11, cch_error) res" where
  "create_or_recover_lnd_invoice E cf rc =
     bind_res (ensure (\<not> receive_creation_expired rc (now_secs E 3)) (ReceiveBTCOrderCreationExpired (rc_payment_hash rc))) (\<lambda>_.
     bind_res (parse_ckb E (rc_fiber_pay_req rc)) (\<lambda>fiber.
     bind_res (remaining_outgoing_invoice_expiry_seconds cf fiber (now_secs E 4)) (\<lambda>fiber_expiry.
     bind_res (receive_remaining_expiry_seconds rc (now_secs E 4)) (\<lambda>order_expiry.
     bind_res (receive_btc_total_msat (rc_amount_sats rc) (rc_fee_sats rc)) (\<lambda>total_msat.
     case cv_add_hold_invoice E (rc_payment_hash rc) total_msat (min fiber_expiry order_expiry) (rc_btc_final_tlc_expiry_delta_blocks rc) of
       Ok req \<Rightarrow> validate_lnd_payment_request E rc req
     | Panic \<Rightarrow> Panic
     | Err add_error \<Rightarrow> (case cv_lookup_lnd_invoice E 1 of
           Ok (Some li) \<Rightarrow> validate_recovered_lnd_invoice E rc li
         | Ok None \<Rightarrow> Err add_error
         | Err _ \<Rightarrow> Err LndRpcError
         | Panic \<Rightarrow> Panic))))))"

definition preflight_limits :: "u128 \<Rightarrow> u128 \<Rightarrow> u64 \<Rightarrow> u64 \<Rightarrow> u64 \<times> u128 \<times> u64" where
  "preflight_limits amount_sats fee_sats percentage btc_final_cltv_millis =
     (let budget = outgoing_fee_budget_from_fee_sats fee_sats percentage
      in (min (btc_final_cltv_millis div 2) MAX_PAYMENT_TLC_EXPIRY_LIMIT, budget, outgoing_max_fee_rate amount_sats budget))"

definition BTC_BLOCK_TIME_MILLIS :: u64 where "BTC_BLOCK_TIME_MILLIS = 600000"

definition preflight_receive_btc_creation :: "create_env \<Rightarrow> receive_creation \<Rightarrow> (unit, cch_error) res" where
  "preflight_receive_btc_creation E rc =
     bind_res (ok_or (checked_mul (rc_btc_final_tlc_expiry_delta_blocks rc) BTC_BLOCK_TIME_MILLIS) CchConfigError) (\<lambda>millis.
     case preflight_limits (rc_amount_sats rc) (rc_fee_sats rc) (rc_max_outgoing_fee_percentage rc) millis of
       (limit, budget, rate) \<Rightarrow> cv_preflight E (rc_fiber_pay_req rc) limit budget rate)"

definition receive_incoming_invoice :: "create_env \<Rightarrow> cch_config \<Rightarrow> receive_creation \<Rightarrow> bool \<Rightarrow> (bolt11 \<times> cch_order_status, cch_error) res" where
  "receive_incoming_invoice E cf rc preflight_complete =
     bind_res (cv_lookup_lnd_invoice E 0) (\<lambda>known. case known of
        Some li \<Rightarrow> bind_res (validate_recovered_lnd_invoice E rc li) (\<lambda>invoice.
          Ok (invoice, if li_state li = LndAccepted then CchIncomingAccepted else CchPending))
      | None \<Rightarrow>
          if receive_creation_expired rc (now_secs E 2) then Err (ReceiveBTCOrderCreationExpired (rc_payment_hash rc))
          else bind_res (if preflight_complete then Ok () else preflight_receive_btc_creation E rc) (\<lambda>_.
               bind_res (create_or_recover_lnd_invoice E cf rc) (\<lambda>invoice. Ok (invoice, CchPending))))"

definition receive_order :: "receive_creation \<Rightarrow> bolt11 \<Rightarrow> u128 \<Rightarrow> cch_order_status \<Rightarrow> cch_order" where
  "receive_order rc invoice total_sats status =
     \<lparr>co_created_at = rc_created_at rc, co_expiry_delta_seconds = rc_order_expiry_delta_seconds rc,
      co_wrapped_btc_type_script = rc_wrapped_btc_type_script rc, co_outgoing_pay_req = rc_fiber_pay_req rc, co_incoming_invoice = CchLightning invoice,
      co_payment_hash = rc_payment_hash rc, co_payment_preimage = None, co_amount_sats = total_sats, co_fee_sats = rc_fee_sats rc,
      co_status = status, co_failure_reason = None\<rparr>"

definition commit_receive_order :: "receive_creation \<Rightarrow> cch_order \<Rightarrow> cch_state \<Rightarrow> (cch_state \<times> cch_order, cch_error) res" where
  "commit_receive_order rc order c = (case store_complete_receive order c of
      Ok c \<Rightarrow> Ok (c, order)
    | Panic \<Rightarrow> Panic
    | Err e \<Rightarrow> (case cs_orders c (rc_payment_hash rc) of
          None \<Rightarrow> Err (StoreNotFound (rc_payment_hash rc))
        | Some existing \<Rightarrow> bind_res (ensure_receive_matches_order (rc_fiber_pay_req rc) existing) (\<lambda>_.
            Ok (delete_receive_creation (rc_payment_hash rc) c, existing))))"

definition complete_receive_btc_order_creation :: "create_env \<Rightarrow> receive_creation \<Rightarrow> bool \<Rightarrow> cch_state \<Rightarrow> (cch_state \<times> cch_order, cch_error) res" where
  "complete_receive_btc_order_creation E rc preflight_complete c =
     bind_res (receive_incoming_invoice E (cs_config c) rc preflight_complete) (\<lambda>(invoice, status).
     bind_res (ok_or (checked_add (rc_amount_sats rc) (rc_fee_sats rc)) ReceiveBTCOrderAmountTooLarge) (\<lambda>total_sats.
     commit_receive_order rc (receive_order rc invoice total_sats status) c))"

definition complete_receive_with_tracking ::
  "create_env \<Rightarrow> receive_creation \<Rightarrow> bool \<Rightarrow> cch_state \<Rightarrow> cch_state \<times> (cch_order, cch_error) res" where
  "complete_receive_with_tracking E rc preflight_complete c = (case reserve_lnd_invoice_tracking E (rc_payment_hash rc) of
      Err e \<Rightarrow> (c, Err e)
    | Panic \<Rightarrow> (c, Panic)
    | Ok _ \<Rightarrow> (case complete_receive_btc_order_creation E rc preflight_complete c of
          Ok (c, order) \<Rightarrow> (c, Ok order)
        | Err e \<Rightarrow> (emit_cch (CchStopTracking (rc_payment_hash rc)) c, Err e)
        | Panic \<Rightarrow> (c, Panic)))"

definition receive_fee_sats :: "cch_config \<Rightarrow> u128 \<Rightarrow> (u128, cch_error) res" where
  "receive_fee_sats cf amount_sats =
     ok_or (Option.bind (checked_mul amount_sats (ucast (cf_fee_rate_per_million_sats cf))) (\<lambda>v.
            checked_add (v div 1000000) (ucast (cf_base_fee_sats cf)))) ReceiveBTCOrderAmountTooLarge"

definition check_ckb_expiry_delta :: "cch_config \<Rightarrow> ckb_invoice \<Rightarrow> (u64, cch_error) res" where
  "check_ckb_expiry_delta cf iv =
     bind_res (ok_or (checked_mul (cf_btc_final_tlc_expiry_delta_blocks cf) BTC_BLOCK_TIME_MILLIS) CchConfigError) (\<lambda>millis.
     bind_res (ensure (\<not> final_tlc_minimum_expiry_delta_or_default iv \<ge> millis div 2) CKBInvoiceFinalTlcExpiryDeltaTooLarge) (\<lambda>_. Ok millis))"

definition prepare_receive_btc :: "create_env \<Rightarrow> cch_config \<Rightarrow> currency \<Rightarrow> bytes \<Rightarrow> ckb_invoice \<Rightarrow> (receive_creation, cch_error) res" where
  "prepare_receive_btc E cf currency req iv =
     (let h = id_payment_hash (iv_data iv) in
      bind_res (ensure (iv_currency iv = currency) CKBInvoiceNetworkMismatch) (\<lambda>_.
      bind_res (ok_or (iv_amount iv) CKBInvoiceMissingAmount) (\<lambda>amount_sats.
      bind_res (receive_fee_sats cf amount_sats) (\<lambda>fee_sats.
      bind_res (receive_btc_total_msat amount_sats fee_sats) (\<lambda>_.
      bind_res (check_ckb_expiry_delta cf iv) (\<lambda>btc_final_cltv_millis.
      let created_at = now_secs E 0 in
      bind_res (ensure (\<not> id_timestamp (iv_data iv) > ucast (cv_now_ms E 0)) CKBInvoiceCreationTimeInFuture) (\<lambda>_.
      bind_res (remaining_outgoing_invoice_expiry_seconds cf iv created_at) (\<lambda>_.
      bind_res (cv_wrapped_btc_type_script E) (\<lambda>script.
      bind_res (ensure (udt_type_script iv = Some script) WrappedBTCTypescriptMismatch) (\<lambda>_.
      bind_res (ensure (unwrap_or (invoice_hash_algorithm iv) CkbHash = Sha256) CKBInvoiceIncompatibleHashAlgorithm) (\<lambda>_.
      case preflight_limits amount_sats fee_sats (cf_max_outgoing_fee_percentage cf) btc_final_cltv_millis of (limit, budget, rate) \<Rightarrow>
      bind_res (cv_preflight E req limit budget rate) (\<lambda>_.
      bind_res (remaining_outgoing_invoice_expiry_seconds cf iv (now_secs E 1)) (\<lambda>_.
      Ok \<lparr>rc_created_at = created_at, rc_order_expiry_delta_seconds = cf_order_expiry_delta_seconds cf, rc_fiber_pay_req = req, rc_payment_hash = h,
          rc_amount_sats = amount_sats, rc_fee_sats = fee_sats, rc_wrapped_btc_type_script = script,
          rc_btc_final_tlc_expiry_delta_blocks = cf_btc_final_tlc_expiry_delta_blocks cf,
          rc_max_outgoing_fee_percentage = cf_max_outgoing_fee_percentage cf\<rparr>)))))))))))))"

definition receive_btc :: "create_env \<Rightarrow> bytes \<Rightarrow> cch_state \<Rightarrow> cch_state \<times> (cch_order \<times> bool, cch_error) res" where
  "receive_btc E req c =
     bind_st (c, parse_ckb E req) (\<lambda>c iv.
     let h = id_payment_hash (iv_data iv) in
     (case get_order_or_none c h of
        Some order \<Rightarrow> (c, bind_res (ensure_receive_matches_order req order) (\<lambda>_. Ok (order, False)))
      | None \<Rightarrow> (case cs_receive_creations c h of
          Some rc \<Rightarrow>
            bind_st (c, ensure_receive_matches_creation req rc) (\<lambda>c _.
            bind_st (complete_receive_with_tracking E rc False c) (\<lambda>c order. (c, Ok (order, True))))
        | None \<Rightarrow>
            bind_st (c, bind_res (prepare_receive_btc E (cs_config c) (cs_currency c) req iv) (\<lambda>rc.
                        bind_res (reserve_lnd_invoice_tracking E h) (\<lambda>_. Ok rc))) (\<lambda>c rc.
            (case insert_receive_creation rc c of
               Err e \<Rightarrow> (emit_cch (CchStopTracking h) c, Err e)
             | Panic \<Rightarrow> (c, Panic)
             | Ok c \<Rightarrow> (case complete_receive_btc_order_creation E rc True c of
                   Ok (c, order) \<Rightarrow> (c, Ok (order, True))
                 | Err e \<Rightarrow> (emit_cch (CchStopTracking h) c, Err e)
                 | Panic \<Rightarrow> (c, Panic)))))))"

definition resume_receive_btc :: "create_env \<Rightarrow> hash256 \<Rightarrow> cch_state \<Rightarrow> cch_state \<times> (cch_order option, cch_error) res" where
  "resume_receive_btc E h c =
     (if get_order_or_none c h \<noteq> None then (delete_receive_creation h c, Ok None)
      else case cs_receive_creations c h of
          None \<Rightarrow> (c, Ok None)
        | Some rc \<Rightarrow> bind_st (complete_receive_with_tracking E rc False c) (\<lambda>c order. (c, Ok (Some order))))"

section \<open>Messages that create orders\<close>

definition retryable_receive_error :: "cch_error \<Rightarrow> bool" where
  "retryable_receive_error e \<longleftrightarrow> e \<in> {LndChannelError, LndRpcError, LndInvoiceTrackerCapacityExceeded, FiberNodeError}"

definition retryable_send_error :: "cch_error \<Rightarrow> bool" where
  "retryable_send_error e \<longleftrightarrow> e \<in> {LndPaymentTrackerError, LndPaymentTrackerCapacityExceeded, FiberNodeError}"

definition schedule_receive_creation_retry :: "hash256 \<Rightarrow> u32 \<Rightarrow> cch_state \<Rightarrow> cch_state" where
  "schedule_receive_creation_retry h n c =
     (if h \<in> cs_pending_receive_retries c then c
      else emit_cch (CchResumeReceive (calculate_retry_delay n) h (saturating_add n 1)) (c\<lparr>cs_pending_receive_retries := insert h (cs_pending_receive_retries c)\<rparr>))"

definition schedule_send_creation_retry :: "hash256 \<Rightarrow> u32 \<Rightarrow> cch_state \<Rightarrow> cch_state" where
  "schedule_send_creation_retry h n c =
     (if h \<in> cs_pending_send_retries c then c
      else emit_cch (CchResumeSend (calculate_retry_delay n) h (saturating_add n 1)) (c\<lparr>cs_pending_send_retries := insert h (cs_pending_send_retries c)\<rparr>))"

text \<open>The reply to a request that finds a creation of the same hash under way.\<close>

definition pending_send_error :: "cch_state \<Rightarrow> hash256 \<Rightarrow> bytes \<Rightarrow> cch_error option" where
  "pending_send_error c h req = (case cs_send_creations c h of
      Some sc \<Rightarrow> Some (case ensure_send_matches_creation req sc of Err e \<Rightarrow> e | _ \<Rightarrow> SendBTCOrderCreationInProgress h)
    | None \<Rightarrow> (case cs_active_send_requests c h of
        Some other \<Rightarrow> Some (if other \<noteq> req then ConflictingSendBTCRequest h else SendBTCOrderCreationInProgress h)
      | None \<Rightarrow> None))"

text \<open>Accepting a request starts a worker; a port that its caller closed starts nothing.\<close>

definition handle_send_btc :: "create_env \<Rightarrow> currency \<Rightarrow> bytes \<Rightarrow> bool \<Rightarrow> cch_state \<Rightarrow> cch_state \<times> (hash256 option, cch_error) res" where
  "handle_send_btc E currency req port_closed c =
     (if cs_startup_recovery_in_progress c then (c, Err StartupRecoveryInProgress)
      else if port_closed then (c, Ok None)
      else bind_st (c, bind_res (ensure (currency = cs_currency c) CKBInvoiceNetworkMismatch) (\<lambda>_. parse_btc E req)) (\<lambda>c invoice.
        let h = bt_payment_hash invoice;
            busy = (h \<in> cs_active_send_workers c \<or> h \<in> cs_pending_send_retries c) in
        case (if busy then pending_send_error c h req else None) of
          Some e \<Rightarrow> (c, Err e)
        | None \<Rightarrow>
            let c = (if busy then c\<lparr>cs_pending_send_retries := cs_pending_send_retries c - {h}\<rparr> else c)
            in (c\<lparr>cs_active_send_workers := insert h (cs_active_send_workers c),
                  cs_active_send_requests := (cs_active_send_requests c)(h \<mapsto> req)\<rparr>, Ok (Some h))))"

definition drop_deferred :: "hash256 \<Rightarrow> cch_state \<Rightarrow> cch_state" where
  "drop_deferred h c = c\<lparr>cs_deferred_statuses := (cs_deferred_statuses c)(h := None)\<rparr>"

definition fail_send_creation :: "hash256 \<Rightarrow> cch_error \<Rightarrow> cch_state \<Rightarrow> cch_state" where
  "fail_send_creation h e c =
     (if cs_send_creations c h \<noteq> None \<and> retryable_send_error e then schedule_send_creation_retry h 0 c else drop_deferred h c)"

definition handle_send_worker_completed ::
  "hashers \<Rightarrow> u64 \<Rightarrow> hash256 \<Rightarrow> (cch_order \<times> bool, cch_error) res \<Rightarrow> cch_state \<Rightarrow> cch_state \<times> (cch_order, cch_error) res" where
  "handle_send_worker_completed H now_ms h result c =
     (let c = c\<lparr>cs_pending_send_retries := cs_pending_send_retries c - {h}\<rparr>;
          (c, result) = (case result of
             Ok (_, is_new) \<Rightarrow> (case reconcile_deferred H now_ms h c of
                 (c, Ok (order, applied)) \<Rightarrow>
                   (if is_new \<or> applied
                    then append_actions (co_payment_hash order) (if is_new then on_starting order else on_entering order) (schedule_job_on_entering order c)
                    else c, Ok order)
               | (c, Err e) \<Rightarrow> (c, Err e)
               | (c, Panic) \<Rightarrow> (c, Panic))
           | Err e \<Rightarrow> (c, Err e)
           | Panic \<Rightarrow> (c, Panic));
          c = (case result of Err e \<Rightarrow> fail_send_creation h e c | _ \<Rightarrow> c)
      in (c\<lparr>cs_active_send_workers := cs_active_send_workers c - {h}, cs_active_send_requests := (cs_active_send_requests c)(h := None)\<rparr>, result))"

definition handle_resume_send :: "hash256 \<Rightarrow> cch_state \<Rightarrow> cch_state \<times> bool" where
  "handle_resume_send h c =
     (let c = c\<lparr>cs_pending_send_retries := cs_pending_send_retries c - {h}\<rparr>
      in if h \<in> cs_active_send_workers c then (c, False) else (c\<lparr>cs_active_send_workers := insert h (cs_active_send_workers c)\<rparr>, True))"

definition handle_resume_send_worker_completed ::
  "hashers \<Rightarrow> u64 \<Rightarrow> hash256 \<Rightarrow> u32 \<Rightarrow> (cch_order option, cch_error) res \<Rightarrow> cch_state \<Rightarrow> cch_state \<times> (unit, cch_error) res" where
  "handle_resume_send_worker_completed H now_ms h n result c =
     bind_st (case result of
         Ok (Some _) \<Rightarrow> (case reconcile_deferred H now_ms h c of
             (c, Ok (order, _)) \<Rightarrow> (append_actions (co_payment_hash order) (on_starting order) (schedule_job_on_entering order c), Ok ())
           | (c, Err e) \<Rightarrow> (c, Err e)
           | (c, Panic) \<Rightarrow> (c, Panic))
       | Ok None \<Rightarrow> (drop_deferred h c, Ok ())
       | Err e \<Rightarrow> (if retryable_send_error e then schedule_send_creation_retry h n c else drop_deferred h c, Ok ())
       | Panic \<Rightarrow> (c, Panic)) (\<lambda>c _.
     (c\<lparr>cs_active_send_workers := cs_active_send_workers c - {h}\<rparr>, Ok ()))"

definition handle_receive_btc :: "create_env \<Rightarrow> bytes \<Rightarrow> cch_state \<Rightarrow> cch_state \<times> (cch_order, cch_error) res" where
  "handle_receive_btc E req c =
     (if cs_startup_recovery_in_progress c then (c, Err StartupRecoveryInProgress)
      else let h = map_option (\<lambda>iv. id_payment_hash (iv_data iv)) (ce_parse_ckb E req);
               pending = (case h of
                   Some h \<Rightarrow> if h \<in> cs_pending_receive_retries c
                     then map_option (\<lambda>rc. case ensure_receive_matches_creation req rc of Err e \<Rightarrow> e | _ \<Rightarrow> ReceiveBTCOrderCreationInProgress h) (cs_receive_creations c h)
                     else None
                 | None \<Rightarrow> None)
           in (case (case pending of Some e \<Rightarrow> (c, Err e) | None \<Rightarrow> receive_btc E req c) of
                 (c, Ok (order, is_new)) \<Rightarrow>
                   (if is_new
                    then append_actions (co_payment_hash order) (on_starting order)
                      (schedule_job_for_non_final_order order (c\<lparr>cs_pending_receive_retries := cs_pending_receive_retries c - {co_payment_hash order}\<rparr>))
                    else c, Ok order)
               | (c, Err e) \<Rightarrow>
                   (case h of
                      Some h \<Rightarrow> if cs_receive_creations c h \<noteq> None \<and> retryable_receive_error e then schedule_receive_creation_retry h 0 c else c
                    | None \<Rightarrow> c, Err e)
               | (c, Panic) \<Rightarrow> (c, Panic)))"

definition handle_resume_receive :: "create_env \<Rightarrow> hash256 \<Rightarrow> u32 \<Rightarrow> cch_state \<Rightarrow> cch_state" where
  "handle_resume_receive E h n c =
     (case resume_receive_btc E h (c\<lparr>cs_pending_receive_retries := cs_pending_receive_retries c - {h}\<rparr>) of
        (c, Ok (Some order)) \<Rightarrow> append_actions (co_payment_hash order) (on_starting order) (schedule_job_on_entering order c)
      | (c, Ok None) \<Rightarrow> c
      | (c, Err e) \<Rightarrow> if retryable_receive_error e then schedule_receive_creation_retry h n c else c
      | (c, Panic) \<Rightarrow> c)"

section \<open>Executing actions\<close>

text \<open>What an action asks another actor or LND to do. The executor reports whether the request was handed over; when it was not, the action is
  tried again later.\<close>

datatype action_request =
    NoRequest
  | TrackInvoiceRequest
  | OutgoingRequest outgoing_payment
  | TrackPaymentRequest
  | IncomingRequest invoice_request

definition dispatch_action :: "cch_env \<Rightarrow> u64 \<Rightarrow> u64 \<Rightarrow> cch_order \<Rightarrow> cch_action \<Rightarrow> action_request" where
  "dispatch_action E now_ms percentage order action = (case action of
      TrackIncomingInvoice \<Rightarrow> if dispatch_track_incoming order then TrackInvoiceRequest else NoRequest
    | SendOutgoingPayment \<Rightarrow> OutgoingRequest (dispatch_send_outgoing E now_ms percentage order)
    | TrackOutgoingPayment \<Rightarrow> if dispatch_track_outgoing order then TrackPaymentRequest else NoRequest
    | SettleIncomingInvoice \<Rightarrow> IncomingRequest (dispatch_settle order)
    | CancelIncomingInvoice \<Rightarrow> IncomingRequest (dispatch_cancel order))"

definition has_executor :: "action_request \<Rightarrow> bool" where
  "has_executor r \<longleftrightarrow> r \<notin> {NoRequest, OutgoingRequest NoOutgoing, OutgoingRequest FailOrder, IncomingRequest NoInvoiceRequest}"

definition handle_execute_action ::
  "cch_env \<Rightarrow> u64 \<Rightarrow> hash256 \<Rightarrow> cch_action \<Rightarrow> u32 \<Rightarrow> bool \<Rightarrow> cch_state \<Rightarrow> cch_state \<times> action_request" where
  "handle_execute_action E now_ms h action retry_count executed c = (case get_order_for_action_or_none c h action of
      None \<Rightarrow> (c, NoRequest)
    | Some order \<Rightarrow>
        let request = dispatch_action E now_ms (cf_max_outgoing_fee_percentage (cs_config c)) order action
        in (if has_executor request \<and> \<not> executed then schedule_action_retry h action retry_count c else c, request))"

text \<open>After the connection to the Fiber node was lost, the payments under way are looked up again. The keys of the store are an argument.\<close>

definition handle_reconcile_fiber_payments :: "hash256 list \<Rightarrow> cch_state \<Rightarrow> cch_state" where
  "handle_reconcile_fiber_payments keys c =
     fold (\<lambda>order. emit_cch (CchExecuteAction (co_payment_hash order) TrackOutgoingPayment 0))
       (filter (\<lambda>order. co_status order \<in> {CchIncomingAccepted, CchOutgoingInFlight}) (List.map_filter (get_order_or_none c) keys)) c"

section \<open>The scheduler\<close>

text \<open>
  The scheduler (\<^verbatim>\<open>cch/scheduler.rs\<close>) keeps its jobs in a heap ordered by execution time; the model keeps them in a list sorted by that time. The wake-up is the
  delay in seconds after which the scheduler processes its jobs, 0 for a message sent at once.
\<close>

definition PRUNE_DELAY_SECONDS :: u64 where "PRUNE_DELAY_SECONDS = 21 * 24 * 60 * 60"

datatype scheduled_job = ExpireOrder hash256 u64 | PruneOrder hash256 u64

fun execution_time :: "scheduled_job \<Rightarrow> u64" where
  "execution_time (ExpireOrder _ t) = t"
| "execution_time (PruneOrder _ t) = t"

datatype scheduler_message = ScheduleExpiry hash256 u64 u64 | SchedulePrune hash256 u64 u64 | ProcessJobs

record scheduler =
  sd_jobs :: "scheduled_job list"
  sd_wake :: "u64 option"

definition schedule_next_process :: "u64 \<Rightarrow> scheduler \<Rightarrow> scheduler" where
  "schedule_next_process current_time s = s\<lparr>sd_wake := (case sd_jobs s of
      [] \<Rightarrow> None
    | job # _ \<Rightarrow> if execution_time job \<le> current_time then Some 0 else Some (min (execution_time job - current_time) 3600))\<rparr>"

definition push_job :: "u64 \<Rightarrow> scheduled_job \<Rightarrow> scheduler \<Rightarrow> scheduler" where
  "push_job current_time job s = schedule_next_process current_time (s\<lparr>sd_jobs := insort_key execution_time job (sd_jobs s)\<rparr>)"

fun extract_due_jobs :: "u64 \<Rightarrow> scheduled_job list \<Rightarrow> scheduled_job list \<times> scheduled_job list" where
  "extract_due_jobs current_time [] = ([], [])"
| "extract_due_jobs current_time (job # jobs) =
     (if execution_time job \<le> current_time then (case extract_due_jobs current_time jobs of (due, rest) \<Rightarrow> (job # due, rest)) else ([], job # jobs))"

definition prune_order :: "hash256 \<Rightarrow> cch_state \<Rightarrow> cch_state" where
  "prune_order h c = (case get_order_or_none c h of
      None \<Rightarrow> c
    | Some order \<Rightarrow>
        if \<not> order_final order then c
        else let c = emit_cch (CchStopTrackingPayment h) (emit_cch (CchStopTracking h) c) in c\<lparr>cs_orders := (cs_orders c)(h := None)\<rparr>)"

fun run_job :: "scheduled_job \<Rightarrow> cch_state \<Rightarrow> cch_state" where
  "run_job (ExpireOrder h _) c = emit_cch (CchExpireOrder h) c"
| "run_job (PruneOrder h _) c = prune_order h c"

definition process_due_jobs :: "u64 \<Rightarrow> scheduler \<Rightarrow> cch_state \<Rightarrow> scheduler \<times> cch_state" where
  "process_due_jobs current_time s c = (case extract_due_jobs current_time (sd_jobs s) of (due, rest) \<Rightarrow>
     (schedule_next_process current_time (s\<lparr>sd_jobs := rest\<rparr>), fold run_job due c))"

fun handle_scheduler :: "u64 \<Rightarrow> scheduler_message \<Rightarrow> scheduler \<Rightarrow> cch_state \<Rightarrow> scheduler \<times> cch_state" where
  "handle_scheduler current_time (ScheduleExpiry h created_at delta) s c = (push_job current_time (ExpireOrder h (saturating_add created_at delta)) s, c)"
| "handle_scheduler current_time (SchedulePrune h created_at delta) s c =
     (push_job current_time (PruneOrder h (saturating_add (saturating_add created_at delta) PRUNE_DELAY_SECONDS)) s, c)"
| "handle_scheduler current_time ProcessJobs s c = process_due_jobs current_time s c"

text \<open>The scheduler never oversleeps: its jobs stay sorted, and as long as there is one the scheduler is woken within the hour and no later than
  the first job is due. When it is woken it runs exactly the jobs that are due.\<close>

definition scheduler_ok :: "u64 \<Rightarrow> scheduler \<Rightarrow> bool" where
  "scheduler_ok now s \<longleftrightarrow> sorted (map execution_time (sd_jobs s)) \<and> (case sd_wake s of
      None \<Rightarrow> sd_jobs s = []
    | Some delay \<Rightarrow> delay \<le> 3600 \<and> (\<forall>job \<in> set (sd_jobs s). unat now + unat delay \<le> max (unat (execution_time job)) (unat now)))"

lemma schedule_next_ok:
  assumes "sorted (map execution_time (sd_jobs s))"
  shows "scheduler_ok now (schedule_next_process now s)"
proof (cases "sd_jobs s")
  case Nil
  then show ?thesis by (simp add: scheduler_ok_def schedule_next_process_def)
next
  case (Cons job jobs)
  let ?t = "execution_time job"
  have first: "unat ?t \<le> unat (execution_time j)" if "j \<in> set (sd_jobs s)" for j
    using assms that Cons by (auto simp: word_le_nat_alt)
  show ?thesis
  proof (cases "?t \<le> now")
    case True
    then show ?thesis using assms Cons by (simp add: scheduler_ok_def schedule_next_process_def)
  next
    case False
    have "unat (min (?t - now) 3600) \<le> unat ?t - unat now"
      using False by (simp add: min_def unat_sub word_le_nat_alt)
    then have "unat now + unat (min (?t - now) 3600) \<le> unat ?t" using False by (simp add: word_le_nat_alt)
    moreover have "min (?t - now) 3600 \<le> 3600" by simp
    ultimately show ?thesis using False assms first le_trans le_max_iff_disj by (fastforce simp: scheduler_ok_def schedule_next_process_def Cons)
  qed
qed

lemma extract_due_jobs_exact:
  assumes "sorted (map execution_time jobs)"
  shows "extract_due_jobs now jobs = (filter (\<lambda>j. execution_time j \<le> now) jobs, filter (\<lambda>j. \<not> execution_time j \<le> now) jobs)"
  using assms
proof (induction jobs)
  case (Cons job jobs)
  have "filter (\<lambda>j. \<not> execution_time j \<le> now) jobs = jobs" "filter (\<lambda>j. execution_time j \<le> now) jobs = []" if "\<not> execution_time job \<le> now"
    using Cons.prems that by (auto simp: filter_id_conv filter_empty_conv)
  with Cons show ?case by auto
qed simp

lemma scheduler_runs_due_jobs:
  assumes "scheduler_ok before s" and "handle_scheduler now message s c = (s', c')"
  shows "scheduler_ok now s'"
    and "message = ProcessJobs \<Longrightarrow> c' = fold run_job (filter (\<lambda>j. execution_time j \<le> now) (sd_jobs s)) c \<and> sd_jobs s' = filter (\<lambda>j. now < execution_time j) (sd_jobs s)"
proof -
  have sorted: "sorted (map execution_time (sd_jobs s))" using assms(1) by (simp add: scheduler_ok_def)
  note due = extract_due_jobs_exact [OF sorted, of now]
  show "scheduler_ok now s'"
  proof (cases message)
    case ProcessJobs
    have "sorted (map execution_time (filter (\<lambda>j. \<not> execution_time j \<le> now) (sd_jobs s)))" by (rule sorted_filter [OF sorted])
    then show ?thesis using assms(2) due ProcessJobs schedule_next_ok by (auto simp: process_due_jobs_def)
  qed (use assms(2) sorted schedule_next_ok in \<open>auto simp: push_job_def sorted_insort_key\<close>)
  show "c' = fold run_job (filter (\<lambda>j. execution_time j \<le> now) (sd_jobs s)) c \<and> sd_jobs s' = filter (\<lambda>j. now < execution_time j) (sd_jobs s)" if "message = ProcessJobs"
    using assms(2) due that by (auto simp: process_due_jobs_def schedule_next_process_def not_le)
qed

end
