(* ===== verification/Cch_Safety.thy ===== *)
theory Cch_Safety
  imports Cch_Actor
begin

text \<open>
  Safety of the cross-chain hub: every message, job and restart keeps the orders sound, a paid order is settled and never failed, and an outgoing
  payment leaves the hub the time to claim the incoming one.
\<close>

section \<open>Runs of the hub\<close>

text \<open>
  The messages the hub handles, in any order. A worker that creates an order works on the shared store; its result comes back as a message. The
  hash functions and the parsers of invoices are the same throughout a run; the answers of the outside change from message to message.
\<close>

inductive cch_message :: "cch_env \<Rightarrow> cch_state \<Rightarrow> cch_state \<Rightarrow> bool" for W where
  tracking: "cch_message W c (handle_tracking_message (ce_hashers W) now h event c)"
| store_change: "cch_message W c (handle_store_change (ce_hashers W) now change c)"
| expire: "cch_message W c (handle_expire_order h c)"
| startup: "cch_message W c (snd (continue_startup_recovery now keys c))"
| execute: "cch_message W c (fst (handle_execute_action W now h action n executed c))"
| reconcile: "cch_message W c (handle_reconcile_fiber_payments keys c)"
| action_retry: "cch_message W c (handle_action_retry h action n c)"
| accept_send: "cch_env.truncate E = W \<Longrightarrow> cch_message W c (fst (handle_send_btc E currency req closed c))"
| run_send: "cch_env.truncate E = W \<Longrightarrow> cch_message W c (fst (send_btc E currency req c))"
| send_done: "cch_message W c (fst (handle_send_worker_completed (ce_hashers W) now h result c))"
| accept_resume_send: "cch_message W c (fst (handle_resume_send h c))"
| run_resume_send: "cch_env.truncate E = W \<Longrightarrow> cch_message W c (fst (resume_send_btc E h c))"
| resume_send_done: "cch_message W c (fst (handle_resume_send_worker_completed (ce_hashers W) now h n resumed c))"
| receive: "cch_env.truncate E = W \<Longrightarrow> cch_message W c (fst (handle_receive_btc E req c))"
| resume_receive: "cch_env.truncate E = W \<Longrightarrow> cch_message W c (handle_resume_receive E h n c)"

text \<open>A run: the hub handles a message, or the scheduler runs a job. Jobs run at any time here, so the results do not rest on the clock.\<close>

inductive cch_step :: "cch_env \<Rightarrow> cch_state \<Rightarrow> cch_state \<Rightarrow> bool" for W where
  message: "cch_message W c c' \<Longrightarrow> cch_step W c c'"
| due_job: "cch_step W c (run_job job c)"

lemma world_parsers:
  assumes "cch_env.truncate E = W"
  shows "ce_parse_btc E = ce_parse_btc W" "ce_parse_ckb E = ce_parse_ckb W"
  using assms by (auto simp: cch_env.truncate_def)

section \<open>The rows the handlers work on\<close>

text \<open>The three columns of the store that hold the orders and the intents to create them. Everything else a handler writes leaves them alone.\<close>

definition same_rows :: "cch_state \<Rightarrow> cch_state \<Rightarrow> bool" where
  "same_rows c c' \<longleftrightarrow> cs_orders c' = cs_orders c \<and> cs_send_creations c' = cs_send_creations c \<and> cs_receive_creations c' = cs_receive_creations c"

lemma same_rows_frame [simp]:
  "same_rows a (emit_cch e c) = same_rows a c" "same_rows a (append_actions h as c) = same_rows a c"
  "same_rows a (schedule_job_on_entering order c) = same_rows a c" "same_rows a (schedule_job_for_final_order order c) = same_rows a c"
  "same_rows a (schedule_job_for_non_final_order order c) = same_rows a c" "same_rows a (drop_deferred h c) = same_rows a c"
  "same_rows a (schedule_send_creation_retry h n c) = same_rows a c" "same_rows a (schedule_receive_creation_retry h n c) = same_rows a c"
  "same_rows a (fail_send_creation h err c) = same_rows a c" "same_rows a (schedule_action_retry h action n c) = same_rows a c"
  "same_rows a (c\<lparr>cs_pending_send_retries := x\<rparr>) = same_rows a c" "same_rows a (c\<lparr>cs_pending_receive_retries := x\<rparr>) = same_rows a c"
  "same_rows a (c\<lparr>cs_active_send_workers := x\<rparr>) = same_rows a c" "same_rows a (c\<lparr>cs_active_send_requests := y\<rparr>) = same_rows a c"
  "same_rows a (c\<lparr>cs_deferred_statuses := z\<rparr>) = same_rows a c" "same_rows a (c\<lparr>cs_startup_recovery_in_progress := b\<rparr>) = same_rows a c"
  by (simp_all add: same_rows_def emit_cch_def append_actions_def schedule_job_on_entering_def schedule_job_for_final_order_def
      schedule_job_for_non_final_order_def drop_deferred_def schedule_send_creation_retry_def schedule_receive_creation_retry_def fail_send_creation_def
      schedule_action_retry_def)

lemma same_rows_refl [simp]: "same_rows c c"
  by (simp add: same_rows_def)

lemma get_order_rows: "same_rows c c' \<Longrightarrow> get_order_or_none c' h = get_order_or_none c h"
  by (simp add: same_rows_def get_order_or_none_def)

lemma get_order_Some: "get_order_or_none c h = Some order \<Longrightarrow> \<exists>old. cs_orders c h = Some old \<and> order = normalize_amount_sats old"
  by (auto simp: get_order_or_none_def)

lemma get_active_Some: "get_active_order_or_none c h = Some order \<Longrightarrow> get_order_or_none c h = Some order"
  by (auto simp: get_active_order_or_none_def split: option.splits if_splits)

lemma expired_cases:
  assumes "update_if_expired_with_reason now reason order = (order', b)"
  shows "\<not> b \<and> order' = order \<or> b \<and> co_status order = CchPending \<and> (\<exists>text. order' = order\<lparr>co_status := CchFailed, co_failure_reason := Some text\<rparr>)"
  using assms by (auto simp: update_if_expired_with_reason_def split: option.splits if_splits)

text \<open>A tracking event is deferred, ignored, or applied to the order it is about.\<close>

lemma handle_tracking_event_cases:
  assumes "handle_tracking_event H now h event c = Ok (c', actions)"
  obtains (kept) "same_rows c c'"
  | (applied) order c1 updated where "get_order_or_none c h = Some order" "apply_tracking_event_to_order H now order event c = Ok (c1, updated)" "same_rows c1 c'"
proof (cases "(\<exists>status reason. event = InvoiceChanged status reason) \<and> (h \<in> cs_active_send_workers c \<or> h \<in> cs_pending_send_retries c)")
  case True
  with assms have "same_rows c c'" by (auto simp: handle_tracking_event_def)
  then show ?thesis by (rule kept)
next
  case False
  then have run: "(case get_active_order_or_none c h of None \<Rightarrow> Ok (c, [])
      | Some order \<Rightarrow> bind_res (apply_tracking_event_to_order H now order event c) (\<lambda>(c, updated).
            Ok (case updated of Some order \<Rightarrow> (schedule_job_on_entering order c, on_entering order) | None \<Rightarrow> (c, [])))) = (Ok (c', actions) :: (_, cch_error) res)"
    using assms by (cases event) (auto simp: handle_tracking_event_def)
  show ?thesis
  proof (cases "get_active_order_or_none c h")
    case None
    with run show ?thesis by (intro kept) simp
  next
    case (Some order)
    with run obtain c1 updated where ev: "apply_tracking_event_to_order H now order event c = Ok (c1, updated)"
      and "(c', actions) = (case updated of Some order \<Rightarrow> (schedule_job_on_entering order c1, on_entering order) | None \<Rightarrow> (c1, []))" by auto
    then have "same_rows c1 c'" by (auto split: option.splits)
    then show ?thesis by (rule applied [OF get_active_Some [OF Some] ev])
  qed
qed

section \<open>What every message keeps\<close>

text \<open>
  A relation between the rows before and after is kept by every message once it is kept by the few writes the handlers are made of:
  events and expiry of an order, intents, and orders made from an intent. The handlers are analysed once, here; the properties below only
  treat the writes.
\<close>

locale hub_relation =
  fixes W :: cch_env and R :: "cch_state \<Rightarrow> cch_state \<Rightarrow> bool"
  assumes rows: "same_rows c c' \<Longrightarrow> R c c'"
    and trans: "R a b \<Longrightarrow> R b d \<Longrightarrow> R a d"
    and dropped: "R c (delete_send_creation h c)" "R c (delete_receive_creation h c)"
    and event: "get_order_or_none c h = Some order \<Longrightarrow> apply_event (ce_hashers W) ev order = Ok (order', r) \<Longrightarrow> R c (update_cch_order order' c)"
    and expired: "get_order_or_none c h = Some order \<Longrightarrow> co_status order = CchPending \<Longrightarrow>
      R c (update_cch_order (order\<lparr>co_status := CchFailed, co_failure_reason := Some reason\<rparr>) c)"
    and send_intent: "prepare_send_btc E cf currency req invoice = Ok sc \<Longrightarrow> ce_parse_btc W req = Some invoice \<Longrightarrow> insert_send_creation sc c = Ok c' \<Longrightarrow> R c c'"
    and receive_intent: "prepare_receive_btc E cf currency req fiber = Ok rc \<Longrightarrow> ce_parse_ckb W req = Some fiber \<Longrightarrow> insert_receive_creation rc c = Ok c' \<Longrightarrow> R c c'"
    and send_order: "cs_send_creations c h = Some sc \<Longrightarrow> complete_send_btc_order_creation E t sc c = Ok (c', order) \<Longrightarrow> R c c'"
    and receive_order: "cs_receive_creations c h = Some rc \<Longrightarrow> complete_receive_btc_order_creation E rc flag c = Ok (c', order) \<Longrightarrow> R c c'"
begin

lemma refl [simp, intro]: "R c c"
  by (simp add: rows)

lemma rows_after: "R c d \<Longrightarrow> same_rows d d' \<Longrightarrow> R c d'"
  by (blast intro: trans rows)

lemma rows_before: "same_rows c d \<Longrightarrow> R d d' \<Longrightarrow> R c d'"
  by (blast intro: trans rows)

lemma event_applied:
  assumes "get_order_or_none c h = Some order" and "apply_tracking_event_to_order (ce_hashers W) now order ev c = Ok (c', updated)"
  shows "R c c'"
proof -
  obtain order1 b where pre: "(if co_status order = CchPending \<and> (case ev of InvoiceChanged InvReceived _ \<Rightarrow> True | _ \<Rightarrow> False)
      then update_if_expired_with_reason (now div 1000) ''Order expired'' order else (order, False)) = (order1, b)" by fastforce
  then have "\<not> b \<and> order1 = order \<or> b \<and> co_status order = CchPending \<and> (\<exists>text. order1 = order\<lparr>co_status := CchFailed, co_failure_reason := Some text\<rparr>)"
    using expired_cases [of "now div 1000" "''Order expired''" order order1 b] by (simp split: if_splits)
  then consider "\<not> b" "order1 = order" | reason where "b" "co_status order = CchPending" "order1 = order\<lparr>co_status := CchFailed, co_failure_reason := Some reason\<rparr>"
    by blast
  then show ?thesis
  proof cases
    case 1
    with assms(2) pre obtain order2 r where "apply_event (ce_hashers W) ev order = Ok (order2, r)" "c' = c \<or> c' = update_cch_order order2 c"
      by (auto simp: apply_tracking_event_to_order_def split: if_splits)
    then show ?thesis using event [OF assms(1)] by auto
  next
    case 2
    with assms(2) pre have "c' = update_cch_order order1 c" by (simp add: apply_tracking_event_to_order_def)
    then show ?thesis using expired [OF assms(1)] 2 by simp
  qed
qed

lemma tracking: "R c (handle_tracking_message (ce_hashers W) now h ev c)"
proof (cases "handle_tracking_event (ce_hashers W) now h ev c")
  case (Ok x)
  obtain c1 actions where x: "x = (c1, actions)" by (cases x)
  have "R c c1" using Ok [unfolded x] by (cases rule: handle_tracking_event_cases) (auto intro: rows rows_after event_applied)
  then show ?thesis using Ok x by (auto simp: handle_tracking_message_def intro: rows_after)
qed (auto simp: handle_tracking_message_def)

lemma store_change: "R c (handle_store_change (ce_hashers W) now change c)"
proof -
  have "R c (fold (\<lambda>(h, ev). handle_tracking_message (ce_hashers W) now h ev) events c)" for events
    by (induction events arbitrary: c) (auto intro: trans tracking)
  then show ?thesis by (simp add: handle_store_change_def)
qed

lemma expire: "R c (handle_expire_order h c)"
proof (cases "get_active_order_or_none c h")
  case None
  then show ?thesis by (simp add: handle_expire_order_def expire_order_def rows)
next
  case (Some order)
  then show ?thesis using expired [OF get_active_Some [OF Some], of "''Order expired''"]
    by (auto simp: handle_expire_order_def expire_order_def Let_def rows intro: rows_after)
qed

lemma recover:
  assumes "get_order_or_none c h = Some order"
  shows "R c (recover_persisted_order now order c)"
proof (cases "order_final order")
  case False
  obtain order1 b where e: "update_if_expired (now div 1000) order = (order1, b)" by fastforce
  show ?thesis
  proof (cases b)
    case True
    with expired_cases [OF e [unfolded update_if_expired_def]] expired [OF assms] have "R c (update_cch_order order1 c)" by auto
    then show ?thesis using False e True by (auto simp: recover_persisted_order_def intro: rows_after)
  qed (use False e in \<open>auto simp: recover_persisted_order_def Let_def rows split: cch_invoice.split\<close>)
qed (simp add: recover_persisted_order_def rows)

lemma startup: "R c (snd (continue_startup_recovery now keys c))"
proof -
  obtain os rs ss where keys: "keys = (os, rs, ss)" by (cases keys)
  show ?thesis using recover [of c "last os"]
    by (cases "os = []"; cases "get_order_or_none c (last os)") (auto simp: keys Let_def rows)
qed

lemma reconcile: "R c (fst (reconcile_deferred (ce_hashers W) now h c))"
proof (cases "get_order_or_none c h")
  case (Some order)
  show ?thesis
  proof (cases "cs_deferred_statuses c h")
    case deferred: (Some x)
    obtain status reason where x: "x = (status, reason)" by (cases x)
    let ?c = "c\<lparr>cs_deferred_statuses := (cs_deferred_statuses c)(h := None)\<rparr>"
    have known: "get_order_or_none ?c h = Some order" using Some get_order_rows [of c ?c h] by simp
    have "R c c1" if "apply_tracking_event_to_order (ce_hashers W) now order (InvoiceChanged status reason) ?c = Ok (c1, updated)" for c1 updated
      by (rule rows_before [OF _ event_applied [OF known that]]) simp
    then show ?thesis
      using Some deferred x by (auto simp: reconcile_deferred_def Let_def rows split: res.split option.split)
  qed (use Some in \<open>simp add: reconcile_deferred_def\<close>)
qed (simp add: reconcile_deferred_def)

lemma bind:
  assumes "R c (fst m)" and "\<And>s x. m = (s, Ok x) \<Longrightarrow> R s (fst (f s x))"
  shows "R c (fst (bind_st m f))"
  using assms by (cases m; cases "snd m") (auto intro: trans)

lemma send_tracked:
  assumes "cs_send_creations c h = Some sc"
  shows "R c (fst (complete_send_with_tracking E t sc c))"
  using send_order [OF assms] by (auto simp: complete_send_with_tracking_def rows split: res.split)

lemma receive_tracked:
  assumes "cs_receive_creations c h = Some rc"
  shows "R c (fst (complete_receive_with_tracking E rc flag c))"
  using receive_order [OF assms] by (auto simp: complete_receive_with_tracking_def rows split: res.split)

lemma send_written:
  assumes "prepare_send_btc E' cf currency req invoice = Ok sc" and "ce_parse_btc W req = Some invoice"
  shows "R c (fst (case insert_send_creation sc c of
               Err e \<Rightarrow> (emit_cch x c, Err e)
             | Panic \<Rightarrow> (c, Panic)
             | Ok c \<Rightarrow> (case complete_send_btc_order_creation E t sc c of
                   Ok (c, order) \<Rightarrow> (c, Ok (order, True))
                 | Err e \<Rightarrow> (emit_cch x c, Err e)
                 | Panic \<Rightarrow> (c, Panic))))"
proof (cases "insert_send_creation sc c")
  case (Ok c1)
  have "R c c1" by (rule send_intent [OF assms Ok])
  moreover have "cs_send_creations c1 (sb_payment_hash sc) = Some sc" using Ok by (auto simp: insert_send_creation_def split: if_splits)
  ultimately show ?thesis
    using send_order [of c1 "sb_payment_hash sc" sc E t]
    by (cases "complete_send_btc_order_creation E t sc c1") (auto simp: Ok intro: trans rows_after)
qed (simp_all add: rows)

lemma receive_written:
  assumes "prepare_receive_btc E' cf currency req fiber = Ok rc" and "ce_parse_ckb W req = Some fiber"
  shows "R c (fst (case insert_receive_creation rc c of
               Err e \<Rightarrow> (emit_cch x c, Err e)
             | Panic \<Rightarrow> (c, Panic)
             | Ok c \<Rightarrow> (case complete_receive_btc_order_creation E rc True c of
                   Ok (c, order) \<Rightarrow> (c, Ok (order, True))
                 | Err e \<Rightarrow> (emit_cch x c, Err e)
                 | Panic \<Rightarrow> (c, Panic))))"
proof (cases "insert_receive_creation rc c")
  case (Ok c1)
  have "R c c1" by (rule receive_intent [OF assms Ok])
  moreover have "cs_receive_creations c1 (rc_payment_hash rc) = Some rc" using Ok by (auto simp: insert_receive_creation_def split: if_splits)
  ultimately show ?thesis
    using receive_order [of c1 "rc_payment_hash rc" rc E True]
    by (cases "complete_receive_btc_order_creation E rc True c1") (auto simp: Ok intro: trans rows_after)
qed (simp_all add: rows)

lemma run_send:
  assumes "cch_env.truncate E = W"
  shows "R c (fst (send_btc E currency req c))"
proof -
  have "ce_parse_btc W req = Some invoice" if "parse_btc E req = Ok invoice" for invoice
    using that world_parsers [OF assms] by (auto simp: parse_btc_def ok_or_eq_Ok)
  then show ?thesis
    unfolding send_btc_def Let_def
    by (intro bind) (auto split: option.split simp: bind_res_eq_Ok intro!: bind intro: send_tracked send_written)
qed

lemma run_receive:
  assumes "cch_env.truncate E = W"
  shows "R c (fst (receive_btc E req c))"
proof -
  have "ce_parse_ckb W req = Some fiber" if "parse_ckb E req = Ok fiber" for fiber
    using that world_parsers [OF assms] by (auto simp: parse_ckb_def ok_or_eq_Ok)
  then show ?thesis
    unfolding receive_btc_def Let_def
    by (intro bind) (auto split: option.split simp: bind_res_eq_Ok intro!: bind intro: receive_tracked receive_written)
qed

lemma resume_send: "R c (fst (resume_send_btc E h c))"
  by (auto simp: resume_send_btc_def split: option.split intro!: bind dropped intro: send_tracked)

lemma resume_receive: "R c (fst (resume_receive_btc E h c))"
  by (auto simp: resume_receive_btc_def split: option.split intro!: bind dropped intro: receive_tracked)

lemma send_done: "R c (fst (handle_send_worker_completed (ce_hashers W) now h result c))"
proof -
  let ?c = "c\<lparr>cs_pending_send_retries := cs_pending_send_retries c - {h}\<rparr>"
  obtain c1 r1 where rec: "reconcile_deferred (ce_hashers W) now h ?c = (c1, r1)" by fastforce
  then have "R c c1" using rows_before [OF _ reconcile [of ?c now h], of c] by simp
  then show ?thesis using rec
    by (cases result; cases r1) (auto simp: handle_send_worker_completed_def Let_def intro: rows_after rows)
qed

lemma resume_send_done: "R c (fst (handle_resume_send_worker_completed (ce_hashers W) now h n resumed c))"
proof -
  obtain c1 r1 where rec: "reconcile_deferred (ce_hashers W) now h c = (c1, r1)" by fastforce
  then have "R c c1" using reconcile [of c now h] by simp
  then show ?thesis using rec
    by (cases resumed; cases r1) (auto simp: handle_resume_send_worker_completed_def intro: rows_after rows split: option.split)
qed

lemma receive:
  assumes "cch_env.truncate E = W"
  shows "R c (fst (handle_receive_btc E req c))"
proof -
  obtain c1 r where run: "receive_btc E req c = (c1, r)" by fastforce
  then have "R c c1" using run_receive [OF assms, of c req] by simp
  then show ?thesis using run by (cases r) (auto simp: handle_receive_btc_def Let_def intro: rows_after split: option.split)
qed

lemma resume_receive_message: "R c (handle_resume_receive E h n c)"
proof -
  let ?c = "c\<lparr>cs_pending_receive_retries := cs_pending_receive_retries c - {h}\<rparr>"
  obtain c1 r where run: "resume_receive_btc E h ?c = (c1, r)" by fastforce
  then have "R c c1" using rows_before [OF _ resume_receive [of ?c E h], of c] by simp
  then show ?thesis using run by (cases r) (auto simp: handle_resume_receive_def intro: rows_after split: option.split)
qed

lemma accept_send: "R c (fst (handle_send_btc E currency req closed c))"
  unfolding handle_send_btc_def Let_def
  by (cases "bind_res (ensure (currency = cs_currency c) CKBInvoiceNetworkMismatch) (\<lambda>_. parse_btc E req)") (auto simp: rows split: option.split)

lemma execute: "R c (fst (handle_execute_action E now h action n executed c))" "R c (handle_reconcile_fiber_payments keys c)"
proof -
  show "R c (fst (handle_execute_action E now h action n executed c))"
    by (auto simp: handle_execute_action_def Let_def rows split: option.split)
  have "same_rows c d \<Longrightarrow> same_rows c (fold (\<lambda>order. emit_cch (f order)) orders d)" for f :: "cch_order \<Rightarrow> cch_effect" and orders d
    by (induction orders arbitrary: d) simp_all
  then show "R c (handle_reconcile_fiber_payments keys c)" by (simp add: handle_reconcile_fiber_payments_def rows)
qed

lemma message: "cch_message W c c' \<Longrightarrow> R c c'"
proof (induction rule: cch_message.induct)
  case (action_retry c h action n)
  show ?case by (simp add: handle_action_retry_def rows)
next
  case (accept_resume_send c h)
  show ?case by (simp add: handle_resume_send_def Let_def rows)
qed (rule tracking store_change expire startup execute accept_send run_send send_done resume_send resume_send_done receive resume_receive_message; assumption?)+

end

section \<open>Orders stay sound\<close>

definition order_ok :: "hashers \<Rightarrow> cch_order \<Rightarrow> bool" where
  "order_ok H order \<longleftrightarrow> (\<forall>p. co_payment_preimage order = Some p \<longrightarrow> hash_with H Sha256 p = co_payment_hash order) \<and>
     (co_status order \<in> {CchOutgoingSuccess, CchSuccess} \<longrightarrow> co_payment_preimage order \<noteq> None)"

text \<open>What may become of an order: its identity stays, a preimage once known stays, and a paid order is settled and never failed.\<close>

definition order_advances :: "cch_order \<Rightarrow> cch_order \<Rightarrow> bool" where
  "order_advances old new \<longleftrightarrow> co_payment_hash new = co_payment_hash old \<and> co_incoming_invoice new = co_incoming_invoice old \<and>
     co_outgoing_pay_req new = co_outgoing_pay_req old \<and> co_fee_sats new = co_fee_sats old \<and>
     (co_payment_preimage old \<noteq> None \<longrightarrow> co_payment_preimage new = co_payment_preimage old) \<and>
     (co_status old = CchSuccess \<longrightarrow> co_status new = CchSuccess) \<and> (co_status old = CchFailed \<longrightarrow> co_status new = CchFailed) \<and>
     (co_status old = CchOutgoingSuccess \<longrightarrow> co_status new \<in> {CchOutgoingSuccess, CchSuccess}) \<and>
     (co_status old \<noteq> CchPending \<longrightarrow> co_status new \<noteq> CchPending) \<and>
     (co_status old \<notin> {CchPending, CchIncomingAccepted} \<longrightarrow> co_status new \<noteq> CchIncomingAccepted)"

lemma order_advances_refl [simp]: "order_advances o1 o1"
  by (simp add: order_advances_def)

lemma try_transite_Ok:
  assumes "try_transite_to to reason order = Ok (order', r)"
  shows "allow_transition (co_status order) to" and "co_status order' = to" and "co_payment_preimage order' = co_payment_preimage order"
    and "co_payment_hash order' = co_payment_hash order" and "co_incoming_invoice order' = co_incoming_invoice order"
    and "co_outgoing_pay_req order' = co_outgoing_pay_req order" and "co_fee_sats order' = co_fee_sats order" and "r = None \<longleftrightarrow> co_status order = to"
    and "r = None \<Longrightarrow> order' = order"
  using assms by (auto simp: try_transite_to_def split: if_splits)

lemma apply_event_Ok:
  assumes "apply_event H event order = Ok (order', r)" and "order_ok H order"
  shows "order_ok H order'" and "order_advances order order'"
proof -
  have "order_ok H order' \<and> order_advances order order'"
  proof (cases event)
    case (InvoiceChanged status reason)
    show ?thesis
    proof (cases "status_of_invoice status = CchFailed \<and> co_status order \<in> {CchOutgoingInFlight, CchOutgoingSuccess}")
      case True
      with assms InvoiceChanged show ?thesis by (simp add: Let_def)
    next
      case False
      then obtain wording where t: "try_transite_to (status_of_invoice status) wording order = Ok (order', r)"
        using assms(1) InvoiceChanged by (auto simp: Let_def split: if_splits)
      note t' = try_transite_Ok [OF t]
      from t' False assms(2) show ?thesis
        by (cases status; cases "co_status order") (auto simp: order_ok_def order_advances_def allow_transition_def)
    qed
  next
    case (PaymentChanged status preimage reason)
    show ?thesis
    proof (cases "status = PayCreated \<and> co_status order \<in> {CchOutgoingInFlight, CchOutgoingSuccess}")
      case True
      with assms PaymentChanged show ?thesis by (auto simp: Let_def)
    next
      case False
      with assms(1) PaymentChanged obtain wording order1 where t: "try_transite_to (status_of_payment status) wording order = Ok (order1, r)"
        and pre: "status = PaySuccess \<Longrightarrow> preimage \<noteq> None" "\<And>p. preimage = Some p \<Longrightarrow> hash_with H Sha256 p = co_payment_hash order"
        and pend: "co_status order \<noteq> CchPending"
        and order': "order' = (if r \<noteq> None \<and> co_payment_preimage order1 = None then order1\<lparr>co_payment_preimage := preimage\<rparr> else order1)"
        by (auto simp: Let_def split: if_splits option.splits)
      note t' = try_transite_Ok [OF t]
      show ?thesis
      proof (cases "r = None")
        case True
        with t'(9) order' assms(2) show ?thesis by simp
      next
        case r: False
        with t' pre pend order' assms(2) False show ?thesis
          by (cases status; cases "co_status order") (auto simp: order_ok_def order_advances_def allow_transition_def)
      qed
    qed
  qed
  then show "order_ok H order'" and "order_advances order order'" by simp_all
qed

lemma normalize_order [simp]:
  "order_ok H (normalize_amount_sats order) = order_ok H order" "order_advances (normalize_amount_sats order) new = order_advances order new"
  "co_payment_hash (normalize_amount_sats order) = co_payment_hash order" "co_status (normalize_amount_sats order) = co_status order"
  "order_final (normalize_amount_sats order) = order_final order" "co_payment_preimage (normalize_amount_sats order) = co_payment_preimage order"
  by (simp_all add: normalize_amount_sats_def order_ok_def order_advances_def order_final_def)

section \<open>Orders advance\<close>

definition hub_ok :: "hashers \<Rightarrow> cch_state \<Rightarrow> bool" where
  "hub_ok H c \<longleftrightarrow> (\<forall>h order. cs_orders c h = Some order \<longrightarrow> co_payment_hash order = h \<and> order_ok H order)"

definition hub_advances :: "hashers \<Rightarrow> cch_state \<Rightarrow> cch_state \<Rightarrow> bool" where
  "hub_advances H c c' \<longleftrightarrow> (hub_ok H c \<longrightarrow> hub_ok H c' \<and>
     (\<forall>h old. cs_orders c h = Some old \<longrightarrow> (\<exists>new. cs_orders c' h = Some new \<and> order_advances old new)))"

lemma hub_advances_same [intro]: "cs_orders c' = cs_orders c \<Longrightarrow> hub_advances H c c'"
  by (auto simp: hub_advances_def hub_ok_def)

lemma order_advances_trans: "order_advances a b \<Longrightarrow> order_advances b d \<Longrightarrow> order_advances a d"
  unfolding order_advances_def by (cases "co_status a"; cases "co_status b"; cases "co_status d") auto

lemma hub_advances_trans: "hub_advances H a b \<Longrightarrow> hub_advances H b d \<Longrightarrow> hub_advances H a d"
  unfolding hub_advances_def using order_advances_trans by meson

lemma hub_insert:
  assumes "cs_orders c (co_payment_hash new) = None" and "order_ok H new"
  shows "hub_advances H c (update_cch_order new c)"
  using assms by (auto simp: hub_advances_def hub_ok_def update_cch_order_def)

lemma hub_update:
  assumes "get_order_or_none c h = Some order" and "order_ok H order \<Longrightarrow> order_ok H new \<and> order_advances order new"
  shows "hub_advances H c (update_cch_order new c)"
proof -
  obtain old where old: "cs_orders c h = Some old" "order = normalize_amount_sats old" using get_order_Some [OF assms(1)] by auto
  show ?thesis
  proof (cases "hub_ok H c")
    case True
    then have hash: "co_payment_hash order = h" and "order_ok H order" using old by (simp_all add: hub_ok_def)
    then have new: "order_ok H new" "order_advances old new" using assms(2) old(2) by simp_all
    then have "co_payment_hash new = h" using hash old(2) by (simp add: order_advances_def)
    then show ?thesis using True new old(1) by (auto simp: hub_advances_def hub_ok_def update_cch_order_def)
  qed (simp add: hub_advances_def)
qed

lemma delete_frame [simp]: "cs_orders (delete_send_creation h c) = cs_orders c" "cs_orders (delete_receive_creation h c) = cs_orders c"
  by (simp_all add: delete_send_creation_def delete_receive_creation_def)

lemma send_order_status_Ok: "send_order_status h st = Ok (status, reason) \<Longrightarrow> status \<notin> {CchOutgoingSuccess, CchSuccess}"
  by (cases st) (auto simp: send_order_status_def)

lemma commit_send_advances:
  assumes "commit_send_order sc order1 c = Ok (c', order)" and "co_payment_hash order1 = sb_payment_hash sc" and "order_ok H order1"
  shows "hub_advances H c c' \<and> cs_orders c' (sb_payment_hash sc) = Some order"
proof (cases "cs_orders c (sb_payment_hash sc)")
  case None
  then have c': "cs_orders c' = cs_orders (update_cch_order order1 c)" and "order = order1"
    using assms(1,2) by (auto simp: commit_send_order_def store_complete_send_def)
  moreover have "hub_advances H c (update_cch_order order1 c)" by (rule hub_insert) (use None assms in simp_all)
  then have "hub_advances H c c'" by (rule hub_advances_trans) (rule hub_advances_same [OF c'])
  ultimately show ?thesis using assms(2) by (simp add: update_cch_order_def)
next
  case (Some existing)
  then have "cs_orders c' = cs_orders c" "order = existing" using assms(1,2) by (auto simp: commit_send_order_def store_complete_send_def)
  with Some show ?thesis by auto
qed

lemma complete_send_advances:
  assumes "complete_send_btc_order_creation E now sc c = Ok (c', order)"
  shows "hub_advances H c c' \<and> cs_orders c' (sb_payment_hash sc) = Some order"
proof -
  from assms obtain iv amount status reason where run: "commit_send_order sc (send_order sc iv amount status reason) c = Ok (c', order)"
    and "status \<notin> {CchOutgoingSuccess, CchSuccess}"
    by (auto simp: complete_send_btc_order_creation_def dest!: send_order_status_Ok)
  then show ?thesis by (intro commit_send_advances [OF run]) (simp_all add: send_order_def order_ok_def)
qed

lemma commit_receive_advances:
  assumes "commit_receive_order rc order1 c = Ok (c', order)" and "co_payment_hash order1 = rc_payment_hash rc" and "order_ok H order1"
  shows "hub_advances H c c' \<and> cs_orders c' (rc_payment_hash rc) = Some order"
proof (cases "cs_orders c (rc_payment_hash rc)")
  case None
  then have c': "cs_orders c' = cs_orders (update_cch_order order1 c)" and "order = order1"
    using assms(1,2) by (auto simp: commit_receive_order_def store_complete_receive_def)
  moreover have "hub_advances H c (update_cch_order order1 c)" by (rule hub_insert) (use None assms in simp_all)
  then have "hub_advances H c c'" by (rule hub_advances_trans) (rule hub_advances_same [OF c'])
  ultimately show ?thesis using assms(2) by (simp add: update_cch_order_def)
next
  case (Some existing)
  then have "cs_orders c' = cs_orders c" "order = existing" using assms(1,2) by (auto simp: commit_receive_order_def store_complete_receive_def)
  with Some show ?thesis by auto
qed

lemma receive_status_Ok: "receive_incoming_invoice E cf rc flag = Ok (invoice, status) \<Longrightarrow> status \<notin> {CchOutgoingSuccess, CchSuccess}"
  by (auto simp: receive_incoming_invoice_def split: option.splits if_splits)

lemma complete_receive_advances:
  assumes "complete_receive_btc_order_creation E rc flag c = Ok (c', order)"
  shows "hub_advances H c c' \<and> cs_orders c' (rc_payment_hash rc) = Some order"
proof -
  from assms obtain invoice total_sats status where run: "commit_receive_order rc (receive_order rc invoice total_sats status) c = Ok (c', order)"
    and "status \<notin> {CchOutgoingSuccess, CchSuccess}"
    by (auto simp: complete_receive_btc_order_creation_def dest!: receive_status_Ok)
  then show ?thesis by (intro commit_receive_advances [OF run]) (simp_all add: receive_order_def order_ok_def)
qed

interpretation advances: hub_relation W "hub_advances (ce_hashers W)" for W
proof
  show "hub_advances (ce_hashers W) c c'" if "same_rows c c'" for c c' using that by (auto simp: same_rows_def)
  show "hub_advances (ce_hashers W) a d" if "hub_advances (ce_hashers W) a b" "hub_advances (ce_hashers W) b d" for a b d
    using that by (rule hub_advances_trans)
  show "hub_advances (ce_hashers W) c (delete_send_creation h c)" "hub_advances (ce_hashers W) c (delete_receive_creation h c)" for c h
    by auto
  show "hub_advances (ce_hashers W) c (update_cch_order order' c)"
    if "get_order_or_none c h = Some order" "apply_event (ce_hashers W) ev order = Ok (order', r)" for c h order ev order' r
    by (rule hub_update [OF that(1)]) (use apply_event_Ok [OF that(2)] in auto)
  show "hub_advances (ce_hashers W) c (update_cch_order (order\<lparr>co_status := CchFailed, co_failure_reason := Some reason\<rparr>) c)"
    if "get_order_or_none c h = Some order" "co_status order = CchPending" for c h order reason
    by (rule hub_update [OF that(1)]) (use that(2) in \<open>auto simp: order_ok_def order_advances_def\<close>)
  show "hub_advances (ce_hashers W) c c'" if "insert_send_creation sc c = Ok c'" for c c' sc
    using that by (auto simp: insert_send_creation_def split: if_splits)
  show "hub_advances (ce_hashers W) c c'" if "insert_receive_creation rc c = Ok c'" for c c' rc
    using that by (auto simp: insert_receive_creation_def split: if_splits)
  show "hub_advances (ce_hashers W) c c'" if "complete_send_btc_order_creation E t sc c = Ok (c', order)" for E t sc c c' order
    using complete_send_advances [OF that] by simp
  show "hub_advances (ce_hashers W) c c'" if "complete_receive_btc_order_creation E rc flag c = Ok (c', order)" for E rc flag c c' order
    using complete_receive_advances [OF that] by simp
qed

text \<open>A step keeps every order and advances it, or prunes a final one.\<close>

definition hub_moves :: "hashers \<Rightarrow> cch_state \<Rightarrow> cch_state \<Rightarrow> bool" where
  "hub_moves H c c' \<longleftrightarrow> (hub_ok H c \<longrightarrow> hub_ok H c' \<and>
     (\<forall>h old. cs_orders c h = Some old \<longrightarrow> (case cs_orders c' h of Some new \<Rightarrow> order_advances old new | None \<Rightarrow> order_final old)))"

lemma run_job_moves: "hub_moves H c (run_job job c)"
proof (cases job)
  case (ExpireOrder h t)
  then show ?thesis by (simp add: hub_moves_def hub_ok_def emit_cch_def split: option.split)
next
  case (PruneOrder h t)
  then show ?thesis
    by (cases "cs_orders c h") (auto simp: hub_moves_def hub_ok_def prune_order_def get_order_or_none_def emit_cch_def Let_def split: option.split)
qed

lemma cch_step_moves: "cch_step W c c' \<Longrightarrow> hub_moves (ce_hashers W) c c'"
proof (induction rule: cch_step.induct)
  case (message c c')
  then have "hub_advances (ce_hashers W) c c'" by (rule advances.message)
  then show ?case by (force simp: hub_advances_def hub_moves_def split: option.split)
qed (rule run_job_moves)

lemma cch_run_ok: "(cch_step W)\<^sup>*\<^sup>* c c' \<Longrightarrow> hub_ok (ce_hashers W) c \<Longrightarrow> hub_ok (ce_hashers W) c'"
  by (induction rule: rtranclp_induct) (auto dest!: cch_step_moves simp: hub_moves_def)

text \<open>C5. The hub never gives up money it is owed. At every step of every run from a sound store, whatever Lightning and Fiber report, in whatever order, and across
  restarts: the preimage with which an incoming invoice would be settled hashes to the order's payment hash; an order whose outgoing payment
  was paid stays, with its preimage, until it is settled: it is never failed, pruned or cancelled; and an order whose outgoing payment is known to
  be in flight starts no second one from then on: it is kept, or pruned once it is final.
\<close>
theorem hub_settles_what_it_paid:
  assumes "(cch_step W)\<^sup>*\<^sup>* c0 c" and "hub_ok (ce_hashers W) c0" and "cch_step W c c'"
  shows "(\<forall>h order p. cs_orders c' h = Some order \<and> dispatch_settle order = SettleInvoice p \<longrightarrow> hash_with (ce_hashers W) Sha256 p = h) \<and>
    (\<forall>h old. cs_orders c h = Some old \<and> co_status old = CchOutgoingSuccess \<longrightarrow> (\<exists>new p. cs_orders c' h = Some new \<and>
       co_status new \<in> {CchOutgoingSuccess, CchSuccess} \<and> co_payment_preimage old = Some p \<and> co_payment_preimage new = Some p \<and>
       dispatch_cancel new = NoInvoiceRequest)) \<and>
    (\<forall>h old. cs_orders c h = Some old \<and> co_status old \<notin> {CchPending, CchIncomingAccepted} \<longrightarrow>
       (case cs_orders c' h of Some new \<Rightarrow> dispatch_send_outgoing W now pct new = NoOutgoing | None \<Rightarrow> order_final old))"
proof -
  have ok: "hub_ok (ce_hashers W) c" using assms(1,2) by (rule cch_run_ok)
  then have ok': "hub_ok (ce_hashers W) c'" and moves: "\<And>h old. cs_orders c h = Some old \<Longrightarrow>
      (case cs_orders c' h of Some new \<Rightarrow> order_advances old new | None \<Rightarrow> order_final old)"
    using cch_step_moves [OF assms(3)] by (simp_all add: hub_moves_def)
  have settle: "hash_with (ce_hashers W) Sha256 p = h" if "cs_orders c' h = Some order" "dispatch_settle order = SettleInvoice p" for h order p
    using ok' that by (auto simp: hub_ok_def order_ok_def dispatch_settle_def split: if_splits option.splits)
  have paid: "\<exists>new p. cs_orders c' h = Some new \<and> co_status new \<in> {CchOutgoingSuccess, CchSuccess} \<and> co_payment_preimage old = Some p \<and>
      co_payment_preimage new = Some p \<and> dispatch_cancel new = NoInvoiceRequest"
    if old: "cs_orders c h = Some old" "co_status old = CchOutgoingSuccess" for h old
  proof -
    have "order_ok (ce_hashers W) old" using ok old by (simp add: hub_ok_def)
    then obtain p where "co_payment_preimage old = Some p" using old(2) by (auto simp: order_ok_def)
    with moves [OF old(1)] old(2) show ?thesis
      by (auto simp: order_final_def order_advances_def dispatch_cancel_def should_cancel_incoming_invoice_def split: option.splits)
  qed
  have started: "case cs_orders c' h of Some new \<Rightarrow> dispatch_send_outgoing W now pct new = NoOutgoing | None \<Rightarrow> order_final old"
    if "cs_orders c h = Some old" "co_status old \<notin> {CchPending, CchIncomingAccepted}" for h old
    using moves [OF that(1)] that(2) by (auto simp: order_advances_def dispatch_send_outgoing_def split: option.splits)
  show ?thesis using settle paid started by blast
qed

definition sample_bolt11 :: bolt11 where
  "sample_bolt11 = \<lparr>bt_payment_hash = 8, bt_currency = LnRegtest, bt_amount_msat = Some 1000000, bt_min_final_cltv = 360, bt_created_at = 0, bt_expires_at = Some 100000\<rparr>"

definition sample_cch_env :: cch_env where
  "sample_cch_env = \<lparr>ce_hashers = sample_hashers, ce_parse_btc = (\<lambda>_. Some (sample_bolt11\<lparr>bt_min_final_cltv := 80\<rparr>)), ce_parse_ckb = (\<lambda>_. None)\<rparr>"

definition sample_order :: cch_order where
  "sample_order = \<lparr>co_created_at = 0, co_expiry_delta_seconds = 100, co_wrapped_btc_type_script = \<lparr>sc_code_hash = 0, sc_hash_type = 0, sc_args = []\<rparr>, co_outgoing_pay_req = [],
     co_incoming_invoice = CchLightning sample_bolt11, co_payment_hash = 8, co_payment_preimage = Some 6, co_amount_sats = 1000, co_fee_sats = 100,
     co_status = CchOutgoingSuccess, co_failure_reason = None\<rparr>"

definition sample_hub :: cch_state where
  "sample_hub = \<lparr>cs_config = \<lparr>cf_order_expiry_delta_seconds = 129600, cf_base_fee_sats = 100, cf_fee_rate_per_million_sats = 3000,
       cf_max_outgoing_fee_percentage = 80, cf_btc_final_tlc_expiry_delta_blocks = 360, cf_ckb_final_tlc_expiry_delta_seconds = 216000,
       cf_min_outgoing_invoice_expiry_delta_seconds = 21600\<rparr>, cs_currency = Fibd, cs_orders = [8 \<mapsto> sample_order], cs_receive_creations = Map.empty,
     cs_send_creations = Map.empty, cs_pending_receive_retries = {}, cs_pending_send_retries = {}, cs_active_send_workers = {},
     cs_active_send_requests = Map.empty, cs_deferred_statuses = Map.empty, cs_startup_recovery_in_progress = False, cs_outbox = []\<rparr>"

theorem hub_settles_what_it_paid_witness:
  "\<exists>new. cs_orders (handle_tracking_message sample_hashers 0 8 (PaymentChanged PayFailed None None) sample_hub) 8 = Some new \<and> dispatch_cancel new = NoInvoiceRequest"
proof -
  have "cch_step sample_cch_env sample_hub (handle_tracking_message sample_hashers 0 8 (PaymentChanged PayFailed None None) sample_hub)"
    using cch_message.tracking [of sample_cch_env] by (intro cch_step.message) (simp add: sample_cch_env_def)
  moreover have "hub_ok (ce_hashers sample_cch_env) sample_hub"
    by (auto simp: hub_ok_def sample_hub_def sample_order_def order_ok_def sample_hashers_def sample_cch_env_def)
  moreover have "cs_orders sample_hub 8 = Some sample_order" "co_status sample_order = CchOutgoingSuccess" by (simp_all add: sample_hub_def sample_order_def)
  ultimately show ?thesis using hub_settles_what_it_paid [OF rtranclp.rtrancl_refl] by blast
qed

section \<open>A failed order with a known preimage\<close>

text \<open>
  A Fiber payment in several parts can fail after one part succeeded. Asked for such a payment, the node answers that it failed, together with
  the preimage of the successful part. The order then becomes failed with its preimage recorded: its incoming invoice is neither
  settled nor cancelled, now or after a restart, although the hub has paid a part of the outgoing amount.
\<close>
lemma failed_order_keeps_preimage_unused:
  assumes "se_status s = PayFailed" and "response_preimage s = Some p" and "hash_with H Sha256 p = co_payment_hash order"
    and "co_status order = CchOutgoingInFlight" and "co_payment_preimage order = None"
  obtains event order' where "map_get_payment_result (Ok (se_status s, response_preimage s, se_last_error s)) n = CchTracking event"
    "apply_event H event order = Ok (order', Some CchFailed)" "on_entering order' = []" "on_starting order' = []" "order_final order'"
    "\<And>action. action_can_still_run order' action = False" "co_payment_preimage order' = Some p"
proof (rule that)
  show "map_get_payment_result (Ok (se_status s, response_preimage s, se_last_error s)) n = CchTracking (PaymentChanged PayFailed (Some p) (se_last_error s))"
    using assms(1,2) by (simp add: map_get_payment_result_def)
  let ?order = "order\<lparr>co_status := CchFailed, co_failure_reason := Some (unwrap_or (se_last_error s) ''outgoing payment failed: Failed''), co_payment_preimage := Some p\<rparr>"
  show "apply_event H (PaymentChanged PayFailed (Some p) (se_last_error s)) order = Ok (?order, Some CchFailed)"
    using assms(3-5) by (simp add: try_transite_to_def allow_transition_def)
  show "on_entering ?order = []" "on_starting ?order = []" "order_final ?order" "\<And>action. action_can_still_run ?order action = False" "co_payment_preimage ?order = Some p"
    by (simp_all add: on_entering_def on_starting_def order_final_def action_can_still_run_def should_cancel_incoming_invoice_def)
qed

section \<open>Time and fees\<close>

lemma saturating_mul_le:
  fixes a b :: "'a::len word"
  shows "unat (saturating_mul a b) \<le> unat a * unat b"
  by (auto simp: saturating_mul_def unat_mul_no_overflow unat_minus_one_word_max)

lemma fee_budget_le:
  assumes "percentage \<le> 100"
  shows "unat (outgoing_fee_budget_from_fee_sats fee percentage) \<le> unat fee"
proof -
  have pct: "unat (ucast percentage :: u128) \<le> 100" using assms by (simp add: word_le_nat_alt unat_ucast_u128)
  have "unat (saturating_mul fee (ucast percentage :: u128)) \<le> unat fee * unat (ucast percentage :: u128)"
    by (rule saturating_mul_le)
  also have "\<dots> \<le> unat fee * 100" using pct by simp
  finally have "unat (saturating_mul fee (ucast percentage :: u128)) div 100 \<le> unat fee" by (simp add: div_le_mono)
  then show ?thesis by (simp add: outgoing_fee_budget_from_fee_sats_def unat_div)
qed

lemma dispatch_sends:
  assumes "dispatch_send_outgoing E now_ms pct order = out" and "out \<notin> {NoOutgoing, FailOrder}"
  obtains max_out where "check_expiry_or_fail E order (compute_max_outgoing_expiry_seconds now_ms order) = Some max_out"
    "co_status order = CchIncomingAccepted"
    "(\<exists>iv. co_incoming_invoice order = CchFiber iv \<and> out = PayLightning (co_outgoing_pay_req order) (ucast (max_out div 600))
        (if unat (outgoing_fee_budget_from_fee_sats (co_fee_sats order) pct) < 2 ^ 63 then ucast (outgoing_fee_budget_from_fee_sats (co_fee_sats order) pct) else 2 ^ 63 - 1)) \<or>
     (\<exists>iv amount. co_incoming_invoice order = CchLightning iv \<and> outgoing_fiber_principal_sats E order = Some amount \<and>
        out = PayFiber (co_outgoing_pay_req order) (min (saturating_mul max_out 1000) MAX_PAYMENT_TLC_EXPIRY_LIMIT)
          (outgoing_fee_budget_from_fee_sats (co_fee_sats order) pct) (outgoing_max_fee_rate amount (outgoing_fee_budget_from_fee_sats (co_fee_sats order) pct)))"
  using assms by (auto simp: dispatch_send_outgoing_def Let_def split: if_splits option.splits cch_invoice.splits)

definition elapsed_seconds :: "u64 \<Rightarrow> cch_order \<Rightarrow> nat" where
  "elapsed_seconds now_ms order = unat (now_ms div 1000) - unat (co_created_at order)"

lemma max_outgoing_bound:
  assumes "check_expiry_or_fail E order (compute_max_outgoing_expiry_seconds now_ms order) = Some max_out"
  shows "elapsed_seconds now_ms order + 2 * unat max_out \<le> unat (incoming_expiry_seconds order)" and "unat (outgoing_min_seconds E order) \<le> unat max_out"
    and "0 < unat max_out"
proof -
  from assms obtain remaining where rem: "checked_sub (incoming_expiry_seconds order) (saturating_sub (now_ms div 1000) (co_created_at order)) = Some remaining"
    and out: "max_out = remaining div 2" "max_out > 0" "outgoing_min_seconds E order \<le> max_out"
    by (auto simp: check_expiry_or_fail_def compute_max_outgoing_expiry_seconds_def Let_def not_less split: if_splits option.splits)
  have "unat remaining + elapsed_seconds now_ms order = unat (incoming_expiry_seconds order)"
    using rem by (auto simp: elapsed_seconds_def rust_arith)
  moreover have "2 * unat max_out \<le> unat remaining" by (simp add: out(1) unat_div)
  ultimately show "elapsed_seconds now_ms order + 2 * unat max_out \<le> unat (incoming_expiry_seconds order)" by simp
  show "unat (outgoing_min_seconds E order) \<le> unat max_out" "0 < unat max_out" using out by (simp_all add: word_le_nat_alt word_less_nat_alt)
qed

lemma whole_seconds_saturating:
  assumes "unat (d :: u64) div 1000 \<le> unat (m :: u64)"
  shows "unat d div 1000 * 1000 \<le> unat (saturating_mul m 1000)"
proof (cases "unat m * 1000 < 2 ^ 64")
  case True
  then show ?thesis using assms by (simp add: saturating_mul_def unat_mul_no_overflow)
next
  case False
  have "unat d div 1000 * 1000 \<le> unat d" by simp
  then show ?thesis using False unsigned_less [of d, where ?'a = nat] by (simp add: saturating_mul_def unat_minus_one_word_max)
qed

text \<open>C23. The hub always has time to claim. Whenever the hub starts an outgoing payment, twice the time limit it puts on the payment's route, added
  to the time since the order was created, is within the expiry the incoming payment was accepted with: even if the outgoing payment
  settles at the last moment, as much time again is left to settle the incoming one. The limit of a Lightning payment leaves room for the final
  hop the invoice asks for, as long as the expiries fit the integer types. The limit of a Fiber payment leaves room for the whole seconds of
  the final hop's expiry delta (up to the longest expiry a payment may have), which is in milliseconds: a delta with a fraction of a second can exceed the limit, by less than a second.
\<close>
theorem hub_leaves_time:
  shows "(dispatch_send_outgoing E now_ms pct order = PayLightning req cltv fee \<longrightarrow>
      elapsed_seconds now_ms order + 2 * (600 * unat cltv) \<le> unat (incoming_expiry_seconds order) \<and>
      (ce_parse_btc E req = Some invoice \<and> unat (incoming_expiry_seconds order) < 2 ^ 32 \<and> 600 * unat (bt_min_final_cltv invoice) < 2 ^ 64 \<longrightarrow> unat (bt_min_final_cltv invoice) \<le> unat cltv)) \<and>
    (dispatch_send_outgoing E now_ms pct order = PayFiber req limit budget rate \<longrightarrow>
      1000 * elapsed_seconds now_ms order + 2 * unat limit \<le> 1000 * unat (incoming_expiry_seconds order) \<and> limit \<le> MAX_PAYMENT_TLC_EXPIRY_LIMIT \<and>
      (ce_parse_ckb E req = Some ckb \<and> final_tlc_minimum_expiry_delta_or_default ckb \<le> MAX_PAYMENT_TLC_EXPIRY_LIMIT \<longrightarrow>
        unat (final_tlc_minimum_expiry_delta_or_default ckb) div 1000 * 1000 \<le> unat limit \<and>
        unat (final_tlc_minimum_expiry_delta_or_default ckb) < unat limit + 1000))"
proof (intro conjI impI)
  assume sends: "dispatch_send_outgoing E now_ms pct order = PayLightning req cltv fee"
  obtain max_out iv where max_out: "check_expiry_or_fail E order (compute_max_outgoing_expiry_seconds now_ms order) = Some max_out"
    and iv: "co_incoming_invoice order = CchFiber iv" and out: "req = co_outgoing_pay_req order" "cltv = ucast (max_out div 600)"
    by (rule dispatch_sends [OF sends]) auto
  note bound = max_outgoing_bound [OF max_out]
  have "unat cltv \<le> unat max_out div 600" unfolding out(2) by (simp add: unsigned_ucast_eq unat_div)
  then have "600 * unat cltv \<le> unat max_out" by simp
  with bound(1) show "elapsed_seconds now_ms order + 2 * (600 * unat cltv) \<le> unat (incoming_expiry_seconds order)" by linarith
  assume invoice: "ce_parse_btc E req = Some invoice \<and> unat (incoming_expiry_seconds order) < 2 ^ 32 \<and> 600 * unat (bt_min_final_cltv invoice) < 2 ^ 64"
  have "unat max_out div 600 < 2 ^ 32" using bound(1) invoice by linarith
  then have cltv: "unat cltv = unat max_out div 600" unfolding out(2) by (simp add: unsigned_ucast_eq unat_div take_bit_nat_eq_self)
  show "unat (bt_min_final_cltv invoice) \<le> unat cltv"
  proof (cases "checked_mul (bt_min_final_cltv invoice) 600")
    case (Some seconds)
    then have "unat seconds = unat (bt_min_final_cltv invoice) * 600" by (simp add: rust_arith)
    moreover have "outgoing_min_seconds E order = seconds" using invoice Some iv out(1) by (simp add: outgoing_min_seconds_def unwrap_or_def)
    ultimately have "unat (bt_min_final_cltv invoice) * 600 \<le> unat max_out" using bound(2) by simp
    then show ?thesis unfolding cltv by (simp add: less_eq_div_iff_mult_less_eq)
  next
    case None
    with invoice show ?thesis by (simp add: rust_arith)
  qed
next
  assume sends: "dispatch_send_outgoing E now_ms pct order = PayFiber req limit budget rate"
  obtain max_out iv where max_out: "check_expiry_or_fail E order (compute_max_outgoing_expiry_seconds now_ms order) = Some max_out"
    and limit: "limit = min (saturating_mul max_out 1000) MAX_PAYMENT_TLC_EXPIRY_LIMIT"
    and req: "co_incoming_invoice order = CchLightning iv" "req = co_outgoing_pay_req order"
    by (rule dispatch_sends [OF sends]) auto
  have "limit \<le> saturating_mul max_out 1000" by (simp add: limit)
  then have "unat limit \<le> unat max_out * 1000" using saturating_mul_le [of max_out 1000] by (simp add: word_le_nat_alt)
  with max_outgoing_bound(1) [OF max_out] show "1000 * elapsed_seconds now_ms order + 2 * unat limit \<le> 1000 * unat (incoming_expiry_seconds order)" by linarith
  show "limit \<le> MAX_PAYMENT_TLC_EXPIRY_LIMIT" by (simp add: limit)
  assume ckb: "ce_parse_ckb E req = Some ckb \<and> final_tlc_minimum_expiry_delta_or_default ckb \<le> MAX_PAYMENT_TLC_EXPIRY_LIMIT"
  let ?delta = "final_tlc_minimum_expiry_delta_or_default ckb"
  have "outgoing_min_seconds E order = ?delta div 1000" using ckb req by (simp add: outgoing_min_seconds_def unwrap_or_def)
  then have "unat ?delta div 1000 \<le> unat max_out" using max_outgoing_bound(2) [OF max_out] by (simp add: unat_div)
  then show whole: "unat ?delta div 1000 * 1000 \<le> unat limit"
    using whole_seconds_saturating [of ?delta max_out] ckb unfolding limit by (auto simp: min_def word_le_nat_alt)
  show "unat ?delta < unat limit + 1000" using whole div_mult_mod_eq [of "unat ?delta" 1000] mod_less_divisor [of 1000 "unat ?delta"] by linarith
qed

definition accepted_order :: cch_order where
  "accepted_order = sample_order\<lparr>co_status := CchIncomingAccepted, co_payment_preimage := None,
     co_incoming_invoice := CchFiber (sample_invoice\<lparr>iv_data := (iv_data sample_invoice)\<lparr>id_attrs := [FinalHtlcMinimumExpiryDelta 216000000]\<rparr>\<rparr>)\<rparr>"

lemma accepted_order_time: "incoming_expiry_seconds accepted_order = 216000" "outgoing_min_seconds sample_cch_env accepted_order = 48000"
  by (simp_all add: accepted_order_def incoming_expiry_seconds_def final_tlc_minimum_expiry_delta_or_default_def final_tlc_minimum_expiry_delta_def
      outgoing_min_seconds_def sample_cch_env_def sample_bolt11_def checked_mul_def unwrap_or_def)

definition bridged_order :: cch_order where
  "bridged_order = sample_order\<lparr>co_status := CchIncomingAccepted, co_payment_preimage := None\<rparr>"

definition fractional_invoice :: ckb_invoice where
  "fractional_invoice = sample_invoice\<lparr>iv_data := (iv_data sample_invoice)\<lparr>id_attrs := [FinalHtlcMinimumExpiryDelta 108000999]\<rparr>\<rparr>"

definition fractional_env :: cch_env where
  "fractional_env = sample_cch_env\<lparr>ce_parse_ckb := (\<lambda>_. Some fractional_invoice)\<rparr>"

lemma bridged_order_time: "incoming_expiry_seconds bridged_order = 216000" "outgoing_min_seconds fractional_env bridged_order = 108000"
  "final_tlc_minimum_expiry_delta_or_default fractional_invoice = 108000999" "iv_amount fractional_invoice = Some 100"
  by (simp_all add: bridged_order_def sample_order_def sample_bolt11_def incoming_expiry_seconds_def saturating_mul_def outgoing_min_seconds_def fractional_env_def
      fractional_invoice_def final_tlc_minimum_expiry_delta_or_default_def final_tlc_minimum_expiry_delta_def unwrap_or_def sample_invoice_def)

lemma bridged_order_sends: "\<exists>budget rate. dispatch_send_outgoing fractional_env 0 80 bridged_order = PayFiber [] 108000000 budget rate"
proof -
  have "check_expiry_or_fail fractional_env bridged_order (compute_max_outgoing_expiry_seconds 0 bridged_order) = Some 108000"
    by (simp add: check_expiry_or_fail_def compute_max_outgoing_expiry_seconds_def bridged_order_time saturating_sub_def checked_sub_def)
  moreover have "outgoing_fiber_principal_sats fractional_env bridged_order = Some 100"
    by (simp add: outgoing_fiber_principal_sats_def fractional_env_def bridged_order_time)
  ultimately show ?thesis
    by (simp add: dispatch_send_outgoing_def)
      (simp add: bridged_order_def sample_order_def Let_def saturating_mul_def MAX_PAYMENT_TLC_EXPIRY_LIMIT_def min_def)
qed

text \<open>A Lightning order, and a Fiber order whose final hop asks for 999 milliseconds more than the limit.\<close>

theorem hub_leaves_time_witness:
  "(\<exists>cltv fee. dispatch_send_outgoing sample_cch_env 0 80 accepted_order = PayLightning [] cltv fee \<and> 80 \<le> unat cltv \<and> 2 * (600 * unat cltv) \<le> 216000) \<and>
   (\<exists>limit budget rate. dispatch_send_outgoing fractional_env 0 80 bridged_order = PayFiber [] limit budget rate \<and> 2 * unat limit \<le> 216000000 \<and>
      limit < final_tlc_minimum_expiry_delta_or_default fractional_invoice \<and> unat (final_tlc_minimum_expiry_delta_or_default fractional_invoice) < unat limit + 1000)"
proof -
  have "check_expiry_or_fail sample_cch_env accepted_order (compute_max_outgoing_expiry_seconds 0 accepted_order) = Some 108000"
    by (simp add: check_expiry_or_fail_def compute_max_outgoing_expiry_seconds_def accepted_order_time saturating_sub_def checked_sub_def)
  then obtain cltv fee where sends: "dispatch_send_outgoing sample_cch_env 0 80 accepted_order = PayLightning [] cltv fee"
    by (simp add: dispatch_send_outgoing_def) (simp add: accepted_order_def sample_order_def Let_def)
  moreover have "ce_parse_btc sample_cch_env [] = Some (sample_bolt11\<lparr>bt_min_final_cltv := 80\<rparr>)" by (simp add: sample_cch_env_def)
  ultimately have lightning: "80 \<le> unat cltv \<and> 2 * (600 * unat cltv) \<le> 216000"
    using conjunct1 [OF hub_leaves_time [of sample_cch_env 0 80 accepted_order "[]" cltv fee "sample_bolt11\<lparr>bt_min_final_cltv := 80\<rparr>"]] accepted_order_time(1) by auto
  obtain budget rate where fiber: "dispatch_send_outgoing fractional_env 0 80 bridged_order = PayFiber [] 108000000 budget rate" using bridged_order_sends by blast
  have "ce_parse_ckb fractional_env [] = Some fractional_invoice" by (simp add: fractional_env_def)
  then have "unat (final_tlc_minimum_expiry_delta_or_default fractional_invoice) < unat (108000000 :: u64) + 1000"
    using conjunct2 [OF hub_leaves_time, of fractional_env 0 80 bridged_order "[]" 108000000 budget rate fractional_invoice] fiber
    by (simp add: bridged_order_time MAX_PAYMENT_TLC_EXPIRY_LIMIT_def)
  with lightning sends fiber show ?thesis by (auto simp: bridged_order_time)
qed

end
