(* ===== verification/Cch_Pricing.thy ===== *)
theory Cch_Pricing
  imports Cch_Safety
begin

text \<open>
  What the orders of the cross-chain hub are worth: every order couples two invoices over one payment hash at a price that covers the outgoing
  amount and its routing fee, and every message keeps it so. The locale \<open>hub_relation\<close> of \<open>Cch_Safety\<close> is interpreted a second time here.
\<close>

section \<open>What an order costs and what it earns\<close>

text \<open>
  An order is priced when it couples two invoices over the same payment hash, under SHA-256 on both networks, and what the incoming payer owes covers
  what the outgoing invoice asks for and the fee; a durable intent is priced when the order made from it will be. Amounts on Lightning are in millisatoshi.
\<close>

definition sha256_invoice :: "ckb_invoice \<Rightarrow> bool" where
  "sha256_invoice iv \<longleftrightarrow> unwrap_or (invoice_hash_algorithm iv) CkbHash = Sha256"

definition send_terms :: "cch_env \<Rightarrow> hash256 \<Rightarrow> bytes \<Rightarrow> u128 \<Rightarrow> ckb_invoice \<Rightarrow> bool" where
  "send_terms W h req fee_sats iv \<longleftrightarrow> sha256_invoice iv \<and> (\<exists>invoice msat amount. ce_parse_btc W req = Some invoice \<and> bt_payment_hash invoice = h \<and>
     bt_amount_msat invoice = Some msat \<and> iv_amount iv = Some amount \<and> unat msat + 1000 * unat fee_sats \<le> 1000 * unat amount)"

definition receive_terms :: "cch_env \<Rightarrow> hash256 \<Rightarrow> bytes \<Rightarrow> u128 \<Rightarrow> bool" where
  "receive_terms W h req amount_sats \<longleftrightarrow> (\<exists>fiber. ce_parse_ckb W req = Some fiber \<and> sha256_invoice fiber \<and> id_payment_hash (iv_data fiber) = h \<and>
     iv_amount fiber = Some amount_sats)"

definition order_priced :: "cch_env \<Rightarrow> cch_order \<Rightarrow> bool" where
  "order_priced W order \<longleftrightarrow> (case co_incoming_invoice order of
      CchFiber iv \<Rightarrow> send_terms W (co_payment_hash order) (co_outgoing_pay_req order) (co_fee_sats order) iv \<and> id_payment_hash (iv_data iv) = co_payment_hash order
    | CchLightning iv \<Rightarrow> bt_payment_hash iv = co_payment_hash order \<and> (\<exists>amount total_msat. receive_terms W (co_payment_hash order) (co_outgoing_pay_req order) amount \<and>
        bt_amount_msat iv = Some total_msat \<and> 1000 * (unat amount + unat (co_fee_sats order)) \<le> unat total_msat))"

definition send_priced :: "cch_env \<Rightarrow> send_creation \<Rightarrow> bool" where
  "send_priced W sc \<longleftrightarrow> send_terms W (sb_payment_hash sc) (sb_btc_pay_req sc) (sb_fee_sats sc) (sb_incoming_invoice sc)"

definition receive_priced :: "cch_env \<Rightarrow> receive_creation \<Rightarrow> bool" where
  "receive_priced W rc \<longleftrightarrow> receive_terms W (rc_payment_hash rc) (rc_fiber_pay_req rc) (rc_amount_sats rc)"

definition hub_priced :: "cch_env \<Rightarrow> cch_state \<Rightarrow> bool" where
  "hub_priced W c \<longleftrightarrow> (\<forall>h order. cs_orders c h = Some order \<longrightarrow> co_payment_hash order = h \<and> order_priced W order) \<and>
     (\<forall>sc \<in> ran (cs_send_creations c). send_priced W sc) \<and> (\<forall>rc \<in> ran (cs_receive_creations c). receive_priced W rc)"

lemma priced_update: "hub_priced W c \<Longrightarrow> order_priced W order \<Longrightarrow> hub_priced W (update_cch_order order c)"
  by (auto simp: hub_priced_def update_cch_order_def ran_def)

lemma priced_delete:
  "hub_priced W c \<Longrightarrow> hub_priced W (delete_send_creation h c)" "hub_priced W c \<Longrightarrow> hub_priced W (delete_receive_creation h c)"
  by (auto simp: hub_priced_def delete_send_creation_def delete_receive_creation_def ran_def)

lemma priced_insert:
  "insert_send_creation sc c = Ok c' \<Longrightarrow> hub_priced W c \<Longrightarrow> send_priced W sc \<Longrightarrow> hub_priced W c'"
  "insert_receive_creation rc c = Ok c' \<Longrightarrow> hub_priced W c \<Longrightarrow> receive_priced W rc \<Longrightarrow> hub_priced W c'"
  by (auto simp: hub_priced_def insert_send_creation_def insert_receive_creation_def ran_map_upd split: if_splits)

lemma priced_order: "hub_priced W c \<Longrightarrow> cs_orders c h = Some order \<Longrightarrow> order_priced W order \<and> co_payment_hash order = h"
  by (auto simp: hub_priced_def)

lemma priced_terms:
  "co_payment_hash new = co_payment_hash old \<Longrightarrow> co_incoming_invoice new = co_incoming_invoice old \<Longrightarrow> co_outgoing_pay_req new = co_outgoing_pay_req old \<Longrightarrow> co_fee_sats new = co_fee_sats old \<Longrightarrow>
   order_priced W new = order_priced W old"
  by (simp add: order_priced_def split: cch_invoice.split)

lemma priced_read:
  assumes "get_order_or_none c h = Some order" and "hub_priced W c"
  shows "order_priced W order"
proof -
  obtain old where old: "cs_orders c h = Some old" "order = normalize_amount_sats old" using get_order_Some [OF assms(1)] by auto
  have "order_priced W order = order_priced W old" unfolding old(2) by (rule priced_terms) (simp_all add: normalize_amount_sats_def)
  then show ?thesis using priced_order [OF assms(2) old(1)] by simp
qed

lemma apply_event_terms:
  assumes "apply_event H event order = Ok (order', r)"
  shows "order_priced W order' = order_priced W order"
proof -
  have trans: "order_priced W o2 = order_priced W order" if "try_transite_to to reason order = Ok (o2, s)" for to reason o2 s
    using try_transite_Ok [OF that] by (intro priced_terms) simp_all
  have preimage: "order_priced W (o2\<lparr>co_payment_preimage := p\<rparr>) = order_priced W o2" for o2 p by (rule priced_terms) simp_all
  show ?thesis
  proof (cases event)
    case (InvoiceChanged status reason)
    with assms trans show ?thesis by (auto simp: Let_def split: if_splits)
  next
    case (PaymentChanged status p reason)
    with assms consider "order' = order"
      | o2 to wording s where "try_transite_to to wording order = Ok (o2, s)" "order' = o2 \<or> order' = o2\<lparr>co_payment_preimage := p\<rparr>"
      by (auto simp: Let_def split: if_splits)
    then show ?thesis using trans preimage by cases auto
  qed
qed

subsection \<open>Creating an order\<close>

lemma unat_div_ceil:
  fixes a :: u128
  shows "unat a \<le> 1000 * unat (div_ceil a 1000)"
proof -
  have m: "unat (a mod 1000) = unat a mod 1000" and d: "unat (a div 1000) = unat a div 1000" by (simp_all add: unat_mod unat_div)
  have "unat a div 1000 + 1 < 2 ^ 128" using unat_bound [of a] by simp
  then have s: "unat (a div 1000 + 1) = unat a div 1000 + 1" by (subst unat_add_no_overflow) (simp_all add: d)
  have "unat a = 1000 * (unat a div 1000) + unat a mod 1000" by simp
  then show ?thesis using m d s by (auto simp: div_ceil_def word_less_nat_alt)
qed

lemma send_price:
  assumes "send_fee_sats cf (ucast (msat :: u64)) = Ok fee" and "checked_add (div_ceil (ucast msat) 1000) fee = Some amount"
  shows "unat msat + 1000 * unat fee \<le> 1000 * unat amount"
  using assms(2) unat_div_ceil [of "ucast msat"] by (simp add: rust_arith unat_ucast_u128)

lemma built_invoice:
  assumes "build_send_btc_fiber_invoice_until E cf now ib h deadline = Ok iv" and "ib_attrs ib = HashAlgorithm Sha256 # attrs"
  shows "iv_amount iv = ib_amount ib" and "sha256_invoice iv"
  using assms
  by (auto simp: build_send_btc_fiber_invoice_until_def build_invoice_def Let_def add_attr_def bind_res_eq_Ok sha256_invoice_def invoice_hash_algorithm_def unwrap_or_def
      split: option.splits)

lemma prepared_send_priced:
  assumes "prepare_send_btc E cf currency req invoice = Ok sc" and "ce_parse_btc W req = Some invoice"
  shows "send_priced W sc"
proof -
  from assms(1) obtain msat fee amount iv ib h deadline now attrs where sc: "bt_amount_msat invoice = Some msat" "send_fee_sats cf (ucast msat) = Ok fee"
    "checked_add (div_ceil (ucast msat) 1000) fee = Some amount" "build_send_btc_fiber_invoice_until E cf now ib h deadline = Ok iv" "ib_amount ib = Some amount"
    "ib_attrs ib = HashAlgorithm Sha256 # attrs" "sb_payment_hash sc = bt_payment_hash invoice" "sb_btc_pay_req sc = req" "sb_fee_sats sc = fee" "sb_incoming_invoice sc = iv"
    by (auto simp: prepare_send_btc_def Let_def bind_res_eq_Ok add_attr_def invoice_builder_new_def)
  then show ?thesis using send_price [OF sc(2,3)] built_invoice [OF sc(4,6)] assms(2) by (simp add: send_priced_def send_terms_def)
qed

lemma send_matches:
  assumes "ensure_send_btc_fiber_invoice_matches E sc iv = Ok ()"
  shows "iv_amount iv = iv_amount (sb_incoming_invoice sc)" and "id_payment_hash (iv_data iv) = sb_payment_hash sc"
    and "sha256_invoice iv = sha256_invoice (sb_incoming_invoice sc)"
  using assms by (auto simp: ensure_send_btc_fiber_invoice_matches_def Let_def bind_res_eq_Ok ensure_eq_Ok sha256_invoice_def)

lemma complete_send_priced:
  assumes "complete_send_btc_order_creation E now sc c = Ok (c', order)" and "hub_priced W c" and "send_priced W sc"
  shows "hub_priced W c'"
proof -
  from assms(1) obtain iv amount status reason where match: "ensure_send_btc_fiber_invoice_matches E sc iv = Ok ()"
    and run: "commit_send_order sc (send_order sc iv amount status reason) c = Ok (c', order)"
    by (auto simp: complete_send_btc_order_creation_def bind_res_eq_Ok)
  have "order_priced W (send_order sc iv amount status reason)"
    using assms(3) send_matches [OF match] by (simp add: order_priced_def send_order_def send_priced_def send_terms_def)
  then have "hub_priced W (update_cch_order (send_order sc iv amount status reason) c)" using assms(2) by (intro priced_update)
  with run assms(2) show ?thesis
    by (auto simp: commit_send_order_def store_complete_send_def bind_res_eq_Ok intro!: priced_delete split: if_splits option.splits)
qed

lemma total_msat_Ok:
  assumes "receive_btc_total_msat amount fee = Ok tot"
  shows "unat tot = 1000 * (unat amount + unat fee)"
proof -
  from assms obtain sats msat where m: "checked_add amount fee = Some sats" "checked_mul sats 1000 = Some msat" "unat msat < 2 ^ 63" "tot = ucast msat"
    by (auto simp: receive_btc_total_msat_def bind_res_eq_Ok ok_or_eq_Ok split: if_splits option.splits Option.bind_splits)
  have "unat tot = unat msat" unfolding m(4) using m(3) by (simp add: unsigned_ucast_eq take_bit_nat_eq_self)
  with m(1,2) show ?thesis by (simp add: rust_arith)
qed

lemma lnd_invoice_amount:
  "validate_lnd_payment_request E rc req = Ok invoice \<Longrightarrow>
     \<exists>tot. receive_btc_total_msat (rc_amount_sats rc) (rc_fee_sats rc) = Ok tot \<and> bt_amount_msat invoice = Some tot \<and> bt_payment_hash invoice = rc_payment_hash rc"
  by (auto simp: validate_lnd_payment_request_def bind_res_eq_Ok ensure_eq_Ok)

lemma receive_invoice_amount:
  assumes "receive_incoming_invoice E cf rc flag = Ok (invoice, status)"
  shows "\<exists>tot. receive_btc_total_msat (rc_amount_sats rc) (rc_fee_sats rc) = Ok tot \<and> bt_amount_msat invoice = Some tot \<and> bt_payment_hash invoice = rc_payment_hash rc"
proof -
  have recovered: "\<exists>req. validate_lnd_payment_request E rc req = Ok iv" if "validate_recovered_lnd_invoice E rc li = Ok iv" for li iv
    using that by (auto simp: validate_recovered_lnd_invoice_def bind_res_eq_Ok)
  have made: "\<exists>req. validate_lnd_payment_request E rc req = Ok iv" if "create_or_recover_lnd_invoice E cf rc = Ok iv" for iv
  proof -
    from that obtain answer where "(case answer of Ok req \<Rightarrow> validate_lnd_payment_request E rc req | Panic \<Rightarrow> Panic
       | Err add_error \<Rightarrow> (case cv_lookup_lnd_invoice E 1 of
           Ok (Some li) \<Rightarrow> validate_recovered_lnd_invoice E rc li | Ok None \<Rightarrow> Err add_error | Err _ \<Rightarrow> Err LndRpcError | Panic \<Rightarrow> Panic)) = Ok iv"
      by (auto simp: create_or_recover_lnd_invoice_def bind_res_eq_Ok)
    then show ?thesis using recovered by (cases answer) (auto split: res.splits option.splits)
  qed
  from assms consider li where "validate_recovered_lnd_invoice E rc li = Ok invoice" | "create_or_recover_lnd_invoice E cf rc = Ok invoice"
    by (auto simp: receive_incoming_invoice_def bind_res_eq_Ok split: option.splits if_splits)
  then obtain req where "validate_lnd_payment_request E rc req = Ok invoice" using recovered made by cases blast+
  then show ?thesis by (rule lnd_invoice_amount)
qed

lemma complete_receive_priced:
  assumes "complete_receive_btc_order_creation E rc flag c = Ok (c', order)" and "hub_priced W c" and "receive_priced W rc"
  shows "hub_priced W c'"
proof -
  from assms(1) obtain invoice status total_sats where inv: "receive_incoming_invoice E (cs_config c) rc flag = Ok (invoice, status)"
    and run: "commit_receive_order rc (receive_order rc invoice total_sats status) c = Ok (c', order)"
    by (auto simp: complete_receive_btc_order_creation_def bind_res_eq_Ok)
  obtain tot where tot: "receive_btc_total_msat (rc_amount_sats rc) (rc_fee_sats rc) = Ok tot" "bt_amount_msat invoice = Some tot" "bt_payment_hash invoice = rc_payment_hash rc"
    using receive_invoice_amount [OF inv] by blast
  have "order_priced W (receive_order rc invoice total_sats status)"
    using assms(3) tot(2,3) total_msat_Ok [OF tot(1)] by (auto simp: order_priced_def receive_order_def receive_priced_def)
  then have "hub_priced W (update_cch_order (receive_order rc invoice total_sats status) c)" using assms(2) by (intro priced_update)
  with run assms(2) show ?thesis
    by (auto simp: commit_receive_order_def store_complete_receive_def bind_res_eq_Ok intro!: priced_delete split: if_splits option.splits)
qed

lemma prepared_receive_priced:
  assumes "prepare_receive_btc E cf currency req iv = Ok rc" and "ce_parse_ckb W req = Some iv"
  shows "receive_priced W rc"
  using assms by (auto simp: prepare_receive_btc_def Let_def bind_res_eq_Ok ensure_eq_Ok receive_priced_def receive_terms_def sha256_invoice_def preflight_limits_def)

lemma priced_row:
  "hub_priced W c \<Longrightarrow> cs_send_creations c h = Some sc \<Longrightarrow> send_priced W sc" "hub_priced W c \<Longrightarrow> cs_receive_creations c h = Some rc \<Longrightarrow> receive_priced W rc"
  by (auto simp: hub_priced_def ran_def)

lemma run_job_priced: "hub_priced W c \<Longrightarrow> hub_priced W (run_job job c)"
  by (cases job) (auto simp: prune_order_def Let_def hub_priced_def ran_def emit_cch_def split: option.split)

text \<open>The terms of an order never change, and no write makes an unpriced order or intent.\<close>

interpretation priced: hub_relation W "\<lambda>c c'. hub_priced W c \<longrightarrow> hub_priced W c'" for W
proof
  show "hub_priced W c \<longrightarrow> hub_priced W c'" if "same_rows c c'" for c c' using that by (simp add: same_rows_def hub_priced_def)
  show "hub_priced W c \<longrightarrow> hub_priced W (delete_send_creation h c)" "hub_priced W c \<longrightarrow> hub_priced W (delete_receive_creation h c)" for c h
    by (auto intro: priced_delete)
  show "hub_priced W c \<longrightarrow> hub_priced W (update_cch_order order' c)"
    if "get_order_or_none c h = Some order" "apply_event (ce_hashers W) ev order = Ok (order', r)" for c h order ev order' r
    using apply_event_terms [OF that(2)] priced_read [OF that(1)] by (auto intro: priced_update)
  show "hub_priced W c \<longrightarrow> hub_priced W (update_cch_order (order\<lparr>co_status := CchFailed, co_failure_reason := Some reason\<rparr>) c)"
    if "get_order_or_none c h = Some order" "co_status order = CchPending" for c h order reason
    using priced_read [OF that(1)] priced_terms [of "order\<lparr>co_status := CchFailed, co_failure_reason := Some reason\<rparr>" order] by (auto intro: priced_update)
  show "hub_priced W c \<longrightarrow> hub_priced W c'"
    if "prepare_send_btc E cf currency req invoice = Ok sc" "ce_parse_btc W req = Some invoice" "insert_send_creation sc c = Ok c'" for E cf currency req invoice sc c c'
    using priced_insert(1) [OF that(3)] prepared_send_priced [OF that(1,2)] by blast
  show "hub_priced W c \<longrightarrow> hub_priced W c'"
    if "prepare_receive_btc E cf currency req fiber = Ok rc" "ce_parse_ckb W req = Some fiber" "insert_receive_creation rc c = Ok c'" for E cf currency req fiber rc c c'
    using priced_insert(2) [OF that(3)] prepared_receive_priced [OF that(1,2)] by blast
  show "hub_priced W c \<longrightarrow> hub_priced W c'"
    if "cs_send_creations c h = Some sc" "complete_send_btc_order_creation E t sc c = Ok (c', order)" for c h sc E t c' order
    using complete_send_priced [OF that(2)] priced_row(1) [OF _ that(1)] by blast
  show "hub_priced W c \<longrightarrow> hub_priced W c'"
    if "cs_receive_creations c h = Some rc" "complete_receive_btc_order_creation E rc flag c = Ok (c', order)" for c h rc E flag c' order
    using complete_receive_priced [OF that(2)] priced_row(2) [OF _ that(1)] by blast
qed simp

lemma cch_run_priced: "(cch_step W)\<^sup>*\<^sup>* c c' \<Longrightarrow> hub_priced W c \<Longrightarrow> hub_priced W c'"
proof (induction rule: rtranclp_induct)
  case (step b d)
  from step.hyps(2) have "hub_priced W b \<longrightarrow> hub_priced W d"
    by cases (use priced.message run_job_priced in blast)+
  with step show ?case by blast
qed

definition capped_fee :: "u128 \<Rightarrow> u64" where
  "capped_fee budget = (if unat budget < 2 ^ 63 then ucast budget else 2 ^ 63 - 1)"

lemma capped_fee_le: "unat (capped_fee budget) \<le> unat budget"
proof (cases "unat budget < 2 ^ 63")
  case True
  then have "unat (ucast budget :: u64) = unat budget" by (simp add: unsigned_ucast_eq take_bit_nat_eq_self)
  with True show ?thesis by (simp add: capped_fee_def)
next
  case False
  have "unat (capped_fee budget) = 2 ^ 63 - 1" using False by (simp only: capped_fee_def if_False) simp
  with False show ?thesis by linarith
qed

definition within_price :: "cch_env \<Rightarrow> cch_order \<Rightarrow> outgoing_payment \<Rightarrow> bool" where
  "within_price W order payment \<longleftrightarrow> (case payment of
      PayLightning req cltv fee \<Rightarrow> \<exists>iv owed invoice msat. co_incoming_invoice order = CchFiber iv \<and> sha256_invoice iv \<and>
        id_payment_hash (iv_data iv) = co_payment_hash order \<and> iv_amount iv = Some owed \<and>
        ce_parse_btc W req = Some invoice \<and> bt_payment_hash invoice = co_payment_hash order \<and> bt_amount_msat invoice = Some msat \<and>
        unat msat + 1000 * unat fee \<le> 1000 * unat owed
    | PayFiber req limit budget rate \<Rightarrow> \<exists>iv owed invoice amount. co_incoming_invoice order = CchLightning iv \<and>
        bt_payment_hash iv = co_payment_hash order \<and> bt_amount_msat iv = Some owed \<and>
        ce_parse_ckb W req = Some invoice \<and> sha256_invoice invoice \<and> id_payment_hash (iv_data invoice) = co_payment_hash order \<and> iv_amount invoice = Some amount \<and>
        1000 * (unat amount + unat budget) \<le> unat owed
    | _ \<Rightarrow> True)"

lemma dispatch_within_price:
  assumes "order_priced W order" and "dispatch_send_outgoing W now pct order = payment" and "pct \<le> 100"
  shows "within_price W order payment"
proof (cases "payment \<in> {NoOutgoing, FailOrder}")
  case False
  let ?budget = "outgoing_fee_budget_from_fee_sats (co_fee_sats order) pct"
  have budget: "unat ?budget \<le> unat (co_fee_sats order)" using assms(3) by (rule fee_budget_le)
  obtain max_out where "(\<exists>iv. co_incoming_invoice order = CchFiber iv \<and>
        payment = PayLightning (co_outgoing_pay_req order) (ucast (max_out div 600)) (capped_fee ?budget)) \<or>
      (\<exists>iv amount rate. co_incoming_invoice order = CchLightning iv \<and> outgoing_fiber_principal_sats W order = Some amount \<and>
        payment = PayFiber (co_outgoing_pay_req order) (min (saturating_mul max_out 1000) MAX_PAYMENT_TLC_EXPIRY_LIMIT) ?budget rate)"
    using dispatch_sends [OF assms(2) False] unfolding capped_fee_def by metis
  then consider iv cltv where "co_incoming_invoice order = CchFiber iv" "payment = PayLightning (co_outgoing_pay_req order) cltv (capped_fee ?budget)"
    | iv limit rate where "co_incoming_invoice order = CchLightning iv" "payment = PayFiber (co_outgoing_pay_req order) limit ?budget rate"
    by blast
  then show ?thesis
  proof cases
    case 1
    with assms(1) obtain invoice msat owed where terms: "ce_parse_btc W (co_outgoing_pay_req order) = Some invoice" "bt_amount_msat invoice = Some msat"
      "iv_amount iv = Some owed" "unat msat + 1000 * unat (co_fee_sats order) \<le> 1000 * unat owed" "sha256_invoice iv"
      "id_payment_hash (iv_data iv) = co_payment_hash order" "bt_payment_hash invoice = co_payment_hash order"
      by (auto simp: order_priced_def send_terms_def)
    have "unat msat + 1000 * unat (capped_fee ?budget) \<le> 1000 * unat owed"
      using terms(4) budget capped_fee_le [of ?budget] by linarith
    with 1 terms(1-3,5-7) show ?thesis by (simp add: within_price_def)
  next
    case 2
    with assms(1) obtain fiber amount owed where terms: "ce_parse_ckb W (co_outgoing_pay_req order) = Some fiber" "iv_amount fiber = Some amount"
      "bt_amount_msat iv = Some owed" "1000 * (unat amount + unat (co_fee_sats order)) \<le> unat owed" "sha256_invoice fiber"
      "id_payment_hash (iv_data fiber) = co_payment_hash order" "bt_payment_hash iv = co_payment_hash order"
      by (auto simp: order_priced_def receive_terms_def)
    have "1000 * (unat amount + unat ?budget) \<le> unat owed"
      by (rule order.trans [OF mult_le_mono2 [OF add_left_mono [OF budget]] terms(4)])
    with 2 terms(1-3,5-7) show ?thesis by (simp add: within_price_def)
  qed
qed (auto simp: within_price_def)

lemma hub_sends_within_price:
  assumes "(cch_step W)\<^sup>*\<^sup>* c0 c" and "hub_priced W c0" and "validate_config (cs_config c)"
    and "snd (handle_execute_action W now h SendOutgoingPayment n executed c) = OutgoingRequest payment"
  obtains order where "cs_orders c h = Some order" "co_payment_hash order = h" "within_price W order payment"
proof -
  let ?pct = "cf_max_outgoing_fee_percentage (cs_config c)"
  from assms(4) obtain order where get: "get_order_or_none c h = Some order" and sends: "dispatch_send_outgoing W now ?pct order = payment"
    by (auto simp: handle_execute_action_def get_order_for_action_or_none_def dispatch_action_def Let_def split: option.splits if_splits)
  obtain old where old: "cs_orders c h = Some old" "order = normalize_amount_sats old" using get_order_Some [OF get] by blast
  have priced: "hub_priced W c" using assms(1,2) by (rule cch_run_priced)
  have "within_price W order payment"
    using assms(3) by (intro dispatch_within_price [OF priced_read [OF get priced] sends]) (simp add: validate_config_def)
  moreover have "within_price W order payment = within_price W old payment"
    by (cases payment) (simp_all add: within_price_def old(2) normalize_amount_sats_def)
  ultimately show ?thesis using that [OF old(1)] priced_order [OF priced old(1)] by simp
qed

text \<open>C8. The hub couples payments that cannot come apart and never pays out more than it is owed. Whatever happened before, across restarts and resumed
  creations: whenever the hub starts an outgoing payment for an order, the outgoing invoice and the incoming invoice of that order carry the order's payment hash, with SHA-256 on the Fiber side as
  Lightning has it, so the preimage bought by the one settles the other; and the outgoing amount and the
  largest routing fee it allows add up to no more than the incoming invoice asks for. On Lightning the amounts are in millisatoshi.
\<close>
theorem hub_never_overpays:
  assumes "(cch_step W)\<^sup>*\<^sup>* c0 c" and "hub_priced W c0" and "validate_config (cs_config c)"
    and "snd (handle_execute_action W now h SendOutgoingPayment n executed c) = OutgoingRequest payment"
  shows "\<exists>order. cs_orders c h = Some order \<and> (case payment of
      PayLightning req cltv fee \<Rightarrow> \<exists>iv owed invoice msat. co_incoming_invoice order = CchFiber iv \<and> sha256_invoice iv \<and> id_payment_hash (iv_data iv) = h \<and>
        iv_amount iv = Some owed \<and> ce_parse_btc W req = Some invoice \<and> bt_payment_hash invoice = h \<and> bt_amount_msat invoice = Some msat \<and>
        unat msat + 1000 * unat fee \<le> 1000 * unat owed
    | PayFiber req limit budget rate \<Rightarrow> \<exists>iv owed invoice amount. co_incoming_invoice order = CchLightning iv \<and> bt_payment_hash iv = h \<and>
        bt_amount_msat iv = Some owed \<and> ce_parse_ckb W req = Some invoice \<and> sha256_invoice invoice \<and> id_payment_hash (iv_data invoice) = h \<and>
        iv_amount invoice = Some amount \<and> 1000 * (unat amount + unat budget) \<le> unat owed
    | _ \<Rightarrow> True)"
proof -
  obtain order where "cs_orders c h = Some order" "co_payment_hash order = h" "within_price W order payment"
    using assms by (rule hub_sends_within_price)
  then show ?thesis by (cases payment) (simp_all add: within_price_def)
qed

definition priced_order :: cch_order where
  "priced_order = accepted_order\<lparr>co_incoming_invoice := CchFiber
     (sample_invoice\<lparr>iv_amount := Some 1100, iv_data := (iv_data sample_invoice)\<lparr>id_attrs := [HashAlgorithm Sha256, FinalHtlcMinimumExpiryDelta 216000000]\<rparr>\<rparr>)\<rparr>"

definition priced_hub :: cch_state where
  "priced_hub = sample_hub\<lparr>cs_orders := [8 \<mapsto> priced_order]\<rparr>"

lemma priced_order_sends:
  "\<exists>cltv fee. dispatch_send_outgoing sample_cch_env 0 80 (normalize_amount_sats priced_order) = PayLightning [] cltv fee"
proof -
  let ?order = "normalize_amount_sats priced_order"
  have fields: "co_status ?order = CchIncomingAccepted" "co_outgoing_pay_req ?order = []" "co_incoming_invoice ?order = CchFiber
     (sample_invoice\<lparr>iv_amount := Some 1100, iv_data := (iv_data sample_invoice)\<lparr>id_attrs := [HashAlgorithm Sha256, FinalHtlcMinimumExpiryDelta 216000000]\<rparr>\<rparr>)" "co_created_at ?order = 0"
    by (simp_all add: priced_order_def accepted_order_def sample_order_def normalize_amount_sats_def)
  have "incoming_expiry_seconds ?order = 216000" "outgoing_min_seconds sample_cch_env ?order = 48000"
    by (simp_all add: fields incoming_expiry_seconds_def final_tlc_minimum_expiry_delta_or_default_def final_tlc_minimum_expiry_delta_def
        outgoing_min_seconds_def sample_cch_env_def sample_bolt11_def checked_mul_def unwrap_or_def)
  then have "check_expiry_or_fail sample_cch_env ?order (compute_max_outgoing_expiry_seconds 0 ?order) = Some 108000"
    by (simp add: check_expiry_or_fail_def compute_max_outgoing_expiry_seconds_def fields saturating_sub_def checked_sub_def)
  moreover have "co_status priced_order = CchIncomingAccepted" by (simp add: priced_order_def accepted_order_def)
  ultimately show ?thesis by (simp add: dispatch_send_outgoing_def fields(2,3) Let_def)
qed

theorem hub_never_overpays_witness:
  "\<exists>cltv fee. snd (handle_execute_action sample_cch_env 0 8 SendOutgoingPayment 0 True priced_hub) = OutgoingRequest (PayLightning [] cltv fee) \<and>
     1000000 + 1000 * unat fee \<le> 1000 * (1100 :: nat)"
proof -
  obtain cltv fee where "dispatch_send_outgoing sample_cch_env 0 80 (normalize_amount_sats priced_order) = PayLightning [] cltv fee"
    using priced_order_sends by blast
  moreover have "get_order_for_action_or_none priced_hub 8 SendOutgoingPayment = Some (normalize_amount_sats priced_order)"
    "cf_max_outgoing_fee_percentage (cs_config priced_hub) = 80" "validate_config (cs_config priced_hub)"
    by (simp_all add: get_order_for_action_or_none_def get_order_or_none_def priced_hub_def action_can_still_run_def order_final_def validate_config_def sample_hub_def)
      (simp add: priced_order_def accepted_order_def)
  ultimately have sends: "snd (handle_execute_action sample_cch_env 0 8 SendOutgoingPayment 0 True priced_hub) = OutgoingRequest (PayLightning [] cltv fee)"
    and config: "validate_config (cs_config priced_hub)"
    by (simp_all add: handle_execute_action_def dispatch_action_def)
  have "order_priced sample_cch_env priced_order"
    by (simp add: order_priced_def send_terms_def priced_order_def accepted_order_def sample_order_def sample_cch_env_def sample_bolt11_def sha256_invoice_def
        invoice_hash_algorithm_def unwrap_or_def sample_invoice_def)
  then have "hub_priced sample_cch_env priced_hub"
    by (simp add: hub_priced_def priced_hub_def sample_hub_def) (simp add: priced_order_def accepted_order_def sample_order_def)
  then show ?thesis using hub_never_overpays [OF rtranclp.rtrancl_refl _ config sends] sends
    by (auto simp: priced_hub_def priced_order_def accepted_order_def sample_cch_env_def sample_bolt11_def)
qed

end
