(* ===== verification/Spec2Isabelle.thy ===== *)
theory Spec2Isabelle
  imports Reestablish Invoice_Lifecycle Payment_Bounds Cch_Pricing
begin

text \<open>
  A verification development for the Fiber network node (\<^verbatim>\<open>src/crates\<close>), a payment channel network on
  CKB. Two nodes lock funds in a funding cell, move balances by adding and removing time-locked
  contracts (TLCs), agree on every new distribution by exchanging commitment transactions and
  revocations, and leave the channel cooperatively or by publishing the latest commitment
  transaction, after which a watchtower settles the TLCs on the chain.

  The program and its parts. \<^verbatim>\<open>fiber-types\<close> holds the data: TLC tables, channel states, flags, fees.
  \<^verbatim>\<open>fiber-lib/src/fiber/channel.rs\<close> is the channel actor: it owns one \<open>ChannelActorState\<close>, handles
  commands of the local node and messages of the peer, and calls the TLC table for every change of a
  TLC. \<^verbatim>\<open>fiber/onchain_tlc_reconcile.rs\<close>, \<^verbatim>\<open>watchtower/actor.rs\<close> and the watchtower part of
  \<^verbatim>\<open>store/store_impl/mod.rs\<close> follow a channel after it was closed: the scan reads settlement transactions,
  writes evidence to the store, and reconciliation turns the evidence into outcomes of the TLCs.
  \<^verbatim>\<open>fiber/settle_tlc_set_command.rs\<close> and the invoice commands of \<^verbatim>\<open>fiber/network.rs\<close> receive payments: TLCs that
  pay this node are held until they cover an invoice and are then settled together.
  \<^verbatim>\<open>fiber/payment.rs\<close> sends payments: one actor per payment hash splits the amount into attempts, hands each to the
  channel of its first hop as an AddTlc command and hears of the result and of the removal. \<^verbatim>\<open>cch\<close> is the cross-chain
  hub: an actor with a scheduler that couples a payment on Lightning to a payment on Fiber with the same hash; it sees
  both networks through tracking events and acts through requests to LND and to the Fiber node.

  Conventions. A Rust panic (\<^verbatim>\<open>expect\<close>, \<^verbatim>\<open>assert!\<close>, \<^verbatim>\<open>unreachable!\<close>, indexing, arithmetic in a build with
  overflow checks) is the value \<open>Panic\<close> of the result type, a returned error is \<open>Err e\<close>, success is
  \<open>Ok v\<close>. Integers keep their width (\<open>u8\<close> to \<open>u128\<close>, 256-bit words for hashes); checked and saturating
  operations are defined on words and characterised on natural numbers. Handlers take the state and
  return it; messages to other actors are returned as values. Clocks, hash functions, key derivation,
  signing and aggregation, molecule serialization, cell sizes and what the chain indexer returns are
  arguments, and the hypotheses a theorem makes about them are named definitions.

  The theories, in the order they build on each other.
    \<^item> \<open>Prelude\<close>: the result type and its combinators, checked arithmetic, flags, list lemmas; the
      collections \<open>rust_arith\<close> and \<open>res_simps\<close> carry most arithmetic and error-path proofs.
    \<^item> \<open>Channel_Types\<close> (\<^verbatim>\<open>fiber-types/src/channel.rs\<close>, \<^verbatim>\<open>invoice.rs\<close>, \<^verbatim>\<open>onion.rs\<close>): identifiers, the TLC
      status ladders, channel states and flags, commitment numbers, error reasons.
    \<^item> \<open>Tlc_State\<close> (\<^verbatim>\<open>TlcState\<close>, \<^verbatim>\<open>PendingTlcs\<close>): both TLC lists, lookup, insertion, removal, the two
      transitions of the ladders and the selections for a commitment. Shown: the table invariant and
      that no operation panics on it, the laws of insertion, lookup and removal (locale
      \<open>tlc_table\<close>, interpreted on the table), and that acknowledgement rounds drain every removal.
    \<^item> \<open>Commitment_Rounds\<close>: two such tables, one per node, and two FIFO links as a step relation. Shown:
      whenever a side signs a commitment, the TLCs it puts in and their order are those the other side
      puts in, and every message in flight finds the receiver in a state that accepts it.
    \<^item> \<open>Fees\<close> (\<^verbatim>\<open>fee.rs\<close>, \<^verbatim>\<open>utils/arithmetic.rs\<close>, opening checks of \<^verbatim>\<open>channel.rs\<close>): fee formulas, reserved
      capacities, parameter checks of opening and accepting.
    \<^item> \<open>Channel_State\<close>, \<open>Channel_Funds\<close>, \<open>Channel_Handlers\<close>: the channel record, the guards, the handlers
      that add, remove and settle TLCs, settlement amounts, watchdogs and the deferred queue. Shown:
      every run conserves the funds and keeps each side's offered TLCs covered, settlements pay out
      exactly the channel's funds (less the TLCs a V1 channel leaves out of its own commitment, which are identified), and the
      handlers take the steps of \<open>Commitment_Rounds\<close> and send the messages of these steps.
    \<^item> \<open>Byte_Codec\<close>, \<open>Settlement_Witness\<close>: reading and writing settlement witnesses, byte by byte; the
      locale \<open>prefix_codec\<close> states what a codec promises and is interpreted for every piece.
    \<^item> \<open>Watch_Store\<close>, \<open>Onchain_Reconcile\<close>, \<open>Settlement_Scan\<close>: the watchtower's columns of the store, the
      resolution of TLCs after a close, and the scan of settlement transactions. The scan is a loop
      without a bound in the source; it is given fuel equal to the number of candidate transactions
      plus one, and that this is enough is part of what is proved.
    \<^item> \<open>Commitment_Tx\<close>: commitment transactions, their lock arguments, revocation and its nonces. Shown:
      both sides of a revocation sign the same message in the same order, no nonce of the peer is used
      twice, and a published commitment leads the watchtower back to its settlement.
    \<^item> \<open>Cooperative_Close\<close>: shutdown, closing signatures, force close. Shown: both sides build the same
      closing transaction, which pays each its own funds at its own script, at most one signature and one
      publication per close, and a gap of the fee checks in simultaneous closes.
    \<^item> \<open>Reestablish\<close>: the handshake after a reconnect, in every state of the channel, with the stored commitment it replays.
      Resuming the funding workflow and the exchange of funding signatures are effects. Shown: over every run of two nodes with
      broken connections, exactly the commitments and acknowledgements that were lost are sent again, in their order; and a channel
      that is shutting down keeps ignoring its peer after the handshake.
    \<^item> \<open>Invoice_Store\<close> (\<^verbatim>\<open>fiber-types/src/invoice.rs\<close>, \<^verbatim>\<open>protocol.rs\<close>, \<^verbatim>\<open>invoice/invoice_impl.rs\<close>, rows of \<^verbatim>\<open>store_impl/mod.rs\<close>):
      feature vectors, invoices and their builder, the rows of invoices, preimages and held TLCs, and the commands that
      add, settle and cancel an invoice. Shown: what the builder returns is well-formed, and when two feature vectors are compatible.
    \<^item> \<open>Payment_Receipt\<close>, \<open>Invoice_Lifecycle\<close> (\<^verbatim>\<open>channel.rs\<close>, \<^verbatim>\<open>settle_tlc_set_command.rs\<close>, \<^verbatim>\<open>network.rs\<close>): the checks of the final hop, the
      settlement of a set of TLCs, held TLCs. Shown: a preimage is released only for TLCs that cover the invoice and declare one total, a
      complete payment is settled by the shortest prefix that covers it, invoices only move forward and keep their preimage while open, and
      a release of which some parts are gone from the held set never releases the others.
    \<^item> \<open>Payment_Data\<close> (\<^verbatim>\<open>fiber/payment.rs\<close>): from a command and an invoice to a request. Shown: the final hop admits what
      the payer builds from its invoice.
    \<^item> \<open>Payment_Session\<close>, \<open>Payment_Actor\<close>, \<open>Payment_Replay\<close>, \<open>Payment_Bounds\<close> (\<^verbatim>\<open>fiber/payment.rs\<close>, \<^verbatim>\<open>fiber-types/src/payment.rs\<close>): sessions and
      attempts, the loop that builds the parts (at most \<open>max_parts\<close> iterations, as in the source), and every handler of the
      payment actor as a function on its state and store. Shown: without trampoline hops the parts deliver exactly
      what was left within the fee budget, replayed removals and fulfilments change nothing, and every run puts each attempt back
      at most as often as its limit says.
    \<^item> \<open>Cch_Order\<close>, \<open>Cch_Actor\<close>, \<open>Cch_Safety\<close>, \<open>Cch_Pricing\<close> (\<^verbatim>\<open>fiber-types/src/cch.rs\<close>, \<^verbatim>\<open>fiber-lib/src/cch\<close>): orders and their state
      machine, the hub's handlers with creation, recovery and retries, and the scheduler. The messages are the rules of a step
      relation; a worker that creates an order works on the shared store in one step. The locale \<open>hub_relation\<close> analyses the
      handlers once, for any relation that the few writes to the rows keep; it is interpreted for the progress of orders and for their
      price. Shown: a paid order is settled and never failed or pruned, an outgoing payment leaves time to claim the incoming
      one (and its final hop the time it asks for, up to a fraction of a second on Fiber), and it never costs more than the incoming invoice brings.
    \<^item> This theory composes the hub with the payer: the hub's command, the request validated from it and the parts built for it.

  Not modelled, and why. The network, gossip, RPC, store and watchtower actors are message loops around
  the operations above and around libraries (networking, databases, chain clients) that are not part of the
  repository. Route search weighs edges with floating-point success probabilities; the routes it finds are an argument of
  the payment sessions. Channel V2 sessions and funding negotiation are separate protocols of the channel actor, not
  treated here. Onion encryption, invoice text encoding and key derivation rest on cryptographic packages. The streams from
  LND and the calls to the Fiber node behind the hub are input and output; what they report are its events. Generated
  molecule code, data migrations, bindings, command line, metrics and tests hold no protocol logic of
  their own.
\<close>

section \<open>A swap across the hub and the payer\<close>

text \<open>The hub and the node parse an invoice with the same function; the node may refuse more.\<close>

definition parsers_agree :: "cch_env \<Rightarrow> (bytes \<Rightarrow> (ckb_invoice, payment_data_error) res) \<Rightarrow> bool" where
  "parsers_agree W parse \<longleftrightarrow> (\<forall>text i. parse text = Ok i \<longrightarrow> ce_parse_ckb W text = Some i)"

lemma hub_request_terms:
  assumes "send_payment_data_new R parse t rnd (fiber_send_command req limit budget rate) cur = Ok d" and "parsers_agree W parse"
    and "ce_parse_ckb W req = Some invoice" and "iv_amount invoice = Some amount"
  shows "sp_amount d = amount" and "sp_payment_hash d = id_payment_hash (iv_data invoice)" and "\<exists>m. sp_max_fee_amount d = Some m \<and> unat m \<le> unat budget" and "sp_tlc_expiry_limit d = limit" and "\<not> use_trampoline_routing d"
proof -
  let ?cmd = "fiber_send_command req limit budget rate"
  have cmd: "pc_invoice ?cmd = Some req" "pc_max_fee_amount ?cmd = Some budget" "pc_tlc_expiry_limit ?cmd = Some limit" "pc_trampoline_hops ?cmd = None"
    by (simp_all add: fiber_send_command_def)
  obtain i where i: "parse req = Ok i" using assms(1) cmd(1) by (auto simp: send_payment_data_new_def bind_res_eq_Ok)
  then have "i = invoice" using assms(2,3) by (simp add: parsers_agree_def)
  then show "sp_amount d = amount" "sp_payment_hash d = id_payment_hash (iv_data invoice)"
    using send_payment_data_new_OkE(3,5) [OF assms(1) cmd(1) i] assms(4) by simp_all
  note limits = send_payment_data_new_limits [OF assms(1) cmd(2)]
  then show "\<exists>m. sp_max_fee_amount d = Some m \<and> unat m \<le> unat budget" by (auto simp: word_le_nat_alt)
  show "sp_tlc_expiry_limit d = limit" "\<not> use_trampoline_routing d" using limits(3,4) cmd(3,4) by (simp_all add: unwrap_or_def use_trampoline_routing_def)
qed

text \<open>C7. A swap from Lightning to Fiber pays for itself, from the hub down to the TLCs. When the hub, after any run, asks the node to pay the
  outgoing invoice of an order, the request the node makes of it carries the order's payment hash and the hub's time limit; and whenever the payment
  session builds the parts of that payment, at first or to replace failed ones, whatever routes the search returns, all parts under way together, with their
  routing fees, lock no more than the incoming Lightning invoice of the order asks for. The hub and the node parse
  invoices alike; the fees of the parts already under way are within the budget, which the theorem shows of the parts after building too.
\<close>
theorem bridged_payment_covered:
  assumes "(cch_step W)\<^sup>*\<^sup>* c0 c" and "hub_priced W c0" and "validate_config (cs_config c)"
    and "snd (handle_execute_action W now h SendOutgoingPayment n executed c) = OutgoingRequest (PayFiber req limit budget rate)"
    and "send_payment_data_new R parse t rnd (fiber_send_command req limit budget rate) cur = Ok d" and "parsers_agree W parse"
    and "se_request s = d" and "fees_of (active_attempts s) \<le> unat budget" and "build_payment_routes E s = (s', Ok new)"
  shows "\<exists>order iv owed. cs_orders c h = Some order \<and> co_incoming_invoice order = CchLightning iv \<and> bt_payment_hash iv = h \<and> sp_payment_hash d = h \<and>
      bt_amount_msat iv = Some owed \<and> 1000 * (delivered (active_attempts s') + fees_of (active_attempts s')) \<le> unat owed \<and>
      fees_of (active_attempts s') \<le> unat budget \<and> sp_tlc_expiry_limit d = limit"
proof -
  obtain order where order: "cs_orders c h = Some order" "co_payment_hash order = h" "within_price W order (PayFiber req limit budget rate)"
    using assms(1-4) by (rule hub_sends_within_price)
  then obtain iv owed invoice amount where price: "co_incoming_invoice order = CchLightning iv" "bt_payment_hash iv = h" "bt_amount_msat iv = Some owed"
    "ce_parse_ckb W req = Some invoice" "id_payment_hash (iv_data invoice) = h" "iv_amount invoice = Some amount" "1000 * (unat amount + unat budget) \<le> unat owed"
    by (auto simp: within_price_def)
  note terms = hub_request_terms [OF assms(5,6) price(4,6)]
  note built = built_parts [OF assms(9), unfolded assms(7), OF terms(5)]
  obtain m where m: "sp_max_fee_amount d = Some m" "unat m \<le> unat budget" using terms(3) by blast
  have "fees_of (active_attempts s') = fees_of (active_attempts s) + fees_of new" by (simp add: built(3) fees_of_def)
  then have fees: "fees_of (active_attempts s') \<le> unat budget" using built(6) [OF m(1)] m(2) assms(8) by linarith
  have "1000 * (delivered (active_attempts s') + fees_of (active_attempts s')) \<le> 1000 * (unat amount + unat budget)"
    using fees by (simp add: built(4) terms(1))
  then have "1000 * (delivered (active_attempts s') + fees_of (active_attempts s')) \<le> unat owed" using price(7) by (rule order.trans)
  then show ?thesis using order(1) price(1-3,5) terms(2,4) fees by auto
qed

definition bridge_invoice :: ckb_invoice where
  "bridge_invoice = \<lparr>iv_currency = Fibd, iv_amount = Some 20, iv_data = \<lparr>id_timestamp = 0, id_payment_hash = 8,
     id_attrs = [HashAlgorithm Sha256, FinalHtlcMinimumExpiryDelta 100000000, PayeePublicKey 3]\<rparr>\<rparr>"

definition bridge_env :: cch_env where
  "bridge_env = \<lparr>ce_hashers = sample_hashers, ce_parse_btc = (\<lambda>_. None), ce_parse_ckb = (\<lambda>_. Some bridge_invoice)\<rparr>"

definition bridge_order :: cch_order where
  "bridge_order = sample_order\<lparr>co_status := CchIncomingAccepted, co_payment_preimage := None, co_fee_sats := 5,
     co_incoming_invoice := CchLightning (sample_bolt11\<lparr>bt_amount_msat := Some 25000\<rparr>)\<rparr>"

definition bridge_hub :: cch_state where
  "bridge_hub = sample_hub\<lparr>cs_orders := [8 \<mapsto> bridge_order]\<rparr>"

definition bridge_route_env :: route_env where
  "bridge_route_env = sample_route_env\<lparr>ro_route := (\<lambda>n amount _ _. Ok [sample_route_hop (amount + 1) (Some 8), sample_route_hop amount None])\<rparr>"

lemma bridge_fields:
  "co_status (normalize_amount_sats bridge_order) = CchIncomingAccepted" "co_outgoing_pay_req (normalize_amount_sats bridge_order) = []"
  "co_fee_sats (normalize_amount_sats bridge_order) = 5" "co_created_at (normalize_amount_sats bridge_order) = 0"
  "co_incoming_invoice (normalize_amount_sats bridge_order) = CchLightning (sample_bolt11\<lparr>bt_amount_msat := Some 25000\<rparr>)"
  by (simp_all add: normalize_amount_sats_def bridge_order_def sample_order_def)

lemma bridge_sends:
  "snd (handle_execute_action bridge_env 0 8 SendOutgoingPayment 0 True bridge_hub) = OutgoingRequest (PayFiber [] 108000000 4 (outgoing_max_fee_rate 20 4))"
proof -
  let ?order = "normalize_amount_sats bridge_order"
  have "incoming_expiry_seconds ?order = 216000" "outgoing_min_seconds bridge_env ?order = 100000"
    by (simp_all add: bridge_fields incoming_expiry_seconds_def outgoing_min_seconds_def sample_bolt11_def saturating_mul_def bridge_env_def bridge_invoice_def
        final_tlc_minimum_expiry_delta_or_default_def final_tlc_minimum_expiry_delta_def unwrap_or_def)
  then have "check_expiry_or_fail bridge_env ?order (compute_max_outgoing_expiry_seconds 0 ?order) = Some 108000"
    by (simp add: check_expiry_or_fail_def compute_max_outgoing_expiry_seconds_def bridge_fields saturating_sub_def checked_sub_def)
  moreover have "outgoing_fiber_principal_sats bridge_env ?order = Some 20"
    by (simp add: outgoing_fiber_principal_sats_def bridge_env_def bridge_invoice_def)
  moreover have "get_order_for_action_or_none bridge_hub 8 SendOutgoingPayment = Some ?order"
    by (simp add: get_order_for_action_or_none_def get_order_or_none_def bridge_hub_def action_can_still_run_def order_final_def)
      (simp add: bridge_order_def)
  moreover have "co_status bridge_order = CchIncomingAccepted" by (simp add: bridge_order_def)
  ultimately show ?thesis
    by (simp add: handle_execute_action_def dispatch_action_def dispatch_send_outgoing_def bridge_fields(2,3,5) Let_def bridge_hub_def sample_hub_def
        outgoing_fee_budget_from_fee_sats_def saturating_mul_def MAX_PAYMENT_TLC_EXPIRY_LIMIT_def)
qed

lemma bridge_rate: "outgoing_max_fee_rate 20 4 = 200"
  by (simp add: outgoing_max_fee_rate_def div_ceil_def saturating_mul_def MAX_FEE_RATE_DENOMINATOR_def Let_def)

lemma bridge_request:
  "\<exists>d. send_payment_data_new sample_receipt_env (\<lambda>_. Ok bridge_invoice) 0 0 (fiber_send_command [] 108000000 4 200) Fibd = Ok d \<and> sp_amount d = 20 \<and>
     sp_max_fee_amount d = Some 4 \<and> sp_allow_mpp d = False \<and> sp_dry_run d = False \<and> sp_trampoline_context d = None \<and> sp_trampoline_hops d = None \<and>
     sp_target_pubkey d = 3"
proof -
  have "max_fee_for 20 (Some 200) (Some 4) = Ok 4"
    by (simp add: max_fee_for_def calculate_fee_with_base_def unwrap_or_def MAX_FEE_RATE_DENOMINATOR_def checked_mul_def checked_add_def ok_or_def Let_def)
  moreover have "allow_mpp bridge_invoice = False" by (simp add: allow_mpp_def bridge_invoice_def)
  ultimately show ?thesis
    by (simp add: send_payment_data_new_def fiber_send_command_def)
      (simp add: bridge_invoice_def is_expired_def expiry_time_def payee_pub_key_def validate_field_def udt_type_script_def final_delta_for_def
        final_tlc_minimum_expiry_delta_def hash_and_preimage_for_def unwrap_or_def payment_secret_def build_payment_data_def validate_payment_data_def
        payment_data_of_def expect_def checked_add_def MIN_TLC_EXPIRY_DELTA_def MAX_PAYMENT_TLC_EXPIRY_LIMIT_def validate_trampoline_def
        validate_max_parts_def records_for_def sample_receipt_env_def DEFAULT_COMMITMENT_DELAY_EPOCHS_def MILLI_SECONDS_PER_EPOCH_def)
qed

lemma bridge_build:
  assumes "sp_amount d = 20" "sp_max_fee_amount d = Some 4" "sp_allow_mpp d = False" "sp_dry_run d = False" "sp_trampoline_context d = None" "sp_trampoline_hops d = None"
    "sp_target_pubkey d = 3"
  shows "\<exists>s' new. build_payment_routes bridge_route_env (sample_session\<lparr>se_request := d\<rparr>) = (s', Ok new)"
proof -
  let ?s = "sample_session\<lparr>se_request := d\<rparr>"
  let ?b = "\<lparr>bs_attempt_id = 0, bs_remain = 20, bs_target = 20, bs_max_fee = Some 4, bs_result = []\<rparr>"
  have one_part: "session_max_parts ?s = 1" and none: "active_attempts ?s = []" and direct: "use_trampoline_routing d = False"
    using assms by (simp_all add: session_max_parts_def data_allow_mpp_def use_trampoline_routing_def active_attempts_def)
  obtain single where start: "build_start bridge_route_env ?s = Ok (single, ?b)"
    using assms one_part none direct
    by (simp add: build_start_def remain_amount_def remain_fee_amount_def fee_paid_def single_path_max_for_def sum_words_def checked_mul_def ok_or_def saturating_sub_def
        bridge_route_env_def split: if_splits)
  obtain b' where "build_one bridge_route_env single ?s ?b = (?s, Ok (b', False))" "bs_remain b' = 0"
    using assms one_part none direct
    by (simp add: bridge_route_env_def build_one_def apply_trampoline_forwarding_fee_def check_trampoline_outgoing_tlc_expiry_def embed_trampoline_onion_def push_route_def next_attempt_id_def
      checked_add_def checked_sub_def checked_mul_def ok_or_def sample_route Let_def expect_def receiver_amount_def fee_left_def route_fee_def first_amount_def
      minus_u_def slots_left_def min_def)
  then show ?thesis using start one_part none by (simp add: build_payment_routes_def)
qed

theorem bridged_payment_covered_witness:
  "\<exists>d s' new. send_payment_data_new sample_receipt_env (\<lambda>_. Ok bridge_invoice) 0 0 (fiber_send_command [] 108000000 4 200) Fibd = Ok d \<and>
     build_payment_routes bridge_route_env (sample_session\<lparr>se_request := d\<rparr>) = (s', Ok new) \<and> sp_payment_hash d = 8 \<and>
     1000 * (delivered (active_attempts s') + fees_of (active_attempts s')) \<le> 25000"
proof -
  obtain d where d: "send_payment_data_new sample_receipt_env (\<lambda>_. Ok bridge_invoice) 0 0 (fiber_send_command [] 108000000 4 200) Fibd = Ok d"
    and fields: "sp_amount d = 20" "sp_max_fee_amount d = Some 4" "sp_allow_mpp d = False" "sp_dry_run d = False" "sp_trampoline_context d = None"
      "sp_trampoline_hops d = None" "sp_target_pubkey d = 3"
    using bridge_request by blast
  obtain s' new where built: "build_payment_routes bridge_route_env (sample_session\<lparr>se_request := d\<rparr>) = (s', Ok new)" using bridge_build [OF fields] by blast
  have "order_priced bridge_env bridge_order"
    by (simp add: order_priced_def receive_terms_def bridge_order_def sample_order_def bridge_env_def bridge_invoice_def sha256_invoice_def invoice_hash_algorithm_def
        unwrap_or_def sample_bolt11_def)
  moreover have "co_payment_hash bridge_order = 8" by (simp add: bridge_order_def sample_order_def)
  ultimately have "hub_priced bridge_env bridge_hub" by (simp add: hub_priced_def bridge_hub_def sample_hub_def)
  moreover have "validate_config (cs_config bridge_hub)" by (simp add: validate_config_def bridge_hub_def sample_hub_def)
  moreover have "parsers_agree bridge_env (\<lambda>_. Ok bridge_invoice)" by (simp add: parsers_agree_def bridge_env_def)
  ultimately have "\<exists>order iv owed. cs_orders bridge_hub 8 = Some order \<and> co_incoming_invoice order = CchLightning iv \<and> bt_payment_hash iv = 8 \<and> sp_payment_hash d = 8 \<and>
      bt_amount_msat iv = Some owed \<and> 1000 * (delivered (active_attempts s') + fees_of (active_attempts s')) \<le> unat owed \<and>
      fees_of (active_attempts s') \<le> unat (4 :: u128) \<and> sp_tlc_expiry_limit d = 108000000"
    using bridged_payment_covered [OF rtranclp.rtrancl_refl _ _ bridge_sends [unfolded bridge_rate] d _ _ _ built] by (simp add: active_attempts_def)
  then show ?thesis using d built by (auto simp: bridge_hub_def bridge_order_def)
qed

end
